(* ===== verification/Prelude.thy ===== *)
theory Prelude
  imports Main
    "HOL-Library.Char_ord" "HOL-Library.List_Lexorder" "HOL-Library.Product_Lexorder"
    "HOL-Library.Multiset"
begin

text \<open>
  What every component shares: the collections of facts that component proofs pass to
  the simplifier, Go's 64-bit \<^verbatim>\<open>int\<close>, results that may fail, the sorting routine
  \<^verbatim>\<open>sort.Slice\<close> / \<^verbatim>\<open>sort.SliceStable\<close> with its ordering contract, order-preserving
  duplicate removal (the \<^verbatim>\<open>seen\<close>-map loop that occurs all over the program), and lemmas on
  lists and maps.
\<close>

named_theorems state_simps \<open>unfolding of operations on a component's state\<close>
named_theorems inv_intros \<open>preservation of a component's invariant by its operations\<close>
named_theorems order_simps \<open>comparison functions of the source as comparisons of keys\<close>

section \<open>Go's int\<close>

text \<open>
  \<^verbatim>\<open>int\<close> is 64 bits wide on every platform the program is released for. A value is an
  \<open>int\<close> of HOL; where an operation of the source can leave the range, the model
  applies \<open>wrap64\<close> to the result.
\<close>

definition wrap64 :: "int \<Rightarrow> int" where
  "wrap64 x = (x + 2 ^ 63) mod 2 ^ 64 - 2 ^ 63"

definition int64 :: "int \<Rightarrow> bool" where
  "int64 x \<longleftrightarrow> - (2 ^ 63) \<le> x \<and> x < 2 ^ 63"

lemma wrap64_id [simp]: "int64 x \<Longrightarrow> wrap64 x = x"
  by (simp add: wrap64_def int64_def)

lemma int64_wrap64 [simp]: "int64 (wrap64 x)"
  by (simp add: wrap64_def int64_def)

lemma wrap64_idem [simp]: "wrap64 (wrap64 x) = wrap64 x"
  by simp

lemma wrap64_over: "2 ^ 63 \<le> x \<Longrightarrow> x < 2 ^ 64 \<Longrightarrow> wrap64 x = x - 2 ^ 64"
proof -
  assume "2 ^ 63 \<le> x" "x < 2 ^ 64"
  then have "(x + 2 ^ 63) mod 2 ^ 64 = (x + 2 ^ 63) - 2 ^ 64"
    by (subst mod_pos_geq) auto
  then show ?thesis by (simp add: wrap64_def)
qed

section \<open>Lists\<close>

text \<open>Go's \<^verbatim>\<open>items[lo:hi]\<close> for bounds that are in range.\<close>

definition slice :: "'a list \<Rightarrow> int \<Rightarrow> int \<Rightarrow> 'a list" where
  "slice xs lo hi = take (nat (hi - lo)) (drop (nat lo) xs)"

lemma length_slice:
  "0 \<le> lo \<Longrightarrow> lo \<le> hi \<Longrightarrow> hi \<le> int (length xs) \<Longrightarrow> int (length (slice xs lo hi)) = hi - lo"
  by (auto simp: slice_def)

lemma slice_full [simp]: "slice xs 0 (int (length xs)) = xs"
  by (simp add: slice_def)

lemma slice_empty [simp]: "slice xs lo lo = []"
  by (simp add: slice_def)

lemma slice_append_slice:
  assumes "0 \<le> a" "a \<le> b" "b \<le> c"
  shows "slice xs a b @ slice xs b c = slice xs a c"
proof -
  have "nat (c - a) = nat (b - a) + nat (c - b)" and "nat b = nat a + nat (b - a)"
    using assms by auto
  then show ?thesis
    by (simp add: slice_def take_add add.commute)
qed

text \<open>
  The loop \<^verbatim>\<open>for _, x := range xs { if seen[x] { continue }; seen[x] = true; out = append(out, x) }\<close>:
  it keeps the first occurrence of every element, in order. \<open>dedup_by\<close> is the same loop
  when the map is indexed by a key of the element.
\<close>

fun dedup_seen :: "('a \<Rightarrow> 'k) \<Rightarrow> 'k list \<Rightarrow> 'a list \<Rightarrow> 'a list" where
  "dedup_seen k seen [] = []"
| "dedup_seen k seen (x # xs) =
     (if k x \<in> set seen then dedup_seen k seen xs
      else x # dedup_seen k (k x # seen) xs)"

definition dedup_by :: "('a \<Rightarrow> 'k) \<Rightarrow> 'a list \<Rightarrow> 'a list" where
  "dedup_by k = dedup_seen k []"

abbreviation dedup :: "'a list \<Rightarrow> 'a list" where
  "dedup \<equiv> dedup_by (\<lambda>x. x)"

lemma dedup_seen_keys: "k ` set (dedup_seen k seen xs) = k ` set xs - set seen"
  by (induction k seen xs rule: dedup_seen.induct) auto

lemma dedup_seen_subset: "set (dedup_seen k seen xs) \<subseteq> set xs"
  by (induction k seen xs rule: dedup_seen.induct) auto

lemma distinct_dedup_seen: "distinct (map k (dedup_seen k seen xs))"
  by (induction k seen xs rule: dedup_seen.induct) (simp_all add: dedup_seen_keys)

lemma dedup_by_keys [simp]: "k ` set (dedup_by k xs) = k ` set xs"
  by (simp add: dedup_by_def dedup_seen_keys)

lemma set_dedup [simp]: "set (dedup xs) = set xs"
  using dedup_by_keys [of "\<lambda>x. x" xs] by simp

lemma dedup_by_subset: "set (dedup_by k xs) \<subseteq> set xs"
  by (simp add: dedup_by_def dedup_seen_subset)

lemma distinct_dedup_by [simp]: "distinct (map k (dedup_by k xs))"
  by (simp add: dedup_by_def distinct_dedup_seen)

lemma distinct_dedup [simp]: "distinct (dedup xs)"
  using distinct_dedup_by [of "\<lambda>x. x" xs] by simp

lemma dedup_seen_id:
  "distinct (map k xs) \<Longrightarrow> k ` set xs \<inter> set seen = {} \<Longrightarrow> dedup_seen k seen xs = xs"
  by (induction k seen xs rule: dedup_seen.induct) (auto simp: image_iff)

lemma dedup_by_id [simp]: "distinct (map k xs) \<Longrightarrow> dedup_by k xs = xs"
  by (simp add: dedup_by_def dedup_seen_id)

lemma dedup_id [simp]: "distinct xs \<Longrightarrow> dedup xs = xs"
  by simp

lemma dedup_seen_Nil [simp]: "dedup_by k [] = []"
  by (simp add: dedup_by_def)

lemma dedup_eq_Nil [simp]: "dedup xs = [] \<longleftrightarrow> xs = []"
proof
  assume "dedup xs = []"
  then have "set (dedup xs) = {}" by simp
  then show "xs = []" by (simp only: set_dedup set_empty)
qed simp

section \<open>Sorting\<close>

text \<open>
  \<^verbatim>\<open>sort.SliceStable(xs, lt)\<close> as stable insertion sort. \<^verbatim>\<open>sort.Slice\<close> promises the
  same up to the order of elements that \<open>lt\<close> does not separate; the model uses the
  stable order for those as well.
\<close>

fun insert_by :: "('a \<Rightarrow> 'a \<Rightarrow> bool) \<Rightarrow> 'a \<Rightarrow> 'a list \<Rightarrow> 'a list" where
  "insert_by lt x [] = [x]"
| "insert_by lt x (y # ys) = (if lt y x then y # insert_by lt x ys else x # y # ys)"

fun sort_slice :: "('a \<Rightarrow> 'a \<Rightarrow> bool) \<Rightarrow> 'a list \<Rightarrow> 'a list" where
  "sort_slice lt [] = []"
| "sort_slice lt (x # xs) = insert_by lt x (sort_slice lt xs)"

lemma mset_insert_by [simp]: "mset (insert_by lt x xs) = add_mset x (mset xs)"
  by (induction xs) auto

lemma mset_sort_slice [simp]: "mset (sort_slice lt xs) = mset xs"
  by (induction xs) auto

lemma set_sort_slice [simp]: "set (sort_slice lt xs) = set xs"
  by (metis mset_sort_slice set_mset_mset)

lemma length_sort_slice [simp]: "length (sort_slice lt xs) = length xs"
  by (metis mset_sort_slice size_mset)

lemma distinct_sort_slice [simp]: "distinct (sort_slice lt xs) = distinct xs"
  by (metis mset_sort_slice mset_eq_imp_distinct_iff)

text \<open>
  The contract a \<open>lt\<close> function owes \<^verbatim>\<open>sort\<close>: a strict weak order. Its lemmas
  give sortedness and stability once for all comparison functions of the program.
\<close>

locale less_order =
  fixes lt :: "'a \<Rightarrow> 'a \<Rightarrow> bool"
  assumes asym: "lt x y \<Longrightarrow> \<not> lt y x"
    and neg_trans: "lt x z \<Longrightarrow> lt x y \<or> lt y z"
begin

lemma irrefl: "\<not> lt x x"
  using asym by blast

lemma set_insert_by: "set (insert_by lt x xs) = insert x (set xs)"
  by (metis mset_insert_by set_mset_add_mset_insert set_mset_mset)

lemma sorted_insert_by:
  "sorted_wrt (\<lambda>a b. \<not> lt b a) xs \<Longrightarrow> sorted_wrt (\<lambda>a b. \<not> lt b a) (insert_by lt x xs)"
proof (induction xs)
  case (Cons y ys)
  then show ?case
    using asym neg_trans by (auto simp: set_insert_by) blast+
qed simp

lemma sorted_sort_slice: "sorted_wrt (\<lambda>a b. \<not> lt b a) (sort_slice lt xs)"
  by (induction xs) (auto intro: sorted_insert_by)

lemma filter_insert_by:
  "(\<And>y. y \<in> set xs \<Longrightarrow> lt y x \<Longrightarrow> P x \<Longrightarrow> \<not> P y)
   \<Longrightarrow> filter P (insert_by lt x xs) = (if P x then x # filter P xs else filter P xs)"
  by (induction xs) auto

lemma sort_slice_stable:
  assumes "\<And>x y. P x \<Longrightarrow> P y \<Longrightarrow> \<not> lt x y"
  shows "filter P (sort_slice lt xs) = filter P xs"
proof (induction xs)
  case (Cons x xs)
  have "filter P (insert_by lt x (sort_slice lt xs))
        = (if P x then x # filter P (sort_slice lt xs) else filter P (sort_slice lt xs))"
    by (rule filter_insert_by) (use assms in blast)
  with Cons show ?case by simp
qed simp

lemma sort_slice_sorted_id:
  "sorted_wrt (\<lambda>a b. \<not> lt b a) xs \<Longrightarrow> sort_slice lt xs = xs"
proof (induction xs)
  case (Cons x xs)
  then show ?case by (cases xs) auto
qed simp

end

text \<open>
  Most comparison functions compare a tuple of fields lexicographically, which makes them
  comparisons of a key in a linear order.
\<close>

locale key_order =
  fixes lt :: "'a \<Rightarrow> 'a \<Rightarrow> bool" and key :: "'a \<Rightarrow> 'k::linorder"
  assumes less_key: "lt x y \<longleftrightarrow> key x < key y"
begin

lemma insert_by_insort: "insert_by lt x xs = insort_key key x xs"
  by (induction xs) (auto simp: less_key not_le)

lemma sort_slice_sort_key: "sort_slice lt xs = sort_key key xs"
  by (induction xs) (auto simp: insert_by_insort)

lemma sorted_keys: "sorted (map key (sort_slice lt xs))"
  by (simp add: sort_slice_sort_key)

end

sublocale key_order \<subseteq> less_order
  by unfold_locales (auto simp: less_key)

text \<open>\<^verbatim>\<open>sort.Strings\<close> is the library's \<open>sort\<close> on the bytewise order of strings.\<close>

lemma sort_dedup_set: "set (sort (dedup xs)) = set xs"
  by simp

lemma strict_sorted_sort: "distinct xs \<Longrightarrow> sorted_wrt (<) (sort (xs :: 'a::linorder list))"
  by (simp add: strict_sorted_iff)

section \<open>Results\<close>

text \<open>A Go function returning \<^verbatim>\<open>(T, error)\<close> is an \<open>error + T\<close>.\<close>

lemma sum_case_Inr_iff:
  "(case r of Inl e \<Rightarrow> Inl e | Inr x \<Rightarrow> f x) = Inr y \<longleftrightarrow> (\<exists>x. r = Inr x \<and> f x = Inr y)"
  by (cases r) auto

end
