(* ===== verification/Graph_Search.thy ===== *)
theory Graph_Search
  imports Prelude
begin

text \<open>
  The two ways the program walks a graph it holds as successor lists: a recursive visit with a
  set of nodes already seen (dead code, loaded packages) and a worklist with a visited set
  (reverse dependencies). Both are written with fuel; the lemmas give the fuel that is enough
  and the set of nodes that is reached.
\<close>

text \<open>
  \<^verbatim>\<open>visit(n)\<close>: return if seen, else mark and visit the successors in order. The list holds the
  nodes marked, last first.
\<close>

fun visit :: "nat \<Rightarrow> ('a \<Rightarrow> 'a list) \<Rightarrow> 'a \<Rightarrow> 'a list \<Rightarrow> 'a list" where
  "visit 0 succ n seen = seen"
| "visit (Suc fuel) succ n seen =
     (if n \<in> set seen then seen else fold (visit fuel succ) (succ n) (n # seen))"

definition visitAll :: "nat \<Rightarrow> ('a \<Rightarrow> 'a list) \<Rightarrow> 'a list \<Rightarrow> 'a list" where
  "visitAll fuel succ roots = fold (visit fuel succ) roots []"

text \<open>
  The worklist: take the first of the queue, mark its unmarked successors and append them.
\<close>

fun enqueue_new :: "'a list \<Rightarrow> 'a list \<times> 'a list \<Rightarrow> 'a list \<times> 'a list" where
  "enqueue_new [] (visited, queue) = (visited, queue)"
| "enqueue_new (x # xs) (visited, queue) =
     (if x \<in> set visited then enqueue_new xs (visited, queue)
      else enqueue_new xs (x # visited, queue @ [x]))"

fun bfs :: "nat \<Rightarrow> ('a \<Rightarrow> 'a list) \<Rightarrow> 'a list \<Rightarrow> 'a list \<Rightarrow> 'a list" where
  "bfs 0 succ visited queue = visited"
| "bfs (Suc fuel) succ visited [] = visited"
| "bfs (Suc fuel) succ visited (x # queue) =
     (case enqueue_new (succ x) (visited, queue) of (visited, queue) \<Rightarrow> bfs fuel succ visited queue)"

inductive reach_from :: "('a \<Rightarrow> 'a list) \<Rightarrow> 'a set \<Rightarrow> 'a \<Rightarrow> bool" for succ roots where
  root: "x \<in> roots \<Longrightarrow> reach_from succ roots x"
| step: "reach_from succ roots x \<Longrightarrow> y \<in> set (succ x) \<Longrightarrow> reach_from succ roots y"

lemma reach_from_mono: "reach_from succ A x \<Longrightarrow> A \<subseteq> B \<Longrightarrow> reach_from succ B x"
  by (induction rule: reach_from.induct) (auto intro: reach_from.intros)

lemma reach_from_closed:
  "reach_from succ roots x \<Longrightarrow> roots \<subseteq> S \<Longrightarrow> (\<And>y. y \<in> S \<Longrightarrow> set (succ y) \<subseteq> S) \<Longrightarrow> x \<in> S"
  by (induction rule: reach_from.induct) auto

lemma reach_from_step_root: "y \<in> set (succ n) \<Longrightarrow> reach_from succ {y} x \<Longrightarrow> reach_from succ {n} x"
  by (rotate_tac, induction rule: reach_from.induct) (auto intro: reach_from.intros)

text \<open>A finite set of nodes that is closed under successors.\<close>

locale finite_graph =
  fixes succ :: "'a \<Rightarrow> 'a list" and nodes :: "'a set"
  assumes fin: "finite nodes"
    and closed: "x \<in> nodes \<Longrightarrow> set (succ x) \<subseteq> nodes"
begin

lemma reach_nodes: "reach_from succ A x \<Longrightarrow> A \<subseteq> nodes \<Longrightarrow> x \<in> nodes"
  by (rule reach_from_closed) (use closed in auto)

text \<open>
  A visit adds nodes reachable from where it starts and leaves no added node with a successor
  outside.
\<close>

definition visited_ok :: "'a set \<Rightarrow> 'a list \<Rightarrow> 'a list \<Rightarrow> bool" where
  "visited_ok roots seen res \<longleftrightarrow> set seen \<subseteq> set res \<and> set res \<subseteq> nodes
     \<and> (distinct seen \<longrightarrow> distinct res)
     \<and> (\<forall>x \<in> set res - set seen. reach_from succ roots x \<and> set (succ x) \<subseteq> set res)"

lemma visited_ok_fold:
  assumes "\<And>x s. x \<in> set xs \<Longrightarrow> set seen \<subseteq> set s \<Longrightarrow> set s \<subseteq> nodes \<Longrightarrow>
      visited_ok {x} s (f x s) \<and> x \<in> set (f x s)"
    and "set seen \<subseteq> nodes"
  shows "visited_ok (set xs) seen (fold f xs seen) \<and> set xs \<subseteq> set (fold f xs seen)"
  using assms
proof (induction xs arbitrary: seen)
  case (Cons x xs)
  have 1: "visited_ok {x} seen (f x seen)" "x \<in> set (f x seen)"
    using Cons.prems by auto
  let ?r = "fold f xs (f x seen)"
  have 2: "visited_ok (set xs) (f x seen) ?r \<and> set xs \<subseteq> set ?r"
  proof (rule Cons.IH)
    show "set (f x seen) \<subseteq> nodes" using 1 by (simp add: visited_ok_def)
    fix y s assume "y \<in> set xs" "set (f x seen) \<subseteq> set s" "set s \<subseteq> nodes"
    with 1 show "visited_ok {y} s (f y s) \<and> y \<in> set (f y s)"
      by (intro Cons.prems(1)) (auto simp: visited_ok_def)
  qed
  have sub: "set (f x seen) \<subseteq> set ?r" using 2 by (simp add: visited_ok_def)
  have "reach_from succ (set (x # xs)) y \<and> set (succ y) \<subseteq> set ?r" if y: "y \<in> set ?r - set seen" for y
  proof (cases "y \<in> set (f x seen)")
    case True
    with 1 y have "reach_from succ {x} y" "set (succ y) \<subseteq> set (f x seen)" by (auto simp: visited_ok_def)
    with sub show ?thesis using reach_from_mono [of succ "{x}" y "set (x # xs)"] by auto
  next
    case False
    with 2 y have "reach_from succ (set xs) y" "set (succ y) \<subseteq> set ?r" by (auto simp: visited_ok_def)
    then show ?thesis using reach_from_mono [of succ "set xs" y "set (x # xs)"] by auto
  qed
  moreover have "set seen \<subseteq> set ?r" "set ?r \<subseteq> nodes" "distinct seen \<longrightarrow> distinct ?r"
    using 1 2 by (auto simp: visited_ok_def)
  ultimately have "visited_ok (set (x # xs)) seen ?r" unfolding visited_ok_def by blast
  moreover have "set (x # xs) \<subseteq> set ?r" using 1(2) 2 sub by auto
  ultimately show ?case by simp
qed (simp add: visited_ok_def)

lemma visit_ok:
  "\<lbrakk>n \<in> nodes; set seen \<subseteq> nodes; card (nodes - set seen) < fuel\<rbrakk> \<Longrightarrow>
     visited_ok {n} seen (visit fuel succ n seen) \<and> n \<in> set (visit fuel succ n seen)"
proof (induction fuel arbitrary: n seen)
  case (Suc fuel)
  show ?case
  proof (cases "n \<in> set seen")
    case True
    with Suc.prems show ?thesis by (simp add: visited_ok_def)
  next
    case False
    let ?s = "n # seen"
    let ?r = "fold (visit fuel succ) (succ n) ?s"
    have less: "card (nodes - set ?s) < card (nodes - set seen)"
      using False Suc.prems(1) fin by (intro psubset_card_mono) auto
    have "visited_ok (set (succ n)) ?s ?r \<and> set (succ n) \<subseteq> set ?r"
    proof (rule visited_ok_fold)
      show "set ?s \<subseteq> nodes" using Suc.prems by simp
      fix x s assume "x \<in> set (succ n)" "set ?s \<subseteq> set s" "set s \<subseteq> nodes"
      moreover from this have "card (nodes - set s) \<le> card (nodes - set ?s)"
        using fin by (intro card_mono) auto
      ultimately show "visited_ok {x} s (visit fuel succ x s) \<and> x \<in> set (visit fuel succ x s)"
        using Suc.prems less closed by (intro Suc.IH) auto
    qed
    moreover have "reach_from succ {n} x" if "reach_from succ (set (succ n)) x" for x
      using that by (induction rule: reach_from.induct) (auto intro: reach_from.intros)
    ultimately have ok: "visited_ok (set (succ n)) ?s ?r" "set (succ n) \<subseteq> set ?r"
      "\<And>x. reach_from succ (set (succ n)) x \<Longrightarrow> reach_from succ {n} x" by blast+
    have "reach_from succ {n} x \<and> set (succ x) \<subseteq> set ?r" if "x \<in> set ?r - set seen" for x
    proof (cases "x = n")
      case True
      then show ?thesis using ok(2) by (auto intro: reach_from.root)
    next
      case False
      with ok(1,3) that show ?thesis by (auto simp: visited_ok_def)
    qed
    with ok(1) False show ?thesis by (auto simp: visited_ok_def)
  qed
qed simp

theorem visitAll_reaches:
  assumes "set roots \<subseteq> nodes" "card nodes < fuel"
  shows "set (visitAll fuel succ roots) = {x. reach_from succ (set roots) x}"
    "distinct (visitAll fuel succ roots)"
proof -
  let ?r = "visitAll fuel succ roots"
  have "visited_ok (set roots) [] ?r \<and> set roots \<subseteq> set ?r"
    unfolding visitAll_def
  proof (rule visited_ok_fold)
    fix x s assume "x \<in> set roots" "set s \<subseteq> nodes"
    moreover have "card (nodes - set s) \<le> card nodes" using fin by (intro card_mono) auto
    ultimately show "visited_ok {x} s (visit fuel succ x s) \<and> x \<in> set (visit fuel succ x s)"
      using assms by (intro visit_ok) auto
  qed simp
  then have ok: "visited_ok (set roots) [] ?r" "set roots \<subseteq> set ?r" by blast+
  have "x \<in> set ?r" if "reach_from succ (set roots) x" for x
    by (rule reach_from_closed [OF that]) (use ok in \<open>auto simp: visited_ok_def\<close>)
  with ok show "set ?r = {x. reach_from succ (set roots) x}" "distinct ?r"
    by (auto simp: visited_ok_def)
qed

lemma enqueue_new_spec:
  "enqueue_new xs (v, q) = (v', q') \<Longrightarrow> \<exists>new. q' = q @ new \<and> set v' = set v \<union> set new \<and> set new = set xs - set v
     \<and> length v' = length v + length new \<and> (distinct v \<longrightarrow> distinct v')"
proof (induction xs arbitrary: v q)
  case (Cons x xs)
  show ?case
  proof (cases "x \<in> set v")
    case True
    with Cons show ?thesis by (auto simp: insert_absorb)
  next
    case False
    with Cons.prems have "enqueue_new xs (x # v, q @ [x]) = (v', q')" by simp
    from Cons.IH [OF this] obtain new where
      "q' = (q @ [x]) @ new" "set v' = set (x # v) \<union> set new" "set new = set xs - set (x # v)"
      "length v' = length (x # v) + length new" "distinct (x # v) \<longrightarrow> distinct v'" by blast
    with False have "q' = q @ (x # new) \<and> set v' = set v \<union> set (x # new) \<and> set (x # new) = set (x # xs) - set v
      \<and> length v' = length v + length (x # new) \<and> (distinct v \<longrightarrow> distinct v')" by auto
    then show ?thesis by blast
  qed
qed simp

lemma bfs_closed:
  "\<lbrakk>distinct v; set v \<subseteq> nodes; set q \<subseteq> set v; card (nodes - set v) + length q \<le> fuel;
    \<forall>x \<in> set v - set q. set (succ x) \<subseteq> set v; \<forall>x \<in> set v. reach_from succ roots x\<rbrakk> \<Longrightarrow>
   set v \<subseteq> set (bfs fuel succ v q) \<and> distinct (bfs fuel succ v q)
   \<and> (\<forall>x \<in> set (bfs fuel succ v q). set (succ x) \<subseteq> set (bfs fuel succ v q) \<and> reach_from succ roots x)"
proof (induction fuel arbitrary: v q)
  case (Suc fuel)
  show ?case
  proof (cases q)
    case (Cons x q1)
    obtain v' q' where e: "enqueue_new (succ x) (v, q1) = (v', q')" by fastforce
    from enqueue_new_spec [OF e] obtain new where n:
      "q' = q1 @ new" "set v' = set v \<union> set new" "set new = set (succ x) - set v"
      "length v' = length v + length new" "distinct v'" using Suc.prems(1) by blast
    have x: "x \<in> set v" "x \<in> nodes" using Suc.prems(2,3) Cons by auto
    have sub: "set v' \<subseteq> nodes" using n closed [OF x(2)] Suc.prems(2) by auto
    have "card (nodes - set v') = card nodes - length v'" "card (nodes - set v) = card nodes - length v"
      "length v' \<le> card nodes"
      using sub n(5) Suc.prems(1,2) fin
      by (simp_all add: card_Diff_subset distinct_card card_mono finite_subset flip: distinct_card)
    then have fuel: "card (nodes - set v') + length q' \<le> fuel"
      using Suc.prems(4) n(1,4) Cons by simp
    have closed': "\<forall>y \<in> set v' - set q'. set (succ y) \<subseteq> set v'"
    proof
      fix y assume y: "y \<in> set v' - set q'"
      show "set (succ y) \<subseteq> set v'"
      proof (cases "y = x")
        case True
        then show ?thesis using n by auto
      next
        case False
        with y n Cons have "y \<in> set v - set q" by auto
        with Suc.prems(5) n show ?thesis by auto
      qed
    qed
    have "\<forall>y \<in> set v'. reach_from succ roots y"
      using n Suc.prems(6) x(1) by (auto intro: reach_from.step)
    moreover have "set q' \<subseteq> set v'" using n Suc.prems(3) Cons by auto
    ultimately have "set v' \<subseteq> set (bfs fuel succ v' q') \<and> distinct (bfs fuel succ v' q')
      \<and> (\<forall>x \<in> set (bfs fuel succ v' q'). set (succ x) \<subseteq> set (bfs fuel succ v' q') \<and> reach_from succ roots x)"
      by (intro Suc.IH n(5) sub fuel closed')
    with e n Cons show ?thesis by simp
  qed (use Suc.prems in simp)
qed simp

theorem bfs_reaches:
  assumes "distinct roots" "set roots \<subseteq> nodes" "card nodes \<le> fuel"
  shows "set (bfs fuel succ roots roots) = {x. reach_from succ (set roots) x}"
    "distinct (bfs fuel succ roots roots)"
proof -
  have len: "length roots \<le> card nodes"
    using assms(1,2) fin by (metis card_mono distinct_card)
  have "card (nodes - set roots) = card nodes - length roots"
    using assms(1,2) fin by (simp add: card_Diff_subset distinct_card)
  then have "card (nodes - set roots) + length roots \<le> fuel" using len assms(3) by simp
  moreover have "\<forall>x \<in> set roots. reach_from succ (set roots) x" by (auto intro: reach_from.root)
  ultimately have ok: "set roots \<subseteq> set (bfs fuel succ roots roots) \<and> distinct (bfs fuel succ roots roots)
     \<and> (\<forall>x \<in> set (bfs fuel succ roots roots). set (succ x) \<subseteq> set (bfs fuel succ roots roots)
          \<and> reach_from succ (set roots) x)"
    by (intro bfs_closed assms) auto
  have "x \<in> set (bfs fuel succ roots roots)" if "reach_from succ (set roots) x" for x
    by (rule reach_from_closed [OF that]) (use ok in auto)
  with ok show "set (bfs fuel succ roots roots) = {x. reach_from succ (set roots) x}"
    "distinct (bfs fuel succ roots roots)"
    by auto
qed


end

end
