(* ===== verification/Encoding.thy ===== *)
theory Encoding
  imports Go_Strings
begin

text \<open>
  The encodings of the standard library that the program's tokens go through:
  \<^verbatim>\<open>base64.RawURLEncoding\<close> (both directions, with the round trip) and the quoting of
  strings by \<^verbatim>\<open>encoding/json\<close>.
\<close>

section \<open>base64.RawURLEncoding\<close>

definition b64_alphabet :: string where
  "b64_alphabet = ''ABCDEFGHIJKLMNOPQRSTUVWXYZabcdefghijklmnopqrstuvwxyz0123456789-_''"

definition b64_char :: "nat \<Rightarrow> char" where
  "b64_char n = b64_alphabet ! n"

definition b64_val :: "char \<Rightarrow> nat option" where
  "b64_val c = Index b64_alphabet c"

fun b64_encode :: "string \<Rightarrow> string" where
  "b64_encode [] = []"
| "b64_encode [a] =
     (let x = of_char a :: nat
      in [b64_char (x div 4), b64_char (x mod 4 * 16)])"
| "b64_encode [a, b] =
     (let x = of_char a; y = of_char b :: nat
      in [b64_char (x div 4), b64_char (x mod 4 * 16 + y div 16), b64_char (y mod 16 * 4)])"
| "b64_encode (a # b # c # r) =
     (let x = of_char a; y = of_char b; z = of_char c :: nat
      in b64_char (x div 4) # b64_char (x mod 4 * 16 + y div 16)
         # b64_char (y mod 16 * 4 + z div 64) # b64_char (z mod 64) # b64_encode r)"

text \<open>
  Decoding reads groups of four digits; a final group of two or three digits gives one or
  two bytes, a single digit left over is an error. Line breaks in the input are skipped, as
  the library does.
\<close>

fun b64_groups :: "nat list \<Rightarrow> string option" where
  "b64_groups [] = Some []"
| "b64_groups [p] = None"
| "b64_groups [p, q] = Some [char_of (p * 4 + q div 16)]"
| "b64_groups [p, q, r] = Some [char_of (p * 4 + q div 16), char_of (q mod 16 * 16 + r div 4)]"
| "b64_groups (p # q # r # s # xs) =
     map_option (\<lambda>t. char_of (p * 4 + q div 16) # char_of (q mod 16 * 16 + r div 4)
                      # char_of (r mod 4 * 64 + s) # t) (b64_groups xs)"

definition b64_decode :: "string \<Rightarrow> string option" where
  "b64_decode s =
     (let vs = map b64_val (filter (\<lambda>c. c \<noteq> CHR 0x0A \<and> c \<noteq> CHR 0x0D) s)
      in if None \<in> set vs then None else b64_groups (map the vs))"

lemma b64_val_upto: "list_all (\<lambda>n. b64_val (b64_char n) = Some n) [0..<64]"
  by code_simp

lemma b64_char_upto: "list_all (\<lambda>n. b64_char n \<noteq> CHR 0x0A \<and> b64_char n \<noteq> CHR 0x0D) [0..<64]"
  by code_simp

lemma b64_val_char [simp]: "n < 64 \<Longrightarrow> b64_val (b64_char n) = Some n"
  using b64_val_upto by (simp add: list_all_iff)

lemma b64_char_ok [simp]:
  assumes "n < 64"
  shows "b64_char n \<noteq> CHR 0x0A" "b64_char n \<noteq> CHR 0x0D"
  using b64_char_upto assms by (auto simp: list_all_iff)

lemma of_char_byte: "(of_char c :: nat) < 256"
  by simp

lemma byte_parts:
  fixes x y z :: nat
  assumes "x < 256" "y < 256" "z < 256"
  shows "x div 4 < 64" "x mod 4 * 16 < 64" "x mod 4 * 16 + y div 16 < 64"
    "y mod 16 * 4 < 64" "y mod 16 * 4 + z div 64 < 64" "z mod 64 < 64"
  using assms by auto

lemma regroup:
  fixes x y z :: nat
  assumes "x < 256" "y < 256" "z < 256"
  shows "x div 4 * 4 + x mod 4 * 16 div 16 = x"
    "x div 4 * 4 + (x mod 4 * 16 + y div 16) div 16 = x"
    "(x mod 4 * 16 + y div 16) mod 16 * 16 + y mod 16 * 4 div 4 = y"
    "(x mod 4 * 16 + y div 16) mod 16 * 16 + (y mod 16 * 4 + z div 64) div 4 = y"
    "(y mod 16 * 4 + z div 64) mod 4 * 64 + z mod 64 = z"
  using assms by auto

lemma b64_decode_two:
  "p < 64 \<Longrightarrow> q < 64 \<Longrightarrow> b64_decode [b64_char p, b64_char q] = Some [char_of (p * 4 + q div 16)]"
  by (simp add: b64_decode_def)

lemma b64_decode_three:
  "p < 64 \<Longrightarrow> q < 64 \<Longrightarrow> r < 64 \<Longrightarrow> b64_decode [b64_char p, b64_char q, b64_char r]
   = Some [char_of (p * 4 + q div 16), char_of (q mod 16 * 16 + r div 4)]"
  by (simp add: b64_decode_def)

lemma b64_decode_four:
  "p < 64 \<Longrightarrow> q < 64 \<Longrightarrow> r < 64 \<Longrightarrow> s < 64 \<Longrightarrow>
   b64_decode (b64_char p # b64_char q # b64_char r # b64_char s # t)
   = map_option (\<lambda>u. char_of (p * 4 + q div 16) # char_of (q mod 16 * 16 + r div 4)
                      # char_of (r mod 4 * 64 + s) # u) (b64_decode t)"
  by (simp add: b64_decode_def Let_def)

lemma b64_round_trip: "b64_decode (b64_encode s) = Some s"
proof (induction s rule: b64_encode.induct)
  case 1
  show ?case by (simp add: b64_decode_def)
next
  case (2 a)
  note x = of_char_byte [of a]
  show ?case
    by (simp only: b64_encode.simps Let_def b64_decode_two byte_parts [OF x x x]
        regroup [OF x x x] char_of_char)
next
  case (3 a b)
  note x = of_char_byte [of a] and y = of_char_byte [of b]
  show ?case
    by (simp only: b64_encode.simps Let_def b64_decode_three byte_parts [OF x y x]
        regroup [OF x y x] char_of_char)
next
  case (4 a b c r)
  note x = of_char_byte [of a] and y = of_char_byte [of b] and z = of_char_byte [of c]
  show ?case
    by (simp only: b64_encode.simps Let_def b64_decode_four byte_parts [OF x y z]
        regroup [OF x y z] char_of_char 4 [OF refl refl refl] option.map)
qed

lemma b64_encode_eq_Nil [simp]: "b64_encode s = [] \<longleftrightarrow> s = []"
  by (induction s rule: b64_encode.induct) (auto simp: Let_def)

section \<open>Quoted strings\<close>

text \<open>
  \<^verbatim>\<open>json.Marshal\<close> of a string, with the HTML escapes it applies. Bytes outside ASCII are
  copied, which is what the library does for valid UTF-8 other than the two line separators.
\<close>

definition hex4 :: "nat \<Rightarrow> string" where
  "hex4 n = [hex_digit (n div 4096 mod 16), hex_digit (n div 256 mod 16),
             hex_digit (n div 16 mod 16), hex_digit (n mod 16)]"

definition json_escape :: "char \<Rightarrow> string" where
  "json_escape c =
     (let n = of_char c :: nat in
      if n = 34 \<or> n = 92 then [CHR 0x5C, c]
      else if n = 8 then [CHR 0x5C, CHR ''b''] else if n = 12 then [CHR 0x5C, CHR ''f'']
      else if n = 10 then [CHR 0x5C, CHR ''n''] else if n = 13 then [CHR 0x5C, CHR ''r'']
      else if n = 9 then [CHR 0x5C, CHR ''t'']
      else if n < 32 \<or> n = 38 \<or> n = 60 \<or> n = 62 then CHR 0x5C # CHR ''u'' # hex4 n
      else [c])"

definition json_string :: "string \<Rightarrow> string" where
  "json_string s = CHR 0x22 # concat (map json_escape s) @ [CHR 0x22]"

definition plain_char :: "char \<Rightarrow> bool" where
  "plain_char c \<longleftrightarrow> 48 \<le> (of_char c :: nat) \<and> (of_char c :: nat) \<le> 122 \<and>
     (of_char c :: nat) \<noteq> 60 \<and> (of_char c :: nat) \<noteq> 62 \<and> (of_char c :: nat) \<noteq> 92"

lemma json_string_plain: "list_all plain_char s \<Longrightarrow> json_string s = CHR 0x22 # s @ [CHR 0x22]"
proof -
  assume "list_all plain_char s"
  then have "concat (map json_escape s) = s"
    by (induction s) (auto simp: json_escape_def plain_char_def Let_def)
  then show ?thesis by (simp add: json_string_def)
qed

lemma hex_digit_plain: "n < 16 \<Longrightarrow> plain_char (hex_digit n)"
proof -
  have "list_all (\<lambda>n. plain_char (hex_digit n)) [0..<16]" by code_simp
  then show "n < 16 \<Longrightarrow> plain_char (hex_digit n)" by (simp add: list_all_iff)
qed

lemma hex_encode_plain: "list_all plain_char (hex_encode bs)"
proof (induction bs)
  case (Cons b bs)
  have "(of_char b :: nat) div 16 < 16"
    using of_char_byte [of b] by (simp only: less_mult_imp_div_less)
  with Cons show ?case by (simp add: hex_encode_def hex_digit_plain)
qed (simp add: hex_encode_def)

end
