(* ===== verification/Graph_Export.thy ===== *)
theory Graph_Export
  imports Encoding
begin

text \<open>
  \<^verbatim>\<open>analyzer/graph_export.go\<close>: the builder that collects nodes and edges of a diagram and
  the three renderers. \<^verbatim>\<open>fmt\<close>'s \<^verbatim>\<open>%q\<close> is modelled on ASCII, with other bytes copied, and the
  JSON object order is that of the struct fields.
\<close>

section \<open>Formats\<close>

definition ExportNone :: string where "ExportNone = ''''"
definition ExportMermaid :: string where "ExportMermaid = ''mermaid''"
definition ExportDOT :: string where "ExportDOT = ''dot''"
definition ExportJSONGraph :: string where "ExportJSONGraph = ''json-graph''"

definition ParseExportFormat :: "string \<Rightarrow> string + string" where
  "ParseExportFormat s =
     (let t = ToLower (TrimSpace s)
      in if t = '''' then Inr ExportNone
         else if t = ''mermaid'' \<or> t = ''mmd'' then Inr ExportMermaid
         else if t = ''dot'' \<or> t = ''graphviz'' then Inr ExportDOT
         else if t = ''json-graph'' \<or> t = ''jsongraph'' \<or> t = ''json_graph'' \<or> t = ''graph'' then Inr ExportJSONGraph
         else Inl ''unsupported export format'')"

section \<open>Graphs and the builder\<close>

record GraphNode =
  gn_ID :: string
  gn_Label :: string
  gn_Class :: string

record GraphEdge =
  ge_From :: string
  ge_To :: string
  ge_Label :: string
  ge_Style :: string

record Graph =
  gr_Title :: string
  gr_Direction :: string
  gr_Nodes :: "GraphNode list"
  gr_Edges :: "GraphEdge list"

record graphBuilder =
  gb_g :: Graph
  gb_nodeIDs :: "string \<rightharpoonup> string"
  gb_classes :: "string \<rightharpoonup> string"

definition newGraphBuilder :: "string \<Rightarrow> string \<Rightarrow> graphBuilder" where
  "newGraphBuilder title direction =
     \<lparr>gb_g = \<lparr>gr_Title = title, gr_Direction = direction, gr_Nodes = [], gr_Edges = []\<rparr>,
      gb_nodeIDs = Map.empty, gb_classes = Map.empty\<rparr>"

text \<open>The loop that sets the class of the first node with the id.\<close>

fun setClass :: "string \<Rightarrow> string \<Rightarrow> GraphNode list \<Rightarrow> GraphNode list" where
  "setClass nid cls [] = []"
| "setClass nid cls (n # ns) =
     (if gn_ID n = nid then n\<lparr>gn_Class := cls\<rparr> # ns else n # setClass nid cls ns)"

definition addNode :: "string \<Rightarrow> string \<Rightarrow> graphBuilder \<Rightarrow> string \<times> graphBuilder" where
  "addNode label cls b =
     (case gb_nodeIDs b label of
        Some nid \<Rightarrow>
          (if cls \<noteq> '''' then
             (nid, b\<lparr>gb_classes := (gb_classes b)(nid \<mapsto> cls),
                    gb_g := (gb_g b)\<lparr>gr_Nodes := setClass nid cls (gr_Nodes (gb_g b))\<rparr>\<rparr>)
           else (nid, b))
      | None \<Rightarrow>
          (let nid = CHR ''n'' # Itoa (int (length (gr_Nodes (gb_g b))))
           in (nid, b\<lparr>gb_nodeIDs := (gb_nodeIDs b)(label \<mapsto> nid),
                     gb_classes := (if cls \<noteq> '''' then (gb_classes b)(nid \<mapsto> cls) else gb_classes b),
                     gb_g := (gb_g b)\<lparr>gr_Nodes := gr_Nodes (gb_g b) @
                        [\<lparr>gn_ID = nid, gn_Label = label, gn_Class = cls\<rparr>]\<rparr>\<rparr>)))"

definition addEdge :: "string \<Rightarrow> string \<Rightarrow> string \<Rightarrow> string \<Rightarrow> graphBuilder \<Rightarrow> graphBuilder" where
  "addEdge fromLabel toLabel edgeLabel style b =
     (let (fr, b) = addNode fromLabel '''' b;
          (to, b) = addNode toLabel '''' b
      in b\<lparr>gb_g := (gb_g b)\<lparr>gr_Edges := gr_Edges (gb_g b) @
             [\<lparr>ge_From = fr, ge_To = to, ge_Label = edgeLabel, ge_Style = style\<rparr>]\<rparr>\<rparr>)"

definition edge_less :: "GraphEdge \<Rightarrow> GraphEdge \<Rightarrow> bool" where
  "edge_less a b =
     (if ge_From a \<noteq> ge_From b then ge_From a < ge_From b
      else if ge_To a \<noteq> ge_To b then ge_To a < ge_To b
      else ge_Label a < ge_Label b)"

definition buildGraph :: "graphBuilder \<Rightarrow> Graph" where
  "buildGraph b = (gb_g b)\<lparr>gr_Edges := sort_slice edge_less (gr_Edges (gb_g b))\<rparr>"

section \<open>Renderers\<close>

definition quote_char :: "char \<Rightarrow> string" where
  "quote_char c =
     (let n = of_char c :: nat in
      if n = 34 \<or> n = 92 then [CHR 0x5C, c]
      else if n = 7 then [CHR 0x5C, CHR ''a''] else if n = 8 then [CHR 0x5C, CHR ''b'']
      else if n = 12 then [CHR 0x5C, CHR ''f''] else if n = 10 then [CHR 0x5C, CHR ''n'']
      else if n = 13 then [CHR 0x5C, CHR ''r''] else if n = 9 then [CHR 0x5C, CHR ''t'']
      else if n = 11 then [CHR 0x5C, CHR ''v'']
      else if n < 32 \<or> n = 127 then CHR 0x5C # CHR ''x'' # hex_encode [c]
      else [c])"

definition go_quote :: "string \<Rightarrow> string" where
  "go_quote s = CHR 0x22 # concat (map quote_char s) @ [CHR 0x22]"

definition nl :: string where "nl = [CHR 0x0A]"

definition escapeMermaidLabel :: "string \<Rightarrow> string" where
  "escapeMermaidLabel s = map (\<lambda>c. if c = CHR ''|'' then CHR ''/'' else if c = CHR 0x22 then CHR 0x27
     else if c = CHR 0x0A then CHR '' '' else c) s"

definition mermaidNode :: "GraphNode \<Rightarrow> string" where
  "mermaidNode n = ''  '' @ gn_ID n @ ''['' @ go_quote (gn_Label n) @ '']'' @ nl"

definition mermaidEdge :: "GraphEdge \<Rightarrow> string" where
  "mermaidEdge e =
     (let arrow = (if ge_Style e = ''dashed'' then ''-.->'' else ''-->'')
      in if ge_Label e \<noteq> '''' then
           ''  '' @ ge_From e @ '' '' @ arrow @ ''|'' @ escapeMermaidLabel (ge_Label e) @ ''| '' @ ge_To e @ nl
         else ''  '' @ ge_From e @ '' '' @ arrow @ '' '' @ ge_To e @ nl)"

text \<open>The map from classes to the ids of their nodes, as its sorted keys and a lookup.\<close>

definition classKeys :: "Graph \<Rightarrow> string list" where
  "classKeys g = sort (remdups (filter (\<lambda>c. c \<noteq> '''') (map gn_Class (gr_Nodes g))))"

definition classIDs :: "Graph \<Rightarrow> string \<Rightarrow> string list" where
  "classIDs g cls = sort (map gn_ID (filter (\<lambda>n. gn_Class n = cls) (gr_Nodes g)))"

definition mermaidClasses :: "Graph \<Rightarrow> string" where
  "mermaidClasses g =
     (if classKeys g \<noteq> [] then
        ''  classDef violation fill:#fdd,stroke:#c00,color:#900'' @ nl @
        ''  classDef root fill:#dfd,stroke:#080'' @ nl @
        ''  classDef target fill:#ddf,stroke:#008'' @ nl @
        concat (map (\<lambda>cls. ''  class '' @ Join '','' (classIDs g cls) @ '' '' @ cls @ nl) (classKeys g))
      else '''')"

definition renderMermaid :: "Graph \<Rightarrow> string" where
  "renderMermaid g =
     (let dir = (if gr_Direction g = '''' then ''LR'' else gr_Direction g)
      in (if gr_Title g \<noteq> '''' then ''%% '' @ gr_Title g @ nl else '''') @
         ''graph '' @ dir @ nl @
         concat (map mermaidNode (gr_Nodes g)) @
         concat (map mermaidEdge (gr_Edges g)) @
         mermaidClasses g)"

fun dotIdentFrom :: "bool \<Rightarrow> string \<Rightarrow> string" where
  "dotIdentFrom first [] = []"
| "dotIdentFrom first (c # s) =
     (let n = of_char c :: nat
      in (if c = CHR ''_'' \<or> (97 \<le> n \<and> n \<le> 122) \<or> (65 \<le> n \<and> n \<le> 90) then [c]
          else if 48 \<le> n \<and> n \<le> 57 then (if first then [CHR ''_'', c] else [c])
          else []) @ dotIdentFrom False s)"

definition dotIdent :: "string \<Rightarrow> string" where
  "dotIdent s = dotIdentFrom True s"

definition dotNode :: "GraphNode \<Rightarrow> string" where
  "dotNode n =
     (if gn_Class n = ''violation'' then
        ''  '' @ gn_ID n @ '' [label='' @ go_quote (gn_Label n) @ '', color=red, fontcolor=red];'' @ nl
      else if gn_Class n \<noteq> '''' then
        ''  '' @ gn_ID n @ '' [label='' @ go_quote (gn_Label n) @ '', group='' @ go_quote (gn_Class n) @ ''];'' @ nl
      else ''  '' @ gn_ID n @ '' [label='' @ go_quote (gn_Label n) @ ''];'' @ nl)"

definition dotEdge :: "GraphEdge \<Rightarrow> string" where
  "dotEdge e =
     (let attrs = (if ge_Label e \<noteq> '''' then [''label='' @ go_quote (ge_Label e)] else []) @
                  (if ge_Style e = ''dashed'' then [''style=dashed'', ''color=red''] else [])
      in if attrs = [] then ''  '' @ ge_From e @ '' -> '' @ ge_To e @ '';'' @ nl
         else ''  '' @ ge_From e @ '' -> '' @ ge_To e @ '' ['' @ Join '', '' attrs @ ''];'' @ nl)"

definition renderDOT :: "Graph \<Rightarrow> string" where
  "renderDOT g =
     (let name = (if dotIdent (gr_Title g) = '''' then ''graph_export'' else dotIdent (gr_Title g))
      in ''digraph '' @ name @ '' {'' @ nl @ ''  rankdir=LR;'' @ nl @
         concat (map dotNode (gr_Nodes g)) @ concat (map dotEdge (gr_Edges g)) @ ''}'' @ nl)"

definition json_field :: "string \<Rightarrow> string \<Rightarrow> string" where
  "json_field k v = json_string k @ '':'' @ v"

definition json_opt :: "string \<Rightarrow> string \<Rightarrow> string list" where
  "json_opt k v = (if v = '''' then [] else [json_field k (json_string v)])"

definition json_object :: "string list \<Rightarrow> string" where
  "json_object fs = ''{'' @ Join '','' fs @ ''}''"

definition json_array :: "string list \<Rightarrow> string" where
  "json_array xs = (if xs = [] then ''null'' else ''['' @ Join '','' xs @ '']'')"

definition renderJSONGraph :: "Graph \<Rightarrow> string" where
  "renderJSONGraph g = json_object (json_opt ''title'' (gr_Title g) @ json_opt ''direction'' (gr_Direction g) @
     [json_field ''nodes'' (json_array (map (\<lambda>n. json_object ([json_field ''id'' (json_string (gn_ID n))] @
         json_opt ''label'' (gn_Label n) @ json_opt ''class'' (gn_Class n))) (gr_Nodes g))),
      json_field ''edges'' (json_array (map (\<lambda>e. json_object ([json_field ''from'' (json_string (ge_From e)),
         json_field ''to'' (json_string (ge_To e))] @ json_opt ''label'' (ge_Label e) @ json_opt ''style'' (ge_Style e)))
         (gr_Edges g)))])"

definition RenderGraph :: "Graph \<Rightarrow> string \<Rightarrow> string" where
  "RenderGraph g format =
     (if format = ExportMermaid then renderMermaid g
      else if format = ExportDOT then renderDOT g
      else if format = ExportJSONGraph then renderJSONGraph g
      else '''')"

section \<open>The builder is a labelled graph\<close>

text \<open>
  What the builder stands for: the labels of its nodes in order, and its edges between labels.
\<close>

definition node_id :: "nat \<Rightarrow> string" where
  "node_id i = CHR ''n'' # Itoa (int i)"

definition builder_inv :: "graphBuilder \<Rightarrow> bool" where
  "builder_inv b \<longleftrightarrow>
     (\<forall>i < length (gr_Nodes (gb_g b)). gn_ID (gr_Nodes (gb_g b) ! i) = node_id i)
     \<and> distinct (map gn_Label (gr_Nodes (gb_g b)))
     \<and> (\<forall>l nid. gb_nodeIDs b l = Some nid \<longleftrightarrow> (\<exists>n \<in> set (gr_Nodes (gb_g b)). gn_Label n = l \<and> gn_ID n = nid))
     \<and> (\<forall>e \<in> set (gr_Edges (gb_g b)). ge_From e \<in> gn_ID ` set (gr_Nodes (gb_g b))
          \<and> ge_To e \<in> gn_ID ` set (gr_Nodes (gb_g b)))"

definition labelOf :: "GraphNode list \<Rightarrow> string \<Rightarrow> string" where
  "labelOf ns nid = (case find (\<lambda>n. gn_ID n = nid) ns of Some n \<Rightarrow> gn_Label n | None \<Rightarrow> '''')"

definition edge_labels :: "GraphNode list \<Rightarrow> GraphEdge \<Rightarrow> string \<times> string \<times> string \<times> string" where
  "edge_labels ns e = (labelOf ns (ge_From e), labelOf ns (ge_To e), ge_Label e, ge_Style e)"

definition node_labels :: "graphBuilder \<Rightarrow> string list" where
  "node_labels b = map gn_Label (gr_Nodes (gb_g b))"

definition drawn_edges :: "graphBuilder \<Rightarrow> (string \<times> string \<times> string \<times> string) list" where
  "drawn_edges b = map (edge_labels (gr_Nodes (gb_g b))) (gr_Edges (gb_g b))"

lemma node_id_inj [simp]: "node_id i = node_id j \<longleftrightarrow> i = j"
proof
  assume "node_id i = node_id j"
  then have "digits_of i = digits_of j" by (simp add: node_id_def Itoa_def)
  then have "digits_val (digits_of i) = digits_val (digits_of j)" by (rule arg_cong)
  then show "i = j" by (simp only: digits_val_digits_of)
qed simp

lemma distinct_ids: "builder_inv b \<Longrightarrow> distinct (map gn_ID (gr_Nodes (gb_g b)))"
  by (auto simp: builder_inv_def distinct_conv_nth)

lemma labelOf_node:
  "distinct (map gn_ID ns) \<Longrightarrow> n \<in> set ns \<Longrightarrow> labelOf ns (gn_ID n) = gn_Label n"
  unfolding labelOf_def
  by (induction ns) (auto simp: image_iff)

lemma labelOf_append:
  "nid \<in> gn_ID ` set ns \<Longrightarrow> labelOf (ns @ ms) nid = labelOf ns nid"
  unfolding labelOf_def by (induction ns) auto

lemma setClass_simps [simp]:
  "map gn_ID (setClass nid cls ns) = map gn_ID ns" "map gn_Label (setClass nid cls ns) = map gn_Label ns"
  "length (setClass nid cls ns) = length ns"
  by (induction ns) auto

lemma setClass_nth [simp]:
  "i < length ns \<Longrightarrow> gn_ID (setClass nid cls ns ! i) = gn_ID (ns ! i)"
  "i < length ns \<Longrightarrow> gn_Label (setClass nid cls ns ! i) = gn_Label (ns ! i)"
  using setClass_simps [of nid cls ns] by (metis length_map nth_map setClass_simps(3))+

lemma setClass_bex: "(\<exists>n \<in> set (setClass nid cls ns). gn_Label n = l \<and> gn_ID n = i)
    \<longleftrightarrow> (\<exists>n \<in> set ns. gn_Label n = l \<and> gn_ID n = i)"
  by (induction ns) auto

lemma setClass_ids: "gn_ID ` set (setClass nid cls ns) = gn_ID ` set ns"
  by (metis list.set_map setClass_simps(1))

lemma labelOf_setClass [simp]: "labelOf (setClass nid cls ns) i = labelOf ns i"
  unfolding labelOf_def by (induction ns) auto

lemma addNode_spec:
  assumes "builder_inv b" "addNode label cls b = (nid, b')"
  shows "builder_inv b'" "node_labels b' = (if label \<in> set (node_labels b) then node_labels b else node_labels b @ [label])"
    "drawn_edges b' = drawn_edges b" "gr_Edges (gb_g b') = gr_Edges (gb_g b)"
    "nid \<in> gn_ID ` set (gr_Nodes (gb_g b'))" "labelOf (gr_Nodes (gb_g b')) nid = label"
    "gn_ID ` set (gr_Nodes (gb_g b)) \<subseteq> gn_ID ` set (gr_Nodes (gb_g b'))"
    "\<And>i. i \<in> gn_ID ` set (gr_Nodes (gb_g b)) \<Longrightarrow> labelOf (gr_Nodes (gb_g b')) i = labelOf (gr_Nodes (gb_g b)) i"
proof -
  let ?ns = "gr_Nodes (gb_g b)"
  have edges: "\<And>e. e \<in> set (gr_Edges (gb_g b)) \<Longrightarrow> ge_From e \<in> gn_ID ` set ?ns \<and> ge_To e \<in> gn_ID ` set ?ns"
    using assms(1) by (simp add: builder_inv_def)
  have known: "gb_nodeIDs b label = Some i \<Longrightarrow> \<exists>n\<in>set ?ns. gn_Label n = label \<and> gn_ID n = i" for i
    using assms(1) by (auto simp: builder_inv_def)
  have "builder_inv b' \<and> node_labels b' = (if label \<in> set (node_labels b) then node_labels b else node_labels b @ [label])
    \<and> drawn_edges b' = drawn_edges b \<and> gr_Edges (gb_g b') = gr_Edges (gb_g b)
    \<and> nid \<in> gn_ID ` set (gr_Nodes (gb_g b')) \<and> labelOf (gr_Nodes (gb_g b')) nid = label
    \<and> gn_ID ` set ?ns \<subseteq> gn_ID ` set (gr_Nodes (gb_g b'))
    \<and> (\<forall>i \<in> gn_ID ` set ?ns. labelOf (gr_Nodes (gb_g b')) i = labelOf ?ns i)"
  proof (cases "gb_nodeIDs b label")
    case (Some i)
    then obtain n where n: "n \<in> set ?ns" "gn_Label n = label" "gn_ID n = i" using known by blast
    then have l: "labelOf ?ns i = label" "label \<in> set (node_labels b)"
      using labelOf_node [OF distinct_ids [OF assms(1)]] by (auto simp: node_labels_def)
    have "nid = i" using assms(2) Some by (auto simp: addNode_def split: if_splits)
    moreover have "b' = b \<or> b' = b\<lparr>gb_classes := (gb_classes b)(i \<mapsto> cls),
                    gb_g := (gb_g b)\<lparr>gr_Nodes := setClass i cls ?ns\<rparr>\<rparr>"
      using assms(2) Some by (auto simp: addNode_def split: if_splits)
    moreover have "builder_inv (b\<lparr>gb_classes := (gb_classes b)(i \<mapsto> cls),
                    gb_g := (gb_g b)\<lparr>gr_Nodes := setClass i cls ?ns\<rparr>\<rparr>)"
      using assms(1) unfolding builder_inv_def by (simp add: setClass_bex setClass_ids)
    ultimately show ?thesis
      using assms(1) n l
      by (auto simp: node_labels_def drawn_edges_def edge_labels_def setClass_ids)
  next
    case None
    let ?nid = "node_id (length ?ns)"
    let ?new = "\<lparr>gn_ID = ?nid, gn_Label = label, gn_Class = cls\<rparr>"
    have nid: "nid = ?nid" and nodes: "gr_Nodes (gb_g b') = ?ns @ [?new]"
      and ids: "gb_nodeIDs b' = (gb_nodeIDs b)(label \<mapsto> ?nid)" and es: "gr_Edges (gb_g b') = gr_Edges (gb_g b)"
      using assms(2) None by (auto simp: addNode_def node_id_def Let_def)
    have fresh: "label \<notin> set (node_labels b)"
    proof
      assume "label \<in> set (node_labels b)"
      then obtain n where "n \<in> set ?ns" "gn_Label n = label" by (auto simp: node_labels_def)
      with None assms(1) show False by (metis builder_inv_def option.distinct(1))
    qed
    have "builder_inv b'"
      unfolding builder_inv_def nodes es
    proof (intro conjI)
      show "\<forall>i<length (?ns @ [?new]). gn_ID ((?ns @ [?new]) ! i) = node_id i"
        using assms(1) by (auto simp: builder_inv_def nth_append less_Suc_eq)
      show "distinct (map gn_Label (?ns @ [?new]))"
        using assms(1) fresh by (auto simp: builder_inv_def node_labels_def)
      show "\<forall>l nid. gb_nodeIDs b' l = Some nid \<longleftrightarrow> (\<exists>n\<in>set (?ns @ [?new]). gn_Label n = l \<and> gn_ID n = nid)"
        using assms(1) fresh by (auto simp: builder_inv_def ids node_labels_def)
      show "\<forall>e\<in>set (gr_Edges (gb_g b)). ge_From e \<in> gn_ID ` set (?ns @ [?new]) \<and> ge_To e \<in> gn_ID ` set (?ns @ [?new])"
        using edges by auto
    qed
    moreover have "labelOf (?ns @ [?new]) ?nid = label"
      using labelOf_node [OF distinct_ids [OF calculation], of ?new] by (simp add: nodes)
    moreover have "map (edge_labels (?ns @ [?new])) (gr_Edges (gb_g b)) = map (edge_labels ?ns) (gr_Edges (gb_g b))"
      using edges by (auto simp: edge_labels_def labelOf_append)
    ultimately show ?thesis
      using fresh by (auto simp: nid nodes es node_labels_def drawn_edges_def labelOf_append)
  qed
  then show "builder_inv b'" "node_labels b' = (if label \<in> set (node_labels b) then node_labels b else node_labels b @ [label])"
    "drawn_edges b' = drawn_edges b" "gr_Edges (gb_g b') = gr_Edges (gb_g b)"
    "nid \<in> gn_ID ` set (gr_Nodes (gb_g b'))" "labelOf (gr_Nodes (gb_g b')) nid = label"
    "gn_ID ` set (gr_Nodes (gb_g b)) \<subseteq> gn_ID ` set (gr_Nodes (gb_g b'))"
    "\<And>i. i \<in> gn_ID ` set (gr_Nodes (gb_g b)) \<Longrightarrow> labelOf (gr_Nodes (gb_g b')) i = labelOf (gr_Nodes (gb_g b)) i"
    by blast+
qed

definition add_label :: "string \<Rightarrow> string list \<Rightarrow> string list" where
  "add_label l ls = (if l \<in> set ls then ls else ls @ [l])"

lemma set_add_label [simp]: "set (add_label l ls) = insert l (set ls)"
  by (auto simp: add_label_def)

lemma addEdge_spec:
  assumes "builder_inv b"
  shows "builder_inv (addEdge f t l s b)"
    "drawn_edges (addEdge f t l s b) = drawn_edges b @ [(f, t, l, s)]"
    "node_labels (addEdge f t l s b) = add_label t (add_label f (node_labels b))"
proof -
  obtain i b1 where 1: "addNode f '''' b = (i, b1)" by fastforce
  obtain j b2 where 2: "addNode t '''' b1 = (j, b2)" by fastforce
  let ?e = "\<lparr>ge_From = i, ge_To = j, ge_Label = l, ge_Style = s\<rparr>"
  have eq: "addEdge f t l s b = b2\<lparr>gb_g := (gb_g b2)\<lparr>gr_Edges := gr_Edges (gb_g b2) @ [?e]\<rparr>\<rparr>"
    by (simp add: addEdge_def 1 2)
  note s1 = addNode_spec [OF assms 1] and s2 = addNode_spec [OF addNode_spec(1) [OF assms 1] 2]
  have ends: "i \<in> gn_ID ` set (gr_Nodes (gb_g b2))" "j \<in> gn_ID ` set (gr_Nodes (gb_g b2))"
    "labelOf (gr_Nodes (gb_g b2)) i = f" "labelOf (gr_Nodes (gb_g b2)) j = t"
    using s1 s2 by auto
  show "builder_inv (addEdge f t l s b)"
    using s2(1) ends by (auto simp: eq builder_inv_def)
  show "drawn_edges (addEdge f t l s b) = drawn_edges b @ [(f, t, l, s)]"
    using s1(3) s2(3) ends by (simp add: eq drawn_edges_def edge_labels_def)
  show "node_labels (addEdge f t l s b) = add_label t (add_label f (node_labels b))"
    using s1(2) s2(2) by (simp add: eq node_labels_def add_label_def)
qed

lemma builder_new [simp]:
  "builder_inv (newGraphBuilder title dir)" "drawn_edges (newGraphBuilder title dir) = []"
  "node_labels (newGraphBuilder title dir) = []"
  by (simp_all add: newGraphBuilder_def builder_inv_def drawn_edges_def node_labels_def)

text \<open>Sequences of edges.\<close>

lemma addEdges_spec:
  "builder_inv b \<Longrightarrow> builder_inv (fold (\<lambda>(f, t, l, s). addEdge f t l s) es b)
     \<and> drawn_edges (fold (\<lambda>(f, t, l, s). addEdge f t l s) es b) = drawn_edges b @ es
     \<and> set (node_labels (fold (\<lambda>(f, t, l, s). addEdge f t l s) es b))
         = set (node_labels b) \<union> (\<Union>(f, t, l, s) \<in> set es. {f, t})"
proof (induction es arbitrary: b)
  case (Cons e es)
  obtain f t l s where [simp]: "e = (f, t, l, s)" by (cases e)
  from Cons.IH [OF addEdge_spec(1) [OF Cons.prems]] show ?case
    using addEdge_spec(2,3) [OF Cons.prems, of f t l s] by auto
qed simp

lemma addNodes_spec:
  "builder_inv b \<Longrightarrow> builder_inv (fold (\<lambda>(l, c) b. snd (addNode l c b)) ns b)
     \<and> drawn_edges (fold (\<lambda>(l, c) b. snd (addNode l c b)) ns b) = drawn_edges b
     \<and> set (node_labels (fold (\<lambda>(l, c) b. snd (addNode l c b)) ns b)) = set (node_labels b) \<union> fst ` set ns"
proof (induction ns arbitrary: b)
  case (Cons n ns)
  obtain l c where [simp]: "n = (l, c)" by fastforce
  obtain i b1 where 1: "addNode l c b = (i, b1)" by fastforce
  from Cons.IH [OF addNode_spec(1) [OF Cons.prems 1]] show ?case
    using addNode_spec(2,3) [OF Cons.prems 1] by (auto simp: 1)
qed simp

definition edge_key :: "GraphEdge \<Rightarrow> string \<times> string \<times> string" where
  "edge_key e = (ge_From e, ge_To e, ge_Label e)"

interpretation edges: key_order edge_less edge_key
  by unfold_locales (auto simp: edge_less_def edge_key_def less_prod_def')

end
