(* ===== verification/Query_Window.thy ===== *)
theory Query_Window
  imports Encoding
begin

text \<open>
  \<^verbatim>\<open>analyzer/query_options.go\<close> and \<^verbatim>\<open>analyzer/streaming.go\<close>: the paging and streaming
  layer every list-returning tool ends with. The value of \<^verbatim>\<open>GO_ARCH_XRAY_MAX_CHUNK_SIZE\<close>
  (empty when unset), SHA-256 and \<^verbatim>\<open>json.Unmarshal\<close> on cursors are arguments; base64 and the
  JSON text of a cursor are modelled.
\<close>

section \<open>Options\<close>

type_synonym ExportFormat = string

record QueryOptions =
  qo_Limit :: int
  qo_Offset :: int
  qo_MaxItems :: int
  qo_Summary :: bool
  qo_Cursor :: string
  qo_ChunkSize :: int
  qo_Export :: ExportFormat

definition DefaultMaxChunkSize :: int where
  "DefaultMaxChunkSize = 50"

definition effectiveMaxChunkSize :: "string \<Rightarrow> int" where
  "effectiveMaxChunkSize env =
     (if env \<noteq> '''' then
        (case Atoi env of
           Some n \<Rightarrow> if n > 0 then n else DefaultMaxChunkSize
         | None \<Rightarrow> DefaultMaxChunkSize)
      else DefaultMaxChunkSize)"

definition clampChunkSize :: "string \<Rightarrow> int \<Rightarrow> int" where
  "clampChunkSize env n =
     (if n \<le> 0 then n
      else let cap = effectiveMaxChunkSize env in if n > cap then cap else n)"

definition normalizeQueryOptions :: "string \<Rightarrow> QueryOptions \<Rightarrow> QueryOptions" where
  "normalizeQueryOptions env opts =
     (let opts = (if qo_Offset opts < 0 then opts\<lparr>qo_Offset := 0\<rparr> else opts);
          opts = (if qo_Limit opts < 0 then opts\<lparr>qo_Limit := 0\<rparr> else opts);
          opts = (if qo_MaxItems opts < 0 then opts\<lparr>qo_MaxItems := 0\<rparr> else opts);
          opts = (if qo_ChunkSize opts < 0 then opts\<lparr>qo_ChunkSize := 0\<rparr> else opts)
      in opts\<lparr>qo_ChunkSize := clampChunkSize env (qo_ChunkSize opts)\<rparr>)"

text \<open>
  The two window bounds of \<^verbatim>\<open>applyQueryWindow\<close>; the sums are computed in 64 bits and may
  wrap.
\<close>

definition windowBounds :: "QueryOptions \<Rightarrow> int \<Rightarrow> int \<times> int" where
  "windowBounds opts tot =
     (let start = (if qo_Offset opts > tot then tot else qo_Offset opts);
          stop = tot;
          stop = (if qo_MaxItems opts > 0 \<and> wrap64 (start + qo_MaxItems opts) < stop
                  then wrap64 (start + qo_MaxItems opts) else stop);
          stop = (if qo_Limit opts > 0 \<and> wrap64 (start + qo_Limit opts) < stop
                  then wrap64 (start + qo_Limit opts) else stop);
          stop = (if stop < start then start else stop)
      in (start, stop))"

definition applyQueryWindow :: "string \<Rightarrow> 'a list \<Rightarrow> QueryOptions \<Rightarrow> 'a list \<times> int \<times> bool" where
  "applyQueryWindow env items opts =
     (let opts = normalizeQueryOptions env opts;
          tot = int (length items)
      in if tot = 0 then ([], 0, False)
         else let (start, stop) = windowBounds opts tot
              in (slice items start stop, tot, start > 0 \<or> stop < tot))"

section \<open>Stream cursors\<close>

record streamCursor =
  sc_Version :: int
  sc_Offset :: int
  sc_Total :: int
  sc_Fingerprint :: string

definition streamCursorVersion :: int where
  "streamCursorVersion = 1"

text \<open>\<^verbatim>\<open>json.Marshal\<close> of a \<^verbatim>\<open>streamCursor\<close>: fields in order, under their tags.\<close>

definition cursor_json :: "streamCursor \<Rightarrow> string" where
  "cursor_json c =
     CHR ''{'' # json_string ''v'' @ CHR '':'' # Itoa (sc_Version c) @
     CHR '','' # json_string ''o'' @ CHR '':'' # Itoa (sc_Offset c) @
     CHR '','' # json_string ''t'' @ CHR '':'' # Itoa (sc_Total c) @
     CHR '','' # json_string ''f'' @ CHR '':'' # json_string (sc_Fingerprint c) @ ''}''"

definition encodeStreamCursor :: "streamCursor \<Rightarrow> string" where
  "encodeStreamCursor c = b64_encode (cursor_json (c\<lparr>sc_Version := streamCursorVersion\<rparr>))"

datatype stream_error =
    CursorEncoding            \<comment> \<open>invalid stream cursor encoding\<close>
  | CursorPayload             \<comment> \<open>invalid stream cursor payload\<close>
  | CursorVersion int         \<comment> \<open>unsupported stream cursor version\<close>
  | CursorInvalidated         \<comment> \<open>stream cursor invalidated\<close>
  | SliceOutOfRange           \<comment> \<open>the runtime panic of \<^verbatim>\<open>items[offset:end]\<close>\<close>

definition decodeStreamCursor :: "(string \<Rightarrow> streamCursor option) \<Rightarrow> string \<Rightarrow> stream_error + streamCursor" where
  "decodeStreamCursor unmarshal s =
     (case b64_decode s of
        None \<Rightarrow> Inl CursorEncoding
      | Some raw \<Rightarrow>
          (case unmarshal raw of
             None \<Rightarrow> Inl CursorPayload
           | Some c \<Rightarrow>
               if sc_Version c \<noteq> streamCursorVersion then Inl (CursorVersion (sc_Version c))
               else Inr c))"

definition streamFingerprint ::
  "(string \<Rightarrow> string) \<Rightarrow> string \<Rightarrow> int \<Rightarrow> string \<Rightarrow> string \<Rightarrow> string" where
  "streamFingerprint sha256 identifier tot firstKey lastKey =
     hex_encode (take 8 (sha256 (identifier @ ''|'' @ Itoa tot @ ''|'' @ firstKey @ ''|'' @ lastKey)))"

section \<open>Windows of a stream\<close>

record 'a stream_chunk =
  ch_items :: "'a list"
  ch_total :: int
  ch_next :: string
  ch_more :: bool

text \<open>The offset a cursor stands for, or the error that makes the call fail.\<close>

definition cursorOffset ::
  "(string \<Rightarrow> streamCursor option) \<Rightarrow> string \<Rightarrow> string \<Rightarrow> int \<Rightarrow> stream_error + int" where
  "cursorOffset unmarshal cursor fingerprint tot =
     (if cursor \<noteq> '''' then
        (case decodeStreamCursor unmarshal cursor of
           Inl e \<Rightarrow> Inl e
         | Inr c \<Rightarrow>
             if sc_Fingerprint c \<noteq> fingerprint \<or> sc_Total c \<noteq> tot then Inl CursorInvalidated
             else Inr (if sc_Offset c < 0 then 0 else sc_Offset c))
      else Inr 0)"

definition applyStreamWindow ::
  "string \<Rightarrow> (string \<Rightarrow> string) \<Rightarrow> (string \<Rightarrow> streamCursor option) \<Rightarrow> 'a list \<Rightarrow> string \<Rightarrow>
   string \<Rightarrow> string \<Rightarrow> string \<Rightarrow> int \<Rightarrow> stream_error + 'a stream_chunk" where
  "applyStreamWindow env sha256 unmarshal items identifier firstKey lastKey cursor chunkSize =
     (let tot = int (length items);
          fingerprint = streamFingerprint sha256 identifier tot firstKey lastKey;
          chunkSize = clampChunkSize env chunkSize
      in case cursorOffset unmarshal cursor fingerprint tot of
           Inl e \<Rightarrow> Inl e
         | Inr offset \<Rightarrow>
             (let offset = (if offset > tot then tot else offset);
                  stop = (if chunkSize > 0 \<and> wrap64 (offset + chunkSize) < tot
                          then wrap64 (offset + chunkSize) else tot)
              in if stop < offset then Inl SliceOutOfRange
                 else Inr \<lparr>ch_items = slice items offset stop, ch_total = tot,
                       ch_next = (if stop < tot
                          then encodeStreamCursor \<lparr>sc_Version = 0, sc_Offset = stop,
                                 sc_Total = tot, sc_Fingerprint = fingerprint\<rparr>
                          else ''''),
                       ch_more = (stop < tot)\<rparr>))"

record 'a window_result =
  wr_items :: "'a list"
  wr_total :: int
  wr_truncated :: bool
  wr_more :: bool
  wr_next :: string

definition capItems :: "'a list \<Rightarrow> int \<Rightarrow> 'a list" where
  "capItems items maxItems =
     (if maxItems > 0 \<and> int (length items) > maxItems then slice items 0 maxItems else items)"

definition boundaryKey :: "('a \<Rightarrow> string) \<Rightarrow> 'a list \<Rightarrow> string \<times> string" where
  "boundaryKey keyFn items =
     (if length items > 0 then (keyFn (items ! 0), keyFn (items ! (length items - 1)))
      else ('''', ''''))"

definition streamOrWindow ::
  "string \<Rightarrow> (string \<Rightarrow> string) \<Rightarrow> (string \<Rightarrow> streamCursor option) \<Rightarrow> 'a list \<Rightarrow> string \<Rightarrow>
   ('a \<Rightarrow> string) \<Rightarrow> QueryOptions \<Rightarrow> stream_error + 'a window_result" where
  "streamOrWindow env sha256 unmarshal items identifier keyFn opts =
     (let opts = opts\<lparr>qo_ChunkSize := clampChunkSize env (qo_ChunkSize opts)\<rparr>
      in if qo_ChunkSize opts \<le> 0 then
           (let (chunk, tot, truncated) = applyQueryWindow env items opts
            in Inr \<lparr>wr_items = chunk, wr_total = tot, wr_truncated = truncated,
                    wr_more = False, wr_next = ''''\<rparr>)
         else
           (let items = capItems items (qo_MaxItems opts);
                (firstKey, lastKey) = boundaryKey keyFn items
            in case applyStreamWindow env sha256 unmarshal items identifier firstKey lastKey
                      (qo_Cursor opts) (qo_ChunkSize opts) of
                 Inl e \<Rightarrow> Inl e
               | Inr c \<Rightarrow> Inr \<lparr>wr_items = ch_items c, wr_total = ch_total c,
                     wr_truncated = (ch_more c \<or> qo_Cursor opts \<noteq> ''''),
                     wr_more = ch_more c, wr_next = ch_next c\<rparr>))"

text \<open>
  The loop of a streaming client: call with no cursor, then with the cursor of the last
  answer for as long as it says there is more. \<open>None\<close> is running out of fuel.
\<close>

fun stream_run ::
  "nat \<Rightarrow> (string \<Rightarrow> stream_error + 'a window_result) \<Rightarrow> string \<Rightarrow>
   (stream_error + 'a list list) option" where
  "stream_run 0 step cursor = None"
| "stream_run (Suc n) step cursor =
     (case step cursor of
        Inl e \<Rightarrow> Some (Inl e)
      | Inr w \<Rightarrow>
          if wr_more w then
            (case stream_run n step (wr_next w) of
               None \<Rightarrow> None
             | Some (Inl e) \<Rightarrow> Some (Inl e)
             | Some (Inr cs) \<Rightarrow> Some (Inr (wr_items w # cs)))
          else Some (Inr [wr_items w]))"

section \<open>Clamping\<close>

lemma effectiveMaxChunkSize_pos: "0 < effectiveMaxChunkSize env"
  by (auto simp: effectiveMaxChunkSize_def DefaultMaxChunkSize_def split: option.splits)

lemma clampChunkSize_le: "clampChunkSize env n \<le> effectiveMaxChunkSize env"
  using effectiveMaxChunkSize_pos [of env] by (auto simp: clampChunkSize_def Let_def)

lemma clampChunkSize_le_self: "clampChunkSize env n \<le> n"
  by (auto simp: clampChunkSize_def Let_def)

lemma clampChunkSize_pos [simp]: "0 < clampChunkSize env n \<longleftrightarrow> 0 < n"
  using effectiveMaxChunkSize_pos [of env] by (auto simp: clampChunkSize_def Let_def)

lemma clampChunkSize_idem [simp]: "clampChunkSize env (clampChunkSize env n) = clampChunkSize env n"
  by (auto simp: clampChunkSize_def Let_def)

section \<open>Windows stay in range\<close>

lemma windowBounds_range:
  assumes "0 \<le> qo_Offset opts" "0 \<le> n"
  shows "0 \<le> fst (windowBounds opts n)" "fst (windowBounds opts n) \<le> snd (windowBounds opts n)"
    "snd (windowBounds opts n) \<le> n"
  using assms by (auto simp: windowBounds_def Let_def)

lemma normalizeQueryOptions_nonneg:
  "0 \<le> qo_Offset (normalizeQueryOptions env opts)" "0 \<le> qo_Limit (normalizeQueryOptions env opts)"
  "0 \<le> qo_MaxItems (normalizeQueryOptions env opts)" "0 \<le> qo_ChunkSize (normalizeQueryOptions env opts)"
  using effectiveMaxChunkSize_pos [of env]
  by (auto simp: normalizeQueryOptions_def clampChunkSize_def Let_def)

lemma normalizeQueryOptions_fields:
  "qo_Offset (normalizeQueryOptions env opts) = max 0 (qo_Offset opts)"
  "qo_Limit (normalizeQueryOptions env opts) = max 0 (qo_Limit opts)"
  "qo_MaxItems (normalizeQueryOptions env opts) = max 0 (qo_MaxItems opts)"
  by (auto simp: normalizeQueryOptions_def Let_def)

text \<open>Without overflow the window is a \<open>drop\<close> and two \<open>take\<close>s.\<close>

definition window_spec :: "QueryOptions \<Rightarrow> 'a list \<Rightarrow> 'a list" where
  "window_spec opts xs =
     (let ys = drop (nat (qo_Offset opts)) xs;
          ys = (if qo_MaxItems opts > 0 then take (nat (qo_MaxItems opts)) ys else ys)
      in if qo_Limit opts > 0 then take (nat (qo_Limit opts)) ys else ys)"

definition window_fits :: "QueryOptions \<Rightarrow> int \<Rightarrow> bool" where
  "window_fits opts n \<longleftrightarrow>
     n + max 0 (qo_MaxItems opts) < 2 ^ 63 \<and> n + max 0 (qo_Limit opts) < 2 ^ 63"

lemma slice_take_drop: "0 \<le> lo \<Longrightarrow> slice xs lo hi = take (nat (hi - lo)) (drop (nat lo) xs)"
  by (simp add: slice_def)

lemma windowBounds_spec:
  assumes off: "0 \<le> qo_Offset opts" and fits: "window_fits opts (int (length xs))"
  shows "slice xs (fst (windowBounds opts (int (length xs)))) (snd (windowBounds opts (int (length xs))))
         = window_spec opts xs"
proof -
  let ?n = "int (length xs)"
  define s where "s = (if qo_Offset opts > ?n then ?n else qo_Offset opts)"
  have s: "0 \<le> s" "s \<le> ?n" using off by (auto simp: s_def)
  have w: "wrap64 (s + m) = s + m" if "0 < m" "?n + m < 2 ^ 63" for m
    using that s by (simp add: int64_def)
  have fits': "qo_MaxItems opts > 0 \<Longrightarrow> wrap64 (s + qo_MaxItems opts) = s + qo_MaxItems opts"
    "qo_Limit opts > 0 \<Longrightarrow> wrap64 (s + qo_Limit opts) = s + qo_Limit opts"
    using fits w by (auto simp: window_fits_def max_def split: if_splits)
  have d: "drop (nat (qo_Offset opts)) xs = drop (nat s) xs"
    by (auto simp: s_def)
  have t: "take (nat m) (drop (nat s) xs) = drop (nat s) xs" if "?n \<le> s + m" for m
    using that s by (intro take_all) auto
  have bounds: "windowBounds opts ?n =
    (s, let e = (if qo_MaxItems opts > 0 \<and> s + qo_MaxItems opts < ?n then s + qo_MaxItems opts else ?n);
            e = (if qo_Limit opts > 0 \<and> s + qo_Limit opts < e then s + qo_Limit opts else e)
        in if e < s then s else e)"
    using fits' by (auto simp: windowBounds_def Let_def s_def [symmetric])
  show ?thesis
    using s by (auto simp: bounds d window_spec_def Let_def slice_def t min_def)
      (metis le_antisym nat_mono not_less)
qed

section \<open>Cursors\<close>

text \<open>
  What the streaming layer relies on: \<^verbatim>\<open>json.Unmarshal\<close> reads back a cursor that
  \<^verbatim>\<open>json.Marshal\<close> wrote. The fingerprint of a cursor is hexadecimal.
\<close>

definition wf_cursor :: "streamCursor \<Rightarrow> bool" where
  "wf_cursor c \<longleftrightarrow> int64 (sc_Version c) \<and> int64 (sc_Offset c) \<and> int64 (sc_Total c)
     \<and> list_all plain_char (sc_Fingerprint c)"

locale cursor_codec =
  fixes unmarshal :: "string \<Rightarrow> streamCursor option"
  assumes unmarshal_json: "wf_cursor c \<Longrightarrow> unmarshal (cursor_json c) = Some c"
begin

lemma decode_encode:
  "wf_cursor c \<Longrightarrow> decodeStreamCursor unmarshal (encodeStreamCursor c)
     = Inr (c\<lparr>sc_Version := streamCursorVersion\<rparr>)"
  by (simp add: decodeStreamCursor_def encodeStreamCursor_def b64_round_trip unmarshal_json
      wf_cursor_def streamCursorVersion_def int64_def)

lemma encode_not_Nil: "encodeStreamCursor c \<noteq> []"
  by (simp add: encodeStreamCursor_def cursor_json_def)

lemma cursorOffset_encode:
  assumes "int64 off" "int64 n" "0 \<le> off" "list_all plain_char fp"
  shows "cursorOffset unmarshal
     (encodeStreamCursor \<lparr>sc_Version = v, sc_Offset = off, sc_Total = n, sc_Fingerprint = fp\<rparr>) fp n
     = Inr off"
proof -
  let ?c = "\<lparr>sc_Version = streamCursorVersion, sc_Offset = off, sc_Total = n, sc_Fingerprint = fp\<rparr>"
  have enc: "encodeStreamCursor \<lparr>sc_Version = v, sc_Offset = off, sc_Total = n, sc_Fingerprint = fp\<rparr>
    = encodeStreamCursor ?c"
    by (simp add: encodeStreamCursor_def)
  have "wf_cursor ?c"
    using assms by (simp add: wf_cursor_def streamCursorVersion_def int64_def)
  from decode_encode [OF this] show ?thesis
    using assms(3) by (simp add: enc cursorOffset_def encode_not_Nil)
qed

end

text \<open>
  One call at offset \<open>off\<close> of a run: the items of the chunk, and the cursor of the next
  call. The data set of the run is \<open>xs\<close>, already capped by \<^verbatim>\<open>MaxItems\<close>.
\<close>

definition stream_stop :: "string \<Rightarrow> int \<Rightarrow> int \<Rightarrow> int \<Rightarrow> int" where
  "stream_stop env sz n off =
     (if off + clampChunkSize env sz < n then off + clampChunkSize env sz else n)"

definition cursorAt :: "(string \<Rightarrow> string) \<Rightarrow> string \<Rightarrow> 'a list \<Rightarrow> string \<Rightarrow> string \<Rightarrow> int \<Rightarrow> string" where
  "cursorAt sha256 ident xs k1 k2 off = encodeStreamCursor \<lparr>sc_Version = 0, sc_Offset = off,
     sc_Total = int (length xs),
     sc_Fingerprint = streamFingerprint sha256 ident (int (length xs)) k1 k2\<rparr>"

lemma streamFingerprint_plain: "list_all plain_char (streamFingerprint sha256 ident n k1 k2)"
  by (simp add: streamFingerprint_def hex_encode_plain)

lemma stream_stop_range:
  "0 < sz \<Longrightarrow> off < n \<Longrightarrow> off < stream_stop env sz n off \<and> stream_stop env sz n off \<le> n"
  using clampChunkSize_pos [of env sz] by (simp add: stream_stop_def del: clampChunkSize_pos)

lemma stream_stop_size:
  "off \<le> n \<Longrightarrow> 0 < sz \<Longrightarrow> stream_stop env sz n off - off \<le> clampChunkSize env sz"
  by (simp add: stream_stop_def)

lemma applyStreamWindow_at:
  assumes off: "cursorOffset unm cursor (streamFingerprint sha256 ident (int (length xs)) k1 k2)
      (int (length xs)) = Inr off" "0 \<le> off" "off \<le> int (length xs)"
    and sz: "0 < sz" and fits: "int (length xs) + effectiveMaxChunkSize env < 2 ^ 63"
  shows "applyStreamWindow env sha256 unm xs ident k1 k2 cursor sz =
     (let e = stream_stop env sz (int (length xs)) off
      in Inr \<lparr>ch_items = slice xs off e, ch_total = int (length xs),
           ch_next = (if e < int (length xs) then cursorAt sha256 ident xs k1 k2 e else ''''),
           ch_more = (e < int (length xs))\<rparr>)"
proof -
  have "wrap64 (off + clampChunkSize env sz) = off + clampChunkSize env sz"
    using assms clampChunkSize_le [of env sz] clampChunkSize_pos [of env sz]
    by (intro wrap64_id) (auto simp: int64_def simp del: clampChunkSize_pos)
  then show ?thesis
    using assms clampChunkSize_pos [of env sz]
    by (auto simp: applyStreamWindow_def stream_stop_def cursorAt_def Let_def
        simp del: clampChunkSize_pos)
qed

definition streamed :: "QueryOptions \<Rightarrow> 'a list \<Rightarrow> 'a list" where
  "streamed opts items = capItems items (qo_MaxItems opts)"

lemma streamed_take: "streamed opts items =
  (if qo_MaxItems opts > 0 then take (nat (qo_MaxItems opts)) items else items)"
  by (auto simp: streamed_def capItems_def slice_def)

lemma streamOrWindow_streams:
  assumes "0 < qo_ChunkSize opts" "streamed opts items = xs" "boundaryKey keyFn xs = (k1, k2)"
    "applyStreamWindow env sha256 unm xs ident k1 k2 (qo_Cursor opts)
       (clampChunkSize env (qo_ChunkSize opts)) = Inr c"
  shows "streamOrWindow env sha256 unm items ident keyFn opts =
     Inr \<lparr>wr_items = ch_items c, wr_total = ch_total c,
          wr_truncated = (ch_more c \<or> qo_Cursor opts \<noteq> ''''), wr_more = ch_more c,
          wr_next = ch_next c\<rparr>"
  using assms clampChunkSize_pos [of env "qo_ChunkSize opts"]
  by (simp add: streamOrWindow_def streamed_def not_le del: clampChunkSize_pos)

context cursor_codec
begin

text \<open>
  From offset \<open>off\<close> on, the run delivers the rest of the data set in chunks no longer
  than the cap, and one unit of fuel per remaining item (and one more) is enough.
\<close>

lemma stream_run_from:
  assumes sz: "0 < qo_ChunkSize opts" and xs: "streamed opts items = xs"
    and keys: "boundaryKey keyFn xs = (k1, k2)"
    and fits: "int (length xs) + effectiveMaxChunkSize env < 2 ^ 63"
  shows "\<lbrakk>cursorOffset unmarshal cursor (streamFingerprint sha256 ident (int (length xs)) k1 k2)
      (int (length xs)) = Inr off; 0 \<le> off; off \<le> int (length xs);
      int (length xs) - off < int fuel\<rbrakk> \<Longrightarrow>
    \<exists>cs. stream_run fuel (\<lambda>cur. streamOrWindow env sha256 unmarshal items ident keyFn
            (opts\<lparr>qo_Cursor := cur\<rparr>)) cursor = Some (Inr cs)
       \<and> concat cs = slice xs off (int (length xs))
       \<and> (\<forall>c\<in>set cs. int (length c) \<le> clampChunkSize env (qo_ChunkSize opts))"
proof (induction fuel arbitrary: cursor off)
  case 0
  then show ?case by simp
next
  case (Suc fuel)
  let ?n = "int (length xs)"
  let ?e = "stream_stop env (qo_ChunkSize opts) ?n off"
  have stop: "stream_stop env (clampChunkSize env m) n o' = stream_stop env m n o'" for m n o'
    by (simp add: stream_stop_def)
  have call: "streamOrWindow env sha256 unmarshal items ident keyFn (opts\<lparr>qo_Cursor := cursor\<rparr>)
    = Inr \<lparr>wr_items = slice xs off ?e, wr_total = ?n, wr_truncated = (?e < ?n \<or> cursor \<noteq> ''''),
           wr_more = (?e < ?n), wr_next = (if ?e < ?n then cursorAt sha256 ident xs k1 k2 ?e else '''')\<rparr>"
    using streamOrWindow_streams [of "opts\<lparr>qo_Cursor := cursor\<rparr>" items xs keyFn k1 k2]
      applyStreamWindow_at [OF Suc.prems(1-3), of "clampChunkSize env (qo_ChunkSize opts)" env]
      sz keys xs fits by (simp add: stop Let_def streamed_def)
  have len: "int (length (slice xs off ?e)) \<le> clampChunkSize env (qo_ChunkSize opts)"
  proof (cases "off < ?n")
    case True
    with stream_stop_range [OF sz True, of env] Suc.prems(2) show ?thesis
      using stream_stop_size [of off ?n _ env] sz by (simp add: length_slice)
  next
    case False
    then have "slice xs off ?e = []" using Suc.prems(2) by (simp add: slice_def)
    then show ?thesis using sz by (simp add: clampChunkSize_pos less_imp_le)
  qed
  show ?case
  proof (cases "?e < ?n")
    case False
    then have "?e = ?n" by (simp add: stream_stop_def split: if_splits)
    with len show ?thesis by (simp add: call)
  next
    case True
    then have off: "off < ?n"
      using Suc.prems(3) sz clampChunkSize_pos [of env "qo_ChunkSize opts"]
      by (simp add: stream_stop_def del: clampChunkSize_pos split: if_splits)
    note e = stream_stop_range [OF sz off, of env]
    have "cursorOffset unmarshal (cursorAt sha256 ident xs k1 k2 ?e)
        (streamFingerprint sha256 ident ?n k1 k2) ?n = Inr ?e"
      unfolding cursorAt_def
      using e Suc.prems(2) fits effectiveMaxChunkSize_pos [of env]
      by (intro cursorOffset_encode streamFingerprint_plain) (auto simp: int64_def)
    from Suc.IH [OF this] e Suc.prems(2,4) obtain cs where
      "stream_run fuel (\<lambda>cur. streamOrWindow env sha256 unmarshal items ident keyFn
            (opts\<lparr>qo_Cursor := cur\<rparr>)) (cursorAt sha256 ident xs k1 k2 ?e) = Some (Inr cs)"
      "concat cs = slice xs ?e ?n"
      "\<forall>c\<in>set cs. int (length c) \<le> clampChunkSize env (qo_ChunkSize opts)"
      by auto
    with True len e Suc.prems(2) show ?thesis
      by (simp add: call slice_append_slice)
  qed
qed

lemma stream_run_complete:
  assumes "0 < qo_ChunkSize opts" "int (length items) + effectiveMaxChunkSize env < 2 ^ 63"
  shows "\<exists>cs. stream_run (Suc (length items)) (\<lambda>cur. streamOrWindow env sha256 unmarshal items ident
            keyFn (opts\<lparr>qo_Cursor := cur\<rparr>)) '''' = Some (Inr cs)
       \<and> concat cs = streamed opts items
       \<and> (\<forall>c\<in>set cs. int (length c) \<le> clampChunkSize env (qo_ChunkSize opts))"
proof -
  let ?xs = "streamed opts items"
  obtain k1 k2 where k: "boundaryKey keyFn ?xs = (k1, k2)" by fastforce
  have len: "length ?xs \<le> length items" by (simp add: streamed_take)
  have "\<exists>cs. stream_run (Suc (length items)) (\<lambda>cur. streamOrWindow env sha256 unmarshal items ident
            keyFn (opts\<lparr>qo_Cursor := cur\<rparr>)) '''' = Some (Inr cs)
       \<and> concat cs = slice ?xs 0 (int (length ?xs))
       \<and> (\<forall>c\<in>set cs. int (length c) \<le> clampChunkSize env (qo_ChunkSize opts))"
    by (rule stream_run_from [OF assms(1) refl k])
      (use assms(2) len in \<open>auto simp: cursorOffset_def\<close>)
  then show ?thesis by simp
qed

text \<open>A cursor of one data set is rejected for another, unless the fingerprints collide.\<close>

lemma stale_cursor:
  assumes "int64 off" "int64 (int (length xs))"
    and "length xs \<noteq> length ys \<or> streamFingerprint sha256 ident (int (length xs)) k1 k2
           \<noteq> streamFingerprint sha256 ident' (int (length ys)) l1 l2"
  shows "applyStreamWindow env sha256 unmarshal ys ident' l1 l2
           (cursorAt sha256 ident xs k1 k2 off) sz = Inl CursorInvalidated"
proof -
  let ?c = "\<lparr>sc_Version = 1, sc_Offset = off, sc_Total = int (length xs),
      sc_Fingerprint = streamFingerprint sha256 ident (int (length xs)) k1 k2\<rparr>"
  have "wf_cursor ?c"
    using assms streamFingerprint_plain by (simp add: wf_cursor_def int64_def)
  note decode = decode_encode [OF this]
  have "cursorAt sha256 ident xs k1 k2 off = encodeStreamCursor ?c"
    by (simp add: cursorAt_def encodeStreamCursor_def)
  with decode assms(3)
  have "cursorOffset unmarshal (cursorAt sha256 ident xs k1 k2 off)
      (streamFingerprint sha256 ident' (int (length ys)) l1 l2) (int (length ys)) = Inl CursorInvalidated"
    by (auto simp: cursorOffset_def encode_not_Nil)
  then show ?thesis by (simp add: applyStreamWindow_def Let_def)
qed

end

text \<open>A decoder for the compact form the program writes provides the law.\<close>

definition expect :: "string \<Rightarrow> string \<Rightarrow> string option" where
  "expect p s = (if HasPrefix s p then Some (drop (length p) s) else None)"

definition read_int :: "string \<Rightarrow> (int \<times> string) option" where
  "read_int s = map_option (\<lambda>v. (v, dropWhile (\<lambda>c. is_digit c \<or> c = CHR ''-'') s))
                  (Atoi (takeWhile (\<lambda>c. is_digit c \<or> c = CHR ''-'') s))"

definition read_plain :: "string \<Rightarrow> (string \<times> string) option" where
  "read_plain s = Some (takeWhile plain_char s, dropWhile plain_char s)"

definition int_field :: "string \<Rightarrow> string \<Rightarrow> (int \<times> string) option" where
  "int_field p s = Option.bind (expect p s) read_int"

definition parse_cursor :: "string \<Rightarrow> streamCursor option" where
  "parse_cursor s =
     Option.bind (int_field ''{\"v\":'' s) (\<lambda>(v, s).
     Option.bind (int_field '',\"o\":'' s) (\<lambda>(off, s).
     Option.bind (int_field '',\"t\":'' s) (\<lambda>(n, s).
     Option.bind (expect '',\"f\":\"'' s) (\<lambda>s.
     Option.bind (read_plain s) (\<lambda>(f, s).
       if s = ''\"}'' then Some \<lparr>sc_Version = v, sc_Offset = off, sc_Total = n, sc_Fingerprint = f\<rparr>
       else None)))))"

lemma expect_append [simp]: "expect p (p @ s) = Some s"
  by (simp add: expect_def)

lemma read_int_Itoa:
  assumes "int64 i" "\<not> is_digit c" "c \<noteq> CHR ''-''"
  shows "read_int (Itoa i @ c # s) = Some (i, c # s)"
proof -
  have "list_all (\<lambda>c. is_digit c \<or> c = CHR ''-'') (Itoa i)"
    using digits_of_digits by (auto simp: Itoa_def list_all_iff)
  then have "takeWhile (\<lambda>c. is_digit c \<or> c = CHR ''-'') (Itoa i @ c # s) = Itoa i"
    "dropWhile (\<lambda>c. is_digit c \<or> c = CHR ''-'') (Itoa i @ c # s) = c # s"
    using assms by (auto simp: list_all_iff takeWhile_append dropWhile_append)
  with assms show ?thesis by (simp add: read_int_def Atoi_Itoa)
qed

lemma int_field_Itoa [simp]:
  "int64 i \<Longrightarrow> \<not> is_digit c \<Longrightarrow> c \<noteq> CHR ''-'' \<Longrightarrow> int_field p (p @ Itoa i @ c # s) = Some (i, c # s)"
  by (simp add: int_field_def read_int_Itoa)

lemma read_plain_append:
  "list_all plain_char f \<Longrightarrow> \<not> plain_char c \<Longrightarrow> read_plain (f @ c # s) = Some (f, c # s)"
  by (auto simp: read_plain_def list_all_iff takeWhile_append dropWhile_append)

lemma cursor_json_plain:
  "list_all plain_char (sc_Fingerprint c) \<Longrightarrow> cursor_json c =
     ''{\"v\":'' @ Itoa (sc_Version c) @ CHR '','' # ''\"o\":'' @ Itoa (sc_Offset c) @ CHR '','' #
     ''\"t\":'' @ Itoa (sc_Total c) @ CHR '','' # ''\"f\":\"'' @ sc_Fingerprint c @ CHR 0x22 # ''}''"
  by (simp add: cursor_json_def json_string_plain, simp add: json_string_def json_escape_def)

lemma parse_cursor_json: "wf_cursor c \<Longrightarrow> parse_cursor (cursor_json c) = Some c"
proof -
  assume wf: "wf_cursor c"
  have nd: "\<not> is_digit CHR '',''" "\<not> plain_char CHR 0x22"
    by (simp_all add: is_digit_def plain_char_def)
  have 1: "int_field ''{\"v\":'' (''{\"v\":'' @ Itoa i @ CHR '','' # s) = Some (i, CHR '','' # s)"
    if "int64 i" for i s
    by (rule int_field_Itoa [OF that nd(1)]) simp
  have 2: "int_field (CHR '','' # k) (CHR '','' # k @ Itoa i @ CHR '','' # s) = Some (i, CHR '','' # s)"
    if "int64 i" for i s k
    using int_field_Itoa [OF that nd(1), of "CHR '','' # k" s] by simp
  have 3: "expect (CHR '','' # k) (CHR '','' # k @ s) = Some s" for k s
    using expect_append [of "CHR '','' # k" s] by simp
  show ?thesis
    using wf nd unfolding wf_cursor_def
    by (simp only: cursor_json_plain parse_cursor_def 1 2 3 read_plain_append Option.bind.bind_lunit
        prod.case) (simp add: read_plain_append)
qed

interpretation compact: cursor_codec parse_cursor
  by unfold_locales (rule parse_cursor_json)

section \<open>Properties\<close>

definition page :: "QueryOptions \<Rightarrow> int \<Rightarrow> int \<Rightarrow> QueryOptions" where
  "page opts L k = opts\<lparr>qo_Offset := k * L, qo_Limit := L, qo_MaxItems := 0\<rparr>"

lemma applyQueryWindow_slice:
  "applyQueryWindow env items opts =
     (let opts = normalizeQueryOptions env opts; n = int (length items);
          (start, stop) = windowBounds opts n
      in (slice items start stop, n, start > 0 \<or> stop < n))"
proof (cases "items = []")
  case True
  have "windowBounds (normalizeQueryOptions env opts) 0 = (0, 0)"
    using windowBounds_range [of "normalizeQueryOptions env opts" 0]
      normalizeQueryOptions_nonneg [of env opts] by (auto simp: prod_eq_iff)
  with True show ?thesis by (simp add: applyQueryWindow_def Let_def slice_def)
qed (simp add: applyQueryWindow_def Let_def)

lemma slice_eq_full:
  assumes "0 \<le> a" "a \<le> b" "b \<le> int (length xs)"
  shows "slice xs a b \<noteq> xs \<longleftrightarrow> (a > 0 \<or> b < int (length xs))"
proof
  assume "a > 0 \<or> b < int (length xs)"
  with length_slice [OF assms] assms have "length (slice xs a b) \<noteq> length xs" by auto
  then show "slice xs a b \<noteq> xs" by auto
next
  assume "slice xs a b \<noteq> xs"
  moreover have "slice xs a b = xs" if "a = 0" "b = int (length xs)"
    using that by simp
  ultimately show "a > 0 \<or> b < int (length xs)" using assms by linarith
qed

text \<open>
  C1: a streaming client that starts without a cursor and follows the returned cursors gets,
  after at most one call per item (and one more), every item of the addressable data set
  exactly once and in order, in chunks that respect the requested size and the server's cap.
\<close>

theorem stream_complete:
  assumes unmarshal: "\<And>c. wf_cursor c \<Longrightarrow> unmarshal (cursor_json c) = Some c"
    and "0 < qo_ChunkSize opts" "int (length items) + effectiveMaxChunkSize env < 2 ^ 63"
  shows "\<exists>cs. stream_run (Suc (length items)) (\<lambda>cur. streamOrWindow env sha256 unmarshal items ident
            keyFn (opts\<lparr>qo_Cursor := cur\<rparr>)) '''' = Some (Inr cs)
       \<and> concat cs = capItems items (qo_MaxItems opts)
       \<and> (\<forall>c\<in>set cs. int (length c) \<le> qo_ChunkSize opts \<and> int (length c) \<le> effectiveMaxChunkSize env)"
proof -
  have "cursor_codec unmarshal" using unmarshal by unfold_locales
  from cursor_codec.stream_run_complete [OF this assms(2,3)] show ?thesis
    unfolding streamed_def
    using clampChunkSize_le [of env] clampChunkSize_le_self [of env] by (meson order_trans)
qed

definition sample_opts :: QueryOptions where
  "sample_opts = \<lparr>qo_Limit = 0, qo_Offset = 0, qo_MaxItems = 5, qo_Summary = False, qo_Cursor = '''',
     qo_ChunkSize = 2, qo_Export = ''''\<rparr>"

lemma env_unset [simp]: "effectiveMaxChunkSize '''' = 50"
  by (simp add: effectiveMaxChunkSize_def DefaultMaxChunkSize_def)

theorem stream_complete_witness:
  "\<exists>cs. stream_run 8 (\<lambda>cur. streamOrWindow '''' (\<lambda>s. s) parse_cursor [1, 2, 3, 4, 5, 6, 7::nat] ''ds''
            (\<lambda>n. Itoa (int n)) (sample_opts\<lparr>qo_Cursor := cur\<rparr>)) '''' = Some (Inr cs)
       \<and> concat cs = [1, 2, 3, 4, 5]"
  using stream_complete [OF parse_cursor_json, of sample_opts "[1, 2, 3, 4, 5, 6, 7::nat]" "''''"
      "\<lambda>s. s" "''ds''" "\<lambda>n. Itoa (int n)"]
  by (auto simp: sample_opts_def capItems_def slice_def eval_nat_numeral)

text \<open>
  For option values whose sums with the number of items fit 64 bits, the legacy window is
  the items after the offset, cut to the two limits; the total is the number of items, and the
  result is flagged as truncated exactly if it is not the whole list.
\<close>

theorem query_window_spec:
  fixes items :: "'a list"
  assumes "window_fits opts (int (length items))"
  shows "applyQueryWindow env items opts =
     (let w = window_spec opts items in (w, int (length items), w \<noteq> items))"
proof -
  let ?o = "normalizeQueryOptions env opts" and ?n = "int (length items)"
  have pos: "0 \<le> qo_Offset ?o" by (rule normalizeQueryOptions_nonneg)
  have "window_fits ?o ?n"
    using assms by (simp add: window_fits_def normalizeQueryOptions_fields)
  note spec = windowBounds_spec [OF pos this]
  note range = windowBounds_range [OF pos, of ?n]
  have "window_spec ?o items = window_spec opts items"
    by (auto simp: window_spec_def normalizeQueryOptions_fields max_def Let_def)
  with spec range slice_eq_full [of "fst (windowBounds ?o ?n)" "snd (windowBounds ?o ?n)" items]
  show ?thesis by (simp add: applyQueryWindow_slice Let_def split_def)
qed

theorem query_window_spec_witness:
  "applyQueryWindow ''7'' [1, 2, 3, 4, 5::nat] (sample_opts\<lparr>qo_Offset := 1, qo_Limit := 3\<rparr>)
     = ([2, 3, 4], 5, True)"
  using query_window_spec [of "sample_opts\<lparr>qo_Offset := 1, qo_Limit := 3\<rparr>" "[1, 2, 3, 4, 5::nat]" "''7''"]
  by (simp add: sample_opts_def window_fits_def window_spec_def)


text \<open>
  Pages do not lose or repeat items: the first \<open>m\<close> pages of \<open>L\<close> items, put together,
  are the first \<open>m * L\<close> items.
\<close>

theorem query_pages_concat:
  fixes items :: "'a list"
  assumes "0 < L" "int (length items) + L < 2 ^ 63"
  shows "concat (map (\<lambda>k. fst (applyQueryWindow env items (page opts L (int k)))) [0..<m])
       = take (m * nat L) items"
proof (induction m)
  case (Suc m)
  have "window_fits (page opts L (int m)) (int (length items))"
    using assms by (simp add: window_fits_def page_def)
  from query_window_spec [OF this, of env] assms(1)
  have "fst (applyQueryWindow env items (page opts L (int m))) = take (nat L) (drop (m * nat L) items)"
    by (simp add: window_spec_def page_def Let_def nat_mult_distrib)
  with Suc show ?case by (simp add: take_add [symmetric] add.commute)
qed simp

theorem query_pages_concat_witness:
  "concat (map (\<lambda>k. fst (applyQueryWindow '''' ''abcdefg'' (page sample_opts 3 (int k)))) [0..<3])
     = ''abcdefg''"
  using query_pages_concat [of 3 "''abcdefg''" "''''" sample_opts 3] by simp



text \<open>
  The sums of the window overflow: an offset inside the list with a limit near the largest
  64-bit value gives an empty window, although items follow the offset.
\<close>

theorem query_window_overflow:
  fixes items :: "'a list"
  assumes "0 < qo_Offset opts" "qo_Offset opts < int (length items)" "int (length items) < 2 ^ 62"
    and "qo_MaxItems opts = 0" "qo_Limit opts = 2 ^ 63 - 1"
  shows "applyQueryWindow env items opts = ([], int (length items), True)"
proof -
  have "wrap64 (qo_Offset opts + (2 ^ 63 - 1)) = qo_Offset opts - 1 - 2 ^ 63"
    using assms wrap64_over [of "qo_Offset opts + (2 ^ 63 - 1)"] by simp
  then show ?thesis
    using assms by (simp add: applyQueryWindow_slice Let_def windowBounds_def
        normalizeQueryOptions_fields max_def)
qed

theorem query_window_overflow_witness:
  "applyQueryWindow '''' ''abc'' (sample_opts\<lparr>qo_Offset := 1, qo_MaxItems := 0, qo_Limit := 2 ^ 63 - 1\<rparr>)
     = ([], 3, True)"
  using query_window_overflow [of "sample_opts\<lparr>qo_Offset := 1, qo_MaxItems := 0, qo_Limit := 2 ^ 63 - 1\<rparr>"
      "''abc''" "''''"] by simp

end
