(* ===== verification/Import_Graph.thy ===== *)
theory Import_Graph
  imports Graph_Search Graph_Export Query_Window "HOL-Library.AList"
begin

text \<open>
  The package import graph: \<^verbatim>\<open>analyzer/dependencies.go\<close>, \<^verbatim>\<open>analyzer/reverse_dependencies.go\<close>
  and \<^verbatim>\<open>analyzer/cycles.go\<close>. A loaded package is its path, its imports in the order Go ranges
  over the map (\<open>None\<close> for a nil entry) and its compiled files. The rows of the dependency
  table are an argument. The paging environment (chunk size variable, SHA-256, JSON reader) is
  bundled in a record.
\<close>

record Pkg =
  pk_PkgPath :: string
  pk_Imports :: "string option list"
  pk_CompiledGoFiles :: "string list"

record paging =
  pg_env :: string
  pg_sha256 :: "string \<Rightarrow> string"
  pg_unmarshal :: "string \<Rightarrow> streamCursor option"

definition page_items ::
  "paging \<Rightarrow> 'a list \<Rightarrow> string \<Rightarrow> ('a \<Rightarrow> string) \<Rightarrow> QueryOptions \<Rightarrow> stream_error + 'a window_result" where
  "page_items pg items ident key opts =
     streamOrWindow (pg_env pg) (pg_sha256 pg) (pg_unmarshal pg) items ident key opts"

definition contextAnchor :: "string \<Rightarrow> int \<Rightarrow> string \<Rightarrow> string" where
  "contextAnchor file line symbol =
     (if file = '''' \<or> line = 0 then ''''
      else ''[Context Anchor] '' @ file @ '':'' @ Itoa line @ '' '' @ symbol)"

section \<open>Dependencies\<close>

record PackageDependency =
  pd_Package :: string
  pd_Imports :: "string list"
  pd_File :: string
  pd_Line :: int
  pd_Anchor :: string

record DependencySummary =
  ds_TotalPackages :: int
  ds_TotalImports :: int
  ds_ByPackage :: "string \<rightharpoonup> int"

record DependencyResult =
  dr_Offset :: int
  dr_Limit :: int
  dr_MaxItems :: int
  dr_ChunkSize :: int
  dr_NextCursor :: string
  dr_HasMore :: bool
  dr_TotalBeforeTruncate :: int
  dr_Truncated :: bool
  dr_Summary :: "DependencySummary option"
  dr_Packages :: "PackageDependency list"
  dr_Diagram :: string

definition packageAnchorLocation :: "Pkg \<Rightarrow> string \<times> int" where
  "packageAnchorLocation p =
     (case pk_CompiledGoFiles p of [] \<Rightarrow> ('''', 0) | f # _ \<Rightarrow> (f, 1))"

definition packageAnchorLocationForPath :: "Pkg list \<Rightarrow> string \<Rightarrow> string" where
  "packageAnchorLocationForPath pkgs path =
     (case find (\<lambda>p. pk_PkgPath p = path) pkgs of
        None \<Rightarrow> '''' | Some p \<Rightarrow> fst (packageAnchorLocation p))"

definition packageDependencyKey :: "PackageDependency \<Rightarrow> string" where
  "packageDependencyKey p = pd_Package p"

definition summarizeDependencies :: "PackageDependency list \<Rightarrow> bool \<Rightarrow> DependencySummary option" where
  "summarizeDependencies packages enabled =
     (if \<not> enabled then None
      else Some (fold (\<lambda>p s. s\<lparr>ds_TotalImports := ds_TotalImports s + int (length (pd_Imports p)),
                      ds_ByPackage := (ds_ByPackage s)(pd_Package p \<mapsto> int (length (pd_Imports p)))\<rparr>)
             packages \<lparr>ds_TotalPackages = int (length packages), ds_TotalImports = 0, ds_ByPackage = Map.empty\<rparr>))"

definition buildDependencyGraph :: "PackageDependency list \<Rightarrow> graphBuilder" where
  "buildDependencyGraph pkgs =
     fold (\<lambda>(f, t, l, s). addEdge f t l s)
       (concat (map (\<lambda>p. map (\<lambda>imp. (pd_Package p, imp, '''', '''')) (pd_Imports p)) pkgs))
       (fold (\<lambda>(l, c) b. snd (addNode l c b)) (map (\<lambda>p. (pd_Package p, '''')) pkgs)
         (newGraphBuilder ''package_dependencies'' ''LR''))"

definition dependencyOfRow :: "Pkg list \<Rightarrow> string \<times> string list \<Rightarrow> PackageDependency" where
  "dependencyOfRow pkgs row =
     (let file = packageAnchorLocationForPath pkgs (fst row)
      in \<lparr>pd_Package = fst row, pd_Imports = snd row, pd_File = file, pd_Line = 1,
          pd_Anchor = contextAnchor file 1 (fst row)\<rparr>)"

definition GetPackageDependenciesWithOptions ::
  "paging \<Rightarrow> Pkg list \<Rightarrow> (string \<times> string list) list \<Rightarrow> string \<Rightarrow> string \<Rightarrow> QueryOptions \<Rightarrow>
   stream_error + DependencyResult" where
  "GetPackageDependenciesWithOptions pg pkgs rows dir pattern opts =
     (let all = map (dependencyOfRow pkgs) rows
      in case page_items pg all (''package_dependencies:'' @ dir @ ''|'' @ pattern) packageDependencyKey opts of
           Inl e \<Rightarrow> Inl e
         | Inr w \<Rightarrow> Inr \<lparr>dr_Offset = qo_Offset opts, dr_Limit = qo_Limit opts, dr_MaxItems = qo_MaxItems opts,
             dr_ChunkSize = (if qo_ChunkSize opts > 0 then clampChunkSize (pg_env pg) (qo_ChunkSize opts) else 0),
             dr_NextCursor = wr_next w, dr_HasMore = wr_more w, dr_TotalBeforeTruncate = wr_total w,
             dr_Truncated = wr_truncated w, dr_Summary = summarizeDependencies all (qo_Summary opts),
             dr_Packages = wr_items w,
             dr_Diagram = (if qo_Export opts \<noteq> ExportNone
                then RenderGraph (buildGraph (buildDependencyGraph (wr_items w))) (qo_Export opts) else '''')\<rparr>)"

section \<open>Reverse dependencies\<close>

record ReverseDependenciesResult =
  rd_TargetPackage :: string
  rd_DirectDependents :: "string list"
  rd_TransitiveDependents :: "string list"
  rd_DirectCount :: int
  rd_TransitiveCount :: int
  rd_Offset :: int
  rd_Limit :: int
  rd_MaxItems :: int
  rd_ChunkSize :: int
  rd_NextCursor :: string
  rd_HasMore :: bool
  rd_TotalBeforeTruncate :: int
  rd_Truncated :: bool
  rd_Diagram :: string

datatype rd_error = TargetRequired | RdStream stream_error

text \<open>\<^verbatim>\<open>reverseAdj[imp]\<close>: the paths of the packages that import it, one per import entry.\<close>

definition reverseAdj :: "Pkg list \<Rightarrow> string \<Rightarrow> string list" where
  "reverseAdj pkgs imp =
     concat (map (\<lambda>p. map (\<lambda>_. pk_PkgPath p) (filter (\<lambda>i. i = Some imp) (pk_Imports p))) pkgs)"

definition buildReverseDependencyGraph :: "string \<Rightarrow> string list \<Rightarrow> string list \<Rightarrow> graphBuilder" where
  "buildReverseDependencyGraph target direct transitive =
     (let b = newGraphBuilder (''reverse_dependencies:'' @ target) ''LR'';
          b = (if target \<noteq> '''' then snd (addNode target ''target'' b) else b);
          b = fold (\<lambda>d. addEdge d target '''' '''') direct b
      in fold (\<lambda>t b. addEdge t target ''transitive'' ''dashed'' (snd (addNode t '''' b))) transitive b)"

text \<open>The breadth-first search, with one unit of fuel per package.\<close>

definition dependentClosure :: "Pkg list \<Rightarrow> string list \<Rightarrow> string list" where
  "dependentClosure pkgs direct = bfs (length pkgs) (reverseAdj pkgs) direct direct"

definition transitiveDependents :: "Pkg list \<Rightarrow> string list \<Rightarrow> string list" where
  "transitiveDependents pkgs direct =
     sort (filter (\<lambda>p. p \<notin> set direct) (dependentClosure pkgs direct))"

definition transitiveCap :: "QueryOptions \<Rightarrow> int" where
  "transitiveCap opts =
     (if qo_Limit opts = 0 \<or> (qo_MaxItems opts > 0 \<and> qo_MaxItems opts < qo_Limit opts)
      then qo_MaxItems opts else qo_Limit opts)"

definition FindReverseDependenciesWithOptions ::
  "paging \<Rightarrow> Pkg list \<Rightarrow> string \<Rightarrow> bool \<Rightarrow> QueryOptions \<Rightarrow> rd_error + ReverseDependenciesResult" where
  "FindReverseDependenciesWithOptions pg pkgs target includeTransitive opts =
     (if target = '''' then Inl TargetRequired
      else
        (let directSet = dedup (reverseAdj pkgs target);
             direct = sort directSet
         in case page_items pg direct (''reverse_dependencies:'' @ target) (\<lambda>d. d) opts of
              Inl e \<Rightarrow> Inl (RdStream e)
            | Inr w \<Rightarrow>
                (let result = \<lparr>rd_TargetPackage = target, rd_DirectDependents = wr_items w,
                       rd_TransitiveDependents = [], rd_DirectCount = int (length direct), rd_TransitiveCount = 0,
                       rd_Offset = qo_Offset opts, rd_Limit = qo_Limit opts, rd_MaxItems = qo_MaxItems opts,
                       rd_ChunkSize = (if qo_ChunkSize opts > 0 then qo_ChunkSize opts else 0),
                       rd_NextCursor = wr_next w, rd_HasMore = wr_more w,
                       rd_TotalBeforeTruncate = int (length direct), rd_Truncated = wr_truncated w,
                       rd_Diagram = ''''\<rparr>
                 in if \<not> includeTransitive then Inr result
                    else
                      (let trans = transitiveDependents pkgs directSet;
                           cap = transitiveCap opts;
                           cut = cap > 0 \<and> int (length trans) > cap;
                           shown = (if cut then take (nat cap) trans else trans)
                       in Inr (result\<lparr>rd_TransitiveDependents := shown, rd_TransitiveCount := int (length trans),
                              rd_TotalBeforeTruncate := int (length direct) + int (length trans),
                              rd_Truncated := (cut \<or> wr_truncated w),
                              rd_Diagram := (if qo_Export opts \<noteq> ExportNone
                                then RenderGraph (buildGraph (buildReverseDependencyGraph target (wr_items w) shown))
                                       (qo_Export opts) else '''')\<rparr>)))))"

section \<open>Import cycles\<close>

text \<open>
  The state of Tarjan's algorithm. The graph is a list of nodes with their sorted neighbours;
  the recursion of \<^verbatim>\<open>strongConnect\<close> is bounded by fuel.
\<close>

record tarjan =
  tj_idx :: nat
  tj_index :: "string \<rightharpoonup> nat"
  tj_lowlink :: "string \<rightharpoonup> nat"
  tj_onStack :: "string \<Rightarrow> bool"
  tj_stack :: "string list"           \<comment> \<open>top first\<close>
  tj_sccs :: "string list list"

definition importGraph :: "Pkg list \<Rightarrow> (string \<times> string list) list" where
  "importGraph pkgs =
     fold (\<lambda>p g. AList.update (pk_PkgPath p) (sort (map the (filter (\<lambda>i. i \<noteq> None) (pk_Imports p)))) g) pkgs []"

definition tj_enter :: "string \<Rightarrow> tarjan \<Rightarrow> tarjan" where
  "tj_enter v s = s\<lparr>tj_index := (tj_index s)(v \<mapsto> tj_idx s), tj_lowlink := (tj_lowlink s)(v \<mapsto> tj_idx s),
     tj_idx := Suc (tj_idx s), tj_stack := v # tj_stack s, tj_onStack := (tj_onStack s)(v := True)\<rparr>"

definition tj_lower :: "string \<Rightarrow> nat option \<Rightarrow> tarjan \<Rightarrow> tarjan" where
  "tj_lower v k s =
     (case (k, tj_lowlink s v) of
        (Some a, Some b) \<Rightarrow> if a < b then s\<lparr>tj_lowlink := (tj_lowlink s)(v \<mapsto> a)\<rparr> else s
      | _ \<Rightarrow> s)"

text \<open>Popping up to and including \<open>v\<close>.\<close>

fun tj_pop :: "string \<Rightarrow> string list \<Rightarrow> string list \<times> string list" where
  "tj_pop v [] = ([], [])"
| "tj_pop v (w # st) = (if w = v then ([w], st) else (case tj_pop v st of (scc, r) \<Rightarrow> (w # scc, r)))"

definition tj_close :: "string \<Rightarrow> tarjan \<Rightarrow> tarjan" where
  "tj_close v s =
     (if tj_lowlink s v = tj_index s v then
        (case tj_pop v (tj_stack s) of
           (scc, rest) \<Rightarrow> s\<lparr>tj_stack := rest, tj_onStack := (\<lambda>w. w \<notin> set scc \<and> tj_onStack s w),
              tj_sccs := tj_sccs s @ [scc]\<rparr>)
      else s)"

fun strongConnect :: "nat \<Rightarrow> (string \<times> string list) list \<Rightarrow> string \<Rightarrow> tarjan \<Rightarrow> tarjan" where
  "strongConnect 0 g v s = s"
| "strongConnect (Suc fuel) g v s =
     tj_close v
       (fold (\<lambda>w s.
          if w \<notin> fst ` set g then s
          else if tj_index s w = None then
            (let s = strongConnect fuel g w s in tj_lower v (tj_lowlink s w) s)
          else if tj_onStack s w then tj_lower v (tj_index s w) s
          else s) (the (map_of g v)) (tj_enter v s))"

definition tj_init :: tarjan where
  "tj_init = \<lparr>tj_idx = 0, tj_index = Map.empty, tj_lowlink = Map.empty, tj_onStack = (\<lambda>_. False),
     tj_stack = [], tj_sccs = []\<rparr>"

definition findSCCs :: "(string \<times> string list) list \<Rightarrow> string list list" where
  "findSCCs g =
     tj_sccs (fold (\<lambda>v s. if tj_index s v = None then strongConnect (Suc (length g)) g v s else s)
       (sort (map fst g)) tj_init)"

definition cycle_less :: "string list \<Rightarrow> string list \<Rightarrow> bool" where
  "cycle_less a b = (if length a \<noteq> length b then length a < length b else hd a < hd b)"

definition DetectImportCycles :: "Pkg list \<Rightarrow> string list list \<times> int" where
  "DetectImportCycles pkgs =
     (let cycles = sort_slice cycle_less
            (map sort (filter (\<lambda>scc. length scc \<ge> 2) (findSCCs (importGraph pkgs))))
      in (cycles, int (length cycles)))"

section \<open>Laws\<close>

text \<open>\<open>imports_pkg pkgs q p\<close>: some loaded package with path \<open>q\<close> imports \<open>p\<close>.\<close>

definition imports_rel :: "Pkg list \<Rightarrow> (string \<times> string) set" where
  "imports_rel pkgs = {(q, p). \<exists>k \<in> set pkgs. pk_PkgPath k = q \<and> Some p \<in> set (pk_Imports k)}"

lemma set_reverseAdj: "set (reverseAdj pkgs p) = {q. (q, p) \<in> imports_rel pkgs}"
  by (auto simp: reverseAdj_def imports_rel_def)

interpretation importers: finite_graph "reverseAdj pkgs" "pk_PkgPath ` set pkgs" for pkgs
  by unfold_locales (auto simp: set_reverseAdj imports_rel_def)

lemma closure_trancl:
  "reach_from (reverseAdj pkgs) (set (reverseAdj pkgs t)) q \<longleftrightarrow> (q, t) \<in> (imports_rel pkgs)\<^sup>+"
proof
  assume "reach_from (reverseAdj pkgs) (set (reverseAdj pkgs t)) q"
  then show "(q, t) \<in> (imports_rel pkgs)\<^sup>+"
    by (induction rule: reach_from.induct) (auto simp: set_reverseAdj intro: trancl_into_trancl2)
next
  assume "(q, t) \<in> (imports_rel pkgs)\<^sup>+"
  then show "reach_from (reverseAdj pkgs) (set (reverseAdj pkgs t)) q"
    by (induction rule: converse_trancl_induct) (auto simp: set_reverseAdj intro: reach_from.intros)
qed

lemma dependentClosure_set:
  "set (dependentClosure pkgs (dedup (reverseAdj pkgs t))) = {q. (q, t) \<in> (imports_rel pkgs)\<^sup>+}"
  "distinct (dependentClosure pkgs (dedup (reverseAdj pkgs t)))"
proof -
  have "set (dedup (reverseAdj pkgs t)) \<subseteq> pk_PkgPath ` set pkgs"
    by (auto simp: set_reverseAdj imports_rel_def)
  moreover have "card (pk_PkgPath ` set pkgs) \<le> length pkgs"
    by (metis card_length card_image_le finite_set le_trans)
  ultimately show "set (dependentClosure pkgs (dedup (reverseAdj pkgs t))) = {q. (q, t) \<in> (imports_rel pkgs)\<^sup>+}"
    "distinct (dependentClosure pkgs (dedup (reverseAdj pkgs t)))"
    using importers.bfs_reaches [of "dedup (reverseAdj pkgs t)" pkgs "length pkgs"]
    by (simp_all add: dependentClosure_def closure_trancl)
qed

section \<open>Properties\<close>

definition no_paging :: "QueryOptions \<Rightarrow> bool" where
  "no_paging opts \<longleftrightarrow> qo_Limit opts = 0 \<and> qo_MaxItems opts = 0 \<and> qo_Offset opts = 0 \<and> qo_ChunkSize opts = 0"

lemma page_items_all:
  "no_paging opts \<Longrightarrow> page_items pg items ident key opts =
     Inr \<lparr>wr_items = items, wr_total = int (length items), wr_truncated = False, wr_more = False, wr_next = ''''\<rparr>"
  by (simp add: no_paging_def page_items_def streamOrWindow_def applyQueryWindow_slice windowBounds_def Let_def
      normalizeQueryOptions_fields clampChunkSize_def)

text \<open>
  C11: without paging limits the reverse dependencies are complete: the direct dependents are
  the packages that import the target, and the transitive ones those that reach it by a chain of
  imports without importing it themselves, both sorted and without repetition.
\<close>

theorem reverse_dependencies_complete:
  assumes "target \<noteq> ''''" "no_paging opts"
  shows "\<exists>r. FindReverseDependenciesWithOptions pg pkgs target True opts = Inr r
     \<and> set (rd_DirectDependents r) = {q. (q, target) \<in> imports_rel pkgs}
     \<and> set (rd_TransitiveDependents r) = {q. (q, target) \<in> (imports_rel pkgs)\<^sup>+} - {q. (q, target) \<in> imports_rel pkgs}
     \<and> sorted_wrt (<) (rd_DirectDependents r) \<and> sorted_wrt (<) (rd_TransitiveDependents r)"
proof -
  let ?d = "dedup (reverseAdj pkgs target)"
  have "sorted_wrt (<) (sort ?d)" by (rule strict_sorted_sort) simp
  moreover have "sorted_wrt (<) (transitiveDependents pkgs ?d)"
    unfolding transitiveDependents_def by (rule strict_sorted_sort) (simp add: dependentClosure_set)
  moreover have "set (transitiveDependents pkgs ?d)
      = {q. (q, target) \<in> (imports_rel pkgs)\<^sup>+} - {q. (q, target) \<in> imports_rel pkgs}"
    by (auto simp: transitiveDependents_def dependentClosure_set set_reverseAdj)
  moreover have "transitiveCap opts = 0" using assms(2) by (simp add: transitiveCap_def no_paging_def)
  ultimately show ?thesis
    using assms by (simp add: FindReverseDependenciesWithOptions_def page_items_all Let_def set_reverseAdj)
qed

definition sample_pkgs :: "Pkg list" where
  "sample_pkgs = [\<lparr>pk_PkgPath = ''a'', pk_Imports = [Some ''b'', None], pk_CompiledGoFiles = [''a.go'']\<rparr>,
     \<lparr>pk_PkgPath = ''b'', pk_Imports = [Some ''c''], pk_CompiledGoFiles = []\<rparr>,
     \<lparr>pk_PkgPath = ''c'', pk_Imports = [], pk_CompiledGoFiles = []\<rparr>]"

definition plain_opts :: QueryOptions where
  "plain_opts = \<lparr>qo_Limit = 0, qo_Offset = 0, qo_MaxItems = 0, qo_Summary = False, qo_Cursor = '''',
     qo_ChunkSize = 0, qo_Export = ''mermaid''\<rparr>"

definition sample_paging :: paging where
  "sample_paging = \<lparr>pg_env = '''', pg_sha256 = (\<lambda>s. s), pg_unmarshal = parse_cursor\<rparr>"

theorem reverse_dependencies_complete_witness:
  "\<exists>r. FindReverseDependenciesWithOptions sample_paging sample_pkgs ''c'' True plain_opts = Inr r
     \<and> set (rd_DirectDependents r) = {''b''}"
  using reverse_dependencies_complete [of "''c''" plain_opts sample_paging sample_pkgs]
  by (auto simp: plain_opts_def no_paging_def sample_pkgs_def imports_rel_def)

text \<open>
  The diagram that was asked for is missing unless the transitive dependents were asked for
  as well.
\<close>

theorem reverse_dependencies_no_diagram:
  "FindReverseDependenciesWithOptions pg pkgs target False opts = Inr r \<Longrightarrow> rd_Diagram r = ''''"
  by (auto simp: FindReverseDependenciesWithOptions_def Let_def split: if_splits sum.splits)

theorem reverse_dependencies_no_diagram_witness:
  "\<exists>r. FindReverseDependenciesWithOptions sample_paging sample_pkgs ''c'' False plain_opts = Inr r
     \<and> qo_Export plain_opts = ExportMermaid \<and> rd_Diagram r = ''''"
proof -
  obtain r where "FindReverseDependenciesWithOptions sample_paging sample_pkgs ''c'' False plain_opts = Inr r"
    by (simp add: FindReverseDependenciesWithOptions_def Let_def page_items_all plain_opts_def no_paging_def)
  with reverse_dependencies_no_diagram [OF this] show ?thesis
    by (auto simp: plain_opts_def ExportMermaid_def)
qed

text \<open>
  The dependency diagram shows the window and nothing else: read through the node labels,
  its edges are the imports of the listed packages, and its nodes the packages and their imports.
\<close>

theorem dependency_graph_faithful:
  "mset (drawn_edges (buildDependencyGraph pkgs)) =
     mset (concat (map (\<lambda>p. map (\<lambda>imp. (pd_Package p, imp, '''', '''')) (pd_Imports p)) pkgs))
   \<and> set (node_labels (buildDependencyGraph pkgs)) = pd_Package ` set pkgs \<union> (\<Union>p \<in> set pkgs. set (pd_Imports p))
   \<and> distinct (node_labels (buildDependencyGraph pkgs))
   \<and> distinct (map gn_ID (gr_Nodes (buildGraph (buildDependencyGraph pkgs))))
   \<and> mset (map (edge_labels (gr_Nodes (gb_g (buildDependencyGraph pkgs)))) (gr_Edges (buildGraph (buildDependencyGraph pkgs))))
       = mset (drawn_edges (buildDependencyGraph pkgs))"
proof -
  let ?start = "newGraphBuilder ''package_dependencies'' ''LR''"
  let ?ns = "map (\<lambda>p. (pd_Package p, '''')) pkgs"
  let ?es = "concat (map (\<lambda>p. map (\<lambda>imp. (pd_Package p, imp, '''', '''')) (pd_Imports p)) pkgs)"
  let ?b = "buildDependencyGraph pkgs"
  have n: "builder_inv (fold (\<lambda>(l, c) b. snd (addNode l c b)) ?ns ?start)"
    "drawn_edges (fold (\<lambda>(l, c) b. snd (addNode l c b)) ?ns ?start) = []"
    "set (node_labels (fold (\<lambda>(l, c) b. snd (addNode l c b)) ?ns ?start)) = pd_Package ` set pkgs"
    using addNodes_spec [where b = ?start and ns = ?ns] by (simp_all add: image_image)
  have b: "builder_inv ?b \<and> drawn_edges ?b = ?es \<and>
    set (node_labels ?b) = pd_Package ` set pkgs \<union> (\<Union>(f, t, l, s) \<in> set ?es. {f, t})"
    unfolding buildDependencyGraph_def using addEdges_spec [OF n(1), of ?es] n(2,3) by simp
  have "pd_Package ` set pkgs \<union> (\<Union>(f, t, l, s) \<in> set ?es. {f, t})
      = pd_Package ` set pkgs \<union> (\<Union>p \<in> set pkgs. set (pd_Imports p))"
    by fastforce
  moreover have "distinct (node_labels ?b)" using b by (simp add: builder_inv_def node_labels_def)
  moreover have "distinct (map gn_ID (gr_Nodes (buildGraph ?b)))"
    using b distinct_ids [of ?b] by (simp add: buildGraph_def)
  moreover have "mset (map (edge_labels (gr_Nodes (gb_g ?b))) (gr_Edges (buildGraph ?b))) = mset (drawn_edges ?b)"
    by (simp add: buildGraph_def drawn_edges_def)
  ultimately show ?thesis using b by simp
qed

end
