(* ===== verification/Boundaries.thy ===== *)
theory Boundaries
  imports Import_Graph
begin

text \<open>
  \<^verbatim>\<open>analyzer/boundaries.go\<close>: architecture rules evaluated over the imports of the loaded
  packages. A parsed file is its name and its import specs, each the quoted literal and the
  line; the maps of import locations are association lists with distinct keys.
\<close>

section \<open>Data\<close>

definition RuleForbid :: string where "RuleForbid = ''forbid''"
definition RuleAllowOnly :: string where "RuleAllowOnly = ''allow_only''"
definition RuleAllowPrefix :: string where "RuleAllowPrefix = ''allow_prefix''"

record BoundaryRule =
  bl_Type :: string
  bl_From :: string
  bl_To :: string

record BoundaryViolation =
  bv_From :: string
  bv_To :: string
  bv_Import :: string
  bv_Rule :: string
  bv_File :: string
  bv_Line :: int
  bv_Anchor :: string

record BoundaryResult =
  bd_Violations :: "BoundaryViolation list"
  bd_ViolationCount :: int
  bd_CheckedPackages :: int
  bd_Offset :: int
  bd_Limit :: int
  bd_MaxItems :: int
  bd_ChunkSize :: int
  bd_NextCursor :: string
  bd_HasMore :: bool
  bd_TotalBeforeTruncate :: int
  bd_Truncated :: bool
  bd_Diagram :: string

type_synonym import_locs = "(string \<times> string \<times> int) list"
type_synonym parsed_file = "string \<times> (string \<times> int) list"

section \<open>Import locations\<close>

definition initialLocs :: "Pkg \<Rightarrow> string list \<Rightarrow> import_locs" where
  "initialLocs p keys = map (\<lambda>k. (k, '''', 0)) keys"

definition recordImport :: "string \<Rightarrow> string \<times> int \<Rightarrow> import_locs \<Rightarrow> import_locs" where
  "recordImport file spec locs =
     (let path = Trim (fst spec) [CHR 0x22]
      in if path \<in> fst ` set locs then AList.update path (file, snd spec) locs else locs)"

definition recordFiles :: "parsed_file list \<Rightarrow> import_locs \<Rightarrow> import_locs" where
  "recordFiles files locs = fold (\<lambda>(file, specs) locs. fold (recordImport file) specs locs) files locs"

text \<open>\<open>keys\<close> are the keys of \<^verbatim>\<open>pkg.Imports\<close>, \<open>files\<close> is \<^verbatim>\<open>pkg.Syntax\<close>.\<close>

definition extractImportLocsFromPkg :: "Pkg \<Rightarrow> string list \<Rightarrow> parsed_file list \<Rightarrow> import_locs" where
  "extractImportLocsFromPkg p keys files =
     (if files = [] then initialLocs p keys else recordFiles files (initialLocs p keys))"

text \<open>\<open>parse\<close> is \<^verbatim>\<open>parser.ParseFile\<close> of a compiled file; unparsable files are skipped.\<close>

definition pkgImportLocs ::
  "(string \<Rightarrow> (string \<times> int) list option) \<Rightarrow> Pkg \<Rightarrow> string list \<Rightarrow> parsed_file list \<Rightarrow> import_locs" where
  "pkgImportLocs parse p keys files =
     (if files \<noteq> [] then recordFiles files (initialLocs p keys)
      else recordFiles (concat (map (\<lambda>f. case parse f of None \<Rightarrow> [] | Some specs \<Rightarrow> [(f, specs)])
                                 (pk_CompiledGoFiles p))) (initialLocs p keys))"

section \<open>Rules\<close>

definition matchBoundaryPkg :: "string \<Rightarrow> string \<Rightarrow> bool" where
  "matchBoundaryPkg pkgPath pattern =
     (if HasSuffix pattern ''/'' then pkgPath = TrimSuffix pattern ''/'' \<or> HasPrefix pkgPath pattern
      else pkgPath = pattern)"

definition matchBoundaryTo :: "string \<Rightarrow> BoundaryRule \<Rightarrow> bool" where
  "matchBoundaryTo impPath rule =
     (if bl_Type rule = RuleAllowPrefix then HasPrefix impPath (bl_To rule)
      else matchBoundaryPkg impPath (bl_To rule))"

definition newViolation :: "string \<Rightarrow> string \<Rightarrow> string \<times> int \<Rightarrow> BoundaryRule \<Rightarrow> BoundaryViolation" where
  "newViolation fr imp loc rule =
     \<lparr>bv_From = fr, bv_To = bl_To rule, bv_Import = imp, bv_Rule = bl_Type rule, bv_File = fst loc,
      bv_Line = snd loc, bv_Anchor = contextAnchor (fst loc) (snd loc) imp\<rparr>"

definition ruleViolations ::
  "(string \<Rightarrow> bool) \<Rightarrow> string \<Rightarrow> import_locs \<Rightarrow> BoundaryRule \<Rightarrow> BoundaryViolation list" where
  "ruleViolations inProject path locs rule =
     (if \<not> matchBoundaryPkg path (bl_From rule) then []
      else if bl_Type rule = RuleForbid then
        map (\<lambda>(imp, loc). newViolation path imp loc rule) (filter (\<lambda>(imp, loc). matchBoundaryTo imp rule) locs)
      else if bl_Type rule = RuleAllowOnly \<or> bl_Type rule = RuleAllowPrefix then
        map (\<lambda>(imp, loc). newViolation path imp loc rule)
          (filter (\<lambda>(imp, loc). inProject imp \<and> \<not> matchBoundaryTo imp rule) locs)
      else [])"

definition violation_less :: "BoundaryViolation \<Rightarrow> BoundaryViolation \<Rightarrow> bool" where
  "violation_less a b =
     (if bv_From a \<noteq> bv_From b then bv_From a < bv_From b
      else if bv_Import a \<noteq> bv_Import b then bv_Import a < bv_Import b
      else bv_Rule a < bv_Rule b)"

definition boundaryViolationKey :: "BoundaryViolation \<Rightarrow> string" where
  "boundaryViolationKey v = bv_From v @ ''->'' @ bv_Import v @ ''|'' @ bv_Rule v @ ''|'' @ bv_File v @ '':'' @ Itoa (bv_Line v)"

definition buildBoundaryGraph :: "BoundaryViolation list \<Rightarrow> graphBuilder" where
  "buildBoundaryGraph vs =
     fold (\<lambda>v b. let b = snd (addNode (bv_From v) ''violation'' b);
                     b = snd (addNode (bv_Import v) '''' b)
                 in addEdge (bv_From v) (bv_Import v) (bv_Rule v) ''dashed'' b)
       vs (newGraphBuilder ''architecture_boundaries'' ''LR'')"

text \<open>A loaded package comes with its cached import locations.\<close>

definition allViolations :: "(Pkg \<times> import_locs) list \<Rightarrow> BoundaryRule list \<Rightarrow> BoundaryViolation list" where
  "allViolations pkgs rules =
     (let inProject = (\<lambda>p. p \<in> pk_PkgPath ` fst ` set pkgs)
      in concat (map (\<lambda>(p, locs). concat (map (ruleViolations inProject (pk_PkgPath p) locs) rules)) pkgs))"

definition emptyBoundaryResult :: BoundaryResult where
  "emptyBoundaryResult = \<lparr>bd_Violations = [], bd_ViolationCount = 0, bd_CheckedPackages = 0, bd_Offset = 0,
     bd_Limit = 0, bd_MaxItems = 0, bd_ChunkSize = 0, bd_NextCursor = '''', bd_HasMore = False,
     bd_TotalBeforeTruncate = 0, bd_Truncated = False, bd_Diagram = ''''\<rparr>"

definition CheckArchitectureBoundariesWithOptions ::
  "paging \<Rightarrow> (Pkg \<times> import_locs) list \<Rightarrow> string \<Rightarrow> string \<Rightarrow> BoundaryRule list \<Rightarrow> QueryOptions \<Rightarrow>
   stream_error + BoundaryResult" where
  "CheckArchitectureBoundariesWithOptions pg pkgs dir pattern rules opts =
     (if rules = [] then Inr emptyBoundaryResult
      else
        (let vs = sort_slice violation_less (allViolations pkgs rules)
         in case page_items pg vs (''architecture_boundaries:'' @ dir @ ''|'' @ pattern) boundaryViolationKey opts of
              Inl e \<Rightarrow> Inl e
            | Inr w \<Rightarrow> Inr \<lparr>bd_Violations = wr_items w, bd_ViolationCount = int (length vs),
                bd_CheckedPackages = int (length pkgs), bd_Offset = qo_Offset opts, bd_Limit = qo_Limit opts,
                bd_MaxItems = qo_MaxItems opts,
                bd_ChunkSize = (if qo_ChunkSize opts > 0 then clampChunkSize (pg_env pg) (qo_ChunkSize opts) else 0),
                bd_NextCursor = wr_next w, bd_HasMore = wr_more w, bd_TotalBeforeTruncate = int (length vs),
                bd_Truncated = wr_truncated w,
                bd_Diagram = (if qo_Export opts \<noteq> ExportNone
                  then RenderGraph (buildGraph (buildBoundaryGraph (wr_items w))) (qo_Export opts) else '''')\<rparr>))"

section \<open>Laws\<close>

definition violation_key :: "BoundaryViolation \<Rightarrow> string \<times> string \<times> string" where
  "violation_key v = (bv_From v, bv_Import v, bv_Rule v)"

interpretation violations: key_order violation_less violation_key
  by unfold_locales (auto simp: violation_less_def violation_key_def less_prod_def')

text \<open>What it means for an import to break a rule.\<close>

definition breaks :: "string set \<Rightarrow> BoundaryRule \<Rightarrow> string \<Rightarrow> string \<Rightarrow> bool" where
  "breaks project rule fr imp \<longleftrightarrow> matchBoundaryPkg fr (bl_From rule) \<and>
     (bl_Type rule = ''forbid'' \<and> matchBoundaryPkg imp (bl_To rule)
      \<or> bl_Type rule = ''allow_only'' \<and> imp \<in> project \<and> \<not> matchBoundaryPkg imp (bl_To rule)
      \<or> bl_Type rule = ''allow_prefix'' \<and> imp \<in> project \<and> \<not> prefix (bl_To rule) imp)"

lemma ruleViolations_set:
  "v \<in> set (ruleViolations (\<lambda>p. p \<in> project) fr locs rule) \<longleftrightarrow>
     (\<exists>imp loc. (imp, loc) \<in> set locs \<and> breaks project rule fr imp \<and> v = newViolation fr imp loc rule)"
  by (auto simp: ruleViolations_def breaks_def matchBoundaryTo_def RuleForbid_def RuleAllowOnly_def
      RuleAllowPrefix_def HasPrefix_prefix split: if_splits) blast+

lemma allViolations_set:
  "v \<in> set (allViolations pkgs rules) \<longleftrightarrow>
     (\<exists>p locs rule imp loc. (p, locs) \<in> set pkgs \<and> rule \<in> set rules \<and> (imp, loc) \<in> set locs
        \<and> breaks (pk_PkgPath ` fst ` set pkgs) rule (pk_PkgPath p) imp
        \<and> v = newViolation (pk_PkgPath p) imp loc rule)"
  by (auto simp: allViolations_def ruleViolations_set Let_def) blast+

lemma recordImport_keys: "map fst (recordImport file spec locs) = map fst locs"
  by (auto simp: recordImport_def Let_def update_keys)

lemma recordFiles_keys: "map fst (recordFiles files locs) = map fst locs"
proof -
  have "map fst (fold (recordImport fl) specs locs) = map fst locs" for fl specs locs
    by (induction specs arbitrary: locs) (simp_all add: recordImport_keys)
  then show ?thesis
    unfolding recordFiles_def by (induction files arbitrary: locs) auto
qed

lemma extract_keys: "map fst (extractImportLocsFromPkg p keys files) = keys"
  by (auto simp: extractImportLocsFromPkg_def recordFiles_keys initialLocs_def o_def)

text \<open>A recorded location is the line of an import of that path in one of the files.\<close>

definition located :: "parsed_file list \<Rightarrow> string \<times> string \<times> int \<Rightarrow> bool" where
  "located files entry = (case entry of (imp, file, line) \<Rightarrow> (file = '''' \<and> line = 0)
     \<or> (\<exists>specs lit. (file, specs) \<in> set files \<and> (lit, line) \<in> set specs \<and> Trim lit [CHR 0x22] = imp))"

lemma update_set: "x \<in> set (AList.update k v al) \<Longrightarrow> x = (k, v) \<or> x \<in> set al"
  by (induction al) (auto split: if_splits)

lemma recordImport_located:
  assumes "\<forall>x \<in> set locs. located files x" "(file, specs) \<in> set files" "spec \<in> set specs"
  shows "\<forall>x \<in> set (recordImport file spec locs). located files x"
proof
  fix x assume x: "x \<in> set (recordImport file spec locs)"
  obtain lit line where spec: "spec = (lit, line)" by fastforce
  from x consider "x \<in> set locs" | "x = (Trim lit [CHR 0x22], file, line)"
    using update_set [of x "Trim lit [CHR 0x22]" "(file, line)" locs]
    by (auto simp: recordImport_def Let_def spec split: if_splits)
  then show "located files x"
  proof cases
    case 2
    with assms(2,3) spec show ?thesis unfolding located_def by auto
  qed (use assms(1) in blast)
qed

lemma recordFiles_located:
  assumes "\<forall>x \<in> set locs. located files x" "set fs \<subseteq> set files"
  shows "\<forall>x \<in> set (recordFiles fs locs). located files x"
proof -
  have specs: "\<forall>x \<in> set (fold (recordImport fl) ss locs). located files x"
    if "\<forall>x \<in> set locs. located files x" "(fl, specs) \<in> set files" "set ss \<subseteq> set specs" for fl specs ss locs
    using that
  proof (induction ss arbitrary: locs)
    case (Cons s ss)
    show ?case
      using Cons.IH [OF recordImport_located [OF Cons.prems(1,2), of s] Cons.prems(2)] Cons.prems(3) by simp
  qed simp
  show ?thesis
    using assms unfolding recordFiles_def
  proof (induction fs arbitrary: locs)
    case (Cons f fs)
    obtain fl ss where [simp]: "f = (fl, ss)" by fastforce
    from Cons.IH [OF specs [OF Cons.prems(1), of fl ss ss]] Cons.prems(2) show ?case by simp
  qed simp
qed

type_synonym source_pkg = "Pkg \<times> string list \<times> parsed_file list"

definition with_locs :: "source_pkg list \<Rightarrow> (Pkg \<times> import_locs) list" where
  "with_locs ps = map (\<lambda>(p, keys, files). (p, extractImportLocsFromPkg p keys files)) ps"

lemma newViolation_sel [simp]:
  "bv_From (newViolation fr imp loc rule) = fr" "bv_Import (newViolation fr imp loc rule) = imp"
  "bv_Rule (newViolation fr imp loc rule) = bl_Type rule" "bv_To (newViolation fr imp loc rule) = bl_To rule"
  by (simp_all add: newViolation_def split: prod.splits)

lemma with_locs_mem:
  "(p, locs) \<in> set (with_locs ps) \<longleftrightarrow>
     (\<exists>keys files. (p, keys, files) \<in> set ps \<and> locs = extractImportLocsFromPkg p keys files)"
  unfolding with_locs_def by force

text \<open>The violations of packages whose locations were extracted from their syntax.\<close>

definition projectPaths :: "source_pkg list \<Rightarrow> string set" where
  "projectPaths ps = (\<lambda>(p, _). pk_PkgPath p) ` set ps"

definition reported :: "source_pkg list \<Rightarrow> BoundaryRule list \<Rightarrow> BoundaryViolation list" where
  "reported ps rules = sort_slice violation_less (allViolations (with_locs ps) rules)"

lemma reported_mem:
  "v \<in> set (reported ps rules) \<longleftrightarrow> (\<exists>p keys files rule imp loc. (p, keys, files) \<in> set ps \<and> rule \<in> set rules
      \<and> (imp, loc) \<in> set (extractImportLocsFromPkg p keys files) \<and> breaks (projectPaths ps) rule (pk_PkgPath p) imp
      \<and> v = newViolation (pk_PkgPath p) imp loc rule)"
proof -
  have project: "pk_PkgPath ` fst ` set (with_locs ps) = projectPaths ps"
    by (force simp: with_locs_def projectPaths_def image_image)
  show ?thesis
    unfolding reported_def set_sort_slice allViolations_set project with_locs_mem by blast
qed

lemma extract_mem: "(\<exists>loc. (imp, loc) \<in> set (extractImportLocsFromPkg p keys files)) \<longleftrightarrow> imp \<in> set keys"
  using arg_cong [OF extract_keys [of p keys files], of set] by force

lemma extract_located:
  assumes "(imp, loc) \<in> set (extractImportLocsFromPkg p keys files)"
  shows "located files (imp, loc)"
proof -
  have "\<forall>x \<in> set (initialLocs p keys). located files x" by (auto simp: initialLocs_def located_def)
  with recordFiles_located [of "initialLocs p keys" files files] assms show ?thesis
    by (auto simp: extractImportLocsFromPkg_def split: if_splits)
qed

lemma reported_exact:
  "(\<exists>v \<in> set (reported ps rules). bv_From v = fr \<and> bv_Import v = imp \<and> bv_Rule v = ty \<and> bv_To v = to) \<longleftrightarrow>
     (\<exists>p keys files rule. (p, keys, files) \<in> set ps \<and> pk_PkgPath p = fr \<and> imp \<in> set keys \<and> rule \<in> set rules
        \<and> bl_Type rule = ty \<and> bl_To rule = to \<and> breaks (projectPaths ps) rule fr imp)" (is "?L \<longleftrightarrow> ?R")
proof
  assume ?L
  then obtain v where v: "v \<in> set (reported ps rules)" "bv_From v = fr" "bv_Import v = imp" "bv_Rule v = ty" "bv_To v = to" by blast
  from v(1) obtain p keys files rule i loc where w: "(p, keys, files) \<in> set ps" "rule \<in> set rules"
    "(i, loc) \<in> set (extractImportLocsFromPkg p keys files)" "breaks (projectPaths ps) rule (pk_PkgPath p) i"
    "v = newViolation (pk_PkgPath p) i loc rule" unfolding reported_mem by blast
  from v w(5) have e: "pk_PkgPath p = fr" "i = imp" "bl_Type rule = ty" "bl_To rule = to" by simp_all
  from w(3) e(2) extract_mem [of imp p keys files] have "imp \<in> set keys" by blast
  with w(1,2,4) e show ?R by blast
next
  assume ?R
  then obtain p keys files rule where w: "(p, keys, files) \<in> set ps" "rule \<in> set rules"
    "imp \<in> set keys" "breaks (projectPaths ps) rule fr imp"
    "pk_PkgPath p = fr" "bl_Type rule = ty" "bl_To rule = to" by blast
  from w(3) obtain loc where "(imp, loc) \<in> set (extractImportLocsFromPkg p keys files)"
    using extract_mem [of imp p keys files] by blast
  with w have "newViolation fr imp loc rule \<in> set (reported ps rules)" unfolding reported_mem by blast
  with w(6,7) show ?L by (intro bexI [of _ "newViolation fr imp loc rule"]) simp_all
qed

lemma reported_located:
  assumes "v \<in> set (reported ps rules)"
  shows "\<exists>(p, keys, files) \<in> set ps. pk_PkgPath p = bv_From v \<and> located files (bv_Import v, bv_File v, bv_Line v)"
proof -
  from assms obtain p keys files rule imp l where v: "(p, keys, files) \<in> set ps"
    "(imp, l) \<in> set (extractImportLocsFromPkg p keys files)" "v = newViolation (pk_PkgPath p) imp l rule"
    unfolding reported_mem by blast
  with extract_located [OF v(2)] show ?thesis
    by (intro bexI [OF _ v(1)]) (simp add: newViolation_def)
qed

section \<open>Properties\<close>


definition sample_rules :: "BoundaryRule list" where
  "sample_rules = [\<lparr>bl_Type = ''forbid'', bl_From = ''app/ui/'', bl_To = ''app/db''\<rparr>]"

definition sample_sources :: "source_pkg list" where
  "sample_sources = [(\<lparr>pk_PkgPath = ''app/ui/page'', pk_Imports = [], pk_CompiledGoFiles = []\<rparr>, [''app/db''],
     [(''page.go'', [(''\"app/db\"'', 7)])])]"


end
