(* ===== verification/Call_Graph.thy ===== *)
theory Call_Graph
  imports Import_Graph
begin

text \<open>
  Queries on the call graph: \<^verbatim>\<open>analyzer/call_hierarchy.go\<close>, \<^verbatim>\<open>analyzer/callers.go\<close> and
  \<^verbatim>\<open>analyzer/call_path.go\<close>. The functions and the call graph that go/ssa and the CHA analysis
  build are data of the model: a function is its identity with the names the code reads, a node
  is its identity, an edge its two ends, its call site and its position. The loader of a pattern
  and the list of fallback patterns are arguments.
\<close>

record ssa_func =
  fn_ref :: nat                       \<comment> \<open>identity of the pointer\<close>
  fn_String :: string
  fn_Name :: string
  fn_Recv :: "string option"          \<comment> \<open>type of the receiver, as printed\<close>
  fn_Pkg :: "string option"           \<comment> \<open>path of the package\<close>
  fn_Synthetic :: string

datatype call_site = NoSite | GoSite | InvokeSite | CallSite

record call_edge =
  eg_Caller :: "nat option"           \<comment> \<open>node, if there is one\<close>
  eg_Callee :: "nat option"
  eg_Site :: call_site
  eg_Pos :: "(string \<times> int) option"  \<comment> \<open>a valid position, with its file and line\<close>

record call_graph =
  cg_Nodes :: "nat \<rightharpoonup> nat"           \<comment> \<open>from functions to nodes\<close>
  cg_Func :: "nat \<Rightarrow> ssa_func option"
  cg_Out :: "nat \<Rightarrow> call_edge list"
  cg_In :: "nat \<Rightarrow> call_edge list"

text \<open>What the queries use of a loaded program; \<open>sp_All\<close> is \<^verbatim>\<open>ssautil.AllFunctions\<close> in the order it is ranged over.\<close>

record ssa_program =
  sp_SSAFuncs :: "ssa_func option list"
  sp_All :: "ssa_func option list"
  sp_RootPaths :: "string list"
  sp_Graph :: call_graph

datatype query_error = Msg string | PageErr stream_error

section \<open>Names\<close>

definition shortFuncName :: "string \<Rightarrow> string" where
  "shortFuncName name =
     (case LastIndex name CHR ''.'' of
        Some idx \<Rightarrow> if Suc idx < length name then drop (Suc idx) name else name
      | None \<Rightarrow> name)"

definition shortTypeName :: "string \<Rightarrow> string" where
  "shortTypeName typeName =
     (let t = TrimPrefix (Trim (TrimSpace typeName) ''()'') ''*''
      in case LastIndex t CHR ''.'' of
           Some idx \<Rightarrow> if Suc idx < length t then drop (Suc idx) t else t
         | None \<Rightarrow> t)"

definition receiverCandidates :: "string \<Rightarrow> string \<Rightarrow> string list" where
  "receiverCandidates recvType methodName =
     (let recvNoPtr = TrimPrefix recvType ''*'';
          recvShort = shortTypeName recvNoPtr
      in [recvType @ ''.'' @ methodName,
          recvNoPtr @ ''.'' @ methodName,
          recvShort @ ''.'' @ methodName,
          ''*'' @ recvShort @ ''.'' @ methodName,
          ''('' @ recvType @ '').'' @ methodName,
          ''('' @ recvNoPtr @ '').'' @ methodName,
          ''(*'' @ recvShort @ '').'' @ methodName,
          ''('' @ recvShort @ '').'' @ methodName])"

definition matchesFunctionName :: "ssa_func \<Rightarrow> string \<Rightarrow> bool" where
  "matchesFunctionName f query =
     (if query = '''' then False
      else if fn_String f = query \<or> shortFuncName (fn_String f) = query \<or> fn_Name f = query then True
      else case fn_Recv f of
             None \<Rightarrow> False
           | Some recvType \<Rightarrow>
               (let methodName = fn_Name f;
                    recvNoPtr = TrimPrefix recvType ''*'';
                    recvShort = shortTypeName recvNoPtr
                in query \<in> set (receiverCandidates recvType methodName) \<or>
                   HasSuffix query (''.'' @ methodName) \<and>
                   (let qRecv = TrimPrefix (Trim (TrimSuffix query (''.'' @ methodName)) ''()'') ''*''
                    in qRecv = recvNoPtr \<or> shortTypeName qRecv = recvShort)))"

definition matchesFunctionNameFold :: "ssa_func \<Rightarrow> string \<Rightarrow> bool" where
  "matchesFunctionNameFold f query =
     (if query = '''' then False
      else if EqualFold (fn_Name f) query \<or> EqualFold (shortFuncName (fn_String f)) query
              \<or> EqualFold (fn_String f) query then True
      else case fn_Recv f of
             None \<Rightarrow> False
           | Some _ \<Rightarrow>
               (let methodName = fn_Name f
                in HasSuffix query (''.'' @ methodName) \<or> EqualFold (ToLower methodName) (ToLower query) \<or>
                   (case LastIndex query CHR ''.'' of
                      Some dotIdx \<Rightarrow> EqualFold (drop (Suc dotIdx) query) methodName
                    | None \<Rightarrow> False)))"

section \<open>Finding a function\<close>

text \<open>Functions that match, each pointer once, nil entries skipped.\<close>

definition matchesBy :: "(ssa_func \<Rightarrow> bool) \<Rightarrow> ssa_func option list \<Rightarrow> ssa_func list" where
  "matchesBy P funcs = dedup_by fn_ref (filter P (map the (filter (\<lambda>f. f \<noteq> None) funcs)))"

definition matchFunctions :: "ssa_func option list \<Rightarrow> string \<Rightarrow> ssa_func list" where
  "matchFunctions funcs query = matchesBy (\<lambda>f. matchesFunctionName f query) funcs"

definition matchAllLoadedFunctions :: "ssa_program \<Rightarrow> string \<Rightarrow> ssa_func list" where
  "matchAllLoadedFunctions prog query =
     matchesBy (\<lambda>f. fn_Pkg f \<noteq> None \<and> matchesFunctionName f query) (sp_All prog)"

definition matchFunctionsFold :: "ssa_func option list \<Rightarrow> string \<Rightarrow> ssa_func list" where
  "matchFunctionsFold funcs query = matchesBy (\<lambda>f. matchesFunctionNameFold f query) funcs"

definition matchAllLoadedFunctionsFold :: "ssa_program \<Rightarrow> string \<Rightarrow> ssa_func list" where
  "matchAllLoadedFunctionsFold prog query =
     matchesBy (\<lambda>f. fn_Pkg f \<noteq> None \<and> matchesFunctionNameFold f query) (sp_All prog)"

text \<open>The first of the four searches that finds something.\<close>

definition functionMatches :: "ssa_program \<Rightarrow> string \<Rightarrow> ssa_func list" where
  "functionMatches prog query =
     (let m = matchFunctions (sp_SSAFuncs prog) query;
          m = (if m = [] then matchAllLoadedFunctions prog query else m);
          m = (if m = [] then matchFunctionsFold (sp_SSAFuncs prog) query else m)
      in if m = [] then matchAllLoadedFunctionsFold prog query else m)"

definition ambiguousMessage :: "string \<Rightarrow> ssa_func list \<Rightarrow> string" where
  "ambiguousMessage query ms = ''function '' @ query @
     '' is ambiguous; qualify with package or receiver. Candidates:'' @ nl @ ''  '' @
     Join (nl @ ''  '') (map fn_String ms)"

definition findFunction :: "ssa_program \<Rightarrow> string \<Rightarrow> string + ssa_func" where
  "findFunction prog name =
     (let query = TrimSpace name
      in if query = '''' then Inl ''function name is required''
         else
           (let matches = functionMatches prog query;
                rootMatches = filter (\<lambda>f. case fn_Pkg f of None \<Rightarrow> False | Some p \<Rightarrow> p \<in> set (sp_RootPaths prog)) matches;
                narrowed = (if length rootMatches > 1 then rootMatches else matches);
                nonSynthetic = filter (\<lambda>f. fn_Synthetic f = '''') narrowed;
                candidates = (if length nonSynthetic > 1 then nonSynthetic else narrowed)
            in if matches = [] then Inl (''function '' @ query @ '' not found in loaded packages'')
               else if length matches = 1 then Inr (hd matches)
               else if length rootMatches = 1 then Inr (hd rootMatches)
               else if length nonSynthetic = 1 then Inr (hd nonSynthetic)
               else if length candidates > 1 then Inl (ambiguousMessage query candidates)
               else Inr (hd candidates)))"

definition isNotFoundError :: "string \<Rightarrow> bool" where
  "isNotFoundError msg \<longleftrightarrow> Contains msg ''not found in loaded packages''"

text \<open>\<open>load\<close> is \<^verbatim>\<open>ws.GetOrLoadSSA(dir, _)\<close>, \<open>fallback\<close> is \<^verbatim>\<open>WorkspaceFallbackPatterns(dir)\<close>.\<close>

fun tryFallback ::
  "(string \<Rightarrow> string + ssa_program) \<Rightarrow> string \<Rightarrow> string \<Rightarrow> string list \<Rightarrow> (ssa_program \<times> ssa_func) option" where
  "tryFallback load pattern name [] = None"
| "tryFallback load pattern name (fp # fps) =
     (if fp = pattern then tryFallback load pattern name fps
      else case load fp of
             Inl _ \<Rightarrow> tryFallback load pattern name fps
           | Inr prog \<Rightarrow>
               (case findFunction prog name of
                  Inr f \<Rightarrow> Some (prog, f)
                | Inl _ \<Rightarrow> tryFallback load pattern name fps))"

definition findFunctionWithFallback ::
  "(string \<Rightarrow> string + ssa_program) \<Rightarrow> string list \<Rightarrow> string \<Rightarrow> ssa_program \<Rightarrow> string \<Rightarrow> string + ssa_program \<times> ssa_func" where
  "findFunctionWithFallback load fallback pattern prog name =
     (case findFunction prog name of
        Inr f \<Rightarrow> Inr (prog, f)
      | Inl err \<Rightarrow>
          (if \<not> isNotFoundError err then Inl err
           else case tryFallback load pattern name fallback of
                  Some r \<Rightarrow> Inr r | None \<Rightarrow> Inl err))"

section \<open>Edges\<close>

record CallEdge =
  cl_Caller :: string
  cl_Callee :: string
  cl_CallType :: string
  cl_File :: string
  cl_Line :: int
  cl_Depth :: int
  cl_Anchor :: string

fun callType :: "call_site \<Rightarrow> string" where
  "callType GoSite = ''Goroutine''"
| "callType InvokeSite = ''Interface''"
| "callType CallSite = ''Static''"
| "callType NoSite = ''Static''"

text \<open>The function of an end of an edge: the node may be missing, or have none.\<close>

definition endFunc :: "call_graph \<Rightarrow> nat option \<Rightarrow> ssa_func option" where
  "endFunc g n = (case n of None \<Rightarrow> None | Some n \<Rightarrow> cg_Func g n)"

definition endName :: "call_graph \<Rightarrow> nat option \<Rightarrow> string" where
  "endName g n = fn_String (the (endFunc g n))"

definition toCallEdge :: "call_graph \<Rightarrow> call_edge \<Rightarrow> int \<Rightarrow> CallEdge" where
  "toCallEdge g e depth =
     (let (file, line) = (case eg_Pos e of Some p \<Rightarrow> p | None \<Rightarrow> ('''', 0));
          caller = endName g (eg_Caller e);
          callee = endName g (eg_Callee e)
      in \<lparr>cl_Caller = caller, cl_Callee = callee, cl_CallType = callType (eg_Site e), cl_File = file,
          cl_Line = line, cl_Depth = depth, cl_Anchor = contextAnchor file line (shortFuncName callee)\<rparr>)"

definition callEdgeKey :: "CallEdge \<Rightarrow> string" where
  "callEdgeKey e = Itoa (cl_Depth e) @ ''|'' @ cl_Caller e @ ''->'' @ cl_Callee e @ ''|'' @ cl_CallType e @ ''|'' @
     cl_File e @ '':'' @ Itoa (cl_Line e)"

definition callEdge_less :: "CallEdge \<Rightarrow> CallEdge \<Rightarrow> bool" where
  "callEdge_less a b =
     (if cl_Depth a \<noteq> cl_Depth b then cl_Depth a < cl_Depth b
      else if cl_Caller a \<noteq> cl_Caller b then cl_Caller a < cl_Caller b
      else cl_Callee a < cl_Callee b)"

section \<open>The walk\<close>

text \<open>
  The recursive walk that the call hierarchy does along the outgoing edges and the caller search
  along the incoming ones: \<open>edges\<close> lists the edges of a node, \<open>follow\<close> picks the end to go on
  from. A node is walked again only at a smaller depth than before; an edge is reported at its
  first visit.
\<close>

record walk_state =
  wk_seenNodes :: "nat \<rightharpoonup> int"
  wk_seenEdges :: "string list"
  wk_Edges :: "CallEdge list"

definition validEdge :: "call_graph \<Rightarrow> call_edge \<Rightarrow> bool" where
  "validEdge g e \<longleftrightarrow> endFunc g (eg_Callee e) \<noteq> None \<and> endFunc g (eg_Caller e) \<noteq> None"

definition edgeKey :: "call_graph \<Rightarrow> call_edge \<Rightarrow> string" where
  "edgeKey g e = endName g (eg_Caller e) @ ''->'' @ endName g (eg_Callee e)"

definition reportEdge :: "call_graph \<Rightarrow> int \<Rightarrow> call_edge \<Rightarrow> walk_state \<Rightarrow> walk_state" where
  "reportEdge g depth e s =
     (if edgeKey g e \<in> set (wk_seenEdges s) then s
      else s\<lparr>wk_seenEdges := edgeKey g e # wk_seenEdges s, wk_Edges := wk_Edges s @ [toCallEdge g e depth]\<rparr>)"

function walkCalls ::
  "call_graph \<Rightarrow> (nat \<Rightarrow> call_edge list) \<Rightarrow> (call_edge \<Rightarrow> nat option) \<Rightarrow> int \<Rightarrow> nat \<Rightarrow> int \<Rightarrow> walk_state \<Rightarrow> walk_state" where
  "walkCalls g edges follow maxDepth node depth s =
     (if depth > maxDepth then s
      else if (case wk_seenNodes s node of Some d \<Rightarrow> d \<le> depth | None \<Rightarrow> False) then s
      else fold (\<lambda>e s. if \<not> validEdge g e then s
                       else walkCalls g edges follow maxDepth (the (follow e)) (depth + 1) (reportEdge g depth e s))
             (edges node) (s\<lparr>wk_seenNodes := (wk_seenNodes s)(node \<mapsto> depth)\<rparr>))"
  by pat_completeness auto
termination
  by (relation "measure (\<lambda>(g, edges, follow, maxDepth, node, depth, s). nat (maxDepth + 1 - depth))") auto

declare walkCalls.simps [simp del]

definition walkFrom ::
  "call_graph \<Rightarrow> (nat \<Rightarrow> call_edge list) \<Rightarrow> (call_edge \<Rightarrow> nat option) \<Rightarrow> int \<Rightarrow> nat \<Rightarrow> CallEdge list" where
  "walkFrom g edges follow maxDepth root =
     sort_slice callEdge_less
       (wk_Edges (walkCalls g edges follow maxDepth root 1
          \<lparr>wk_seenNodes = Map.empty, wk_seenEdges = [], wk_Edges = []\<rparr>))"

section \<open>Call hierarchy\<close>

record CallHierarchySummary =
  hs_TotalEdges :: int
  hs_ByCallType :: "string \<Rightarrow> int"
  hs_ByCaller :: "string \<Rightarrow> int"
  hs_ByCallee :: "string \<Rightarrow> int"

record CallHierarchyResult =
  hr_RootFunction :: string
  hr_MaxDepth :: int
  hr_Offset :: int
  hr_Limit :: int
  hr_MaxItems :: int
  hr_ChunkSize :: int
  hr_NextCursor :: string
  hr_HasMore :: bool
  hr_TotalBeforeTruncate :: int
  hr_Truncated :: bool
  hr_Summary :: "CallHierarchySummary option"
  hr_Edges :: "CallEdge list"
  hr_Diagram :: string

definition defaultCallHierarchyMaxDepth :: int where
  "defaultCallHierarchyMaxDepth = 3"

definition summarizeCallEdges :: "CallEdge list \<Rightarrow> bool \<Rightarrow> CallHierarchySummary option" where
  "summarizeCallEdges edges enabled =
     (if \<not> enabled then None
      else Some (fold (\<lambda>e s. s\<lparr>hs_ByCallType := (hs_ByCallType s)(cl_CallType e := hs_ByCallType s (cl_CallType e) + 1),
                        hs_ByCaller := (hs_ByCaller s)(cl_Caller e := hs_ByCaller s (cl_Caller e) + 1),
                        hs_ByCallee := (hs_ByCallee s)(cl_Callee e := hs_ByCallee s (cl_Callee e) + 1)\<rparr>)
             edges \<lparr>hs_TotalEdges = int (length edges), hs_ByCallType = (\<lambda>_. 0), hs_ByCaller = (\<lambda>_. 0),
               hs_ByCallee = (\<lambda>_. 0)\<rparr>))"

definition buildCallHierarchyGraph :: "string \<Rightarrow> CallEdge list \<Rightarrow> graphBuilder" where
  "buildCallHierarchyGraph root edges =
     (let b = newGraphBuilder (''call_hierarchy:'' @ root) ''TD'';
          b = (if root \<noteq> '''' then snd (addNode root ''root'' b) else b)
      in fold (\<lambda>(f, t, l, s). addEdge f t l s) (map (\<lambda>e. (cl_Caller e, cl_Callee e, cl_CallType e, '''')) edges) b)"

definition callEdgeBoundaryKeys :: "CallEdge list \<Rightarrow> string \<times> string" where
  "callEdgeBoundaryKeys edges =
     (if edges = [] then ('''', '''') else (callEdgeKey (hd edges), callEdgeKey (last edges)))"

text \<open>The depth a query runs with: its own, unless that is out of range.\<close>

definition queryDepth :: "int \<Rightarrow> int \<Rightarrow> int \<Rightarrow> int" where
  "queryDepth maximum dflt maxDepth = (if maxDepth \<le> 0 \<or> maxDepth > maximum then dflt else maxDepth)"

definition AnalyzeCallHierarchyWithOptions ::
  "paging \<Rightarrow> (string \<Rightarrow> string + ssa_program) \<Rightarrow> string list \<Rightarrow> string \<Rightarrow> string \<Rightarrow> int \<Rightarrow> QueryOptions \<Rightarrow>
   query_error + CallHierarchyResult" where
  "AnalyzeCallHierarchyWithOptions pg load fallback pattern functionName maxDepth opts =
     (if TrimSpace functionName = '''' then Inl (Msg ''function name is required'')
      else
        (let maxDepth = queryDepth defaultCallHierarchyMaxDepth defaultCallHierarchyMaxDepth maxDepth
         in case load pattern of
              Inl e \<Rightarrow> Inl (Msg (''loading packages: '' @ e))
            | Inr prog \<Rightarrow>
                (case findFunctionWithFallback load fallback pattern prog functionName of
                   Inl e \<Rightarrow> Inl (Msg e)
                 | Inr (prog, root) \<Rightarrow>
                     (let g = sp_Graph prog
                      in case cg_Nodes g (fn_ref root) of
                           None \<Rightarrow> Inl (Msg (''function '' @ functionName @ '' not found in call graph''))
                         | Some rootNode \<Rightarrow>
                             (let all = walkFrom g (cg_Out g) eg_Callee maxDepth rootNode;
                                  result = \<lparr>hr_RootFunction = fn_String root, hr_MaxDepth = maxDepth,
                                    hr_Offset = qo_Offset opts, hr_Limit = qo_Limit opts, hr_MaxItems = qo_MaxItems opts,
                                    hr_ChunkSize = 0, hr_NextCursor = '''', hr_HasMore = False,
                                    hr_TotalBeforeTruncate = 0, hr_Truncated = False,
                                    hr_Summary = summarizeCallEdges all (qo_Summary opts), hr_Edges = [], hr_Diagram = ''''\<rparr>;
                                  capped = (if qo_MaxItems opts > 0 \<and> int (length all) > qo_MaxItems opts
                                            then take (nat (qo_MaxItems opts)) all else all);
                                  diagram = (\<lambda>es. if qo_Export opts \<noteq> ExportNone
                                     then RenderGraph (buildGraph (buildCallHierarchyGraph (fn_String root) es)) (qo_Export opts)
                                     else '''')
                              in if qo_ChunkSize opts > 0 then
                                   (case callEdgeBoundaryKeys capped of
                                      (firstKey, lastKey) \<Rightarrow>
                                        (case applyStreamWindow (pg_env pg) (pg_sha256 pg) (pg_unmarshal pg) capped
                                                (''call_hierarchy:'' @ fn_String root) firstKey lastKey
                                                (qo_Cursor opts) (qo_ChunkSize opts) of
                                           Inl e \<Rightarrow> Inl (PageErr e)
                                         | Inr c \<Rightarrow> Inr (result\<lparr>hr_ChunkSize := clampChunkSize (pg_env pg) (qo_ChunkSize opts),
                                             hr_TotalBeforeTruncate := ch_total c,
                                             hr_Truncated := (ch_more c \<or> qo_Cursor opts \<noteq> ''''),
                                             hr_Edges := ch_items c, hr_NextCursor := ch_next c, hr_HasMore := ch_more c,
                                             hr_Diagram := diagram (ch_items c)\<rparr>)))
                                 else
                                   (case applyQueryWindow (pg_env pg) capped opts of
                                      (window, tot, truncated) \<Rightarrow>
                                        Inr (result\<lparr>hr_TotalBeforeTruncate := tot, hr_Truncated := truncated,
                                             hr_Edges := window, hr_Diagram := diagram window\<rparr>)))))))"

section \<open>Callers\<close>

record CallersResult =
  kr_RootFunction :: string
  kr_MaxDepth :: int
  kr_Edges :: "CallEdge list"
  kr_Offset :: int
  kr_Limit :: int
  kr_MaxItems :: int
  kr_ChunkSize :: int
  kr_NextCursor :: string
  kr_HasMore :: bool
  kr_TotalBeforeTruncate :: int
  kr_Truncated :: bool

definition defaultCallersMaxDepth :: int where
  "defaultCallersMaxDepth = 3"

definition FindCallersWithOptions ::
  "paging \<Rightarrow> (string \<Rightarrow> string + ssa_program) \<Rightarrow> string list \<Rightarrow> string \<Rightarrow> string \<Rightarrow> int \<Rightarrow> QueryOptions \<Rightarrow>
   query_error + CallersResult" where
  "FindCallersWithOptions pg load fallback pattern functionName maxDepth opts =
     (if TrimSpace functionName = '''' then Inl (Msg ''function name is required'')
      else
        (let maxDepth = queryDepth 8 defaultCallersMaxDepth maxDepth
         in case load pattern of
              Inl e \<Rightarrow> Inl (Msg (''loading packages: '' @ e))
            | Inr prog \<Rightarrow>
                (case findFunctionWithFallback load fallback pattern prog functionName of
                   Inl e \<Rightarrow> Inl (Msg e)
                 | Inr (prog, root) \<Rightarrow>
                     (let g = sp_Graph prog
                      in case cg_Nodes g (fn_ref root) of
                           None \<Rightarrow> Inl (Msg (''function '' @ functionName @ '' not found in call graph''))
                         | Some rootNode \<Rightarrow>
                             (case page_items pg (walkFrom g (cg_In g) eg_Caller maxDepth rootNode)
                                     (''callers:'' @ fn_String root) callEdgeKey opts of
                                Inl e \<Rightarrow> Inl (PageErr e)
                              | Inr w \<Rightarrow> Inr \<lparr>kr_RootFunction = fn_String root, kr_MaxDepth = maxDepth,
                                  kr_Edges = wr_items w, kr_Offset = qo_Offset opts, kr_Limit = qo_Limit opts,
                                  kr_MaxItems = qo_MaxItems opts,
                                  kr_ChunkSize = (if qo_ChunkSize opts > 0
                                    then clampChunkSize (pg_env pg) (qo_ChunkSize opts) else 0),
                                  kr_NextCursor = wr_next w, kr_HasMore = wr_more w,
                                  kr_TotalBeforeTruncate = wr_total w, kr_Truncated = wr_truncated w\<rparr>)))))"

section \<open>Call paths\<close>

record CallPath =
  cp_Steps :: "string list"
  cp_Edges :: "CallEdge list"

record FindCallPathResult =
  fp_FromFunction :: string
  fp_ToFunction :: string
  fp_Reachable :: bool
  fp_Paths :: "CallPath list"
  fp_CutoffReason :: string
  fp_MaxDepth :: int
  fp_MaxPaths :: int

definition defaultCallPathMaxDepth :: int where
  "defaultCallPathMaxDepth = 8"

definition defaultCallPathMaxPaths :: int where
  "defaultCallPathMaxPaths = 20"

type_synonym path_item = "nat list \<times> call_edge list"

definition buildCallPath :: "call_graph \<Rightarrow> nat list \<Rightarrow> call_edge list \<Rightarrow> CallPath" where
  "buildCallPath g nodes edges =
     \<lparr>cp_Steps = map (\<lambda>n. fn_String (the (cg_Func g n))) nodes,
      cp_Edges = map (\<lambda>(i, e). toCallEdge g e (int i + 1)) (enumerate 0 edges)\<rparr>"

text \<open>
  The loop over the outgoing edges of the last node of an item: the items to queue, the paths
  found so far and whether their number reached the limit.
\<close>

fun expandItem ::
  "call_graph \<Rightarrow> nat \<Rightarrow> nat \<Rightarrow> path_item \<Rightarrow> call_edge list \<Rightarrow> path_item list \<Rightarrow> path_item list \<times> path_item list \<times> bool" where
  "expandItem g to maxPaths item [] found = ([], found, False)"
| "expandItem g to maxPaths item (e # es) found =
     (if endFunc g (eg_Callee e) = None then expandItem g to maxPaths item es found
      else let callee = the (eg_Callee e); extended = (fst item @ [callee], snd item @ [e])
           in if callee \<in> set (fst item) then expandItem g to maxPaths item es found
              else if callee = to then
                (let found = found @ [extended]
                 in if length found \<ge> maxPaths then ([], found, True) else expandItem g to maxPaths item es found)
              else
                (case expandItem g to maxPaths item es found of
                   (new, found, cutoff) \<Rightarrow> (extended # new, found, cutoff)))"

lemma expandItem_length:
  "(ns, es) \<in> set (fst (expandItem g to k item edges found)) \<Longrightarrow> length ns = Suc (length (fst item))"
  by (induction g to k item edges found rule: expandItem.induct)
    (auto simp: Let_def split: if_splits prod.splits)

text \<open>The breadth-first search over paths: what it found and whether it was cut off.\<close>

function searchPaths ::
  "call_graph \<Rightarrow> nat \<Rightarrow> nat \<Rightarrow> nat \<Rightarrow> path_item list \<Rightarrow> path_item list \<Rightarrow> path_item list \<times> bool" where
  "searchPaths g to maxDepth maxPaths [] found = (found, False)"
| "searchPaths g to maxDepth maxPaths (item # queue) found =
     (if length found \<ge> maxPaths then (found, True)
      else if length (fst item) - 1 \<ge> maxDepth then searchPaths g to maxDepth maxPaths queue found
      else case expandItem g to maxPaths item (cg_Out g (last (fst item))) found of
             (new, found, cutoff) \<Rightarrow>
               (if cutoff then (found, True) else searchPaths g to maxDepth maxPaths (queue @ new) found))"
  by pat_completeness auto
termination
proof (relation "inv_image (mult less_than)
    (\<lambda>(g, to, maxDepth, maxPaths, queue, found). mset (map (\<lambda>i :: path_item. Suc (Suc maxDepth) - length (fst i)) queue))")
  show "wf (inv_image (mult less_than) (\<lambda>(g, to, maxDepth, maxPaths, queue, found).
      mset (map (\<lambda>i :: path_item. Suc (Suc maxDepth) - length (fst i)) queue)))"
    by (intro wf_inv_image wf_mult wf_less_than)
next
  fix g :: call_graph and to maxDepth maxPaths and item :: path_item and queue found
  show "((g, to, maxDepth, maxPaths, queue, found), g, to, maxDepth, maxPaths, item # queue, found)
    \<in> inv_image (mult less_than) (\<lambda>(g, to, maxDepth, maxPaths, queue, found).
        mset (map (\<lambda>i :: path_item. Suc (Suc maxDepth) - length (fst i)) queue))"
    by (simp add: subset_implies_mult)
next
  fix g :: call_graph and to maxDepth maxPaths and item :: path_item and queue found new y found' cutoff
  let ?m = "\<lambda>i :: path_item. Suc (Suc maxDepth) - length (fst i)"
  assume a: "\<not> maxDepth \<le> length (fst item) - 1"
    "(new, y) = expandItem g to maxPaths item (cg_Out g (last (fst item))) found"
  have new: "new = fst (expandItem g to maxPaths item (cg_Out g (last (fst item))) found)"
    using a(2) by (metis fst_conv)
  have "?m i < ?m item" if "i \<in> set new" for i
  proof -
    have "length (fst i) = Suc (length (fst item))"
      using that expandItem_length [of "fst i" "snd i"] unfolding new by simp
    with a(1) show ?thesis by linarith
  qed
  then have "(mset (map ?m queue) + mset (map ?m new), mset (map ?m queue) + {#?m item#}) \<in> mult less_than"
    by (intro one_step_implies_mult) auto
  then show "((g, to, maxDepth, maxPaths, queue @ new, found'), g, to, maxDepth, maxPaths, item # queue, found)
    \<in> inv_image (mult less_than) (\<lambda>(g, to, maxDepth, maxPaths, queue, found).
        mset (map (\<lambda>i :: path_item. Suc (Suc maxDepth) - length (fst i)) queue))"
    by (simp add: ac_simps)
qed

definition FindCallPath ::
  "(string \<Rightarrow> string + ssa_program) \<Rightarrow> string list \<Rightarrow> string \<Rightarrow> string \<Rightarrow> string \<Rightarrow> int \<Rightarrow> int \<Rightarrow>
   string + FindCallPathResult" where
  "FindCallPath load fallback pattern fromFunction toFunction maxDepth maxPaths =
     (if TrimSpace fromFunction = '''' then Inl ''from_function is required''
      else if TrimSpace toFunction = '''' then Inl ''to_function is required''
      else
        (let maxDepth = queryDepth 12 defaultCallPathMaxDepth maxDepth;
             maxPaths = queryDepth 100 defaultCallPathMaxPaths maxPaths
         in case load pattern of
              Inl e \<Rightarrow> Inl (''loading packages: '' @ e)
            | Inr prog \<Rightarrow>
                (case findFunctionWithFallback load fallback pattern prog fromFunction of
                   Inl e \<Rightarrow> Inl (''from_function: '' @ e)
                 | Inr (prog, fromFn) \<Rightarrow>
                     (case findFunctionWithFallback load fallback pattern prog toFunction of
                        Inl e \<Rightarrow> Inl (''to_function: '' @ e)
                      | Inr (prog, toFn) \<Rightarrow>
                          (let g = sp_Graph prog;
                               result = \<lparr>fp_FromFunction = fn_String fromFn, fp_ToFunction = fn_String toFn,
                                 fp_Reachable = False, fp_Paths = [], fp_CutoffReason = '''',
                                 fp_MaxDepth = maxDepth, fp_MaxPaths = maxPaths\<rparr>
                           in case (cg_Nodes g (fn_ref fromFn), cg_Nodes g (fn_ref toFn)) of
                                (Some fromNode, Some toNode) \<Rightarrow>
                                  (case searchPaths g toNode (nat maxDepth) (nat maxPaths) [([fromNode], [])] [] of
                                     (found, cutoff) \<Rightarrow>
                                       Inr (result\<lparr>fp_Paths := map (\<lambda>(ns, es). buildCallPath g ns es) found,
                                         fp_Reachable := found \<noteq> [],
                                         fp_CutoffReason :=
                                           (if cutoff then ''reached max_paths limit of '' @ Itoa maxPaths
                                            else if found = [] then ''no path found within depth limit'' else '''')\<rparr>))
                              | _ \<Rightarrow> Inr result)))))"

section \<open>What a walk reports\<close>

text \<open>\<open>steps_from g edges follow root k n\<close>: a chain of \<open>k\<close> edges leads from \<open>root\<close> to \<open>n\<close>.\<close>

inductive steps_from ::
  "call_graph \<Rightarrow> (nat \<Rightarrow> call_edge list) \<Rightarrow> (call_edge \<Rightarrow> nat option) \<Rightarrow> nat \<Rightarrow> nat \<Rightarrow> nat \<Rightarrow> bool"
  for g edges follow root where
  here: "steps_from g edges follow root 0 root"
| onward: "steps_from g edges follow root k n \<Longrightarrow> e \<in> set (edges n) \<Longrightarrow> validEdge g e \<Longrightarrow>
     steps_from g edges follow root (Suc k) (the (follow e))"

definition pairKey :: "CallEdge \<Rightarrow> string" where
  "pairKey c = cl_Caller c @ ''->'' @ cl_Callee c"

lemma pairKey_toCallEdge [simp]: "pairKey (toCallEdge g e d) = edgeKey g e"
  by (simp add: pairKey_def toCallEdge_def edgeKey_def Let_def split: prod.splits)

lemma cl_Depth_toCallEdge [simp]: "cl_Depth (toCallEdge g e d) = d"
  by (simp add: toCallEdge_def Let_def split: prod.splits)

lemma reportEdge_simps [simp]:
  "wk_seenNodes (reportEdge g d e s) = wk_seenNodes s"
  "set (wk_seenEdges (reportEdge g d e s)) = insert (edgeKey g e) (set (wk_seenEdges s))"
  by (auto simp: reportEdge_def)

text \<open>
  Completeness: a node seen at depth \<open>d\<close>, unless it is still being walked, has all its edges
  reported, and their ends seen at most one deeper as far as the limit allows.
\<close>

locale call_walk =
  fixes g :: call_graph and edges :: "nat \<Rightarrow> call_edge list" and follow :: "call_edge \<Rightarrow> nat option"
    and maxDepth :: int
  assumes followed: "validEdge g e \<Longrightarrow> follow e \<noteq> None"
begin

definition seen_by :: "walk_state \<Rightarrow> nat \<Rightarrow> int \<Rightarrow> bool" where
  "seen_by s n d \<longleftrightarrow> (\<exists>d'. wk_seenNodes s n = Some d' \<and> d' \<le> d)"

definition done_edge :: "walk_state \<Rightarrow> int \<Rightarrow> call_edge \<Rightarrow> bool" where
  "done_edge s d e \<longleftrightarrow> validEdge g e \<longrightarrow>
     edgeKey g e \<in> set (wk_seenEdges s) \<and> (d + 1 \<le> maxDepth \<longrightarrow> seen_by s (the (follow e)) (d + 1))"

definition closed_except :: "nat set \<Rightarrow> walk_state \<Rightarrow> bool" where
  "closed_except G s \<longleftrightarrow>
     (\<forall>n d. wk_seenNodes s n = Some d \<longrightarrow> n \<notin> G \<longrightarrow> (\<forall>e \<in> set (edges n). done_edge s d e))"

definition grows :: "nat set \<Rightarrow> walk_state \<Rightarrow> walk_state \<Rightarrow> bool" where
  "grows G s t \<longleftrightarrow> (\<forall>n d. seen_by s n d \<longrightarrow> seen_by t n d) \<and> set (wk_seenEdges s) \<subseteq> set (wk_seenEdges t)
     \<and> (\<forall>n \<in> G. wk_seenNodes t n = wk_seenNodes s n)"

definition walking :: "nat set \<Rightarrow> int \<Rightarrow> walk_state \<Rightarrow> bool" where
  "walking G depth s \<longleftrightarrow> closed_except G s \<and> (\<forall>n \<in> G. seen_by s n (depth - 1))"

lemma grows_refl: "grows G s s"
  by (simp add: grows_def)

lemma grows_trans: "grows G s t \<Longrightarrow> grows G t u \<Longrightarrow> grows G s u"
  by (auto simp: grows_def)

lemma grows_mono: "grows G s t \<Longrightarrow> H \<subseteq> G \<Longrightarrow> grows H s t"
  by (auto simp: grows_def)

lemma done_edge_grows: "done_edge s d e \<Longrightarrow> grows G s t \<Longrightarrow> done_edge t d e"
  by (auto simp: done_edge_def grows_def)

lemma walking_grows: "walking G depth s \<Longrightarrow> grows G s t \<Longrightarrow> closed_except G t \<Longrightarrow> walking G depth t"
  by (auto simp: walking_def grows_def seen_by_def)

lemma closed_except_report: "closed_except G s \<Longrightarrow> closed_except G (reportEdge g d e s)"
  by (auto simp: closed_except_def done_edge_def seen_by_def)

lemma grows_report: "grows G s (reportEdge g d e s)"
  by (auto simp: grows_def seen_by_def)

text \<open>The edges of a node, given what each recursive call does.\<close>

lemma walk_edges:
  assumes "\<And>e s. e \<in> set es \<Longrightarrow> validEdge g e \<Longrightarrow> walking G (d + 1) s \<Longrightarrow>
      closed_except G (f e s) \<and> grows G s (f e s) \<and> (d + 1 \<le> maxDepth \<longrightarrow> seen_by (f e s) (the (follow e)) (d + 1))"
    and "walking G (d + 1) s"
  defines "t \<equiv> fold (\<lambda>e s. if \<not> validEdge g e then s else f e (reportEdge g d e s)) es s"
  shows "closed_except G t \<and> grows G s t \<and> (\<forall>e \<in> set es. done_edge t d e)"
  using assms(1,2) unfolding t_def
proof (induction es arbitrary: s)
  case Nil
  then show ?case by (simp add: grows_refl walking_def)
next
  case (Cons e es)
  show ?case
  proof (cases "validEdge g e")
    case False
    with Cons show ?thesis by (simp add: done_edge_def)
  next
    case True
    let ?s = "reportEdge g d e s" and ?u = "f e (reportEdge g d e s)"
    have s: "walking G (d + 1) ?s"
      using Cons.prems(2) walking_grows grows_report closed_except_report by (metis walking_def)
    have u: "closed_except G ?u" "grows G ?s ?u" "d + 1 \<le> maxDepth \<longrightarrow> seen_by ?u (the (follow e)) (d + 1)"
      using Cons.prems(1) [OF _ True s] by simp_all
    have su: "grows G s ?u" using grows_trans [OF grows_report u(2)] .
    have "walking G (d + 1) ?u" using walking_grows [OF s u(2,1)] .
    from Cons.IH [OF Cons.prems(1) this]
    have r: "closed_except G (fold (\<lambda>e s. if \<not> validEdge g e then s else f e (reportEdge g d e s)) es ?u)"
      "grows G ?u (fold (\<lambda>e s. if \<not> validEdge g e then s else f e (reportEdge g d e s)) es ?u)"
      "\<forall>e \<in> set es. done_edge (fold (\<lambda>e s. if \<not> validEdge g e then s else f e (reportEdge g d e s)) es ?u) d e"
      by simp_all
    have "edgeKey g e \<in> set (wk_seenEdges ?u)" using u(2) by (auto simp: grows_def)
    with u(3) have "done_edge ?u d e" by (simp add: done_edge_def)
    from done_edge_grows [OF this r(2)] r grows_trans [OF su r(2)] True show ?thesis by simp
  qed
qed

lemma closed_except_drop:
  assumes "closed_except (insert node G) t" "wk_seenNodes t node = Some d" "\<forall>e \<in> set (edges node). done_edge t d e"
  shows "closed_except G t"
  using assms unfolding closed_except_def by (metis insert_iff option.inject)

lemma walkCalls_complete:
  "walking G depth s \<Longrightarrow>
     closed_except G (walkCalls g edges follow maxDepth node depth s)
   \<and> grows G s (walkCalls g edges follow maxDepth node depth s)
   \<and> (depth \<le> maxDepth \<longrightarrow> seen_by (walkCalls g edges follow maxDepth node depth s) node depth)"
proof (induction "nat (maxDepth + 1 - depth)" arbitrary: G node depth s rule: less_induct)
  case less
  let ?w = "walkCalls g edges follow maxDepth"
  consider "depth > maxDepth" | "depth \<le> maxDepth" "seen_by s node depth"
    | "depth \<le> maxDepth" "\<not> seen_by s node depth" by force
  then show ?case
  proof cases
    case 1
    then show ?thesis using less.prems by (simp add: walkCalls.simps grows_refl walking_def)
  next
    case 2
    then have "?w node depth s = s" by (auto simp: walkCalls.simps seen_by_def)
    with 2 less.prems show ?thesis by (simp add: grows_refl walking_def)
  next
    case 3
    let ?s = "s\<lparr>wk_seenNodes := (wk_seenNodes s)(node \<mapsto> depth)\<rparr>"
    let ?f = "\<lambda>e. ?w (the (follow e)) (depth + 1)"
    let ?t = "fold (\<lambda>e s. if \<not> validEdge g e then s else ?f e (reportEdge g depth e s)) (edges node) ?s"
    have t: "?w node depth s = ?t"
      using 3 by (subst walkCalls.simps) (auto simp: seen_by_def split: option.splits)
    have notG: "node \<notin> G" using less.prems 3(2) by (fastforce simp: walking_def seen_by_def)
    have grow: "grows G s ?s" using 3(2) notG by (auto simp: grows_def seen_by_def)
    have w: "walking (insert node G) (depth + 1) ?s"
    proof -
      have "closed_except (insert node G) ?s"
        unfolding closed_except_def
      proof (intro allI impI ballI)
        fix n d e assume n: "wk_seenNodes ?s n = Some d" "n \<notin> insert node G" "e \<in> set (edges n)"
        with less.prems have "done_edge s d e" by (auto simp: walking_def closed_except_def)
        from this grow show "done_edge ?s d e" by (rule done_edge_grows)
      qed
      moreover have "seen_by ?s n depth" if "n \<in> insert node G" for n
        using that less.prems by (fastforce simp: walking_def seen_by_def)
      ultimately show ?thesis by (simp add: walking_def)
    qed
    have ih: "closed_except (insert node G) (?f e u) \<and> grows (insert node G) u (?f e u)
        \<and> (depth + 1 \<le> maxDepth \<longrightarrow> seen_by (?f e u) (the (follow e)) (depth + 1))"
      if "walking (insert node G) (depth + 1) u" for e u
      by (rule less.hyps [OF _ that]) (use 3 in simp)
    have r: "closed_except (insert node G) ?t" "grows (insert node G) ?s ?t" "\<forall>e \<in> set (edges node). done_edge ?t depth e"
      using walk_edges [of "edges node" "insert node G" depth ?f ?s] ih w by blast+
    have "wk_seenNodes ?t node = Some depth" using r(2) by (simp add: grows_def)
    then have "closed_except G ?t" "seen_by ?t node depth"
      using closed_except_drop [OF r(1) _ r(3)] by (simp_all add: seen_by_def)
    with grows_trans [OF grow grows_mono [OF r(2)]] t show ?thesis by auto
  qed
qed

text \<open>Soundness: what is reported is an edge at the end of a chain, at the depth of the chain.\<close>

definition reported_ok :: "nat \<Rightarrow> walk_state \<Rightarrow> bool" where
  "reported_ok root s \<longleftrightarrow> map pairKey (wk_Edges s) = rev (wk_seenEdges s) \<and> distinct (wk_seenEdges s)
     \<and> (\<forall>c \<in> set (wk_Edges s). \<exists>k n e. steps_from g edges follow root k n \<and> int k < maxDepth
          \<and> e \<in> set (edges n) \<and> validEdge g e \<and> c = toCallEdge g e (int k + 1))"

lemma reported_ok_report:
  assumes "reported_ok root s" "steps_from g edges follow root k n" "int k < maxDepth" "e \<in> set (edges n)" "validEdge g e"
  shows "reported_ok root (reportEdge g (int k + 1) e s)"
  using assms unfolding reported_ok_def reportEdge_def by (cases "edgeKey g e \<in> set (wk_seenEdges s)") auto

lemma walkCalls_sound:
  "reported_ok root s \<Longrightarrow> steps_from g edges follow root k node \<Longrightarrow> depth = int k + 1 \<Longrightarrow>
     reported_ok root (walkCalls g edges follow maxDepth node depth s)"
proof (induction "nat (maxDepth + 1 - depth)" arbitrary: k node depth s rule: less_induct)
  case less
  let ?s = "s\<lparr>wk_seenNodes := (wk_seenNodes s)(node \<mapsto> depth)\<rparr>"
  let ?f = "\<lambda>e s. if \<not> validEdge g e then s
      else walkCalls g edges follow maxDepth (the (follow e)) (depth + 1) (reportEdge g depth e s)"
  have "reported_ok root (fold ?f es u)" if "depth \<le> maxDepth" "reported_ok root u" "set es \<subseteq> set (edges node)" for es u
    using that(2,3)
  proof (induction es arbitrary: u)
    case (Cons e es)
    have "reported_ok root (?f e u)"
    proof (cases "validEdge g e")
      case True
      with Cons.prems less.prems that(1)
      have "reported_ok root (reportEdge g depth e u)" by (auto intro: reported_ok_report)
      moreover have "steps_from g edges follow root (Suc k) (the (follow e))"
        using Cons.prems less.prems True by (auto intro: steps_from.onward)
      ultimately have "reported_ok root (walkCalls g edges follow maxDepth (the (follow e)) (depth + 1) (reportEdge g depth e u))"
        using that(1) less.prems(3) by (intro less.hyps) auto
      with True show ?thesis by simp
    qed (use Cons.prems in simp)
    with Cons show ?case by simp
  qed simp
  moreover have "reported_ok root ?s" using less.prems(1) by (simp add: reported_ok_def)
  ultimately show ?case
    using less.prems(1) by (subst walkCalls.simps) (auto simp del: fold_simps)
qed

lemma start_ok:
  "walking {} 1 \<lparr>wk_seenNodes = Map.empty, wk_seenEdges = [], wk_Edges = []\<rparr>"
  "reported_ok root \<lparr>wk_seenNodes = Map.empty, wk_seenEdges = [], wk_Edges = []\<rparr>"
  by (simp_all add: walking_def closed_except_def reported_ok_def)

lemma chains_seen:
  assumes "closed_except {} s" "seen_by s root 1" "steps_from g edges follow root k n" "int k < maxDepth"
  shows "seen_by s n (int k + 1)"
  using assms(3,4)
proof (induction rule: steps_from.induct)
  case (onward k n e)
  then obtain d where d: "wk_seenNodes s n = Some d" "d \<le> int k + 1" by (auto simp: seen_by_def)
  with assms(1) onward have "done_edge s d e" by (auto simp: closed_except_def)
  with d onward(3,5) show ?case by (fastforce simp: done_edge_def seen_by_def)
qed (use assms(2) in simp)

theorem walkFrom_keys:
  assumes "maxDepth \<ge> 1"
  shows "pairKey ` set (walkFrom g edges follow maxDepth root) =
     {edgeKey g e | e n k. steps_from g edges follow root k n \<and> int k < maxDepth \<and> e \<in> set (edges n) \<and> validEdge g e}"
proof -
  let ?s0 = "\<lparr>wk_seenNodes = Map.empty, wk_seenEdges = [], wk_Edges = []\<rparr> :: walk_state"
  let ?s = "walkCalls g edges follow maxDepth root 1 ?s0"
  have c: "closed_except {} ?s" "seen_by ?s root 1"
    using walkCalls_complete [OF start_ok(1), of root] assms by simp_all
  have r: "reported_ok root ?s" using walkCalls_sound [OF start_ok(2) steps_from.here] by simp
  then have keys: "pairKey ` set (walkFrom g edges follow maxDepth root) = set (wk_seenEdges ?s)"
    unfolding reported_ok_def walkFrom_def set_sort_slice by (metis set_map set_rev)
  have "edgeKey g e \<in> set (wk_seenEdges ?s)"
    if e: "steps_from g edges follow root k n" "int k < maxDepth" "e \<in> set (edges n)" "validEdge g e" for e n k
  proof -
    from chains_seen [OF c e(1,2)] obtain d where "wk_seenNodes ?s n = Some d" by (auto simp: seen_by_def)
    with c(1) e(3,4) show ?thesis by (auto simp: closed_except_def done_edge_def)
  qed
  moreover have "x \<in> {edgeKey g e | e n k. steps_from g edges follow root k n \<and> int k < maxDepth
      \<and> e \<in> set (edges n) \<and> validEdge g e}" if "x \<in> set (wk_seenEdges ?s)" for x
  proof -
    from that keys obtain c where "c \<in> set (wk_Edges ?s)" "x = pairKey c"
      unfolding walkFrom_def set_sort_slice by blast
    with r show ?thesis unfolding reported_ok_def by fastforce
  qed
  ultimately show ?thesis unfolding keys by blast
qed

lemma walkFrom_edges:
  assumes "c \<in> set (walkFrom g edges follow maxDepth root)"
  shows "\<exists>k n e. steps_from g edges follow root k n \<and> int k < maxDepth \<and> e \<in> set (edges n) \<and> validEdge g e
     \<and> c = toCallEdge g e (int k + 1)"
  using walkCalls_sound [OF start_ok(2) steps_from.here] assms
  unfolding reported_ok_def walkFrom_def set_sort_slice by fastforce

lemma walkFrom_distinct: "distinct (map pairKey (walkFrom g edges follow maxDepth root))"
proof -
  let ?s = "walkCalls g edges follow maxDepth root 1 \<lparr>wk_seenNodes = Map.empty, wk_seenEdges = [], wk_Edges = []\<rparr>"
  have "distinct (map pairKey (wk_Edges ?s))"
    using walkCalls_sound [OF start_ok(2) steps_from.here, of 1 root] by (simp add: reported_ok_def)
  then have "distinct (map pairKey (sort_slice callEdge_less (wk_Edges ?s)))"
    by (metis mset_map mset_sort_slice mset_eq_imp_distinct_iff)
  then show ?thesis by (simp add: walkFrom_def)
qed

end

interpretation callees: call_walk g "cg_Out g" eg_Callee maxDepth for g maxDepth
  by unfold_locales (auto simp: validEdge_def endFunc_def split: option.splits)

interpretation callers: call_walk g "cg_In g" eg_Caller maxDepth for g maxDepth
  by unfold_locales (auto simp: validEdge_def endFunc_def split: option.splits)

definition callEdge_order :: "CallEdge \<Rightarrow> int \<times> string \<times> string" where
  "callEdge_order c = (cl_Depth c, cl_Caller c, cl_Callee c)"

interpretation call_edges: key_order callEdge_less callEdge_order
  by unfold_locales (auto simp: callEdge_less_def callEdge_order_def less_prod_def')

section \<open>What the path search finds\<close>

definition nodes_of :: "nat \<Rightarrow> call_edge list \<Rightarrow> nat list" where
  "nodes_of fr es = fr # map (\<lambda>e. the (eg_Callee e)) es"

text \<open>A chain of calls that visits no node twice.\<close>

inductive call_path :: "call_graph \<Rightarrow> nat \<Rightarrow> call_edge list \<Rightarrow> bool" for g fr where
  start: "call_path g fr []"
| extend: "call_path g fr es \<Longrightarrow> e \<in> set (cg_Out g (last (nodes_of fr es))) \<Longrightarrow> endFunc g (eg_Callee e) \<noteq> None \<Longrightarrow>
     the (eg_Callee e) \<notin> set (nodes_of fr es) \<Longrightarrow> call_path g fr (es @ [e])"

inductive_simps call_path_snoc: "call_path g fr (es @ [e])"

lemma nodes_of_snoc [simp]: "nodes_of fr (es @ [e]) = nodes_of fr es @ [the (eg_Callee e)]"
  by (simp add: nodes_of_def)

lemma nodes_of_simps [simp]: "nodes_of fr es \<noteq> []" "length (nodes_of fr es) = Suc (length es)"
  by (simp_all add: nodes_of_def)

lemma call_path_prefix: "call_path g fr es \<Longrightarrow> prefix ps es \<Longrightarrow> call_path g fr ps"
proof (induction arbitrary: ps rule: call_path.induct)
  case (extend es e)
  then show ?case by (auto simp: prefix_snoc intro: call_path.extend)
qed (simp add: call_path.start)

lemma call_path_next:
  assumes "call_path g fr es" "strict_prefix ps es"
  shows "\<exists>e. call_path g fr (ps @ [e]) \<and> prefix (ps @ [e]) es"
proof -
  from assms(2) obtain e rest where "es = ps @ e # rest"
    by (metis strict_prefixE')
  then have "prefix (ps @ [e]) es" by simp
  with call_path_prefix [OF assms(1)] show ?thesis by blast
qed

definition item_of :: "nat \<Rightarrow> call_edge list \<Rightarrow> path_item" where
  "item_of fr es = (nodes_of fr es, es)"

text \<open>The paths to \<open>to\<close> of at most \<open>m\<close> calls that continue \<open>ps\<close>.\<close>

definition below :: "call_graph \<Rightarrow> nat \<Rightarrow> nat \<Rightarrow> nat \<Rightarrow> call_edge list \<Rightarrow> call_edge list set" where
  "below g fr to m ps = {es. call_path g fr es \<and> strict_prefix ps es \<and> last (nodes_of fr es) = to \<and> length es \<le> m}"

definition hits :: "call_graph \<Rightarrow> nat \<Rightarrow> nat \<Rightarrow> call_edge list \<Rightarrow> call_edge list \<Rightarrow> call_edge list set" where
  "hits g fr to ps es = {ps @ [e] | e. e \<in> set es \<and> endFunc g (eg_Callee e) \<noteq> None
     \<and> the (eg_Callee e) \<notin> set (nodes_of fr ps) \<and> the (eg_Callee e) = to}"

definition onwards :: "call_graph \<Rightarrow> nat \<Rightarrow> nat \<Rightarrow> call_edge list \<Rightarrow> call_edge list \<Rightarrow> call_edge list set" where
  "onwards g fr to ps es = {ps @ [e] | e. e \<in> set es \<and> endFunc g (eg_Callee e) \<noteq> None
     \<and> the (eg_Callee e) \<notin> set (nodes_of fr ps) \<and> the (eg_Callee e) \<noteq> to}"

lemma expandItem_spec:
  assumes "expandItem g to k (item_of fr ps) es found = (new, found', stop)"
  shows "set found \<subseteq> set found'" "set found' \<subseteq> set found \<union> item_of fr ` hits g fr to ps es"
    "stop \<Longrightarrow> length found' \<ge> k" "length found < k \<Longrightarrow> length found' \<le> k"
    "\<not> stop \<Longrightarrow> length found < k \<Longrightarrow> length found' < k"
    "\<not> stop \<Longrightarrow> set found' = set found \<union> item_of fr ` hits g fr to ps es"
    "\<not> stop \<Longrightarrow> set new = item_of fr ` onwards g fr to ps es"
proof -
  have "set found \<subseteq> set found' \<and> set found' \<subseteq> set found \<union> item_of fr ` hits g fr to ps es
    \<and> (stop \<longrightarrow> length found' \<ge> k) \<and> (length found < k \<longrightarrow> length found' \<le> k)
    \<and> (\<not> stop \<longrightarrow> length found < k \<longrightarrow> length found' < k)
    \<and> (\<not> stop \<longrightarrow> set found' = set found \<union> item_of fr ` hits g fr to ps es
               \<and> set new = item_of fr ` onwards g fr to ps es)"
    using assms
  proof (induction es arbitrary: found new)
    case Nil
    then show ?case by (auto simp: hits_def onwards_def)
  next
    case (Cons e es)
    let ?c = "the (eg_Callee e)"
    have item: "item_of fr (ps @ [e]) = (nodes_of fr ps @ [?c], ps @ [e])" by (simp add: item_of_def)
    consider "endFunc g (eg_Callee e) = None \<or> ?c \<in> set (nodes_of fr ps)"
      | "endFunc g (eg_Callee e) \<noteq> None" "?c \<notin> set (nodes_of fr ps)" "?c = to"
      | "endFunc g (eg_Callee e) \<noteq> None" "?c \<notin> set (nodes_of fr ps)" "?c \<noteq> to" by blast
    then show ?case
    proof cases
      case 1
      then have "hits g fr to ps (e # es) = hits g fr to ps es" "onwards g fr to ps (e # es) = onwards g fr to ps es"
        by (auto simp: hits_def onwards_def)
      moreover have "expandItem g to k (item_of fr ps) es found = (new, found', stop)"
        using Cons.prems 1 by (auto simp: item_of_def Let_def split: if_splits)
      note Cons.IH [OF this]
      ultimately show ?thesis by simp
    next
      case 2
      then have h: "hits g fr to ps (e # es) = insert (ps @ [e]) (hits g fr to ps es)"
        "onwards g fr to ps (e # es) = onwards g fr to ps es"
        by (auto simp: hits_def onwards_def)
      let ?f = "found @ [item_of fr (ps @ [e])]"
      show ?thesis
      proof (cases "length ?f \<ge> k")
        case True
        then have "new = [] \<and> found' = ?f \<and> stop"
          using Cons.prems 2 by (auto simp: item_of_def Let_def)
        with True h show ?thesis by auto
      next
        case False
        then have "expandItem g to k (item_of fr ps) es ?f = (new, found', stop)"
          using Cons.prems 2 by (auto simp: item_of_def Let_def)
        from Cons.IH [OF this] False h show ?thesis by auto
      qed
    next
      case 3
      then have h: "hits g fr to ps (e # es) = hits g fr to ps es"
        "onwards g fr to ps (e # es) = insert (ps @ [e]) (onwards g fr to ps es)"
        by (auto simp: hits_def onwards_def)
      obtain rest where "expandItem g to k (item_of fr ps) es found = (rest, found', stop)"
        "new = item_of fr (ps @ [e]) # rest"
        using Cons.prems 3 by (auto simp: item_of_def Let_def split: prod.splits)
      with Cons.IH [OF this(1)] h show ?thesis by auto
    qed
  qed
  then show "set found \<subseteq> set found'" "set found' \<subseteq> set found \<union> item_of fr ` hits g fr to ps es"
    "stop \<Longrightarrow> length found' \<ge> k" "length found < k \<Longrightarrow> length found' \<le> k"
    "\<not> stop \<Longrightarrow> length found < k \<Longrightarrow> length found' < k"
    "\<not> stop \<Longrightarrow> set found' = set found \<union> item_of fr ` hits g fr to ps es"
    "\<not> stop \<Longrightarrow> set new = item_of fr ` onwards g fr to ps es" by blast+
qed

lemma below_split:
  assumes "call_path g fr ps" "length ps < m"
  defines "es \<equiv> cg_Out g (last (nodes_of fr ps))"
  shows "below g fr to m ps = hits g fr to ps es \<union> \<Union> (below g fr to m ` onwards g fr to ps es)"
proof (intro equalityI subsetI)
  fix x assume x: "x \<in> below g fr to m ps"
  then obtain e where e: "call_path g fr (ps @ [e])" "prefix (ps @ [e]) x"
    using call_path_next [of g fr x ps] by (auto simp: below_def)
  show "x \<in> hits g fr to ps es \<union> \<Union> (below g fr to m ` onwards g fr to ps es)"
  proof (cases "x = ps @ [e]")
    case True
    with x e show ?thesis by (auto simp: below_def hits_def es_def call_path_snoc)
  next
    case False
    with e(2) have sp: "strict_prefix (ps @ [e]) x" by (simp add: strict_prefix_def)
    from e(1) have c: "e \<in> set es" "endFunc g (eg_Callee e) \<noteq> None" "the (eg_Callee e) \<notin> set (nodes_of fr ps)"
      by (auto simp: call_path_snoc es_def)
    have "the (eg_Callee e) \<noteq> to"
    proof
      assume t: "the (eg_Callee e) = to"
      from sp obtain y zs where y: "x = zs @ [y]" "prefix (ps @ [e]) zs"
        by (metis prefix_snoc rev_exhaust strict_prefix_def strict_prefix_simps(1))
      from x have "call_path g fr (zs @ [y])" "last (nodes_of fr (zs @ [y])) = to" by (simp_all add: below_def y(1))
      then have "to \<notin> set (nodes_of fr zs)" by (simp add: call_path_snoc)
      with t y(2) show False by (auto simp: nodes_of_def prefix_def)
    qed
    with c sp x have "ps @ [e] \<in> onwards g fr to ps es" "x \<in> below g fr to m (ps @ [e])"
      by (auto simp: onwards_def below_def)
    then show ?thesis by blast
  qed
next
  fix x assume "x \<in> hits g fr to ps es \<union> \<Union> (below g fr to m ` onwards g fr to ps es)"
  then show "x \<in> below g fr to m ps"
    using assms by (auto simp: hits_def onwards_def below_def strict_prefix_def prefix_def call_path_snoc)
qed

lemma items_of_set:
  assumes "set items = item_of fr ` A"
  shows "\<exists>ns. items = map (item_of fr) ns \<and> set ns = A"
proof (intro exI conjI)
  have "item_of fr (snd i) = i" if "i \<in> set items" for i
    using that unfolding assms by (auto simp: item_of_def)
  then show "items = map (item_of fr) (map snd items)" by (simp add: map_idI)
  show "set (map snd items) = A" by (simp add: assms image_image item_of_def)
qed

lemma searchPaths_spec:
  "\<lbrakk>queue = map (item_of fr) qs; \<forall>ps \<in> set qs. call_path g fr ps; length found < k;
    searchPaths g to m k queue found = (r, stop)\<rbrakk> \<Longrightarrow>
   set r \<subseteq> set found \<union> item_of fr ` \<Union> (below g fr to m ` set qs) \<and> length r \<le> k
   \<and> (stop \<longrightarrow> length r = k) \<and> (\<not> stop \<longrightarrow> set r = set found \<union> item_of fr ` \<Union> (below g fr to m ` set qs))"
proof (induction g to m k queue found arbitrary: qs r stop rule: searchPaths.induct)
  case (1 g to m k found)
  then show ?case by auto
next
  case (2 g to m k item queue found)
  then obtain ps qs' where qs: "qs = ps # qs'" "item = item_of fr ps" "queue = map (item_of fr) qs'" by (cases qs) auto
  have ps: "call_path g fr ps" "\<forall>ps \<in> set qs'. call_path g fr ps" using 2(4) qs(1) by auto
  show ?case
  proof (cases "length (fst item) - 1 \<ge> m")
    case True
    then have "below g fr to m ps = {}" using qs(2)
      by (auto simp: below_def item_of_def strict_prefix_def dest: prefix_length_less prefix_length_le)
        (metis le_trans prefix_length_less strict_prefix_def leD)
    moreover have "searchPaths g to m k queue found = (r, stop)" using 2(5,6) True by auto
    ultimately show ?thesis using 2(1) [OF _ True qs(3) ps(2)] 2(5) qs(1) by simp
  next
    case False
    let ?es = "cg_Out g (last (fst item))"
    obtain new found1 c where e: "expandItem g to k item ?es found = (new, found1, c)" using prod_cases3 by blast
    note spec = expandItem_spec [OF e [unfolded qs(2)]]
    have split: "below g fr to m ps = hits g fr to ps ?es \<union> \<Union> (below g fr to m ` onwards g fr to ps ?es)"
      using below_split [OF ps(1), of m to] False qs(2) by (simp add: item_of_def)
    show ?thesis
    proof (cases c)
      case True
      with 2(5,6) False e have "r = found1" "stop" by simp_all
      with True spec(2,3,4) 2(5) split qs show ?thesis by fastforce
    next
      case c: False
      have "\<exists>ns. new = map (item_of fr) ns \<and> set ns = onwards g fr to ps ?es"
        using items_of_set [OF spec(7) [OF c]] unfolding qs(2) .
      then obtain ns where ns: "new = map (item_of fr) ns" "set ns = onwards g fr to ps ?es" by blast
      have paths: "\<forall>q \<in> set (qs' @ ns). call_path g fr q"
        using ps ns(2) qs(2) by (auto simp: onwards_def item_of_def intro: call_path.extend)
      have queue: "queue @ new = map (item_of fr) (qs' @ ns)" using qs ns by simp
      have search: "searchPaths g to m k (queue @ new) found1 = (r, stop)" using 2(5,6) False e c by simp
      have room: "\<not> length found \<ge> k" "length found1 < k" using 2(5) spec(5) c qs(2) by simp_all
      have ih: "set r \<subseteq> set found1 \<union> item_of fr ` \<Union> (below g fr to m ` set (qs' @ ns)) \<and> length r \<le> k
         \<and> (stop \<longrightarrow> length r = k) \<and> (\<not> stop \<longrightarrow> set r = set found1 \<union> item_of fr ` \<Union> (below g fr to m ` set (qs' @ ns)))"
        by (rule 2(2) [OF room(1) False e [symmetric] refl c queue paths room(2) search])
      have "set found1 \<union> item_of fr ` \<Union> (below g fr to m ` set (qs' @ ns))
          = set found \<union> item_of fr ` \<Union> (below g fr to m ` set qs)"
        using spec(6) [OF c] qs(1,2) ns(2) split by auto
      with ih show ?thesis by simp
    qed
  qed
qed

definition call_chains :: "call_graph \<Rightarrow> nat \<Rightarrow> nat \<Rightarrow> int \<Rightarrow> call_edge list set" where
  "call_chains g a b m = {es. call_path g a es \<and> es \<noteq> [] \<and> last (nodes_of a es) = b \<and> int (length es) \<le> m}"

lemma searchPaths_start:
  assumes "searchPaths g b (nat m) k [([a], [])] [] = (found, stop)" "0 < k" "0 \<le> m"
  shows "set found \<subseteq> item_of a ` call_chains g a b m" "length found \<le> k"
    "length found < k \<Longrightarrow> set found = item_of a ` call_chains g a b m"
    "found \<noteq> [] \<longleftrightarrow> call_chains g a b m \<noteq> {}"
proof -
  have chains: "\<Union> (below g a b (nat m) ` set [[]]) = call_chains g a b m"
    using assms(3) by (auto simp: below_def call_chains_def strict_prefix_def le_nat_iff)
  have spec: "set found \<subseteq> item_of a ` call_chains g a b m \<and> length found \<le> k \<and> (stop \<longrightarrow> length found = k)
     \<and> (\<not> stop \<longrightarrow> set found = item_of a ` call_chains g a b m)"
    using searchPaths_spec [of "[([a], [])]" a "[[]]" g "[]" k b "nat m" found stop] assms(1,2)
    unfolding chains by (simp add: item_of_def nodes_of_def call_path.start)
  then show sub: "set found \<subseteq> item_of a ` call_chains g a b m" "length found \<le> k"
    and all: "length found < k \<Longrightarrow> set found = item_of a ` call_chains g a b m" by auto
  show "found \<noteq> [] \<longleftrightarrow> call_chains g a b m \<noteq> {}"
  proof
    assume "found \<noteq> []"
    with sub show "call_chains g a b m \<noteq> {}" by auto
  next
    assume "call_chains g a b m \<noteq> {}"
    with all assms(2) show "found \<noteq> []" by auto
  qed
qed

section \<open>Properties\<close>

lemma query_window_all:
  "no_paging opts \<Longrightarrow> applyQueryWindow env items opts = (items, int (length items), False)"
  by (simp add: no_paging_def applyQueryWindow_slice windowBounds_def Let_def normalizeQueryOptions_fields)

text \<open>What a query on the call graph of a function has to report, up to a depth.\<close>

definition edges_within ::
  "call_graph \<Rightarrow> (nat \<Rightarrow> call_edge list) \<Rightarrow> (call_edge \<Rightarrow> nat option) \<Rightarrow> nat \<Rightarrow> int \<Rightarrow> string set" where
  "edges_within g edges follow root maxDepth =
     {edgeKey g e | e n k. steps_from g edges follow root k n \<and> int k < maxDepth \<and> e \<in> set (edges n) \<and> validEdge g e}"

definition reports ::
  "call_graph \<Rightarrow> (nat \<Rightarrow> call_edge list) \<Rightarrow> (call_edge \<Rightarrow> nat option) \<Rightarrow> nat \<Rightarrow> int \<Rightarrow> CallEdge list \<Rightarrow> bool" where
  "reports g edges follow root maxDepth cs \<longleftrightarrow>
     pairKey ` set cs = edges_within g edges follow root maxDepth \<and> distinct (map pairKey cs)
   \<and> sorted (map callEdge_order cs)
   \<and> (\<forall>c \<in> set cs. \<exists>k n e. steps_from g edges follow root k n \<and> int k < maxDepth \<and> e \<in> set (edges n)
        \<and> validEdge g e \<and> c = toCallEdge g e (int k + 1))"

lemma queryDepth_pos: "maximum \<ge> 1 \<Longrightarrow> dflt \<ge> 1 \<Longrightarrow> queryDepth maximum dflt d \<ge> 1"
  by (simp add: queryDepth_def)

lemma walk_reports:
  assumes "maxDepth \<ge> 1"
  shows "reports g (cg_Out g) eg_Callee root maxDepth (walkFrom g (cg_Out g) eg_Callee maxDepth root)"
    and "reports g (cg_In g) eg_Caller root maxDepth (walkFrom g (cg_In g) eg_Caller maxDepth root)"
  unfolding reports_def edges_within_def
  using callees.walkFrom_keys callees.walkFrom_distinct callees.walkFrom_edges
    callers.walkFrom_keys callers.walkFrom_distinct callers.walkFrom_edges assms call_edges.sorted_keys
  by (auto simp: walkFrom_def)

lemma hierarchy_run:
  assumes "TrimSpace name \<noteq> ''''" "load pattern = Inr p0"
    and "findFunctionWithFallback load fallback pattern p0 name = Inr (prog, f)"
    and "cg_Nodes (sp_Graph prog) (fn_ref f) = Some root" "no_paging opts"
  shows "\<exists>r. AnalyzeCallHierarchyWithOptions pg load fallback pattern name maxDepth opts = Inr r
     \<and> hr_RootFunction r = fn_String f \<and> 1 \<le> hr_MaxDepth r \<and> hr_MaxDepth r \<le> 3
     \<and> reports (sp_Graph prog) (cg_Out (sp_Graph prog)) eg_Callee root (hr_MaxDepth r) (hr_Edges r)
     \<and> hr_TotalBeforeTruncate r = int (length (hr_Edges r)) \<and> \<not> hr_Truncated r"
proof -
  let ?d = "queryDepth defaultCallHierarchyMaxDepth defaultCallHierarchyMaxDepth maxDepth"
  have d: "1 \<le> ?d" "?d \<le> 3" by (auto simp: queryDepth_def defaultCallHierarchyMaxDepth_def)
  have max: "qo_MaxItems opts = 0" "qo_ChunkSize opts = 0" using assms(5) by (simp_all add: no_paging_def)
  show ?thesis
    unfolding AnalyzeCallHierarchyWithOptions_def
    using assms(1-4) max d walk_reports(1) [OF d(1), of "sp_Graph prog" root]
    by (simp add: Let_def query_window_all [OF assms(5)])
qed

text \<open>
  C21: without paging, the call hierarchy of a function reports exactly the pairs of caller and
  callee of the valid call edges that leave a node at most \<open>maxDepth - 1\<close> calls away from the
  function; every pair once, in order, at the depth of some chain of calls that leads to it.
\<close>

theorem call_hierarchy_complete:
  assumes "TrimSpace name \<noteq> ''''" "load pattern = Inr p0"
    and "findFunctionWithFallback load fallback pattern p0 name = Inr (prog, f)"
    and "cg_Nodes (sp_Graph prog) (fn_ref f) = Some root" "no_paging opts"
  shows "\<exists>r. AnalyzeCallHierarchyWithOptions pg load fallback pattern name maxDepth opts = Inr r
     \<and> hr_RootFunction r = fn_String f \<and> 1 \<le> hr_MaxDepth r \<and> hr_MaxDepth r \<le> 3
     \<and> reports (sp_Graph prog) (cg_Out (sp_Graph prog)) eg_Callee root (hr_MaxDepth r) (hr_Edges r)
     \<and> hr_TotalBeforeTruncate r = int (length (hr_Edges r)) \<and> \<not> hr_Truncated r"
  using assms by (rule hierarchy_run)

text \<open>
  Without paging, the callers of a function reported are exactly those of the valid call
  edges that lead into a node at most \<open>maxDepth - 1\<close> calls above the function.
\<close>

theorem callers_complete:
  assumes "TrimSpace name \<noteq> ''''" "load pattern = Inr p0"
    and "findFunctionWithFallback load fallback pattern p0 name = Inr (prog, f)"
    and "cg_Nodes (sp_Graph prog) (fn_ref f) = Some root" "no_paging opts"
  shows "\<exists>r. FindCallersWithOptions pg load fallback pattern name maxDepth opts = Inr r
     \<and> kr_RootFunction r = fn_String f \<and> 1 \<le> kr_MaxDepth r \<and> kr_MaxDepth r \<le> 8
     \<and> reports (sp_Graph prog) (cg_In (sp_Graph prog)) eg_Caller root (kr_MaxDepth r) (kr_Edges r)
     \<and> kr_TotalBeforeTruncate r = int (length (kr_Edges r)) \<and> \<not> kr_Truncated r"
proof -
  let ?d = "queryDepth 8 defaultCallersMaxDepth maxDepth"
  have d: "1 \<le> ?d" "?d \<le> 8" by (auto simp: queryDepth_def defaultCallersMaxDepth_def)
  show ?thesis
    unfolding FindCallersWithOptions_def
    using assms(1-4) d walk_reports(2) [OF d(1), of "sp_Graph prog" root]
    by (simp add: Let_def page_items_all [OF assms(5)])
qed

text \<open>
  C22: a query for call paths between two functions found in one program: the paths it reports
  are call chains from the one to the other that visit no function node twice and have at most
  \<open>MaxDepth\<close> calls, at most \<open>MaxPaths\<close> of them, and all such chains if there are fewer; the
  target is called reachable exactly if there is one. The search always ends.
\<close>

theorem call_paths_found:
  assumes "TrimSpace fr \<noteq> ''''" "TrimSpace to \<noteq> ''''" "load pattern = Inr p0"
    and "findFunctionWithFallback load fallback pattern p0 fr = Inr (p1, f)"
    and "findFunctionWithFallback load fallback pattern p1 to = Inr (p2, t)"
    and "cg_Nodes (sp_Graph p2) (fn_ref f) = Some a" "cg_Nodes (sp_Graph p2) (fn_ref t) = Some b"
  shows "\<exists>r. FindCallPath load fallback pattern fr to maxDepth maxPaths = Inr r
     \<and> 1 \<le> fp_MaxDepth r \<and> fp_MaxDepth r \<le> 12 \<and> fp_MaxPaths r \<le> 100
     \<and> (let g = sp_Graph p2; chains = call_chains g a b (fp_MaxDepth r);
            shown = (\<lambda>es. buildCallPath g (nodes_of a es) es)
        in set (fp_Paths r) \<subseteq> shown ` chains \<and> int (length (fp_Paths r)) \<le> fp_MaxPaths r
         \<and> (int (length (fp_Paths r)) < fp_MaxPaths r \<longrightarrow> set (fp_Paths r) = shown ` chains)
         \<and> (fp_Reachable r \<longleftrightarrow> chains \<noteq> {}))"
proof -
  let ?m = "queryDepth 12 defaultCallPathMaxDepth maxDepth" and ?k = "queryDepth 100 defaultCallPathMaxPaths maxPaths"
  let ?g = "sp_Graph p2"
  let ?shown = "\<lambda>es. buildCallPath ?g (nodes_of a es) es"
  have pos: "0 \<le> ?m" "0 < nat ?k" "1 \<le> ?m" "?m \<le> 12" "?k \<le> 100"
    by (auto simp: queryDepth_def defaultCallPathMaxDepth_def defaultCallPathMaxPaths_def)
  obtain found stop where s: "searchPaths ?g b (nat ?m) (nat ?k) [([a], [])] [] = (found, stop)" by fastforce
  note spec = searchPaths_start [OF s pos(2,1)]
  have shown: "(\<lambda>(ns, es). buildCallPath ?g ns es) ` item_of a ` C = ?shown ` C" for C
    by (simp add: image_image item_of_def)
  define ps where "ps = map (\<lambda>(ns, es). buildCallPath ?g ns es) found"
  have ps: "set ps \<subseteq> ?shown ` call_chains ?g a b ?m" "int (length ps) \<le> ?k"
    "int (length ps) < ?k \<longrightarrow> set ps = ?shown ` call_chains ?g a b ?m"
    using image_mono [OF spec(1), of "\<lambda>(ns, es). buildCallPath ?g ns es"] spec(2,3) pos
    unfolding shown by (auto simp: ps_def shown)
  have "\<exists>r. FindCallPath load fallback pattern fr to maxDepth maxPaths = Inr r \<and> fp_Paths r = ps
     \<and> fp_MaxDepth r = ?m \<and> fp_MaxPaths r = ?k \<and> (fp_Reachable r \<longleftrightarrow> found \<noteq> [])"
    unfolding FindCallPath_def using assms s by (simp add: Let_def ps_def)
  then show ?thesis unfolding Let_def using ps spec(4) pos(3-5) by (metis (no_types, lifting))
qed

text \<open>
  If the second function is only found in another program, loaded for a fallback pattern,
  whose call graph does not know the first function, the query answers that there is no path,
  without saying why, whatever that program contains.
\<close>

theorem call_path_across_programs:
  assumes "TrimSpace fr \<noteq> ''''" "TrimSpace to \<noteq> ''''" "load pattern = Inr p0"
    and "findFunction p0 fr = Inr f"
    and "findFunction p0 to = Inl err" "isNotFoundError err"
    and "tryFallback load pattern to fallback = Some (p2, t)"
    and "cg_Nodes (sp_Graph p2) (fn_ref f) = None"
  shows "\<exists>r. FindCallPath load fallback pattern fr to maxDepth maxPaths = Inr r
     \<and> \<not> fp_Reachable r \<and> fp_Paths r = [] \<and> fp_CutoffReason r = ''''"
  using assms by (simp add: FindCallPath_def findFunctionWithFallback_def Let_def)

section \<open>Witnesses\<close>

definition sample_func :: "nat \<Rightarrow> string \<Rightarrow> ssa_func" where
  "sample_func r name = \<lparr>fn_ref = r, fn_String = ''app.'' @ name, fn_Name = name, fn_Recv = None,
     fn_Pkg = Some ''app'', fn_Synthetic = ''''\<rparr>"

definition sample_call :: "nat \<Rightarrow> nat \<Rightarrow> call_edge" where
  "sample_call a b = \<lparr>eg_Caller = Some a, eg_Callee = Some b, eg_Site = CallSite, eg_Pos = Some (''app.go'', 7)\<rparr>"

text \<open>\<open>main\<close> calls \<open>run\<close>, which calls itself.\<close>

definition sample_program :: ssa_program where
  "sample_program = \<lparr>sp_SSAFuncs = [Some (sample_func 0 ''main''), Some (sample_func 1 ''run'')], sp_All = [],
     sp_RootPaths = [''app''],
     sp_Graph = \<lparr>cg_Nodes = (\<lambda>n. if n \<le> 1 then Some n else None),
       cg_Func = (\<lambda>n. if n = 0 then Some (sample_func 0 ''main'') else if n = 1 then Some (sample_func 1 ''run'') else None),
       cg_Out = (\<lambda>n. if n = 0 then [sample_call 0 1] else [sample_call 1 1]),
       cg_In = (\<lambda>n. if n = 0 then [] else [sample_call 0 1, sample_call 1 1])\<rparr>\<rparr>"

definition sample_load :: "string \<Rightarrow> string + ssa_program" where
  "sample_load p = (if p = ''./...'' then Inr sample_program else Inl ''no packages'')"

lemma sample_findFunction:
  "findFunction sample_program ''main'' = Inr (sample_func 0 ''main'')"
  "findFunction sample_program ''run'' = Inr (sample_func 1 ''run'')"
  by code_simp+

lemma sample_finds:
  "findFunctionWithFallback sample_load [] ''./...'' sample_program ''main'' = Inr (sample_program, sample_func 0 ''main'')"
  "findFunctionWithFallback sample_load [] ''./...'' sample_program ''run'' = Inr (sample_program, sample_func 1 ''run'')"
  "cg_Nodes (sp_Graph sample_program) (fn_ref (sample_func 0 ''main'')) = Some 0"
  "cg_Nodes (sp_Graph sample_program) (fn_ref (sample_func 1 ''run'')) = Some 1"
  by (simp_all add: findFunctionWithFallback_def sample_findFunction)
    (simp_all add: sample_program_def sample_func_def)

lemma sample_nonblank: "TrimSpace ''main'' \<noteq> ''''" "TrimSpace ''run'' \<noteq> ''''"
  by code_simp+

lemma sample_names [simp]:
  "validEdge (sp_Graph sample_program) (sample_call 0 1)"
  "edgeKey (sp_Graph sample_program) (sample_call 0 1) = ''app.main->app.run''"
  by code_simp+

theorem call_hierarchy_complete_witness:
  "\<exists>r. AnalyzeCallHierarchyWithOptions sample_paging sample_load [] ''./...'' ''main'' 2 plain_opts = Inr r
     \<and> ''app.main->app.run'' \<in> pairKey ` set (hr_Edges r)"
proof -
  obtain r where r: "AnalyzeCallHierarchyWithOptions sample_paging sample_load [] ''./...'' ''main'' 2 plain_opts = Inr r"
    "1 \<le> hr_MaxDepth r" "reports (sp_Graph sample_program) (cg_Out (sp_Graph sample_program)) eg_Callee 0 (hr_MaxDepth r) (hr_Edges r)"
    using call_hierarchy_complete [OF sample_nonblank(1) _ sample_finds(1,3), of plain_opts sample_paging 2]
    by (auto simp: sample_load_def plain_opts_def no_paging_def)
  moreover have "''app.main->app.run'' \<in> edges_within (sp_Graph sample_program) (cg_Out (sp_Graph sample_program)) eg_Callee 0 (hr_MaxDepth r)"
    unfolding edges_within_def using r(2) steps_from.here sample_names
    by (intro CollectI exI [of _ "sample_call 0 1"] exI [of _ 0] conjI) (simp_all add: sample_program_def)
  ultimately show ?thesis by (auto simp: reports_def)
qed

theorem callers_complete_witness:
  "\<exists>r. FindCallersWithOptions sample_paging sample_load [] ''./...'' ''run'' 2 plain_opts = Inr r
     \<and> ''app.main->app.run'' \<in> pairKey ` set (kr_Edges r)"
proof -
  obtain r where r: "FindCallersWithOptions sample_paging sample_load [] ''./...'' ''run'' 2 plain_opts = Inr r"
    "1 \<le> kr_MaxDepth r" "reports (sp_Graph sample_program) (cg_In (sp_Graph sample_program)) eg_Caller 1 (kr_MaxDepth r) (kr_Edges r)"
    using callers_complete [OF sample_nonblank(2) _ sample_finds(2,4), of plain_opts sample_paging 2]
    by (auto simp: sample_load_def plain_opts_def no_paging_def)
  moreover have "''app.main->app.run'' \<in> edges_within (sp_Graph sample_program) (cg_In (sp_Graph sample_program)) eg_Caller 1 (kr_MaxDepth r)"
    unfolding edges_within_def using r(2) steps_from.here sample_names
    by (intro CollectI exI [of _ "sample_call 0 1"] exI [of _ 1] exI [of _ 0] conjI) (simp_all add: sample_program_def)
  ultimately show ?thesis by (auto simp: reports_def)
qed

theorem call_paths_found_witness:
  "\<exists>r. FindCallPath sample_load [] ''./...'' ''main'' ''run'' 3 5 = Inr r \<and> fp_Reachable r"
proof -
  have chain: "[sample_call 0 1] \<in> call_chains (sp_Graph sample_program) 0 1 m" if "1 \<le> m" for m
    using that call_path.extend [OF call_path.start, of "sample_call 0 1" "sp_Graph sample_program" 0]
    by (simp add: call_chains_def nodes_of_def sample_program_def sample_call_def endFunc_def)
  obtain r where r: "FindCallPath sample_load [] ''./...'' ''main'' ''run'' 3 5 = Inr r"
    "1 \<le> fp_MaxDepth r" "fp_Reachable r \<longleftrightarrow> call_chains (sp_Graph sample_program) 0 1 (fp_MaxDepth r) \<noteq> {}"
    using call_paths_found [OF sample_nonblank _ sample_finds(1,2,3,4), of 3 5]
    by (auto simp: sample_load_def Let_def)
  with chain [OF r(2)] show ?thesis by auto
qed

text \<open>Two programs: the first has only \<open>main\<close>, the fallback only \<open>run\<close>.\<close>

definition split_program :: "nat \<Rightarrow> string \<Rightarrow> ssa_program" where
  "split_program r name = \<lparr>sp_SSAFuncs = [Some (sample_func r name)], sp_All = [], sp_RootPaths = [''app''],
     sp_Graph = \<lparr>cg_Nodes = (\<lambda>n. if n = r then Some 0 else None), cg_Func = (\<lambda>n. Some (sample_func r name)),
       cg_Out = (\<lambda>n. []), cg_In = (\<lambda>n. [])\<rparr>\<rparr>"

definition split_load :: "string \<Rightarrow> string + ssa_program" where
  "split_load p = (if p = ''./app'' then Inr (split_program 0 ''main'') else Inr (split_program 1 ''run''))"

theorem call_path_across_programs_witness:
  "\<exists>r. FindCallPath split_load [''./...''] ''./app'' ''main'' ''run'' 3 5 = Inr r
     \<and> \<not> fp_Reachable r \<and> fp_CutoffReason r = ''''"
proof -
  have f: "findFunction (split_program 0 ''main'') ''main'' = Inr (sample_func 0 ''main'')"
    "findFunction (split_program 0 ''main'') ''run'' = Inl ''function run not found in loaded packages''"
    "isNotFoundError ''function run not found in loaded packages''"
    "findFunction (split_program 1 ''run'') ''run'' = Inr (sample_func 1 ''run'')"
    by code_simp+
  have h: "tryFallback split_load ''./app'' ''run'' [''./...''] = Some (split_program 1 ''run'', sample_func 1 ''run'')"
    "cg_Nodes (sp_Graph (split_program 1 ''run'')) (fn_ref (sample_func 0 ''main'')) = None"
    "split_load ''./app'' = Inr (split_program 0 ''main'')"
    using f(4) by (simp_all add: split_load_def) (simp add: split_program_def sample_func_def)
  show ?thesis
    using call_path_across_programs [OF sample_nonblank h(3) f(1-3) h(1,2), of 3 5] by blast
qed

end
