(* ===== verification/Go_Types.thy ===== *)
theory Go_Types
  imports Go_Strings
begin

text \<open>
  The part of \<^verbatim>\<open>go/types\<close> the analyses look at. A type is a term; named types and aliases
  refer to a type environment (the checker's universe) that gives their name, their
  underlying type and the printed form of a type, so recursive types need no infinite term.
  The helpers on types of \<^verbatim>\<open>analyzer/dataflow.go\<close> and \<^verbatim>\<open>analyzer/lifecycle.go\<close> follow.
\<close>

datatype gotype =
    TBasic string
  | TPointer gotype
  | TStruct "(string \<times> gotype) list"
  | TNamed nat
  | TAlias nat
  | TSlice gotype
  | TArray gotype
  | TMap gotype gotype
  | TChan gotype
  | TInterface nat
  | TOther string

record type_env =
  ty_Name :: "nat \<Rightarrow> string"
  ty_Under :: "nat \<Rightarrow> gotype"
  ty_Alias :: "nat \<Rightarrow> gotype"
  ty_String :: "gotype \<Rightarrow> string"

text \<open>
  \<open>Underlying\<close> is the method of \<^verbatim>\<open>types.Type\<close>: the identity on literals, the declared
  underlying type on a named type, and that of the (resolved) right-hand side on an alias.
\<close>

fun Underlying :: "type_env \<Rightarrow> gotype \<Rightarrow> gotype" where
  "Underlying E (TNamed n) = ty_Under E n"
| "Underlying E (TAlias n) = (case ty_Alias E n of TNamed m \<Rightarrow> ty_Under E m | t \<Rightarrow> t)"
| "Underlying E t = t"

definition pointerType :: "type_env \<Rightarrow> gotype \<Rightarrow> gotype option" where
  "pointerType E t = (case Underlying E t of TPointer e \<Rightarrow> Some (TPointer e) | _ \<Rightarrow> None)"

definition pointerElem :: "type_env \<Rightarrow> gotype \<Rightarrow> gotype option" where
  "pointerElem E t = (case Underlying E t of TPointer e \<Rightarrow> Some e | _ \<Rightarrow> None)"

lemma pointerElem_iff: "pointerElem E t = Some e \<longleftrightarrow> pointerType E t = Some (TPointer e)"
  by (cases "Underlying E t") (auto simp: pointerElem_def pointerType_def)

fun isContainerType :: "type_env \<Rightarrow> gotype option \<Rightarrow> bool" where
  "isContainerType E None = False"
| "isContainerType E (Some t) =
     (case Underlying E t of
        TSlice _ \<Rightarrow> True | TArray _ \<Rightarrow> True | TMap _ _ \<Rightarrow> True | TChan _ \<Rightarrow> True | TInterface _ \<Rightarrow> True
      | _ \<Rightarrow> Contains (ty_String E t) ''unsafe.Pointer'')"

primrec strip_pointers :: "gotype \<Rightarrow> gotype" where
  "strip_pointers (TPointer t) = strip_pointers t"
| "strip_pointers (TBasic s) = TBasic s"
| "strip_pointers (TStruct fs) = TStruct fs"
| "strip_pointers (TNamed n) = TNamed n"
| "strip_pointers (TAlias n) = TAlias n"
| "strip_pointers (TSlice t) = TSlice t"
| "strip_pointers (TArray t) = TArray t"
| "strip_pointers (TMap k t) = TMap k t"
| "strip_pointers (TChan t) = TChan t"
| "strip_pointers (TInterface n) = TInterface n"
| "strip_pointers (TOther s) = TOther s"

definition is_struct :: "gotype \<Rightarrow> bool" where
  "is_struct t \<longleftrightarrow> (case t of TStruct _ \<Rightarrow> True | _ \<Rightarrow> False)"

definition namedStructTypeName :: "type_env \<Rightarrow> gotype option \<Rightarrow> string" where
  "namedStructTypeName E t =
     (case t of None \<Rightarrow> ''''
      | Some t \<Rightarrow>
          (case strip_pointers t of
             TNamed n \<Rightarrow> (if is_struct (ty_Under E n) then ty_Name E n else '''')
           | _ \<Rightarrow> ''''))"

text \<open>
  \<^verbatim>\<open>isContainerFieldPath\<close> from the element type of the base: does a step of the path leave
  the structs, name no field, or reach a container?
\<close>

fun isContainerFieldPath :: "type_env \<Rightarrow> gotype \<Rightarrow> string list \<Rightarrow> bool" where
  "isContainerFieldPath E t [] = False"
| "isContainerFieldPath E t (f # fs) =
     (case Underlying E t of
        TStruct sfs \<Rightarrow>
          (case map_of sfs f of
             None \<Rightarrow> True
           | Some next \<Rightarrow> isContainerType E (Some next) \<or> isContainerFieldPath E next fs)
      | _ \<Rightarrow> True)"

end
