(* ===== verification/Dataflow.thy ===== *)
theory Dataflow
  imports Go_Types "HOL-Library.AList"
begin

text \<open>
  \<^verbatim>\<open>analyzer/dataflow.go\<close>: which memory a function reads and writes, under which locks.

  The functions as \<^verbatim>\<open>go/ssa\<close> builds them are data of the model: SSA values are references
  (natural numbers) into a table of nodes, since the graph of values has cycles through
  phi nodes; functions are references too. \<open>memoryKey\<close>, \<open>aliasMemoryKey\<close> and
  \<open>containerElementKey\<close> call each other and follow that graph, so they carry fuel and
  return \<open>None\<close> when it runs out; the theory \<^verbatim>\<open>Access_Summaries\<close> gives the fuel that is
  enough. Slices are values here: two keys never share the
  array behind their field paths.
\<close>

section \<open>Functions in SSA form\<close>

datatype ssa_node =
    NParameter
  | NAlloc
  | NGlobal string
  | NFreeVar
  | NUnOp string nat
  | NFieldAddr nat nat
  | NIndexAddr nat
  | NPhi "nat list"
  | NMakeClosure "nat option" "nat list"
  | NOther

record ssa_val =
  vl_Node :: ssa_node
  vl_Name :: string
  vl_Type :: gotype

record ssa_common =
  cn_Value :: "nat option"
  cn_Method :: "string option"
  cn_StaticCallee :: "nat option"
  cn_Args :: "nat list"
  cn_String :: string

datatype ssa_inst =
    IStore nat nat
  | IUnOp string nat
  | ICall ssa_common
  | IDefer ssa_common
  | IGo ssa_common
  | IOther

record ssa_function =
  sa_String :: string
  sa_Name :: string
  sa_Params :: "nat list"
  sa_FreeVars :: "nat list"
  sa_HasRecv :: bool
  sa_Parent :: "nat option"
  sa_Blocks :: "((string \<times> int) \<times> ssa_inst) list list"

text \<open>
  A program: the table of functions, the table of values, the types, and the list
  \<^verbatim>\<open>SSAFuncs\<close>, whose entries may be nil. An instruction comes with its position.
\<close>

record ssa_code =
  sg_Func :: "nat \<Rightarrow> ssa_function"
  sg_Val :: "nat \<Rightarrow> ssa_val"
  sg_Types :: type_env
  sg_SSAFuncs :: "nat option list"

abbreviation vnode :: "ssa_code \<Rightarrow> nat \<Rightarrow> ssa_node" where
  "vnode pr v \<equiv> vl_Node (sg_Val pr v)"

abbreviation val_type :: "ssa_code \<Rightarrow> nat \<Rightarrow> gotype" where
  "val_type pr v \<equiv> vl_Type (sg_Val pr v)"

abbreviation val_name :: "ssa_code \<Rightarrow> nat \<Rightarrow> string" where
  "val_name pr v \<equiv> vl_Name (sg_Val pr v)"

section \<open>Memory keys and accesses\<close>

datatype MemoryRootKind =
  RootNone | RootAlloc | RootGlobal | RootParam | RootReceiver | RootFreeVar | RootUnknown

datatype AccessKind = AccessRead | AccessWrite

primrec root_text :: "MemoryRootKind \<Rightarrow> string" where
  "root_text RootNone = ''''"
| "root_text RootAlloc = ''alloc''"
| "root_text RootGlobal = ''global''"
| "root_text RootParam = ''param''"
| "root_text RootReceiver = ''receiver''"
| "root_text RootFreeVar = ''freevar''"
| "root_text RootUnknown = ''unknown''"

primrec kind_text :: "AccessKind \<Rightarrow> string" where
  "kind_text AccessRead = ''read''"
| "kind_text AccessWrite = ''write''"

definition maxExpandedConcurrencyAccesses :: nat where
  "maxExpandedConcurrencyAccesses = 5000"

record MemoryKey =
  mk_RootKind :: MemoryRootKind
  mk_RootID :: string
  mk_TypeName :: string
  mk_FieldPath :: "string list"

record MemoryAccess =
  ma_Key :: MemoryKey
  ma_Kind :: AccessKind
  ma_Function :: string
  ma_File :: string
  ma_Line :: int
  ma_Atomic :: bool
  ma_InGoroutine :: bool
  ma_GoroutineID :: string
  ma_Lockset :: "MemoryKey list"
  ma_ViaCall :: string
  ma_Reason :: string

record GoroutineSpawnSummary =
  gs_Function :: string
  gs_Callee :: "nat option"
  gs_Args :: "MemoryKey list"
  gs_Bindings :: "(string \<times> MemoryKey) list"
  gs_ID :: string
  gs_File :: string
  gs_Line :: int

record FunctionCallSummary =
  cs_Function :: string
  cs_Callee :: "nat option"
  cs_Args :: "MemoryKey list"
  cs_Lockset :: "MemoryKey list"
  cs_File :: string
  cs_Line :: int

text \<open>
  Go's maps are association lists. \<open>fs_ParamEffects\<close> is ranged over by the code; its
  order stands for the iteration order of the map.
\<close>

record FunctionAccessSummary =
  fs_Function :: nat
  fs_ParamEffects :: "(nat \<times> MemoryAccess list) list"
  fs_ReceiverEffects :: "MemoryAccess list"
  fs_GlobalAccesses :: "MemoryAccess list"
  fs_LocalAccesses :: "MemoryAccess list"
  fs_Spawned :: "GoroutineSpawnSummary list"
  fs_Calls :: "FunctionCallSummary list"
  fs_UnknownEffects :: "MemoryAccess list"
  fs_Notes :: "string list"

definition AllAccesses :: "FunctionAccessSummary \<Rightarrow> MemoryAccess list" where
  "AllAccesses s =
     concat (map snd (fs_ParamEffects s)) @ fs_ReceiverEffects s @ fs_GlobalAccesses s
       @ fs_LocalAccesses s @ fs_UnknownEffects s"

text \<open>\<^verbatim>\<open>MemoryKey.String\<close>, and equality of keys as the code decides it.\<close>

definition key_String :: "MemoryKey \<Rightarrow> string" where
  "key_String k = root_text (mk_RootKind k) @ '':'' @ mk_TypeName k @ ''.'' @ Join ''.'' (mk_FieldPath k)"

definition sameMemoryKey :: "MemoryKey \<Rightarrow> MemoryKey \<Rightarrow> bool" where
  "sameMemoryKey a b \<longleftrightarrow>
     (if mk_RootKind a \<noteq> mk_RootKind b \<or> mk_RootID a \<noteq> mk_RootID b \<or> mk_TypeName a \<noteq> mk_TypeName b then False
      else if length (mk_FieldPath a) \<noteq> length (mk_FieldPath b) then False
      else list_all2 (=) (mk_FieldPath a) (mk_FieldPath b))"

lemma sameMemoryKey_eq [simp]: "sameMemoryKey a b \<longleftrightarrow> a = b"
  by (cases a; cases b) (auto simp: sameMemoryKey_def list_all2_eq [symmetric])

section \<open>Parameters\<close>

definition paramRootID :: "ssa_code \<Rightarrow> nat option \<Rightarrow> int \<Rightarrow> string \<Rightarrow> string" where
  "paramRootID pr fn idx name =
     (case fn of None \<Rightarrow> name
      | Some f \<Rightarrow> sa_String (sg_Func pr f) @ ''|param|'' @ Itoa idx @ ''|'' @ name)"

fun index_where :: "('a \<Rightarrow> bool) \<Rightarrow> int \<Rightarrow> 'a list \<Rightarrow> int" where
  "index_where P i [] = -1"
| "index_where P i (x # xs) = (if P x then i else index_where P (i + 1) xs)"

definition paramIndexByValue :: "ssa_code \<Rightarrow> nat \<Rightarrow> nat \<Rightarrow> int" where
  "paramIndexByValue pr fn p = index_where (\<lambda>param. param = p) 0 (sa_Params (sg_Func pr fn))"

definition paramIndex :: "ssa_code \<Rightarrow> nat \<Rightarrow> string \<Rightarrow> int" where
  "paramIndex pr fn rootID =
     index_where (\<lambda>(i, param). paramRootID pr (Some fn) (int i) (val_name pr param) = rootID
                              \<or> val_name pr param = rootID)
       0 (enumerate 0 (sa_Params (sg_Func pr fn)))"

lemma index_where_bounds:
  "0 \<le> i \<Longrightarrow> index_where P i xs = -1 \<or> i \<le> index_where P i xs \<and> index_where P i xs < i + int (length xs)"
  by (induction P i xs rule: index_where.induct) (auto simp: not_less)

lemma paramIndex_less:
  "0 \<le> paramIndex pr fn r \<Longrightarrow> nat (paramIndex pr fn r) < length (sa_Params (sg_Func pr fn))"
  using index_where_bounds [of 0 "\<lambda>(i, param). paramRootID pr (Some fn) (int i) (val_name pr param) = r
      \<or> val_name pr param = r" "enumerate 0 (sa_Params (sg_Func pr fn))"]
  by (auto simp: paramIndex_def)

definition typeKey :: "ssa_code \<Rightarrow> nat \<Rightarrow> string" where
  "typeKey pr v = namedStructTypeName (sg_Types pr) (pointerElem (sg_Types pr) (val_type pr v))"

definition parameterMemoryKey :: "ssa_code \<Rightarrow> nat \<Rightarrow> nat \<Rightarrow> MemoryKey" where
  "parameterMemoryKey pr fn p =
     (let idx = paramIndexByValue pr fn p;
          rootID = paramRootID pr (Some fn) idx (val_name pr p);
          rootKind = (if sa_HasRecv (sg_Func pr fn) \<and> idx = 0 then RootReceiver else RootParam)
      in \<lparr>mk_RootKind = rootKind, mk_RootID = rootID, mk_TypeName = typeKey pr p, mk_FieldPath = []\<rparr>)"

definition rootArgsForFunction :: "ssa_code \<Rightarrow> nat option \<Rightarrow> MemoryKey list" where
  "rootArgsForFunction pr fn =
     (case fn of None \<Rightarrow> []
      | Some f \<Rightarrow> map (parameterMemoryKey pr f) (sa_Params (sg_Func pr f)))"

section \<open>The builder of a summary\<close>

record accessSummaryBuilder =
  bs_Fn :: nat
  bs_Summary :: FunctionAccessSummary
  bs_Aliases :: "(nat \<times> MemoryKey) list"
  bs_Lockset :: "MemoryKey list"
  bs_CapNote :: bool

definition fn_text :: "ssa_code \<Rightarrow> accessSummaryBuilder \<Rightarrow> string" where
  "fn_text pr b = sa_String (sg_Func pr (bs_Fn b))"

definition addNote :: "string \<Rightarrow> accessSummaryBuilder \<Rightarrow> accessSummaryBuilder" where
  "addNote n b = b\<lparr>bs_Summary := (bs_Summary b)\<lparr>fs_Notes := fs_Notes (bs_Summary b) @ [n]\<rparr>\<rparr>"

definition maxTrackedAliasesPerFunction :: nat where
  "maxTrackedAliasesPerFunction = 8"

definition maxTrackedFieldPathDepth :: nat where
  "maxTrackedFieldPathDepth = 4"

text \<open>
  The note about a cap is written once per function, whichever cap is hit first.
\<close>

definition capNoteOnce :: "string \<Rightarrow> accessSummaryBuilder \<Rightarrow> accessSummaryBuilder" where
  "capNoteOnce n b = (if bs_CapNote b then b else (addNote n b)\<lparr>bs_CapNote := True\<rparr>)"

section \<open>Memory keys of addresses\<close>

text \<open>\<^verbatim>\<open>fieldName\<close>: the name of the selected field, if the operand points to a struct.\<close>

definition fieldName :: "ssa_code \<Rightarrow> nat \<Rightarrow> nat \<Rightarrow> string option" where
  "fieldName pr x idx =
     (case pointerType (sg_Types pr) (val_type pr x) of
        Some (TPointer e) \<Rightarrow>
          (case Underlying (sg_Types pr) e of
             TStruct sfs \<Rightarrow> (if length sfs \<le> idx then None else Some (fst (sfs ! idx)))
           | _ \<Rightarrow> None)
      | _ \<Rightarrow> None)"

fun peelFieldPath :: "ssa_code \<Rightarrow> nat \<Rightarrow> nat \<Rightarrow> (nat \<times> string list) option option" where
  "peelFieldPath pr 0 v = None"
| "peelFieldPath pr (Suc n) v =
     (case vnode pr v of
        NFieldAddr x idx \<Rightarrow>
          (case peelFieldPath pr n x of
             None \<Rightarrow> None
           | Some inner \<Rightarrow>
               (let (base, fs) = (case inner of Some p \<Rightarrow> p | None \<Rightarrow> (x, []))
                in case fieldName pr x idx of
                     None \<Rightarrow> Some None
                   | Some name \<Rightarrow> Some (Some (base, fs @ [name]))))
      | _ \<Rightarrow> Some None)"

fun rootKey :: "ssa_code \<Rightarrow> nat \<Rightarrow> accessSummaryBuilder \<Rightarrow> nat \<Rightarrow> MemoryKey option" where
  "rootKey pr 0 b v = None"
| "rootKey pr (Suc n) b v =
     (let named = (\<lambda>kind i. Some \<lparr>mk_RootKind = kind, mk_RootID = i, mk_TypeName = typeKey pr v,
                                  mk_FieldPath = []\<rparr>)
      in case vnode pr v of
           NParameter \<Rightarrow> Some (parameterMemoryKey pr (bs_Fn b) v)
         | NUnOp opr x \<Rightarrow>
             (if opr = ''*'' then rootKey pr n b x else named RootUnknown (val_name pr v))
         | NAlloc \<Rightarrow> named RootAlloc (fn_text pr b @ ''|alloc|'' @ val_name pr v)
         | NGlobal pkg \<Rightarrow> named RootGlobal (pkg @ ''.'' @ val_name pr v)
         | NFreeVar \<Rightarrow>
             (case map_of (bs_Aliases b) v of
                Some key \<Rightarrow> Some key
              | None \<Rightarrow> named RootFreeVar (val_name pr v))
         | _ \<Rightarrow> named RootUnknown (val_name pr v))"

definition unknownAliasKey :: "MemoryKey \<Rightarrow> MemoryKey" where
  "unknownAliasKey example =
     \<lparr>mk_RootKind = RootUnknown, mk_RootID = ''ambiguous:'' @ mk_RootID example,
      mk_TypeName = mk_TypeName example, mk_FieldPath = []\<rparr>"

definition containerKey :: "MemoryKey \<Rightarrow> MemoryKey" where
  "containerKey key =
     (let key = key\<lparr>mk_RootKind := RootUnknown\<rparr>
      in if \<not> HasPrefix (mk_RootID key) ''container:''
         then key\<lparr>mk_RootID := ''container:'' @ mk_RootID key\<rparr> else key)"

text \<open>
  The second half of \<^verbatim>\<open>memoryKey\<close>: the peeled fields are appended to the key of the base,
  the path is capped, and a path through a container becomes an unknown root.
\<close>

definition capKey :: "ssa_code \<Rightarrow> accessSummaryBuilder \<Rightarrow> MemoryKey \<Rightarrow> accessSummaryBuilder \<times> MemoryKey" where
  "capKey pr b root =
     (if maxTrackedFieldPathDepth < length (mk_FieldPath root) then
        (capNoteOnce (''field path tracking capped at '' @ Itoa (int maxTrackedFieldPathDepth)
            @ '' fields in '' @ fn_text pr b @ ''; deeper accesses may be lower precision'') b,
         root\<lparr>mk_RootKind := RootUnknown, mk_RootID := ''field-depth:'' @ mk_RootID root,
              mk_FieldPath := take maxTrackedFieldPathDepth (mk_FieldPath root)\<rparr>)
      else (b, root))"

definition fieldKey ::
  "ssa_code \<Rightarrow> accessSummaryBuilder \<Rightarrow> MemoryKey \<Rightarrow> nat \<Rightarrow> string list \<Rightarrow> accessSummaryBuilder \<times> MemoryKey"
where
  "fieldKey pr b root base fs =
     (let (b, root) = capKey pr b (root\<lparr>mk_FieldPath := mk_FieldPath root @ fs\<rparr>)
      in if (case pointerElem (sg_Types pr) (val_type pr base) of
               None \<Rightarrow> True
             | Some t \<Rightarrow> isContainerFieldPath (sg_Types pr) t fs)
         then (b, root\<lparr>mk_RootKind := RootUnknown, mk_RootID := ''container:'' @ mk_RootID root\<rparr>)
         else (b, root))"

text \<open>The loop of \<^verbatim>\<open>aliasMemoryKey\<close> over the edges of a phi node.\<close>

type_synonym key_run = "(accessSummaryBuilder \<times> MemoryKey option) option"

primrec phiKey ::
  "(accessSummaryBuilder \<Rightarrow> nat \<Rightarrow> key_run) \<Rightarrow> accessSummaryBuilder \<Rightarrow> MemoryKey option \<Rightarrow> nat list \<Rightarrow> key_run"
where
  "phiKey mk b out [] = Some (b, out)"
| "phiKey mk b out (e # es) =
     (case mk b e of
        None \<Rightarrow> None
      | Some (b, None) \<Rightarrow> Some (b, None)
      | Some (b, Some key) \<Rightarrow>
          (case out of
             None \<Rightarrow> phiKey mk b (Some key) es
           | Some first \<Rightarrow>
               (if \<not> sameMemoryKey first key then Some (b, Some (unknownAliasKey first))
                else phiKey mk b out es)))"

fun memoryKey :: "ssa_code \<Rightarrow> nat \<Rightarrow> accessSummaryBuilder \<Rightarrow> nat \<Rightarrow> key_run"
and aliasMemoryKey :: "ssa_code \<Rightarrow> nat \<Rightarrow> accessSummaryBuilder \<Rightarrow> nat \<Rightarrow> key_run"
and containerElementKey :: "ssa_code \<Rightarrow> nat \<Rightarrow> accessSummaryBuilder \<Rightarrow> nat \<Rightarrow> key_run"
where
  "memoryKey pr 0 b v = None"
| "memoryKey pr (Suc n) b v =
     (case vnode pr v of
        NIndexAddr x \<Rightarrow> containerElementKey pr n b x
      | _ \<Rightarrow>
          (case aliasMemoryKey pr n b v of
             None \<Rightarrow> None
           | Some (b, Some key) \<Rightarrow> Some (b, Some key)
           | Some (b, None) \<Rightarrow>
               (case peelFieldPath pr n v of
                  None \<Rightarrow> None
                | Some None \<Rightarrow> Some (b, None)
                | Some (Some (base, fs)) \<Rightarrow>
                    (if fs = [] then Some (b, None)
                     else
                       (case aliasMemoryKey pr n b base of
                          None \<Rightarrow> None
                        | Some (b, aliased) \<Rightarrow>
                            (case (case aliased of Some r \<Rightarrow> Some r | None \<Rightarrow> rootKey pr n b base) of
                               None \<Rightarrow> None
                             | Some root \<Rightarrow>
                                 (if mk_RootKind root = RootNone then Some (b, None)
                                  else (let (b, key) = fieldKey pr b root base fs
                                        in Some (b, Some key)))))))))"
| "aliasMemoryKey pr 0 b v = None"
| "aliasMemoryKey pr (Suc n) b v =
     (case map_of (bs_Aliases b) v of
        Some key \<Rightarrow> Some (b, Some key)
      | None \<Rightarrow>
          (case vnode pr v of
             NPhi edges \<Rightarrow> phiKey (memoryKey pr n) b None edges
           | NUnOp opr x \<Rightarrow>
               (if opr = ''*'' then Some (b, map_of (bs_Aliases b) x) else Some (b, None))
           | _ \<Rightarrow> Some (b, None)))"
| "containerElementKey pr 0 b v = None"
| "containerElementKey pr (Suc n) b v =
     (case (case vnode pr v of NUnOp opr x \<Rightarrow> (if opr = ''*'' then Some x else None) | _ \<Rightarrow> None) of
        Some x \<Rightarrow>
          (case memoryKey pr n b x of
             None \<Rightarrow> None
           | Some (b, None) \<Rightarrow> Some (b, None)
           | Some (b, Some key) \<Rightarrow> Some (b, Some (containerKey key)))
      | None \<Rightarrow>
          (case rootKey pr n b v of
             None \<Rightarrow> None
           | Some key \<Rightarrow>
               (if mk_RootKind key = RootNone then Some (b, None)
                else Some (b, Some (containerKey key)))))"

text \<open>\<^verbatim>\<open>argumentKey\<close> tries the address, the aliases and the root of a value in turn.\<close>

definition argumentKey :: "ssa_code \<Rightarrow> nat \<Rightarrow> accessSummaryBuilder \<Rightarrow> nat \<Rightarrow> key_run" where
  "argumentKey pr n b v =
     (case memoryKey pr n b v of
        None \<Rightarrow> None
      | Some (b, Some key) \<Rightarrow> Some (b, Some key)
      | Some (b, None) \<Rightarrow>
          (case aliasMemoryKey pr n b v of
             None \<Rightarrow> None
           | Some (b, Some key) \<Rightarrow> Some (b, Some key)
           | Some (b, None) \<Rightarrow>
               (case rootKey pr n b v of
                  None \<Rightarrow> None
                | Some key \<Rightarrow> Some (b, if mk_RootKind key \<noteq> RootNone then Some key else None))))"

primrec argumentKeys ::
  "ssa_code \<Rightarrow> nat \<Rightarrow> accessSummaryBuilder \<Rightarrow> nat list \<Rightarrow> (accessSummaryBuilder \<times> MemoryKey list) option"
where
  "argumentKeys pr n b [] = Some (b, [])"
| "argumentKeys pr n b (arg # args) =
     (case argumentKey pr n b arg of
        None \<Rightarrow> None
      | Some (b, found) \<Rightarrow>
          (let key = (case found of Some key \<Rightarrow> key
                      | None \<Rightarrow> \<lparr>mk_RootKind = RootUnknown, mk_RootID = val_name pr arg,
                                 mk_TypeName = typeKey pr arg, mk_FieldPath = []\<rparr>)
           in case argumentKeys pr n b args of
                None \<Rightarrow> None
              | Some (b, keys) \<Rightarrow> Some (b, key # keys)))"

section \<open>Recording accesses\<close>

text \<open>\<open>effects_add\<close> is \<^verbatim>\<open>m[idx] = append(m[idx], access)\<close>.\<close>

fun effects_add ::
  "nat \<Rightarrow> MemoryAccess \<Rightarrow> (nat \<times> MemoryAccess list) list \<Rightarrow> (nat \<times> MemoryAccess list) list" where
  "effects_add idx a [] = [(idx, [a])]"
| "effects_add idx a ((i, as) # m) =
     (if i = idx then (i, as @ [a]) # m else (i, as) # effects_add idx a m)"

definition with_summary ::
  "(FunctionAccessSummary \<Rightarrow> FunctionAccessSummary) \<Rightarrow> accessSummaryBuilder \<Rightarrow> accessSummaryBuilder" where
  "with_summary f b = b\<lparr>bs_Summary := f (bs_Summary b)\<rparr>"

definition addLocalAccess :: "MemoryAccess \<Rightarrow> accessSummaryBuilder \<Rightarrow> accessSummaryBuilder" where
  "addLocalAccess a = with_summary (\<lambda>s. s\<lparr>fs_LocalAccesses := fs_LocalAccesses s @ [a]\<rparr>)"

definition addAccess :: "ssa_code \<Rightarrow> accessSummaryBuilder \<Rightarrow> MemoryAccess \<Rightarrow> accessSummaryBuilder" where
  "addAccess pr b a =
     (case mk_RootKind (ma_Key a) of
        RootParam \<Rightarrow>
          (let idx = paramIndex pr (bs_Fn b) (mk_RootID (ma_Key a))
           in if 0 \<le> idx
              then with_summary (\<lambda>s. s\<lparr>fs_ParamEffects := effects_add (nat idx) a (fs_ParamEffects s)\<rparr>) b
              else addLocalAccess a b)
      | RootReceiver \<Rightarrow> with_summary (\<lambda>s. s\<lparr>fs_ReceiverEffects := fs_ReceiverEffects s @ [a]\<rparr>) b
      | RootGlobal \<Rightarrow> with_summary (\<lambda>s. s\<lparr>fs_GlobalAccesses := fs_GlobalAccesses s @ [a]\<rparr>) b
      | RootUnknown \<Rightarrow> with_summary (\<lambda>s. s\<lparr>fs_UnknownEffects := fs_UnknownEffects s @ [a]\<rparr>) b
      | _ \<Rightarrow> addLocalAccess a b)"

definition plain_access ::
  "ssa_code \<Rightarrow> accessSummaryBuilder \<Rightarrow> MemoryKey \<Rightarrow> AccessKind \<Rightarrow> string \<times> int \<Rightarrow> bool \<Rightarrow> string \<Rightarrow> MemoryAccess"
where
  "plain_access pr b key kind pos atomic reason =
     \<lparr>ma_Key = key, ma_Kind = kind, ma_Function = fn_text pr b, ma_File = fst pos, ma_Line = snd pos,
      ma_Atomic = atomic, ma_InGoroutine = False, ma_GoroutineID = '''', ma_Lockset = bs_Lockset b,
      ma_ViaCall = '''', ma_Reason = reason\<rparr>"

text \<open>A key that is found is recorded, one that is not is skipped.\<close>

definition recordKey ::
  "(accessSummaryBuilder \<Rightarrow> MemoryKey \<Rightarrow> accessSummaryBuilder) \<Rightarrow> key_run \<Rightarrow> accessSummaryBuilder option" where
  "recordKey f run =
     (case run of None \<Rightarrow> None
      | Some (b, None) \<Rightarrow> Some b
      | Some (b, Some key) \<Rightarrow> Some (f b key))"

text \<open>
  \<^verbatim>\<open>recordAliasStore\<close>: a store of a pointer to a local variable makes the variable an alias
  of the pointer's key. Its first component says whether the store was consumed.
\<close>

definition recordAliasStore ::
  "ssa_code \<Rightarrow> nat \<Rightarrow> accessSummaryBuilder \<Rightarrow> nat \<Rightarrow> nat \<Rightarrow> (accessSummaryBuilder \<times> bool) option" where
  "recordAliasStore pr n b addr v =
     (if pointerType (sg_Types pr) (val_type pr v) = None then Some (b, False)
      else if vnode pr addr \<noteq> NAlloc then Some (b, False)
      else
        (case (case memoryKey pr n b v of
                 Some (b, None) \<Rightarrow> argumentKey pr n b v
               | run \<Rightarrow> run) of
           None \<Rightarrow> None
         | Some (b, None) \<Rightarrow> Some (b, False)
         | Some (b, Some key) \<Rightarrow>
             (if maxTrackedAliasesPerFunction \<le> length (bs_Aliases b)
              then Some (capNoteOnce (''alias tracking capped at ''
                     @ Itoa (int maxTrackedAliasesPerFunction) @ '' values in '' @ fn_text pr b
                     @ ''; some accesses may be lower precision'') b, False)
              else Some (b\<lparr>bs_Aliases := AList.update addr key (bs_Aliases b)\<rparr>, True))))"

definition recordWrite ::
  "ssa_code \<Rightarrow> nat \<Rightarrow> accessSummaryBuilder \<Rightarrow> string \<times> int \<Rightarrow> nat \<Rightarrow> nat \<Rightarrow> accessSummaryBuilder option" where
  "recordWrite pr n b pos addr v =
     (case recordAliasStore pr n b addr v of
        None \<Rightarrow> None
      | Some (b, True) \<Rightarrow> Some b
      | Some (b, False) \<Rightarrow>
          recordKey (\<lambda>b key. addAccess pr b (plain_access pr b key AccessWrite pos False ''ssa store''))
            (memoryKey pr n b addr))"

definition recordRead ::
  "ssa_code \<Rightarrow> nat \<Rightarrow> accessSummaryBuilder \<Rightarrow> string \<times> int \<Rightarrow> nat \<Rightarrow> accessSummaryBuilder option" where
  "recordRead pr n b pos addr =
     recordKey (\<lambda>b key. addAccess pr b (plain_access pr b key AccessRead pos False ''ssa load''))
       (memoryKey pr n b addr)"

section \<open>Locks\<close>

definition readLockRootID :: "string \<Rightarrow> string" where
  "readLockRootID r = ''rlock:'' @ r"

definition isReadLock :: "MemoryKey \<Rightarrow> bool" where
  "isReadLock key \<longleftrightarrow> HasPrefix (mk_RootID key) ''rlock:''"

definition lockBaseRootID :: "string \<Rightarrow> string" where
  "lockBaseRootID r = TrimPrefix r ''rlock:''"

definition addLock :: "MemoryKey \<Rightarrow> accessSummaryBuilder \<Rightarrow> accessSummaryBuilder" where
  "addLock key b =
     (if list_ex (\<lambda>e. sameMemoryKey e key) (bs_Lockset b) then b
      else b\<lparr>bs_Lockset := bs_Lockset b @ [key]\<rparr>)"

definition addReadLock :: "MemoryKey \<Rightarrow> accessSummaryBuilder \<Rightarrow> accessSummaryBuilder" where
  "addReadLock key b =
     (let key = key\<lparr>mk_RootID := readLockRootID (mk_RootID key)\<rparr>
      in if list_ex (\<lambda>e. sameMemoryKey e key) (bs_Lockset b) then b
         else b\<lparr>bs_Lockset := bs_Lockset b @ [key]\<rparr>)"

fun remove_first :: "('a \<Rightarrow> bool) \<Rightarrow> 'a list \<Rightarrow> 'a list" where
  "remove_first P [] = []"
| "remove_first P (x # xs) = (if P x then xs else x # remove_first P xs)"

definition removeLock :: "MemoryKey \<Rightarrow> accessSummaryBuilder \<Rightarrow> accessSummaryBuilder" where
  "removeLock key b = b\<lparr>bs_Lockset := remove_first (\<lambda>e. sameMemoryKey e key) (bs_Lockset b)\<rparr>"

definition removeReadLock :: "MemoryKey \<Rightarrow> accessSummaryBuilder \<Rightarrow> accessSummaryBuilder" where
  "removeReadLock key b = removeLock (key\<lparr>mk_RootID := readLockRootID (mk_RootID key)\<rparr>) b"

definition lock_names :: "string list" where
  "lock_names = [''Lock'', ''Unlock'', ''RLock'', ''RUnlock'']"

definition lockCallName :: "ssa_code \<Rightarrow> ssa_common \<Rightarrow> string" where
  "lockCallName pr common =
     (case cn_Method common of
        Some m \<Rightarrow> m
      | None \<Rightarrow>
          (case cn_StaticCallee common of
             None \<Rightarrow> ''''
           | Some callee \<Rightarrow>
               (let name = sa_Name (sg_Func pr callee)
                in if name \<in> set lock_names then name
                   else
                     (let text = sa_String (sg_Func pr callee)
                      in case filter (HasSuffix text) (map (\<lambda>s. ''.'' @ s) lock_names) of
                           [] \<Rightarrow> ''''
                         | sfx # _ \<Rightarrow> TrimPrefix sfx ''.''))))"

definition applyLock :: "string \<Rightarrow> bool \<Rightarrow> accessSummaryBuilder \<Rightarrow> MemoryKey \<Rightarrow> accessSummaryBuilder" where
  "applyLock name deferred b key =
     (if name = ''Lock'' then addLock key b
      else if name = ''RLock'' then addReadLock key b
      else if name = ''Unlock'' then (if \<not> deferred then removeLock key b else b)
      else if name = ''RUnlock'' then (if \<not> deferred then removeReadLock key b else b)
      else b)"

definition recordLockCall ::
  "ssa_code \<Rightarrow> nat \<Rightarrow> accessSummaryBuilder \<Rightarrow> ssa_common \<Rightarrow> bool \<Rightarrow> (accessSummaryBuilder \<times> bool) option"
where
  "recordLockCall pr n b common deferred =
     (let name = lockCallName pr common
      in if name \<notin> set lock_names then Some (b, False)
         else
           (case cn_Args common of
              [] \<Rightarrow> Some (b, True)
            | arg # _ \<Rightarrow>
                map_option (\<lambda>b. (b, True)) (recordKey (applyLock name deferred) (memoryKey pr n b arg))))"

definition recordDefer ::
  "ssa_code \<Rightarrow> nat \<Rightarrow> accessSummaryBuilder \<Rightarrow> ssa_common \<Rightarrow> accessSummaryBuilder option" where
  "recordDefer pr n b common = map_option fst (recordLockCall pr n b common True)"

definition atomicAccessKind :: "string \<Rightarrow> AccessKind" where
  "atomicAccessKind name = (if HasPrefix name ''Load'' then AccessRead else AccessWrite)"

definition recordAtomicCall ::
  "ssa_code \<Rightarrow> nat \<Rightarrow> accessSummaryBuilder \<Rightarrow> string \<times> int \<Rightarrow> ssa_common
     \<Rightarrow> (accessSummaryBuilder \<times> bool) option"
where
  "recordAtomicCall pr n b pos common =
     (case cn_StaticCallee common of
        None \<Rightarrow> Some (b, False)
      | Some callee \<Rightarrow>
          (if \<not> Contains (sa_String (sg_Func pr callee)) ''sync/atomic.'' then Some (b, False)
           else
             (case cn_Args common of
                [] \<Rightarrow> Some (b, True)
              | arg # _ \<Rightarrow>
                  map_option (\<lambda>b. (b, True))
                    (recordKey (\<lambda>b key. addAccess pr b
                        (plain_access pr b key (atomicAccessKind (sa_Name (sg_Func pr callee))) pos True
                          ''sync/atomic call''))
                      (memoryKey pr n b arg)))))"

section \<open>Calls and goroutines\<close>

definition paramKeyByName :: "ssa_code \<Rightarrow> accessSummaryBuilder \<Rightarrow> string \<Rightarrow> MemoryKey option" where
  "paramKeyByName pr b name =
     (case filter (\<lambda>p. val_name pr p = name) (sa_Params (sg_Func pr (bs_Fn b))) of
        [] \<Rightarrow> None
      | p # _ \<Rightarrow> Some (parameterMemoryKey pr (bs_Fn b) p))"

text \<open>
  \<^verbatim>\<open>callTarget\<close>: a closure binds its captured values by name, and a captured name that got
  no key falls back to the parameter of that name.
\<close>

type_synonym bindings = "(string \<times> MemoryKey) list"

primrec bindCaptured ::
  "ssa_code \<Rightarrow> nat \<Rightarrow> accessSummaryBuilder \<Rightarrow> (nat \<times> nat) list \<Rightarrow> bindings
     \<Rightarrow> (accessSummaryBuilder \<times> bindings) option"
where
  "bindCaptured pr n b [] m = Some (b, m)"
| "bindCaptured pr n b (p # ps) m =
     (case argumentKey pr n b (fst p) of
        None \<Rightarrow> None
      | Some (b, None) \<Rightarrow> bindCaptured pr n b ps m
      | Some (b, Some key) \<Rightarrow> bindCaptured pr n b ps (AList.update (val_name pr (snd p)) key m))"

definition bindParams :: "ssa_code \<Rightarrow> accessSummaryBuilder \<Rightarrow> nat list \<Rightarrow> bindings \<Rightarrow> bindings" where
  "bindParams pr b fvs m =
     fold (\<lambda>fv m. let name = val_name pr fv
                  in if map_of m name \<noteq> None then m
                     else (case paramKeyByName pr b name of
                             None \<Rightarrow> m
                           | Some key \<Rightarrow> AList.update name key m)) fvs m"

definition callTarget ::
  "ssa_code \<Rightarrow> nat \<Rightarrow> accessSummaryBuilder \<Rightarrow> ssa_common
     \<Rightarrow> (accessSummaryBuilder \<times> nat option \<times> bindings) option"
where
  "callTarget pr n b common =
     (case (case cn_Value common of
              Some v \<Rightarrow> (case vnode pr v of NMakeClosure fn bs \<Rightarrow> Some (fn, bs) | _ \<Rightarrow> None)
            | None \<Rightarrow> None) of
        None \<Rightarrow> Some (b, cn_StaticCallee common, [])
      | Some (None, _) \<Rightarrow> Some (b, None, [])
      | Some (Some fn, bs) \<Rightarrow>
          (let fvs = sa_FreeVars (sg_Func pr fn)
           in case bindCaptured pr n b (zip bs fvs) [] of
                None \<Rightarrow> None
              | Some (b, m) \<Rightarrow> Some (b, Some fn, bindParams pr b fvs m)))"

text \<open>
  The loop shared by \<^verbatim>\<open>recordUnknownCallEffects\<close> and \<^verbatim>\<open>recordUnknownGoroutineEffects\<close>:
  every argument with a struct behind it is an unknown write. Its last component is
  \<^verbatim>\<open>added\<close>.
\<close>

primrec unknownEffects ::
  "ssa_code \<Rightarrow> nat \<Rightarrow> (accessSummaryBuilder \<Rightarrow> MemoryKey \<Rightarrow> MemoryAccess) \<Rightarrow> accessSummaryBuilder
     \<Rightarrow> nat list \<Rightarrow> bool \<Rightarrow> (accessSummaryBuilder \<times> bool) option"
where
  "unknownEffects pr n mk b [] added = Some (b, added)"
| "unknownEffects pr n mk b (arg # args) added =
     (case argumentKey pr n b arg of
        None \<Rightarrow> None
      | Some (b, None) \<Rightarrow> unknownEffects pr n mk b args added
      | Some (b, Some key) \<Rightarrow>
          (if mk_TypeName key = '''' then unknownEffects pr n mk b args added
           else
             (let a = mk b (key\<lparr>mk_RootKind := RootUnknown\<rparr>)
              in unknownEffects pr n mk
                   (with_summary (\<lambda>s. s\<lparr>fs_UnknownEffects := fs_UnknownEffects s @ [a]\<rparr>) b) args True)))"

definition unknownNote :: "ssa_code \<Rightarrow> string \<Rightarrow> ssa_common \<Rightarrow> accessSummaryBuilder \<times> bool \<Rightarrow> accessSummaryBuilder" where
  "unknownNote pr what common r =
     (let (b, added) = r
      in if added
         then addNote (''unresolved dynamic '' @ what @ '' in '' @ fn_text pr b
                @ '' collapsed shared struct arguments to unknown effects'') b
         else if cn_Value common \<noteq> None
         then addNote (''unresolved dynamic '' @ what @ '' in '' @ fn_text pr b
                @ '' has no struct arguments; receiver effects are unknown'') b
         else b)"

definition recordUnknownCallEffects ::
  "ssa_code \<Rightarrow> nat \<Rightarrow> accessSummaryBuilder \<Rightarrow> string \<times> int \<Rightarrow> ssa_common \<Rightarrow> accessSummaryBuilder option"
where
  "recordUnknownCallEffects pr n b pos common =
     map_option (unknownNote pr ''call'' common)
       (unknownEffects pr n
          (\<lambda>b key. plain_access pr b key AccessWrite pos False ''unresolved dynamic call'')
          b (cn_Args common) False)"

definition spawn_id :: "ssa_code \<Rightarrow> accessSummaryBuilder \<Rightarrow> string \<times> int \<Rightarrow> string \<Rightarrow> string" where
  "spawn_id pr b pos name = fn_text pr b @ '':'' @ Itoa (snd pos) @ ''->'' @ name"

definition recordUnknownGoroutineEffects ::
  "ssa_code \<Rightarrow> nat \<Rightarrow> accessSummaryBuilder \<Rightarrow> string \<times> int \<Rightarrow> ssa_common \<Rightarrow> string
     \<Rightarrow> accessSummaryBuilder option"
where
  "recordUnknownGoroutineEffects pr n b pos common name =
     map_option (unknownNote pr ''goroutine call'' common)
       (unknownEffects pr n
          (\<lambda>b key. (plain_access pr b key AccessWrite pos False ''unresolved dynamic goroutine call'')
                     \<lparr>ma_InGoroutine := True, ma_GoroutineID := spawn_id pr b pos name\<rparr>)
          b (cn_Args common) False)"

definition recordStaticCall ::
  "ssa_code \<Rightarrow> nat \<Rightarrow> accessSummaryBuilder \<Rightarrow> string \<times> int \<Rightarrow> ssa_common \<Rightarrow> accessSummaryBuilder option"
where
  "recordStaticCall pr n b pos common =
     (case callTarget pr n b common of
        None \<Rightarrow> None
      | Some (b, None, _) \<Rightarrow> recordUnknownCallEffects pr n b pos common
      | Some (b, Some callee, _) \<Rightarrow>
          (case argumentKeys pr n b (cn_Args common) of
             None \<Rightarrow> None
           | Some (b, args) \<Rightarrow>
               (let c = \<lparr>cs_Function = sa_String (sg_Func pr callee), cs_Callee = Some callee, cs_Args = args,
                         cs_Lockset = bs_Lockset b, cs_File = fst pos, cs_Line = snd pos\<rparr>
                in Some (with_summary (\<lambda>s. s\<lparr>fs_Calls := fs_Calls s @ [c]\<rparr>) b))))"

definition recordGoroutineSpawn ::
  "ssa_code \<Rightarrow> nat \<Rightarrow> accessSummaryBuilder \<Rightarrow> string \<times> int \<Rightarrow> ssa_common \<Rightarrow> accessSummaryBuilder option"
where
  "recordGoroutineSpawn pr n b pos common =
     (case callTarget pr n b common of
        None \<Rightarrow> None
      | Some (b, callee, binds) \<Rightarrow>
          (let name = (case callee of Some f \<Rightarrow> sa_String (sg_Func pr f) | None \<Rightarrow> cn_String common)
           in case (if callee \<noteq> None then Some b
                    else recordUnknownGoroutineEffects pr n b pos common name) of
                None \<Rightarrow> None
              | Some b \<Rightarrow>
                  (case argumentKeys pr n b (cn_Args common) of
                     None \<Rightarrow> None
                   | Some (b, args) \<Rightarrow>
                       (let g = \<lparr>gs_Function = name, gs_Callee = callee, gs_Args = args,
                                 gs_Bindings = binds, gs_ID = spawn_id pr b pos name,
                                 gs_File = fst pos, gs_Line = snd pos\<rparr>
                        in Some (with_summary (\<lambda>s. s\<lparr>fs_Spawned := fs_Spawned s @ [g]\<rparr>) b)))))"

definition recordCall ::
  "ssa_code \<Rightarrow> nat \<Rightarrow> accessSummaryBuilder \<Rightarrow> string \<times> int \<Rightarrow> ssa_common \<Rightarrow> accessSummaryBuilder option"
where
  "recordCall pr n b pos common =
     (case recordAtomicCall pr n b pos common of
        None \<Rightarrow> None
      | Some (b, True) \<Rightarrow> Some b
      | Some (b, False) \<Rightarrow>
          (case recordLockCall pr n b common False of
             None \<Rightarrow> None
           | Some (b, True) \<Rightarrow> Some b
           | Some (b, False) \<Rightarrow> recordStaticCall pr n b pos common))"

section \<open>The scan of a function\<close>

definition scanInstr ::
  "ssa_code \<Rightarrow> nat \<Rightarrow> accessSummaryBuilder \<Rightarrow> (string \<times> int) \<times> ssa_inst \<Rightarrow> accessSummaryBuilder option"
where
  "scanInstr pr n b pi =
     (let (pos, inst) = pi
      in case inst of
           IStore addr v \<Rightarrow> recordWrite pr n b pos addr v
         | IUnOp opr x \<Rightarrow> (if opr = ''*'' then recordRead pr n b pos x else Some b)
         | ICall common \<Rightarrow> recordCall pr n b pos common
         | IDefer common \<Rightarrow> recordDefer pr n b common
         | IGo common \<Rightarrow> recordGoroutineSpawn pr n b pos common
         | IOther \<Rightarrow> Some b)"

primrec scan ::
  "ssa_code \<Rightarrow> nat \<Rightarrow> accessSummaryBuilder \<Rightarrow> ((string \<times> int) \<times> ssa_inst) list \<Rightarrow> accessSummaryBuilder option"
where
  "scan pr n b [] = Some b"
| "scan pr n b (pi # rest) =
     (case scanInstr pr n b pi of None \<Rightarrow> None | Some b \<Rightarrow> scan pr n b rest)"

definition empty_summary :: "nat \<Rightarrow> FunctionAccessSummary" where
  "empty_summary fn =
     \<lparr>fs_Function = fn, fs_ParamEffects = [], fs_ReceiverEffects = [], fs_GlobalAccesses = [],
      fs_LocalAccesses = [], fs_Spawned = [], fs_Calls = [], fs_UnknownEffects = [], fs_Notes = []\<rparr>"

definition new_builder :: "nat \<Rightarrow> accessSummaryBuilder" where
  "new_builder fn =
     \<lparr>bs_Fn = fn, bs_Summary = empty_summary fn, bs_Aliases = [], bs_Lockset = [], bs_CapNote = False\<rparr>"

definition buildFunctionAccessSummary :: "ssa_code \<Rightarrow> nat \<Rightarrow> nat \<Rightarrow> FunctionAccessSummary option" where
  "buildFunctionAccessSummary pr n fn =
     map_option bs_Summary (scan pr n (new_builder fn) (concat (sa_Blocks (sg_Func pr fn))))"

text \<open>The map from functions to summaries; a function that occurs twice is computed again.\<close>

primrec summaries_of ::
  "ssa_code \<Rightarrow> nat \<Rightarrow> nat option list \<Rightarrow> (nat \<times> FunctionAccessSummary) list
     \<Rightarrow> (nat \<times> FunctionAccessSummary) list option"
where
  "summaries_of pr n [] m = Some m"
| "summaries_of pr n (f # fs) m =
     (case f of None \<Rightarrow> summaries_of pr n fs m
      | Some fn \<Rightarrow>
          (case buildFunctionAccessSummary pr n fn of
             None \<Rightarrow> None
           | Some s \<Rightarrow> summaries_of pr n fs (AList.update fn s m)))"

definition BuildFunctionAccessSummaries ::
  "ssa_code \<Rightarrow> nat \<Rightarrow> (nat \<times> FunctionAccessSummary) list option" where
  "BuildFunctionAccessSummaries pr n = summaries_of pr n (sg_SSAFuncs pr) []"

end
