(* ===== verification/Access_Summaries.thy ===== *)
theory Access_Summaries
  imports Dataflow
begin

text \<open>
  Facts about the access summaries of \<^verbatim>\<open>Dataflow\<close>. \<open>access_summaries_terminate\<close>: when no
  value refers to itself through its operands, fuel of twice the longest chain is enough,
  more fuel changes nothing, and every function gets its summary. \<open>key_phi_cycle\<close>: with
  a cycle of phi nodes no fuel is enough, and the program recurses until its stack is gone.
  \<open>access_summaries_classified\<close>: what a summary may hold.
\<close>

section \<open>Fuel\<close>

text \<open>
  The values an SSA node refers to. A program is ranked by \<open>rank\<close> when operands have a
  smaller rank, that is when the graph of values has no cycle.
\<close>

primrec operands :: "ssa_node \<Rightarrow> nat list" where
  "operands NParameter = []"
| "operands NAlloc = []"
| "operands (NGlobal pkg) = []"
| "operands NFreeVar = []"
| "operands (NUnOp opr x) = [x]"
| "operands (NFieldAddr x i) = [x]"
| "operands (NIndexAddr x) = [x]"
| "operands (NPhi edges) = edges"
| "operands (NMakeClosure f bs) = bs"
| "operands NOther = []"

definition ranked :: "ssa_code \<Rightarrow> (nat \<Rightarrow> nat) \<Rightarrow> bool" where
  "ranked pr rank \<longleftrightarrow> (\<forall>v. \<forall>x \<in> set (operands (vnode pr v)). rank x < rank v)"

lemma rankedD:
  assumes "ranked pr rank"
  shows "vnode pr v = NUnOp opr x \<Longrightarrow> rank x < rank v"
    and "vnode pr v = NFieldAddr x i \<Longrightarrow> rank x < rank v"
    and "vnode pr v = NIndexAddr x \<Longrightarrow> rank x < rank v"
    and "vnode pr v = NPhi edges \<Longrightarrow> e \<in> set edges \<Longrightarrow> rank e < rank v"
  using assms by (force simp: ranked_def dest: spec [of _ v])+

lemma peel_enough: "ranked pr rank \<Longrightarrow> rank v < n \<Longrightarrow> peelFieldPath pr n v \<noteq> None"
proof (induction n arbitrary: v)
  case (Suc n)
  show ?case
  proof (cases "vnode pr v")
    case (NFieldAddr x i)
    with Suc.prems rankedD(2) have "rank x < rank v" by blast
    then have "peelFieldPath pr n x \<noteq> None" using Suc by simp
    then show ?thesis using NFieldAddr by (auto split: option.splits)
  qed simp_all
qed simp

lemma peel_base_pointer:
  "peelFieldPath pr n v = Some (Some (base, fs))
     \<Longrightarrow> \<exists>e. pointerType (sg_Types pr) (val_type pr base) = Some (TPointer e)"
proof (induction n arbitrary: v fs)
  case (Suc n)
  then obtain x i where x: "vnode pr v = NFieldAddr x i" by (auto split: ssa_node.splits)
  then obtain name where "fieldName pr x i = Some name"
    using Suc.prems by (auto split: option.splits)
  then have "\<exists>e. pointerType (sg_Types pr) (val_type pr x) = Some (TPointer e)"
    by (auto simp: fieldName_def split: option.splits gotype.splits)
  then show ?case using Suc x by (auto split: option.splits)
qed simp

lemma peel_base_rank:
  "ranked pr rank \<Longrightarrow> peelFieldPath pr n v = Some (Some (base, fs)) \<Longrightarrow> rank base < rank v"
proof (induction n arbitrary: v fs)
  case (Suc n)
  then obtain x i where x: "vnode pr v = NFieldAddr x i" by (auto split: ssa_node.splits)
  then have "rank x < rank v" using rankedD(2) Suc.prems(1) by blast
  then show ?case using Suc x by (auto split: option.splits) (metis less_trans)
qed simp

lemma rootKey_enough: "ranked pr rank \<Longrightarrow> rank v < n \<Longrightarrow> rootKey pr n b v \<noteq> None"
proof (induction n arbitrary: v)
  case (Suc n)
  show ?case
  proof (cases "vnode pr v")
    case (NUnOp opr x)
    with Suc.prems rankedD(1) have "rank x < rank v" by blast
    then have "rootKey pr n b x \<noteq> None" using Suc by simp
    then show ?thesis using NUnOp by (simp add: Let_def)
  qed (simp_all add: Let_def split: option.splits)
qed simp

lemma phiKey_enough:
  "(\<And>b e. e \<in> set es \<Longrightarrow> mk b e \<noteq> None) \<Longrightarrow> phiKey mk b out es \<noteq> None"
proof (induction es arbitrary: b out)
  case (Cons e es)
  obtain b' k where "mk b e = Some (b', k)" using Cons.prems [of e b] by auto
  then show ?case using Cons by (auto split: option.splits)
qed simp

definition key_enough :: "ssa_code \<Rightarrow> (nat \<Rightarrow> nat) \<Rightarrow> nat \<Rightarrow> bool" where
  "key_enough pr rank n \<longleftrightarrow>
     (\<forall>b v. 2 * rank v + 2 \<le> n \<longrightarrow> memoryKey pr n b v \<noteq> None)
   \<and> (\<forall>b v. 2 * rank v + 1 \<le> n \<longrightarrow> aliasMemoryKey pr n b v \<noteq> None)
   \<and> (\<forall>b v. 2 * rank v + 2 \<le> n \<longrightarrow> containerElementKey pr n b v \<noteq> None)"

lemma alias_step:
  assumes "ranked pr rank" "key_enough pr rank n" "2 * rank v + 1 \<le> Suc n"
  shows "aliasMemoryKey pr (Suc n) b v \<noteq> None"
proof (cases "vnode pr v")
  case (NPhi edges)
  have "phiKey (memoryKey pr n) b None edges \<noteq> None"
  proof (rule phiKey_enough)
    fix b e
    assume "e \<in> set edges"
    then have "rank e < rank v" using rankedD(4) [OF assms(1) NPhi] by simp
    then show "memoryKey pr n b e \<noteq> None" using assms by (simp add: key_enough_def)
  qed
  then show ?thesis using NPhi by (simp split: option.splits)
qed (simp_all split: option.splits)

lemma container_step:
  assumes "ranked pr rank" "key_enough pr rank n" "2 * rank v + 2 \<le> Suc n"
  shows "containerElementKey pr (Suc n) b v \<noteq> None"
proof -
  have root: "rootKey pr n b v \<noteq> None" using rootKey_enough assms by simp
  have mem: "memoryKey pr n b x \<noteq> None" if "vnode pr v = NUnOp opr x" for opr x
    using rankedD(1) [OF assms(1) that] assms by (simp add: key_enough_def)
  show ?thesis using root mem by (auto split: ssa_node.splits option.splits)
qed

lemma memory_step:
  assumes "ranked pr rank" "key_enough pr rank n" "2 * rank v + 2 \<le> Suc n"
  shows "memoryKey pr (Suc n) b v \<noteq> None"
proof (cases "\<exists>x. vnode pr v = NIndexAddr x")
  case True
  then obtain x where x: "vnode pr v = NIndexAddr x" by blast
  then have "rank x < rank v" using rankedD(3) [OF assms(1)] by blast
  then show ?thesis using assms x by (simp add: key_enough_def)
next
  case False
  obtain b1 k1 where al: "aliasMemoryKey pr n b v = Some (b1, k1)"
    using assms by (fastforce simp: key_enough_def)
  obtain p where pe: "peelFieldPath pr n v = Some p"
    using peel_enough [OF assms(1), of v n] assms(3) by auto
  have rest: "aliasMemoryKey pr n b1 base \<noteq> None \<and> (\<forall>b. rootKey pr n b base \<noteq> None)"
    if "p = Some (base, fs)" for base fs
  proof -
    have "rank base < rank v" using peel_base_rank assms(1) pe that by blast
    then show ?thesis using assms rootKey_enough [OF assms(1), of base n] by (simp add: key_enough_def)
  qed
  show ?thesis
    using False al pe rest
    by (auto split: ssa_node.splits option.splits prod.splits) (metis option.distinct(1))+
qed

lemma keys_enough: "ranked pr rank \<Longrightarrow> key_enough pr rank n"
proof (induction n)
  case (Suc n)
  then show ?case
    using alias_step container_step memory_step unfolding key_enough_def [of pr rank "Suc n"] by blast
qed (simp add: key_enough_def)

text \<open>More fuel never changes a result.\<close>

definition refines :: "'a option \<Rightarrow> 'a option \<Rightarrow> bool" where
  "refines r r' \<longleftrightarrow> (\<forall>x. r = Some x \<longrightarrow> r' = Some x)"

lemma refinesD: "refines r r' \<Longrightarrow> r = Some x \<Longrightarrow> r' = Some x"
  by (simp add: refines_def)

lemma refines_refl [simp, intro]: "refines r r"
  by (simp add: refines_def)

lemma refines_trans: "refines a b \<Longrightarrow> refines b c \<Longrightarrow> refines a c"
  by (simp add: refines_def)

lemma refines_None [simp, intro]: "refines None r"
  by (simp add: refines_def)

lemma refines_bind:
  "refines r r' \<Longrightarrow> (\<And>x. refines (f x) (f' x))
     \<Longrightarrow> refines (case r of None \<Rightarrow> None | Some x \<Rightarrow> f x) (case r' of None \<Rightarrow> None | Some x \<Rightarrow> f' x)"
  by (cases r) (auto simp: refines_def)

lemma refines_map: "refines r r' \<Longrightarrow> refines (map_option f r) (map_option f r')"
  by (cases r) (auto simp: refines_def)

lemma refines_pair:
  "(\<And>x y. refines (f x y) (f' x y))
     \<Longrightarrow> refines (case p of (x, y) \<Rightarrow> f x y) (case p of (x, y) \<Rightarrow> f' x y)"
  by (cases p) simp

lemma refines_option:
  "refines a a' \<Longrightarrow> (\<And>x. refines (f x) (f' x))
     \<Longrightarrow> refines (case r of None \<Rightarrow> a | Some x \<Rightarrow> f x) (case r of None \<Rightarrow> a' | Some x \<Rightarrow> f' x)"
  by (cases r) auto

lemma refines_if: "refines a a' \<Longrightarrow> refines b b' \<Longrightarrow> refines (if c then a else b) (if c then a' else b')"
  by simp

lemma refines_bool:
  "refines a a' \<Longrightarrow> refines b b'
     \<Longrightarrow> refines (case c of True \<Rightarrow> a | False \<Rightarrow> b) (case c of True \<Rightarrow> a' | False \<Rightarrow> b')"
  by (cases c) auto

lemmas refines_intros =
  refines_bind refines_pair refines_option refines_if refines_bool refines_map refines_refl

lemma peel_more: "refines (peelFieldPath pr n v) (peelFieldPath pr (Suc n) v)"
proof (induction n arbitrary: v)
  case (Suc n)
  show ?case
  proof (cases "vnode pr v")
    case (NFieldAddr x i)
    show ?thesis
      unfolding peelFieldPath.simps(2) [of pr n] peelFieldPath.simps(2) [of pr "Suc n"]
      using Suc.IH [of x] by (simp only: NFieldAddr ssa_node.case) (rule refines_bind; simp)
  qed simp_all
qed simp

lemma rootKey_more: "refines (rootKey pr n b v) (rootKey pr (Suc n) b v)"
proof (induction n arbitrary: v)
  case (Suc n)
  show ?case
  proof (cases "vnode pr v")
    case (NUnOp opr x)
    then show ?thesis using Suc.IH [of x] by (simp add: Let_def)
  qed (simp_all add: Let_def)
qed simp

lemma phiKey_more:
  "(\<And>b e. refines (mk b e) (mk' b e)) \<Longrightarrow> refines (phiKey mk b out es) (phiKey mk' b out es)"
proof (induction es arbitrary: b out)
  case (Cons e es)
  then show ?case by (simp only: phiKey.simps) (intro refines_intros Cons; simp)
qed simp

lemma key_more:
  "refines (memoryKey pr n b v) (memoryKey pr (Suc n) b v)
   \<and> refines (aliasMemoryKey pr n b v) (aliasMemoryKey pr (Suc n) b v)
   \<and> refines (containerElementKey pr n b v) (containerElementKey pr (Suc n) b v)"
proof (induction n arbitrary: b v)
  case (Suc n)
  have mem: "refines (memoryKey pr n b v) (memoryKey pr (Suc n) b v)" for b v using Suc.IH by blast
  have ali: "refines (aliasMemoryKey pr n b v) (aliasMemoryKey pr (Suc n) b v)" for b v using Suc.IH by blast
  have con: "refines (containerElementKey pr n b v) (containerElementKey pr (Suc n) b v)" for b v
    using Suc.IH by blast
  have 1: "refines (memoryKey pr (Suc n) b v) (memoryKey pr (Suc (Suc n)) b v)"
    unfolding memoryKey.simps(2) [of pr n] memoryKey.simps(2) [of pr "Suc n"]
    by (cases "vnode pr v"; simp only: ssa_node.case)
      (intro refines_intros con ali peel_more rootKey_more)+
  have 2: "refines (aliasMemoryKey pr (Suc n) b v) (aliasMemoryKey pr (Suc (Suc n)) b v)"
    unfolding aliasMemoryKey.simps(2) [of pr n] aliasMemoryKey.simps(2) [of pr "Suc n"]
    by (cases "vnode pr v"; simp only: ssa_node.case)
      (intro refines_intros phiKey_more mem)+
  have 3: "refines (containerElementKey pr (Suc n) b v) (containerElementKey pr (Suc (Suc n)) b v)"
    unfolding containerElementKey.simps(2) [of pr n] containerElementKey.simps(2) [of pr "Suc n"]
    by (cases "vnode pr v"; simp only: ssa_node.case)
      (intro refines_intros mem rootKey_more)+
  show ?case using 1 2 3 by blast
qed simp

lemmas key_mores = key_more [THEN conjunct1] key_more [THEN conjunct2, THEN conjunct1] rootKey_more

lemma argumentKey_more: "refines (argumentKey pr n b v) (argumentKey pr (Suc n) b v)"
  unfolding argumentKey_def by (intro refines_intros key_mores)

lemma argumentKeys_more: "refines (argumentKeys pr n b args) (argumentKeys pr (Suc n) b args)"
proof (induction args arbitrary: b)
  case (Cons a args)
  show ?case
    by (simp only: argumentKeys.simps Let_def) (intro refines_intros argumentKey_more Cons)
qed simp

lemma bindCaptured_more: "refines (bindCaptured pr n b ps m) (bindCaptured pr (Suc n) b ps m)"
proof (induction ps arbitrary: b m)
  case (Cons p ps)
  show ?case
    by (simp only: bindCaptured.simps) (intro refines_intros argumentKey_more Cons)
qed simp

lemma unknownEffects_more: "refines (unknownEffects pr n mk b args added) (unknownEffects pr (Suc n) mk b args added)"
proof (induction args arbitrary: b added)
  case (Cons a args)
  show ?case
    by (simp only: unknownEffects.simps Let_def) (intro refines_intros argumentKey_more Cons)
qed simp

lemma recordKey_more: "refines r r' \<Longrightarrow> refines (recordKey f r) (recordKey f r')"
  unfolding recordKey_def by (intro refines_intros)

lemma callTarget_more: "refines (callTarget pr n b common) (callTarget pr (Suc n) b common)"
  unfolding callTarget_def Let_def by (intro refines_intros bindCaptured_more)

lemma recordAliasStore_more: "refines (recordAliasStore pr n b addr v) (recordAliasStore pr (Suc n) b addr v)"
  unfolding recordAliasStore_def by (intro refines_intros key_mores argumentKey_more)

lemma scanInstr_more: "refines (scanInstr pr n b pi) (scanInstr pr (Suc n) b pi)"
proof -
  have *: "refines (recordUnknownCallEffects pr n b pos c) (recordUnknownCallEffects pr (Suc n) b pos c)"
      "refines (recordUnknownGoroutineEffects pr n b pos c name)
               (recordUnknownGoroutineEffects pr (Suc n) b pos c name)" for b pos c name
    unfolding recordUnknownCallEffects_def recordUnknownGoroutineEffects_def
    by (intro refines_map unknownEffects_more)+
  have w: "refines (recordWrite pr n b pos a v) (recordWrite pr (Suc n) b pos a v)" for pos a v
    unfolding recordWrite_def by (intro refines_intros recordAliasStore_more recordKey_more key_mores)
  have r: "refines (recordRead pr n b pos a) (recordRead pr (Suc n) b pos a)" for pos a
    unfolding recordRead_def by (intro recordKey_more key_mores)
  have l: "refines (recordLockCall pr n b c d) (recordLockCall pr (Suc n) b c d)" for b c d
    unfolding recordLockCall_def Let_def
    by (cases "cn_Args c"; simp only: list.case) (intro refines_intros recordKey_more key_mores)+
  have a: "refines (recordAtomicCall pr n b pos c) (recordAtomicCall pr (Suc n) b pos c)" for pos c
    unfolding recordAtomicCall_def
    by (cases "cn_Args c"; simp only: list.case) (intro refines_intros recordKey_more key_mores)+
  have s: "refines (recordStaticCall pr n b pos c) (recordStaticCall pr (Suc n) b pos c)" for b pos c
    unfolding recordStaticCall_def Let_def
    by (intro refines_intros callTarget_more * argumentKeys_more)
  have c: "refines (recordCall pr n b pos c) (recordCall pr (Suc n) b pos c)" for pos c
    unfolding recordCall_def by (intro refines_intros a l s)
  have g: "refines (recordGoroutineSpawn pr n b pos c) (recordGoroutineSpawn pr (Suc n) b pos c)" for pos c
    unfolding recordGoroutineSpawn_def Let_def
    by (intro refines_intros callTarget_more * argumentKeys_more)
  have d: "refines (recordDefer pr n b c) (recordDefer pr (Suc n) b c)" for c
    unfolding recordDefer_def by (intro refines_map l)
  show ?thesis
    unfolding scanInstr_def Let_def
    by (cases pi; cases "snd pi") (simp_all add: w r c g d)
qed

lemma scan_more: "refines (scan pr n b is) (scan pr (Suc n) b is)"
proof (induction "is" arbitrary: b)
  case (Cons i "is")
  show ?case by (simp only: scan.simps) (intro refines_intros scanInstr_more Cons)
qed simp

lemma build_more:
  assumes "n \<le> m"
  shows "refines (buildFunctionAccessSummary pr n fn) (buildFunctionAccessSummary pr m fn)"
  using assms
proof (induction m rule: dec_induct)
  case (step m)
  have "refines (buildFunctionAccessSummary pr m fn) (buildFunctionAccessSummary pr (Suc m) fn)"
    unfolding buildFunctionAccessSummary_def by (intro refines_map scan_more)
  with step.IH show ?case by (rule refines_trans)
qed simp

text \<open>Enough fuel for the keys is enough for every recording step.\<close>

definition fuelled :: "ssa_code \<Rightarrow> nat \<Rightarrow> bool" where
  "fuelled pr n \<longleftrightarrow>
     (\<forall>b v. (\<exists>r. memoryKey pr n b v = Some r) \<and> (\<exists>r. aliasMemoryKey pr n b v = Some r)
          \<and> (\<exists>r. rootKey pr n b v = Some r))"

lemma ranked_fuelled:
  assumes "ranked pr rank" and "\<forall>v. rank v \<le> m"
  shows "fuelled pr (2 * m + 2)"
proof -
  have bound: "2 * rank v + 2 \<le> 2 * m + 2" "2 * rank v + 1 \<le> 2 * m + 2" "rank v < 2 * m + 2" for v
    using assms(2) [THEN spec, of v] by simp_all
  have "memoryKey pr (2 * m + 2) b v \<noteq> None" "aliasMemoryKey pr (2 * m + 2) b v \<noteq> None" for b v
    using keys_enough [OF assms(1), of "2 * m + 2"] bound(1,2) [of v] unfolding key_enough_def by blast+
  moreover have "rootKey pr (2 * m + 2) b v \<noteq> None" for b v
    using rootKey_enough [OF assms(1) bound(3)] .
  ultimately show ?thesis unfolding fuelled_def by blast
qed

lemma argumentKey_total:
  assumes "fuelled pr n"
  shows "\<exists>b' k. argumentKey pr n b v = Some (b', k)"
proof -
  obtain b1 k1 where 1: "memoryKey pr n b v = Some (b1, k1)" using assms unfolding fuelled_def by fast
  obtain b2 k2 where 2: "aliasMemoryKey pr n b1 v = Some (b2, k2)" using assms unfolding fuelled_def by fast
  obtain k3 where "rootKey pr n b2 v = Some k3" using assms unfolding fuelled_def by fast
  with 1 2 show ?thesis by (auto simp: argumentKey_def split: option.splits)
qed

lemma argumentKeys_total: "fuelled pr n \<Longrightarrow> \<exists>b' ks. argumentKeys pr n b args = Some (b', ks)"
proof (induction args arbitrary: b)
  case (Cons a args)
  obtain b1 k where 1: "argumentKey pr n b a = Some (b1, k)" using argumentKey_total Cons.prems by blast
  obtain b2 ks where "argumentKeys pr n b1 args = Some (b2, ks)" using Cons by blast
  with 1 show ?case by simp
qed simp

lemma bindCaptured_total: "fuelled pr n \<Longrightarrow> \<exists>b' m'. bindCaptured pr n b ps m = Some (b', m')"
proof (induction ps arbitrary: b m)
  case (Cons p ps)
  obtain b1 k where 1: "argumentKey pr n b (fst p) = Some (b1, k)" using argumentKey_total Cons.prems by blast
  with Cons show ?case by (cases k) simp_all
qed simp

lemma unknownEffects_total: "fuelled pr n \<Longrightarrow> \<exists>r. unknownEffects pr n mk b args added = Some r"
proof (induction args arbitrary: b added)
  case (Cons a args)
  obtain b1 k where 1: "argumentKey pr n b a = Some (b1, k)" using argumentKey_total Cons.prems by blast
  with Cons show ?case by (cases k) (simp_all add: Let_def)
qed simp

lemma recordKey_total: "r \<noteq> None \<Longrightarrow> \<exists>b'. recordKey f r = Some b'"
  by (auto simp: recordKey_def split: option.splits)

lemma callTarget_total:
  assumes "fuelled pr n"
  shows "\<exists>b' c m. callTarget pr n b common = Some (b', c, m)"
proof (cases "\<exists>v fn bs. cn_Value common = Some v \<and> vnode pr v = NMakeClosure (Some fn) bs")
  case True
  then obtain v fn bs where c: "cn_Value common = Some v" "vnode pr v = NMakeClosure (Some fn) bs" by blast
  obtain b1 m1 where "bindCaptured pr n b (zip bs (sa_FreeVars (sg_Func pr fn))) [] = Some (b1, m1)"
    using bindCaptured_total assms by blast
  with c show ?thesis by (simp add: callTarget_def Let_def)
qed (auto simp: callTarget_def split: option.splits ssa_node.splits)

lemma memoryKey_total: "fuelled pr n \<Longrightarrow> memoryKey pr n b v \<noteq> None"
  unfolding fuelled_def by (metis option.distinct(1))

lemma scanInstr_total:
  assumes "fuelled pr n"
  shows "\<exists>b'. scanInstr pr n b pi = Some b'"
proof -
  note key = recordKey_total [OF memoryKey_total [OF assms]]
  have al: "\<exists>b' r. recordAliasStore pr n b a v = Some (b', r)" for a v
  proof -
    obtain b1 k1 where "memoryKey pr n b v = Some (b1, k1)" using assms unfolding fuelled_def by fast
    moreover obtain b2 k2 where "argumentKey pr n b1 v = Some (b2, k2)" using argumentKey_total assms by blast
    ultimately show ?thesis by (cases k1; cases k2) (auto simp: recordAliasStore_def)
  qed
  have w: "\<exists>b'. recordWrite pr n b pos a v = Some b'" for pos a v
    using al [of a v] key unfolding recordWrite_def by (auto split: bool.splits)
  have r: "\<exists>b'. recordRead pr n b pos a = Some b'" for pos a
    using key unfolding recordRead_def by blast
  have l: "\<exists>b' r. recordLockCall pr n b c d = Some (b', r)" for b c d
    unfolding recordLockCall_def Let_def using key [of _ b] by (cases "cn_Args c") fastforce+
  have at: "\<exists>b' r. recordAtomicCall pr n b pos c = Some (b', r)" for pos c
    unfolding recordAtomicCall_def using key [of _ b]
    by (cases "cn_StaticCallee c"; cases "cn_Args c") fastforce+
  have u: "\<exists>b'. recordUnknownCallEffects pr n b pos c = Some b'"
      "\<exists>b'. recordUnknownGoroutineEffects pr n b pos c name = Some b'" for b pos c name
    unfolding recordUnknownCallEffects_def recordUnknownGoroutineEffects_def
    using unknownEffects_total [OF assms] by fastforce+
  have s: "\<exists>b'. recordStaticCall pr n b pos c = Some b'" for b pos c
  proof -
    obtain b1 f m where 1: "callTarget pr n b c = Some (b1, f, m)" using callTarget_total assms by blast
    obtain b2 ks where "argumentKeys pr n b1 (cn_Args c) = Some (b2, ks)" using argumentKeys_total assms by blast
    with 1 u(1) show ?thesis by (cases f) (simp_all add: recordStaticCall_def Let_def)
  qed
  have c: "\<exists>b'. recordCall pr n b pos c = Some b'" for pos c
  proof -
    obtain b1 r1 where 1: "recordAtomicCall pr n b pos c = Some (b1, r1)" using at by blast
    obtain b2 r2 where "recordLockCall pr n b1 c False = Some (b2, r2)" using l by blast
    with 1 s show ?thesis by (cases r1; cases r2) (simp_all add: recordCall_def)
  qed
  have g: "\<exists>b'. recordGoroutineSpawn pr n b pos c = Some b'" for pos c
  proof -
    obtain b1 f m where 1: "callTarget pr n b c = Some (b1, f, m)" using callTarget_total assms by blast
    obtain b2 where 2: "recordUnknownGoroutineEffects pr n b1 pos c (cn_String c) = Some b2" using u by blast
    obtain b3 k3 where 3: "argumentKeys pr n b2 (cn_Args c) = Some (b3, k3)" using argumentKeys_total assms by blast
    obtain b4 k4 where "argumentKeys pr n b1 (cn_Args c) = Some (b4, k4)" using argumentKeys_total assms by blast
    with 1 2 3 show ?thesis by (cases f) (simp_all add: recordGoroutineSpawn_def Let_def)
  qed
  have d: "\<exists>b'. recordDefer pr n b c = Some b'" for c
    using l [of b c True] by (auto simp: recordDefer_def)
  show ?thesis
    unfolding scanInstr_def Let_def by (cases pi; cases "snd pi") (simp_all add: w r c g d)
qed

lemma scan_total: "fuelled pr n \<Longrightarrow> \<exists>b'. scan pr n b is = Some b'"
proof (induction "is" arbitrary: b)
  case (Cons i "is")
  obtain b1 where "scanInstr pr n b i = Some b1" using scanInstr_total Cons.prems by blast
  with Cons show ?case by simp
qed simp

lemma build_total: "fuelled pr n \<Longrightarrow> \<exists>s. buildFunctionAccessSummary pr n fn = Some s"
  using scan_total [of pr n] by (simp add: buildFunctionAccessSummary_def)

lemma summary_terminates:
  assumes "ranked pr rank" and "\<forall>v. rank v \<le> m"
  shows "\<exists>s. \<forall>n \<ge> 2 * m + 2. buildFunctionAccessSummary pr n fn = Some s"
proof -
  obtain s where "buildFunctionAccessSummary pr (2 * m + 2) fn = Some s"
    using build_total ranked_fuelled [OF assms] by blast
  then show ?thesis using refinesD [OF build_more] by blast
qed

section \<open>What a summary holds\<close>

text \<open>
  A key that is recorded has a root and at most four fields. \<open>summary_ok\<close>: every access
  sits in the list its root calls for, the effects on a parameter under the index of that
  parameter.
\<close>

definition key_ok :: "MemoryKey \<Rightarrow> bool" where
  "key_ok k \<longleftrightarrow> mk_RootKind k \<noteq> RootNone \<and> length (mk_FieldPath k) \<le> maxTrackedFieldPathDepth"

definition access_ok :: "MemoryAccess \<Rightarrow> bool" where
  "access_ok a \<longleftrightarrow> key_ok (ma_Key a) \<and> (\<forall>l \<in> set (ma_Lockset a). key_ok l) \<and> distinct (ma_Lockset a)"

definition rooted :: "MemoryRootKind set \<Rightarrow> MemoryAccess list \<Rightarrow> bool" where
  "rooted kinds as \<longleftrightarrow> (\<forall>a \<in> set as. access_ok a \<and> mk_RootKind (ma_Key a) \<in> kinds)"

definition param_ok :: "ssa_code \<Rightarrow> nat \<Rightarrow> (nat \<times> MemoryAccess list) list \<Rightarrow> bool" where
  "param_ok pr fn m \<longleftrightarrow>
     distinct (map fst m)
     \<and> (\<forall>(i, as) \<in> set m. i < length (sa_Params (sg_Func pr fn)) \<and> rooted {RootParam} as
          \<and> (\<forall>a \<in> set as. paramIndex pr fn (mk_RootID (ma_Key a)) = int i))"

definition bindings_ok :: "bindings \<Rightarrow> bool" where
  "bindings_ok m \<longleftrightarrow> (\<forall>(x, k) \<in> set m. key_ok k)"

definition summary_ok :: "ssa_code \<Rightarrow> nat \<Rightarrow> FunctionAccessSummary \<Rightarrow> bool" where
  "summary_ok pr fn s \<longleftrightarrow>
     param_ok pr fn (fs_ParamEffects s)
     \<and> rooted {RootReceiver} (fs_ReceiverEffects s)
     \<and> rooted {RootGlobal} (fs_GlobalAccesses s)
     \<and> rooted {RootAlloc, RootFreeVar, RootParam} (fs_LocalAccesses s)
     \<and> rooted {RootUnknown} (fs_UnknownEffects s)
     \<and> (\<forall>c \<in> set (fs_Calls s). (\<forall>k \<in> set (cs_Args c). key_ok k) \<and> (\<forall>l \<in> set (cs_Lockset c). key_ok l))
     \<and> (\<forall>g \<in> set (fs_Spawned s). (\<forall>k \<in> set (gs_Args g). key_ok k) \<and> bindings_ok (gs_Bindings g))"

definition locks_ok :: "MemoryKey list \<Rightarrow> bool" where
  "locks_ok ls \<longleftrightarrow> distinct ls \<and> (\<forall>l \<in> set ls. key_ok l)"

definition aliases_ok :: "(nat \<times> MemoryKey) list \<Rightarrow> bool" where
  "aliases_ok m \<longleftrightarrow> length m \<le> maxTrackedAliasesPerFunction \<and> (\<forall>(v, k) \<in> set m. key_ok k)"

definition builder_ok :: "ssa_code \<Rightarrow> accessSummaryBuilder \<Rightarrow> bool" where
  "builder_ok pr b \<longleftrightarrow>
     summary_ok pr (bs_Fn b) (bs_Summary b) \<and> aliases_ok (bs_Aliases b) \<and> locks_ok (bs_Lockset b)"

text \<open>Looking for a key changes no more of the builder than its notes.\<close>

definition same_core :: "accessSummaryBuilder \<Rightarrow> accessSummaryBuilder \<Rightarrow> bool" where
  "same_core b b' \<longleftrightarrow>
     bs_Fn b' = bs_Fn b \<and> bs_Aliases b' = bs_Aliases b \<and> bs_Lockset b' = bs_Lockset b
     \<and> (bs_Summary b')\<lparr>fs_Notes := []\<rparr> = (bs_Summary b)\<lparr>fs_Notes := []\<rparr>"

lemma same_core_refl [simp]: "same_core b b"
  by (simp add: same_core_def)

lemma same_core_trans: "same_core a b \<Longrightarrow> same_core b c \<Longrightarrow> same_core a c"
  by (simp add: same_core_def)

lemma same_core_capNote [simp]: "same_core b (capNoteOnce n b)"
  by (simp add: same_core_def capNoteOnce_def addNote_def)

lemma summary_ok_notes: "s\<lparr>fs_Notes := []\<rparr> = t\<lparr>fs_Notes := []\<rparr> \<Longrightarrow> summary_ok pr fn s = summary_ok pr fn t"
  by (cases s; cases t) (simp add: summary_ok_def)

lemma builder_ok_core: "same_core b b' \<Longrightarrow> builder_ok pr b' = builder_ok pr b"
  by (auto simp: builder_ok_def same_core_def dest: summary_ok_notes)

definition key_found :: "accessSummaryBuilder \<Rightarrow> key_run \<Rightarrow> bool" where
  "key_found b r \<longleftrightarrow> (\<forall>b' k. r = Some (b', k) \<longrightarrow> same_core b b' \<and> (\<forall>key. k = Some key \<longrightarrow> key_ok key))"

lemma key_foundD:
  "key_found b r \<Longrightarrow> r = Some (b', k) \<Longrightarrow> same_core b b' \<and> (\<forall>key. k = Some key \<longrightarrow> key_ok key)"
  by (simp add: key_found_def)

lemma key_found_Some [simp]:
  "key_found b (Some (b', k)) \<longleftrightarrow> same_core b b' \<and> (\<forall>key. k = Some key \<longrightarrow> key_ok key)"
  "key_found b None"
  by (auto simp: key_found_def)

lemma key_found_bind:
  assumes "key_found b r"
    and "\<And>b'. same_core b b' \<Longrightarrow> key_found b (f b' None)"
    and "\<And>b' key. same_core b b' \<Longrightarrow> key_ok key \<Longrightarrow> key_found b (f b' (Some key))"
  shows "key_found b (case r of None \<Rightarrow> None | Some p \<Rightarrow> case p of (b', k) \<Rightarrow> f b' k)"
proof (cases r)
  case (Some p)
  obtain b' k where p: "p = (b', k)" by (cases p)
  show ?thesis using assms Some p by (cases k) auto
qed simp

lemma key_found_core: "same_core b b' \<Longrightarrow> key_found b' r \<Longrightarrow> key_found b r"
  using same_core_trans by (fastforce simp: key_found_def)

lemma aliases_ok_lookup: "aliases_ok m \<Longrightarrow> map_of m v = Some k \<Longrightarrow> key_ok k"
  by (auto simp: aliases_ok_def dest!: map_of_SomeD)

lemma rootKey_ok: "aliases_ok (bs_Aliases b) \<Longrightarrow> rootKey pr n b v = Some k \<Longrightarrow> key_ok k"
proof (induction n arbitrary: v)
  case (Suc n)
  then show ?case
    by (auto simp: key_ok_def parameterMemoryKey_def Let_def dest: aliases_ok_lookup
        split: ssa_node.splits if_splits option.splits)
qed simp

lemma containerKey_ok [simp]: "key_ok k \<Longrightarrow> key_ok (containerKey k)"
  by (simp add: key_ok_def containerKey_def Let_def)

lemma unknownAliasKey_ok [simp]: "key_ok (unknownAliasKey k)"
  by (simp add: key_ok_def unknownAliasKey_def)

lemma capNoteOnce_core: "same_core b b' \<Longrightarrow> same_core b (capNoteOnce n b')"
  by (rule same_core_trans [OF _ same_core_capNote])

lemma fieldKey_ok:
  "same_core b b2 \<Longrightarrow> mk_RootKind root \<noteq> RootNone
     \<Longrightarrow> key_found b (case fieldKey pr b2 root base fs of (b3, key) \<Rightarrow> Some (b3, Some key))"
  by (auto simp: fieldKey_def capKey_def key_ok_def Let_def capNoteOnce_core split: prod.splits option.splits)

lemma rootKey_core_ok:
  "same_core b b' \<Longrightarrow> aliases_ok (bs_Aliases b) \<Longrightarrow> rootKey pr n b' v = Some k \<Longrightarrow> key_ok k"
  by (rule rootKey_ok [of b']) (simp_all add: same_core_def)

lemma phiKey_ok:
  assumes "\<And>b' e. same_core b b' \<Longrightarrow> key_found b' (mk b' e)"
    and "same_core b b'" and "\<forall>key. out = Some key \<longrightarrow> key_ok key"
  shows "key_found b (phiKey mk b' out es)"
  using assms(2,3)
proof (induction es arbitrary: b' out)
  case (Cons e es)
  have "key_found b (mk b' e)" using assms(1) [OF Cons.prems(1)] Cons.prems(1) key_found_core by blast
  then show ?case
    unfolding phiKey.simps
    by (rule key_found_bind) (use Cons in \<open>auto split: option.splits\<close>)
qed simp

lemma key_ok_lookups:
  "aliases_ok (bs_Aliases b)
     \<Longrightarrow> key_found b (memoryKey pr n b v) \<and> key_found b (aliasMemoryKey pr n b v)
       \<and> key_found b (containerElementKey pr n b v)"
proof (induction n arbitrary: b v)
  case (Suc n)
  have mem: "key_found b' (memoryKey pr n b' v)" if "same_core b b'" for b' v
    using Suc that by (simp add: same_core_def)
  have ali: "key_found b' (aliasMemoryKey pr n b' v)" if "same_core b b'" for b' v
    using Suc that by (simp add: same_core_def)
  have con: "key_found b (containerElementKey pr n b v)" for v using Suc by blast
  have root: "rootKey pr n b' v = Some k \<Longrightarrow> key_ok k" if "same_core b b'" for b' v k
    by (rule rootKey_core_ok [OF that Suc.prems])
  have cont: "key_found b (containerElementKey pr (Suc n) b v)"
  proof -
    have "key_found b (case memoryKey pr n b x of None \<Rightarrow> None
        | Some (b, None) \<Rightarrow> Some (b, None)
        | Some (b, Some key) \<Rightarrow> Some (b, Some (containerKey key)))" for x
      by (rule key_found_bind [OF mem [OF same_core_refl]]) auto
    then show ?thesis using root [of b v] by (cases "vnode pr v") (auto split: option.splits)
  qed
  have aliased: "key_found b (aliasMemoryKey pr (Suc n) b v)"
  proof -
    have "key_found b (phiKey (memoryKey pr n) b None es)" for es by (rule phiKey_ok) (use mem in auto)
    then show ?thesis
      using aliases_ok_lookup [OF Suc.prems] by (auto split: option.splits ssa_node.splits)
  qed
  have field: "key_found b
      (case aliasMemoryKey pr n b1 base of None \<Rightarrow> None
       | Some (b2, aliased) \<Rightarrow>
           (case (case aliased of Some r \<Rightarrow> Some r | None \<Rightarrow> rootKey pr n b2 base) of
              None \<Rightarrow> None
            | Some root \<Rightarrow>
                (if mk_RootKind root = RootNone then Some (b2, None)
                 else (let (b3, key) = fieldKey pr b2 root base fs in Some (b3, Some key)))))"
    if "same_core b b1" for b1 base fs
    by (rule key_found_bind [OF key_found_core [OF that ali [OF that]]])
       (auto split: option.splits intro: fieldKey_ok)
  have memory: "key_found b (memoryKey pr (Suc n) b v)"
  proof (cases "\<exists>x. vnode pr v = NIndexAddr x")
    case True
    then show ?thesis using con by auto
  next
    case False
    have "key_found b
       (case aliasMemoryKey pr n b v of
             None \<Rightarrow> None
           | Some (b, Some key) \<Rightarrow> Some (b, Some key)
           | Some (b, None) \<Rightarrow>
               (case peelFieldPath pr n v of
                  None \<Rightarrow> None
                | Some None \<Rightarrow> Some (b, None)
                | Some (Some (base, fs)) \<Rightarrow>
                    (if fs = [] then Some (b, None)
                     else
                       (case aliasMemoryKey pr n b base of
                          None \<Rightarrow> None
                        | Some (b, aliased) \<Rightarrow>
                            (case (case aliased of Some r \<Rightarrow> Some r | None \<Rightarrow> rootKey pr n b base) of
                               None \<Rightarrow> None
                             | Some root \<Rightarrow>
                                 (if mk_RootKind root = RootNone then Some (b, None)
                                  else (let (b, key) = fieldKey pr b root base fs
                                        in Some (b, Some key))))))))"
      by (rule key_found_bind [OF ali [OF same_core_refl]])
         (use field in \<open>auto split: option.splits prod.splits\<close>)
    then show ?thesis
      using False unfolding memoryKey.simps(2) by (cases "vnode pr v") (simp_all only: ssa_node.case, auto)
  qed
  show ?case using memory aliased cont by blast
qed simp

lemma argumentKey_ok:
  assumes "aliases_ok (bs_Aliases b)"
  shows "key_found b (argumentKey pr n b v)"
  unfolding argumentKey_def
proof (rule key_found_bind)
  show "key_found b (memoryKey pr n b v)" using key_ok_lookups assms by blast
next
  fix b1
  assume 1: "same_core b b1"
  then have al: "aliases_ok (bs_Aliases b1)" using assms by (simp add: same_core_def)
  have "key_found b (aliasMemoryKey pr n b1 v)" using key_ok_lookups [OF al] key_found_core [OF 1] by blast
  then show "key_found b (case None of None \<Rightarrow> case aliasMemoryKey pr n b1 v of None \<Rightarrow> None
      | Some (b, None) \<Rightarrow> (case rootKey pr n b v of None \<Rightarrow> None
           | Some key \<Rightarrow> Some (b, if mk_RootKind key \<noteq> RootNone then Some key else None))
      | Some (b, Some key) \<Rightarrow> Some (b, Some key) | Some key \<Rightarrow> Some (b1, Some key))"
    unfolding option.case
    by (rule key_found_bind)
       (use assms in \<open>auto split: option.splits if_splits intro: rootKey_core_ok\<close>)
qed auto

lemma memoryKey_ok: "aliases_ok (bs_Aliases b) \<Longrightarrow> key_found b (memoryKey pr n b v)"
  using key_ok_lookups by blast

lemma builder_ok_aliases: "builder_ok pr b \<Longrightarrow> aliases_ok (bs_Aliases b)"
  by (simp add: builder_ok_def)

lemma effects_add_keys: "fst ` set (effects_add i a m) = insert i (fst ` set m)"
  by (induction i a m rule: effects_add.induct) auto

lemma effects_add_distinct: "distinct (map fst m) \<Longrightarrow> distinct (map fst (effects_add i a m))"
  by (induction i a m rule: effects_add.induct) (auto simp: effects_add_keys)

lemma effects_add_set:
  "(j, as) \<in> set (effects_add i a m)
     \<Longrightarrow> (j, as) \<in> set m \<or> j = i \<and> (as = [a] \<or> (\<exists>as'. (i, as') \<in> set m \<and> as = as' @ [a]))"
  by (induction i a m rule: effects_add.induct) (auto split: if_splits)

lemma rooted_append [simp]:
  "rooted K (as @ [a]) \<longleftrightarrow> rooted K as \<and> access_ok a \<and> mk_RootKind (ma_Key a) \<in> K"
  by (auto simp: rooted_def)

lemma rooted_Nil [simp]: "rooted K []"
  by (simp add: rooted_def)

lemma param_ok_add:
  assumes "param_ok pr fn m" "access_ok a" "mk_RootKind (ma_Key a) = RootParam"
    and "paramIndex pr fn (mk_RootID (ma_Key a)) = int i"
  shows "param_ok pr fn (effects_add i a m)"
proof -
  have "i < length (sa_Params (sg_Func pr fn))"
    using paramIndex_less [of pr fn "mk_RootID (ma_Key a)"] assms(4) by simp
  moreover have "rooted {RootParam} [a]" using assms(2,3) by (simp add: rooted_def)
  ultimately have "j < length (sa_Params (sg_Func pr fn)) \<and> rooted {RootParam} as
      \<and> (\<forall>x \<in> set as. paramIndex pr fn (mk_RootID (ma_Key x)) = int j)"
    if "(j, as) \<in> set (effects_add i a m)" for j as
    using effects_add_set [OF that] assms unfolding param_ok_def by fastforce
  then show ?thesis
    using effects_add_distinct assms(1) by (auto simp: param_ok_def)
qed

lemma addAccess_ok:
  assumes "builder_ok pr b" "access_ok a"
  shows "builder_ok pr (addAccess pr b a) \<and> bs_Fn (addAccess pr b a) = bs_Fn b"
proof (cases "mk_RootKind (ma_Key a)")
  case RootNone
  then show ?thesis using assms(2) by (simp add: access_ok_def key_ok_def)
next
  case RootParam
  then show ?thesis
    using assms param_ok_add [of pr "bs_Fn b" _ a "nat (paramIndex pr (bs_Fn b) (mk_RootID (ma_Key a)))"]
    by (simp add: addAccess_def builder_ok_def summary_ok_def with_summary_def addLocalAccess_def Let_def)
qed (use assms in \<open>simp_all add: addAccess_def builder_ok_def summary_ok_def with_summary_def addLocalAccess_def\<close>)

lemma plain_access_fields [simp]:
  "ma_Key (plain_access pr b key kind pos at why) = key"
  "ma_Lockset (plain_access pr b key kind pos at why) = bs_Lockset b"
  by (simp_all add: plain_access_def)

lemma plain_access_ok:
  assumes "builder_ok pr b" "key_ok key"
  shows "access_ok (plain_access pr b key kind pos at why)"
proof -
  have "locks_ok (bs_Lockset b)" using assms(1) by (simp only: builder_ok_def)
  then show ?thesis using assms(2) unfolding access_ok_def plain_access_def locks_ok_def by simp
qed

definition keeps :: "ssa_code \<Rightarrow> accessSummaryBuilder \<Rightarrow> accessSummaryBuilder option \<Rightarrow> bool" where
  "keeps pr b r \<longleftrightarrow> (\<forall>b'. r = Some b' \<longrightarrow> builder_ok pr b' \<and> bs_Fn b' = bs_Fn b)"

lemma keeps_Some [simp]: "keeps pr b (Some b') \<longleftrightarrow> builder_ok pr b' \<and> bs_Fn b' = bs_Fn b" "keeps pr b None"
  by (simp_all add: keeps_def)

lemma keeps_fn: "bs_Fn b' = bs_Fn b \<Longrightarrow> keeps pr b' r \<Longrightarrow> keeps pr b r"
  unfolding keeps_def by metis

lemma same_core_fn: "same_core b b' \<Longrightarrow> bs_Fn b' = bs_Fn b"
  by (simp add: same_core_def)

lemma recordKey_keeps:
  assumes "builder_ok pr b" "key_found b r"
    and "\<And>b' key. builder_ok pr b' \<Longrightarrow> key_ok key \<Longrightarrow> builder_ok pr (f b' key) \<and> bs_Fn (f b' key) = bs_Fn b'"
  shows "keeps pr b (recordKey f r)"
proof (cases r)
  case (Some p)
  obtain b' k where p: "p = (b', k)" by (cases p)
  then have c: "same_core b b'" "\<forall>key. k = Some key \<longrightarrow> key_ok key"
    using assms(2) Some by simp_all
  then show ?thesis
    using assms(3) [of b'] builder_ok_core [OF c(1)] assms(1) Some p same_core_fn [OF c(1)]
    by (cases k) (simp_all add: recordKey_def)
qed (simp add: recordKey_def)

lemma locks_ok_remove: "locks_ok ls \<Longrightarrow> locks_ok (remove_first P ls)"
proof (induction ls)
  case (Cons l ls)
  have "set (remove_first P xs) \<subseteq> set xs" for xs by (induction xs) auto
  with Cons show ?case by (auto simp: locks_ok_def)
qed (simp add: locks_ok_def)

lemma locks_ok_add: "locks_ok ls \<Longrightarrow> key_ok k \<Longrightarrow> \<not> list_ex (\<lambda>e. sameMemoryKey e k) ls \<Longrightarrow> locks_ok (ls @ [k])"
  by (auto simp: locks_ok_def list_ex_iff)

lemma key_ok_root_id [simp]: "key_ok (k\<lparr>mk_RootID := r\<rparr>) = key_ok k"
  by (simp add: key_ok_def)

lemma builder_ok_lockset:
  "builder_ok pr b \<Longrightarrow> locks_ok ls
     \<Longrightarrow> builder_ok pr (b\<lparr>bs_Lockset := ls\<rparr>) \<and> bs_Fn (b\<lparr>bs_Lockset := ls\<rparr>) = bs_Fn b"
  by (simp add: builder_ok_def)

lemma builder_ok_locks: "builder_ok pr b \<Longrightarrow> locks_ok (bs_Lockset b)"
  by (simp only: builder_ok_def)

lemma applyLock_ok:
  assumes "builder_ok pr b" "key_ok key"
  shows "builder_ok pr (applyLock name d b key) \<and> bs_Fn (applyLock name d b key) = bs_Fn b"
proof -
  note ls = builder_ok_lockset [OF assms(1)] and lk = builder_ok_locks [OF assms(1)]
  have add: "builder_ok pr (addLock k b) \<and> bs_Fn (addLock k b) = bs_Fn b" if "key_ok k" for k
    unfolding addLock_def using ls [OF locks_ok_add [OF lk that]] assms(1) by (cases "list_ex (\<lambda>e. sameMemoryKey e k) (bs_Lockset b)") simp_all
  moreover have "addReadLock key b = addLock (key\<lparr>mk_RootID := readLockRootID (mk_RootID key)\<rparr>) b"
    by (simp add: addReadLock_def addLock_def Let_def)
  moreover have rem: "builder_ok pr (removeLock k b) \<and> bs_Fn (removeLock k b) = bs_Fn b" for k
    unfolding removeLock_def by (rule ls [OF locks_ok_remove [OF lk]])
  ultimately show ?thesis
    using assms by (simp add: applyLock_def removeReadLock_def)
qed

lemma keeps_case:
  assumes "keeps pr b r" and "\<And>b'. builder_ok pr b' \<Longrightarrow> bs_Fn b' = bs_Fn b \<Longrightarrow> keeps pr b (f b')"
  shows "keeps pr b (case r of None \<Rightarrow> None | Some b' \<Rightarrow> f b')"
  using assms by (cases r) simp_all

text \<open>The same for runs that return something beside the builder.\<close>

definition keeps_with :: "('a \<Rightarrow> bool) \<Rightarrow> ssa_code \<Rightarrow> accessSummaryBuilder \<Rightarrow> (accessSummaryBuilder \<times> 'a) option \<Rightarrow> bool" where
  "keeps_with P pr b r \<longleftrightarrow> (\<forall>b' x. r = Some (b', x) \<longrightarrow> builder_ok pr b' \<and> bs_Fn b' = bs_Fn b \<and> P x)"

lemma keeps_with_Some [simp]:
  "keeps_with P pr b (Some (b', x)) \<longleftrightarrow> builder_ok pr b' \<and> bs_Fn b' = bs_Fn b \<and> P x"
  "keeps_with P pr b None"
  by (simp_all add: keeps_with_def)

lemma keeps_with_case:
  assumes "keeps_with P pr b r"
    and "\<And>b' x. builder_ok pr b' \<Longrightarrow> bs_Fn b' = bs_Fn b \<Longrightarrow> P x \<Longrightarrow> keeps pr b (f b' x)"
  shows "keeps pr b (case r of None \<Rightarrow> None | Some p \<Rightarrow> case p of (b', x) \<Rightarrow> f b' x)"
  using assms by (cases r) auto

lemma keeps_with_case2:
  assumes "keeps_with P pr b r"
    and "\<And>b' x. builder_ok pr b' \<Longrightarrow> bs_Fn b' = bs_Fn b \<Longrightarrow> P x \<Longrightarrow> keeps_with Q pr b (f b' x)"
  shows "keeps_with Q pr b (case r of None \<Rightarrow> None | Some p \<Rightarrow> case p of (b', x) \<Rightarrow> f b' x)"
  using assms by (cases r) auto

lemma keeps_with_fn: "bs_Fn b' = bs_Fn b \<Longrightarrow> keeps_with P pr b' r \<Longrightarrow> keeps_with P pr b r"
  unfolding keeps_with_def by metis

lemma keeps_with_map: "keeps pr b r \<Longrightarrow> P x \<Longrightarrow> keeps_with P pr b (map_option (\<lambda>b. (b, x)) r)"
  by (cases r) simp_all

abbreviation key_ok_opt :: "MemoryKey option \<Rightarrow> bool" where
  "key_ok_opt k \<equiv> \<forall>key. k = Some key \<longrightarrow> key_ok key"

lemma key_found_keeps:
  assumes "builder_ok pr b" "key_found b r"
  shows "keeps_with key_ok_opt pr b r"
proof (cases r)
  case (Some p)
  obtain b' k where p: "p = (b', k)" by (cases p)
  then have c: "same_core b b'" "key_ok_opt k" using assms(2) Some by simp_all
  show ?thesis
    unfolding Some p keeps_with_Some
    using builder_ok_core [OF c(1)] same_core_fn [OF c(1)] assms(1) c(2) by blast
qed simp

lemma memoryKey_keeps: "builder_ok pr b \<Longrightarrow> keeps_with key_ok_opt pr b (memoryKey pr n b v)"
  by (rule key_found_keeps [OF _ memoryKey_ok [OF builder_ok_aliases]])

lemma argumentKey_keeps: "builder_ok pr b \<Longrightarrow> keeps_with key_ok_opt pr b (argumentKey pr n b v)"
  by (rule key_found_keeps [OF _ argumentKey_ok [OF builder_ok_aliases]])

lemma argumentKeys_keeps:
  "builder_ok pr b \<Longrightarrow> keeps_with (\<lambda>ks. \<forall>k \<in> set ks. key_ok k) pr b (argumentKeys pr n b args)"
proof (induction args arbitrary: b)
  case (Cons a args)
  have unknown: "key_ok \<lparr>mk_RootKind = RootUnknown, mk_RootID = i, mk_TypeName = t, mk_FieldPath = []\<rparr>" for i t
    by (simp add: key_ok_def)
  show ?case
    unfolding argumentKeys.simps
  proof (rule keeps_with_case2 [OF argumentKey_keeps [OF Cons.prems]])
    fix b1 k
    assume b1: "builder_ok pr b1" "bs_Fn b1 = bs_Fn b" "key_ok_opt k"
    show "keeps_with (\<lambda>ks. \<forall>k \<in> set ks. key_ok k) pr b
       (let key = case k of Some key \<Rightarrow> key
              | None \<Rightarrow> \<lparr>mk_RootKind = RootUnknown, mk_RootID = val_name pr a, mk_TypeName = typeKey pr a, mk_FieldPath = []\<rparr>
        in case argumentKeys pr n b1 args of None \<Rightarrow> None | Some (b, keys) \<Rightarrow> Some (b, key # keys))"
      unfolding Let_def
      by (rule keeps_with_case2 [OF keeps_with_fn [OF b1(2) Cons.IH [OF b1(1)]]])
         (use b1(3) unknown in \<open>auto split: option.splits\<close>)
  qed
qed simp

lemma bindings_ok_Nil [simp]: "bindings_ok []"
  by (simp add: bindings_ok_def)

lemma bindings_ok_update: "bindings_ok m \<Longrightarrow> key_ok key \<Longrightarrow> bindings_ok (AList.update y key m)"
  unfolding bindings_ok_def by (induction m) auto

lemma bindCaptured_keeps:
  "builder_ok pr b \<Longrightarrow> bindings_ok m \<Longrightarrow> keeps_with bindings_ok pr b (bindCaptured pr n b ps m)"
proof (induction ps arbitrary: b m)
  case (Cons p ps)
  show ?case
    unfolding bindCaptured.simps
  proof (rule keeps_with_case2 [OF argumentKey_keeps [OF Cons.prems(1)]])
    fix b1 k
    assume b1: "builder_ok pr b1" "bs_Fn b1 = bs_Fn b" "key_ok_opt k"
    show "keeps_with bindings_ok pr b
       (case k of None \<Rightarrow> bindCaptured pr n b1 ps m
        | Some key \<Rightarrow> bindCaptured pr n b1 ps (AList.update (val_name pr (snd p)) key m))"
      by (rule keeps_with_fn [OF b1(2)])
         (use Cons.IH [OF b1(1)] Cons.prems(2) bindings_ok_update b1(3) in \<open>auto split: option.splits\<close>)
  qed
qed simp

lemma parameterMemoryKey_ok [simp]: "key_ok (parameterMemoryKey pr fn p)"
  by (simp add: parameterMemoryKey_def key_ok_def Let_def)

lemma bindParams_ok: "bindings_ok m \<Longrightarrow> bindings_ok (bindParams pr b fvs m)"
  unfolding bindParams_def
proof (induction fvs arbitrary: m)
  case (Cons fv fvs)
  have "key_ok_opt (paramKeyByName pr b name)" for name
    by (auto simp: paramKeyByName_def split: list.splits)
  then show ?case
    using Cons by (auto simp: Let_def bindings_ok_update split: option.splits)
qed simp

lemma callTarget_keeps:
  assumes "builder_ok pr b"
  shows "keeps_with (\<lambda>(c, m). bindings_ok m) pr b (callTarget pr n b common)"
proof -
  have "builder_ok pr b1 \<and> bs_Fn b1 = bs_Fn b \<and> bindings_ok m"
    if "bindCaptured pr n b ps [] = Some (b1, m)" for ps b1 m
    using bindCaptured_keeps [OF assms bindings_ok_Nil, of n ps] that by simp
  then show ?thesis
    unfolding callTarget_def Let_def
    using assms by (auto simp: bindParams_ok split: option.splits ssa_node.splits)
qed

lemma unknownEffects_keeps:
  assumes "\<And>b key. builder_ok pr b \<Longrightarrow> key_ok key \<Longrightarrow> access_ok (mk b key) \<and> ma_Key (mk b key) = key"
  shows "builder_ok pr b \<Longrightarrow> keeps_with (\<lambda>_. True) pr b (unknownEffects pr n mk b args added)"
proof (induction args arbitrary: b added)
  case (Cons a args)
  show ?case
    unfolding unknownEffects.simps
  proof (rule keeps_with_case2 [OF argumentKey_keeps [OF Cons.prems]])
    fix b1 k
    assume b1: "builder_ok pr b1" "bs_Fn b1 = bs_Fn b" "key_ok_opt k"
    note IH = keeps_with_fn [OF b1(2) Cons.IH [OF b1(1)]]
    show "keeps_with (\<lambda>_. True) pr b
       (case k of None \<Rightarrow> unknownEffects pr n mk b1 args added
        | Some key \<Rightarrow>
            if mk_TypeName key = [] then unknownEffects pr n mk b1 args added
            else let a = mk b1 (key\<lparr>mk_RootKind := RootUnknown\<rparr>)
                 in unknownEffects pr n mk
                     (with_summary (\<lambda>s. s\<lparr>fs_UnknownEffects := fs_UnknownEffects s @ [a]\<rparr>) b1) args True)"
    proof (cases k)
      case (Some key)
      define x where "x = mk b1 (key\<lparr>mk_RootKind := RootUnknown\<rparr>)"
      have "key_ok (key\<lparr>mk_RootKind := RootUnknown\<rparr>)" using b1(3) Some by (simp add: key_ok_def)
      then have "access_ok x" "mk_RootKind (ma_Key x) = RootUnknown"
        using assms b1(1) by (simp_all add: x_def)
      then have "builder_ok pr (with_summary (\<lambda>s. s\<lparr>fs_UnknownEffects := fs_UnknownEffects s @ [x]\<rparr>) b1)"
        using b1(1) by (simp add: builder_ok_def summary_ok_def with_summary_def)
      then have "keeps_with (\<lambda>_. True) pr b (unknownEffects pr n mk
          (with_summary (\<lambda>s. s\<lparr>fs_UnknownEffects := fs_UnknownEffects s @ [x]\<rparr>) b1) args True)"
        by (rule keeps_with_fn [OF _ Cons.IH, rotated]) (simp add: with_summary_def b1(2))
      with IH Some show ?thesis by (simp add: x_def Let_def)
    qed (use IH in simp)
  qed
qed simp

lemma unknownNote_ok:
  "builder_ok pr b
     \<Longrightarrow> builder_ok pr (unknownNote pr what common (b, r)) \<and> bs_Fn (unknownNote pr what common (b, r)) = bs_Fn b"
  by (simp add: unknownNote_def addNote_def builder_ok_def summary_ok_def)

lemma keeps_map:
  assumes "keeps_with P pr b r"
    and "\<And>b' x. builder_ok pr b' \<Longrightarrow> builder_ok pr (f (b', x)) \<and> bs_Fn (f (b', x)) = bs_Fn b'"
  shows "keeps pr b (map_option f r)"
  using assms by (cases r) auto

lemma access_ok_goroutine [simp]:
  "access_ok (a\<lparr>ma_InGoroutine := i, ma_GoroutineID := g\<rparr>) = access_ok a"
  by (simp add: access_ok_def)

lemma recordUnknownCallEffects_keeps: "builder_ok pr b \<Longrightarrow> keeps pr b (recordUnknownCallEffects pr n b pos c)"
  unfolding recordUnknownCallEffects_def
  by (rule keeps_map [OF unknownEffects_keeps unknownNote_ok]) (simp_all add: plain_access_ok)

lemma recordUnknownGoroutineEffects_keeps:
  "builder_ok pr b \<Longrightarrow> keeps pr b (recordUnknownGoroutineEffects pr n b pos c name)"
  unfolding recordUnknownGoroutineEffects_def
  by (rule keeps_map [OF unknownEffects_keeps unknownNote_ok]) (simp_all add: plain_access_ok)

lemma add_call_ok:
  "builder_ok pr b \<Longrightarrow> \<forall>k \<in> set (cs_Args c). key_ok k \<Longrightarrow> cs_Lockset c = bs_Lockset b
     \<Longrightarrow> keeps pr b (Some (with_summary (\<lambda>s. s\<lparr>fs_Calls := fs_Calls s @ [c]\<rparr>) b))"
  by (auto simp: builder_ok_def summary_ok_def with_summary_def locks_ok_def)

lemma add_spawn_ok:
  "builder_ok pr b \<Longrightarrow> \<forall>k \<in> set (gs_Args g). key_ok k \<Longrightarrow> bindings_ok (gs_Bindings g)
     \<Longrightarrow> keeps pr b (Some (with_summary (\<lambda>s. s\<lparr>fs_Spawned := fs_Spawned s @ [g]\<rparr>) b))"
  by (auto simp: builder_ok_def summary_ok_def with_summary_def)

lemma recordStaticCall_keeps:
  assumes "builder_ok pr b"
  shows "keeps pr b (recordStaticCall pr n b pos c)"
  unfolding recordStaticCall_def
proof (rule keeps_with_case [OF callTarget_keeps [OF assms]])
  fix b1 and x :: "nat option \<times> bindings"
  assume b1: "builder_ok pr b1" "bs_Fn b1 = bs_Fn b"
  show "keeps pr b (case x of (callee, _) \<Rightarrow> (case callee of
          None \<Rightarrow> recordUnknownCallEffects pr n b1 pos c
        | Some callee \<Rightarrow> (case argumentKeys pr n b1 (cn_Args c) of None \<Rightarrow> None
          | Some (b, args) \<Rightarrow> (let c = \<lparr>cs_Function = sa_String (sg_Func pr callee), cs_Callee = Some callee, cs_Args = args,
                         cs_Lockset = bs_Lockset b, cs_File = fst pos, cs_Line = snd pos\<rparr>
                in Some (with_summary (\<lambda>s. s\<lparr>fs_Calls := fs_Calls s @ [c]\<rparr>) b)))))"
  proof (cases "fst x")
    case None
    then show ?thesis
      using keeps_fn [OF b1(2) recordUnknownCallEffects_keeps [OF b1(1)]] by (simp add: split_beta)
  next
    case (Some callee)
    show ?thesis
      unfolding split_beta Some option.case Let_def
    proof (rule keeps_fn [OF b1(2)], rule keeps_with_case [OF argumentKeys_keeps [OF b1(1)], unfolded split_beta])
      fix b2 args
      assume b2: "builder_ok pr b2" "bs_Fn b2 = bs_Fn b1" "\<forall>k \<in> set args. key_ok k"
      show "keeps pr b1 (Some (with_summary (\<lambda>s. s\<lparr>fs_Calls := fs_Calls s
          @ [\<lparr>cs_Function = sa_String (sg_Func pr callee), cs_Callee = Some callee, cs_Args = args,
               cs_Lockset = bs_Lockset b2, cs_File = fst pos, cs_Line = snd pos\<rparr>]\<rparr>) b2))"
        by (rule keeps_fn [OF b2(2) add_call_ok]) (simp_all add: b2)
    qed
  qed
qed

lemma recordGoroutineSpawn_keeps:
  assumes "builder_ok pr b"
  shows "keeps pr b (recordGoroutineSpawn pr n b pos c)"
  unfolding recordGoroutineSpawn_def
proof (rule keeps_with_case [OF callTarget_keeps [OF assms]])
  fix b1 and x :: "nat option \<times> bindings"
  assume b1: "builder_ok pr b1" "bs_Fn b1 = bs_Fn b" and m: "case x of (c, m) \<Rightarrow> bindings_ok m"
  define name where "name = (case fst x of Some f \<Rightarrow> sa_String (sg_Func pr f) | None \<Rightarrow> cn_String c)"
  have start: "keeps pr b (if fst x \<noteq> None then Some b1 else recordUnknownGoroutineEffects pr n b1 pos c name)"
    using keeps_fn [OF b1(2) recordUnknownGoroutineEffects_keeps [OF b1(1)]] b1 by simp
  have step: "keeps pr b (case argumentKeys pr n b2 (cn_Args c) of None \<Rightarrow> None
      | Some p \<Rightarrow> (case p of (b3, args) \<Rightarrow> Some (with_summary (\<lambda>s. s\<lparr>fs_Spawned := fs_Spawned s
          @ [\<lparr>gs_Function = name, gs_Callee = fst x, gs_Args = args, gs_Bindings = snd x,
               gs_ID = spawn_id pr b3 pos name, gs_File = fst pos, gs_Line = snd pos\<rparr>]\<rparr>) b3)))"
    if b2: "builder_ok pr b2" "bs_Fn b2 = bs_Fn b" for b2
  proof (rule keeps_fn [OF b2(2)], rule keeps_with_case [OF argumentKeys_keeps [OF b2(1)]])
    fix b3 args
    assume b3: "builder_ok pr b3" "bs_Fn b3 = bs_Fn b2" "\<forall>k \<in> set args. key_ok k"
    show "keeps pr b2 (Some (with_summary (\<lambda>s. s\<lparr>fs_Spawned := fs_Spawned s
          @ [\<lparr>gs_Function = name, gs_Callee = fst x, gs_Args = args, gs_Bindings = snd x,
               gs_ID = spawn_id pr b3 pos name, gs_File = fst pos, gs_Line = snd pos\<rparr>]\<rparr>) b3))"
      by (rule keeps_fn [OF b3(2) add_spawn_ok]) (use b3 m in \<open>simp_all add: split_beta\<close>)
  qed
  show "keeps pr b (case x of (callee, binds) \<Rightarrow>
      let name = case callee of None \<Rightarrow> cn_String c | Some f \<Rightarrow> sa_String (sg_Func pr f)
      in (case if callee \<noteq> None then Some b1 else recordUnknownGoroutineEffects pr n b1 pos c name of
           None \<Rightarrow> None
         | Some b \<Rightarrow> (case argumentKeys pr n b (cn_Args c) of None \<Rightarrow> None
             | Some (b, args) \<Rightarrow>
                 let g = \<lparr>gs_Function = name, gs_Callee = callee, gs_Args = args, gs_Bindings = binds,
                          gs_ID = spawn_id pr b pos name, gs_File = fst pos, gs_Line = snd pos\<rparr>
                 in Some (with_summary (\<lambda>s. s\<lparr>fs_Spawned := fs_Spawned s @ [g]\<rparr>) b))))"
    unfolding split_beta [of _ x] Let_def name_def [symmetric]
    by (rule keeps_case [OF start step])
qed

lemma builder_ok_capNote [simp]: "builder_ok pr (capNoteOnce t b) = builder_ok pr b"
  by (rule builder_ok_core) simp

lemma capNoteOnce_Fn [simp]: "bs_Fn (capNoteOnce t b) = bs_Fn b"
  by (rule same_core_fn) simp

lemma aliases_ok_update:
  "aliases_ok m \<Longrightarrow> length m < maxTrackedAliasesPerFunction \<Longrightarrow> key_ok key \<Longrightarrow> aliases_ok (AList.update a key m)"
proof -
  have *: "length (AList.update a key m) \<le> Suc (length m)" by (induction m) auto
  have "set (AList.update a key m) \<subseteq> insert (a, key) (set m)" by (induction m) auto
  then show "aliases_ok m \<Longrightarrow> length m < maxTrackedAliasesPerFunction \<Longrightarrow> key_ok key
      \<Longrightarrow> aliases_ok (AList.update a key m)"
    using * by (auto simp: aliases_ok_def)
qed

lemma recordAliasStore_keeps:
  assumes "builder_ok pr b"
  shows "keeps_with (\<lambda>_. True) pr b (recordAliasStore pr n b addr v)"
proof -
  have "keeps_with key_ok_opt pr b
      (case memoryKey pr n b v of Some (b, None) \<Rightarrow> argumentKey pr n b v | run \<Rightarrow> run)"
  proof (cases "memoryKey pr n b v")
    case (Some p)
    obtain b1 k where p: "p = (b1, k)" by (cases p)
    then have b1: "builder_ok pr b1" "bs_Fn b1 = bs_Fn b" "key_ok_opt k"
      using memoryKey_keeps [OF assms, of n v] Some by simp_all
    show ?thesis
      using keeps_with_fn [OF b1(2) argumentKey_keeps [OF b1(1)]] b1 Some p by (cases k) simp_all
  qed simp
  note found = this
  have upd: "builder_ok pr (b1\<lparr>bs_Aliases := AList.update addr key (bs_Aliases b1)\<rparr>)"
    if "builder_ok pr b1" "key_ok key" "\<not> maxTrackedAliasesPerFunction \<le> length (bs_Aliases b1)" for b1 key
    using that aliases_ok_update by (simp add: builder_ok_def)
  show ?thesis
  proof (cases "pointerType (sg_Types pr) (val_type pr v) = None \<or> vnode pr addr \<noteq> NAlloc")
    case True
    then show ?thesis using assms by (auto simp: recordAliasStore_def)
  next
    case False
    then have F: "pointerType (sg_Types pr) (val_type pr v) \<noteq> None" "\<not> vnode pr addr \<noteq> NAlloc" by auto
    show ?thesis
      unfolding recordAliasStore_def if_not_P [OF F(1)] if_not_P [OF F(2)]
      by (rule keeps_with_case2 [OF found]) (auto simp: upd split: option.splits)
  qed
qed

lemma scanInstr_keeps:
  assumes "builder_ok pr b"
  shows "keeps pr b (scanInstr pr n b pi)"
proof -
  have key: "keeps pr b (recordKey f (memoryKey pr n b v))"
    if "builder_ok pr b"
      "\<And>b' key. builder_ok pr b' \<Longrightarrow> key_ok key \<Longrightarrow> builder_ok pr (f b' key) \<and> bs_Fn (f b' key) = bs_Fn b'"
    for b f v
    by (rule recordKey_keeps [OF that(1) memoryKey_ok [OF builder_ok_aliases [OF that(1)]]]) (rule that(2))
  have acc: "builder_ok pr (addAccess pr b' (plain_access pr b' k kind pos at why))
      \<and> bs_Fn (addAccess pr b' (plain_access pr b' k kind pos at why)) = bs_Fn b'"
    if "builder_ok pr b'" "key_ok k" for b' k kind pos at why
    by (rule addAccess_ok [OF that(1) plain_access_ok [OF that]])
  have w: "keeps pr b (recordWrite pr n b pos a v)" for pos a v
    unfolding recordWrite_def
  proof (rule keeps_with_case [OF recordAliasStore_keeps [OF assms]])
    fix b1 r
    assume b1: "builder_ok pr b1" "bs_Fn b1 = bs_Fn b"
    show "keeps pr b (case r of True \<Rightarrow> Some b1 | False \<Rightarrow>
        recordKey (\<lambda>b key. addAccess pr b (plain_access pr b key AccessWrite pos False ''ssa store''))
            (memoryKey pr n b1 a))"
      using keeps_fn [OF b1(2) key [OF b1(1) acc]] b1 by (cases r) simp_all
  qed
  have r: "keeps pr b (recordRead pr n b pos a)" for pos a
    unfolding recordRead_def by (rule key [OF assms acc])
  have lk: "keeps_with (\<lambda>_. True) pr b
      (map_option (\<lambda>b. (b, True)) (recordKey (applyLock name d) (memoryKey pr n b v)))"
    if "builder_ok pr b" for b name d v
    by (rule keeps_with_map [OF key [OF that]]) (simp_all add: applyLock_ok)
  have l: "keeps_with (\<lambda>_. True) pr b (recordLockCall pr n b c d)" if "builder_ok pr b" for b c d
    unfolding recordLockCall_def Let_def by (cases "cn_Args c") (use that lk [OF that] in auto)
  have ta: "keeps_with (\<lambda>_. True) pr b
      (map_option (\<lambda>b. (b, True)) (recordKey
         (\<lambda>b key. addAccess pr b (plain_access pr b key kind pos at why)) (memoryKey pr n b v)))"
    for kind pos at why v
    by (rule keeps_with_map [OF key [OF assms]]) (simp_all add: acc)
  have t: "keeps_with (\<lambda>_. True) pr b (recordAtomicCall pr n b pos c)" for pos c
    unfolding recordAtomicCall_def
    by (cases "cn_Args c") (use assms ta in \<open>auto split: option.splits\<close>)
  have c: "keeps pr b (recordCall pr n b pos c)" for pos c
    unfolding recordCall_def
  proof (rule keeps_with_case [OF t])
    fix b1 r1
    assume b1: "builder_ok pr b1" "bs_Fn b1 = bs_Fn b"
    have "keeps pr b1 (case recordLockCall pr n b1 c False of None \<Rightarrow> None
        | Some (b, True) \<Rightarrow> Some b | Some (b, False) \<Rightarrow> recordStaticCall pr n b pos c)"
    proof (rule keeps_with_case [OF l [OF b1(1)]])
      fix b2 r2
      assume b2: "builder_ok pr b2" "bs_Fn b2 = bs_Fn b1"
      show "keeps pr b1 (case r2 of True \<Rightarrow> Some b2 | False \<Rightarrow> recordStaticCall pr n b2 pos c)"
        using keeps_fn [OF b2(2) recordStaticCall_keeps [OF b2(1)]] b2 by (cases r2) simp_all
    qed
    from keeps_fn [OF b1(2) this] show "keeps pr b (case r1 of True \<Rightarrow> Some b1 | False \<Rightarrow>
        (case recordLockCall pr n b1 c False of None \<Rightarrow> None
         | Some (b, True) \<Rightarrow> Some b | Some (b, False) \<Rightarrow> recordStaticCall pr n b pos c))"
      using b1 by (cases r1) simp_all
  qed
  have d: "keeps pr b (recordDefer pr n b c)" for c
    using l [OF assms, of c True] by (cases "recordLockCall pr n b c True") (auto simp: recordDefer_def)
  show ?thesis
    unfolding scanInstr_def Let_def
    by (cases pi; cases "snd pi") (simp_all add: assms w r c d recordGoroutineSpawn_keeps)
qed

lemma scan_keeps: "builder_ok pr b \<Longrightarrow> keeps pr b (scan pr n b is)"
proof (induction "is" arbitrary: b)
  case (Cons i "is")
  show ?case
    unfolding scan.simps
    by (rule keeps_case [OF scanInstr_keeps [OF Cons.prems]]) (rule keeps_fn [OF _ Cons.IH])
qed simp

lemma new_builder_ok: "builder_ok pr (new_builder fn)"
  by (simp add: new_builder_def empty_summary_def builder_ok_def summary_ok_def param_ok_def
      aliases_ok_def locks_ok_def)

lemma build_ok:
  assumes "buildFunctionAccessSummary pr n fn = Some s"
  shows "summary_ok pr fn s"
proof -
  obtain b where b: "scan pr n (new_builder fn) (concat (sa_Blocks (sg_Func pr fn))) = Some b" "s = bs_Summary b"
    using assms by (auto simp: buildFunctionAccessSummary_def)
  have "builder_ok pr b" "bs_Fn b = fn"
    using scan_keeps [OF new_builder_ok, of pr fn n "concat (sa_Blocks (sg_Func pr fn))"] b(1)
    by (simp_all add: new_builder_def)
  then show ?thesis using b(2) by (simp add: builder_ok_def)
qed

section \<open>A sample program\<close>

text \<open>
  \<^verbatim>\<open>type S struct { a int; items []int }\<close>, a function \<^verbatim>\<open>F(p *S)\<close> that starts
  \<^verbatim>\<open>go G(p)\<close> and writes \<^verbatim>\<open>p.a\<close>, and \<^verbatim>\<open>G(q *S)\<close> that writes \<^verbatim>\<open>q.a\<close>.
\<close>

definition sample_types :: type_env where
  "sample_types =
     \<lparr>ty_Name = (\<lambda>_. ''S''),
      ty_Under = (\<lambda>_. TStruct [(''a'', TBasic ''int''), (''items'', TSlice (TBasic ''int''))]),
      ty_Alias = (\<lambda>_. TBasic ''int''), ty_String = (\<lambda>_. ''T'')\<rparr>"

definition sample_value :: "nat \<Rightarrow> ssa_val" where
  "sample_value v =
     (if v = 0 then \<lparr>vl_Node = NParameter, vl_Name = ''p'', vl_Type = TPointer (TNamed 0)\<rparr>
      else if v = 1 then \<lparr>vl_Node = NFieldAddr 0 0, vl_Name = ''t0'', vl_Type = TPointer (TBasic ''int'')\<rparr>
      else if v = 2 then \<lparr>vl_Node = NParameter, vl_Name = ''q'', vl_Type = TPointer (TNamed 0)\<rparr>
      else if v = 3 then \<lparr>vl_Node = NFieldAddr 2 0, vl_Name = ''t1'', vl_Type = TPointer (TBasic ''int'')\<rparr>
      else \<lparr>vl_Node = NOther, vl_Name = ''1'', vl_Type = TBasic ''int''\<rparr>)"

definition sample_go :: ssa_common where
  "sample_go = \<lparr>cn_Value = None, cn_Method = None, cn_StaticCallee = Some 1, cn_Args = [0], cn_String = ''G(p)''\<rparr>"

definition sample_code_func :: "nat \<Rightarrow> ssa_function" where
  "sample_code_func f =
     (if f = 0
      then \<lparr>sa_String = ''m.F'', sa_Name = ''F'', sa_Params = [0], sa_FreeVars = [], sa_HasRecv = False,
            sa_Parent = None, sa_Blocks = [[((''f.go'', 4), IGo sample_go), ((''f.go'', 5), IStore 1 4)]]\<rparr>
      else \<lparr>sa_String = ''m.G'', sa_Name = ''G'', sa_Params = [2], sa_FreeVars = [], sa_HasRecv = False,
            sa_Parent = None, sa_Blocks = [[((''f.go'', 9), IStore 3 4)]]\<rparr>)"

definition sample_ssa :: ssa_code where
  "sample_ssa = \<lparr>sg_Func = sample_code_func, sg_Val = sample_value, sg_Types = sample_types,
                 sg_SSAFuncs = [Some 0, None, Some 1]\<rparr>"

definition sample_rank :: "nat \<Rightarrow> nat" where
  "sample_rank v = (if v = 1 \<or> v = 3 then 1 else 0)"

lemma sample_ranked: "ranked sample_ssa sample_rank" "\<forall>v. sample_rank v \<le> 1"
  by (simp_all add: ranked_def sample_rank_def sample_ssa_def sample_value_def)

section \<open>The map of summaries\<close>

lemma summaries_of_some:
  assumes "\<And>fn. \<exists>s. buildFunctionAccessSummary pr n fn = Some s"
  shows "\<exists>m'. summaries_of pr n fs m = Some m'
    \<and> (\<forall>fn. map_of m' fn = (if Some fn \<in> set fs then buildFunctionAccessSummary pr n fn else map_of m fn))"
proof (induction fs arbitrary: m)
  case (Cons f fs)
  show ?case
  proof (cases f)
    case (Some fn)
    obtain s where s: "buildFunctionAccessSummary pr n fn = Some s" using assms by blast
    obtain m' where "summaries_of pr n fs (AList.update fn s m) = Some m'"
      "\<forall>g. map_of m' g = (if Some g \<in> set fs then buildFunctionAccessSummary pr n g
                          else map_of (AList.update fn s m) g)"
      using Cons.IH by blast
    with Some s show ?thesis by (auto simp: update_conv)
  qed (use Cons.IH in simp)
qed simp

lemma summaries_map:
  "BuildFunctionAccessSummaries pr n = Some m \<Longrightarrow> map_of m fn = Some s
     \<Longrightarrow> buildFunctionAccessSummary pr n fn = Some s"
proof -
  have "summaries_of pr n fs m0 = Some m \<Longrightarrow> map_of m fn = Some s
      \<Longrightarrow> buildFunctionAccessSummary pr n fn = Some s \<or> map_of m0 fn = Some s" for fs m0
  proof (induction fs arbitrary: m0)
    case (Cons f fs)
    show ?case
    proof (cases f)
      case (Some g)
      then obtain t where t: "buildFunctionAccessSummary pr n g = Some t"
        "summaries_of pr n fs (AList.update g t m0) = Some m"
        using Cons.prems(1) by (auto split: option.splits)
      from Cons.IH [OF t(2) Cons.prems(2)] t(1) show ?thesis
        by (auto simp: update_conv split: if_splits)
    qed (use Cons in simp)
  qed simp
  then show "BuildFunctionAccessSummaries pr n = Some m \<Longrightarrow> map_of m fn = Some s \<Longrightarrow> ?thesis"
    unfolding BuildFunctionAccessSummaries_def by fastforce
qed

text \<open>
  C37: Building the access summaries ends on every program whose values do not refer to
  themselves: when \<open>rank\<close> decreases from a value to its operands and is at most \<open>m\<close>,
  fuel of \<^verbatim>\<open>2 * m + 2\<close> gives a summary for exactly the functions of the program, and any
  more fuel gives the same summaries.
\<close>

theorem access_summaries_terminate:
  assumes "ranked pr rank" and "\<forall>v. rank v \<le> m"
  shows "\<exists>summary. \<forall>n \<ge> 2 * m + 2. \<exists>built. BuildFunctionAccessSummaries pr n = Some built
           \<and> (\<forall>fn. map_of built fn = (if Some fn \<in> set (sg_SSAFuncs pr) then Some (summary fn) else None))"
proof -
  have "\<exists>s. \<forall>n \<ge> 2 * m + 2. buildFunctionAccessSummary pr n fn = Some s" for fn
    by (rule summary_terminates [OF assms])
  then obtain summary where s: "\<forall>fn. \<forall>n \<ge> 2 * m + 2. buildFunctionAccessSummary pr n fn = Some (summary fn)"
    by metis
  have "\<exists>built. BuildFunctionAccessSummaries pr n = Some built
           \<and> (\<forall>fn. map_of built fn = (if Some fn \<in> set (sg_SSAFuncs pr) then Some (summary fn) else None))"
    if "n \<ge> 2 * m + 2" for n
  proof -
    have "\<exists>s. buildFunctionAccessSummary pr n fn = Some s" for fn using s that by blast
    then obtain built where "BuildFunctionAccessSummaries pr n = Some built"
      "\<forall>fn. map_of built fn =
         (if Some fn \<in> set (sg_SSAFuncs pr) then buildFunctionAccessSummary pr n fn else None)"
      using summaries_of_some [of pr n "sg_SSAFuncs pr" "[]"]
      unfolding BuildFunctionAccessSummaries_def map_of.simps by blast
    with s that show ?thesis by auto
  qed
  then show ?thesis by blast
qed

theorem access_summaries_terminate_witness:
  "\<exists>summary. \<forall>n \<ge> 4. \<exists>built. BuildFunctionAccessSummaries sample_ssa n = Some built
     \<and> (\<forall>fn. map_of built fn = (if Some fn \<in> set (sg_SSAFuncs sample_ssa) then Some (summary fn) else None))"
  using access_summaries_terminate [OF sample_ranked] by simp

text \<open>
  What a summary holds: the effects on a parameter stand under the index of that
  parameter, effects on the receiver, on globals, on local memory and on memory that could
  not be resolved in their own lists; every recorded key has a root and at most four fields,
  and no lock occurs twice among the locks of an access.
\<close>

theorem access_summaries_classified:
  assumes "BuildFunctionAccessSummaries pr n = Some built" and "map_of built fn = Some s"
  shows "summary_ok pr fn s"
  by (rule build_ok [OF summaries_map [OF assms]])

lemma sample_built:
  "BuildFunctionAccessSummaries sample_ssa 4 =
     Some [(0, (empty_summary 0)
        \<lparr>fs_ParamEffects := [(0, [\<lparr>ma_Key = \<lparr>mk_RootKind = RootParam, mk_RootID = ''m.F|param|0|p'', mk_TypeName = ''S'',
             mk_FieldPath = [''a'']\<rparr>, ma_Kind = AccessWrite, ma_Function = ''m.F'', ma_File = ''f.go'', ma_Line = 5,
             ma_Atomic = False, ma_InGoroutine = False, ma_GoroutineID = '''', ma_Lockset = [], ma_ViaCall = '''',
             ma_Reason = ''ssa store''\<rparr>])],
         fs_Spawned := [\<lparr>gs_Function = ''m.G'', gs_Callee = Some 1, gs_Args = [\<lparr>mk_RootKind = RootParam,
             mk_RootID = ''m.F|param|0|p'', mk_TypeName = ''S'', mk_FieldPath = []\<rparr>], gs_Bindings = [],
             gs_ID = ''m.F:4->m.G'', gs_File = ''f.go'', gs_Line = 4\<rparr>]\<rparr>),
       (1, (empty_summary 1)
        \<lparr>fs_ParamEffects := [(0, [\<lparr>ma_Key = \<lparr>mk_RootKind = RootParam, mk_RootID = ''m.G|param|0|q'', mk_TypeName = ''S'',
             mk_FieldPath = [''a'']\<rparr>, ma_Kind = AccessWrite, ma_Function = ''m.G'', ma_File = ''f.go'', ma_Line = 9,
             ma_Atomic = False, ma_InGoroutine = False, ma_GoroutineID = '''', ma_Lockset = [], ma_ViaCall = '''',
             ma_Reason = ''ssa store''\<rparr>])]\<rparr>)]"
  by code_simp

theorem access_summaries_classified_witness:
  "summary_ok sample_ssa 0 (the (buildFunctionAccessSummary sample_ssa 4 0))"
proof -
  obtain built where b: "BuildFunctionAccessSummaries sample_ssa 4 = Some built" using sample_built by blast
  obtain s where s: "map_of built 0 = Some s" using b by (auto simp: sample_built)
  have "buildFunctionAccessSummary sample_ssa 4 0 = Some s" by (rule summaries_map [OF b s])
  then show ?thesis using access_summaries_classified [OF b s] by simp
qed

section \<open>Cycles of phi nodes\<close>

text \<open>
  \<^verbatim>\<open>p := &s.a; for c { if d { p = &s.a } }; *p = 1\<close> gives two phi nodes that refer to each
  other: the loop's (value 6) and the branch's (value 7). No fuel is enough to find the
  key of the store.
\<close>

definition cyclic_value :: "nat \<Rightarrow> ssa_val" where
  "cyclic_value v =
     (if v = 6 then \<lparr>vl_Node = NPhi [1, 7], vl_Name = ''t6'', vl_Type = TPointer (TBasic ''int'')\<rparr>
      else if v = 7 then \<lparr>vl_Node = NPhi [6, 1], vl_Name = ''t7'', vl_Type = TPointer (TBasic ''int'')\<rparr>
      else sample_value v)"

definition cyclic_ssa :: ssa_code where
  "cyclic_ssa = sample_ssa\<lparr>sg_Val := cyclic_value,
     sg_Func := sample_code_func(0 := (sample_code_func 0)\<lparr>sa_Blocks := [[((''f.go'', 7), IStore 6 4)]]\<rparr>)\<rparr>"

lemma cyclic_nodes [simp]:
  "vnode cyclic_ssa 6 = NPhi [1, 7]" "vnode cyclic_ssa 7 = NPhi [6, 1]" "vnode cyclic_ssa 0 = NParameter"
  "vnode cyclic_ssa (Suc 0) = NFieldAddr 0 0"
  by (simp_all add: cyclic_ssa_def cyclic_value_def sample_value_def)

lemma cyclic_field: "fieldName cyclic_ssa 0 0 = Some ''a''"
  by code_simp

lemma cyclic_edge:
  assumes "bs_Aliases b = []"
  shows "memoryKey cyclic_ssa n b (Suc 0) = None \<or> (\<exists>key. memoryKey cyclic_ssa n b (Suc 0) = Some (b, Some key))"
proof -
  have short: "capKey cyclic_ssa b (k\<lparr>mk_FieldPath := [x]\<rparr>) = (b, k\<lparr>mk_FieldPath := [x]\<rparr>)" for k x
    by (simp add: capKey_def maxTrackedFieldPathDepth_def)
  have param: "mk_FieldPath (parameterMemoryKey cyclic_ssa f v) = []"
      "mk_RootKind (parameterMemoryKey cyclic_ssa f v) \<noteq> RootNone" for f v
    by (simp_all add: parameterMemoryKey_def Let_def)
  consider "n = 0" | "n = 1" | "n = 2" | m where "n = Suc (Suc (Suc m))"
    by (metis One_nat_def Suc_1 not0_implies_Suc)
  then show ?thesis
  proof cases
    case 4
    show ?thesis
      using assms by (simp add: 4 cyclic_field fieldKey_def short param Let_def split: option.splits)
  qed (use assms in \<open>simp_all add: numeral_2_eq_2\<close>)
qed

lemma key_phi_cycle:
  "bs_Aliases b = [] \<Longrightarrow>
     memoryKey cyclic_ssa n b 6 = None \<and> aliasMemoryKey cyclic_ssa n b 6 = None
   \<and> memoryKey cyclic_ssa n b 7 = None \<and> aliasMemoryKey cyclic_ssa n b 7 = None"
proof (induction n)
  case (Suc n)
  then have "phiKey (memoryKey cyclic_ssa n) b None [1, 7] = None"
    "phiKey (memoryKey cyclic_ssa n) b None [6, 1] = None"
    using cyclic_edge [of b n] by auto
  then show ?case using Suc by simp
qed simp

theorem build_phi_cycle: "BuildFunctionAccessSummaries cyclic_ssa n = None"
proof -
  have "scan cyclic_ssa n (new_builder 0) (concat (sa_Blocks (sg_Func cyclic_ssa 0))) = None"
    using key_phi_cycle [of "new_builder 0" n]
    by (simp add: cyclic_ssa_def cyclic_value_def sample_value_def sample_ssa_def sample_types_def
        scanInstr_def recordWrite_def recordAliasStore_def pointerType_def recordKey_def new_builder_def)
  then have "buildFunctionAccessSummary cyclic_ssa n 0 = None"
    by (simp add: buildFunctionAccessSummary_def)
  then show ?thesis
    by (simp add: BuildFunctionAccessSummaries_def cyclic_ssa_def sample_ssa_def)
qed

end
