(* ===== verification/Concurrency.thy ===== *)
theory Concurrency
  imports Access_Summaries Import_Graph Call_Graph
begin

text \<open>
  The expansion of access summaries along calls and goroutines (\<^verbatim>\<open>analyzer/dataflow.go\<close>)
  and the concurrency risks found in the expanded accesses (\<^verbatim>\<open>analyzer/concurrency.go\<close>).
  A nil map of bindings is the empty association list. The loaded program is a parameter;
  the fuel of the summaries is passed on, a run out of fuel is \<open>None\<close>.
\<close>

section \<open>Substitution of arguments\<close>

definition normalizedMemoryRootID :: "string \<Rightarrow> string" where
  "normalizedMemoryRootID rootID =
     fold (\<lambda>p r. TrimPrefix r p) [''container:'', ''ambiguous:'', ''field-depth:'', ''dynamic:''] rootID"

definition substituteRoot :: "MemoryKey \<Rightarrow> MemoryKey \<Rightarrow> MemoryKey" where
  "substituteRoot key replacement =
     \<lparr>mk_RootKind = mk_RootKind replacement, mk_RootID = mk_RootID replacement,
      mk_TypeName = (if mk_TypeName replacement \<noteq> '''' then mk_TypeName replacement else mk_TypeName key),
      mk_FieldPath = mk_FieldPath replacement @ mk_FieldPath key\<rparr>"

text \<open>The arguments of the caller, looked up by the index of a parameter.\<close>

definition arg_at :: "MemoryKey list \<Rightarrow> int \<Rightarrow> MemoryKey option" where
  "arg_at args idx = (if 0 \<le> idx \<and> idx < int (length args) then Some (args ! nat idx) else None)"

definition substitute_with :: "MemoryKey \<Rightarrow> MemoryKey option \<Rightarrow> MemoryKey" where
  "substitute_with key r = (case r of Some replacement \<Rightarrow> substituteRoot key replacement | None \<Rightarrow> key)"

definition substituteArgs ::
  "ssa_code \<Rightarrow> nat \<Rightarrow> MemoryKey list \<Rightarrow> MemoryKey list \<Rightarrow> bindings \<Rightarrow> MemoryKey list" where
  "substituteArgs pr fn callArgs args binds =
     map (\<lambda>k. case mk_RootKind k of
            RootFreeVar \<Rightarrow> substitute_with k (map_of binds (mk_RootID k))
          | RootParam \<Rightarrow> substitute_with k (arg_at args (paramIndex pr fn (mk_RootID k)))
          | RootReceiver \<Rightarrow> substitute_with k (arg_at args (paramIndex pr fn (mk_RootID k)))
          | _ \<Rightarrow> k) callArgs"

definition substituteLockset ::
  "ssa_code \<Rightarrow> nat \<Rightarrow> MemoryKey list \<Rightarrow> MemoryKey list \<Rightarrow> bindings \<Rightarrow> MemoryKey list" where
  "substituteLockset pr fn lockset args binds =
     map (\<lambda>k. let lookup = lockBaseRootID (mk_RootID k);
                 k' = (case mk_RootKind k of
                         RootParam \<Rightarrow> substitute_with k (arg_at args (paramIndex pr fn lookup))
                       | RootReceiver \<Rightarrow> substitute_with k (arg_at args (paramIndex pr fn lookup))
                       | RootFreeVar \<Rightarrow> substitute_with k (map_of binds lookup)
                       | _ \<Rightarrow> k)
             in if isReadLock k then k'\<lparr>mk_RootID := readLockRootID (lockBaseRootID (mk_RootID k'))\<rparr> else k')
       lockset"

definition mergeLocksets :: "MemoryKey list \<Rightarrow> MemoryKey list \<Rightarrow> MemoryKey list" where
  "mergeLocksets base extra =
     fold (\<lambda>key out. if list_ex (\<lambda>e. sameMemoryKey e key) out then out else out @ [key]) extra base"

section \<open>Expansion along calls\<close>

definition default_gid :: "string \<Rightarrow> MemoryAccess \<Rightarrow> MemoryAccess" where
  "default_gid gid a = (if ma_GoroutineID a = '''' then a\<lparr>ma_GoroutineID := gid\<rparr> else a)"

definition expand_param ::
  "ssa_code \<Rightarrow> nat \<Rightarrow> MemoryKey list \<Rightarrow> bindings \<Rightarrow> string \<Rightarrow> MemoryKey \<Rightarrow> MemoryAccess \<Rightarrow> MemoryAccess" where
  "expand_param pr fn args binds gid arg a =
     default_gid gid (a\<lparr>ma_Key := substituteRoot (ma_Key a) arg,
                        ma_Lockset := substituteLockset pr fn (ma_Lockset a) args binds\<rparr>)"

definition expand_local ::
  "ssa_code \<Rightarrow> nat \<Rightarrow> MemoryKey list \<Rightarrow> bindings \<Rightarrow> string \<Rightarrow> MemoryAccess \<Rightarrow> MemoryAccess" where
  "expand_local pr fn args binds gid a =
     (let k = ma_Key a;
          k' = (if mk_RootKind k = RootFreeVar then substitute_with k (map_of binds (mk_RootID k)) else k)
      in default_gid gid (a\<lparr>ma_Key := k', ma_Lockset := substituteLockset pr fn (ma_Lockset a) args binds\<rparr>))"

definition expand_unknown ::
  "ssa_code \<Rightarrow> nat \<Rightarrow> MemoryKey list \<Rightarrow> bindings \<Rightarrow> string \<Rightarrow> MemoryAccess \<Rightarrow> MemoryAccess" where
  "expand_unknown pr fn args binds gid a =
     (let k = ma_Key a;
          k' = (case mk_RootKind k of
                  RootFreeVar \<Rightarrow> substitute_with k (map_of binds (mk_RootID k))
                | RootUnknown \<Rightarrow>
                    (case map_of binds (normalizedMemoryRootID (mk_RootID k)) of
                       None \<Rightarrow> k
                     | Some r \<Rightarrow> k\<lparr>mk_RootID := mk_RootID r,
                                 mk_TypeName := (if mk_TypeName k = '''' then mk_TypeName r else mk_TypeName k)\<rparr>)
                | _ \<Rightarrow> k)
      in default_gid gid (a\<lparr>ma_Key := k', ma_Lockset := substituteLockset pr fn (ma_Lockset a) args binds\<rparr>))"

text \<open>The accesses of one function, without those of the functions it calls.\<close>

definition expand_own ::
  "ssa_code \<Rightarrow> nat \<Rightarrow> FunctionAccessSummary \<Rightarrow> MemoryKey list \<Rightarrow> bindings \<Rightarrow> string \<Rightarrow> MemoryAccess list" where
  "expand_own pr fn s args binds gid =
     concat (map (\<lambda>(idx, effects). if length args \<le> idx then []
                                   else map (expand_param pr fn args binds gid (args ! idx)) effects)
               (fs_ParamEffects s))
     @ (if args = [] then [] else map (expand_param pr fn args binds gid (args ! 0)) (fs_ReceiverEffects s))
     @ map (default_gid gid) (fs_GlobalAccesses s)
     @ map (expand_local pr fn args binds gid) (fs_LocalAccesses s)
     @ map (expand_unknown pr fn args binds gid) (fs_UnknownEffects s)"

type_synonym summaries = "(nat \<times> FunctionAccessSummary) list"

function expandFunctionAccesses ::
  "ssa_code \<Rightarrow> summaries \<Rightarrow> nat option \<Rightarrow> MemoryKey list \<Rightarrow> bindings \<Rightarrow> int \<Rightarrow> string \<Rightarrow> MemoryAccess list"
where
  "expandFunctionAccesses pr ss fn args binds depth gid =
     (case fn of
        None \<Rightarrow> []
      | Some f \<Rightarrow>
          (if depth < 0 then []
           else
             (case map_of ss f of
                None \<Rightarrow> []
              | Some s \<Rightarrow>
                  expand_own pr f s args binds gid
                  @ concat (map (\<lambda>c.
                      (let locks = substituteLockset pr f (cs_Lockset c) args binds
                       in map (\<lambda>a. a\<lparr>ma_ViaCall := cs_Function c, ma_Lockset := mergeLocksets (ma_Lockset a) locks\<rparr>)
                            (expandFunctionAccesses pr ss (cs_Callee c)
                               (substituteArgs pr f (cs_Args c) args binds) [] (depth - 1) gid)))
                    (fs_Calls s)))))"
  by pat_completeness auto
termination by (relation "measure (\<lambda>(pr, ss, fn, args, binds, depth, gid). nat (depth + 1))") auto

declare expandFunctionAccesses.simps [simp del]

section \<open>All concurrent accesses of a program\<close>

definition safeFunctionString :: "ssa_code \<Rightarrow> nat option \<Rightarrow> string" where
  "safeFunctionString pr fn = (case fn of None \<Rightarrow> '''' | Some f \<Rightarrow> sa_String (sg_Func pr f))"

text \<open>\<^verbatim>\<open>appendAccesses\<close>: the accesses so far and whether some were omitted.\<close>

definition appendAccesses :: "MemoryAccess list \<times> bool \<Rightarrow> MemoryAccess list \<Rightarrow> MemoryAccess list \<times> bool" where
  "appendAccesses st accs =
     (let (accesses, truncated) = st
      in if accs = [] then (accesses, truncated)
         else if maxExpandedConcurrencyAccesses \<le> length accesses then (accesses, True)
         else
           (let remaining = maxExpandedConcurrencyAccesses - length accesses
            in if remaining < length accs then (accesses @ take remaining accs, True)
               else (accesses @ accs, truncated)))"

definition clear_parent :: "string \<Rightarrow> MemoryAccess \<Rightarrow> MemoryAccess" where
  "clear_parent parentID a = (if ma_GoroutineID a = parentID then a\<lparr>ma_GoroutineID := ''''\<rparr> else a)"

definition spawn_accesses :: "ssa_code \<Rightarrow> summaries \<Rightarrow> GoroutineSpawnSummary \<Rightarrow> MemoryAccess list" where
  "spawn_accesses pr ss g =
     map (\<lambda>a. a\<lparr>ma_InGoroutine := True, ma_GoroutineID := gs_ID g\<rparr>)
       (expandFunctionAccesses pr ss (gs_Callee g) (gs_Args g) (gs_Bindings g) 3 (gs_ID g))"

definition parent_id :: "ssa_code \<Rightarrow> nat \<Rightarrow> string" where
  "parent_id pr f = ''parent:'' @ safeFunctionString pr (Some f)"

definition parent_accesses :: "ssa_code \<Rightarrow> summaries \<Rightarrow> nat \<Rightarrow> MemoryAccess list" where
  "parent_accesses pr ss f =
     expandFunctionAccesses pr ss (Some f) (rootArgsForFunction pr (Some f)) [] 3 (parent_id pr f)"

definition expandRoot ::
  "ssa_code \<Rightarrow> summaries \<Rightarrow> nat option \<Rightarrow> MemoryAccess list \<times> bool \<Rightarrow> MemoryAccess list \<times> bool" where
  "expandRoot pr ss fn st =
     (case fn of
        None \<Rightarrow> st
      | Some f \<Rightarrow>
          (if sa_Parent (sg_Func pr f) \<noteq> None then st
           else
             (case map_of ss f of
                None \<Rightarrow> st
              | Some s \<Rightarrow>
                  (let st = appendAccesses st (parent_accesses pr ss f);
                       st = (map (clear_parent (parent_id pr f)) (fst st), snd st)
                   in fold (\<lambda>g st. if gs_Callee g = None then st else appendAccesses st (spawn_accesses pr ss g))
                        (fs_Spawned s) st))))"

definition cap_note :: string where
  "cap_note = ''concurrency access expansion capped at '' @ Itoa (int maxExpandedConcurrencyAccesses)
     @ '' accesses; results after the cap were omitted''"

definition ExpandConcurrentAccessesWithNotes ::
  "ssa_code \<Rightarrow> summaries \<Rightarrow> MemoryAccess list \<times> string list" where
  "ExpandConcurrentAccessesWithNotes pr ss =
     (let (accesses, truncated) = fold (expandRoot pr ss) (sg_SSAFuncs pr) ([], False)
      in (accesses, if truncated then [cap_note] else []))"

definition ExpandConcurrentAccesses :: "ssa_code \<Rightarrow> summaries \<Rightarrow> MemoryAccess list" where
  "ExpandConcurrentAccesses pr ss = fst (ExpandConcurrentAccessesWithNotes pr ss)"

section \<open>Risks\<close>

record ConcurrencyRisk =
  ck_RiskLevel :: string
  ck_Struct :: string
  ck_Field :: string
  ck_Function :: string
  ck_File :: string
  ck_Line :: int
  ck_Reasoning :: string
  ck_Anchor :: string

record ConcurrencyRiskSummary =
  cy_TotalRisks :: nat
  cy_UnresolvedDynamicCalls :: nat
  cy_UnknownEffects :: nat

record ConcurrencyRiskResult =
  cz_Risks :: "ConcurrencyRisk list"
  cz_Summary :: ConcurrencyRiskSummary
  cz_Notes :: "string list"

definition isSharedGoroutineAccess :: "MemoryAccess \<Rightarrow> bool" where
  "isSharedGoroutineAccess a \<longleftrightarrow>
     (if mk_RootKind (ma_Key a) = RootUnknown \<and> length (mk_FieldPath (ma_Key a)) = 0 then False
      else mk_RootKind (ma_Key a) \<in> {RootParam, RootReceiver, RootFreeVar, RootGlobal, RootUnknown})"

definition hasRelevantLock :: "MemoryAccess \<Rightarrow> bool" where
  "hasRelevantLock a \<longleftrightarrow>
     list_ex (\<lambda>l. \<not> isReadLock l \<and> mk_RootKind l = mk_RootKind (ma_Key a) \<and> mk_RootID l = mk_RootID (ma_Key a))
       (ma_Lockset a)"

definition mayRunConcurrently :: "MemoryAccess \<Rightarrow> MemoryAccess \<Rightarrow> bool" where
  "mayRunConcurrently a b \<longleftrightarrow>
     (if ma_GoroutineID a = '''' \<and> ma_GoroutineID b = '''' then False
      else if ma_GoroutineID a \<noteq> '''' \<and> ma_GoroutineID b \<noteq> '''' \<and> ma_GoroutineID a = ma_GoroutineID b then False
      else True)"

fun fieldPathsOverlap :: "string list \<Rightarrow> string list \<Rightarrow> bool" where
  "fieldPathsOverlap (x # xs) (y # ys) = (x = y \<and> fieldPathsOverlap xs ys)"
| "fieldPathsOverlap _ _ = True"

definition relatedMemoryRoots :: "MemoryKey \<Rightarrow> MemoryKey \<Rightarrow> bool" where
  "relatedMemoryRoots a b \<longleftrightarrow>
     (if mk_RootKind a = mk_RootKind b \<and> mk_RootID a = mk_RootID b then True
      else (let l = normalizedMemoryRootID (mk_RootID a); r = normalizedMemoryRootID (mk_RootID b)
            in l \<noteq> '''' \<and> l = r))"

definition sameOrUnknownMemory :: "MemoryKey \<Rightarrow> MemoryKey \<Rightarrow> bool" where
  "sameOrUnknownMemory a b \<longleftrightarrow>
     (if sameMemoryKey a b then True
      else if mk_RootKind a = RootUnknown \<or> mk_RootKind b = RootUnknown then
        (if mk_TypeName a \<noteq> '''' \<and> mk_TypeName b \<noteq> '''' \<and> mk_TypeName a \<noteq> mk_TypeName b then False
         else relatedMemoryRoots a b \<and> fieldPathsOverlap (mk_FieldPath a) (mk_FieldPath b))
      else False)"

definition lockModesProtect :: "AccessKind \<Rightarrow> MemoryKey \<Rightarrow> AccessKind \<Rightarrow> MemoryKey \<Rightarrow> bool" where
  "lockModesProtect lk ll rk rl \<longleftrightarrow>
     (if lk = AccessWrite \<and> isReadLock ll then False
      else if rk = AccessWrite \<and> isReadLock rl then False
      else True)"

definition sameLockKey :: "MemoryKey \<Rightarrow> MemoryKey \<Rightarrow> bool" where
  "sameLockKey a b \<longleftrightarrow>
     sameMemoryKey (a\<lparr>mk_RootID := lockBaseRootID (mk_RootID a)\<rparr>) (b\<lparr>mk_RootID := lockBaseRootID (mk_RootID b)\<rparr>)"

definition locksetsProtect :: "MemoryAccess \<Rightarrow> MemoryAccess \<Rightarrow> bool" where
  "locksetsProtect a b \<longleftrightarrow>
     list_ex (\<lambda>l. list_ex (\<lambda>r. sameLockKey l r \<and> lockModesProtect (ma_Kind a) l (ma_Kind b) r) (ma_Lockset b))
       (ma_Lockset a)"

definition accessRisk :: "MemoryAccess \<Rightarrow> MemoryAccess \<Rightarrow> ConcurrencyRisk" where
  "accessRisk a other =
     (let ak = ma_Key a; bk = ma_Key other;
          level = (if mk_RootKind ak = RootUnknown \<or> mk_RootKind bk = RootUnknown then ''Medium'' else ''High'');
          level = (if sameMemoryKey ak bk \<and> mk_RootKind ak \<noteq> RootUnknown then ''High'' else level);
          field = (if mk_FieldPath ak \<noteq> [] then last (mk_FieldPath ak)
                   else if mk_FieldPath bk \<noteq> [] then last (mk_FieldPath bk) else '''');
          structName = (if mk_TypeName ak = '''' then mk_TypeName bk else mk_TypeName ak);
          reason = ''Field '' @ structName @ ''.'' @ field
            @ '' is accessed in a goroutine or concurrent context without a common lockset: ''
            @ kind_text (ma_Kind a) @ '' at '' @ ma_File a @ '':'' @ Itoa (ma_Line a) @ '' and ''
            @ kind_text (ma_Kind other) @ '' at '' @ ma_File other @ '':'' @ Itoa (ma_Line other) @ ''.''
      in \<lparr>ck_RiskLevel = level, ck_Struct = structName, ck_Field = field, ck_Function = ma_Function a,
          ck_File = ma_File a, ck_Line = ma_Line a, ck_Reasoning = reason,
          ck_Anchor = contextAnchor (ma_File a) (ma_Line a) (shortFuncName (ma_Function a))\<rparr>)"

definition riskKey :: "ConcurrencyRisk \<Rightarrow> string" where
  "riskKey r = ck_File r @ '':'' @ Itoa (ck_Line r) @ '':'' @ ck_RiskLevel r @ '':'' @ ck_Struct r @ '':'' @ ck_Field r"

text \<open>
  \<^verbatim>\<open>risksFromAccesses\<close>: the unlocked writes of goroutines, then the conflicting pairs in
  the order of the two nested loops, both through the same map \<^verbatim>\<open>seen\<close>.
\<close>

definition unlockedWrite :: "MemoryAccess \<Rightarrow> bool" where
  "unlockedWrite a \<longleftrightarrow>
     ma_InGoroutine a \<and> ma_Kind a = AccessWrite \<and> \<not> ma_Atomic a \<and> \<not> hasRelevantLock a \<and> isSharedGoroutineAccess a"

definition conflict :: "MemoryAccess \<Rightarrow> MemoryAccess \<Rightarrow> bool" where
  "conflict a b \<longleftrightarrow>
     (if \<not> mayRunConcurrently a b then False
      else if ma_Kind a \<noteq> AccessWrite \<and> ma_Kind b \<noteq> AccessWrite then False
      else if \<not> sameOrUnknownMemory (ma_Key a) (ma_Key b) then False
      else if ma_Atomic a \<and> ma_Atomic b then False
      else if locksetsProtect a b then False
      else True)"

definition pairRisk :: "MemoryAccess \<Rightarrow> MemoryAccess \<Rightarrow> ConcurrencyRisk" where
  "pairRisk a b = (if ma_Kind a \<noteq> AccessWrite then accessRisk b a else accessRisk a b)"

fun pairs :: "'a list \<Rightarrow> ('a \<times> 'a) list" where
  "pairs [] = []"
| "pairs (x # xs) = map (Pair x) xs @ pairs xs"

definition risksFromAccesses :: "MemoryAccess list \<Rightarrow> ConcurrencyRisk list" where
  "risksFromAccesses as =
     dedup_by riskKey
       (map (\<lambda>a. accessRisk a a) (filter unlockedWrite as)
        @ map (\<lambda>(a, b). pairRisk a b) (filter (\<lambda>(a, b). conflict a b) (pairs as)))"

definition buildConcurrencyRiskSummary :: "summaries \<Rightarrow> MemoryAccess list \<Rightarrow> ConcurrencyRiskSummary" where
  "buildConcurrencyRiskSummary ss as =
     (if ss = [] \<and> as = [] then \<lparr>cy_TotalRisks = 0, cy_UnresolvedDynamicCalls = 0, cy_UnknownEffects = 0\<rparr>
      else
        (let notes = concat (map (fs_Notes \<circ> snd) ss)
         in \<lparr>cy_TotalRisks = length as,
             cy_UnresolvedDynamicCalls = length (filter (\<lambda>n. Contains n ''unresolved dynamic call'') notes),
             cy_UnknownEffects = length (filter (\<lambda>n. Contains n ''unknown effects'') notes)\<rparr>))"

definition note_kind :: "string \<Rightarrow> string" where
  "note_kind note =
     (if Contains note ''unresolved dynamic goroutine call'' then ''unresolved dynamic goroutine call''
      else if Contains note ''unresolved dynamic call'' then ''unresolved dynamic call''
      else note)"

definition summarizeConcurrencyNotes :: "string list \<Rightarrow> string list" where
  "summarizeConcurrencyNotes notes =
     (let kinds = map note_kind notes
      in sort (map (\<lambda>k. let n = length (filter (\<lambda>x. x = k) kinds)
                       in if n = 1 then k else k @ '' ('' @ Itoa (int n) @ '' occurrences)'')
                 (dedup kinds)))"

definition concurrencySummaryNotes :: "summaries \<Rightarrow> string list" where
  "concurrencySummaryNotes ss = sort (dedup (concat (map (fs_Notes \<circ> snd) ss)))"

definition risk_less :: "ConcurrencyRisk \<Rightarrow> ConcurrencyRisk \<Rightarrow> bool" where
  "risk_less a b \<longleftrightarrow>
     (if ck_File a \<noteq> ck_File b then ck_File a < ck_File b
      else if ck_Line a \<noteq> ck_Line b then ck_Line a < ck_Line b
      else if ck_Struct a \<noteq> ck_Struct b then ck_Struct a < ck_Struct b
      else ck_Field a < ck_Field b)"

text \<open>
  The tool. \<open>loaded\<close> is what the workspace returns for the directory and pattern, \<open>fuel\<close>
  bounds the lookup of keys, and the outer option is \<open>None\<close> when the fuel runs out.
\<close>

definition DetectConcurrencyRisks ::
  "nat \<Rightarrow> string + ssa_code \<Rightarrow> bool \<Rightarrow> (string + ConcurrencyRiskResult) option" where
  "DetectConcurrencyRisks fuel loaded includeDiagnostics =
     (case loaded of
        Inl err \<Rightarrow> Some (Inl (''loading packages: '' @ err))
      | Inr pr \<Rightarrow>
          (case BuildFunctionAccessSummaries pr fuel of
             None \<Rightarrow> None
           | Some ss \<Rightarrow>
               (let (accesses, notes) = ExpandConcurrentAccessesWithNotes pr ss
                in Some (Inr
                     \<lparr>cz_Risks = sort_slice risk_less (risksFromAccesses accesses),
                      cz_Summary = buildConcurrencyRiskSummary ss accesses,
                      cz_Notes = summarizeConcurrencyNotes notes
                        @ (if includeDiagnostics then notes @ concurrencySummaryNotes ss
                           else concurrencySummaryNotes ss)\<rparr>))))"

section \<open>Laws\<close>

definition risk_key :: "ConcurrencyRisk \<Rightarrow> string \<times> int \<times> string \<times> string" where
  "risk_key r = (ck_File r, ck_Line r, ck_Struct r, ck_Field r)"

interpretation risks: key_order risk_less risk_key
  by unfold_locales (auto simp: risk_less_def risk_key_def less_prod_def')

text \<open>A conflict does not depend on the order of the two accesses.\<close>

lemma mayRunConcurrently_sym: "mayRunConcurrently a b = mayRunConcurrently b a"
  by (auto simp: mayRunConcurrently_def)

lemma fieldPathsOverlap_sym: "fieldPathsOverlap p q = fieldPathsOverlap q p"
  by (induction p q rule: fieldPathsOverlap.induct) (auto elim: fieldPathsOverlap.elims)

lemma relatedMemoryRoots_sym: "relatedMemoryRoots a b = relatedMemoryRoots b a"
  by (auto simp: relatedMemoryRoots_def Let_def)

lemma sameOrUnknownMemory_sym: "sameOrUnknownMemory a b = sameOrUnknownMemory b a"
  using relatedMemoryRoots_sym [of a b] fieldPathsOverlap_sym [of "mk_FieldPath a" "mk_FieldPath b"]
  by (auto simp: sameOrUnknownMemory_def)

lemma locksetsProtect_sym: "locksetsProtect a b = locksetsProtect b a"
proof -
  have "sameLockKey l r = sameLockKey r l" "lockModesProtect i l j r = lockModesProtect j r i l" for l r i j
    by (auto simp: sameLockKey_def lockModesProtect_def)
  then show ?thesis by (auto simp: locksetsProtect_def list_ex_iff)
qed

lemma conflict_sym: "conflict a b = conflict b a"
  using mayRunConcurrently_sym [of a b] sameOrUnknownMemory_sym [of "ma_Key a" "ma_Key b"]
    locksetsProtect_sym [of a b]
  by (auto simp: conflict_def)

text \<open>
  The expansion without the cap: the same loop over the functions with plain appends.
\<close>

definition all_root :: "ssa_code \<Rightarrow> summaries \<Rightarrow> nat option \<Rightarrow> MemoryAccess list \<Rightarrow> MemoryAccess list" where
  "all_root pr ss fn acc =
     (case fn of
        None \<Rightarrow> acc
      | Some f \<Rightarrow>
          (case map_of ss f of
             Some s \<Rightarrow>
               (if sa_Parent (sg_Func pr f) \<noteq> None then acc
                else map (clear_parent (parent_id pr f)) (acc @ parent_accesses pr ss f)
                     @ concat (map (spawn_accesses pr ss) (filter (\<lambda>g. gs_Callee g \<noteq> None) (fs_Spawned s))))
           | None \<Rightarrow> acc))"

definition all_accesses :: "ssa_code \<Rightarrow> summaries \<Rightarrow> MemoryAccess list" where
  "all_accesses pr ss = fold (all_root pr ss) (sg_SSAFuncs pr) []"

definition capped :: "MemoryAccess list \<Rightarrow> MemoryAccess list \<times> bool" where
  "capped as = (take maxExpandedConcurrencyAccesses as, maxExpandedConcurrencyAccesses < length as)"

lemma appendAccesses_capped: "appendAccesses (capped as) bs = capped (as @ bs)"
  by (auto simp: appendAccesses_def capped_def Let_def)

lemma spawn_capped:
  "fold (\<lambda>g st. if gs_Callee g = None then st else appendAccesses st (spawn_accesses pr ss g)) gs (capped as)
     = capped (as @ concat (map (spawn_accesses pr ss) (filter (\<lambda>g. gs_Callee g \<noteq> None) gs)))"
  by (induction gs arbitrary: as) (auto simp: appendAccesses_capped)

lemma clear_capped:
  "(map f (fst (capped as)), snd (capped as)) = capped (map f as)"
  by (simp add: capped_def take_map)

lemma expandRoot_capped: "expandRoot pr ss fn (capped as) = capped (all_root pr ss fn as)"
proof (cases fn)
  case (Some f)
  show ?thesis
  proof (cases "sa_Parent (sg_Func pr f) \<noteq> None \<or> map_of ss f = None")
    case True
    then show ?thesis by (auto simp: expandRoot_def all_root_def Some split: option.splits)
  next
    case False
    then obtain s where s: "sa_Parent (sg_Func pr f) = None" "map_of ss f = Some s" by auto
    show ?thesis
      by (simp only: expandRoot_def all_root_def Some s option.case appendAccesses_capped clear_capped
          spawn_capped Let_def if_False if_True simp_thms)
  qed
qed (simp add: expandRoot_def all_root_def)

lemma expand_capped:
  "ExpandConcurrentAccessesWithNotes pr ss
     = (take maxExpandedConcurrencyAccesses (all_accesses pr ss),
        if maxExpandedConcurrencyAccesses < length (all_accesses pr ss) then [cap_note] else [])"
proof -
  have "fold (expandRoot pr ss) fs (capped as) = capped (fold (all_root pr ss) fs as)" for fs as
    by (induction fs arbitrary: as) (simp_all add: expandRoot_capped)
  from this [of "sg_SSAFuncs pr" "[]"]
  have "fold (expandRoot pr ss) (sg_SSAFuncs pr) ([], False) = capped (all_accesses pr ss)"
    by (simp add: capped_def all_accesses_def)
  then show ?thesis by (simp add: ExpandConcurrentAccessesWithNotes_def capped_def)
qed

lemma Itoa_5000: "Itoa (int maxExpandedConcurrencyAccesses) = ''5000''"
  unfolding maxExpandedConcurrencyAccesses_def
  by (simp add: Itoa_def digits_of.simps) code_simp

lemma cap_note_kind: "note_kind cap_note = cap_note"
  unfolding cap_note_def Itoa_5000 by code_simp

lemma set_pairs: "set (pairs xs) = {(xs ! i, xs ! j) | i j. i < j \<and> j < length xs}"
proof (induction xs)
  case (Cons x xs)
  have "{((x # xs) ! i, (x # xs) ! j) | i j. i < j \<and> j < length (x # xs)}
      = {(x, xs ! j) | j. j < length xs} \<union> {(xs ! i, xs ! j) | i j. i < j \<and> j < length xs}"
    (is "?l = ?r")
  proof
    show "?l \<subseteq> ?r"
    proof
      fix p
      assume "p \<in> ?l"
      then obtain i j where p: "p = ((x # xs) ! i, (x # xs) ! j)" "i < j" "j < length (x # xs)" by blast
      then show "p \<in> ?r" by (cases i; cases j) auto
    qed
    show "?r \<subseteq> ?l"
    proof
      fix p
      assume "p \<in> ?r"
      then consider j where "p = (x, xs ! j)" "j < length xs"
        | i j where "p = (xs ! i, xs ! j)" "i < j" "j < length xs" by blast
      then show "p \<in> ?l"
      proof cases
        case 1
        then have "p = ((x # xs) ! 0, (x # xs) ! Suc j) \<and> 0 < Suc j \<and> Suc j < length (x # xs)" by simp
        then show ?thesis by blast
      next
        case 2
        then have "p = ((x # xs) ! Suc i, (x # xs) ! Suc j) \<and> Suc i < Suc j \<and> Suc j < length (x # xs)" by simp
        then show ?thesis by blast
      qed
    qed
  qed
  moreover have "set (map (Pair x) xs) = {(x, xs ! j) | j. j < length xs}"
    by (auto simp: in_set_conv_nth image_iff)
  ultimately show ?case using Cons by simp
qed simp


text \<open>The sample program has one race, on \<^verbatim>\<open>S.a\<close>, seen from both of its places.\<close>

lemma sample_races:
  "DetectConcurrencyRisks 4 (Inr sample_ssa) False =
     Some (Inr \<lparr>cz_Risks = [
        \<lparr>ck_RiskLevel = ''High'', ck_Struct = ''S'', ck_Field = ''a'', ck_Function = ''m.F'', ck_File = ''f.go'',
         ck_Line = 5, ck_Reasoning = ''Field S.a is accessed in a goroutine or concurrent context without a common lockset: write at f.go:5 and write at f.go:9.'',
         ck_Anchor = contextAnchor ''f.go'' 5 ''F''\<rparr>,
        \<lparr>ck_RiskLevel = ''High'', ck_Struct = ''S'', ck_Field = ''a'', ck_Function = ''m.G'', ck_File = ''f.go'',
         ck_Line = 9, ck_Reasoning = ''Field S.a is accessed in a goroutine or concurrent context without a common lockset: write at f.go:9 and write at f.go:9.'',
         ck_Anchor = contextAnchor ''f.go'' 9 ''G''\<rparr>],
       cz_Summary = \<lparr>cy_TotalRisks = 3, cy_UnresolvedDynamicCalls = 0, cy_UnknownEffects = 0\<rparr>,
       cz_Notes = []\<rparr>)"
  unfolding DetectConcurrencyRisks_def sum.case sample_built option.case
  by code_simp


text \<open>
  A write under a lock of another root, say a package-level mutex, counts as unlocked: only a
  lock of the written root is relevant to it.
\<close>

lemma other_root_lock_is_not_relevant:
  assumes "\<forall>l \<in> set (ma_Lockset a). mk_RootID l \<noteq> mk_RootID (ma_Key a)"
    and "ma_InGoroutine a" "ma_Kind a = AccessWrite" "\<not> ma_Atomic a" "mk_RootKind (ma_Key a) = RootParam"
  shows "unlockedWrite a"
  using assms by (auto simp: unlockedWrite_def hasRelevantLock_def list_ex_iff isSharedGoroutineAccess_def)

end
