(* ===== verification/Go_Syntax.thy ===== *)
theory Go_Syntax
  imports Prelude
begin

text \<open>
  Syntax trees of Go function bodies, as the package \<^verbatim>\<open>go/ast\<close> delivers them and the metrics of
  the program walk them. A nil interface value is the constructor \<open>NilExpr\<close> or \<open>NilStmt\<close>, a nil
  pointer \<open>NilBlock\<close> or \<open>NilFields\<close>; a token is its text. Clauses of a switch or a select are
  statements of its body, as they are in \<^verbatim>\<open>go/ast\<close>.
\<close>

datatype expr =
    NilExpr
  | Ident string
  | BasicLit string
  | BinaryExpr string expr expr
  | CallExpr expr "expr list"
  | ParenExpr expr
  | UnaryExpr string expr
  | SelectorExpr expr "string option"
  | IndexExpr expr expr
  | IndexListExpr expr "expr list"
  | SliceExpr expr expr expr expr
  | StarExpr expr
  | TypeAssertExpr expr expr
  | CompositeLit expr "expr list"
  | KeyValueExpr expr expr
  | FuncLit expr block
  | ArrayType expr expr
  | MapType expr expr
  | ChanType expr
  | StructType fields
  | InterfaceType fields
  | FuncType fields fields
  | Ellipsis expr
  | BadExpr
and fields = NilFields | Fields "field list"
and field = Field "string list" expr
and block = NilBlock | Block "stmt list"
and stmt =
    NilStmt
  | IfStmt stmt expr block stmt
  | ForStmt stmt expr stmt block
  | RangeStmt string expr expr expr block            \<comment> \<open>token, key, value, range\<close>
  | SwitchStmt stmt expr block
  | TypeSwitchStmt stmt stmt block
  | SelectStmt block
  | CaseClause "expr list" "stmt list"
  | CommClause stmt "stmt list"
  | BranchStmt string "string option"
  | BlockStmt block
  | ExprStmt expr
  | AssignStmt "expr list" string "expr list"
  | ReturnStmt "expr list"
  | DeclStmt decl
  | GoStmt expr
  | DeferStmt expr
  | IncDecStmt expr string
  | LabeledStmt string stmt
  | SendStmt expr expr
  | EmptyStmt
and decl = GenDecl string "spec list" | OtherDecl
and spec = ValueSpec "string list" expr "expr list" | TypeSpec string expr | OtherSpec

text \<open>
  A function or method declaration: the type of its receiver, \<open>NilExpr\<close> for a function, its
  name, its body, and what the token file set says of it: the file and the line it starts in and
  the lines of the braces of the body.
\<close>

record FuncDecl =
  fd_Recv :: expr
  fd_Name :: string
  fd_Body :: block
  fd_File :: string
  fd_Line :: int
  fd_Lbrace :: int
  fd_Rbrace :: int

end
