(* ===== verification/Complexity.thy ===== *)
theory Complexity
  imports Go_Syntax Go_Strings
begin

text \<open>
  Cyclomatic and cognitive complexity of a function: \<^verbatim>\<open>analyzer/complexity.go\<close>. The analyzer is a
  record that the visits thread through the syntax tree, as the methods do with their receiver.
\<close>

record complexityAnalyzer =
  cx_functionName :: string
  cx_cyclomatic :: int
  cx_cognitive :: int
  cx_maxNesting :: int
  cx_recursionCounted :: bool

definition noteNesting :: "int \<Rightarrow> complexityAnalyzer \<Rightarrow> complexityAnalyzer" where
  "noteNesting nesting a = (if nesting > cx_maxNesting a then a\<lparr>cx_maxNesting := nesting\<rparr> else a)"

definition addDecision :: "int \<Rightarrow> complexityAnalyzer \<Rightarrow> complexityAnalyzer" where
  "addDecision nesting a = a\<lparr>cx_cyclomatic := cx_cyclomatic a + 1, cx_cognitive := cx_cognitive a + (1 + nesting)\<rparr>"

definition incCyclomatic :: "complexityAnalyzer \<Rightarrow> complexityAnalyzer" where
  "incCyclomatic a = a\<lparr>cx_cyclomatic := cx_cyclomatic a + 1\<rparr>"

definition addCognitive :: "int \<Rightarrow> complexityAnalyzer \<Rightarrow> complexityAnalyzer" where
  "addCognitive n a = a\<lparr>cx_cognitive := cx_cognitive a + n\<rparr>"

definition isRecursiveCall :: "string \<Rightarrow> expr \<Rightarrow> bool" where
  "isRecursiveCall name e =
     (case e of Ident n \<Rightarrow> n = name | SelectorExpr _ (Some sel) \<Rightarrow> sel = name | _ \<Rightarrow> False)"

definition noteCall :: "expr \<Rightarrow> complexityAnalyzer \<Rightarrow> complexityAnalyzer" where
  "noteCall f a =
     (if \<not> cx_recursionCounted a \<and> isRecursiveCall (cx_functionName a) f
      then (addCognitive 1 a)\<lparr>cx_recursionCounted := True\<rparr> else a)"

text \<open>A jump to a label, a goto and a fallthrough cost one.\<close>

definition branchCost :: "string \<Rightarrow> string option \<Rightarrow> int" where
  "branchCost tok label = (if tok = ''goto'' \<or> tok = ''fallthrough'' \<or> label \<noteq> None then 1 else 0)"

text \<open>
  Where a statement stands. The loops over the clauses of a switch or a select treat a clause of
  theirs specially and hand every other statement to \<^verbatim>\<open>visitStmt\<close>, which ignores clauses.
\<close>

datatype clause_context = Plain | InSwitch | InSelect

primrec visitExpr :: "expr \<Rightarrow> int \<Rightarrow> complexityAnalyzer \<Rightarrow> complexityAnalyzer"
  and visitFields :: "fields \<Rightarrow> int \<Rightarrow> complexityAnalyzer \<Rightarrow> complexityAnalyzer"
  and visitField :: "field \<Rightarrow> int \<Rightarrow> complexityAnalyzer \<Rightarrow> complexityAnalyzer"
  and visitBlock :: "block \<Rightarrow> clause_context \<Rightarrow> int \<Rightarrow> complexityAnalyzer \<Rightarrow> complexityAnalyzer"
  and visitStmt :: "stmt \<Rightarrow> clause_context \<Rightarrow> int \<Rightarrow> complexityAnalyzer \<Rightarrow> complexityAnalyzer"
  and visitDecl :: "decl \<Rightarrow> int \<Rightarrow> complexityAnalyzer \<Rightarrow> complexityAnalyzer"
  and visitSpec :: "spec \<Rightarrow> int \<Rightarrow> complexityAnalyzer \<Rightarrow> complexityAnalyzer" where
  "visitExpr NilExpr n a = a"
| "visitExpr (Ident _) n a = a"
| "visitExpr (BasicLit _) n a = a"
| "visitExpr (BinaryExpr op x y) n a =
     visitExpr y n (visitExpr x n (if op = ''&&'' \<or> op = ''||'' then addCognitive 1 (incCyclomatic a) else a))"
| "visitExpr (CallExpr f args) n a =
     fold (\<lambda>visit. visit n) (map visitExpr args) (visitExpr f n (noteCall f a))"
| "visitExpr (ParenExpr x) n a = visitExpr x n a"
| "visitExpr (UnaryExpr _ x) n a = visitExpr x n a"
| "visitExpr (SelectorExpr x _) n a = visitExpr x n a"
| "visitExpr (IndexExpr x i) n a = visitExpr i n (visitExpr x n a)"
| "visitExpr (IndexListExpr x is) n a = fold (\<lambda>visit. visit n) (map visitExpr is) (visitExpr x n a)"
| "visitExpr (SliceExpr x lo hi m) n a = visitExpr m n (visitExpr hi n (visitExpr lo n (visitExpr x n a)))"
| "visitExpr (StarExpr x) n a = visitExpr x n a"
| "visitExpr (TypeAssertExpr x _) n a = visitExpr x n a"
| "visitExpr (CompositeLit _ elts) n a = fold (\<lambda>visit. visit n) (map visitExpr elts) a"
| "visitExpr (KeyValueExpr k v) n a = visitExpr v n (visitExpr k n a)"
| "visitExpr (FuncLit _ body) n a = visitBlock body Plain (n + 1) a"
| "visitExpr (ArrayType _ _) n a = a"
| "visitExpr (MapType _ _) n a = a"
| "visitExpr (ChanType _) n a = a"
| "visitExpr (StructType _) n a = a"
| "visitExpr (InterfaceType _) n a = a"
| "visitExpr (FuncType _ _) n a = a"
| "visitExpr (Ellipsis _) n a = a"
| "visitExpr BadExpr n a = a"
| "visitFields NilFields n a = a"
| "visitFields (Fields _) n a = a"
| "visitField (Field _ _) n a = a"
| "visitBlock NilBlock ctx n a = a"
| "visitBlock (Block ss) ctx n a = fold (\<lambda>visit. visit ctx n) (map visitStmt ss) (noteNesting n a)"
| "visitStmt NilStmt ctx n a = a"
| "visitStmt (IfStmt init cond body els) ctx n a =
     (let a = visitBlock body Plain (n + 1) (visitExpr cond n (visitStmt init Plain n (addDecision n (noteNesting n a))))
      in visitStmt els Plain (case els of IfStmt _ _ _ _ \<Rightarrow> n | _ \<Rightarrow> n + 1) a)"
| "visitStmt (ForStmt init cond post body) ctx n a =
     visitBlock body Plain (n + 1)
       (visitStmt post Plain n (visitExpr cond n (visitStmt init Plain n (addDecision n (noteNesting n a)))))"
| "visitStmt (RangeStmt _ _ _ x body) ctx n a =
     visitBlock body Plain (n + 1) (visitExpr x n (addDecision n (noteNesting n a)))"
| "visitStmt (SwitchStmt init tag body) ctx n a =
     visitBlock body InSwitch (n + 1)
       (visitExpr tag n (visitStmt init Plain n (addCognitive (1 + n) (noteNesting n a))))"
| "visitStmt (TypeSwitchStmt init assign body) ctx n a =
     visitBlock body InSwitch (n + 1)
       (visitStmt assign Plain n (visitStmt init Plain n (addCognitive (1 + n) (noteNesting n a))))"
| "visitStmt (SelectStmt body) ctx n a =
     visitBlock body InSelect (n + 1) (addCognitive (1 + n) (noteNesting n a))"
| "visitStmt (CaseClause es body) ctx n a =
     (if ctx = InSwitch then
        fold (\<lambda>visit. visit Plain n) (map visitStmt body)
          (fold (\<lambda>visit. visit n) (map visitExpr es) (if es \<noteq> [] then incCyclomatic a else a))
      else noteNesting n a)"
| "visitStmt (CommClause comm body) ctx n a =
     (if ctx = InSelect then
        fold (\<lambda>visit. visit Plain n) (map visitStmt body)
          (visitStmt comm Plain n (if comm \<noteq> NilStmt then incCyclomatic a else a))
      else noteNesting n a)"
| "visitStmt (BranchStmt tok label) ctx n a = addCognitive (branchCost tok label) (noteNesting n a)"
| "visitStmt (BlockStmt b) ctx n a = visitBlock b Plain n (noteNesting n a)"
| "visitStmt (ExprStmt x) ctx n a = visitExpr x n (noteNesting n a)"
| "visitStmt (AssignStmt lhs _ rhs) ctx n a =
     fold (\<lambda>visit. visit n) (map visitExpr rhs) (fold (\<lambda>visit. visit n) (map visitExpr lhs) (noteNesting n a))"
| "visitStmt (ReturnStmt results) ctx n a = fold (\<lambda>visit. visit n) (map visitExpr results) (noteNesting n a)"
| "visitStmt (DeclStmt d) ctx n a = visitDecl d n (noteNesting n a)"
| "visitStmt (GoStmt call) ctx n a = visitExpr call n (noteNesting n a)"
| "visitStmt (DeferStmt call) ctx n a = visitExpr call n (noteNesting n a)"
| "visitStmt (IncDecStmt x _) ctx n a = visitExpr x n (noteNesting n a)"
| "visitStmt (LabeledStmt _ s) ctx n a = visitStmt s Plain n (noteNesting n a)"
| "visitStmt (SendStmt ch v) ctx n a = visitExpr v n (visitExpr ch n (noteNesting n a))"
| "visitStmt EmptyStmt ctx n a = noteNesting n a"
| "visitDecl (GenDecl _ specs) n a = fold (\<lambda>visit. visit n) (map visitSpec specs) a"
| "visitDecl OtherDecl n a = a"
| "visitSpec (ValueSpec _ _ vs) n a = fold (\<lambda>visit. visit n) (map visitExpr vs) a"
| "visitSpec (TypeSpec _ _) n a = a"
| "visitSpec OtherSpec n a = a"

definition analyzeFuncComplexity :: "FuncDecl \<Rightarrow> int \<times> int \<times> int" where
  "analyzeFuncComplexity fd =
     (let a = visitBlock (fd_Body fd) Plain 0 \<lparr>cx_functionName = fd_Name fd, cx_cyclomatic = 1, cx_cognitive = 0,
                cx_maxNesting = 0, cx_recursionCounted = False\<rparr>
      in (cx_cyclomatic a, cx_cognitive a, cx_maxNesting a))"

section \<open>The nodes of a body and their nesting\<close>

text \<open>
  The reference the analyzer is measured against: the nodes of a body that count, in the order
  of the source, each with its nesting level, and what a node of its own contributes.
\<close>

datatype node = ExprNode expr | StmtNode stmt | BlockNode | CaseNode "expr list" | CommNode stmt

primrec exprNodes :: "expr \<Rightarrow> int \<Rightarrow> (node \<times> int) list"
  and fieldsNodes :: "fields \<Rightarrow> int \<Rightarrow> (node \<times> int) list"
  and fieldNodes :: "field \<Rightarrow> int \<Rightarrow> (node \<times> int) list"
  and blockNodes :: "block \<Rightarrow> clause_context \<Rightarrow> int \<Rightarrow> (node \<times> int) list"
  and stmtNodes :: "stmt \<Rightarrow> clause_context \<Rightarrow> int \<Rightarrow> (node \<times> int) list"
  and declNodes :: "decl \<Rightarrow> int \<Rightarrow> (node \<times> int) list"
  and specNodes :: "spec \<Rightarrow> int \<Rightarrow> (node \<times> int) list" where
  "exprNodes NilExpr n = []"
| "exprNodes (Ident _) n = []"
| "exprNodes (BasicLit _) n = []"
| "exprNodes (BinaryExpr op x y) n = (ExprNode (BinaryExpr op x y), n) # exprNodes x n @ exprNodes y n"
| "exprNodes (CallExpr f args) n =
     (ExprNode (CallExpr f args), n) # exprNodes f n @ concat (map (\<lambda>nodes. nodes n) (map exprNodes args))"
| "exprNodes (ParenExpr x) n = exprNodes x n"
| "exprNodes (UnaryExpr _ x) n = exprNodes x n"
| "exprNodes (SelectorExpr x _) n = exprNodes x n"
| "exprNodes (IndexExpr x i) n = exprNodes x n @ exprNodes i n"
| "exprNodes (IndexListExpr x is) n = exprNodes x n @ concat (map (\<lambda>nodes. nodes n) (map exprNodes is))"
| "exprNodes (SliceExpr x lo hi m) n = exprNodes x n @ exprNodes lo n @ exprNodes hi n @ exprNodes m n"
| "exprNodes (StarExpr x) n = exprNodes x n"
| "exprNodes (TypeAssertExpr x _) n = exprNodes x n"
| "exprNodes (CompositeLit _ elts) n = concat (map (\<lambda>nodes. nodes n) (map exprNodes elts))"
| "exprNodes (KeyValueExpr k v) n = exprNodes k n @ exprNodes v n"
| "exprNodes (FuncLit _ body) n = blockNodes body Plain (n + 1)"
| "exprNodes (ArrayType _ _) n = []"
| "exprNodes (MapType _ _) n = []"
| "exprNodes (ChanType _) n = []"
| "exprNodes (StructType _) n = []"
| "exprNodes (InterfaceType _) n = []"
| "exprNodes (FuncType _ _) n = []"
| "exprNodes (Ellipsis _) n = []"
| "exprNodes BadExpr n = []"
| "fieldsNodes NilFields n = []"
| "fieldsNodes (Fields _) n = []"
| "fieldNodes (Field _ _) n = []"
| "blockNodes NilBlock ctx n = []"
| "blockNodes (Block ss) ctx n = (BlockNode, n) # concat (map (\<lambda>nodes. nodes ctx n) (map stmtNodes ss))"
| "stmtNodes NilStmt ctx n = []"
| "stmtNodes (IfStmt init cond body els) ctx n =
     (StmtNode (IfStmt init cond body els), n) # stmtNodes init Plain n @ exprNodes cond n
       @ blockNodes body Plain (n + 1)
       @ stmtNodes els Plain (case els of IfStmt _ _ _ _ \<Rightarrow> n | _ \<Rightarrow> n + 1)"
| "stmtNodes (ForStmt init cond post body) ctx n =
     (StmtNode (ForStmt init cond post body), n) # stmtNodes init Plain n @ exprNodes cond n
       @ stmtNodes post Plain n @ blockNodes body Plain (n + 1)"
| "stmtNodes (RangeStmt tok k v x body) ctx n =
     (StmtNode (RangeStmt tok k v x body), n) # exprNodes x n @ blockNodes body Plain (n + 1)"
| "stmtNodes (SwitchStmt init tag body) ctx n =
     (StmtNode (SwitchStmt init tag body), n) # stmtNodes init Plain n @ exprNodes tag n
       @ blockNodes body InSwitch (n + 1)"
| "stmtNodes (TypeSwitchStmt init assign body) ctx n =
     (StmtNode (TypeSwitchStmt init assign body), n) # stmtNodes init Plain n @ stmtNodes assign Plain n
       @ blockNodes body InSwitch (n + 1)"
| "stmtNodes (SelectStmt body) ctx n = (StmtNode (SelectStmt body), n) # blockNodes body InSelect (n + 1)"
| "stmtNodes (CaseClause es body) ctx n =
     (if ctx = InSwitch then
        (CaseNode es, n) # concat (map (\<lambda>nodes. nodes n) (map exprNodes es))
          @ concat (map (\<lambda>nodes. nodes Plain n) (map stmtNodes body))
      else [(StmtNode (CaseClause es body), n)])"
| "stmtNodes (CommClause comm body) ctx n =
     (if ctx = InSelect then
        (CommNode comm, n) # stmtNodes comm Plain n @ concat (map (\<lambda>nodes. nodes Plain n) (map stmtNodes body))
      else [(StmtNode (CommClause comm body), n)])"
| "stmtNodes (BranchStmt tok label) ctx n = [(StmtNode (BranchStmt tok label), n)]"
| "stmtNodes (BlockStmt b) ctx n = (StmtNode (BlockStmt b), n) # blockNodes b Plain n"
| "stmtNodes (ExprStmt x) ctx n = (StmtNode (ExprStmt x), n) # exprNodes x n"
| "stmtNodes (AssignStmt lhs tok rhs) ctx n =
     (StmtNode (AssignStmt lhs tok rhs), n) # concat (map (\<lambda>nodes. nodes n) (map exprNodes lhs))
       @ concat (map (\<lambda>nodes. nodes n) (map exprNodes rhs))"
| "stmtNodes (ReturnStmt results) ctx n =
     (StmtNode (ReturnStmt results), n) # concat (map (\<lambda>nodes. nodes n) (map exprNodes results))"
| "stmtNodes (DeclStmt d) ctx n = (StmtNode (DeclStmt d), n) # declNodes d n"
| "stmtNodes (GoStmt call) ctx n = (StmtNode (GoStmt call), n) # exprNodes call n"
| "stmtNodes (DeferStmt call) ctx n = (StmtNode (DeferStmt call), n) # exprNodes call n"
| "stmtNodes (IncDecStmt x tok) ctx n = (StmtNode (IncDecStmt x tok), n) # exprNodes x n"
| "stmtNodes (LabeledStmt l s) ctx n = (StmtNode (LabeledStmt l s), n) # stmtNodes s Plain n"
| "stmtNodes (SendStmt ch v) ctx n = (StmtNode (SendStmt ch v), n) # exprNodes ch n @ exprNodes v n"
| "stmtNodes EmptyStmt ctx n = [(StmtNode EmptyStmt, n)]"
| "declNodes (GenDecl _ specs) n = concat (map (\<lambda>nodes. nodes n) (map specNodes specs))"
| "declNodes OtherDecl n = []"
| "specNodes (ValueSpec _ _ vs) n = concat (map (\<lambda>nodes. nodes n) (map exprNodes vs))"
| "specNodes (TypeSpec _ _) n = []"
| "specNodes OtherSpec n = []"

text \<open>Decisions: branches, loops, cases that are not the default, and short-circuit operators.\<close>

definition decisions :: "node \<Rightarrow> int" where
  "decisions nd = (case nd of
       ExprNode (BinaryExpr op _ _) \<Rightarrow> (if op = ''&&'' \<or> op = ''||'' then 1 else 0)
     | StmtNode (IfStmt _ _ _ _) \<Rightarrow> 1 | StmtNode (ForStmt _ _ _ _) \<Rightarrow> 1 | StmtNode (RangeStmt _ _ _ _ _) \<Rightarrow> 1
     | CaseNode es \<Rightarrow> (if es \<noteq> [] then 1 else 0) | CommNode comm \<Rightarrow> (if comm \<noteq> NilStmt then 1 else 0)
     | _ \<Rightarrow> 0)"

text \<open>Reading cost at a nesting level.\<close>

definition readingCost :: "int \<Rightarrow> node \<Rightarrow> int" where
  "readingCost n nd = (case nd of
       ExprNode (BinaryExpr op _ _) \<Rightarrow> (if op = ''&&'' \<or> op = ''||'' then 1 else 0)
     | StmtNode (IfStmt _ _ _ _) \<Rightarrow> 1 + n | StmtNode (ForStmt _ _ _ _) \<Rightarrow> 1 + n
     | StmtNode (RangeStmt _ _ _ _ _) \<Rightarrow> 1 + n | StmtNode (SwitchStmt _ _ _) \<Rightarrow> 1 + n
     | StmtNode (TypeSwitchStmt _ _ _) \<Rightarrow> 1 + n | StmtNode (SelectStmt _) \<Rightarrow> 1 + n
     | StmtNode (BranchStmt tok label) \<Rightarrow> branchCost tok label
     | _ \<Rightarrow> 0)"

definition callsItself :: "string \<Rightarrow> node \<Rightarrow> bool" where
  "callsItself name nd = (case nd of ExprNode (CallExpr f _) \<Rightarrow> isRecursiveCall name f | _ \<Rightarrow> False)"

definition nestingOf :: "node \<times> int \<Rightarrow> int" where
  "nestingOf p = (case fst p of StmtNode _ \<Rightarrow> snd p | BlockNode \<Rightarrow> snd p | _ \<Rightarrow> 0)"

text \<open>One node, as the analyzer takes it.\<close>

definition takeNode :: "node \<times> int \<Rightarrow> complexityAnalyzer \<Rightarrow> complexityAnalyzer" where
  "takeNode p a =
     (let (nd, n) = p;
          a = (case nd of StmtNode _ \<Rightarrow> noteNesting n a | BlockNode \<Rightarrow> noteNesting n a | _ \<Rightarrow> a);
          a = a\<lparr>cx_cyclomatic := cx_cyclomatic a + decisions nd\<rparr>;
          a = addCognitive (readingCost n nd) a
      in case nd of ExprNode (CallExpr f _) \<Rightarrow> noteCall f a | _ \<Rightarrow> a)"

lemmas take_defs = takeNode_def decisions_def readingCost_def addDecision_def incCyclomatic_def addCognitive_def

lemma visit_all [simp]:
  "(\<And>e a. e \<in> set es \<Longrightarrow> visitExpr e n a = fold takeNode (exprNodes e n) a) \<Longrightarrow>
     fold (\<lambda>visit. visit n) (map visitExpr es) a = fold takeNode (concat (map (\<lambda>nodes. nodes n) (map exprNodes es))) a"
  "(\<And>s a. s \<in> set ss \<Longrightarrow> visitStmt s ctx n a = fold takeNode (stmtNodes s ctx n) a) \<Longrightarrow>
     fold (\<lambda>visit. visit ctx n) (map visitStmt ss) a = fold takeNode (concat (map (\<lambda>nodes. nodes ctx n) (map stmtNodes ss))) a"
  "(\<And>s a. s \<in> set specs \<Longrightarrow> visitSpec s n a = fold takeNode (specNodes s n) a) \<Longrightarrow>
     fold (\<lambda>visit. visit n) (map visitSpec specs) a = fold takeNode (concat (map (\<lambda>nodes. nodes n) (map specNodes specs))) a"
  by (induction es arbitrary: a, simp_all, induction ss arbitrary: a, simp_all, induction specs arbitrary: a, simp_all)

lemma visits_take_nodes:
  "visitExpr e n a = fold takeNode (exprNodes e n) a"
  "visitFields fs n a = fold takeNode (fieldsNodes fs n) a"
  "visitField f n a = fold takeNode (fieldNodes f n) a"
  "visitBlock b ctx n a = fold takeNode (blockNodes b ctx n) a"
  "visitStmt s ctx n a = fold takeNode (stmtNodes s ctx n) a"
  "visitDecl d n a = fold takeNode (declNodes d n) a"
  "visitSpec sp n a = fold takeNode (specNodes sp n) a"
  by (induction e and fs and f and b and s and d and sp arbitrary: n a and n a and n a and ctx n a and ctx n a and n a and n a)
    (simp_all add: take_defs Let_def)

lemma takeNode_simps [simp]:
  "cx_functionName (takeNode p a) = cx_functionName a"
  "cx_cyclomatic (takeNode p a) = cx_cyclomatic a + decisions (fst p)"
  "cx_recursionCounted (takeNode p a) \<longleftrightarrow> cx_recursionCounted a \<or> callsItself (cx_functionName a) (fst p)"
  "cx_cognitive (takeNode p a) = cx_cognitive a + readingCost (snd p) (fst p)
     + (if \<not> cx_recursionCounted a \<and> callsItself (cx_functionName a) (fst p) then 1 else 0)"
  "0 \<le> cx_maxNesting a \<Longrightarrow> cx_maxNesting (takeNode p a) = max (cx_maxNesting a) (nestingOf p)"
  by (auto simp: takeNode_def callsItself_def nestingOf_def noteNesting_def noteCall_def addCognitive_def Let_def
      split: prod.splits node.splits expr.splits)

lemma fold_takeNode:
  "cx_functionName (fold takeNode ns a) = cx_functionName a"
  "cx_cyclomatic (fold takeNode ns a) = cx_cyclomatic a + (\<Sum>p\<leftarrow>ns. decisions (fst p))"
  "cx_cognitive (fold takeNode ns a) = cx_cognitive a + (\<Sum>p\<leftarrow>ns. readingCost (snd p) (fst p))
     + (if \<not> cx_recursionCounted a \<and> (\<exists>p \<in> set ns. callsItself (cx_functionName a) (fst p)) then 1 else 0)"
  "0 \<le> cx_maxNesting a \<Longrightarrow> cx_maxNesting (fold takeNode ns a) = fold max (map nestingOf ns) (cx_maxNesting a)"
proof -
  show "cx_functionName (fold takeNode ns a) = cx_functionName a" for a by (induction ns arbitrary: a) simp_all
  show "cx_cyclomatic (fold takeNode ns a) = cx_cyclomatic a + (\<Sum>p\<leftarrow>ns. decisions (fst p))" for a
    by (induction ns arbitrary: a) simp_all
  show "cx_cognitive (fold takeNode ns a) = cx_cognitive a + (\<Sum>p\<leftarrow>ns. readingCost (snd p) (fst p))
     + (if \<not> cx_recursionCounted a \<and> (\<exists>p \<in> set ns. callsItself (cx_functionName a) (fst p)) then 1 else 0)" for a
    by (induction ns arbitrary: a) auto
  show "0 \<le> cx_maxNesting a \<Longrightarrow> cx_maxNesting (fold takeNode ns a) = fold max (map nestingOf ns) (cx_maxNesting a)" for a
    by (induction ns arbitrary: a) (simp_all add: max.commute)
qed

text \<open>
  C24: the complexity of a function is that of its nodes: the cyclomatic number is one more than
  the number of decisions, the cognitive score the sum of the reading costs at their nesting
  levels and one more if the function calls itself, however often it does, and the nesting the
  deepest level of a statement or block.
\<close>

theorem complexity_of_nodes:
  "analyzeFuncComplexity fd =
     (let ns = blockNodes (fd_Body fd) Plain 0
      in (1 + (\<Sum>p\<leftarrow>ns. decisions (fst p)),
          (\<Sum>p\<leftarrow>ns. readingCost (snd p) (fst p)) + (if \<exists>p \<in> set ns. callsItself (fd_Name fd) (fst p) then 1 else 0),
          Max (insert 0 (nestingOf ` set ns))))"
  by (simp add: analyzeFuncComplexity_def visits_take_nodes fold_takeNode Let_def Max.set_eq_fold [symmetric] del: fold_simps)

end
