(* ===== verification/Halstead.thy ===== *)
theory Halstead
  imports Go_Syntax Go_Strings "HOL-Library.AList"
begin

text \<open>
  Halstead metrics: \<^verbatim>\<open>analyzer/halstead.go\<close>. The analyzer holds two counters, maps from text to
  the number of its occurrences. Floating-point arithmetic is an argument: the operations of
  \<^verbatim>\<open>float64\<close> and of package \<^verbatim>\<open>math\<close> the code uses.
\<close>

record 'f float_ops =
  fl_ofInt :: "int \<Rightarrow> 'f"
  fl_dec :: "int \<Rightarrow> nat \<Rightarrow> 'f"       \<comment> \<open>decimal literal: digits and places after the point\<close>
  fl_add :: "'f \<Rightarrow> 'f \<Rightarrow> 'f"
  fl_sub :: "'f \<Rightarrow> 'f \<Rightarrow> 'f"
  fl_mul :: "'f \<Rightarrow> 'f \<Rightarrow> 'f"
  fl_div :: "'f \<Rightarrow> 'f \<Rightarrow> 'f"
  fl_less :: "'f \<Rightarrow> 'f \<Rightarrow> bool"
  fl_eq :: "'f \<Rightarrow> 'f \<Rightarrow> bool"
  fl_log :: "'f \<Rightarrow> 'f"
  fl_log2 :: "'f \<Rightarrow> 'f"
  fl_round :: "'f \<Rightarrow> 'f"
  fl_fixed2 :: "'f \<Rightarrow> string"       \<comment> \<open>format \<^verbatim>\<open>%.2f\<close>\<close>

definition roundMetric :: "'f float_ops \<Rightarrow> 'f \<Rightarrow> 'f" where
  "roundMetric F x = fl_div F (fl_round F (fl_mul F x (fl_ofInt F 100))) (fl_ofInt F 100)"

type_synonym counter = "(string \<times> int) list"

definition bump :: "string \<Rightarrow> counter \<Rightarrow> counter" where
  "bump k c = AList.map_default k 1 (\<lambda>n. n + 1) c"

record halsteadAnalyzer =
  ha_operators :: counter
  ha_operands :: counter

definition addOperator :: "string \<Rightarrow> halsteadAnalyzer \<Rightarrow> halsteadAnalyzer" where
  "addOperator operator a = (if operator = '''' then a else a\<lparr>ha_operators := bump operator (ha_operators a)\<rparr>)"

definition addOperand :: "string \<Rightarrow> halsteadAnalyzer \<Rightarrow> halsteadAnalyzer" where
  "addOperand operand a =
     (if operand = '''' \<or> operand = ''_'' then a else a\<lparr>ha_operands := bump operand (ha_operands a)\<rparr>)"

datatype halstead_context = Ordinary | OfSwitch | OfSelect

primrec hsExpr :: "expr \<Rightarrow> halsteadAnalyzer \<Rightarrow> halsteadAnalyzer"
  and hsFields :: "fields \<Rightarrow> halsteadAnalyzer \<Rightarrow> halsteadAnalyzer"
  and hsField :: "field \<Rightarrow> halsteadAnalyzer \<Rightarrow> halsteadAnalyzer"
  and hsBlock :: "block \<Rightarrow> halstead_context \<Rightarrow> halsteadAnalyzer \<Rightarrow> halsteadAnalyzer"
  and hsStmt :: "stmt \<Rightarrow> halstead_context \<Rightarrow> halsteadAnalyzer \<Rightarrow> halsteadAnalyzer"
  and hsDecl :: "decl \<Rightarrow> halsteadAnalyzer \<Rightarrow> halsteadAnalyzer"
  and hsSpec :: "spec \<Rightarrow> halsteadAnalyzer \<Rightarrow> halsteadAnalyzer" where
  "hsExpr NilExpr a = a"
| "hsExpr (Ident name) a = addOperand name a"
| "hsExpr (BasicLit v) a = addOperand v a"
| "hsExpr (BinaryExpr op x y) a = hsExpr y (hsExpr x (addOperator op a))"
| "hsExpr (CallExpr f args) a = fold (\<lambda>visit. visit) (map hsExpr args) (hsExpr f (addOperator ''call'' a))"
| "hsExpr (ParenExpr x) a = hsExpr x a"
| "hsExpr (UnaryExpr op x) a = hsExpr x (addOperator op a)"
| "hsExpr (SelectorExpr x sel) a =
     (let a = hsExpr x (addOperator ''.'' a) in case sel of None \<Rightarrow> a | Some name \<Rightarrow> addOperand name a)"
| "hsExpr (IndexExpr x i) a = hsExpr i (hsExpr x (addOperator ''index'' a))"
| "hsExpr (IndexListExpr x is) a = fold (\<lambda>visit. visit) (map hsExpr is) (hsExpr x (addOperator ''index'' a))"
| "hsExpr (SliceExpr x lo hi m) a = hsExpr m (hsExpr hi (hsExpr lo (hsExpr x (addOperator ''slice'' a))))"
| "hsExpr (StarExpr x) a = hsExpr x (addOperator ''*'' a)"
| "hsExpr (TypeAssertExpr x t) a = hsExpr t (hsExpr x (addOperator ''type_assert'' a))"
| "hsExpr (CompositeLit t elts) a = fold (\<lambda>visit. visit) (map hsExpr elts) (hsExpr t (addOperator ''composite_lit'' a))"
| "hsExpr (KeyValueExpr k v) a = hsExpr v (hsExpr k (addOperator '':'' a))"
| "hsExpr (FuncLit t body) a = hsBlock body Ordinary (hsExpr t (addOperator ''func_lit'' a))"
| "hsExpr (ArrayType len elt) a = hsExpr elt (hsExpr len (addOperator ''array_type'' a))"
| "hsExpr (MapType k v) a = hsExpr v (hsExpr k (addOperator ''map_type'' a))"
| "hsExpr (ChanType v) a = hsExpr v (addOperator ''chan_type'' a)"
| "hsExpr (StructType fs) a = hsFields fs (addOperator ''struct_type'' a)"
| "hsExpr (InterfaceType ms) a = hsFields ms (addOperator ''interface_type'' a)"
| "hsExpr (FuncType ps rs) a = hsFields rs (hsFields ps (addOperator ''func_type'' a))"
| "hsExpr (Ellipsis t) a = hsExpr t (addOperator ''ellipsis'' a)"
| "hsExpr BadExpr a = a"
| "hsFields NilFields a = a"
| "hsFields (Fields fs) a = fold (\<lambda>visit. visit) (map hsField fs) a"
| "hsField (Field names t) a = hsExpr t (fold addOperand names a)"
| "hsBlock NilBlock ctx a = a"
| "hsBlock (Block ss) ctx a = fold (\<lambda>visit. visit ctx) (map hsStmt ss) a"
| "hsStmt NilStmt ctx a = a"
| "hsStmt (IfStmt init cond body els) ctx a =
     (let a = hsBlock body Ordinary (hsExpr cond (hsStmt init Ordinary (addOperator ''if'' a)))
      in if els \<noteq> NilStmt then hsStmt els Ordinary (addOperator ''else'' a) else a)"
| "hsStmt (ForStmt init cond post body) ctx a =
     hsBlock body Ordinary (hsStmt post Ordinary (hsExpr cond (hsStmt init Ordinary (addOperator ''for'' a))))"
| "hsStmt (RangeStmt tok k v x body) ctx a =
     (let a = addOperator ''range'' a; a = (if tok \<noteq> ''ILLEGAL'' then addOperator tok a else a)
      in hsBlock body Ordinary (hsExpr x (hsExpr v (hsExpr k a))))"
| "hsStmt (SwitchStmt init tag body) ctx a =
     hsBlock body OfSwitch (hsExpr tag (hsStmt init Ordinary (addOperator ''switch'' a)))"
| "hsStmt (TypeSwitchStmt init assign body) ctx a =
     hsBlock body OfSwitch (hsStmt assign Ordinary (hsStmt init Ordinary (addOperator ''type_switch'' a)))"
| "hsStmt (SelectStmt body) ctx a = hsBlock body OfSelect (addOperator ''select'' a)"
| "hsStmt (CaseClause es body) ctx a =
     (if ctx = OfSwitch then
        fold (\<lambda>visit. visit Ordinary) (map hsStmt body)
          (fold (\<lambda>visit. visit) (map hsExpr es) (addOperator (if es = [] then ''default'' else ''case'') a))
      else a)"
| "hsStmt (CommClause comm body) ctx a =
     (if ctx = OfSelect then
        fold (\<lambda>visit. visit Ordinary) (map hsStmt body)
          (hsStmt comm Ordinary (addOperator (if comm = NilStmt then ''default'' else ''case'') a))
      else a)"
| "hsStmt (BranchStmt tok label) ctx a =
     (let a = addOperator tok a in case label of None \<Rightarrow> a | Some name \<Rightarrow> addOperand name a)"
| "hsStmt (BlockStmt b) ctx a = hsBlock b Ordinary a"
| "hsStmt (ExprStmt x) ctx a = hsExpr x a"
| "hsStmt (AssignStmt lhs tok rhs) ctx a =
     fold (\<lambda>visit. visit) (map hsExpr rhs) (fold (\<lambda>visit. visit) (map hsExpr lhs) (addOperator tok a))"
| "hsStmt (ReturnStmt results) ctx a = fold (\<lambda>visit. visit) (map hsExpr results) (addOperator ''return'' a)"
| "hsStmt (DeclStmt d) ctx a = hsDecl d a"
| "hsStmt (GoStmt call) ctx a = hsExpr call (addOperator ''go'' a)"
| "hsStmt (DeferStmt call) ctx a = hsExpr call (addOperator ''defer'' a)"
| "hsStmt (IncDecStmt x tok) ctx a = hsExpr x (addOperator tok a)"
| "hsStmt (LabeledStmt l s) ctx a = hsStmt s Ordinary (addOperand l (addOperator ''label'' a))"
| "hsStmt (SendStmt ch v) ctx a = hsExpr v (hsExpr ch (addOperator ''<-'' a))"
| "hsStmt EmptyStmt ctx a = a"
| "hsDecl (GenDecl tok specs) a = fold (\<lambda>visit. visit) (map hsSpec specs) (addOperator tok a)"
| "hsDecl OtherDecl a = a"
| "hsSpec (ValueSpec names t vs) a = fold (\<lambda>visit. visit) (map hsExpr vs) (hsExpr t (fold addOperand names a))"
| "hsSpec (TypeSpec name t) a = hsExpr t (addOperand name a)"
| "hsSpec OtherSpec a = a"

record 'f halsteadMetrics =
  hm_DistinctOperators :: int
  hm_DistinctOperands :: int
  hm_TotalOperators :: int
  hm_TotalOperands :: int
  hm_Vocabulary :: int
  hm_Length :: int
  hm_Volume :: 'f
  hm_Difficulty :: 'f
  hm_Effort :: 'f

definition totalHalsteadItems :: "counter \<Rightarrow> int" where
  "totalHalsteadItems items = sum_list (map snd items)"

definition halsteadMetricsOf :: "'f float_ops \<Rightarrow> halsteadAnalyzer \<Rightarrow> 'f halsteadMetrics" where
  "halsteadMetricsOf F a =
     (let distinctOperators = int (length (ha_operators a));
          distinctOperands = int (length (ha_operands a));
          totalOperators = totalHalsteadItems (ha_operators a);
          totalOperands = totalHalsteadItems (ha_operands a);
          vocabulary = distinctOperators + distinctOperands;
          len = totalOperators + totalOperands;
          volume = (if vocabulary > 0 \<and> len > 0
                    then fl_mul F (fl_ofInt F len) (fl_log2 F (fl_ofInt F vocabulary)) else fl_ofInt F 0);
          difficulty = (if distinctOperands > 0
                        then fl_mul F (fl_div F (fl_ofInt F distinctOperators) (fl_ofInt F 2))
                               (fl_div F (fl_ofInt F totalOperands) (fl_ofInt F distinctOperands))
                        else fl_ofInt F 0);
          effort = fl_mul F difficulty volume
      in \<lparr>hm_DistinctOperators = distinctOperators, hm_DistinctOperands = distinctOperands,
          hm_TotalOperators = totalOperators, hm_TotalOperands = totalOperands,
          hm_Vocabulary = vocabulary, hm_Length = len, hm_Volume = roundMetric F volume,
          hm_Difficulty = roundMetric F difficulty, hm_Effort = roundMetric F effort\<rparr>)"

definition analyzeFuncHalstead :: "'f float_ops \<Rightarrow> FuncDecl \<Rightarrow> 'f halsteadMetrics" where
  "analyzeFuncHalstead F fd =
     halsteadMetricsOf F (hsBlock (fd_Body fd) Ordinary \<lparr>ha_operators = [], ha_operands = []\<rparr>)"

definition maintainabilityIndex :: "'f float_ops \<Rightarrow> 'f \<Rightarrow> int \<Rightarrow> int \<Rightarrow> 'f" where
  "maintainabilityIndex F volume cyclomatic bodyLines =
     (let volume = (if fl_less F volume (fl_ofInt F 1) then fl_ofInt F 1 else volume);
          bodyLines = (if bodyLines < 1 then 1 else bodyLines);
          score = fl_div F (fl_mul F
             (fl_sub F (fl_sub F (fl_sub F (fl_ofInt F 171) (fl_mul F (fl_dec F 52 1) (fl_log F volume)))
                (fl_mul F (fl_dec F 23 2) (fl_ofInt F cyclomatic)))
                (fl_mul F (fl_dec F 162 1) (fl_log F (fl_ofInt F bodyLines))))
             (fl_ofInt F 100)) (fl_ofInt F 171)
      in if fl_less F score (fl_ofInt F 0) then fl_ofInt F 0
         else if fl_less F (fl_ofInt F 100) score then fl_ofInt F 100
         else roundMetric F score)"

section \<open>The tokens of a body\<close>

datatype token = Operator string | Operand string

primrec exprTokens :: "expr \<Rightarrow> token list"
  and fieldsTokens :: "fields \<Rightarrow> token list"
  and fieldTokens :: "field \<Rightarrow> token list"
  and blockTokens :: "block \<Rightarrow> halstead_context \<Rightarrow> token list"
  and stmtTokens :: "stmt \<Rightarrow> halstead_context \<Rightarrow> token list"
  and declTokens :: "decl \<Rightarrow> token list"
  and specTokens :: "spec \<Rightarrow> token list" where
  "exprTokens NilExpr = []"
| "exprTokens (Ident name) = [Operand name]"
| "exprTokens (BasicLit v) = [Operand v]"
| "exprTokens (BinaryExpr op x y) = Operator op # exprTokens x @ exprTokens y"
| "exprTokens (CallExpr f args) = Operator ''call'' # exprTokens f @ concat (map exprTokens args)"
| "exprTokens (ParenExpr x) = exprTokens x"
| "exprTokens (UnaryExpr op x) = Operator op # exprTokens x"
| "exprTokens (SelectorExpr x sel) =
     Operator ''.'' # exprTokens x @ (case sel of None \<Rightarrow> [] | Some name \<Rightarrow> [Operand name])"
| "exprTokens (IndexExpr x i) = Operator ''index'' # exprTokens x @ exprTokens i"
| "exprTokens (IndexListExpr x is) = Operator ''index'' # exprTokens x @ concat (map exprTokens is)"
| "exprTokens (SliceExpr x lo hi m) =
     Operator ''slice'' # exprTokens x @ exprTokens lo @ exprTokens hi @ exprTokens m"
| "exprTokens (StarExpr x) = Operator ''*'' # exprTokens x"
| "exprTokens (TypeAssertExpr x t) = Operator ''type_assert'' # exprTokens x @ exprTokens t"
| "exprTokens (CompositeLit t elts) = Operator ''composite_lit'' # exprTokens t @ concat (map exprTokens elts)"
| "exprTokens (KeyValueExpr k v) = Operator '':'' # exprTokens k @ exprTokens v"
| "exprTokens (FuncLit t body) = Operator ''func_lit'' # exprTokens t @ blockTokens body Ordinary"
| "exprTokens (ArrayType len elt) = Operator ''array_type'' # exprTokens len @ exprTokens elt"
| "exprTokens (MapType k v) = Operator ''map_type'' # exprTokens k @ exprTokens v"
| "exprTokens (ChanType v) = Operator ''chan_type'' # exprTokens v"
| "exprTokens (StructType fs) = Operator ''struct_type'' # fieldsTokens fs"
| "exprTokens (InterfaceType ms) = Operator ''interface_type'' # fieldsTokens ms"
| "exprTokens (FuncType ps rs) = Operator ''func_type'' # fieldsTokens ps @ fieldsTokens rs"
| "exprTokens (Ellipsis t) = Operator ''ellipsis'' # exprTokens t"
| "exprTokens BadExpr = []"
| "fieldsTokens NilFields = []"
| "fieldsTokens (Fields fs) = concat (map fieldTokens fs)"
| "fieldTokens (Field names t) = map Operand names @ exprTokens t"
| "blockTokens NilBlock ctx = []"
| "blockTokens (Block ss) ctx = concat (map (\<lambda>tokens. tokens ctx) (map stmtTokens ss))"
| "stmtTokens NilStmt ctx = []"
| "stmtTokens (IfStmt init cond body els) ctx =
     Operator ''if'' # stmtTokens init Ordinary @ exprTokens cond @ blockTokens body Ordinary
       @ (if els \<noteq> NilStmt then Operator ''else'' # stmtTokens els Ordinary else [])"
| "stmtTokens (ForStmt init cond post body) ctx =
     Operator ''for'' # stmtTokens init Ordinary @ exprTokens cond @ stmtTokens post Ordinary @ blockTokens body Ordinary"
| "stmtTokens (RangeStmt tok k v x body) ctx =
     Operator ''range'' # (if tok \<noteq> ''ILLEGAL'' then [Operator tok] else [])
       @ exprTokens k @ exprTokens v @ exprTokens x @ blockTokens body Ordinary"
| "stmtTokens (SwitchStmt init tag body) ctx =
     Operator ''switch'' # stmtTokens init Ordinary @ exprTokens tag @ blockTokens body OfSwitch"
| "stmtTokens (TypeSwitchStmt init assign body) ctx =
     Operator ''type_switch'' # stmtTokens init Ordinary @ stmtTokens assign Ordinary @ blockTokens body OfSwitch"
| "stmtTokens (SelectStmt body) ctx = Operator ''select'' # blockTokens body OfSelect"
| "stmtTokens (CaseClause es body) ctx =
     (if ctx = OfSwitch then
        Operator (if es = [] then ''default'' else ''case'') # concat (map exprTokens es)
          @ concat (map (\<lambda>tokens. tokens Ordinary) (map stmtTokens body))
      else [])"
| "stmtTokens (CommClause comm body) ctx =
     (if ctx = OfSelect then
        Operator (if comm = NilStmt then ''default'' else ''case'') # stmtTokens comm Ordinary
          @ concat (map (\<lambda>tokens. tokens Ordinary) (map stmtTokens body))
      else [])"
| "stmtTokens (BranchStmt tok label) ctx =
     Operator tok # (case label of None \<Rightarrow> [] | Some name \<Rightarrow> [Operand name])"
| "stmtTokens (BlockStmt b) ctx = blockTokens b Ordinary"
| "stmtTokens (ExprStmt x) ctx = exprTokens x"
| "stmtTokens (AssignStmt lhs tok rhs) ctx =
     Operator tok # concat (map exprTokens lhs) @ concat (map exprTokens rhs)"
| "stmtTokens (ReturnStmt results) ctx = Operator ''return'' # concat (map exprTokens results)"
| "stmtTokens (DeclStmt d) ctx = declTokens d"
| "stmtTokens (GoStmt call) ctx = Operator ''go'' # exprTokens call"
| "stmtTokens (DeferStmt call) ctx = Operator ''defer'' # exprTokens call"
| "stmtTokens (IncDecStmt x tok) ctx = Operator tok # exprTokens x"
| "stmtTokens (LabeledStmt l s) ctx = Operator ''label'' # Operand l # stmtTokens s Ordinary"
| "stmtTokens (SendStmt ch v) ctx = Operator ''<-'' # exprTokens ch @ exprTokens v"
| "stmtTokens EmptyStmt ctx = []"
| "declTokens (GenDecl tok specs) = Operator tok # concat (map specTokens specs)"
| "declTokens OtherDecl = []"
| "specTokens (ValueSpec names t vs) = map Operand names @ exprTokens t @ concat (map exprTokens vs)"
| "specTokens (TypeSpec name t) = Operand name # exprTokens t"
| "specTokens OtherSpec = []"

fun takeToken :: "token \<Rightarrow> halsteadAnalyzer \<Rightarrow> halsteadAnalyzer" where
  "takeToken (Operator s) a = addOperator s a"
| "takeToken (Operand s) a = addOperand s a"

lemma visit_lists [simp]:
  "(\<And>e a. e \<in> set es \<Longrightarrow> hsExpr e a = fold takeToken (exprTokens e) a) \<Longrightarrow>
     fold (\<lambda>visit. visit) (map hsExpr es) a = fold takeToken (concat (map exprTokens es)) a"
  "(\<And>f a. f \<in> set fs \<Longrightarrow> hsField f a = fold takeToken (fieldTokens f) a) \<Longrightarrow>
     fold (\<lambda>visit. visit) (map hsField fs) a = fold takeToken (concat (map fieldTokens fs)) a"
  "(\<And>s a. s \<in> set ss \<Longrightarrow> hsStmt s ctx a = fold takeToken (stmtTokens s ctx) a) \<Longrightarrow>
     fold (\<lambda>visit. visit ctx) (map hsStmt ss) a = fold takeToken (concat (map (\<lambda>tokens. tokens ctx) (map stmtTokens ss))) a"
  "(\<And>s a. s \<in> set specs \<Longrightarrow> hsSpec s a = fold takeToken (specTokens s) a) \<Longrightarrow>
     fold (\<lambda>visit. visit) (map hsSpec specs) a = fold takeToken (concat (map specTokens specs)) a"
  by (induction es arbitrary: a, simp_all, induction fs arbitrary: a, simp_all,
      induction ss arbitrary: a, simp_all, induction specs arbitrary: a, simp_all)

lemma fold_operands [simp]: "fold takeToken (map Operand names) a = fold addOperand names a"
  by (induction names arbitrary: a) simp_all

lemma visits_take_tokens:
  "hsExpr e a = fold takeToken (exprTokens e) a"
  "hsFields fs a = fold takeToken (fieldsTokens fs) a"
  "hsField f a = fold takeToken (fieldTokens f) a"
  "hsBlock b ctx a = fold takeToken (blockTokens b ctx) a"
  "hsStmt s ctx a = fold takeToken (stmtTokens s ctx) a"
  "hsDecl d a = fold takeToken (declTokens d) a"
  "hsSpec sp a = fold takeToken (specTokens sp) a"
  by (induction e and fs and f and b and s and d and sp arbitrary: a and a and a and ctx a and ctx a and a and a)
    (simp_all add: Let_def split: option.splits)

text \<open>Counters count.\<close>

definition countsOf :: "string list \<Rightarrow> counter \<Rightarrow> bool" where
  "countsOf xs c \<longleftrightarrow> distinct (map fst c) \<and> fst ` set c = set xs \<and> sum_list (map snd c) = int (length xs)
     \<and> (\<forall>k n. (k, n) \<in> set c \<longrightarrow> n = int (count_list xs k))"

fun operatorText :: "token \<Rightarrow> string list" where
  "operatorText (Operator s) = (if s = '''' then [] else [s])"
| "operatorText (Operand s) = []"

fun operandText :: "token \<Rightarrow> string list" where
  "operandText (Operator s) = []"
| "operandText (Operand s) = (if s = '''' \<or> s = ''_'' then [] else [s])"

lemma bump_keys: "fst ` set (bump k c) = insert k (fst ` set c)" "distinct (map fst c) \<Longrightarrow> distinct (map fst (bump k c))"
  "sum_list (map snd (bump k c)) = sum_list (map snd c) + 1"
  unfolding bump_def by (induction c) (auto simp: image_iff)

lemma bump_mem:
  "distinct (map fst c) \<Longrightarrow> (x, n) \<in> set (bump k c) \<longleftrightarrow>
     (if x = k then (k \<notin> fst ` set c \<and> n = 1 \<or> (k, n - 1) \<in> set c) else (x, n) \<in> set c)"
  unfolding bump_def by (induction c) (force split: if_splits)+

lemma countsOf_bump:
  assumes "countsOf xs c"
  shows "countsOf (xs @ [k]) (bump k c)"
proof -
  have c: "distinct (map fst c)" "fst ` set c = set xs" "sum_list (map snd c) = int (length xs)"
    "\<And>k n. (k, n) \<in> set c \<Longrightarrow> n = int (count_list xs k)"
    using assms by (auto simp: countsOf_def)
  have "n = int (count_list (xs @ [k]) x)" if "(x, n) \<in> set (bump k c)" for x n
  proof (cases "x = k")
    case True
    then have "k \<notin> set xs \<and> n = 1 \<or> (k, n - 1) \<in> set c" using that bump_mem [OF c(1)] c(2) by auto
    with c(4) [of k "n - 1"] True show ?thesis by (auto simp: count_notin)
  next
    case False
    then show ?thesis using that bump_mem [OF c(1)] c(4) by auto
  qed
  with c show ?thesis by (simp add: countsOf_def bump_keys)
qed

lemma take_tokens_count:
  assumes "countsOf xs (ha_operators a)" "countsOf ys (ha_operands a)"
  shows "countsOf (xs @ concat (map operatorText ts)) (ha_operators (fold takeToken ts a))
       \<and> countsOf (ys @ concat (map operandText ts)) (ha_operands (fold takeToken ts a))"
  using assms
proof (induction ts arbitrary: xs ys a)
  case (Cons t ts)
  have "countsOf (xs @ operatorText t) (ha_operators (takeToken t a))"
    "countsOf (ys @ operandText t) (ha_operands (takeToken t a))"
    using Cons.prems countsOf_bump by (cases t; simp add: addOperator_def addOperand_def)+
  from Cons.IH [OF this] show ?case by simp
qed simp

lemma countsOf_length: "countsOf xs c \<Longrightarrow> length c = card (set xs)"
  unfolding countsOf_def by (metis distinct_card length_map set_map)

text \<open>
  C25: the Halstead counts of a function are those of its tokens: the totals are the numbers of
  operator and operand occurrences in its body, empty texts and the blank identifier left out,
  the distinct counts the numbers of different ones, and length and vocabulary their sums.
\<close>

theorem halstead_of_tokens:
  "let ts = blockTokens (fd_Body fd) Ordinary; m = analyzeFuncHalstead F fd;
       ops = concat (map operatorText ts); opnds = concat (map operandText ts)
   in hm_TotalOperators m = int (length ops) \<and> hm_TotalOperands m = int (length opnds)
    \<and> hm_DistinctOperators m = int (card (set ops)) \<and> hm_DistinctOperands m = int (card (set opnds))
    \<and> hm_Length m = int (length ops + length opnds)
    \<and> hm_Vocabulary m = int (card (set ops) + card (set opnds))"
proof -
  let ?a = "hsBlock (fd_Body fd) Ordinary \<lparr>ha_operators = [], ha_operands = []\<rparr>"
  let ?ts = "blockTokens (fd_Body fd) Ordinary"
  have c: "countsOf (concat (map operatorText ?ts)) (ha_operators ?a)" "countsOf (concat (map operandText ?ts)) (ha_operands ?a)"
    using take_tokens_count [of "[]" "\<lparr>ha_operators = [], ha_operands = []\<rparr>" "[]" ?ts]
    unfolding visits_take_tokens by (simp_all add: countsOf_def)
  then have "totalHalsteadItems (ha_operators ?a) = int (length (concat (map operatorText ?ts)))"
    "totalHalsteadItems (ha_operands ?a) = int (length (concat (map operandText ?ts)))"
    by (simp_all only: countsOf_def totalHalsteadItems_def)
  with countsOf_length [OF c(1)] countsOf_length [OF c(2)] show ?thesis
    by (simp add: analyzeFuncHalstead_def halsteadMetricsOf_def Let_def del: length_concat)
qed

text \<open>Integers in the place of floating-point numbers, for concrete inputs.\<close>

definition sample_floats :: "int float_ops" where
  "sample_floats = \<lparr>fl_ofInt = (\<lambda>i. i), fl_dec = (\<lambda>i n. i div 10 ^ n), fl_add = (+), fl_sub = (-), fl_mul = (*),
     fl_div = (div), fl_less = (<), fl_eq = (=), fl_log = (\<lambda>x. x), fl_log2 = (\<lambda>x. x), fl_round = (\<lambda>x. x),
     fl_fixed2 = Itoa\<rparr>"

end
