(* ===== verification/Complexity_Report.thy ===== *)
theory Complexity_Report
  imports Complexity Halstead Import_Graph
begin

text \<open>
  The complexity report: extraction of a record per function, filtering, sorting, aggregation by
  package and paging (\<^verbatim>\<open>analyzer/complexity.go\<close>). Averages and Halstead volumes are computed with
  the floating-point operations of the argument \<open>F\<close>.
\<close>

record 'f FunctionComplexity =
  fc_Function :: string
  fc_Package :: string
  fc_Receiver :: string
  fc_Name :: string
  fc_File :: string
  fc_Line :: int
  fc_Anchor :: string
  fc_Cyclomatic :: int
  fc_Cognitive :: int
  fc_BodyLines :: int
  fc_MaxNesting :: int
  fc_Halstead :: "'f halsteadMetrics"
  fc_MaintainabilityIndex :: 'f

record 'f PackageComplexity =
  pc_Package :: string
  pc_FunctionCount :: int
  pc_TotalCyclomatic :: int
  pc_TotalCognitive :: int
  pc_AverageCyclomatic :: 'f
  pc_AverageCognitive :: 'f
  pc_MaxCyclomatic :: int
  pc_MaxCognitive :: int
  pc_MaxFunction :: string
  pc_TotalHalsteadVolume :: 'f
  pc_AverageHalsteadVolume :: 'f
  pc_MaxHalsteadVolume :: 'f
  pc_MaxHalsteadFunction :: string
  pc_AverageMaintainabilityIndex :: 'f
  pc_MinMaintainabilityIndex :: 'f
  pc_MinMaintainabilityFunction :: string

record 'f ComplexityOptions =
  co_MinCyclomatic :: int
  co_MinCognitive :: int
  co_MinHalsteadVolume :: 'f
  co_MaxMaintainabilityIndex :: 'f
  co_SortBy :: string
  co_IncludePackages :: bool

record 'f ComplexityResult =
  cr_Functions :: "'f FunctionComplexity list"
  cr_Packages :: "'f PackageComplexity list"
  cr_Total :: int
  cr_Options :: "'f ComplexityOptions"
  cr_Offset :: int
  cr_Limit :: int
  cr_MaxItems :: int
  cr_ChunkSize :: int
  cr_NextCursor :: string
  cr_HasMore :: bool
  cr_TotalBeforeTruncate :: int
  cr_Truncated :: bool

section \<open>Extraction\<close>

fun identName :: "expr \<Rightarrow> string" where
  "identName (Ident name) = name"
| "identName _ = ''''"

definition receiverName :: "FuncDecl \<Rightarrow> string" where
  "receiverName fd =
     (let e = (case fd_Recv fd of StarExpr x \<Rightarrow> x | e \<Rightarrow> e)
      in case e of Ident name \<Rightarrow> name | IndexExpr x _ \<Rightarrow> identName x | IndexListExpr x _ \<Rightarrow> identName x | _ \<Rightarrow> '''')"

definition bodyLineSpan :: "FuncDecl \<Rightarrow> int" where
  "bodyLineSpan fd =
     (if fd_Body fd = NilBlock then 0
      else let lines = fd_Rbrace fd - fd_Lbrace fd + 1 in if lines < 0 then 0 else lines)"

definition buildFunctionComplexity :: "'f float_ops \<Rightarrow> string \<Rightarrow> FuncDecl \<Rightarrow> 'f FunctionComplexity option" where
  "buildFunctionComplexity F pkgPath fd =
     (if fd_File fd = '''' then None
      else
        (let receiver = receiverName fd;
             qualified = pkgPath @ ''.'' @ (if receiver \<noteq> '''' then receiver @ ''.'' else '''') @ fd_Name fd;
             (cyclomatic, cognitive, maxNesting) = analyzeFuncComplexity fd;
             halstead = analyzeFuncHalstead F fd;
             bodyLines = bodyLineSpan fd
         in Some \<lparr>fc_Function = qualified, fc_Package = pkgPath, fc_Receiver = receiver, fc_Name = fd_Name fd,
              fc_File = fd_File fd, fc_Line = fd_Line fd, fc_Anchor = contextAnchor (fd_File fd) (fd_Line fd) (fd_Name fd),
              fc_Cyclomatic = cyclomatic, fc_Cognitive = cognitive, fc_BodyLines = bodyLines,
              fc_MaxNesting = maxNesting, fc_Halstead = halstead,
              fc_MaintainabilityIndex = maintainabilityIndex F (hm_Volume halstead) cyclomatic bodyLines\<rparr>))"

text \<open>A package is its path and, per file, its function declarations.\<close>

definition extractComplexityFromSyntax ::
  "'f float_ops \<Rightarrow> (string \<times> FuncDecl list list) list \<Rightarrow> 'f FunctionComplexity list" where
  "extractComplexityFromSyntax F pkgs =
     concat (map (\<lambda>(path, files).
       if files = [] \<or> path = '''' then []
       else map the (filter (\<lambda>m. m \<noteq> None)
              (map (buildFunctionComplexity F path) (filter (\<lambda>fd. fd_Body fd \<noteq> NilBlock) (concat files))))) pkgs)"

section \<open>Options\<close>

definition complexitySorts :: "string list" where
  "complexitySorts = [''cyclomatic'', ''lines'', ''nesting'', ''name'', ''package'', ''halstead_volume'',
     ''halstead_difficulty'', ''halstead_effort'', ''maintainability'']"

definition normalizeComplexityOptions :: "'f float_ops \<Rightarrow> 'f ComplexityOptions \<Rightarrow> 'f ComplexityOptions" where
  "normalizeComplexityOptions F opts =
     (let zero = fl_ofInt F 0;
          opts = (if co_MinCyclomatic opts < 0 then opts\<lparr>co_MinCyclomatic := 0\<rparr> else opts);
          opts = (if co_MinCognitive opts < 0 then opts\<lparr>co_MinCognitive := 0\<rparr> else opts);
          opts = (if fl_less F (co_MinHalsteadVolume opts) zero then opts\<lparr>co_MinHalsteadVolume := zero\<rparr> else opts);
          opts = (if fl_less F (co_MaxMaintainabilityIndex opts) zero
                  then opts\<lparr>co_MaxMaintainabilityIndex := zero\<rparr> else opts);
          sortBy = ToLower (TrimSpace (co_SortBy opts))
      in opts\<lparr>co_SortBy := (if sortBy \<in> set complexitySorts then sortBy else ''cognitive'')\<rparr>)"

definition keepsMetric :: "'f float_ops \<Rightarrow> 'f ComplexityOptions \<Rightarrow> 'f FunctionComplexity \<Rightarrow> bool" where
  "keepsMetric F opts m \<longleftrightarrow>
     \<not> (co_MinCyclomatic opts > 0 \<and> fc_Cyclomatic m < co_MinCyclomatic opts)
   \<and> \<not> (co_MinCognitive opts > 0 \<and> fc_Cognitive m < co_MinCognitive opts)
   \<and> \<not> (fl_less F (fl_ofInt F 0) (co_MinHalsteadVolume opts)
        \<and> fl_less F (hm_Volume (fc_Halstead m)) (co_MinHalsteadVolume opts))
   \<and> \<not> (fl_less F (fl_ofInt F 0) (co_MaxMaintainabilityIndex opts)
        \<and> fl_less F (co_MaxMaintainabilityIndex opts) (fc_MaintainabilityIndex m))"

definition filterComplexityMetrics ::
  "'f float_ops \<Rightarrow> 'f FunctionComplexity list \<Rightarrow> 'f ComplexityOptions \<Rightarrow> 'f FunctionComplexity list" where
  "filterComplexityMetrics F metrics opts = filter (keepsMetric F opts) metrics"

section \<open>Sorting\<close>

text \<open>The comparison all orders but the one by name fall back to.\<close>

definition metric_tie :: "'f FunctionComplexity \<Rightarrow> 'f FunctionComplexity \<Rightarrow> bool" where
  "metric_tie l r =
     (if fc_Cognitive l \<noteq> fc_Cognitive r then fc_Cognitive l > fc_Cognitive r
      else if fc_Cyclomatic l \<noteq> fc_Cyclomatic r then fc_Cyclomatic l > fc_Cyclomatic r
      else if fc_BodyLines l \<noteq> fc_BodyLines r then fc_BodyLines l > fc_BodyLines r
      else fc_Function l < fc_Function r)"

definition metric_less ::
  "'f float_ops \<Rightarrow> string \<Rightarrow> 'f FunctionComplexity \<Rightarrow> 'f FunctionComplexity \<Rightarrow> bool" where
  "metric_less F sortBy l r =
     (let desc = (\<lambda>f. if \<not> fl_eq F (f l) (f r) then fl_less F (f r) (f l) else metric_tie l r)
      in if sortBy = ''cyclomatic'' \<and> fc_Cyclomatic l \<noteq> fc_Cyclomatic r then fc_Cyclomatic l > fc_Cyclomatic r
         else if sortBy = ''lines'' \<and> fc_BodyLines l \<noteq> fc_BodyLines r then fc_BodyLines l > fc_BodyLines r
         else if sortBy = ''nesting'' \<and> fc_MaxNesting l \<noteq> fc_MaxNesting r then fc_MaxNesting l > fc_MaxNesting r
         else if sortBy = ''halstead_volume'' then desc (\<lambda>m. hm_Volume (fc_Halstead m))
         else if sortBy = ''halstead_difficulty'' then desc (\<lambda>m. hm_Difficulty (fc_Halstead m))
         else if sortBy = ''halstead_effort'' then desc (\<lambda>m. hm_Effort (fc_Halstead m))
         else if sortBy = ''maintainability'' then
           (if \<not> fl_eq F (fc_MaintainabilityIndex l) (fc_MaintainabilityIndex r)
            then fl_less F (fc_MaintainabilityIndex l) (fc_MaintainabilityIndex r) else metric_tie l r)
         else if sortBy = ''name'' then fc_Function l < fc_Function r
         else if sortBy = ''package'' \<and> fc_Package l \<noteq> fc_Package r then fc_Package l < fc_Package r
         else metric_tie l r)"

definition sortComplexityMetrics ::
  "'f float_ops \<Rightarrow> 'f FunctionComplexity list \<Rightarrow> string \<Rightarrow> 'f FunctionComplexity list" where
  "sortComplexityMetrics F metrics sortBy = sort_slice (metric_less F sortBy) metrics"

section \<open>Packages\<close>

record 'f bucket =
  bu_Package :: string
  bu_FunctionCount :: int
  bu_TotalCyclomatic :: int
  bu_TotalCognitive :: int
  bu_MaxCyclomatic :: int
  bu_MaxCognitive :: int
  bu_MaxFunctionCC :: int
  bu_MaxFunction :: string
  bu_TotalHalsteadVolume :: 'f
  bu_MaxHalsteadVolume :: 'f
  bu_MaxHalsteadFunction :: string
  bu_TotalMaintainabilityIndex :: 'f
  bu_MinMaintainabilityIndex :: 'f
  bu_MinMaintainabilityFunction :: string

definition newBucket :: "'f float_ops \<Rightarrow> string \<Rightarrow> 'f bucket" where
  "newBucket F p = (let zero = fl_ofInt F 0 in
     \<lparr>bu_Package = p, bu_FunctionCount = 0, bu_TotalCyclomatic = 0, bu_TotalCognitive = 0, bu_MaxCyclomatic = 0,
      bu_MaxCognitive = 0, bu_MaxFunctionCC = 0, bu_MaxFunction = '''', bu_TotalHalsteadVolume = zero,
      bu_MaxHalsteadVolume = zero, bu_MaxHalsteadFunction = '''', bu_TotalMaintainabilityIndex = zero,
      bu_MinMaintainabilityIndex = zero, bu_MinMaintainabilityFunction = ''''\<rparr>)"

definition addMetric :: "'f float_ops \<Rightarrow> 'f FunctionComplexity \<Rightarrow> 'f bucket \<Rightarrow> 'f bucket" where
  "addMetric F m b =
     (let volume = hm_Volume (fc_Halstead m); mi = fc_MaintainabilityIndex m;
          b = b\<lparr>bu_FunctionCount := bu_FunctionCount b + 1,
                bu_TotalCyclomatic := bu_TotalCyclomatic b + fc_Cyclomatic m,
                bu_TotalCognitive := bu_TotalCognitive b + fc_Cognitive m,
                bu_TotalHalsteadVolume := fl_add F (bu_TotalHalsteadVolume b) volume,
                bu_TotalMaintainabilityIndex := fl_add F (bu_TotalMaintainabilityIndex b) mi\<rparr>;
          b = (if fc_Cyclomatic m > bu_MaxCyclomatic b then b\<lparr>bu_MaxCyclomatic := fc_Cyclomatic m\<rparr> else b);
          b = (if fc_Cognitive m > bu_MaxCognitive b
                  \<or> fc_Cognitive m = bu_MaxCognitive b \<and> fc_Cyclomatic m > bu_MaxFunctionCC b
               then b\<lparr>bu_MaxCognitive := fc_Cognitive m, bu_MaxFunctionCC := fc_Cyclomatic m,
                      bu_MaxFunction := fc_Function m\<rparr> else b);
          b = (if fl_less F (bu_MaxHalsteadVolume b) volume
               then b\<lparr>bu_MaxHalsteadVolume := volume, bu_MaxHalsteadFunction := fc_Function m\<rparr> else b)
      in if bu_FunctionCount b = 1 \<or> fl_less F mi (bu_MinMaintainabilityIndex b)
         then b\<lparr>bu_MinMaintainabilityIndex := mi, bu_MinMaintainabilityFunction := fc_Function m\<rparr> else b)"

definition bucketStep ::
  "'f float_ops \<Rightarrow> 'f FunctionComplexity \<Rightarrow> (string \<times> 'f bucket) list \<Rightarrow> (string \<times> 'f bucket) list" where
  "bucketStep F m buckets =
     (let b = (case map_of buckets (fc_Package m) of Some b \<Rightarrow> b | None \<Rightarrow> newBucket F (fc_Package m))
      in AList.update (fc_Package m) (addMetric F m b) buckets)"

definition packageOfBucket :: "'f float_ops \<Rightarrow> 'f bucket \<Rightarrow> 'f PackageComplexity" where
  "packageOfBucket F b =
     (let count = fl_ofInt F (bu_FunctionCount b);
          average = (\<lambda>x. if bu_FunctionCount b > 0 then fl_div F x count else fl_dec F 0 1)
      in \<lparr>pc_Package = bu_Package b, pc_FunctionCount = bu_FunctionCount b,
          pc_TotalCyclomatic = bu_TotalCyclomatic b, pc_TotalCognitive = bu_TotalCognitive b,
          pc_AverageCyclomatic = average (fl_ofInt F (bu_TotalCyclomatic b)),
          pc_AverageCognitive = average (fl_ofInt F (bu_TotalCognitive b)),
          pc_MaxCyclomatic = bu_MaxCyclomatic b, pc_MaxCognitive = bu_MaxCognitive b,
          pc_MaxFunction = bu_MaxFunction b,
          pc_TotalHalsteadVolume = roundMetric F (bu_TotalHalsteadVolume b),
          pc_AverageHalsteadVolume = roundMetric F (average (bu_TotalHalsteadVolume b)),
          pc_MaxHalsteadVolume = bu_MaxHalsteadVolume b, pc_MaxHalsteadFunction = bu_MaxHalsteadFunction b,
          pc_AverageMaintainabilityIndex = roundMetric F (average (bu_TotalMaintainabilityIndex b)),
          pc_MinMaintainabilityIndex = bu_MinMaintainabilityIndex b,
          pc_MinMaintainabilityFunction = bu_MinMaintainabilityFunction b\<rparr>)"

definition package_less :: "'f PackageComplexity \<Rightarrow> 'f PackageComplexity \<Rightarrow> bool" where
  "package_less a b =
     (if pc_TotalCognitive a \<noteq> pc_TotalCognitive b then pc_TotalCognitive a > pc_TotalCognitive b
      else if pc_MaxCognitive a \<noteq> pc_MaxCognitive b then pc_MaxCognitive a > pc_MaxCognitive b
      else pc_Package a < pc_Package b)"

definition aggregatePackageComplexity ::
  "'f float_ops \<Rightarrow> 'f FunctionComplexity list \<Rightarrow> 'f PackageComplexity list" where
  "aggregatePackageComplexity F metrics =
     sort_slice package_less (map (\<lambda>(_, b). packageOfBucket F b) (fold (bucketStep F) metrics []))"

section \<open>The report\<close>

definition complexityFunctionKey :: "'f FunctionComplexity \<Rightarrow> string" where
  "complexityFunctionKey m = fc_Package m @ ''|'' @ fc_Function m @ ''|'' @ fc_File m @ '':'' @ Itoa (fc_Line m)"

definition complexityStreamFingerprint :: "'f float_ops \<Rightarrow> string \<Rightarrow> string \<Rightarrow> 'f ComplexityOptions \<Rightarrow> string" where
  "complexityStreamFingerprint F dir pattern opts =
     ''complexity:'' @ dir @ ''|'' @ pattern @ ''|sort='' @ co_SortBy opts @ ''|mincc='' @ Itoa (co_MinCyclomatic opts)
     @ ''|mincog='' @ Itoa (co_MinCognitive opts) @ ''|minhv='' @ fl_fixed2 F (co_MinHalsteadVolume opts)
     @ ''|maxmi='' @ fl_fixed2 F (co_MaxMaintainabilityIndex opts)"

definition ComputeComplexityMetricsWithOptions ::
  "'f float_ops \<Rightarrow> paging \<Rightarrow> 'f FunctionComplexity list \<Rightarrow> string \<Rightarrow> string \<Rightarrow> 'f ComplexityOptions \<Rightarrow> QueryOptions \<Rightarrow>
   stream_error + 'f ComplexityResult" where
  "ComputeComplexityMetricsWithOptions F pg metrics dir pattern cOpts opts =
     (let cOpts = normalizeComplexityOptions F cOpts;
          functions = sortComplexityMetrics F (filterComplexityMetrics F metrics cOpts) (co_SortBy cOpts)
      in case page_items pg functions (complexityStreamFingerprint F dir pattern cOpts) complexityFunctionKey opts of
           Inl e \<Rightarrow> Inl e
         | Inr w \<Rightarrow> Inr \<lparr>cr_Functions = wr_items w,
             cr_Packages = (if co_IncludePackages cOpts then aggregatePackageComplexity F metrics else []),
             cr_Total = int (length functions), cr_Options = cOpts, cr_Offset = qo_Offset opts,
             cr_Limit = qo_Limit opts, cr_MaxItems = qo_MaxItems opts,
             cr_ChunkSize = (if qo_ChunkSize opts > 0 then clampChunkSize (pg_env pg) (qo_ChunkSize opts) else 0),
             cr_NextCursor = wr_next w, cr_HasMore = wr_more w, cr_TotalBeforeTruncate = wr_total w,
             cr_Truncated = wr_truncated w\<rparr>)"

section \<open>What the report holds\<close>

text \<open>The orders that compare no floating-point number, as keys.\<close>

definition exactSort :: "string \<Rightarrow> bool" where
  "exactSort sortBy \<longleftrightarrow> sortBy \<notin> {''halstead_volume'', ''halstead_difficulty'', ''halstead_effort'', ''maintainability''}"

definition metric_key :: "string \<Rightarrow> 'f FunctionComplexity \<Rightarrow> string \<times> int list \<times> string" where
  "metric_key sortBy m =
     (let rest = [- fc_Cognitive m, - fc_Cyclomatic m, - fc_BodyLines m]
      in if sortBy = ''name'' then (fc_Function m, [], '''')
         else if sortBy = ''package'' then (fc_Package m, rest, fc_Function m)
         else if sortBy = ''cyclomatic'' then ('''', - fc_Cyclomatic m # rest, fc_Function m)
         else if sortBy = ''lines'' then ('''', - fc_BodyLines m # rest, fc_Function m)
         else if sortBy = ''nesting'' then ('''', - fc_MaxNesting m # rest, fc_Function m)
         else ('''', rest, fc_Function m))"

lemma metric_less_key: "exactSort sortBy \<Longrightarrow> metric_less F sortBy l r \<longleftrightarrow> metric_key sortBy l < metric_key sortBy r"
  by (auto simp: exactSort_def metric_less_def metric_key_def metric_tie_def less_prod_def' Let_def)

lemma sorted_metrics: "exactSort sortBy \<Longrightarrow> sorted (map (metric_key sortBy) (sortComplexityMetrics F ms sortBy))"
  unfolding sortComplexityMetrics_def by (intro key_order.sorted_keys key_order.intro metric_less_key)

definition package_order :: "'f PackageComplexity \<Rightarrow> int \<times> int \<times> string" where
  "package_order a = (- pc_TotalCognitive a, - pc_MaxCognitive a, pc_Package a)"

interpretation packages: key_order package_less package_order
  by unfold_locales (auto simp: package_less_def package_order_def less_prod_def')

text \<open>The integer fields of the bucket of a list of metrics.\<close>

definition bucket_of :: "string \<Rightarrow> 'f FunctionComplexity list \<Rightarrow> 'f bucket \<Rightarrow> bool" where
  "bucket_of p ms b \<longleftrightarrow> bu_Package b = p \<and> bu_FunctionCount b = int (length ms)
     \<and> bu_TotalCyclomatic b = (\<Sum>m\<leftarrow>ms. fc_Cyclomatic m) \<and> bu_TotalCognitive b = (\<Sum>m\<leftarrow>ms. fc_Cognitive m)
     \<and> bu_MaxCyclomatic b = fold max (map fc_Cyclomatic ms) 0 \<and> bu_MaxCognitive b = fold max (map fc_Cognitive ms) 0"

lemma bucket_of_new: "bucket_of p [] (newBucket F p)"
  by (simp add: bucket_of_def newBucket_def Let_def)

lemma addMetric_fields:
  "bu_Package (addMetric F m b) = bu_Package b"
  "bu_FunctionCount (addMetric F m b) = bu_FunctionCount b + 1"
  "bu_TotalCyclomatic (addMetric F m b) = bu_TotalCyclomatic b + fc_Cyclomatic m"
  "bu_TotalCognitive (addMetric F m b) = bu_TotalCognitive b + fc_Cognitive m"
  "bu_MaxCyclomatic (addMetric F m b) = max (fc_Cyclomatic m) (bu_MaxCyclomatic b)"
  "bu_MaxCognitive (addMetric F m b) = max (fc_Cognitive m) (bu_MaxCognitive b)"
  by (simp_all add: addMetric_def Let_def)

lemma bucket_of_add: "bucket_of p ms b \<Longrightarrow> bucket_of p (ms @ [m]) (addMetric F m b)"
  by (simp add: bucket_of_def addMetric_fields)

definition buckets_of :: "'f FunctionComplexity list \<Rightarrow> (string \<times> 'f bucket) list \<Rightarrow> bool" where
  "buckets_of ms bs \<longleftrightarrow> distinct (map fst bs) \<and> fst ` set bs = fc_Package ` set ms
     \<and> (\<forall>p b. (p, b) \<in> set bs \<longrightarrow> bucket_of p (filter (\<lambda>m. fc_Package m = p) ms) b)"

lemma buckets_of_step:
  assumes "buckets_of ms bs"
  shows "buckets_of (ms @ [m]) (bucketStep F m bs)"
proof -
  let ?p = "fc_Package m" and ?sel = "\<lambda>p. filter (\<lambda>m. fc_Package m = p) ms"
  define b where "b = (case map_of bs ?p of Some b \<Rightarrow> b | None \<Rightarrow> newBucket F ?p)"
  have bs: "distinct (map fst bs)" "fst ` set bs = fc_Package ` set ms"
    "\<And>p b. (p, b) \<in> set bs \<Longrightarrow> bucket_of p (?sel p) b"
    using assms by (auto simp: buckets_of_def)
  have "bucket_of ?p (?sel ?p) b"
  proof (cases "map_of bs ?p")
    case None
    then have "?p \<notin> fc_Package ` set ms" unfolding map_of_eq_None_iff bs(2) .
    then have "?sel ?p = []" unfolding filter_empty_conv by (metis image_eqI)
    with None show ?thesis by (simp add: b_def bucket_of_new)
  next
    case (Some x)
    with bs(3) [OF map_of_SomeD [OF Some]] show ?thesis by (simp add: b_def)
  qed
  then have new: "bucket_of ?p (?sel ?p @ [m]) (addMetric F m b)" by (rule bucket_of_add)
  have upd: "bucketStep F m bs = AList.update ?p (addMetric F m b) bs" by (simp add: bucketStep_def b_def)
  have d: "distinct (map fst (bucketStep F m bs))" unfolding upd using bs(1) by (rule distinct_update)
  have "bucket_of q (filter (\<lambda>m'. fc_Package m' = q) (ms @ [m])) x" if "(q, x) \<in> set (bucketStep F m bs)" for q x
  proof -
    have "map_of (bucketStep F m bs) q = Some x" using d that by simp
    then have "(if q = ?p then Some (addMetric F m b) else map_of bs q) = Some x"
      unfolding upd update_conv by (simp add: fun_upd_apply)
    then show ?thesis using new bs(3) [of q x] by (auto dest: map_of_SomeD split: if_splits)
  qed
  moreover have "fst ` set (bucketStep F m bs) = fc_Package ` set (ms @ [m])"
    using dom_update [of ?p "addMetric F m b" bs] bs(2) unfolding upd by simp
  ultimately show ?thesis using d by (auto simp: buckets_of_def)
qed

lemma buckets_of_fold: "buckets_of ms bs \<Longrightarrow> buckets_of (ms @ ns) (fold (bucketStep F) ns bs)"
proof (induction ns arbitrary: ms bs)
  case (Cons n ns)
  from Cons.IH [OF buckets_of_step [OF Cons.prems]] show ?case by simp
qed simp

definition package_summary :: "'f FunctionComplexity list \<Rightarrow> 'f PackageComplexity \<Rightarrow> bool" where
  "package_summary ms P \<longleftrightarrow> pc_FunctionCount P = int (length ms)
     \<and> pc_TotalCyclomatic P = (\<Sum>m\<leftarrow>ms. fc_Cyclomatic m) \<and> pc_TotalCognitive P = (\<Sum>m\<leftarrow>ms. fc_Cognitive m)
     \<and> pc_MaxCyclomatic P = fold max (map fc_Cyclomatic ms) 0 \<and> pc_MaxCognitive P = fold max (map fc_Cognitive ms) 0"

lemma aggregate_packages:
  "distinct (map pc_Package (aggregatePackageComplexity F ms))
   \<and> pc_Package ` set (aggregatePackageComplexity F ms) = fc_Package ` set ms
   \<and> (\<forall>P \<in> set (aggregatePackageComplexity F ms). package_summary (filter (\<lambda>m. fc_Package m = pc_Package P) ms) P)"
proof -
  define bs where "bs = fold (bucketStep F) ms []"
  have "buckets_of [] []" by (simp add: buckets_of_def)
  from buckets_of_fold [OF this, of ms F] have bs: "buckets_of ms bs" by (simp add: bs_def)
  have path: "pc_Package (packageOfBucket F b) = p" if "(p, b) \<in> set bs" for p b
    using bs that by (auto simp: buckets_of_def bucket_of_def packageOfBucket_def Let_def)
  have paths: "map (pc_Package \<circ> (\<lambda>(_, b). packageOfBucket F b)) bs = map fst bs"
    by (rule map_cong) (auto simp: path)
  let ?ps = "map (\<lambda>(_, b). packageOfBucket F b) bs"
  have agg: "aggregatePackageComplexity F ms = sort_slice package_less ?ps"
    by (simp add: aggregatePackageComplexity_def bs_def)
  have "mset (map pc_Package (sort_slice package_less ?ps)) = mset (map pc_Package ?ps)"
    unfolding mset_map mset_sort_slice ..
  moreover have "map pc_Package ?ps = map fst bs" unfolding map_map by (rule paths)
  ultimately have m: "mset (map pc_Package (sort_slice package_less ?ps)) = mset (map fst bs)" by metis
  have "package_summary (filter (\<lambda>m. fc_Package m = p) ms) (packageOfBucket F b)" if "(p, b) \<in> set bs" for p b
    using bs that by (auto simp: buckets_of_def bucket_of_def packageOfBucket_def package_summary_def Let_def)
  then have "\<forall>P \<in> set ?ps. package_summary (filter (\<lambda>m. fc_Package m = pc_Package P) ms) P"
    using path by auto
  moreover have "distinct (map pc_Package (sort_slice package_less ?ps))"
    using mset_eq_imp_distinct_iff [OF m] bs by (simp add: buckets_of_def)
  moreover have "pc_Package ` set (sort_slice package_less ?ps) = fc_Package ` set ms"
    using mset_eq_setD [OF m] bs by (simp add: buckets_of_def)
  ultimately show ?thesis unfolding agg by simp
qed


text \<open>
  Two functions of one package, one of them below the threshold.
\<close>

definition sample_decl :: "string \<Rightarrow> stmt list \<Rightarrow> FuncDecl" where
  "sample_decl name body = \<lparr>fd_Recv = NilExpr, fd_Name = name, fd_Body = Block body, fd_File = ''a.go'',
     fd_Line = 1, fd_Lbrace = 1, fd_Rbrace = 5\<rparr>"

definition sample_metrics :: "int FunctionComplexity list" where
  "sample_metrics = extractComplexityFromSyntax sample_floats
     [(''app'', [[sample_decl ''run'' [IfStmt NilStmt (Ident ''ok'') (Block []) NilStmt], sample_decl ''main'' []]])]"

definition sample_complexity_opts :: "int ComplexityOptions" where
  "sample_complexity_opts = \<lparr>co_MinCyclomatic = 2, co_MinCognitive = 0, co_MinHalsteadVolume = 0,
     co_MaxMaintainabilityIndex = 0, co_SortBy = '''', co_IncludePackages = True\<rparr>"


end
