(* ===== verification/Go_Paths.thy ===== *)
theory Go_Paths
  imports Go_Strings
begin

text \<open>
  What the program uses of \<^verbatim>\<open>path/filepath\<close> on Unix, where the separator is \<open>/\<close> and
  \<^verbatim>\<open>ToSlash\<close> / \<^verbatim>\<open>FromSlash\<close> are the identity. A path is cleaned on its segments.
\<close>

definition IsAbs :: "string \<Rightarrow> bool" where
  "IsAbs p \<longleftrightarrow> HasPrefix p ''/''"

text \<open>The segments that survive cleaning, in reverse, \<open>out\<close> being those already kept.\<close>

fun clean_segs :: "bool \<Rightarrow> string list \<Rightarrow> string list \<Rightarrow> string list" where
  "clean_segs rooted out [] = out"
| "clean_segs rooted out (s # ss) =
     (if s = '''' \<or> s = ''.'' then clean_segs rooted out ss
      else if s = ''..'' then
        (case out of
           o1 # os \<Rightarrow> if o1 \<noteq> ''..'' then clean_segs rooted os ss
                     else if rooted then clean_segs rooted out ss
                     else clean_segs rooted (''..'' # out) ss
         | [] \<Rightarrow> if rooted then clean_segs rooted [] ss else clean_segs rooted [''..''] ss)
      else clean_segs rooted (s # out) ss)"

definition path_segs :: "string \<Rightarrow> string list" where
  "path_segs p = rev (clean_segs (IsAbs p) [] (Split CHR ''/'' p))"

definition path_string :: "bool \<Rightarrow> string list \<Rightarrow> string" where
  "path_string rooted segs =
     (if rooted then CHR ''/'' # Join ''/'' segs
      else if segs = [] then ''.'' else Join ''/'' segs)"

definition Clean :: "string \<Rightarrow> string" where
  "Clean p = path_string (IsAbs p) (path_segs p)"

definition JoinPath :: "string list \<Rightarrow> string" where
  "JoinPath ps =
     (let qs = dropWhile (\<lambda>p. p = '''') ps
      in if qs = [] then '''' else Clean (Join ''/'' qs))"

definition Base :: "string \<Rightarrow> string" where
  "Base p =
     (if p = '''' then ''.''
      else let q = rev (dropWhile (\<lambda>c. c = CHR ''/'') (rev p))
           in if q = '''' then ''/''
              else (case LastIndex q CHR ''/'' of None \<Rightarrow> q | Some i \<Rightarrow> drop (Suc i) q))"

definition Dir :: "string \<Rightarrow> string" where
  "Dir p = Clean (case LastIndex p CHR ''/'' of None \<Rightarrow> '''' | Some i \<Rightarrow> take (Suc i) p)"

fun strip_common :: "string list \<Rightarrow> string list \<Rightarrow> string list \<times> string list" where
  "strip_common (x # xs) (y # ys) = (if x = y then strip_common xs ys else (x # xs, y # ys))"
| "strip_common xs ys = (xs, ys)"

text \<open>\<^verbatim>\<open>filepath.Rel(base, targ)\<close>; \<open>None\<close> is its error.\<close>

definition Rel :: "string \<Rightarrow> string \<Rightarrow> string option" where
  "Rel base targ =
     (if IsAbs base \<noteq> IsAbs targ then None
      else case strip_common (path_segs base) (path_segs targ) of
             (bs, ts) \<Rightarrow>
               if bs \<noteq> [] \<and> hd bs = ''..'' then None
               else Some (path_string False (map (\<lambda>_. ''..'') bs @ ts)))"

section \<open>Clean paths\<close>

definition plain_seg :: "string \<Rightarrow> bool" where
  "plain_seg s \<longleftrightarrow> s \<noteq> '''' \<and> s \<noteq> ''.'' \<and> s \<noteq> ''..'' \<and> CHR ''/'' \<notin> set s"

text \<open>What cleaning leaves, reversed: leading \<^verbatim>\<open>..\<close> only, and none below the root.\<close>

fun clean_out :: "bool \<Rightarrow> string list \<Rightarrow> bool" where
  "clean_out rooted [] = True"
| "clean_out rooted (s # ss) =
     (clean_out rooted ss \<and>
      (plain_seg s \<or> s = ''..'' \<and> \<not> rooted \<and> (\<forall>t\<in>set ss. t = ''..'')))"

lemma clean_segs_out:
  "clean_out rooted out \<Longrightarrow> (\<And>s. s \<in> set ss \<Longrightarrow> CHR ''/'' \<notin> set s) \<Longrightarrow> clean_out rooted (clean_segs rooted out ss)"
proof (induction rooted out ss rule: clean_segs.induct)
  case (2 rooted out s ss)
  have dots: "o1 = ''..'' \<Longrightarrow> clean_out rooted (o1 # os) \<Longrightarrow> \<forall>t\<in>set os. t = ''..''" for o1 os
    by (auto simp: plain_seg_def)
  show ?case
  proof (cases "s = '''' \<or> s = ''.''")
    case False
    show ?thesis
    proof (cases "s = ''..''")
      case True
      with False 2 show ?thesis
        by (cases out) (auto dest: dots)
    next
      case f: False
      with False 2 show ?thesis by (auto simp: plain_seg_def)
    qed
  qed (use 2 in auto)
qed simp

lemma path_segs_clean: "clean_out (IsAbs p) (rev (path_segs p))"
  unfolding path_segs_def rev_rev_ident
  by (rule clean_segs_out) (auto dest: Split_no_sep)

lemma clean_segs_plain:
  "\<lbrakk>\<And>s. s \<in> set ss \<Longrightarrow> plain_seg s\<rbrakk> \<Longrightarrow> clean_segs rooted out ss = rev ss @ out"
  by (induction ss arbitrary: out) (auto simp: plain_seg_def)

lemma clean_segs_dots:
  "clean_segs False (replicate n ''..'') (replicate m ''..'' @ ss)
   = clean_segs False (replicate (n + m) ''..'') ss"
proof (induction m arbitrary: n)
  case (Suc m)
  have "clean_segs False (replicate n ''..'') (''..'' # replicate m ''..'' @ ss)
      = clean_segs False (replicate (Suc n) ''..'') (replicate m ''..'' @ ss)"
    by (cases n) auto
  with Suc.IH [of "Suc n"] show ?case by simp
qed simp

text \<open>A cleaned list of segments is dots, then plain segments.\<close>

lemma clean_out_split:
  "clean_out rooted out \<Longrightarrow>
     \<exists>n ps. rev out = replicate n ''..'' @ ps \<and> (\<forall>s\<in>set ps. plain_seg s) \<and> (rooted \<longrightarrow> n = 0)"
proof (induction rooted out rule: clean_out.induct)
  case (1 rooted)
  have "rev [] = replicate 0 ''..'' @ [] \<and> (\<forall>s\<in>set []. plain_seg s) \<and> (rooted \<longrightarrow> 0 = (0::nat))" by simp
  then show ?case by blast
next
  case (2 rooted s ss)
  then obtain n ps where n: "rev ss = replicate n ''..'' @ ps" "\<forall>s\<in>set ps. plain_seg s" "rooted \<longrightarrow> n = 0"
    by auto
  show ?case
  proof (cases "plain_seg s")
    case True
    with n have "rev (s # ss) = replicate n ''..'' @ (ps @ [s])" "\<forall>t\<in>set (ps @ [s]). plain_seg t" by auto
    with n show ?thesis by blast
  next
    case False
    with 2 have s: "s = ''..''" "\<not> rooted" "\<forall>t\<in>set ss. t = ''..''" by auto
    then have "ss = replicate (length ss) ''..''" by (metis replicate_eqI)
    then have "rev (s # ss) = replicate (Suc (length ss)) ''..'' @ []"
      using s(1) by simp (metis replicate_append_same rev_replicate)
    moreover have "\<forall>t\<in>set ([]::string list). plain_seg t" by simp
    ultimately show ?thesis using s by blast
  qed
qed

lemma clean_segs_id:
  assumes "clean_out rooted (rev segs)"
  shows "clean_segs rooted [] segs = rev segs"
proof -
  obtain n ps where n: "segs = replicate n ''..'' @ ps" "\<forall>s\<in>set ps. plain_seg s" "rooted \<longrightarrow> n = 0"
    using clean_out_split [OF assms] by auto
  show ?thesis
  proof (cases rooted)
    case True
    with n show ?thesis using clean_segs_plain [of ps True "[]"] by simp
  next
    case False
    have "clean_segs False [] segs = clean_segs False (replicate n ''..'') ps"
      using clean_segs_dots [of 0 n ps] n by simp
    also have "\<dots> = rev segs" using n clean_segs_plain [of ps False] by simp
    finally show ?thesis using False by simp
  qed
qed

lemma clean_out_no_slash: "clean_out rooted out \<Longrightarrow> s \<in> set out \<Longrightarrow> CHR ''/'' \<notin> set s \<and> s \<noteq> []"
proof (induction out)
  case (Cons a ss)
  have head: "CHR ''/'' \<notin> set a \<and> a \<noteq> []"
    using Cons.prems(1) by (cases "a = ''..''") (simp_all add: plain_seg_def)
  show ?case
  proof (cases "s = a")
    case False
    with Cons.prems have "clean_out rooted ss" "s \<in> set ss" by simp_all
    then show ?thesis by (rule Cons.IH)
  qed (use head in simp)
qed simp

lemma path_segs_path_string:
  assumes "clean_out rooted (rev segs)"
  shows "path_segs (path_string rooted segs) = segs" "IsAbs (path_string rooted segs) = rooted"
proof -
  have ns: "\<And>s. s \<in> set segs \<Longrightarrow> CHR ''/'' \<notin> set s \<and> s \<noteq> []"
    using clean_out_no_slash [OF assms] by auto
  show abs: "IsAbs (path_string rooted segs) = rooted"
  proof (cases segs)
    case Nil
    then show ?thesis by (simp add: path_string_def IsAbs_def HasPrefix_def)
  next
    case (Cons s ss)
    then have "s \<noteq> []" "CHR ''/'' \<notin> set s" using ns by auto
    then show ?thesis
      using Cons by (cases s; cases ss) (auto simp: path_string_def IsAbs_def HasPrefix_def)
  qed
  have split: "Split CHR ''/'' (Join ''/'' segs) = segs" if "segs \<noteq> []"
    using Split_Join [OF that, of "CHR ''/''"] ns by simp
  show "path_segs (path_string rooted segs) = segs"
    unfolding path_segs_def abs
    using clean_segs_id [OF assms]
    by (cases "segs = []") (auto simp: path_string_def split)
qed

lemma path_segs_Clean [simp]: "path_segs (Clean p) = path_segs p"
  by (simp add: Clean_def path_segs_path_string path_segs_clean)

lemma IsAbs_Clean [simp]: "IsAbs (Clean p) = IsAbs p"
  by (simp add: Clean_def path_segs_path_string path_segs_clean)

lemma Clean_idem [simp]: "Clean (Clean p) = Clean p"
  by (simp add: Clean_def path_segs_path_string path_segs_clean)

lemma Rel_same: "IsAbs p = IsAbs q \<Longrightarrow> path_segs p = path_segs q \<Longrightarrow> Rel p q = Some ''.''"
proof -
  have "strip_common xs xs = ([], [])" for xs by (induction xs) auto
  then show "IsAbs p = IsAbs q \<Longrightarrow> path_segs p = path_segs q \<Longrightarrow> Rel p q = Some ''.''"
    by (simp add: Rel_def path_string_def)
qed

lemma slash_Base: "CHR ''/'' \<in> set (Base p) \<Longrightarrow> Base p = ''/''"
  by (auto simp: Base_def Let_def split: if_splits option.splits dest: LastIndex_Some)

end
