(* ===== verification/Patterns.thy ===== *)
theory Patterns
  imports Go_Paths
begin

text \<open>
  Package patterns: splitting the argument of a tool, normalising patterns against the root
  directory, the patterns of a \<^verbatim>\<open>go.work\<close> file (\<^verbatim>\<open>analyzer/workspace.go\<close>) and the test
  whether a package lies in the scope of a pattern (\<^verbatim>\<open>analyzer/scope.go\<close>). The file system is
  an argument: \<open>exists\<close> for \<^verbatim>\<open>os.Stat\<close> succeeding.
\<close>

section \<open>Splitting\<close>

definition pattern_sep :: "char \<Rightarrow> bool" where
  "pattern_sep c \<longleftrightarrow> c = CHR '','' \<or> c = CHR 0x0A \<or> c = CHR 0x0D \<or> c = CHR 0x09"

definition SplitPatterns :: "string \<Rightarrow> string list" where
  "SplitPatterns pattern =
     (if pattern = '''' then [''./...'']
      else let out = dedup (filter (\<lambda>s. s \<noteq> '''') (map TrimSpace (FieldsFunc pattern_sep pattern)))
           in if out = [] then [''./...''] else out)"

section \<open>Normalising\<close>

definition pathExists :: "(string \<Rightarrow> bool) \<Rightarrow> string \<Rightarrow> bool" where
  "pathExists exists path \<longleftrightarrow> path \<noteq> '''' \<and> exists path"

text \<open>The directory a pattern without its \<^verbatim>\<open>/...\<close> stands for.\<close>

definition absoluteBase :: "string \<Rightarrow> string \<Rightarrow> string" where
  "absoluteBase dir base = (if IsAbs base then base else JoinPath [dir, base])"

definition normalizePatternForDir :: "(string \<Rightarrow> bool) \<Rightarrow> string \<Rightarrow> string \<Rightarrow> string" where
  "normalizePatternForDir exists dir pattern =
     (let pattern = TrimSpace pattern
      in if pattern = '''' then ''''
         else let unixPattern = slashes pattern;
                  recursive = HasSuffix unixPattern ''/...'';
                  base = (if recursive then TrimSuffix unixPattern ''/...'' else unixPattern);
                  absBase = absoluteBase dir base
              in if \<not> pathExists exists absBase then unixPattern
                 else case Rel dir absBase of
                        None \<Rightarrow> unixPattern
                      | Some rel \<Rightarrow>
                          if rel = ''.'' then (if recursive then ''./...'' else ''.'')
                          else let norm = ''./'' @ rel
                               in if recursive then norm @ ''/...'' else norm)"

definition normalizePatternsForDir :: "(string \<Rightarrow> bool) \<Rightarrow> string \<Rightarrow> string list \<Rightarrow> string list" where
  "normalizePatternsForDir exists dir patterns =
     (let out = dedup (filter (\<lambda>s. s \<noteq> '''') (map (normalizePatternForDir exists dir) patterns))
      in if out = [] then [''./...''] else out)"

section \<open>Scopes\<close>

definition scopeMatches :: "string \<Rightarrow> string \<Rightarrow> string \<Rightarrow> bool" where
  "scopeMatches pkgDir root pattern =
     (let cleanPkg = Clean pkgDir; cleanRoot = Clean root; p = TrimSpace pattern
      in if p = '''' then False
         else if p = ''./...'' \<or> p = ''...'' then True
         else let recursive = HasSuffix p ''/...'';
                  base = TrimSuffix p ''/...'';
                  absBase = Clean (absoluteBase cleanRoot base)
              in if recursive then
                   (if cleanPkg = absBase then True
                    else case Rel absBase cleanPkg of
                           None \<Rightarrow> False
                         | Some rel \<Rightarrow> rel \<noteq> ''.'' \<and> rel \<noteq> ''..'' \<and> \<not> HasPrefix rel ''../'')
                 else cleanPkg = absBase)"

definition matchesAnyScope :: "string \<Rightarrow> string \<Rightarrow> string list \<Rightarrow> bool" where
  "matchesAnyScope pkgDir root patterns = list_ex (scopeMatches pkgDir root) patterns"

text \<open>A package is its path and its compiled Go files.\<close>

definition selectedPackageSet ::
  "(string \<Rightarrow> bool) \<Rightarrow> (string \<times> string list) list \<Rightarrow> string \<Rightarrow> string list \<Rightarrow> string list" where
  "selectedPackageSet exists packages root patterns =
     (let normalized = normalizePatternsForDir exists root patterns
      in map fst (filter (\<lambda>(path, files). path \<noteq> '''' \<and> files \<noteq> []
                    \<and> matchesAnyScope (Dir (hd files)) root normalized) packages))"

section \<open>Workspace files\<close>

fun IndexStr :: "string \<Rightarrow> string \<Rightarrow> nat option" where
  "IndexStr [] p = (if p = [] then Some 0 else None)"
| "IndexStr (c # s) p = (if HasPrefix (c # s) p then Some 0 else map_option Suc (IndexStr s p))"

text \<open>The directory a line of \<^verbatim>\<open>go.work\<close> is read as; empty if none.\<close>

definition useValue :: "string \<Rightarrow> string" where
  "useValue line =
     (if HasPrefix line ''use '' then
        (let v = TrimSpace (TrimPrefix line ''use '');
             v = (case IndexStr v ''//'' of Some i \<Rightarrow> TrimSpace (take i v) | None \<Rightarrow> v)
         in if v = ''('' then '''' else v)
      else if \<not> HasPrefix line ''go '' \<and> \<not> HasPrefix line ''toolchain '' \<and> line \<noteq> ''('' \<and> line \<noteq> '')''
              \<and> line \<noteq> '''' \<and> \<not> HasPrefix line ''//'' then line
      else '''')"

definition parseGoWorkModuleDirs :: "string option \<Rightarrow> string list" where
  "parseGoWorkModuleDirs content =
     (case content of
        None \<Rightarrow> []
      | Some text \<Rightarrow>
          concat (map (\<lambda>line. let v = useValue (TrimSpace line)
                              in if v = '''' \<or> v = ''.'' then []
                                 else [''./'' @ TrimPrefix (slashes v) ''./'' @ ''/...''])
                      (Split CHR 0x0A text)))"

definition WorkspaceFallbackPatterns ::
  "(string \<Rightarrow> bool) \<Rightarrow> (string \<Rightarrow> string option) \<Rightarrow> string \<Rightarrow> string list" where
  "WorkspaceFallbackPatterns exists readFile dir =
     (let goWork = JoinPath [dir, ''go.work'']
      in if \<not> pathExists exists goWork then [''./...'']
         else ''./...'' # parseGoWorkModuleDirs (readFile goWork))"

section \<open>Joining relative paths\<close>

lemma clean_segs_append:
  "clean_segs r out (xs @ ys) = clean_segs r (clean_segs r out xs) ys"
  by (induction r out xs rule: clean_segs.induct) (auto split: list.splits)

lemma Split_append: "Split c (s @ c # t) = Split c s @ Split c t"
proof (induction s)
  case (Cons a s)
  then show ?case by (cases "Split c s") auto
qed simp

lemma clean_segs_rooted_irrelevant:
  "(\<And>s. s \<in> set ss \<Longrightarrow> plain_seg s) \<Longrightarrow> clean_segs r out ss = clean_segs r' out ss"
  by (simp add: clean_segs_plain)

lemma pop_dots:
  "(\<And>s. s \<in> set bs \<Longrightarrow> plain_seg s) \<Longrightarrow> clean_segs r (rev bs @ out) (map (\<lambda>_. ''..'') bs @ ts) = clean_segs r out ts"
proof (induction bs arbitrary: ts rule: rev_induct)
  case (snoc b bs)
  then have "b \<noteq> ''..''" by (auto simp: plain_seg_def)
  with snoc.IH [of "''..'' # ts"] snoc.prems
  have "clean_segs r (b # rev bs @ out) (''..'' # map (\<lambda>_. ''..'') bs @ ts) = clean_segs r (rev bs @ out) (map (\<lambda>_. ''..'') bs @ ts)"
    by simp
  moreover have "map (\<lambda>_. ''..'') (bs @ [b]) @ ts = ''..'' # map (\<lambda>_. ''..'') bs @ ts"
    by (induction bs) auto
  ultimately show ?case using snoc by simp
qed simp

lemma path_segs_Join:
  assumes "dir \<noteq> ''''"
  shows "path_segs (dir @ ''/'' @ p) = rev (clean_segs (IsAbs dir) (rev (path_segs dir)) (Split CHR ''/'' p))"
proof -
  have "IsAbs (dir @ ''/'' @ p) = IsAbs dir"
    using assms by (cases dir) (auto simp: IsAbs_def HasPrefix_def)
  then show ?thesis
    using Split_append [of "CHR ''/''" dir p] by (simp add: path_segs_def clean_segs_append)
qed

lemma JoinPath_two: "dir \<noteq> '''' \<Longrightarrow> JoinPath [dir, p] = Clean (dir @ ''/'' @ p)"
  by (simp add: JoinPath_def)

lemma strip_common_spec:
  "strip_common xs ys = (bs, ts) \<Longrightarrow> \<exists>cs. xs = cs @ bs \<and> ys = cs @ ts"
proof (induction xs ys arbitrary: bs ts rule: strip_common.induct)
  case (1 x xs y ys)
  show ?case
  proof (cases "x = y")
    case True
    with 1 obtain cs where "xs = cs @ bs" "ys = cs @ ts" by auto
    with True have "x # xs = (x # cs) @ bs" "y # ys = (x # cs) @ ts" by auto
    then show ?thesis by blast
  next
    case False
    with 1 have "x # xs = [] @ bs \<and> y # ys = [] @ ts" by auto
    then show ?thesis by blast
  qed
qed auto

lemma Split_path_string:
  "clean_out False (rev segs) \<Longrightarrow>
     clean_segs r out (Split CHR ''/'' (path_string False segs)) = clean_segs r out segs"
proof (cases "segs = []")
  case False
  assume co: "clean_out False (rev segs)"
  have "\<And>s. s \<in> set segs \<Longrightarrow> CHR ''/'' \<notin> set s"
    using clean_out_no_slash [OF co] by auto
  with False show ?thesis by (simp add: path_string_def Split_Join)
qed (simp add: path_string_def)

lemma plain_after_dots:
  assumes "clean_out r (rev (cs @ bs))" "bs \<noteq> []" "hd bs \<noteq> ''..''" "s \<in> set bs"
  shows "plain_seg s"
proof -
  obtain n ps where n: "cs @ bs = replicate n ''..'' @ ps" "\<forall>s\<in>set ps. plain_seg s"
    using clean_out_split [OF assms(1)] by auto
  show ?thesis
  proof (cases "length cs < n")
    case True
    then have "(cs @ bs) ! length cs = ''..''" using n(1) by (simp add: nth_append)
    moreover have "(cs @ bs) ! length cs = hd bs" using assms(2) by (simp add: nth_append hd_conv_nth)
    ultimately show ?thesis using assms(3) by simp
  next
    case False
    have "drop (length cs) (cs @ bs) = drop (length cs) (replicate n ''..'' @ ps)" by (simp only: n(1))
    with False have "bs = drop (length cs - n) ps" by simp
    with assms(4) n(2) show ?thesis by (metis in_set_dropD)
  qed
qed

lemma clean_out_append_tail:
  assumes "clean_out r (rev (cs @ ts))"
  shows "clean_segs r (rev cs) ts = rev (cs @ ts)"
  using clean_segs_id [OF assms] clean_segs_append [of r "[]" cs ts]
proof -
  have "clean_out r (rev cs)"
  proof -
    have "clean_out r (xs @ ys) \<Longrightarrow> clean_out r ys" for xs ys by (induction xs) auto
    with assms show ?thesis by simp
  qed
  from clean_segs_id [OF this] clean_segs_id [OF assms] clean_segs_append [of r "[]" cs ts]
  show ?thesis by simp
qed

lemma clean_out_rel:
  assumes "clean_out r (rev (cs @ bs))" "clean_out r (rev (cs @ ts))" "bs \<noteq> [] \<longrightarrow> hd bs \<noteq> ''..''"
  shows "clean_out False (rev (map (\<lambda>_. ''..'') bs @ ts))"
proof -
  obtain n ps where n: "cs @ ts = replicate n ''..'' @ ps" "\<forall>s\<in>set ps. plain_seg s"
    using clean_out_split [OF assms(2)] by auto
  have ts: "\<exists>k qs. ts = replicate k ''..'' @ qs \<and> (\<forall>s\<in>set qs. plain_seg s)"
  proof (cases "length cs \<le> n")
    case True
    have "drop (length cs) (cs @ ts) = drop (length cs) (replicate n ''..'' @ ps)" by (simp only: n(1))
    with True have "ts = replicate (n - length cs) ''..'' @ ps" by simp
    with n show ?thesis by blast
  next
    case False
    have "drop (length cs) (cs @ ts) = drop (length cs) (replicate n ''..'' @ ps)" by (simp only: n(1))
    with False have "ts = replicate 0 ''..'' @ drop (length cs - n) ps" by simp
    with n show ?thesis by (metis in_set_dropD)
  qed
  then obtain k qs where k: "ts = replicate k ''..'' @ qs" "\<forall>s\<in>set qs. plain_seg s" by blast
  have dots: "clean_out False (rev (replicate m ''..''))" for m
    by (induction m) (simp_all add: replicate_append_same [symmetric] del: rev_replicate)
  have "clean_out False (rev (replicate m ''..'' @ us))" if "\<forall>s\<in>set us. plain_seg s" for m us
    using that by (induction us rule: rev_induct) (simp_all add: dots del: rev_replicate)
  moreover have "map (\<lambda>_. ''..'') bs @ ts = replicate (length bs + k) ''..'' @ qs"
    by (simp add: k map_replicate_const replicate_add)
  ultimately show ?thesis using k(2) by simp
qed

text \<open>Joining the relative path that \<open>Rel\<close> found leads back to the target.\<close>

lemma Rel_Join:
  assumes "Rel dir targ = Some rel" "dir \<noteq> ''''"
  shows "path_segs (dir @ ''/'' @ rel) = path_segs targ" "path_segs (dir @ ''/./'' @ rel) = path_segs targ"
proof -
  obtain bs ts where st: "strip_common (path_segs dir) (path_segs targ) = (bs, ts)" by fastforce
  with assms have rel: "IsAbs dir = IsAbs targ" "bs = [] \<or> hd bs \<noteq> ''..''"
    "rel = path_string False (map (\<lambda>_. ''..'') bs @ ts)"
    by (auto simp: Rel_def split: if_splits)
  obtain cs where cs: "path_segs dir = cs @ bs" "path_segs targ = cs @ ts"
    using strip_common_spec [OF st] by blast
  have co: "clean_out (IsAbs dir) (rev (cs @ bs))" "clean_out (IsAbs dir) (rev (cs @ ts))"
    using path_segs_clean [of dir] path_segs_clean [of targ] cs rel(1) by auto
  have plain: "plain_seg s" if "s \<in> set bs" for s
  proof -
    from that rel(2) have "bs \<noteq> []" "hd bs \<noteq> ''..''" by auto
    with plain_after_dots [OF co(1)] that show ?thesis by blast
  qed
  have eq: "clean_segs (IsAbs dir) (rev (path_segs dir)) (Split CHR ''/'' rel) = rev (path_segs targ)"
  proof -
    have "clean_out False (rev (map (\<lambda>_. ''..'') bs @ ts))"
      by (rule clean_out_rel [OF co]) (use rel(2) in auto)
    note 1 = Split_path_string [OF this, of "IsAbs dir" "rev (path_segs dir)"]
    have "clean_segs (IsAbs dir) (rev bs @ rev cs) (map (\<lambda>_. ''..'') bs @ ts) = clean_segs (IsAbs dir) (rev cs) ts"
      by (rule pop_dots) (rule plain)
    with 1 clean_out_append_tail [OF co(2)] cs rel(3) show ?thesis by simp
  qed
  then show "path_segs (dir @ ''/'' @ rel) = path_segs targ"
    using path_segs_Join [OF assms(2), of rel] by simp
  show "path_segs (dir @ ''/./'' @ rel) = path_segs targ"
    using path_segs_Join [OF assms(2), of "''./'' @ rel"] eq by (simp add: Split_append [of _ "''.''", simplified])
qed

section \<open>Properties\<close>

lemma TrimSpace_default: "TrimSpace ''./...'' = ''./...''"
  by (simp add: TrimSpace_def go_spaces_def strip_front_id starts_with_any_def)

text \<open>
  Splitting a pattern argument always gives patterns: at least one, without repetition,
  each of them trimmed, non-empty and free of separators; without any field it is the default.
\<close>

theorem SplitPatterns_spec:
  "SplitPatterns pattern \<noteq> [] \<and> distinct (SplitPatterns pattern)
   \<and> list_all (\<lambda>p. p \<noteq> '''' \<and> TrimSpace p = p \<and> list_all (\<lambda>c. \<not> pattern_sep c) p) (SplitPatterns pattern)
   \<and> set (SplitPatterns pattern) = (let fs = TrimSpace ` set (FieldsFunc pattern_sep pattern) - {''''}
        in if fs = {} then {''./...''} else fs)"
proof -
  define out where "out = dedup (filter (\<lambda>s. s \<noteq> []) (map TrimSpace (FieldsFunc pattern_sep pattern)))"
  have set: "set out = TrimSpace ` set (FieldsFunc pattern_sep pattern) - {[]}" by (auto simp: out_def)
  have sep: "\<not> pattern_sep c" if "p \<in> set out" "c \<in> set p" for p c
  proof -
    from that obtain w where "w \<in> set (FieldsFunc pattern_sep pattern)" "p = TrimSpace w"
      by (auto simp: out_def)
    with that(2) have "c \<in> set w" "w \<in> set (SplitWhen pattern_sep pattern)"
      using set_TrimSpace by (auto simp: FieldsFunc_def)
    then show ?thesis using SplitWhen_rejects by blast
  qed
  have trim: "p \<noteq> [] \<and> TrimSpace p = p" if "p \<in> set out" for p
    using that by (auto simp: out_def)
  have d: "list_all (\<lambda>c. \<not> pattern_sep c) ''./...''" by (simp add: pattern_sep_def)
  have "out = []" if "pattern = []" using that by (simp add: out_def FieldsFunc_def)
  then have eq: "SplitPatterns pattern = (if out = [] then [''./...''] else out)"
    by (auto simp: SplitPatterns_def out_def Let_def)
  have dist: "distinct out" by (simp add: out_def)
  show ?thesis
  proof (cases "out = []")
    case True
    with set have "TrimSpace ` set (FieldsFunc pattern_sep pattern) - {[]} = {}" by simp
    with True eq d show ?thesis by (simp add: TrimSpace_default)
  next
    case False
    with set have "TrimSpace ` set (FieldsFunc pattern_sep pattern) - {[]} \<noteq> {}" by (metis set_empty)
    then have "(let fs = TrimSpace ` set (FieldsFunc pattern_sep pattern) - {[]}
        in if fs = {} then {''./...''} else fs) = set out"
      by (simp only: Let_def set if_False)
    moreover have "SplitPatterns pattern = out" by (simp add: eq False)
    ultimately show ?thesis using False sep trim dist by (simp add: list_all_iff)
  qed
qed

definition patternBase :: "string \<Rightarrow> string" where
  "patternBase p = (if HasSuffix p ''/...'' then TrimSuffix p ''/...'' else p)"

text \<open>
  Normalising a pattern of an existing directory keeps the directory: joining the
  normalised base to the root cleans to the same path as the base that was given.
\<close>

theorem normalize_keeps_directory:
  assumes "dir \<noteq> []" "u = slashes (TrimSpace pattern)" "n = normalizePatternForDir exists dir pattern"
    and "u \<noteq> []" "HasSuffix n ''/...'' = HasSuffix u ''/...''"
  shows "path_segs (absoluteBase dir (patternBase n)) = path_segs (absoluteBase dir (patternBase u))"
proof -
  let ?b = "absoluteBase dir (patternBase u)"
  have ne: "TrimSpace pattern \<noteq> []" using assms(2,4) by (auto simp: slashes_def)
  have n: "n = (if \<not> pathExists exists ?b then u
     else case Rel dir ?b of None \<Rightarrow> u
          | Some rel \<Rightarrow> if rel = ''.'' then (if HasSuffix u ''/...'' then ''./...'' else ''.'')
                        else if HasSuffix u ''/...'' then ''./'' @ rel @ ''/...'' else ''./'' @ rel)"
    using ne assms(2)
    by (simp add: assms(3) normalizePatternForDir_def patternBase_def Let_def split: option.split)
  show ?thesis
  proof (cases "pathExists exists ?b \<and> Rel dir ?b \<noteq> None")
    case False
    then have "n = u" using n by auto
    then show ?thesis by simp
  next
    case True
    then obtain rel where rel: "Rel dir ?b = Some rel" by auto
    have rel_segs: "path_segs (absoluteBase dir (''./'' @ rel)) = path_segs ?b"
      using Rel_Join(2) [OF rel assms(1)] assms(1)
      by (simp add: absoluteBase_def IsAbs_def HasPrefix_def JoinPath_two)
    have dot_segs: "path_segs (absoluteBase dir ''.'') = path_segs ?b" if "rel = ''.''"
      using Rel_Join(1) [OF rel assms(1)] assms(1) that
      by (simp add: absoluteBase_def IsAbs_def HasPrefix_def JoinPath_two)
    have suffix: "patternBase (p @ ''/...'') = p" for p
      by (simp add: patternBase_def)
    show ?thesis
    proof (cases "rel = ''.''")
      case dot: True
      with n True rel have "n = (if HasSuffix u ''/...'' then ''.'' @ ''/...'' else ''.'')" by auto
      moreover have "patternBase ''.'' = ''.''" by (simp add: patternBase_def HasSuffix_def)
      ultimately have "patternBase n = ''.''" using suffix [of "''.''"] by (simp split: if_splits)
      with dot_segs dot show ?thesis by simp
    next
      case False
      with n True rel have n': "n = (if HasSuffix u ''/...'' then (''./'' @ rel) @ ''/...'' else ''./'' @ rel)"
        by auto
      have "patternBase n = ''./'' @ rel"
      proof (cases "HasSuffix u ''/...''")
        case True
        then show ?thesis using n' suffix [of "''./'' @ rel"] by simp
      next
        case False
        then show ?thesis using n' assms(5) by (simp add: patternBase_def)
      qed
      with rel_segs show ?thesis by simp
    qed
  qed
qed

theorem normalize_keeps_directory_witness:
  "path_segs (absoluteBase ''/w'' (patternBase ''./b/...'')) = path_segs (absoluteBase ''/w'' (patternBase ''./a/../b/...''))"
proof -
  have "normalizePatternForDir (\<lambda>_. True) ''/w'' ''./a/../b/...'' = ''./b/...''"
    by code_simp
  moreover have "slashes (TrimSpace ''./a/../b/...'') = ''./a/../b/...''"
    by code_simp
  ultimately show ?thesis
    using normalize_keeps_directory [of "''/w''" "''./a/../b/...''" "''./a/../b/...''" "''./b/...''" "\<lambda>_. True"]
    by (simp add: HasSuffix_def)
qed

text \<open>
  C31: \<^verbatim>\<open>go.work\<close> parsing reads any directive other than \<^verbatim>\<open>go\<close>, \<^verbatim>\<open>toolchain\<close> and
  \<^verbatim>\<open>use\<close> as a module directory: a \<^verbatim>\<open>replace\<close> line yields a package pattern.
\<close>

theorem go_work_replace_is_a_module:
  "parseGoWorkModuleDirs (Some (''use ./api'' @ [CHR 0x0A] @ ''replace x => ../x'')) =
     [''./api/...'', ''./replace x => ../x/...'']"
  by code_simp

end
