(* ===== verification/Duplicate_Methods.thy ===== *)
theory Duplicate_Methods
  imports Complexity_Report Patterns
begin

text \<open>
  \<^verbatim>\<open>analyzer/duplicate_methods.go\<close>: fingerprints of functions, and the groups of functions
  with the same signature and the same body. \<^verbatim>\<open>go/printer\<close> and SHA-256 are parameters. The
  map of buckets is the list of its keys in the order in which they are first met; that order
  stands for the iteration order of the map, and shows only in groups the sort cannot tell
  apart.
\<close>

section \<open>Fingerprints\<close>

record MethodFingerprint =
  mf_Function :: string
  mf_Package :: string
  mf_Receiver :: string
  mf_Name :: string
  mf_Signature :: string
  mf_BodyHash :: string
  mf_BodyLines :: int
  mf_File :: string
  mf_Line :: int

text \<open>
  The printer gives the text of the parameter list, of the result list and of the body of a
  declaration; a declaration without results prints none.
\<close>

record source_printer =
  sn_Params :: "FuncDecl \<Rightarrow> string option"
  sn_Results :: "FuncDecl \<Rightarrow> string option"
  sn_Body :: "FuncDecl \<Rightarrow> string"
  sn_Sha256 :: "string \<Rightarrow> string"

definition collapsible :: "char \<Rightarrow> bool" where
  "collapsible c \<longleftrightarrow> c = CHR '' '' \<or> c = CHR 0x09 \<or> c = CHR 0x0A \<or> c = CHR 0x0D"

fun collapse :: "bool \<Rightarrow> string \<Rightarrow> string" where
  "collapse prev [] = []"
| "collapse prev (c # s) =
     (if collapsible c then (if \<not> prev then CHR '' '' # collapse True s else collapse prev s)
      else c # collapse False s)"

definition collapseWhitespace :: "string \<Rightarrow> string" where
  "collapseWhitespace s = TrimSpace (collapse False s)"

definition normalizedSignature :: "source_printer \<Rightarrow> FuncDecl \<Rightarrow> string" where
  "normalizedSignature P fd =
     collapseWhitespace
       ((case sn_Params P fd of Some t \<Rightarrow> t | None \<Rightarrow> '''')
        @ (case sn_Results P fd of Some t \<Rightarrow> '' '' @ t | None \<Rightarrow> ''''))"

definition hashFuncBody :: "source_printer \<Rightarrow> FuncDecl \<Rightarrow> string \<times> int" where
  "hashFuncBody P fd =
     (if fd_Body fd = NilBlock then ('''', 0)
      else
        (let normalized = collapseWhitespace (sn_Body P fd);
             lines = fd_Rbrace fd - fd_Lbrace fd + 1
         in (hex_encode (sn_Sha256 P normalized), if lines < 0 then 0 else lines)))"

definition buildMethodFingerprint :: "source_printer \<Rightarrow> string \<Rightarrow> FuncDecl \<Rightarrow> MethodFingerprint option" where
  "buildMethodFingerprint P pkgPath fd =
     (if fd_File fd = '''' then None
      else
        (let receiver = receiverName fd;
             (bodyHash, bodyLines) = hashFuncBody P fd;
             qualified = pkgPath @ ''.'' @ (if receiver \<noteq> '''' then receiver @ ''.'' else '''') @ fd_Name fd
         in Some \<lparr>mf_Function = qualified, mf_Package = pkgPath, mf_Receiver = receiver, mf_Name = fd_Name fd,
              mf_Signature = normalizedSignature P fd, mf_BodyHash = bodyHash, mf_BodyLines = bodyLines,
              mf_File = fd_File fd, mf_Line = fd_Line fd\<rparr>))"

definition extractMethodFingerprintsFromSyntax ::
  "source_printer \<Rightarrow> (string \<times> FuncDecl list list) list \<Rightarrow> MethodFingerprint list" where
  "extractMethodFingerprintsFromSyntax P pkgs =
     concat (map (\<lambda>(path, files).
       if files = [] \<or> path = '''' then []
       else List.map_filter (buildMethodFingerprint P path)
              (filter (\<lambda>fd. fd_Body fd \<noteq> NilBlock) (concat files))) pkgs)"

section \<open>Groups\<close>

record DuplicateMethodLocation =
  dl_Function :: string
  dl_Package :: string
  dl_Receiver :: string
  dl_Name :: string
  dl_File :: string
  dl_Line :: int
  dl_Anchor :: string

record DuplicateMethodGroup =
  dg_Signature :: string
  dg_BodyHash :: string
  dg_BodyLines :: int
  dg_Count :: int
  dg_Locations :: "DuplicateMethodLocation list"

record DuplicateMethodsResult =
  dm_Groups :: "DuplicateMethodGroup list"
  dm_Total :: int
  dm_MinBodyLines :: int
  dm_ScopePattern :: string
  dm_Notes :: "string list"
  dm_Offset :: int
  dm_Limit :: int
  dm_MaxItems :: int
  dm_ChunkSize :: int
  dm_NextCursor :: string
  dm_HasMore :: bool
  dm_TotalBeforeTruncate :: int
  dm_Truncated :: bool

record DuplicateMethodsOptions =
  dn_MinBodyLines :: int
  dn_ScopePattern :: string

definition groupKey :: "MethodFingerprint \<Rightarrow> string \<times> string" where
  "groupKey fp = (mf_Signature fp, mf_BodyHash fp)"

definition considered :: "string list \<Rightarrow> int \<Rightarrow> MethodFingerprint \<Rightarrow> bool" where
  "considered scopePkgs minLines fp \<longleftrightarrow>
     \<not> (mf_BodyHash fp = '''' \<or> mf_BodyLines fp < minLines)
     \<and> \<not> (scopePkgs \<noteq> [] \<and> mf_Package fp \<notin> set scopePkgs)"

definition buckets :: "MethodFingerprint list \<Rightarrow> ((string \<times> string) \<times> MethodFingerprint list) list" where
  "buckets fps = map (\<lambda>k. (k, filter (\<lambda>fp. groupKey fp = k) fps)) (dedup (map groupKey fps))"

definition member_less :: "MethodFingerprint \<Rightarrow> MethodFingerprint \<Rightarrow> bool" where
  "member_less a b =
     (if mf_Package a \<noteq> mf_Package b then mf_Package a < mf_Package b
      else if mf_Function a \<noteq> mf_Function b then mf_Function a < mf_Function b
      else mf_File a < mf_File b)"

definition locationOf :: "MethodFingerprint \<Rightarrow> DuplicateMethodLocation" where
  "locationOf m =
     \<lparr>dl_Function = mf_Function m, dl_Package = mf_Package m, dl_Receiver = mf_Receiver m, dl_Name = mf_Name m,
      dl_File = mf_File m, dl_Line = mf_Line m, dl_Anchor = contextAnchor (mf_File m) (mf_Line m) (mf_Name m)\<rparr>"

definition groupOf :: "(string \<times> string) \<times> MethodFingerprint list \<Rightarrow> DuplicateMethodGroup" where
  "groupOf b =
     (let members = sort_slice member_less (snd b)
      in \<lparr>dg_Signature = fst (fst b), dg_BodyHash = snd (fst b), dg_BodyLines = mf_BodyLines (hd members),
          dg_Count = int (length members), dg_Locations = map locationOf members\<rparr>)"

definition group_less :: "DuplicateMethodGroup \<Rightarrow> DuplicateMethodGroup \<Rightarrow> bool" where
  "group_less a b =
     (if dg_Count a \<noteq> dg_Count b then dg_Count a > dg_Count b
      else if dg_BodyLines a \<noteq> dg_BodyLines b then dg_BodyLines a > dg_BodyLines b
      else dg_BodyHash a < dg_BodyHash b)"

definition duplicateGroupKey :: "DuplicateMethodGroup \<Rightarrow> string" where
  "duplicateGroupKey g = dg_BodyHash g @ ''|'' @ dg_Signature g"

definition duplicateNotes :: "string list" where
  "duplicateNotes =
     [''Bodies are compared after whitespace normalization and comment stripping; identifier renames still count as distinct.'',
      ''Generic type parameter differences do NOT split groups '' @ [CHR 0xE2, CHR 0x80, CHR 0x94] @ '' a duplicate body across two type parameters is reported once.'',
      ''Short bodies are filtered by min_body_lines (default 3) to avoid trivial getter/setter collisions.'',
      ''Test files (*_test.go) are not loaded into the analysis program; duplicates inside tests are not reported.'']"

text \<open>
  The tool over the loaded program: its packages with their files, for the scope, and the
  fingerprints that were extracted when it was loaded.
\<close>

datatype duplicate_error = DupLoad string | DupStream stream_error

definition FindDuplicateMethodsWithOptions ::
  "paging \<Rightarrow> (string \<Rightarrow> bool) \<Rightarrow> string + ((string \<times> string list) list \<times> MethodFingerprint list)
     \<Rightarrow> string \<Rightarrow> string \<Rightarrow> DuplicateMethodsOptions \<Rightarrow> QueryOptions \<Rightarrow> duplicate_error + DuplicateMethodsResult"
where
  "FindDuplicateMethodsWithOptions pg exists loaded dir pattern dmOpts opts =
     (case loaded of
        Inl err \<Rightarrow> Inl (DupLoad (''loading packages: '' @ err))
      | Inr (pkgs, fingerprints) \<Rightarrow>
          (let scopePkgs = selectedPackageSet exists pkgs dir (SplitPatterns (dn_ScopePattern dmOpts));
               minLines = (if dn_MinBodyLines dmOpts \<le> 0 then 3 else dn_MinBodyLines dmOpts);
               bs = buckets (filter (considered scopePkgs minLines) fingerprints);
               groups = sort_slice group_less (map groupOf (filter (\<lambda>b. \<not> length (snd b) < 2) bs))
           in case page_items pg groups (''duplicate_methods:'' @ dir @ ''|'' @ pattern) duplicateGroupKey opts of
                Inl e \<Rightarrow> Inl (DupStream e)
              | Inr w \<Rightarrow> Inr
                  \<lparr>dm_Groups = wr_items w, dm_Total = int (length groups), dm_MinBodyLines = minLines,
                   dm_ScopePattern = dn_ScopePattern dmOpts, dm_Notes = duplicateNotes,
                   dm_Offset = qo_Offset opts, dm_Limit = qo_Limit opts, dm_MaxItems = qo_MaxItems opts,
                   dm_ChunkSize = (if qo_ChunkSize opts > 0 then clampChunkSize (pg_env pg) (qo_ChunkSize opts) else 0),
                   dm_NextCursor = wr_next w, dm_HasMore = wr_more w,
                   dm_TotalBeforeTruncate = int (length groups), dm_Truncated = wr_truncated w\<rparr>))"

definition FindDuplicateMethods ::
  "paging \<Rightarrow> (string \<Rightarrow> bool) \<Rightarrow> string + ((string \<times> string list) list \<times> MethodFingerprint list)
     \<Rightarrow> string \<Rightarrow> string \<Rightarrow> duplicate_error + DuplicateMethodsResult"
where
  "FindDuplicateMethods pg exists loaded dir pattern =
     FindDuplicateMethodsWithOptions pg exists loaded dir pattern \<lparr>dn_MinBodyLines = 0, dn_ScopePattern = ''''\<rparr>
       plain_opts"

section \<open>Laws\<close>

definition member_key :: "MethodFingerprint \<Rightarrow> string \<times> string \<times> string" where
  "member_key m = (mf_Package m, mf_Function m, mf_File m)"

interpretation members: key_order member_less member_key
  by unfold_locales (auto simp: member_less_def member_key_def less_prod_def')

definition group_key :: "DuplicateMethodGroup \<Rightarrow> int \<times> int \<times> string" where
  "group_key g = (- dg_Count g, - dg_BodyLines g, dg_BodyHash g)"

interpretation groups: key_order group_less group_key
  by unfold_locales (auto simp: group_less_def group_key_def less_prod_def')

text \<open>Collapsed text has no two blanks in a row, so collapsing it again changes nothing.\<close>

lemma collapse_idem: "collapse b (collapse b s) = collapse b s"
  by (induction b s rule: collapse.induct) (auto simp: collapsible_def)

lemma collapse_prefix:
  "collapse False (a @ b) = collapse False b" if "list_all collapsible a" "b \<noteq> []" "collapsible (hd b)" for a b
proof -
  have "collapse True (a @ b) = collapse True b" if "list_all collapsible a" for a
    using that by (induction a) auto
  with that show ?thesis by (cases a; cases b) auto
qed

lemma buckets_bucket: "(k, ms) \<in> set (buckets fps) \<longleftrightarrow> k \<in> groupKey ` set fps \<and> ms = filter (\<lambda>fp. groupKey fp = k) fps"
  by (auto simp: buckets_def)

lemma buckets_distinct: "distinct (map fst (buckets fps))"
  by (simp add: buckets_def comp_def)

definition gkey :: "DuplicateMethodGroup \<Rightarrow> string \<times> string" where
  "gkey g = (dg_Signature g, dg_BodyHash g)"

lemma groupOf_fields [simp]:
  "gkey (groupOf b) = fst b" "dg_Count (groupOf b) = int (length (snd b))"
  "mset (dg_Locations (groupOf b)) = mset (map locationOf (snd b))"
  by (simp_all add: groupOf_def gkey_def Let_def)

lemma FindDuplicateMethods_run:
  assumes "no_paging opts"
  shows "\<exists>r. FindDuplicateMethodsWithOptions pg exists (Inr (pkgs, fps)) dir pattern dmOpts opts = Inr r
     \<and> dm_Groups r = sort_slice group_less (map groupOf (filter (\<lambda>b. \<not> length (snd b) < 2)
          (buckets (filter (considered (selectedPackageSet exists pkgs dir (SplitPatterns (dn_ScopePattern dmOpts)))
              (dm_MinBodyLines r)) fps))))
     \<and> dm_MinBodyLines r = (if dn_MinBodyLines dmOpts \<le> 0 then 3 else dn_MinBodyLines dmOpts)
     \<and> dm_Total r = int (length (dm_Groups r))"
  by (simp add: FindDuplicateMethodsWithOptions_def page_items_all [OF assms] Let_def)

text \<open>
  C38: without paging the duplicate report is exact: its groups are the pairs of a signature and
  a body that at least two of the functions in scope with long enough bodies share, each pair
  once; the locations of a group are those functions and no others, as many as its count says;
  larger groups come first, then those with longer bodies.
\<close>

theorem duplicate_groups_exact:
  assumes "no_paging opts" and "selectedPackageSet exists pkgs dir (SplitPatterns (dn_ScopePattern dmOpts)) = scope"
  shows "\<exists>r. FindDuplicateMethodsWithOptions pg exists (Inr (pkgs, fps)) dir pattern dmOpts opts = Inr r
     \<and> (\<forall>k. k \<in> gkey ` set (dm_Groups r) \<longleftrightarrow>
          2 \<le> length (filter (\<lambda>fp. considered scope (dm_MinBodyLines r) fp \<and> groupKey fp = k) fps))
     \<and> distinct (map gkey (dm_Groups r))
     \<and> (\<forall>g \<in> set (dm_Groups r). mset (dg_Locations g) = mset (map locationOf
            (filter (\<lambda>fp. considered scope (dm_MinBodyLines r) fp \<and> groupKey fp = gkey g) fps))
          \<and> dg_Count g = int (length (dg_Locations g)))
     \<and> sorted (map group_key (dm_Groups r)) \<and> dm_Total r = int (length (dm_Groups r))"
proof -
  obtain r where r: "FindDuplicateMethodsWithOptions pg exists (Inr (pkgs, fps)) dir pattern dmOpts opts = Inr r"
    "dm_Groups r = sort_slice group_less (map groupOf (filter (\<lambda>b. \<not> length (snd b) < 2)
          (buckets (filter (considered scope (dm_MinBodyLines r)) fps))))"
    "dm_Total r = int (length (dm_Groups r))"
    using FindDuplicateMethods_run [OF assms(1), of pg exists pkgs fps dir pattern dmOpts]
    unfolding assms(2) by blast
  define fs where "fs = filter (considered scope (dm_MinBodyLines r)) fps"
  define bs where "bs = filter (\<lambda>b. \<not> length (snd b) < 2) (buckets fs)"
  have inn: "filter (\<lambda>fp. considered scope (dm_MinBodyLines r) fp \<and> groupKey fp = k) fps
      = filter (\<lambda>fp. groupKey fp = k) fs" for k
    by (simp add: fs_def conj_commute)
  have groups: "dm_Groups r = sort_slice group_less (map groupOf bs)"
    using r(2) by (simp only: bs_def fs_def)
  have bucket: "b \<in> set bs \<longleftrightarrow> 2 \<le> length (snd b) \<and> snd b = filter (\<lambda>fp. groupKey fp = fst b) fs
      \<and> fst b \<in> groupKey ` set fs" for b
    using buckets_bucket [of "fst b" "snd b" fs] by (auto simp: bs_def)
  have K: "k \<in> gkey ` set (dm_Groups r) \<longleftrightarrow> 2 \<le> length (filter (\<lambda>fp. groupKey fp = k) fs)" for k
  proof
    assume "k \<in> gkey ` set (dm_Groups r)"
    then obtain b where "b \<in> set bs" "k = fst b" by (auto simp: groups)
    then show "2 \<le> length (filter (\<lambda>fp. groupKey fp = k) fs)" using bucket [of b] by metis
  next
    assume two: "2 \<le> length (filter (\<lambda>fp. groupKey fp = k) fs)"
    then have "filter (\<lambda>fp. groupKey fp = k) fs \<noteq> []" by auto
    then have "k \<in> groupKey ` set fs" by (auto simp: filter_empty_conv)
    then have "(k, filter (\<lambda>fp. groupKey fp = k) fs) \<in> set bs" using bucket two by simp
    then have "gkey (groupOf (k, filter (\<lambda>fp. groupKey fp = k) fs)) \<in> gkey ` set (dm_Groups r)"
      by (auto simp only: groups set_sort_slice set_map)
    then show "k \<in> gkey ` set (dm_Groups r)" by simp
  qed
  have D: "distinct (map gkey (dm_Groups r))"
  proof -
    have "distinct (map (gkey \<circ> groupOf) bs)"
      using buckets_distinct [of fs] unfolding bs_def by (simp add: comp_def distinct_map_filter)
    then have "distinct (map gkey (map groupOf bs))" by simp
    moreover have "mset (map gkey (dm_Groups r)) = mset (map gkey (map groupOf bs))"
      by (simp only: groups mset_map mset_sort_slice)
    ultimately show ?thesis using mset_eq_imp_distinct_iff by blast
  qed
  have L: "mset (dg_Locations g) = mset (map locationOf (filter (\<lambda>fp. groupKey fp = gkey g) fs))
      \<and> dg_Count g = int (length (dg_Locations g))" if "g \<in> set (dm_Groups r)" for g
  proof -
    have "g \<in> groupOf ` set bs" using that by (simp only: groups set_sort_slice set_map)
    then obtain b where b: "b \<in> set bs" "g = groupOf b" by blast
    have "length (dg_Locations g) = length (snd b)"
      by (simp add: b(2) groupOf_def Let_def)
    moreover have "snd b = filter (\<lambda>fp. groupKey fp = fst b) fs" using bucket [of b] b(1) by blast
    ultimately show ?thesis using b(2) by simp
  qed
  have S: "sorted (map group_key (dm_Groups r))"
    unfolding groups by (rule groups.sorted_keys)
  note K = K [folded inn] and L = L [folded inn]
  show ?thesis
    by (intro exI [of _ r] conjI allI ballI r(1) r(3) K D S L [THEN conjunct1] L [THEN conjunct2])
qed

definition sample_fp :: "string \<Rightarrow> string \<Rightarrow> MethodFingerprint" where
  "sample_fp name h = \<lparr>mf_Function = ''m.'' @ name, mf_Package = ''m'', mf_Receiver = '''', mf_Name = name,
     mf_Signature = ''(int)'', mf_BodyHash = h, mf_BodyLines = 5, mf_File = ''m.go'', mf_Line = 1\<rparr>"

theorem duplicate_groups_exact_witness:
  "\<exists>r. FindDuplicateMethodsWithOptions sample_paging (\<lambda>_. True)
         (Inr ([], [sample_fp ''a'' ''h1'', sample_fp ''b'' ''h2'', sample_fp ''c'' ''h1'']))
         ''/w'' ''./...'' \<lparr>dn_MinBodyLines = 0, dn_ScopePattern = ''''\<rparr> plain_opts = Inr r
     \<and> gkey ` set (dm_Groups r) = {(''(int)'', ''h1'')}"
proof -
  let ?fps = "[sample_fp ''a'' ''h1'', sample_fp ''b'' ''h2'', sample_fp ''c'' ''h1'']"
  let ?o = "\<lparr>dn_MinBodyLines = 0, dn_ScopePattern = ''''\<rparr> :: DuplicateMethodsOptions"
  have p: "no_paging plain_opts" by (simp add: no_paging_def plain_opts_def)
  have s: "selectedPackageSet (\<lambda>_. True) [] ''/w'' (SplitPatterns (dn_ScopePattern ?o)) = []"
    by (simp add: selectedPackageSet_def)
  obtain r where r: "FindDuplicateMethodsWithOptions sample_paging (\<lambda>_. True) (Inr ([], ?fps)) ''/w'' ''./...'' ?o plain_opts = Inr r"
      "\<forall>k. k \<in> gkey ` set (dm_Groups r) \<longleftrightarrow>
          2 \<le> length (filter (\<lambda>fp. considered [] (dm_MinBodyLines r) fp \<and> groupKey fp = k) ?fps)"
    using duplicate_groups_exact [OF p s, of sample_paging ?fps "''./...''"] by blast
  have m: "dm_MinBodyLines r = 3"
    using FindDuplicateMethods_run [OF p, of sample_paging "\<lambda>_. True" "[]" ?fps "''/w''" "''./...''" ?o] r(1) by simp
  have "(2 \<le> length (filter (\<lambda>fp. considered [] 3 fp \<and> groupKey fp = k) ?fps)) = (k = (''(int)'', ''h1''))" for k
    by (auto simp: sample_fp_def considered_def groupKey_def)
  then have "k \<in> gkey ` set (dm_Groups r) \<longleftrightarrow> k = (''(int)'', ''h1'')" for k
    using r(2) unfolding m by blast
  then have "gkey ` set (dm_Groups r) = {(''(int)'', ''h1'')}" by blast
  with r(1) show ?thesis by blast
qed

end
