(* ===== verification/Interfaces.thy ===== *)
theory Interfaces
  imports Go_Types Import_Graph Patterns
begin

text \<open>
  \<^verbatim>\<open>analyzer/interfaces.go\<close> and the walk over the loaded packages of
  \<^verbatim>\<open>analyzer/workspace.go\<close>: which structs implement an interface. Packages are data: a load
  without tests gives one package per import path, so a package pointer is its path and a nil
  pointer a path the program does not hold. \<^verbatim>\<open>types.Implements\<close> and \<^verbatim>\<open>types.AssignableTo\<close>
  are parameters.
\<close>

section \<open>Packages\<close>

datatype scope_obj = TypeObj gotype "string \<times> int" | OtherObj

text \<open>
  \<open>tk_Types\<close> is the scope of the type-checked package, in the order of \<^verbatim>\<open>Scope.Names\<close>;
  \<open>None\<close> when the package was not type-checked.
\<close>

record topo_pkg =
  tk_Imports :: "string list"
  tk_Types :: "(string \<times> scope_obj) list option"
  tk_HasModule :: bool

record topo_program =
  tq_Pkg :: "string \<rightharpoonup> topo_pkg"
  tq_Packages :: "string list"
  tq_RootPaths :: "string list"

record type_checker =
  tc_Types :: type_env
  tc_Implements :: "gotype \<Rightarrow> nat \<Rightarrow> bool"
  tc_AssignableTo :: "gotype \<Rightarrow> nat \<Rightarrow> bool"

definition implementsInterface :: "type_checker \<Rightarrow> gotype \<Rightarrow> nat \<Rightarrow> bool" where
  "implementsInterface C t iface \<longleftrightarrow> tc_Implements C t iface \<or> tc_AssignableTo C t iface"

definition walkable :: "topo_program \<Rightarrow> string \<Rightarrow> bool" where
  "walkable P path \<longleftrightarrow> tq_Pkg P path \<noteq> None \<and> path \<noteq> ''''"

definition importsOf :: "topo_program \<Rightarrow> string \<Rightarrow> string list" where
  "importsOf P path = (case tq_Pkg P path of None \<Rightarrow> [] | Some p \<Rightarrow> filter (walkable P) (tk_Imports p))"

text \<open>
  \<^verbatim>\<open>AllLoadedPackages\<close>: the recursive walk from the roots, skipping nil packages, blank paths
  and paths already in the map. The result lists the keys of the map; its order stands for the
  iteration order. \<open>fuel\<close> bounds the depth; the number of packages is enough.
\<close>

definition AllLoadedPackages :: "nat \<Rightarrow> topo_program \<Rightarrow> string list" where
  "AllLoadedPackages fuel P = visitAll fuel (importsOf P) (filter (walkable P) (tq_Packages P))"

definition stdlibRoots :: "string list" where
  "stdlibRoots =
     [''archive'', ''bufio'', ''builtin'', ''bytes'', ''cmp'', ''compress'', ''container'', ''context'', ''crypto'',
      ''database'', ''debug'', ''embed'', ''encoding'', ''errors'', ''expvar'', ''flag'', ''fmt'', ''hash'', ''html'',
      ''image'', ''index'', ''io'', ''log'', ''maps'', ''math'', ''mime'', ''net'', ''os'', ''path'', ''plugin'',
      ''reflect'', ''runtime'', ''slices'', ''sort'', ''strconv'', ''strings'', ''sync'', ''syscall'', ''testing'',
      ''text'', ''time'', ''unicode'', ''unsafe'']"

definition isStdlib :: "string \<Rightarrow> bool" where
  "isStdlib pkgPath =
     (if pkgPath = '''' then False
      else (case Index pkgPath CHR ''/'' of Some i \<Rightarrow> take i pkgPath | None \<Rightarrow> pkgPath) \<in> set stdlibRoots)"

section \<open>Finding the interface\<close>

definition errInterfaceNotInPackage :: string where
  "errInterfaceNotInPackage = ''interface not in package''"

definition findInterfaceInPackage ::
  "type_checker \<Rightarrow> topo_pkg option \<Rightarrow> string \<Rightarrow> string \<Rightarrow> string + nat" where
  "findInterfaceInPackage C pkg typeName displayName =
     (case pkg of
        None \<Rightarrow> Inl errInterfaceNotInPackage
      | Some p \<Rightarrow>
          (case tk_Types p of
             None \<Rightarrow> Inl errInterfaceNotInPackage
           | Some scope \<Rightarrow>
               (case map_of scope typeName of
                  Some (TypeObj t _) \<Rightarrow>
                    (case Underlying (tc_Types C) t of
                       TInterface i \<Rightarrow> Inr i
                     | _ \<Rightarrow> Inl (displayName @ '' is not an interface''))
                | _ \<Rightarrow> Inl errInterfaceNotInPackage)))"

text \<open>The loop over the root packages for an unqualified name.\<close>

fun findInRoots :: "type_checker \<Rightarrow> topo_program \<Rightarrow> string list \<Rightarrow> string \<Rightarrow> string + nat" where
  "findInRoots C P [] name =
     Inl (''interface '' @ name @ '' not found in loaded root packages; pass a fully-qualified name (pkgpath.Name) to search dependencies'')"
| "findInRoots C P (root # roots) name =
     (case findInterfaceInPackage C (tq_Pkg P root) name name of
        Inl e \<Rightarrow> (if e = errInterfaceNotInPackage then findInRoots C P roots name else Inl e)
      | Inr i \<Rightarrow> Inr i)"

definition findInterface :: "type_checker \<Rightarrow> topo_program \<Rightarrow> string list \<Rightarrow> string \<Rightarrow> string + nat" where
  "findInterface C P loaded name =
     (case LastIndex name CHR ''.'' of
        Some idx \<Rightarrow>
          (if 0 < idx \<and> idx < length name - 1 then
             (let pkgPath = take idx name; typeName = drop (idx + 1) name
              in if pkgPath \<in> set loaded \<and> tk_Types (the (tq_Pkg P pkgPath)) \<noteq> None
                 then findInterfaceInPackage C (tq_Pkg P pkgPath) typeName name
                 else Inl (''interface '' @ name @ '' not found in loaded packages''))
           else findInRoots C P (tq_Packages P) name)
      | None \<Rightarrow> findInRoots C P (tq_Packages P) name)"

definition isInterfaceNotFoundError :: "string \<Rightarrow> bool" where
  "isInterfaceNotFoundError msg \<longleftrightarrow>
     Contains msg ''not found in loaded packages'' \<or> Contains msg ''not found in loaded root packages''"

section \<open>Implementors\<close>

record Implementor =
  ip_Struct :: string
  ip_Package :: string
  ip_File :: string
  ip_Line :: int
  ip_Anchor :: string

record TopologyResult =
  tr_Interface :: string
  tr_Implementors :: "Implementor list"
  tr_Offset :: int
  tr_Limit :: int
  tr_MaxItems :: int
  tr_ChunkSize :: int
  tr_NextCursor :: string
  tr_HasMore :: bool
  tr_TotalBeforeTruncate :: int
  tr_Truncated :: bool
  tr_Summary :: "int option"

text \<open>A name of the scope that is a named struct type implementing the interface.\<close>

definition implementorOf :: "type_checker \<Rightarrow> nat \<Rightarrow> string \<Rightarrow> string \<times> scope_obj \<Rightarrow> Implementor option" where
  "implementorOf C iface path entry =
     (case snd entry of
        TypeObj (TNamed n) pos \<Rightarrow>
          (if \<not> is_struct (ty_Under (tc_Types C) n) then None
           else if \<not> implementsInterface C (TNamed n) iface \<and> \<not> implementsInterface C (TPointer (TNamed n)) iface
           then None
           else Some \<lparr>ip_Struct = fst entry, ip_Package = path, ip_File = fst pos, ip_Line = snd pos,
                      ip_Anchor = contextAnchor (fst pos) (snd pos) (fst entry)\<rparr>)
      | _ \<Rightarrow> None)"

definition collectImplementors :: "type_checker \<Rightarrow> nat \<Rightarrow> string \<Rightarrow> (string \<times> scope_obj) list \<Rightarrow> Implementor list" where
  "collectImplementors C iface path scope = List.map_filter (implementorOf C iface path) scope"

definition implementor_less :: "Implementor \<Rightarrow> Implementor \<Rightarrow> bool" where
  "implementor_less a b =
     (if ip_Package a \<noteq> ip_Package b then ip_Package a < ip_Package b
      else if ip_Struct a \<noteq> ip_Struct b then ip_Struct a < ip_Struct b
      else if ip_File a \<noteq> ip_File b then ip_File a < ip_File b
      else ip_Line a < ip_Line b)"

definition implementorKey :: "Implementor \<Rightarrow> string" where
  "implementorKey i = ip_Package i @ ''|'' @ ip_Struct i @ ''|'' @ ip_File i @ '':'' @ Itoa (ip_Line i)"

text \<open>The scope of a package that takes part in the collection.\<close>

definition searchedScope :: "topo_program \<Rightarrow> bool \<Rightarrow> string \<Rightarrow> (string \<times> scope_obj) list" where
  "searchedScope P includeStdlib path =
     (case tq_Pkg P path of
        None \<Rightarrow> []
      | Some p \<Rightarrow>
          (case tk_Types p of
             None \<Rightarrow> []
           | Some scope \<Rightarrow>
               (if \<not> includeStdlib \<and> path \<notin> set (tq_RootPaths P) \<and> \<not> tk_HasModule p \<and> isStdlib path
                then [] else scope)))"

text \<open>The search through the fallback patterns; \<open>load\<close> is the workspace.\<close>

fun topoFallback ::
  "type_checker \<Rightarrow> nat \<Rightarrow> (string \<Rightarrow> string + topo_program) \<Rightarrow> string \<Rightarrow> string \<Rightarrow> string list \<Rightarrow> (topo_program \<times> nat) option"
where
  "topoFallback C fuel load pattern name [] = None"
| "topoFallback C fuel load pattern name (fp # fps) =
     (if fp = pattern then topoFallback C fuel load pattern name fps
      else case load fp of
             Inl _ \<Rightarrow> topoFallback C fuel load pattern name fps
           | Inr broad \<Rightarrow>
               (case findInterface C broad (AllLoadedPackages fuel broad) name of
                  Inr i \<Rightarrow> Some (broad, i)
                | Inl _ \<Rightarrow> topoFallback C fuel load pattern name fps))"

datatype topo_error = TopoMsg string | TopoStream stream_error

definition GetInterfaceTopologyWithOptions ::
  "paging \<Rightarrow> type_checker \<Rightarrow> nat \<Rightarrow> (string \<Rightarrow> string + topo_program) \<Rightarrow> string list \<Rightarrow> string \<Rightarrow> string \<Rightarrow> bool
     \<Rightarrow> QueryOptions \<Rightarrow> topo_error + TopologyResult"
where
  "GetInterfaceTopologyWithOptions pg C fuel load fallback pattern ifaceName includeStdlib opts =
     (if TrimSpace ifaceName = '''' then Inl (TopoMsg ''interface name is required'')
      else
        (case load pattern of
           Inl err \<Rightarrow> Inl (TopoMsg (''loading packages: '' @ err))
         | Inr prog \<Rightarrow>
             (case (case findInterface C prog (AllLoadedPackages fuel prog) ifaceName of
                      Inr i \<Rightarrow> Inr (prog, i)
                    | Inl err \<Rightarrow>
                        (if isInterfaceNotFoundError err
                         then (case topoFallback C fuel load pattern ifaceName fallback of
                                 Some r \<Rightarrow> Inr r | None \<Rightarrow> Inl err)
                         else Inl err)) of
                Inl err \<Rightarrow> Inl (TopoMsg err)
              | Inr (prog, iface) \<Rightarrow>
                  (let found = concat (map (\<lambda>path. collectImplementors C iface path (searchedScope prog includeStdlib path))
                                 (AllLoadedPackages fuel prog))
                   in case page_items pg (sort_slice implementor_less found) (''interface_topology:'' @ ifaceName)
                             implementorKey opts of
                        Inl e \<Rightarrow> Inl (TopoStream e)
                      | Inr w \<Rightarrow> Inr
                          \<lparr>tr_Interface = ifaceName, tr_Implementors = wr_items w, tr_Offset = qo_Offset opts,
                           tr_Limit = qo_Limit opts, tr_MaxItems = qo_MaxItems opts,
                           tr_ChunkSize = (if qo_ChunkSize opts > 0 then clampChunkSize (pg_env pg) (qo_ChunkSize opts) else 0),
                           tr_NextCursor = wr_next w, tr_HasMore = wr_more w, tr_TotalBeforeTruncate = wr_total w,
                           tr_Truncated = wr_truncated w,
                           tr_Summary = (if qo_Summary opts then Some (wr_total w) else None)\<rparr>))))"

definition GetInterfaceTopology ::
  "paging \<Rightarrow> type_checker \<Rightarrow> nat \<Rightarrow> (string \<Rightarrow> string + topo_program) \<Rightarrow> string list \<Rightarrow> string \<Rightarrow> string \<Rightarrow> bool
     \<Rightarrow> topo_error + TopologyResult"
where
  "GetInterfaceTopology pg C fuel load fallback pattern ifaceName includeStdlib =
     GetInterfaceTopologyWithOptions pg C fuel load fallback pattern ifaceName includeStdlib plain_opts"

section \<open>Laws\<close>

definition implementor_key :: "Implementor \<Rightarrow> string \<times> string \<times> string \<times> int" where
  "implementor_key i = (ip_Package i, ip_Struct i, ip_File i, ip_Line i)"

interpretation implementors: key_order implementor_less implementor_key
  by unfold_locales (auto simp: implementor_less_def implementor_key_def less_prod_def')

text \<open>The packages reached from the roots by imports.\<close>

definition loaded_from_roots :: "topo_program \<Rightarrow> string \<Rightarrow> bool" where
  "loaded_from_roots P = reach_from (importsOf P) (set (filter (walkable P) (tq_Packages P)))"

lemma AllLoadedPackages_reached:
  assumes "finite (dom (tq_Pkg P))" "card (dom (tq_Pkg P)) < fuel"
  shows "set (AllLoadedPackages fuel P) = {path. loaded_from_roots P path}"
proof -
  have "finite_graph (importsOf P) (dom (tq_Pkg P))"
    using assms(1) by unfold_locales (auto simp: importsOf_def walkable_def split: option.splits)
  moreover have "set (filter (walkable P) (tq_Packages P)) \<subseteq> dom (tq_Pkg P)"
    by (auto simp: walkable_def)
  ultimately show ?thesis
    unfolding AllLoadedPackages_def loaded_from_roots_def
    by (rule finite_graph.visitAll_reaches(1) [OF _ _ assms(2)])
qed

definition is_implementor :: "type_checker \<Rightarrow> nat \<Rightarrow> gotype \<Rightarrow> bool" where
  "is_implementor C i t \<longleftrightarrow> (\<exists>n. t = TNamed n \<and> is_struct (ty_Under (tc_Types C) n)
     \<and> (implementsInterface C (TNamed n) i \<or> implementsInterface C (TPointer (TNamed n)) i))"

lemma implementorOf_Some:
  "implementorOf C i path (name, obj) = Some im \<longleftrightarrow>
     (\<exists>t pos. obj = TypeObj t pos \<and> is_implementor C i t
        \<and> im = \<lparr>ip_Struct = name, ip_Package = path, ip_File = fst pos, ip_Line = snd pos,
                ip_Anchor = contextAnchor (fst pos) (snd pos) name\<rparr>)"
  by (cases obj) (auto simp: implementorOf_def is_implementor_def split: gotype.splits)

lemma collectImplementors_set:
  "im \<in> set (collectImplementors C i path scope) \<longleftrightarrow>
     (\<exists>name t pos. (name, TypeObj t pos) \<in> set scope \<and> is_implementor C i t
        \<and> im = \<lparr>ip_Struct = name, ip_Package = path, ip_File = fst pos, ip_Line = snd pos,
                ip_Anchor = contextAnchor (fst pos) (snd pos) name\<rparr>)"
proof -
  have "im \<in> set (collectImplementors C i path scope) \<longleftrightarrow>
      (\<exists>e \<in> set scope. implementorOf C i path e = Some im)"
    by (force simp: collectImplementors_def List.map_filter_def)
  also have "\<dots> \<longleftrightarrow> (\<exists>name obj. (name, obj) \<in> set scope \<and> implementorOf C i path (name, obj) = Some im)"
    by auto
  finally show ?thesis unfolding implementorOf_Some by blast
qed

text \<open>
  C39: without paging the topology of an interface that is found is complete: a struct is listed
  exactly when a package reached from the roots by imports declares it, the package is not one
  of the standard library that was to be left out, and the struct or the pointer to it
  implements the interface. The list is sorted by package, name and place.
\<close>

theorem interface_topology_complete:
  assumes "TrimSpace name \<noteq> ''''" "load pattern = Inr prog" "no_paging opts"
    and "finite (dom (tq_Pkg prog))" "card (dom (tq_Pkg prog)) < fuel"
    and "findInterface C prog (AllLoadedPackages fuel prog) name = Inr i"
  shows "\<exists>r. GetInterfaceTopologyWithOptions pg C fuel load fallback pattern name std opts = Inr r
     \<and> (\<forall>path struct. (\<exists>im \<in> set (tr_Implementors r). ip_Package im = path \<and> ip_Struct im = struct) \<longleftrightarrow>
          loaded_from_roots prog path
          \<and> (\<exists>t pos. (struct, TypeObj t pos) \<in> set (searchedScope prog std path) \<and> is_implementor C i t))
     \<and> sorted (map implementor_key (tr_Implementors r))
     \<and> tr_TotalBeforeTruncate r = int (length (tr_Implementors r))"
proof -
  let ?found = "concat (map (\<lambda>path. collectImplementors C i path (searchedScope prog std path))
      (AllLoadedPackages fuel prog))"
  obtain r where r: "GetInterfaceTopologyWithOptions pg C fuel load fallback pattern name std opts = Inr r"
    "tr_Implementors r = sort_slice implementor_less ?found"
    "tr_TotalBeforeTruncate r = int (length (tr_Implementors r))"
    using assms(1,2,6) by (simp add: GetInterfaceTopologyWithOptions_def page_items_all [OF assms(3)] Let_def)
  have "im \<in> set (tr_Implementors r) \<longleftrightarrow> (\<exists>path. loaded_from_roots prog path
      \<and> im \<in> set (collectImplementors C i path (searchedScope prog std path)))" for im
    unfolding r(2) set_sort_slice
    using AllLoadedPackages_reached [OF assms(4,5)] by auto
  then have "(\<exists>im \<in> set (tr_Implementors r). ip_Package im = path \<and> ip_Struct im = struct) \<longleftrightarrow>
      loaded_from_roots prog path
      \<and> (\<exists>t pos. (struct, TypeObj t pos) \<in> set (searchedScope prog std path) \<and> is_implementor C i t)" for path struct
    unfolding Bex_def collectImplementors_set by fastforce
  moreover have "sorted (map implementor_key (tr_Implementors r))"
    unfolding r(2) by (rule implementors.sorted_keys)
  ultimately show ?thesis using r(1,3) by blast
qed

text \<open>Package \<^verbatim>\<open>a\<close> declares the interface \<^verbatim>\<open>I\<close>; it imports \<^verbatim>\<open>b\<close>, whose struct \<^verbatim>\<open>S\<close> implements it.\<close>

definition sample_checker :: type_checker where
  "sample_checker =
     \<lparr>tc_Types = \<lparr>ty_Name = (\<lambda>n. if n = 0 then ''I'' else ''S''),
                  ty_Under = (\<lambda>n. if n = 0 then TInterface 0 else TStruct []),
                  ty_Alias = (\<lambda>_. TBasic ''int''), ty_String = (\<lambda>_. '''')\<rparr>,
      tc_Implements = (\<lambda>t i. t = TPointer (TNamed 1)), tc_AssignableTo = (\<lambda>t i. False)\<rparr>"

definition sample_topology :: topo_program where
  "sample_topology =
     \<lparr>tq_Pkg = [''a'' \<mapsto> \<lparr>tk_Imports = [''b'', ''c''], tk_Types = Some [(''I'', TypeObj (TNamed 0) (''a.go'', 3))],
                         tk_HasModule = True\<rparr>,
                ''b'' \<mapsto> \<lparr>tk_Imports = [], tk_Types = Some [(''S'', TypeObj (TNamed 1) (''b.go'', 7))],
                         tk_HasModule = True\<rparr>],
      tq_Packages = [''a''], tq_RootPaths = [''a'']\<rparr>"

theorem interface_topology_complete_witness:
  "\<exists>r. GetInterfaceTopologyWithOptions sample_paging sample_checker 3 (\<lambda>_. Inr sample_topology) [] ''./...'' ''I''
         False plain_opts = Inr r
     \<and> (\<exists>im \<in> set (tr_Implementors r). ip_Package im = ''b'' \<and> ip_Struct im = ''S'')"
proof -
  have p: "no_paging plain_opts" by (simp add: no_paging_def plain_opts_def)
  have d: "dom (tq_Pkg sample_topology) = {''a'', ''b''}" by (auto simp: sample_topology_def)
  have n: "TrimSpace ''I'' \<noteq> ''''" by code_simp
  have f: "findInterface sample_checker sample_topology (AllLoadedPackages 3 sample_topology) ''I'' = Inr 0"
    by code_simp
  have "''b'' \<in> set (AllLoadedPackages 3 sample_topology)" by code_simp
  then have l: "loaded_from_roots sample_topology ''b''"
    using AllLoadedPackages_reached [of sample_topology 3] d by simp
  have s: "(''S'', TypeObj (TNamed 1) (''b.go'', 7)) \<in> set (searchedScope sample_topology False ''b'')" by code_simp
  have i: "is_implementor sample_checker 0 (TNamed 1)"
    by (auto simp: is_implementor_def sample_checker_def is_struct_def implementsInterface_def)
  show ?thesis
    using interface_topology_complete [OF n refl p _ _ f, of sample_paging "[]" _ False] d l s i
    by fastforce
qed

text \<open>
  A qualified name whose package is loaded but has no such type is refused with the internal
  error text, and the fallback patterns are not tried for it.
\<close>

lemma qualified_name_skips_fallback:
  assumes "LastIndex name CHR ''.'' = Some idx" "0 < idx" "idx < length name - 1"
    and "take idx name \<in> set (AllLoadedPackages fuel prog)"
    and "tk_Types (the (tq_Pkg prog (take idx name))) = Some scope" "tq_Pkg prog (take idx name) \<noteq> None"
    and "map_of scope (drop (idx + 1) name) = None"
    and "TrimSpace name \<noteq> ''''" "load pattern = Inr prog"
  shows "GetInterfaceTopologyWithOptions pg C fuel load fallback pattern name std opts
           = Inl (TopoMsg ''interface not in package'')"
proof -
  have "\<not> isInterfaceNotFoundError errInterfaceNotInPackage" by code_simp
  moreover have "findInterface C prog (AllLoadedPackages fuel prog) name = Inl errInterfaceNotInPackage"
    using assms by (auto simp: findInterface_def findInterfaceInPackage_def Let_def)
  ultimately show ?thesis
    using assms(8,9) by (simp add: GetInterfaceTopologyWithOptions_def errInterfaceNotInPackage_def)
qed

end
