(* ===== verification/Lifecycle.thy ===== *)
theory Lifecycle
  imports Go_Types Import_Graph Call_Graph
begin

text \<open>
  \<^verbatim>\<open>analyzer/lifecycle.go\<close>: the trace of a struct through the program: where it is allocated,
  where its fields are stored to, where a pointer to it becomes an interface. An instruction
  carries the types the trace looks at and its position; \<open>None\<close> is a position that is not
  valid. The loaded program is a parameter.
\<close>

section \<open>Instructions\<close>

record call_sig =
  cg_Recv :: "gotype option"
  cg_Params :: "gotype list"

datatype life_addr = FieldAddrOf gotype nat | OtherAddr

datatype life_instr =
    LAlloc gotype
  | LStore life_addr
  | LMakeInterface gotype "(string \<times> int) option"
  | LCall "call_sig option" "gotype list"
  | LOther

record life_func =
  lf_String :: string
  lf_Blocks :: "((string \<times> int) option \<times> life_instr) list list"

text \<open>
  A program: its types, the packages with the names of their scopes (\<open>None\<close> without types),
  the database models found at load time and the functions.
\<close>

record life_program =
  lg_Types :: type_env
  lg_Packages :: "(string \<times> string list option) list"
  lg_OrmModels :: "(string \<times> string) list"
  lg_SSAFuncs :: "life_func option list"

section \<open>Options and hops\<close>

record LifecycleOptions =
  lo_DedupeMode :: string
  lo_MaxHops :: int
  lo_Summary :: bool
  lo_Limit :: int
  lo_Offset :: int
  lo_MaxItems :: int
  lo_Cursor :: string
  lo_ChunkSize :: int

record LifecycleHop =
  lh_Kind :: string
  lh_Struct :: string
  lh_Field :: string
  lh_Function :: string
  lh_File :: string
  lh_Line :: int
  lh_Detail :: string
  lh_Anchor :: string

record LifecycleSummary =
  lu_TotalByKind :: "string \<Rightarrow> nat"
  lu_TotalByFunction :: "string \<Rightarrow> nat"
  lu_TotalByField :: "(string \<Rightarrow> nat) option"

record StructLifecycleResult =
  lt_Struct :: string
  lt_DedupeMode :: string
  lt_MaxHops :: int
  lt_ChunkSize :: int
  lt_NextCursor :: string
  lt_HasMore :: bool
  lt_TotalBeforeTruncate :: int
  lt_Truncated :: bool
  lt_Summary :: "LifecycleSummary option"
  lt_Notes :: "string list"
  lt_Hops :: "LifecycleHop list"

definition lifecycleQuery :: "LifecycleOptions \<Rightarrow> QueryOptions" where
  "lifecycleQuery opts =
     plain_opts\<lparr>qo_Limit := lo_Limit opts, qo_Offset := lo_Offset opts, qo_MaxItems := lo_MaxItems opts,
                qo_Summary := lo_Summary opts\<rparr>"

definition normalizeLifecycleOptions :: "string \<Rightarrow> LifecycleOptions \<Rightarrow> LifecycleOptions" where
  "normalizeLifecycleOptions env opts =
     (let mode = TrimSpace (lo_DedupeMode opts);
          mode = (if mode = '''' \<or> mode = ''none'' then ''none''
                  else if mode = ''function_field'' \<or> mode = ''function_kind_field'' then mode
                  else ''function_kind_field'');
          maxHops = (if lo_MaxHops opts \<le> 0 then 500 else lo_MaxHops opts);
          maxHops = (if maxHops > 20000 then 20000 else maxHops);
          qo = normalizeQueryOptions env (lifecycleQuery opts);
          chunk = (if lo_ChunkSize opts < 0 then 0 else lo_ChunkSize opts)
      in \<lparr>lo_DedupeMode = mode, lo_MaxHops = maxHops, lo_Summary = lo_Summary opts, lo_Limit = qo_Limit qo,
          lo_Offset = qo_Offset qo, lo_MaxItems = qo_MaxItems qo, lo_Cursor = lo_Cursor opts, lo_ChunkSize = chunk\<rparr>)"

section \<open>Events\<close>

definition typeMatchesStruct :: "type_env \<Rightarrow> gotype option \<Rightarrow> string \<Rightarrow> bool" where
  "typeMatchesStruct E t name =
     (case t of Some (TNamed n) \<Rightarrow> is_struct (ty_Under E n) \<and> ty_Name E n = name | _ \<Rightarrow> False)"

definition isInterfaceType :: "type_env \<Rightarrow> gotype \<Rightarrow> bool" where
  "isInterfaceType E t = (case Underlying E t of TInterface _ \<Rightarrow> True | _ \<Rightarrow> False)"

definition fieldMutation :: "type_env \<Rightarrow> life_addr \<Rightarrow> string \<Rightarrow> string option" where
  "fieldMutation E addr structName =
     (case addr of
        FieldAddrOf t idx \<Rightarrow>
          (case Underlying E t of
             TPointer e \<Rightarrow>
               (case Underlying E e of
                  TStruct sfs \<Rightarrow>
                    (if \<not> typeMatchesStruct E (Some e) structName \<or> length sfs \<le> idx then None
                     else Some (fst (sfs ! idx)))
                | _ \<Rightarrow> None)
           | _ \<Rightarrow> None)
      | OtherAddr \<Rightarrow> None)"

text \<open>One argument of the loop over a call's arguments: does it reach an interface parameter?\<close>

definition handsOff :: "type_env \<Rightarrow> call_sig \<Rightarrow> string \<Rightarrow> nat \<times> gotype \<Rightarrow> bool" where
  "handsOff E sig structName ia =
     (let (i, arg) = ia
      in if \<not> typeMatchesStruct E (pointerElem E arg) structName then False
         else
           (case cg_Recv sig of
              Some recv \<Rightarrow>
                (if i = 0 then isInterfaceType E recv
                 else i - 1 < length (cg_Params sig) \<and> isInterfaceType E (cg_Params sig ! (i - 1)))
            | None \<Rightarrow> i < length (cg_Params sig) \<and> isInterfaceType E (cg_Params sig ! i)))"

definition callHasInterfaceHandoff :: "type_env \<Rightarrow> call_sig option \<Rightarrow> gotype list \<Rightarrow> string \<Rightarrow> bool" where
  "callHasInterfaceHandoff E sig args structName =
     (case sig of None \<Rightarrow> False | Some s \<Rightarrow> list_ex (handsOff E s structName) (enumerate 0 args))"

definition lifecycleHop ::
  "life_func \<Rightarrow> (string \<times> int) option \<Rightarrow> string \<Rightarrow> string \<Rightarrow> string \<Rightarrow> string \<Rightarrow> LifecycleHop" where
  "lifecycleHop fn pos kind structName field detail =
     (let (file, line) = (case pos of Some p \<Rightarrow> p | None \<Rightarrow> ('''', 0))
      in \<lparr>lh_Kind = kind, lh_Struct = structName, lh_Field = field, lh_Function = lf_String fn, lh_File = file,
          lh_Line = line, lh_Detail = detail, lh_Anchor = contextAnchor file line (shortFuncName (lf_String fn))\<rparr>)"

definition hopOf ::
  "type_env \<Rightarrow> string \<Rightarrow> life_func \<Rightarrow> (string \<times> int) option \<times> life_instr \<Rightarrow> LifecycleHop option" where
  "hopOf E structName fn pi =
     (let (pos, instr) = pi
      in case instr of
           LAlloc t \<Rightarrow>
             (if typeMatchesStruct E (pointerElem E t) structName
              then Some (lifecycleHop fn pos ''Instantiate'' structName '''' ''struct allocation'') else None)
         | LStore addr \<Rightarrow>
             (case fieldMutation E addr structName of
                Some field \<Rightarrow> Some (lifecycleHop fn pos ''FieldMutation'' structName field ''field mutation'')
              | None \<Rightarrow> None)
         | LMakeInterface t xpos \<Rightarrow>
             (if typeMatchesStruct E (pointerElem E t) structName
              then Some (lifecycleHop fn (if pos = None then xpos else pos) ''InterfaceHandoff'' structName ''''
                          ''struct pointer converted to interface'') else None)
         | LCall sig args \<Rightarrow>
             (if callHasInterfaceHandoff E sig args structName
              then Some (lifecycleHop fn pos ''InterfaceHandoff'' structName ''''
                          ''struct pointer passed to interface parameter'') else None)
         | LOther \<Rightarrow> None)"

definition allHops :: "life_program \<Rightarrow> string \<Rightarrow> LifecycleHop list" where
  "allHops prog structName =
     concat (map (\<lambda>fo. case fo of None \<Rightarrow> []
                      | Some fn \<Rightarrow> List.map_filter (hopOf (lg_Types prog) structName fn) (concat (lf_Blocks fn)))
               (lg_SSAFuncs prog))"

definition isOrmModel :: "life_program \<Rightarrow> string \<Rightarrow> bool" where
  "isOrmModel prog structName \<longleftrightarrow>
     list_ex (\<lambda>(path, scope). case scope of None \<Rightarrow> False
       | Some names \<Rightarrow> structName \<in> set names \<and> (structName, path) \<in> set (lg_OrmModels prog)) (lg_Packages prog)"

definition hop_less :: "LifecycleHop \<Rightarrow> LifecycleHop \<Rightarrow> bool" where
  "hop_less a b =
     (if lh_File a \<noteq> lh_File b then lh_File a < lh_File b
      else if lh_Line a \<noteq> lh_Line b then lh_Line a < lh_Line b
      else if lh_Function a \<noteq> lh_Function b then lh_Function a < lh_Function b
      else lh_Kind a < lh_Kind b)"

definition dedupe_key :: "string \<Rightarrow> LifecycleHop \<Rightarrow> string" where
  "dedupe_key mode h =
     (if mode = ''function_field'' then lh_Function h @ ''|'' @ lh_Field h
      else lh_Function h @ ''|'' @ lh_Kind h @ ''|'' @ lh_Field h)"

definition dedupeLifecycleHops :: "LifecycleHop list \<Rightarrow> string \<Rightarrow> LifecycleHop list" where
  "dedupeLifecycleHops hops mode = (if mode = ''none'' then hops else dedup_by (dedupe_key mode) hops)"

definition count_by :: "(LifecycleHop \<Rightarrow> string) \<Rightarrow> LifecycleHop list \<Rightarrow> string \<Rightarrow> nat" where
  "count_by f hops = fold (\<lambda>h m. m(f h := m (f h) + 1)) hops (\<lambda>_. 0)"

definition summarizeLifecycleHops :: "LifecycleHop list \<Rightarrow> LifecycleSummary" where
  "summarizeLifecycleHops hops =
     (let withField = filter (\<lambda>h. lh_Field h \<noteq> '''') hops
      in \<lparr>lu_TotalByKind = count_by lh_Kind hops, lu_TotalByFunction = count_by lh_Function hops,
          lu_TotalByField = (if withField = [] then None else Some (count_by lh_Field withField))\<rparr>)"

definition lifecycleHopKey :: "LifecycleHop \<Rightarrow> string" where
  "lifecycleHopKey h = lh_Kind h @ ''|'' @ lh_Function h @ ''|'' @ lh_Field h @ ''|'' @ lh_Struct h @ ''|''
     @ lh_File h @ '':'' @ Itoa (lh_Line h)"

definition lifecycleHopBoundaryKeys :: "LifecycleHop list \<Rightarrow> string \<times> string" where
  "lifecycleHopBoundaryKeys hops =
     (if hops = [] then ('''', '''') else (lifecycleHopKey (hd hops), lifecycleHopKey (last hops)))"

section \<open>The tool\<close>

datatype lifecycle_error = LifeMsg string | LifeStream stream_error

definition TraceStructLifecycle ::
  "paging \<Rightarrow> string + life_program \<Rightarrow> string \<Rightarrow> LifecycleOptions \<Rightarrow> lifecycle_error + StructLifecycleResult"
where
  "TraceStructLifecycle pg loaded structName opts =
     (if TrimSpace structName = '''' then Inl (LifeMsg ''struct name is required'')
      else
        (let opts = normalizeLifecycleOptions (pg_env pg) opts
         in case loaded of
              Inl err \<Rightarrow> Inl (LifeMsg (''loading packages: '' @ err))
            | Inr prog \<Rightarrow>
                (let mode = lo_DedupeMode opts;
                     hops = dedupeLifecycleHops (sort_slice hop_less (allHops prog structName)) mode;
                     cut = int (length hops) > lo_MaxHops opts;
                     kept = (if cut then take (nat (lo_MaxHops opts)) hops else hops);
                     result = \<lparr>lt_Struct = structName, lt_DedupeMode = mode, lt_MaxHops = lo_MaxHops opts,
                       lt_ChunkSize = 0, lt_NextCursor = '''', lt_HasMore = False,
                       lt_TotalBeforeTruncate = int (length hops), lt_Truncated = cut,
                       lt_Summary = (if lo_Summary opts then Some (summarizeLifecycleHops hops) else None),
                       lt_Notes = (if isOrmModel prog structName
                          then [''Note: '' @ go_quote structName @ '' is a detected database model. Use find_orphaned_database_models to check if it is orphaned.'']
                          else []),
                       lt_Hops = kept\<rparr>
                 in if lo_ChunkSize opts > 0 then
                      (case lifecycleHopBoundaryKeys kept of
                         (firstKey, lastKey) \<Rightarrow>
                           (case applyStreamWindow (pg_env pg) (pg_sha256 pg) (pg_unmarshal pg) kept
                                   (''lifecycle:'' @ structName @ ''|'' @ mode) firstKey lastKey
                                   (lo_Cursor opts) (lo_ChunkSize opts) of
                              Inl e \<Rightarrow> Inl (LifeStream e)
                            | Inr c \<Rightarrow> Inr (result\<lparr>lt_ChunkSize := clampChunkSize (pg_env pg) (lo_ChunkSize opts),
                                lt_Truncated := (cut \<or> ch_more c \<or> lo_Cursor opts \<noteq> ''''),
                                lt_Hops := ch_items c, lt_NextCursor := ch_next c, lt_HasMore := ch_more c\<rparr>)))
                    else
                      (case applyQueryWindow (pg_env pg) kept (lifecycleQuery opts) of
                         (window, _, truncated) \<Rightarrow>
                           Inr (result\<lparr>lt_Truncated := (cut \<or> truncated), lt_Hops := window\<rparr>)))))"

section \<open>Laws\<close>

definition hop_key :: "LifecycleHop \<Rightarrow> string \<times> int \<times> string \<times> string" where
  "hop_key h = (lh_File h, lh_Line h, lh_Function h, lh_Kind h)"

interpretation hops: key_order hop_less hop_key
  by unfold_locales (auto simp: hop_less_def hop_key_def less_prod_def')

lemma sorted_dedup_seen: "sorted (map f xs) \<Longrightarrow> sorted (map f (dedup_seen k seen xs))"
proof (induction k seen xs rule: dedup_seen.induct)
  case (2 k seen x xs)
  then show ?case using dedup_seen_subset [of k "k x # seen" xs] by auto
qed simp

lemma sorted_dedup_by: "sorted (map f xs) \<Longrightarrow> sorted (map f (dedup_by k xs))"
  unfolding dedup_by_def by (rule sorted_dedup_seen)

lemma normalized_mode:
  "lo_DedupeMode (normalizeLifecycleOptions env opts) \<in> {''none'', ''function_field'', ''function_kind_field''}"
  "0 < lo_MaxHops (normalizeLifecycleOptions env opts)" "lo_MaxHops (normalizeLifecycleOptions env opts) \<le> 20000"
  by (auto simp: normalizeLifecycleOptions_def Let_def)

lemma count_by_count: "count_by f hops x = length (filter (\<lambda>h. f h = x) hops)"
proof -
  have "fold (\<lambda>h m. m(f h := m (f h) + 1)) hops m x = m x + length (filter (\<lambda>h. f h = x) hops)"
    for m :: "string \<Rightarrow> nat"
    by (induction hops arbitrary: m) auto
  then show ?thesis by (simp add: count_by_def)
qed

text \<open>The hops a trace is about: one for every instruction of a function that is an event.\<close>

definition lifecycle_event :: "life_program \<Rightarrow> string \<Rightarrow> LifecycleHop \<Rightarrow> bool" where
  "lifecycle_event prog structName h \<longleftrightarrow>
     (\<exists>fn block pi. Some fn \<in> set (lg_SSAFuncs prog) \<and> block \<in> set (lf_Blocks fn) \<and> pi \<in> set block
        \<and> hopOf (lg_Types prog) structName fn pi = Some h)"

lemma allHops_events: "h \<in> set (allHops prog structName) \<longleftrightarrow> lifecycle_event prog structName h"
proof -
  have "h \<in> set (case fo of None \<Rightarrow> [] | Some fn \<Rightarrow> List.map_filter (hopOf E structName fn) (concat (lf_Blocks fn)))
      \<longleftrightarrow> (\<exists>fn. fo = Some fn \<and> (\<exists>block \<in> set (lf_Blocks fn). \<exists>pi \<in> set block. hopOf E structName fn pi = Some h))" for E fo
    by (cases fo) (force simp: List.map_filter_def)+
  then show ?thesis
    unfolding allHops_def lifecycle_event_def set_concat set_map by fastforce
qed

text \<open>
  C40: a lifecycle trace without paging. With mode \<^verbatim>\<open>none\<close> and no more events than the limit,
  it holds exactly the allocations, field stores and interface hand-offs of the struct; with a
  deduplication mode it holds one hop for every key an event has. The trace is in the order of
  places, the total counts the hops before the limit, and the trace is marked truncated exactly
  when there are more of them than the limit, which is never above 20000.
\<close>

theorem lifecycle_trace_exact:
  assumes "TrimSpace structName \<noteq> ''''" "lo_ChunkSize opts \<le> 0" "no_paging (lifecycleQuery opts)"
    and "normalizeLifecycleOptions (pg_env pg) opts = n"
  shows "\<exists>r. TraceStructLifecycle pg (Inr prog) structName opts = Inr r
     \<and> sorted (map hop_key (lt_Hops r))
     \<and> (\<forall>h \<in> set (lt_Hops r). lifecycle_event prog structName h)
     \<and> int (length (lt_Hops r)) = min (lt_TotalBeforeTruncate r) (lo_MaxHops n)
     \<and> (lt_Truncated r \<longleftrightarrow> lo_MaxHops n < lt_TotalBeforeTruncate r) \<and> lo_MaxHops n \<le> 20000
     \<and> (\<not> lt_Truncated r \<and> lo_DedupeMode n = ''none'' \<longrightarrow>
          set (lt_Hops r) = {h. lifecycle_event prog structName h})
     \<and> (\<not> lt_Truncated r \<and> lo_DedupeMode n \<noteq> ''none'' \<longrightarrow>
          distinct (map (dedupe_key (lo_DedupeMode n)) (lt_Hops r))
          \<and> dedupe_key (lo_DedupeMode n) ` set (lt_Hops r)
              = dedupe_key (lo_DedupeMode n) ` {h. lifecycle_event prog structName h})"
proof -
  let ?mode = "lo_DedupeMode n" and ?max = "lo_MaxHops n"
  define all where "all = sort_slice hop_less (allHops prog structName)"
  define hs where "hs = dedupeLifecycleHops all ?mode"
  have set_all: "set all = {h. lifecycle_event prog structName h}"
    by (auto simp: all_def allHops_events)
  have sorted_all: "sorted (map hop_key all)" unfolding all_def by (rule hops.sorted_keys)
  have sorted_hs: "sorted (map hop_key hs)"
    using sorted_all sorted_dedup_by by (auto simp: hs_def dedupeLifecycleHops_def)
  have sub: "set hs \<subseteq> set all"
    using dedup_by_subset [of "dedupe_key ?mode" all] by (simp add: hs_def dedupeLifecycleHops_def)
  have max: "0 < ?max" "?max \<le> 20000" using normalized_mode(2,3) [of "pg_env pg" opts] assms(4) by simp_all
  have chunk: "\<not> lo_ChunkSize n > 0" 
    using assms(2) unfolding assms(4) [symmetric] by (simp add: normalizeLifecycleOptions_def Let_def)
  have win: "applyQueryWindow (pg_env pg) xs (lifecycleQuery n) = (xs, int (length xs), False)" for xs :: "LifecycleHop list"
  proof -
    have "no_paging (lifecycleQuery n)"
      using assms(3) unfolding assms(4) [symmetric]
      by (auto simp: no_paging_def lifecycleQuery_def normalizeLifecycleOptions_def normalizeQueryOptions_def
          Let_def plain_opts_def)
    then show ?thesis by (rule query_window_all)
  qed
  obtain r where r: "TraceStructLifecycle pg (Inr prog) structName opts = Inr r"
    "lt_Hops r = (if int (length hs) > ?max then take (nat ?max) hs else hs)"
    "lt_Truncated r = (int (length hs) > ?max)" "lt_TotalBeforeTruncate r = int (length hs)"
    using assms(1,4) chunk
    by (simp add: TraceStructLifecycle_def Let_def win all_def hs_def)
  have sorted_r: "sorted (map hop_key (lt_Hops r))"
    using sorted_hs by (simp add: r(2) take_map [symmetric] sorted_wrt_take)
  have event_r: "lifecycle_event prog structName h" if "h \<in> set (lt_Hops r)" for h
    using that sub set_all by (auto simp: r(2) split: if_splits dest: in_set_takeD)
  have len_r: "int (length (lt_Hops r)) = min (lt_TotalBeforeTruncate r) ?max"
    using max(1) by (auto simp: r(2,4) min_def)
  have none_r: "set (lt_Hops r) = {h. lifecycle_event prog structName h}" if "\<not> lt_Truncated r" "?mode = ''none''"
    using that by (simp add: r(2,3) hs_def dedupeLifecycleHops_def set_all [symmetric])
  have dedup_r: "distinct (map (dedupe_key ?mode) (lt_Hops r))
      \<and> dedupe_key ?mode ` set (lt_Hops r) = dedupe_key ?mode ` {h. lifecycle_event prog structName h}"
    if "\<not> lt_Truncated r" "?mode \<noteq> ''none''"
    using that unfolding set_all [symmetric] by (simp add: r(2,3) hs_def dedupeLifecycleHops_def)
  show ?thesis
    by (intro exI [of _ r] conjI impI ballI r(1) sorted_r event_r len_r max(2) none_r
        dedup_r [THEN conjunct1] dedup_r [THEN conjunct2]) (auto simp: r(3,4))
qed

text \<open>A function that allocates an \<^verbatim>\<open>S\<close>, stores to its field and hands it to an interface.\<close>

definition sample_life_types :: type_env where
  "sample_life_types = \<lparr>ty_Name = (\<lambda>_. ''S''), ty_Under = (\<lambda>_. TStruct [(''a'', TBasic ''int'')]),
     ty_Alias = (\<lambda>_. TBasic ''int''), ty_String = (\<lambda>_. '''')\<rparr>"

definition sample_life :: life_program where
  "sample_life = \<lparr>lg_Types = sample_life_types, lg_Packages = [], lg_OrmModels = [],
     lg_SSAFuncs = [Some \<lparr>lf_String = ''m.f'', lf_Blocks =
        [[(Some (''f.go'', 2), LAlloc (TPointer (TNamed 0))),
          (Some (''f.go'', 3), LStore (FieldAddrOf (TPointer (TNamed 0)) 0)),
          (None, LMakeInterface (TPointer (TNamed 0)) (Some (''f.go'', 4)))]]\<rparr>]\<rparr>"

definition sample_life_opts :: LifecycleOptions where
  "sample_life_opts = \<lparr>lo_DedupeMode = '''', lo_MaxHops = 0, lo_Summary = True, lo_Limit = 0, lo_Offset = 0,
     lo_MaxItems = 0, lo_Cursor = '''', lo_ChunkSize = 0\<rparr>"

theorem lifecycle_trace_exact_witness:
  "\<exists>r. TraceStructLifecycle sample_paging (Inr sample_life) ''S'' sample_life_opts = Inr r
     \<and> sorted (map hop_key (lt_Hops r)) \<and> (\<forall>h \<in> set (lt_Hops r). lifecycle_event sample_life ''S'' h)"
proof -
  have n: "TrimSpace ''S'' \<noteq> ''''" by code_simp
  have c: "lo_ChunkSize sample_life_opts \<le> 0" by (simp add: sample_life_opts_def)
  have p: "no_paging (lifecycleQuery sample_life_opts)"
    by (simp add: no_paging_def lifecycleQuery_def sample_life_opts_def plain_opts_def)
  show ?thesis using lifecycle_trace_exact [OF n c p refl, of sample_paging sample_life] by blast
qed

end
