(* ===== verification/Compute_Mutex.thy ===== *)
theory Compute_Mutex
  imports Prelude
begin

text \<open>
  \<^verbatim>\<open>analyzer/compute_mutex.go\<close> and the routing of slow tool calls through it
  (\<^verbatim>\<open>beginSlowPath\<close> in \<^verbatim>\<open>main.go\<close>): an advisory lock, tagged with the
  owner's name and a priority, that the background rebuild and the tools share. A nil
  \<^verbatim>\<open>*ComputeMutex\<close> is \<open>None\<close>. Every operation runs under the inner \<^verbatim>\<open>sync.Mutex\<close>
  and is therefore one step.
\<close>

section \<open>Priorities\<close>

datatype RebuildPriority = PriorityHigh | PriorityNormal | PriorityLow

fun priority_num :: "RebuildPriority \<Rightarrow> nat" where
  "priority_num PriorityHigh = 0"
| "priority_num PriorityNormal = 1"
| "priority_num PriorityLow = 2"

lemma priority_num_inj [simp]: "priority_num p = priority_num q \<longleftrightarrow> p = q"
  by (cases p; cases q) auto

instantiation RebuildPriority :: linorder
begin

definition less_RebuildPriority :: "RebuildPriority \<Rightarrow> RebuildPriority \<Rightarrow> bool" where
  "less_RebuildPriority p q \<longleftrightarrow> priority_num p < priority_num q"

definition less_eq_RebuildPriority :: "RebuildPriority \<Rightarrow> RebuildPriority \<Rightarrow> bool" where
  "less_eq_RebuildPriority p q \<longleftrightarrow> priority_num p \<le> priority_num q"

instance
  by standard (auto simp: less_RebuildPriority_def less_eq_RebuildPriority_def)

end

lemma priority_less [simp]:
  "p < PriorityHigh \<longleftrightarrow> False" "PriorityHigh < p \<longleftrightarrow> p \<noteq> PriorityHigh"
  by (cases p; simp add: less_RebuildPriority_def)+

section \<open>The lock\<close>

datatype lock_error =
    ErrComputeInProgress int
  | ErrComputeAborted string

record ComputeMutex =
  cm_holder :: string
  cm_priority :: RebuildPriority
  cm_aborted :: bool
  cm_eta :: int

record ComputeMutexStatus =
  ms_Locked :: bool
  ms_Owner :: string
  ms_Priority :: RebuildPriority
  ms_Aborted :: bool
  ms_ETA :: int

definition NewComputeMutex :: ComputeMutex where
  "NewComputeMutex = \<lparr>cm_holder = '''', cm_priority = PriorityLow, cm_aborted = False,
     cm_eta = 5000000000\<rparr>"

definition TryLock ::
  "string \<Rightarrow> RebuildPriority \<Rightarrow> ComputeMutex option \<Rightarrow>
   ComputeMutex option \<times> bool \<times> lock_error option" where
  "TryLock owner priority mutex =
     (case mutex of
        None \<Rightarrow> (None, True, None)
      | Some m \<Rightarrow>
          if cm_holder m = '''' then
            (Some (m\<lparr>cm_holder := owner, cm_priority := priority, cm_aborted := False\<rparr>), True, None)
          else if cm_holder m = owner then (Some m, True, None)
          else if priority = PriorityHigh \<and> cm_priority m > PriorityHigh then
            (Some (m\<lparr>cm_aborted := True\<rparr>), False,
             Some (ErrComputeAborted ''preempted by high-priority request''))
          else (Some m, False, Some (ErrComputeInProgress (cm_eta m))))"

definition Unlock :: "string \<Rightarrow> ComputeMutex option \<Rightarrow> ComputeMutex option" where
  "Unlock owner mutex =
     (case mutex of
        None \<Rightarrow> None
      | Some m \<Rightarrow>
          if owner \<noteq> '''' \<and> cm_holder m \<noteq> '''' \<and> cm_holder m \<noteq> owner then Some m
          else Some (m\<lparr>cm_holder := '''', cm_priority := PriorityLow, cm_aborted := False\<rparr>))"

definition CheckAborted :: "ComputeMutex option \<Rightarrow> bool" where
  "CheckAborted mutex = (case mutex of None \<Rightarrow> False | Some m \<Rightarrow> cm_aborted m)"

definition mutexStatus :: "ComputeMutex option \<Rightarrow> ComputeMutexStatus" where
  "mutexStatus mutex =
     (case mutex of
        None \<Rightarrow> \<lparr>ms_Locked = False, ms_Owner = '''', ms_Priority = PriorityHigh, ms_Aborted = False, ms_ETA = 0\<rparr>
      | Some m \<Rightarrow> \<lparr>ms_Locked = (cm_holder m \<noteq> ''''), ms_Owner = cm_holder m,
                   ms_Priority = cm_priority m, ms_Aborted = cm_aborted m, ms_ETA = cm_eta m\<rparr>)"

lemmas mutex_defs [state_simps] = TryLock_def Unlock_def CheckAborted_def

section \<open>The router\<close>

record busy_result =
  br_status :: string
  br_reason :: string
  br_eta_seconds :: int
  br_preemptible :: bool
  br_freshness :: string
  br_rebuilding :: bool
  br_text :: string

definition busyResult :: "string \<Rightarrow> busy_result" where
  "busyResult reason = \<lparr>br_status = ''busy'', br_reason = reason, br_eta_seconds = 5,
     br_preemptible = False, br_freshness = ''approximate'', br_rebuilding = True,
     br_text = ''System is busy updating the index. Please retry in 5 seconds.''\<rparr>"

definition handleBusyError :: "lock_error option \<Rightarrow> busy_result option" where
  "handleBusyError err =
     (case err of
        None \<Rightarrow> None
      | Some (ErrComputeInProgress _) \<Rightarrow> Some (busyResult ''background sync in progress'')
      | Some (ErrComputeAborted reason) \<Rightarrow>
          Some (busyResult (if reason = '''' then ''background sync preempted'' else reason)))"

text \<open>
  The answer of \<^verbatim>\<open>beginSlowPath\<close>: \<open>Inr ()\<close> to go on, \<open>Inl\<close> the busy result.
  All lock errors are one of the two kinds \<^verbatim>\<open>handleBusyError\<close> knows, so the branch that
  reports another error is not reached.
\<close>

definition beginSlowPath ::
  "string \<Rightarrow> ComputeMutex option \<Rightarrow> ComputeMutex option \<times> (busy_result + unit)" where
  "beginSlowPath owner mutex =
     (if mutex = None then (mutex, Inr ())
      else case TryLock owner PriorityHigh mutex of
             (mutex', locked, err) \<Rightarrow>
               (case handleBusyError err of
                  Some busy \<Rightarrow> (mutex', Inl busy)
                | None \<Rightarrow>
                    if \<not> locked then (mutex', Inl (busyResult ''background sync in progress''))
                    else (mutex', Inr ())))"

text \<open>
  The routed tools and the owner each of them uses, which is the name of the tool.
\<close>

definition slow_tools :: "string list" where
  "slow_tools = [''analyze_call_hierarchy'', ''find_callers'', ''trace_struct_lifecycle'',
     ''detect_concurrency_risks'', ''find_call_path'', ''find_dead_code'',
     ''find_orphaned_database_models'']"

section \<open>Laws of the lock\<close>

definition holds :: "string \<Rightarrow> ComputeMutex option \<Rightarrow> bool" where
  "holds owner mutex \<longleftrightarrow> (\<exists>m. mutex = Some m \<and> cm_holder m = owner)"

lemma TryLock_granted:
  "TryLock owner p (Some m) = (m', True, e) \<longleftrightarrow>
     e = None \<and> (cm_holder m = '''' \<and> m' = Some (m\<lparr>cm_holder := owner, cm_priority := p, cm_aborted := False\<rparr>)
        \<or> cm_holder m \<noteq> '''' \<and> cm_holder m = owner \<and> m' = Some m)"
  by (auto simp: TryLock_def)

lemma TryLock_refused_holder:
  "TryLock owner p (Some m) = (m', False, e) \<Longrightarrow>
     \<exists>m''. m' = Some m'' \<and> cm_holder m'' = cm_holder m \<and> cm_holder m \<noteq> owner
       \<and> cm_holder m \<noteq> '''' \<and> e \<noteq> None"
  by (auto simp: TryLock_def split: if_splits)

lemma beginSlowPath_ok:
  "beginSlowPath owner (Some m) = (m', Inr ()) \<longleftrightarrow> TryLock owner PriorityHigh (Some m) = (m', True, None)"
  by (auto simp: beginSlowPath_def TryLock_def handleBusyError_def)

text \<open>
  Concurrent callers as a step relation. A caller \<open>i\<close> locks with the name \<open>own i\<close>; the
  state is the lock and the callers inside their critical sections.
\<close>

type_synonym lock_state = "ComputeMutex \<times> nat list"

inductive lock_step :: "(nat \<Rightarrow> string) \<Rightarrow> lock_state \<Rightarrow> lock_state \<Rightarrow> bool" for own where
  enter: "i \<notin> set rs \<Longrightarrow> TryLock (own i) p (Some m) = (Some m', True, e)
          \<Longrightarrow> lock_step own (m, rs) (m', i # rs)"
| refuse: "i \<notin> set rs \<Longrightarrow> TryLock (own i) p (Some m) = (Some m', False, e)
          \<Longrightarrow> lock_step own (m, rs) (m', rs)"
| leave: "i \<in> set rs \<Longrightarrow> Unlock (own i) (Some m) = Some m'
          \<Longrightarrow> lock_step own (m, rs) (m', remove1 i rs)"

inductive lock_reach :: "(nat \<Rightarrow> string) \<Rightarrow> lock_state \<Rightarrow> bool" for own where
  init: "lock_reach own (NewComputeMutex, [])"
| step: "lock_reach own s \<Longrightarrow> lock_step own s t \<Longrightarrow> lock_reach own t"

inductive_cases lock_stepE: "lock_step own (m, rs) t"

text \<open>
  The contract of a lock: at most one caller inside, and it is the one the lock names. It
  needs owners that tell the callers apart.
\<close>

definition lock_inv :: "(nat \<Rightarrow> string) \<Rightarrow> lock_state \<Rightarrow> bool" where
  "lock_inv own s \<longleftrightarrow> (case s of (m, rs) \<Rightarrow>
     (rs = [] \<and> cm_holder m = '''') \<or> (\<exists>i. rs = [i] \<and> cm_holder m = own i))"

lemma lock_inv_step [inv_intros]:
  assumes "inj own" "\<And>i. own i \<noteq> ''''" "lock_inv own s" "lock_step own s t"
  shows "lock_inv own t"
  using assms(4,3) assms(1,2)
proof (cases rule: lock_step.cases)
  case (enter i rs p m m' e)
  then show ?thesis
    using assms assms(2) [symmetric] by (auto simp: lock_inv_def TryLock_granted dest: injD)
next
  case (refuse i rs p m m' e)
  then show ?thesis
    using assms TryLock_refused_holder [OF refuse(4)] by (auto simp: lock_inv_def)
next
  case (leave i rs m m')
  then show ?thesis
    using assms by (auto simp: lock_inv_def Unlock_def split: if_splits)
qed

section \<open>Properties\<close>

text \<open>
  C9: callers that lock with different non-empty names exclude each other: in every reachable
  state at most one of them is in its critical section, and the lock is held by its name.
\<close>

theorem compute_mutex_exclusion:
  assumes "inj own" "\<And>i. own i \<noteq> ''''" "lock_reach own (m, rs)"
  shows "(rs = [] \<and> cm_holder m = '''') \<or> (\<exists>i. rs = [i] \<and> cm_holder m = own i)"
proof -
  have "lock_inv own (m, rs)"
    using assms(3)
  proof (induction "(m, rs)" arbitrary: m rs rule: lock_reach.induct)
    case init
    then show ?case by (simp add: lock_inv_def NewComputeMutex_def)
  next
    case (step s)
    then show ?case using lock_inv_step [OF assms(1,2)] by (metis surj_pair)
  qed
  then show ?thesis by (simp add: lock_inv_def)
qed

definition caller_name :: "nat \<Rightarrow> string" where
  "caller_name i = replicate (Suc i) CHR ''t''"

theorem compute_mutex_exclusion_witness:
  "\<exists>m. lock_reach caller_name (m, [3]) \<and> (\<exists>i. [3] = [i] \<and> cm_holder m = caller_name i)"
proof -
  let ?m = "NewComputeMutex\<lparr>cm_holder := caller_name 3, cm_priority := PriorityHigh, cm_aborted := False\<rparr>"
  have "lock_step caller_name (NewComputeMutex, []) (?m, [3])"
    by (rule lock_step.enter [where p = PriorityHigh and e = None])
      (simp_all add: TryLock_def NewComputeMutex_def)
  then have r: "lock_reach caller_name (?m, [3])"
    using lock_reach.intros by blast
  moreover have "inj caller_name"
    by (auto simp: inj_def caller_name_def dest: replicate_eq_replicate [THEN iffD1])
  ultimately show ?thesis
    using compute_mutex_exclusion [OF _ _ r] by (auto simp: caller_name_def)
qed

definition two_calls :: "string \<Rightarrow> ComputeMutex option \<times> (busy_result + unit) list \<times> bool" where
  "two_calls tool =
     (let (m1, r1) = beginSlowPath tool (Some NewComputeMutex);
          (m2, r2) = beginSlowPath tool m1;
          m3 = Unlock tool m2;
          (m4, locked, _) = TryLock ''sync-manager'' PriorityNormal m3
      in (m4, [r1, r2], locked))"

text \<open>
  The router locks with the name of the tool, so two concurrent calls of one tool are both
  admitted, and the one that returns first releases the lock under the other, which lets the
  background rebuild in.
\<close>

theorem same_tool_calls_overlap:
  "\<forall>tool \<in> set slow_tools. fst (snd (two_calls tool)) = [Inr (), Inr ()]
     \<and> snd (snd (two_calls tool)) \<and> holds ''sync-manager'' (fst (two_calls tool))"
proof
  fix tool assume "tool \<in> set slow_tools"
  then have "tool \<noteq> ''''" by (auto simp: slow_tools_def)
  then show "fst (snd (two_calls tool)) = [Inr (), Inr ()]
     \<and> snd (snd (two_calls tool)) \<and> holds ''sync-manager'' (fst (two_calls tool))"
    by (simp add: two_calls_def beginSlowPath_def TryLock_def Unlock_def NewComputeMutex_def
        handleBusyError_def holds_def)
qed

theorem same_tool_calls_overlap_witness:
  "fst (snd (two_calls ''find_callers'')) = [Inr (), Inr ()]"
  using same_tool_calls_overlap by (simp add: slow_tools_def)

text \<open>
  A slow tool is refused exactly when the lock is held under another name; it then gets a
  busy answer, the holder keeps the lock, and a holder of lower priority is marked aborted.
\<close>

theorem beginSlowPath_spec:
  "beginSlowPath owner (Some m) =
     (if cm_holder m = '''' then
        (Some (m\<lparr>cm_holder := owner, cm_priority := PriorityHigh, cm_aborted := False\<rparr>), Inr ())
      else if cm_holder m = owner then (Some m, Inr ())
      else if cm_priority m = PriorityHigh then
        (Some m, Inl (busyResult ''background sync in progress''))
      else (Some (m\<lparr>cm_aborted := True\<rparr>), Inl (busyResult ''preempted by high-priority request'')))"
  by (simp add: beginSlowPath_def TryLock_def handleBusyError_def)

end
