(* ===== verification/Rebuild_Queue.thy ===== *)
theory Rebuild_Queue
  imports Compute_Mutex
begin

text \<open>
  \<^verbatim>\<open>analyzer/sync_queue.go\<close>: the queue of rebuild requests. A time is its distance in
  nanoseconds from Go's zero time, so \<^verbatim>\<open>IsZero\<close> is \<open>= 0\<close>; the clock is an argument. The
  condition variable only wakes waiters and has no state of its own.
\<close>

record RebuildRequest =
  rr_rootPath :: string
  rr_patterns :: "string list"
  rr_priority :: RebuildPriority
  rr_forceFull :: bool
  rr_reason :: string
  rr_createdBy :: string
  rr_createdAt :: int

record QueueStatus =
  qs_Pending :: int
  qs_Active :: "RebuildRequest option"
  qs_Aborted :: bool
  qs_Reason :: string
  qs_LastError :: string

record RebuildQueue =
  rq_pending :: "RebuildRequest list"
  rq_active :: "RebuildRequest option"
  rq_aborted :: bool
  rq_reason :: string
  rq_lastError :: string

definition NewRebuildQueue :: RebuildQueue where
  "NewRebuildQueue = \<lparr>rq_pending = [], rq_active = None, rq_aborted = False, rq_reason = '''',
     rq_lastError = ''''\<rparr>"

definition request_less :: "RebuildRequest \<Rightarrow> RebuildRequest \<Rightarrow> bool" where
  "request_less x y =
     (if rr_priority x \<noteq> rr_priority y then rr_priority x < rr_priority y
      else rr_createdAt x < rr_createdAt y)"

definition stampRequest :: "int \<Rightarrow> RebuildRequest \<Rightarrow> RebuildRequest" where
  "stampRequest now req = (if rr_createdAt req = 0 then req\<lparr>rr_createdAt := now\<rparr> else req)"

definition Enqueue :: "int \<Rightarrow> RebuildRequest \<Rightarrow> RebuildQueue \<Rightarrow> RebuildQueue" where
  "Enqueue now req q =
     (let req = stampRequest now req
      in q\<lparr>rq_pending := sort_slice request_less (rq_pending q @ [req])\<rparr>)"

text \<open>
  One turn of the loop of \<^verbatim>\<open>Dequeue\<close>: a request, or the context's error, or another turn
  after the 50 ms timer.
\<close>

datatype dequeue_turn = Dequeued RebuildRequest RebuildQueue | ContextDone | WaitTimer

definition dequeueTurn :: "bool \<Rightarrow> RebuildQueue \<Rightarrow> dequeue_turn" where
  "dequeueTurn ctxDone q =
     (case rq_pending q of
        req # rest \<Rightarrow> Dequeued req (q\<lparr>rq_pending := rest, rq_active := Some req, rq_aborted := False,
                          rq_reason := ''''\<rparr>)
      | [] \<Rightarrow> if ctxDone then ContextDone else WaitTimer)"

text \<open>
  The loop itself, over what the other goroutines do to the queue between two turns: element
  \<open>n\<close> of the schedule is the context and the queue that turn \<open>n\<close> finds.
\<close>

fun Dequeue :: "(bool \<times> RebuildQueue) list \<Rightarrow> dequeue_turn" where
  "Dequeue [] = WaitTimer"
| "Dequeue ((ctxDone, q) # later) =
     (case dequeueTurn ctxDone q of WaitTimer \<Rightarrow> Dequeue later | r \<Rightarrow> r)"

definition Abort :: "string \<Rightarrow> RebuildQueue \<Rightarrow> RebuildQueue" where
  "Abort reason q = q\<lparr>rq_aborted := True, rq_reason := reason\<rparr>"

definition queueStatus :: "RebuildQueue \<Rightarrow> QueueStatus" where
  "queueStatus q = \<lparr>qs_Pending = int (length (rq_pending q)), qs_Active = rq_active q,
     qs_Aborted = rq_aborted q, qs_Reason = rq_reason q, qs_LastError = rq_lastError q\<rparr>"

definition queueSetError :: "string option \<Rightarrow> RebuildQueue \<Rightarrow> RebuildQueue" where
  "queueSetError err q = (case err of None \<Rightarrow> q | Some e \<Rightarrow> q\<lparr>rq_lastError := e\<rparr>)"

definition finishActive :: "RebuildQueue \<Rightarrow> RebuildQueue" where
  "finishActive q = q\<lparr>rq_active := None, rq_aborted := False, rq_reason := ''''\<rparr>"

lemmas queue_defs [state_simps] =
  Abort_def queueSetError_def finishActive_def stampRequest_def

section \<open>The order\<close>

definition request_key :: "RebuildRequest \<Rightarrow> RebuildPriority \<times> int" where
  "request_key r = (rr_priority r, rr_createdAt r)"

interpretation request: key_order request_less request_key
  by unfold_locales (auto simp: request_less_def request_key_def less_prod_def' order_simps)

section \<open>A queue by priority\<close>

text \<open>
  The contract the consumer of a work queue relies on: nothing is lost or invented, and what
  comes out is not preceded by anything left inside.
\<close>

locale work_queue =
  fixes enq :: "'r \<Rightarrow> 'q \<Rightarrow> 'q" and deq :: "'q \<Rightarrow> ('r \<times> 'q) option"
    and waiting :: "'q \<Rightarrow> 'r list" and inv :: "'q \<Rightarrow> bool"
    and prep :: "'r \<Rightarrow> 'r" and before :: "'r \<Rightarrow> 'r \<Rightarrow> bool"
  assumes enq_inv: "inv q \<Longrightarrow> inv (enq r q)"
    and enq_waiting: "inv q \<Longrightarrow> mset (waiting (enq r q)) = add_mset (prep r) (mset (waiting q))"
    and deq_inv: "inv q \<Longrightarrow> deq q = Some (r, q') \<Longrightarrow> inv q'"
    and deq_None: "inv q \<Longrightarrow> deq q = None \<longleftrightarrow> waiting q = []"
    and deq_Some: "inv q \<Longrightarrow> deq q = Some (r, q') \<Longrightarrow> mset (waiting q) = add_mset r (mset (waiting q'))"
    and deq_first: "inv q \<Longrightarrow> deq q = Some (r, q') \<Longrightarrow> x \<in> set (waiting q) \<Longrightarrow> \<not> before x r"
begin

fun drain :: "nat \<Rightarrow> 'q \<Rightarrow> 'r list" where
  "drain 0 q = []"
| "drain (Suc n) q = (case deq q of None \<Rightarrow> [] | Some (r, q') \<Rightarrow> r # drain n q')"

lemma drain_mset: "inv q \<Longrightarrow> length (waiting q) \<le> n \<Longrightarrow> mset (drain n q) = mset (waiting q)"
proof (induction n arbitrary: q)
  case (Suc n)
  show ?case
  proof (cases "deq q")
    case None
    with Suc deq_None [of q] show ?thesis by simp
  next
    case (Some rq)
    obtain r q' where [simp]: "rq = (r, q')" by fastforce
    have eq: "mset (waiting q) = add_mset r (mset (waiting q'))"
      using deq_Some Suc.prems Some by simp
    then have "size (mset (waiting q)) = Suc (size (mset (waiting q')))" by simp
    then have "length (waiting q') \<le> n" using Suc.prems(2) by simp
    with Suc.IH [of q'] deq_inv Suc.prems Some eq show ?thesis by simp
  qed
qed simp

lemma drain_ordered:
  "inv q \<Longrightarrow> length (waiting q) \<le> n \<Longrightarrow> sorted_wrt (\<lambda>x y. \<not> before y x) (drain n q)"
proof (induction n arbitrary: q)
  case (Suc n)
  show ?case
  proof (cases "deq q")
    case (Some rq)
    obtain r q' where [simp]: "rq = (r, q')" by fastforce
    have eq: "mset (waiting q) = add_mset r (mset (waiting q'))"
      using deq_Some Suc.prems Some by simp
    then have "size (mset (waiting q)) = Suc (size (mset (waiting q')))" by simp
    then have len: "length (waiting q') \<le> n" using Suc.prems(2) by simp
    have inv': "inv q'" using deq_inv Suc.prems Some by simp
    have "set (drain n q') = set (waiting q')"
      using drain_mset [OF inv' len] by (metis set_mset_mset)
    moreover have "set (waiting q') \<subseteq> set (waiting q)"
      using eq by (metis set_mset_add_mset_insert set_mset_mset subset_insertI)
    ultimately have "\<forall>x\<in>set (drain n q'). \<not> before x r"
      using deq_first Suc.prems(1) Some by auto
    with Suc.IH [OF inv' len] Some show ?thesis by simp
  qed simp
qed simp

end

definition takeRequest :: "RebuildQueue \<Rightarrow> (RebuildRequest \<times> RebuildQueue) option" where
  "takeRequest q = (case dequeueTurn False q of Dequeued r q' \<Rightarrow> Some (r, q') | _ \<Rightarrow> None)"

definition queue_inv :: "RebuildQueue \<Rightarrow> bool" where
  "queue_inv q \<longleftrightarrow> sorted (map request_key (rq_pending q))"

lemma takeRequest_simps:
  "takeRequest q = (case rq_pending q of [] \<Rightarrow> None
     | r # rest \<Rightarrow> Some (r, q\<lparr>rq_pending := rest, rq_active := Some r, rq_aborted := False, rq_reason := ''''\<rparr>))"
  by (simp add: takeRequest_def dequeueTurn_def split: list.splits)

lemma queue_inv_Enqueue [inv_intros]: "queue_inv (Enqueue now r q)"
  using request.sorted_keys by (simp add: queue_inv_def Enqueue_def Let_def)

lemma queue_inv_take [inv_intros]: "queue_inv q \<Longrightarrow> takeRequest q = Some (r, q') \<Longrightarrow> queue_inv q'"
  by (auto simp: queue_inv_def takeRequest_simps split: list.splits)

lemma queue_inv_new [inv_intros]: "queue_inv NewRebuildQueue"
  by (simp add: queue_inv_def NewRebuildQueue_def)

lemma queue_inv_other [simp]:
  "queue_inv (Abort s q) = queue_inv q" "queue_inv (queueSetError e q) = queue_inv q"
  "queue_inv (finishActive q) = queue_inv q"
  by (auto simp: queue_inv_def state_simps split: option.splits)

lemma rq_pending_Enqueue:
  "mset (rq_pending (Enqueue now r q)) = add_mset (stampRequest now r) (mset (rq_pending q))"
  by (simp add: Enqueue_def Let_def)

lemma length_Enqueue [simp]: "length (rq_pending (Enqueue now r q)) = Suc (length (rq_pending q))"
  by (simp add: Enqueue_def Let_def)

interpretation rebuilds: work_queue "Enqueue now" takeRequest rq_pending queue_inv
    "stampRequest now" request_less for now
proof (unfold_locales, goal_cases)
  case (6 q r q' x)
  then show ?case
    by (auto simp: takeRequest_simps queue_inv_def request.less_key not_less split: list.splits)
qed (auto simp: rq_pending_Enqueue takeRequest_simps intro: inv_intros queue_inv_take split: list.splits)

section \<open>Properties\<close>

definition enqueueAll :: "(int \<times> RebuildRequest) list \<Rightarrow> RebuildQueue \<Rightarrow> RebuildQueue" where
  "enqueueAll reqs q = fold (\<lambda>(now, r). Enqueue now r) reqs q"

fun takeAll :: "nat \<Rightarrow> RebuildQueue \<Rightarrow> RebuildRequest list" where
  "takeAll 0 q = []"
| "takeAll (Suc n) q = (case takeRequest q of None \<Rightarrow> [] | Some (r, q') \<Rightarrow> r # takeAll n q')"

lemma takeAll_drain: "takeAll n q = rebuilds.drain n q"
  by (induction n arbitrary: q) (simp_all split: option.split)

lemma enqueueAll_inv: "queue_inv q \<Longrightarrow> queue_inv (enqueueAll reqs q)"
  unfolding enqueueAll_def
  by (induction reqs arbitrary: q) (auto intro: inv_intros simp: split_def)

lemma enqueueAll_mset:
  "mset (rq_pending (enqueueAll reqs q)) =
     mset (map (\<lambda>(now, r). stampRequest now r) reqs) + mset (rq_pending q)"
  unfolding enqueueAll_def
  by (induction reqs arbitrary: q) (auto simp: rq_pending_Enqueue)

text \<open>
  C10: whatever sequence of requests is enqueued, at whatever times, taking them out again
  gives each of them exactly once, in the order of priority and then of creation time.
\<close>

theorem queue_priority_order:
  "mset (takeAll (length reqs) (enqueueAll reqs NewRebuildQueue))
     = mset (map (\<lambda>(now, r). stampRequest now r) reqs)
   \<and> sorted (map request_key (takeAll (length reqs) (enqueueAll reqs NewRebuildQueue)))"
proof -
  let ?q = "enqueueAll reqs NewRebuildQueue"
  have inv: "queue_inv ?q" by (rule enqueueAll_inv [OF queue_inv_new])
  have m: "mset (rq_pending ?q) = mset (map (\<lambda>(now, r). stampRequest now r) reqs)"
    by (simp add: enqueueAll_mset NewRebuildQueue_def)
  then have "size (mset (rq_pending ?q)) = length reqs" by simp
  then have len: "length (rq_pending ?q) \<le> length reqs" by simp
  show ?thesis
    using rebuilds.drain_mset [OF inv len] rebuilds.drain_ordered [OF inv len] m
    by (simp add: takeAll_drain sorted_wrt_map request.less_key not_less)
qed

lemma pending_filter_Enqueue:
  assumes "\<And>r. P r \<longleftrightarrow> request_key r = k"
  shows "filter P (rq_pending (Enqueue now r q)) = filter P (rq_pending q @ [stampRequest now r])"
proof -
  have "filter P (sort_slice request_less xs) = filter P xs" for xs
    by (rule request.sort_slice_stable) (simp add: assms request.less_key)
  then show ?thesis by (simp add: Enqueue_def Let_def)
qed

text \<open>
  Requests of the same priority and time leave the queue in the order in which they
  entered it.
\<close>

theorem queue_fifo_among_equals:
  "filter (\<lambda>r. request_key r = k) (rq_pending (enqueueAll reqs NewRebuildQueue))
     = filter (\<lambda>r. request_key r = k) (map (\<lambda>(now, r). stampRequest now r) reqs)"
proof -
  have "filter (\<lambda>r. request_key r = k) (rq_pending (enqueueAll reqs q))
    = filter (\<lambda>r. request_key r = k) (rq_pending q @ map (\<lambda>(now, r). stampRequest now r) reqs)" for q
    unfolding enqueueAll_def
  proof (induction reqs arbitrary: q)
    case (Cons a reqs)
    then show ?case
      by (cases a) (simp add: pending_filter_Enqueue [of "\<lambda>r. request_key r = k" k])
  qed simp
  then show ?thesis by (simp add: NewRebuildQueue_def)
qed

end
