(* ===== verification/Sync_Manager.thy ===== *)
theory Sync_Manager
  imports Rebuild_Queue Go_Strings
begin

text \<open>
  \<^verbatim>\<open>analyzer/sync_manager.go\<close>, \<^verbatim>\<open>analyzer/file_watcher.go\<close> and the persisted sync state of
  \<^verbatim>\<open>analyzer/sync_state.go\<close>: the background loop that takes requests from the queue,
  locks the compute mutex, rebuilds and records its status. One turn of the loop is a function
  on the manager and on what it changes outside (open database handles, committed snapshots,
  saved state files). The results of calls into the loader, the store and the file system are
  read from an environment.
\<close>

section \<open>State\<close>

datatype SyncState = StateIdle | StateComputing | StateWriting | StateError | StatePaused

definition stateString :: "SyncState \<Rightarrow> string" where
  "stateString s =
     (case s of StateIdle \<Rightarrow> ''idle'' | StateComputing \<Rightarrow> ''computing'' | StateWriting \<Rightarrow> ''writing''
      | StateError \<Rightarrow> ''error'' | StatePaused \<Rightarrow> ''paused'')"

record SyncStatus =
  st_State :: SyncState
  st_Progress :: int
  st_FilesTotal :: int
  st_FilesDone :: int
  st_ETA :: int
  st_StartedAt :: int
  st_Reason :: string

record FileHash =
  fh_Hash :: string
  fh_ModifiedAt :: int
  fh_Size :: int

record PersistedState =
  ps_Version :: int
  ps_LastSync :: int
  ps_LastHash :: string
  ps_Files :: "(string \<times> FileHash) list"
  ps_Status :: SyncStatus

datatype sync_error =
    SyncErr string
  | LockErr lock_error
  | ComputeSnapshot sync_error

text \<open>\<^verbatim>\<open>err.Error()\<close>; \<open>dur\<close> prints a duration.\<close>

fun errText :: "(int \<Rightarrow> string) \<Rightarrow> sync_error \<Rightarrow> string" where
  "errText dur (SyncErr s) = s"
| "errText dur (LockErr (ErrComputeInProgress eta)) = ''compute in progress; retry in '' @ dur eta"
| "errText dur (LockErr (ErrComputeAborted reason)) =
     (if reason = '''' then ''compute aborted'' else ''compute aborted: '' @ reason)"
| "errText dur (ComputeSnapshot e) = ''compute snapshot: '' @ errText dur e"

fun asInProgress :: "sync_error \<Rightarrow> bool" where
  "asInProgress (LockErr (ErrComputeInProgress _)) = True"
| "asInProgress (ComputeSnapshot e) = asInProgress e"
| "asInProgress _ = False"

record SSABuilder =
  sb_workspace :: bool           \<comment> \<open>not nil\<close>
  sb_store :: "nat option"       \<comment> \<open>the handle of the store\<close>
  sb_rootPath :: string
  sb_patterns :: "string list"
  sb_mutex :: "ComputeMutex option"

record SyncManager =
  sm_status :: SyncStatus
  sm_workspace :: bool           \<comment> \<open>not nil\<close>
  sm_queue :: RebuildQueue
  sm_builder :: "SSABuilder option"
  sm_mutex :: "ComputeMutex option"
  sm_statePath :: string
  sm_rootPath :: string

text \<open>The calls of a snapshot into the loader, the configuration and the store.\<close>

datatype snapshot_call =
    GetOrLoadSSA | EffectiveConfig | NewEmbeddingProvider | PrepareChangedSymbols
  | EnsureVectorTable | BeginTx
  | UpsertFileMetas | UpsertEdges | UpsertMetrics | UpsertRoutes | UpsertGRPCEndpoints
  | UpsertGRPCRegistrations | UpsertSymbols | UpsertSymbolHashes | CommitTx

record sync_env =
  en_now :: int
  en_dur :: "int \<Rightarrow> string"
  en_getwd :: string
  en_ctxErr :: "string option"                    \<comment> \<open>\<^verbatim>\<open>ctx.Err()\<close> when the rebuild starts\<close>
  en_ctxErrSnapshot :: "string option"            \<comment> \<open>and when the snapshot starts\<close>
  en_load :: "string \<Rightarrow> string \<Rightarrow> string option"   \<comment> \<open>the error of \<^verbatim>\<open>GetOrLoad\<close>\<close>
  en_open :: "string \<Rightarrow> string option"             \<comment> \<open>the error of \<^verbatim>\<open>OpenWorkspaceStore\<close>\<close>
  en_call :: "snapshot_call \<Rightarrow> string option"      \<comment> \<open>the errors of the snapshot's calls\<close>
  en_scan :: "string \<Rightarrow> string + (string \<times> string) list"   \<comment> \<open>\<^verbatim>\<open>scanHashes\<close>: path and hash\<close>
  en_stat :: "string \<Rightarrow> (int \<times> int) option"       \<comment> \<open>\<^verbatim>\<open>os.Stat\<close>: size and modification time\<close>
  en_aggregate :: "(string \<times> string) list \<Rightarrow> string"
  en_save :: "string option"                      \<comment> \<open>the error of \<^verbatim>\<open>state.Save\<close>\<close>

record sync_world =
  sw_open :: "nat list"                           \<comment> \<open>open store handles\<close>
  sw_next :: nat
  sw_committed :: "snapshot_call list list"       \<comment> \<open>the transactions that were committed\<close>
  sw_saved :: "(string \<times> PersistedState) list"    \<comment> \<open>state files written, newest first\<close>
  sw_invalidated :: "(string \<times> string) list"      \<comment> \<open>cache keys the rebuild invalidated\<close>

type_synonym sync = "SyncManager \<times> sync_world"

section \<open>Construction and status\<close>

definition NewSSABuilder :: "(string \<Rightarrow> string) \<Rightarrow> bool \<Rightarrow> nat option \<Rightarrow> string \<Rightarrow> string list \<Rightarrow> SSABuilder" where
  "NewSSABuilder clean ws store root patterns =
     \<lparr>sb_workspace = ws, sb_store = store, sb_rootPath = clean root, sb_patterns = patterns,
      sb_mutex = Some NewComputeMutex\<rparr>"

definition idleStatus :: SyncStatus where
  "idleStatus = \<lparr>st_State = StateIdle, st_Progress = 0, st_FilesTotal = 0, st_FilesDone = 0,
     st_ETA = 0, st_StartedAt = 0, st_Reason = ''''\<rparr>"

definition NewSyncManagerWithQueueAndRoot ::
  "(string \<Rightarrow> string) \<Rightarrow> bool \<Rightarrow> RebuildQueue option \<Rightarrow> string \<Rightarrow> string \<Rightarrow> SyncManager" where
  "NewSyncManagerWithQueueAndRoot clean ws queue root statePath =
     (let queue = (case queue of None \<Rightarrow> NewRebuildQueue | Some q \<Rightarrow> q);
          root = (if root \<noteq> '''' then clean root else root)
      in \<lparr>sm_status = idleStatus, sm_workspace = ws, sm_queue = queue,
          sm_builder = Some (NewSSABuilder clean ws None root [''./...'']),
          sm_mutex = Some NewComputeMutex, sm_statePath = statePath, sm_rootPath = root\<rparr>)"

definition computing :: "string \<Rightarrow> int \<Rightarrow> SyncStatus \<Rightarrow> SyncStatus" where
  "computing reason now s = s\<lparr>st_State := StateComputing, st_Reason := reason, st_StartedAt := now\<rparr>"

definition syncTrigger :: "sync_env \<Rightarrow> string \<Rightarrow> SyncManager \<Rightarrow> SyncManager" where
  "syncTrigger env reason m =
     (let m = m\<lparr>sm_status := computing reason (en_now env) (sm_status m)\<rparr>;
          root = (if sm_rootPath m = '''' then en_getwd env else sm_rootPath m)
      in m\<lparr>sm_queue := Enqueue (en_now env)
            \<lparr>rr_rootPath = root, rr_patterns = [], rr_priority = PriorityHigh, rr_forceFull = False,
             rr_reason = reason, rr_createdBy = ''tool'', rr_createdAt = 0\<rparr> (sm_queue m)\<rparr>)"

definition syncPause :: "SyncManager \<Rightarrow> SyncManager" where
  "syncPause m = m\<lparr>sm_status := (sm_status m)\<lparr>st_State := StatePaused\<rparr>\<rparr>"

definition syncResume :: "SyncManager \<Rightarrow> SyncManager" where
  "syncResume m = m\<lparr>sm_status := (sm_status m)\<lparr>st_State := StateIdle\<rparr>\<rparr>"

definition syncSetError :: "(int \<Rightarrow> string) \<Rightarrow> sync_error \<Rightarrow> SyncManager \<Rightarrow> SyncManager" where
  "syncSetError dur err m =
     m\<lparr>sm_status := (sm_status m)\<lparr>st_State := StateError, st_Reason := errText dur err\<rparr>,
       sm_queue := queueSetError (Some (errText dur err)) (sm_queue m)\<rparr>"

section \<open>The snapshot\<close>

fun firstError :: "(snapshot_call \<Rightarrow> string option) \<Rightarrow> snapshot_call list \<Rightarrow> string option" where
  "firstError call [] = None"
| "firstError call (c # cs) = (case call c of Some e \<Rightarrow> Some e | None \<Rightarrow> firstError call cs)"

definition upsertCalls :: "snapshot_call list" where
  "upsertCalls = [UpsertFileMetas, UpsertEdges, UpsertMetrics, UpsertRoutes, UpsertGRPCEndpoints,
     UpsertGRPCRegistrations, UpsertSymbols, UpsertSymbolHashes]"

text \<open>
  \<^verbatim>\<open>InTransaction\<close> with the snapshot's function. A handle that was closed refuses to begin a
  transaction, with the error of \<^verbatim>\<open>database/sql\<close>; a failing upsert rolls back.
\<close>

definition inTransaction ::
  "sync_env \<Rightarrow> nat \<Rightarrow> snapshot_call list \<Rightarrow> sync_world \<Rightarrow> sync_world \<times> string option" where
  "inTransaction env h calls w =
     (if h \<notin> set (sw_open w) then (w, Some ''sql: database is closed'')
      else case en_call env BeginTx of
             Some e \<Rightarrow> (w, Some e)
           | None \<Rightarrow>
               (case firstError (en_call env) calls of
                  Some e \<Rightarrow> (w, Some e)
                | None \<Rightarrow>
                    (case en_call env CommitTx of
                       Some e \<Rightarrow> (w, Some e)
                     | None \<Rightarrow> (w\<lparr>sw_committed := calls # sw_committed w\<rparr>, None))))"

definition snapshotLocked ::
  "sync_env \<Rightarrow> SSABuilder \<Rightarrow> sync_world \<Rightarrow> sync_world \<times> string option" where
  "snapshotLocked env b w =
     (case en_ctxErrSnapshot env of
        Some e \<Rightarrow> (w, Some e)
      | None \<Rightarrow>
          (case sb_store b of
             None \<Rightarrow> (w, Some ''compute snapshot requires workspace and store'')
           | Some h \<Rightarrow>
               if \<not> sb_workspace b then (w, Some ''compute snapshot requires workspace and store'')
               else
                 (case firstError (en_call env) [GetOrLoadSSA, EffectiveConfig, NewEmbeddingProvider,
                         PrepareChangedSymbols, EnsureVectorTable] of
                    Some e \<Rightarrow> (w, Some e)
                  | None \<Rightarrow> inTransaction env h upsertCalls w)))"

definition ComputeAndSnapshot ::
  "sync_env \<Rightarrow> SSABuilder option \<Rightarrow> sync_world \<Rightarrow> SSABuilder option \<times> sync_world \<times> sync_error option" where
  "ComputeAndSnapshot env builder w =
     (case builder of
        None \<Rightarrow> (None, w, None)
      | Some b \<Rightarrow>
          (let b = (if sb_mutex b = None then b\<lparr>sb_mutex := Some NewComputeMutex\<rparr> else b)
           in case TryLock ''ssa-builder'' PriorityHigh (sb_mutex b) of
                (mx, locked, err) \<Rightarrow>
                  (let b = b\<lparr>sb_mutex := mx\<rparr>
                   in case err of
                        Some e \<Rightarrow> (Some b, w, Some (LockErr e))
                      | None \<Rightarrow>
                          if \<not> locked then (Some b, w, Some (LockErr (ErrComputeInProgress (ms_ETA (mutexStatus mx)))))
                          else (case snapshotLocked env b w of
                                  (w, e) \<Rightarrow> (Some (b\<lparr>sb_mutex := Unlock ''ssa-builder'' (sb_mutex b)\<rparr>), w,
                                             map_option SyncErr e)))))"

section \<open>A rebuild\<close>

text \<open>The file hashes of the persisted state.\<close>

definition fileHashes :: "sync_env \<Rightarrow> (string \<times> string) list \<Rightarrow> (string \<times> FileHash) list" where
  "fileHashes env hashes =
     map (\<lambda>(path, h). (path, case en_stat env path of
            None \<Rightarrow> \<lparr>fh_Hash = h, fh_ModifiedAt = 0, fh_Size = 0\<rparr>
          | Some (sz, t) \<Rightarrow> \<lparr>fh_Hash = h, fh_ModifiedAt = t, fh_Size = sz\<rparr>)) hashes"

text \<open>From the scan of the files to the end of \<^verbatim>\<open>runRebuild\<close>.\<close>

definition recordState :: "sync_env \<Rightarrow> string \<Rightarrow> sync \<Rightarrow> sync \<times> sync_error option" where
  "recordState env root s =
     (case en_scan env root of
        Inl e \<Rightarrow> (s, Some (SyncErr e))
      | Inr hashes \<Rightarrow>
          (let (m, w) = s;
               files = fileHashes env hashes;
               status = (sm_status m)\<lparr>st_State := StateIdle, st_Progress := 1,
                  st_FilesTotal := int (length files), st_FilesDone := int (length files)\<rparr>;
               state = \<lparr>ps_Version = 1, ps_LastSync = en_now env, ps_LastHash = en_aggregate env hashes,
                  ps_Files = files, ps_Status = status\<rparr>
           in if sm_statePath m \<noteq> '''' then
                (case en_save env of
                   Some e \<Rightarrow> (s, Some (SyncErr e))
                 | None \<Rightarrow> ((m\<lparr>sm_status := status\<rparr>,
                            w\<lparr>sw_saved := (sm_statePath m, state) # sw_saved w\<rparr>), None))
              else ((m\<lparr>sm_status := status\<rparr>, w), None)))"

text \<open>The builder with its fields set, and the handle opened for it, if one was.\<close>

definition prepareBuilder ::
  "sync_env \<Rightarrow> string \<Rightarrow> string list \<Rightarrow> sync \<Rightarrow> sync \<times> nat option" where
  "prepareBuilder env root patterns s =
     (let (m, w) = s;
          b = (case sm_builder m of
                 None \<Rightarrow> NewSSABuilder (\<lambda>p. p) (sm_workspace m) None root patterns
               | Some b \<Rightarrow> b);
          b = b\<lparr>sb_workspace := sm_workspace m, sb_rootPath := root, sb_patterns := patterns\<rparr>
      in if sb_store b = None \<and> en_open env root = None then
           ((m\<lparr>sm_builder := Some (b\<lparr>sb_store := Some (sw_next w)\<rparr>)\<rparr>,
             w\<lparr>sw_open := sw_next w # sw_open w, sw_next := Suc (sw_next w)\<rparr>), Some (sw_next w))
         else ((m\<lparr>sm_builder := Some b\<rparr>, w), None))"

definition closeHandle :: "nat option \<Rightarrow> sync_world \<Rightarrow> sync_world" where
  "closeHandle h w = (case h of None \<Rightarrow> w | Some h \<Rightarrow> w\<lparr>sw_open := filter (\<lambda>x. x \<noteq> h) (sw_open w)\<rparr>)"

definition rebuildWithBuilder ::
  "sync_env \<Rightarrow> string \<Rightarrow> string list \<Rightarrow> sync \<Rightarrow> sync \<times> sync_error option" where
  "rebuildWithBuilder env root patterns s =
     (case prepareBuilder env root patterns s of
        ((m, w), opened) \<Rightarrow>
          (case ComputeAndSnapshot env (sm_builder m) w of
             (b, w, err) \<Rightarrow>
               (let m = m\<lparr>sm_builder := b\<rparr>
                in case (case err of
                      Some e \<Rightarrow> ((m, w), Some (if asInProgress e then e else ComputeSnapshot e))
                    | None \<Rightarrow> recordState env root (m, w)) of
                     ((m, w), err) \<Rightarrow> ((m, closeHandle opened w), err))))"

definition runRebuild :: "sync_env \<Rightarrow> RebuildRequest \<Rightarrow> sync \<Rightarrow> sync \<times> sync_error option" where
  "runRebuild env req s =
     (case en_ctxErr env of
        Some e \<Rightarrow> (s, Some (SyncErr e))
      | None \<Rightarrow>
          (let (m, w) = s; root = rr_rootPath req
           in if root = '''' \<and> sm_workspace m then (s, None)
              else
                (let pattern = (if rr_patterns req \<noteq> [] then Join '','' (rr_patterns req) else ''./...'');
                     w = (if sm_workspace m \<and> rr_forceFull req
                          then w\<lparr>sw_invalidated := (root, pattern) # sw_invalidated w\<rparr> else w)
                 in if sm_workspace m \<and> rr_rootPath req \<noteq> '''' then
                      (case en_load env (rr_rootPath req) pattern of
                         Some e \<Rightarrow> ((m, w), Some (SyncErr e))
                       | None \<Rightarrow> rebuildWithBuilder env root (Split CHR '','' pattern) (m, w))
                    else rebuildWithBuilder env root (Split CHR '','' pattern) (m, w))))"

section \<open>The background loop\<close>

definition syncOwner :: string where
  "syncOwner = ''sync-manager''"

definition requeue :: "sync_env \<Rightarrow> RebuildRequest \<Rightarrow> SyncManager \<Rightarrow> SyncManager" where
  "requeue env req m = m\<lparr>sm_queue := finishActive (Enqueue (en_now env) req (sm_queue m))\<rparr>"

text \<open>
  One turn after \<^verbatim>\<open>Dequeue\<close> returned \<open>req\<close>. Aborted and busy locks are handled alike,
  except for a pause.
\<close>

definition buildTurn :: "sync_env \<Rightarrow> RebuildRequest \<Rightarrow> sync \<Rightarrow> sync" where
  "buildTurn env req s =
     (let (m, w) = s;
          m = m\<lparr>sm_status := computing (rr_reason req) (en_now env) (sm_status m)\<rparr>
      in case TryLock syncOwner (rr_priority req) (sm_mutex m) of
           (mx, locked, err) \<Rightarrow>
             (let m = m\<lparr>sm_mutex := mx\<rparr>
              in if err \<noteq> None \<or> \<not> locked then (requeue env req m, w)
                 else if CheckAborted (sm_mutex m) then
                   (requeue env req (m\<lparr>sm_mutex := Unlock syncOwner (sm_mutex m)\<rparr>), w)
                 else
                   (case runRebuild env req (m, w) of
                      ((m, w), Some e) \<Rightarrow>
                        (let m = m\<lparr>sm_mutex := Unlock syncOwner (sm_mutex m)\<rparr>;
                             m = syncSetError (en_dur env) e m
                         in (m\<lparr>sm_queue := finishActive (sm_queue m)\<rparr>, w))
                    | ((m, w), None) \<Rightarrow>
                        (let m = m\<lparr>sm_mutex := Unlock syncOwner (sm_mutex m),
                                   sm_queue := finishActive (sm_queue m)\<rparr>
                         in (m\<lparr>sm_status := (sm_status m)\<lparr>st_State := StateIdle, st_Progress := 1\<rparr>\<rparr>, w)))))"

text \<open>
  The whole turn: a request from the queue, or the end of the loop (\<open>None\<close>), or nothing to do.
\<close>

definition loopTurn :: "sync_env \<Rightarrow> sync \<Rightarrow> sync option" where
  "loopTurn env s =
     (case dequeueTurn (en_ctxErr env \<noteq> None) (sm_queue (fst s)) of
        Dequeued req q \<Rightarrow> Some (buildTurn env req ((fst s)\<lparr>sm_queue := q\<rparr>, snd s))
      | ContextDone \<Rightarrow> None
      | WaitTimer \<Rightarrow> Some s)"

section \<open>Laws of a turn\<close>

lemmas turn_defs [state_simps] = buildTurn_def requeue_def syncOwner_def

lemma queue_of_ops [simp]:
  "rq_active (finishActive q) = None" "rq_pending (finishActive q) = rq_pending q"
  "rq_pending (queueSetError e q) = rq_pending q"
  by (auto simp: finishActive_def queueSetError_def split: option.splits)

lemma prepareBuilder_frame:
  "prepareBuilder env root patterns (m, w) = ((m', w'), h) \<Longrightarrow>
     sm_mutex m' = sm_mutex m \<and> sm_queue m' = sm_queue m \<and> sm_status m' = sm_status m
     \<and> sw_committed w' = sw_committed w"
  by (auto simp: prepareBuilder_def Let_def split: if_splits)

lemma recordState_frame:
  "recordState env root (m, w) = ((m', w'), e) \<Longrightarrow>
     sm_mutex m' = sm_mutex m \<and> sm_queue m' = sm_queue m \<and> sw_committed w' = sw_committed w"
  by (auto simp: recordState_def Let_def split: sum.splits if_splits option.splits)

lemma closeHandle_committed [simp]: "sw_committed (closeHandle h w) = sw_committed w"
  by (simp add: closeHandle_def split: option.splits)

lemma inTransaction_cases:
  "inTransaction env h calls w = (w', e) \<Longrightarrow>
     (e \<noteq> None \<and> w' = w) \<or>
     (e = None \<and> w' = w\<lparr>sw_committed := calls # sw_committed w\<rparr> \<and> firstError (en_call env) calls = None
        \<and> h \<in> set (sw_open w))"
  by (auto simp: inTransaction_def split: if_splits option.splits)

lemma firstError_None: "firstError call cs = None \<longleftrightarrow> (\<forall>c\<in>set cs. call c = None)"
  by (induction cs) (auto split: option.splits)

lemma snapshotLocked_cases:
  "snapshotLocked env b w = (w', e) \<Longrightarrow>
     (e \<noteq> None \<and> w' = w) \<or>
     (e = None \<and> w' = w\<lparr>sw_committed := upsertCalls # sw_committed w\<rparr>
        \<and> (\<forall>c\<in>set upsertCalls. en_call env c = None))"
  by (auto simp: snapshotLocked_def firstError_None split: option.splits if_splits
      dest!: inTransaction_cases)

lemma ComputeAndSnapshot_cases:
  "ComputeAndSnapshot env (Some b) w = (b', w', e) \<Longrightarrow>
     (e \<noteq> None \<and> w' = w) \<or>
     (e = None \<and> w' = w\<lparr>sw_committed := upsertCalls # sw_committed w\<rparr>
        \<and> (\<forall>c\<in>set upsertCalls. en_call env c = None))"
  by (auto simp: ComputeAndSnapshot_def Let_def split: prod.splits option.splits if_splits
      dest!: snapshotLocked_cases)

lemma prepareBuilder_builder:
  "prepareBuilder env root patterns s = ((m, w), h) \<Longrightarrow> \<exists>b. sm_builder m = Some b"
  by (auto simp: prepareBuilder_def Let_def split: if_splits prod.splits)

text \<open>A rebuild in its three steps.\<close>

lemma rebuildWithBuilder_steps:
  assumes "rebuildWithBuilder env root patterns s = ((m', w'), e)"
  obtains m1 w1 h b b2 w2 e2 where
    "prepareBuilder env root patterns s = ((m1, w1), h)" "sm_builder m1 = Some b"
    "ComputeAndSnapshot env (Some b) w1 = (b2, w2, e2)"
    "e2 \<noteq> None \<and> m' = m1\<lparr>sm_builder := b2\<rparr> \<and> w' = closeHandle h w2 \<or>
     e2 = None \<and> (\<exists>w3. recordState env root (m1\<lparr>sm_builder := b2\<rparr>, w2) = ((m', w3), e) \<and> w' = closeHandle h w3)"
proof -
  obtain m1 w1 h where p: "prepareBuilder env root patterns s = ((m1, w1), h)"
    by (metis surj_pair)
  obtain b where b: "sm_builder m1 = Some b" using prepareBuilder_builder [OF p] by blast
  obtain b2 w2 e2 where c: "ComputeAndSnapshot env (Some b) w1 = (b2, w2, e2)"
    by (metis surj_pair)
  obtain m3 w3 e3 where r: "recordState env root (m1\<lparr>sm_builder := b2\<rparr>, w2) = ((m3, w3), e3)"
    by (metis surj_pair)
  show thesis
    using assms by (intro that [OF p b c]) (cases e2; simp add: rebuildWithBuilder_def p b c r Let_def)
qed

lemma rebuildWithBuilder_frame:
  assumes "rebuildWithBuilder env root patterns (m, w) = ((m', w'), e)"
  shows "sm_mutex m' = sm_mutex m \<and> sm_queue m' = sm_queue m"
  using assms
  by (rule rebuildWithBuilder_steps) (auto dest!: prepareBuilder_frame recordState_frame)

lemma runRebuild_cases:
  assumes "runRebuild env req (m, w) = ((m', w'), e)"
  shows "(m' = m \<and> sw_committed w' = sw_committed w) \<or>
     (\<exists>root pats w1. rebuildWithBuilder env root pats (m, w1) = ((m', w'), e)
        \<and> sw_committed w1 = sw_committed w)"
proof (cases "en_ctxErr env = None \<and> \<not> (rr_rootPath req = '''' \<and> sm_workspace m)")
  case False
  with assms show ?thesis by (auto simp: runRebuild_def split: option.splits)
next
  case True
  define pattern where "pattern = (if rr_patterns req \<noteq> [] then Join '','' (rr_patterns req) else ''./...'')"
  define w1 where "w1 = (if sm_workspace m \<and> rr_forceFull req
     then w\<lparr>sw_invalidated := (rr_rootPath req, pattern) # sw_invalidated w\<rparr> else w)"
  have w1: "sw_committed w1 = sw_committed w" by (simp add: w1_def)
  have "en_ctxErr env = None" "(rr_rootPath req = '''' \<and> sm_workspace m) = False"
    using True by auto
  then have eq: "runRebuild env req (m, w) =
    (if sm_workspace m \<and> rr_rootPath req \<noteq> '''' then
       (case en_load env (rr_rootPath req) pattern of
          Some e \<Rightarrow> ((m, w1), Some (SyncErr e))
        | None \<Rightarrow> rebuildWithBuilder env (rr_rootPath req) (Split CHR '','' pattern) (m, w1))
     else rebuildWithBuilder env (rr_rootPath req) (Split CHR '','' pattern) (m, w1))"
    by (simp only: runRebuild_def Let_def option.case prod.case pattern_def w1_def if_False)
  have "(m' = m \<and> w' = w1) \<or> rebuildWithBuilder env (rr_rootPath req) (Split CHR '','' pattern) (m, w1) = ((m', w'), e)"
    using assms unfolding eq
    by (cases "sm_workspace m \<and> rr_rootPath req \<noteq> ''''"; cases "en_load env (rr_rootPath req) pattern")
      simp_all

  with w1 show ?thesis by blast
qed

lemma runRebuild_frame:
  "runRebuild env req (m, w) = ((m', w'), e) \<Longrightarrow>
     sm_mutex m' = sm_mutex m \<and> sm_queue m' = sm_queue m"
  by (drule runRebuild_cases) (auto dest: rebuildWithBuilder_frame)

lemma rebuildWithBuilder_committed:
  assumes "rebuildWithBuilder env root patterns (m, w) = ((m', w'), e)"
  shows "sw_committed w' = sw_committed w \<or>
     sw_committed w' = upsertCalls # sw_committed w \<and> (\<forall>c\<in>set upsertCalls. en_call env c = None)"
  using assms
  by (rule rebuildWithBuilder_steps)
    (auto dest!: prepareBuilder_frame recordState_frame ComputeAndSnapshot_cases)

lemma runRebuild_committed:
  "runRebuild env req (m, w) = ((m', w'), e) \<Longrightarrow> sw_committed w' = sw_committed w \<or>
     sw_committed w' = upsertCalls # sw_committed w \<and> (\<forall>c\<in>set upsertCalls. en_call env c = None)"
  using runRebuild_cases rebuildWithBuilder_committed by metis

lemma granted_not_aborted:
  "cm_holder mx = '''' \<Longrightarrow> TryLock owner p (Some mx) = (mx', locked, err) \<Longrightarrow> \<not> CheckAborted mx'"
  by (auto simp: TryLock_def CheckAborted_def)

text \<open>A turn that gets the lock, as the rebuild followed by the bookkeeping.\<close>

lemma buildTurn_granted:
  assumes "sm_mutex m = Some mx" "cm_holder mx = ''''"
  shows "buildTurn env req (m, w) =
    (let m1 = m\<lparr>sm_status := computing (rr_reason req) (en_now env) (sm_status m),
                sm_mutex := Some (mx\<lparr>cm_holder := syncOwner, cm_priority := rr_priority req, cm_aborted := False\<rparr>)\<rparr>;
         ((m2, w2), e) = runRebuild env req (m1, w);
         m3 = m2\<lparr>sm_mutex := Some (mx\<lparr>cm_holder := '''', cm_priority := PriorityLow, cm_aborted := False\<rparr>)\<rparr>
     in case e of
          Some err \<Rightarrow> (let m4 = syncSetError (en_dur env) err m3
                       in (m4\<lparr>sm_queue := finishActive (sm_queue m4)\<rparr>, w2))
        | None \<Rightarrow> (m3\<lparr>sm_queue := finishActive (sm_queue m3),
                      sm_status := (sm_status m3)\<lparr>st_State := StateIdle, st_Progress := 1\<rparr>\<rparr>, w2))"
proof -
  let ?mx = "mx\<lparr>cm_holder := syncOwner, cm_priority := rr_priority req, cm_aborted := False\<rparr>"
  let ?m1 = "m\<lparr>sm_status := computing (rr_reason req) (en_now env) (sm_status m), sm_mutex := Some ?mx\<rparr>"
  obtain m2 w2 e where r: "runRebuild env req (?m1, w) = ((m2, w2), e)" by (metis surj_pair)
  have "Unlock syncOwner (sm_mutex m2) = Some (mx\<lparr>cm_holder := '''', cm_priority := PriorityLow, cm_aborted := False\<rparr>)"
    using runRebuild_frame [OF r] by (simp add: Unlock_def)
  with r assms show ?thesis
    by (simp add: buildTurn_def TryLock_def CheckAborted_def Let_def split: option.split)
qed

section \<open>Properties\<close>

text \<open>
  A request that finds the lock held by another owner is not lost: it is back in the
  queue, nothing was rebuilt, and the lock still belongs to its holder.
\<close>

theorem refused_request_is_kept:
  assumes "sm_mutex m = Some mx" "cm_holder mx \<noteq> ''''" "cm_holder mx \<noteq> ''sync-manager''"
    and "rr_createdAt req \<noteq> 0"
  shows "\<exists>m'. buildTurn env req (m, w) = (m', w)
     \<and> mset (rq_pending (sm_queue m')) = add_mset req (mset (rq_pending (sm_queue m)))
     \<and> rq_active (sm_queue m') = None
     \<and> (\<exists>mx'. sm_mutex m' = Some mx' \<and> cm_holder mx' = cm_holder mx)"
  using assms by (auto simp: state_simps rq_pending_Enqueue)

definition sample_request :: RebuildRequest where
  "sample_request = \<lparr>rr_rootPath = ''/w'', rr_patterns = [], rr_priority = PriorityNormal,
     rr_forceFull = False, rr_reason = ''r'', rr_createdBy = ''watcher'', rr_createdAt = 7\<rparr>"

definition sample_env :: sync_env where
  "sample_env = \<lparr>en_now = 9, en_dur = (\<lambda>_. ''5s''), en_getwd = ''/w'', en_ctxErr = None,
     en_ctxErrSnapshot = None, en_load = (\<lambda>_ _. None), en_open = (\<lambda>_. None), en_call = (\<lambda>_. None),
     en_scan = (\<lambda>_. Inr [(''/w/a.go'', ''h'')]), en_stat = (\<lambda>_. None), en_aggregate = (\<lambda>_. ''x''),
     en_save = None\<rparr>"

definition sample_manager :: SyncManager where
  "sample_manager = NewSyncManagerWithQueueAndRoot (\<lambda>p. p) True None ''/w'' ''/w/state''"

definition sample_world :: sync_world where
  "sample_world = \<lparr>sw_open = [], sw_next = 0, sw_committed = [], sw_saved = [], sw_invalidated = []\<rparr>"

lemma sample_manager_fields [simp]:
  "sm_mutex sample_manager = Some NewComputeMutex" "rq_pending (sm_queue sample_manager) = []"
  by (simp_all add: sample_manager_def NewSyncManagerWithQueueAndRoot_def NewRebuildQueue_def Let_def)

theorem refused_request_is_kept_witness:
  "\<exists>m'. buildTurn sample_env sample_request
      (sample_manager\<lparr>sm_mutex := Some (NewComputeMutex\<lparr>cm_holder := ''find_callers''\<rparr>)\<rparr>, sample_world) = (m', sample_world)
     \<and> mset (rq_pending (sm_queue m')) = {#sample_request#}"
  using refused_request_is_kept [of "sample_manager\<lparr>sm_mutex := Some (NewComputeMutex\<lparr>cm_holder := ''find_callers''\<rparr>)\<rparr>"
      "NewComputeMutex\<lparr>cm_holder := ''find_callers''\<rparr>" sample_request sample_env sample_world]
  by (auto simp: sample_request_def)

text \<open>
  A turn that finds the lock free, whatever fails in its rebuild, releases the lock, leaves
  no active request and does not touch the pending ones; its status is idle with full progress,
  or the error with its text, which the queue reports as the last error.
\<close>

theorem turn_finishes:
  assumes "sm_mutex m = Some mx" "cm_holder mx = ''''" "buildTurn env req (m, w) = (m', w')"
  shows "(\<exists>mx'. sm_mutex m' = Some mx' \<and> cm_holder mx' = '''' \<and> \<not> cm_aborted mx')
     \<and> rq_active (sm_queue m') = None \<and> rq_pending (sm_queue m') = rq_pending (sm_queue m)
     \<and> (st_State (sm_status m') = StateIdle \<and> st_Progress (sm_status m') = 1
        \<or> st_State (sm_status m') = StateError \<and> st_Reason (sm_status m') = rq_lastError (sm_queue m'))"
proof -
  let ?m1 = "m\<lparr>sm_status := computing (rr_reason req) (en_now env) (sm_status m),
                sm_mutex := Some (mx\<lparr>cm_holder := syncOwner, cm_priority := rr_priority req, cm_aborted := False\<rparr>)\<rparr>"
  obtain m2 w2 e where r: "runRebuild env req (?m1, w) = ((m2, w2), e)" by (metis surj_pair)
  show ?thesis
    using assms(3) runRebuild_frame [OF r]
    by (cases e) (auto simp: buildTurn_granted [OF assms(1,2)] r Let_def syncSetError_def
        finishActive_def queueSetError_def)
qed

theorem turn_finishes_witness:
  "\<exists>mx'. sm_mutex (fst (buildTurn sample_env sample_request (sample_manager, sample_world))) = Some mx'
     \<and> cm_holder mx' = ''''"
  using turn_finishes [of sample_manager NewComputeMutex sample_env sample_request sample_world
      "fst (buildTurn sample_env sample_request (sample_manager, sample_world))"
      "snd (buildTurn sample_env sample_request (sample_manager, sample_world))"]
  by (auto simp: NewComputeMutex_def)


definition all_succeeds :: "sync_env \<Rightarrow> bool" where
  "all_succeeds env \<longleftrightarrow> en_ctxErr env = None \<and> en_ctxErrSnapshot env = None
     \<and> (\<forall>r p. en_load env r p = None) \<and> (\<forall>r. en_open env r = None) \<and> (\<forall>c. en_call env c = None)
     \<and> (\<forall>r. \<exists>hs. en_scan env r = Inr hs) \<and> en_save env = None"

lemma fresh_rebuild:
  assumes "all_succeeds env" "rr_rootPath req \<noteq> ''''" "sm_workspace m"
    "sm_builder m = Some b" "sb_store b = None" "sb_mutex b = Some NewComputeMutex"
  shows "\<exists>m' w' b'. runRebuild env req (m, w) = ((m', w'), None) \<and> sm_workspace m'
     \<and> sm_builder m' = Some b' \<and> sb_store b' = Some (sw_next w) \<and> sw_next w \<notin> set (sw_open w')
     \<and> sb_mutex b' = Some NewComputeMutex \<and> sw_next w' = Suc (sw_next w)
     \<and> sw_committed w' = upsertCalls # sw_committed w"
proof -
  obtain hs where hs: "en_scan env (rr_rootPath req) = Inr hs"
    using assms(1) unfolding all_succeeds_def by blast
  show ?thesis
    using assms hs
    by (auto simp: all_succeeds_def runRebuild_def rebuildWithBuilder_def prepareBuilder_def Let_def
        ComputeAndSnapshot_def TryLock_def Unlock_def NewComputeMutex_def snapshotLocked_def
        inTransaction_def upsertCalls_def recordState_def closeHandle_def)
qed

lemma stale_handle_rebuild:
  assumes "all_succeeds env" "rr_rootPath req \<noteq> ''''" "sm_workspace m"
    "sm_builder m = Some b" "sb_store b = Some h" "h \<notin> set (sw_open w)"
    "sb_mutex b = Some NewComputeMutex"
  shows "\<exists>m' w'. runRebuild env req (m, w) =
       ((m', w'), Some (ComputeSnapshot (SyncErr ''sql: database is closed'')))
     \<and> sw_committed w' = sw_committed w"
  using assms
  by (auto simp: all_succeeds_def runRebuild_def rebuildWithBuilder_def prepareBuilder_def Let_def
      ComputeAndSnapshot_def TryLock_def Unlock_def NewComputeMutex_def snapshotLocked_def
      inTransaction_def upsertCalls_def recordState_def closeHandle_def)

text \<open>
  The first rebuild of a fresh manager that opens its own store closes that store but
  keeps the handle, so the next rebuild, although nothing else fails, ends in an error and
  commits nothing.
\<close>

theorem second_rebuild_fails:
  assumes env: "all_succeeds env" and roots: "rr_rootPath req \<noteq> ''''" "rr_rootPath req' \<noteq> ''''"
    and m: "m = NewSyncManagerWithQueueAndRoot clean True queue root statePath"
  shows "\<exists>m1 w1 m2 w2. buildTurn env req (m, w) = (m1, w1)
       \<and> st_State (sm_status m1) = StateIdle \<and> sw_committed w1 = upsertCalls # sw_committed w
       \<and> buildTurn env req' (m1, w1) = (m2, w2) \<and> st_State (sm_status m2) = StateError
       \<and> st_Reason (sm_status m2) = ''compute snapshot: sql: database is closed''
       \<and> sw_committed w2 = sw_committed w1"
proof -
  have mx: "sm_mutex m = Some NewComputeMutex" "cm_holder NewComputeMutex = ''''"
    by (simp_all add: m NewSyncManagerWithQueueAndRoot_def Let_def NewComputeMutex_def)
  have fresh: "\<exists>m' w' b'. runRebuild env req (m\<lparr>sm_status := s, sm_mutex := x\<rparr>, w) = ((m', w'), None)
     \<and> sm_workspace m' \<and> sm_builder m' = Some b' \<and> sb_store b' = Some (sw_next w)
     \<and> sw_next w \<notin> set (sw_open w') \<and> sb_mutex b' = Some NewComputeMutex
     \<and> sw_next w' = Suc (sw_next w) \<and> sw_committed w' = upsertCalls # sw_committed w" for s x
    by (rule fresh_rebuild [OF env roots(1)])
      (auto simp: m NewSyncManagerWithQueueAndRoot_def NewSSABuilder_def Let_def)
  then obtain m' w' b' where r: "runRebuild env req
       (m\<lparr>sm_status := computing (rr_reason req) (en_now env) (sm_status m),
          sm_mutex := Some (NewComputeMutex\<lparr>cm_holder := syncOwner, cm_priority := rr_priority req, cm_aborted := False\<rparr>)\<rparr>, w)
       = ((m', w'), None)" "sm_workspace m'" "sm_builder m' = Some b'" "sb_store b' = Some (sw_next w)"
     "sw_next w \<notin> set (sw_open w')" "sb_mutex b' = Some NewComputeMutex"
     "sw_committed w' = upsertCalls # sw_committed w"
    by blast
  let ?m1 = "fst (buildTurn env req (m, w))"
  have t1: "buildTurn env req (m, w) = (?m1, w')" "sm_workspace ?m1" "sm_builder ?m1 = Some b'"
    "st_State (sm_status ?m1) = StateIdle"
    "sm_mutex ?m1 = Some (NewComputeMutex\<lparr>cm_holder := '''', cm_priority := PriorityLow, cm_aborted := False\<rparr>)"
    by (simp_all add: buildTurn_granted [OF mx] r Let_def)
  let ?m1' = "?m1\<lparr>sm_status := computing (rr_reason req') (en_now env) (sm_status ?m1),
     sm_mutex := Some (NewComputeMutex\<lparr>cm_holder := syncOwner, cm_priority := rr_priority req', cm_aborted := False\<rparr>)\<rparr>"
  obtain m2 w2 where r2: "runRebuild env req' (?m1', w')
     = ((m2, w2), Some (ComputeSnapshot (SyncErr ''sql: database is closed'')))"
    "sw_committed w2 = sw_committed w'"
    using stale_handle_rebuild [OF env roots(2), of ?m1' b' "sw_next w" w'] t1 r by auto
  have "buildTurn env req' (?m1, w') = (fst (buildTurn env req' (?m1, w')), w2)"
    "st_State (sm_status (fst (buildTurn env req' (?m1, w')))) = StateError"
    "st_Reason (sm_status (fst (buildTurn env req' (?m1, w')))) = ''compute snapshot: sql: database is closed''"
    using r2 by (simp_all add: buildTurn_granted [OF t1(5)] Let_def syncSetError_def)
  with t1 r r2 show ?thesis by blast
qed

theorem second_rebuild_fails_witness:
  "\<exists>m1 w1 m2 w2. buildTurn sample_env sample_request (sample_manager, sample_world) = (m1, w1)
     \<and> buildTurn sample_env sample_request (m1, w1) = (m2, w2) \<and> st_State (sm_status m2) = StateError"
proof -
  have "all_succeeds sample_env" by (simp add: all_succeeds_def sample_env_def)
  from second_rebuild_fails [OF this _ _ sample_manager_def, of sample_request sample_request sample_world]
  show ?thesis by (auto simp: sample_request_def)
qed

text \<open>
  Pausing does not pause: with a request pending, a turn of the loop does exactly what it
  does without the pause.
\<close>

theorem pause_has_no_effect:
  assumes "rq_pending (sm_queue m) \<noteq> []"
  shows "loopTurn env (syncPause m, w) = loopTurn env (m, w)"
proof -
  have c: "computing r t (s\<lparr>st_State := x\<rparr>) = computing r t s" for r t s x
    by (simp add: computing_def)
  obtain req rest where q: "rq_pending (sm_queue m) = req # rest"
    using assms by (cases "rq_pending (sm_queue m)") auto
  obtain mx lk er where t: "TryLock syncOwner (rr_priority req) (sm_mutex m) = (mx, lk, er)"
    by (metis surj_pair)
  show ?thesis
    using q t by (simp add: loopTurn_def dequeueTurn_def syncPause_def buildTurn_def c Let_def split: if_split)
qed

theorem pause_has_no_effect_witness:
  "loopTurn sample_env (syncPause (syncTrigger sample_env ''go'' sample_manager), sample_world)
     = loopTurn sample_env (syncTrigger sample_env ''go'' sample_manager, sample_world)"
  by (rule pause_has_no_effect)
    (simp add: syncTrigger_def sample_manager_def NewSyncManagerWithQueueAndRoot_def NewRebuildQueue_def
      Enqueue_def Let_def)

end
