(* ===== verification/Source_State.thy ===== *)
theory Source_State
  imports Sync_Manager Go_Paths
begin

text \<open>
  What the background synchronisation knows about source files: the include/exclude filter
  (\<^verbatim>\<open>analyzer/source_filter.go\<close>), the scan of a directory tree and the comparison with the
  stored hashes (\<^verbatim>\<open>analyzer/sync_state.go\<close>), and the watcher that turns changes into
  rebuild requests (\<^verbatim>\<open>analyzer/file_watcher.go\<close>). \<^verbatim>\<open>filepath.Match\<close> and SHA-256 are
  arguments.
\<close>

section \<open>The source filter\<close>

record SourceFilter =
  sf_include :: "string list"
  sf_exclude :: "string list"

text \<open>
  \<^verbatim>\<open>cleanStringSlice\<close> of \<^verbatim>\<open>config.go\<close>: with forward slashes, trimmed, without empty strings and
  repetitions.
\<close>

definition cleanStringSlice :: "string list \<Rightarrow> string list" where
  "cleanStringSlice xs = dedup (filter (\<lambda>s. s \<noteq> '''') (map (\<lambda>s. TrimSpace (slashes s)) xs))"

definition NewSourceFilter :: "string list \<Rightarrow> string list \<Rightarrow> SourceFilter" where
  "NewSourceFilter incl excl = \<lparr>sf_include = cleanStringSlice incl, sf_exclude = cleanStringSlice excl\<rparr>"

definition IsTestFile :: "string \<Rightarrow> bool" where
  "IsTestFile path = HasSuffix (ToLower (Base (slashes path))) ''_test.go''"

definition IsVendorFile :: "string \<Rightarrow> bool" where
  "IsVendorFile path =
     (let normalized = slashes path
      in Contains normalized ''/vendor/'' \<or> HasPrefix normalized ''vendor/'')"

definition IsGeneratedFile :: "string \<Rightarrow> bool" where
  "IsGeneratedFile path =
     (let normalized = slashes path; base = Base normalized
      in if HasSuffix base ''.pb.go'' \<or> HasSuffix base ''_gen.go'' \<or> HasSuffix base ''.gen.go'' then True
         else Contains (ToLower normalized) ''code generated'')"

definition pathMatchesPattern ::
  "(string \<Rightarrow> string \<Rightarrow> bool option) \<Rightarrow> string \<Rightarrow> string \<Rightarrow> string \<Rightarrow> bool" where
  "pathMatchesPattern glob path base pattern =
     (let pattern = TrimSpace (slashes pattern)
      in if pattern = '''' then False
         else let path = slashes path; base = slashes base
              in if HasSuffix pattern ''/'' then
                   Contains path pattern \<or> HasPrefix path (TrimSuffix pattern ''/'')
                 else if Contains pattern ''*'' then
                   (if glob pattern base = Some True then True else glob pattern path = Some True)
                 else Contains path pattern \<or> base = pattern \<or> path = pattern)"

definition isIncluded :: "(string \<Rightarrow> string \<Rightarrow> bool option) \<Rightarrow> SourceFilter \<Rightarrow> string \<Rightarrow> string \<Rightarrow> bool" where
  "isIncluded glob f path base = list_ex (pathMatchesPattern glob path base) (sf_include f)"

definition isExcluded :: "(string \<Rightarrow> string \<Rightarrow> bool option) \<Rightarrow> SourceFilter \<Rightarrow> string \<Rightarrow> string \<Rightarrow> bool" where
  "isExcluded glob f path base =
     (if IsVendorFile path \<and> list_ex (\<lambda>p. Contains p ''vendor'') (sf_exclude f) then True
      else if IsTestFile path \<and> list_ex (\<lambda>p. Contains p ''_test.go'') (sf_exclude f) then True
      else if IsGeneratedFile path
           \<and> list_ex (\<lambda>p. Contains p ''.pb.go'' \<or> Contains p ''_gen.go'' \<or> Contains p ''.gen.go'') (sf_exclude f)
      then True
      else list_ex (pathMatchesPattern glob path base) (sf_exclude f))"

definition ShouldProcess :: "(string \<Rightarrow> string \<Rightarrow> bool option) \<Rightarrow> SourceFilter option \<Rightarrow> string \<Rightarrow> bool" where
  "ShouldProcess glob filt path =
     (case filt of
        None \<Rightarrow> True
      | Some f \<Rightarrow>
          (let normalized = slashes path; base = Base normalized
           in \<not> (isExcluded glob f normalized base \<and> \<not> isIncluded glob f normalized base)))"

section \<open>Scanning\<close>

text \<open>
  A directory tree as \<^verbatim>\<open>filepath.WalkDir\<close> shows it: entries have a name and a directory
  its children in order. The root is an entry like any other: its own name is tested too.
\<close>

datatype fs_entry = FDir string "fs_entry list" | FFile string string

definition skippedDir :: "string \<Rightarrow> bool" where
  "skippedDir name \<longleftrightarrow> name \<in> set [''.git'', ''.gax'', ''vendor'', ''node_modules'', ''testdata'']"

definition isGoName :: "string \<Rightarrow> bool" where
  "isGoName name = HasSuffix (ToLower name) ''.go''"

definition hashFile :: "(string \<Rightarrow> string) \<Rightarrow> string \<Rightarrow> string" where
  "hashFile sha256 content = hex_encode (sha256 content)"

text \<open>\<open>scanEntry path e\<close> walks the entry that stands at \<open>path\<close>.\<close>

fun scanEntry :: "(string \<Rightarrow> string) \<Rightarrow> string \<Rightarrow> fs_entry \<Rightarrow> (string \<times> string) list" where
  "scanEntry sha256 path (FDir name es) =
     (if skippedDir name then []
      else concat (map (\<lambda>e. scanEntry sha256
             (path @ ''/'' @ (case e of FDir n _ \<Rightarrow> n | FFile n _ \<Rightarrow> n)) e) es))"
| "scanEntry sha256 path (FFile name content) =
     (if isGoName name then [(path, hashFile sha256 content)] else [])"

definition scanHashes :: "(string \<Rightarrow> string) \<Rightarrow> string \<Rightarrow> fs_entry \<Rightarrow> (string \<times> string) list" where
  "scanHashes sha256 dir root = scanEntry sha256 dir root"

text \<open>The files below an entry, each with the names of the directories above it.\<close>

fun files_below :: "string list \<Rightarrow> string \<Rightarrow> fs_entry \<Rightarrow> (string list \<times> string \<times> string \<times> string) list" where
  "files_below ups path (FDir name es) =
     concat (map (\<lambda>e. files_below (name # ups)
        (path @ ''/'' @ (case e of FDir n _ \<Rightarrow> n | FFile n _ \<Rightarrow> n)) e) es)"
| "files_below ups path (FFile name content) = [(ups, path, name, content)]"

section \<open>Changes\<close>

definition errorsIsNoRows :: "string \<Rightarrow> bool" where
  "errorsIsNoRows e = Contains e ''no rows in result set''"

text \<open>
  \<open>getFile\<close> is \<^verbatim>\<open>GetFileByPath\<close>, returning the stored hash or an error, and \<open>existing\<close> the
  answer of \<^verbatim>\<open>GetFilesByPrefix("")\<close>. The current hashes come in the order in which Go
  happens to range over the map.
\<close>

fun changedPaths :: "(string \<Rightarrow> string + string) \<Rightarrow> (string \<times> string) list \<Rightarrow> string + string list" where
  "changedPaths getFile [] = Inr []"
| "changedPaths getFile ((path, h) # rest) =
     (case getFile path of
        Inl e \<Rightarrow> if errorsIsNoRows e then map_sum id ((#) path) (changedPaths getFile rest) else Inl e
      | Inr stored \<Rightarrow>
          if stored \<noteq> h then map_sum id ((#) path) (changedPaths getFile rest)
          else changedPaths getFile rest)"

definition DetectChanges ::
  "(string \<Rightarrow> string + string) \<Rightarrow> string + string list \<Rightarrow> (string \<times> string) list \<Rightarrow>
   string + string list \<times> string list" where
  "DetectChanges getFile existing current =
     (case changedPaths getFile current of
        Inl e \<Rightarrow> Inl e
      | Inr changed \<Rightarrow>
          (case existing of
             Inl e \<Rightarrow> Inl e
           | Inr paths \<Rightarrow>
               Inr (sort changed, sort (filter (\<lambda>p. p \<notin> fst ` set current) paths))))"

text \<open>The bytes that \<^verbatim>\<open>aggregateFileHashes\<close> digests.\<close>

definition aggregateInput :: "(string \<times> string) list \<Rightarrow> string" where
  "aggregateInput hashes =
     concat (map (\<lambda>k. k @ [CHR 0x00] @ the (map_of hashes k) @ [CHR 0x00]) (sort (map fst hashes)))"

definition aggregateFileHashes :: "(string \<Rightarrow> string) \<Rightarrow> (string \<times> string) list \<Rightarrow> string" where
  "aggregateFileHashes sha256 hashes =
     (if hashes = [] then '''' else hex_encode (sha256 (aggregateInput hashes)))"

section \<open>The watcher\<close>

record FileWatcher =
  fw_root :: string
  fw_debounce :: int
  fw_changes :: "string list"   \<comment> \<open>the channel, oldest first\<close>
  fw_pending :: "string list"   \<comment> \<open>the map of pending paths\<close>
  fw_done :: bool

definition changesCapacity :: nat where
  "changesCapacity = 128"

definition NewFileWatcher :: "string \<Rightarrow> FileWatcher" where
  "NewFileWatcher root = \<lparr>fw_root = root, fw_debounce = 2500000000, fw_changes = [], fw_pending = [],
     fw_done = False\<rparr>"

definition SetDebounce :: "int \<Rightarrow> FileWatcher \<Rightarrow> FileWatcher" where
  "SetDebounce d w = (if d \<le> 0 then w else w\<lparr>fw_debounce := d\<rparr>)"

definition watcherStop :: "FileWatcher \<Rightarrow> FileWatcher" where
  "watcherStop w = w\<lparr>fw_done := True\<rparr>"

definition watcherTrigger :: "string \<Rightarrow> FileWatcher \<Rightarrow> FileWatcher" where
  "watcherTrigger path w =
     (if length (fw_changes w) < changesCapacity then w\<lparr>fw_changes := fw_changes w @ [path]\<rparr> else w)"

text \<open>The two cases of \<^verbatim>\<open>debouncedProcess\<close> that go on: a path from the channel, and a tick.\<close>

definition watcherReceive :: "FileWatcher \<Rightarrow> FileWatcher" where
  "watcherReceive w =
     (case fw_changes w of
        [] \<Rightarrow> w
      | p # ps \<Rightarrow> w\<lparr>fw_changes := ps, fw_pending := (if p \<noteq> '''' then List.insert p (fw_pending w) else fw_pending w)\<rparr>)"

definition watcherTick :: "int \<Rightarrow> FileWatcher \<times> RebuildQueue \<Rightarrow> FileWatcher \<times> RebuildQueue" where
  "watcherTick now s =
     (let (w, q) = s
      in if fw_pending w = [] then (w, q)
         else (w\<lparr>fw_pending := []\<rparr>,
               Enqueue now \<lparr>rr_rootPath = fw_root w, rr_patterns = [], rr_priority = PriorityNormal,
                 rr_forceFull = False, rr_reason = ''file watcher detected changes'',
                 rr_createdBy = ''watcher'', rr_createdAt = now\<rparr> q))"

definition ScanAndEnqueue ::
  "string + string list \<times> string list \<Rightarrow> FileWatcher \<Rightarrow> FileWatcher \<times> string option" where
  "ScanAndEnqueue changes w =
     (case changes of
        Inl e \<Rightarrow> (w, Some e)
      | Inr (changed, deleted) \<Rightarrow> (fold watcherTrigger (changed @ deleted) w, None))"

section \<open>Laws\<close>

lemma cleanStringSlice_ok:
  "x \<in> set (cleanStringSlice xs) \<longleftrightarrow> x \<noteq> '''' \<and> (\<exists>s \<in> set xs. x = TrimSpace (slashes s))"
  by (auto simp: cleanStringSlice_def)

lemma cleanStringSlice_idem [simp]: "cleanStringSlice (cleanStringSlice xs) = cleanStringSlice xs"
proof -
  have "map (\<lambda>s. TrimSpace (slashes s)) (cleanStringSlice xs) = cleanStringSlice xs"
    by (rule map_idI) (auto simp: cleanStringSlice_ok)
  moreover have "filter (\<lambda>s. s \<noteq> '''') (cleanStringSlice xs) = cleanStringSlice xs"
    by (rule filter_True) (auto simp: cleanStringSlice_ok)
  moreover have "distinct (cleanStringSlice xs)" by (simp add: cleanStringSlice_def)
  ultimately show ?thesis by (subst cleanStringSlice_def) simp
qed

definition kept :: "string list \<times> string \<times> string \<times> string \<Rightarrow> bool" where
  "kept = (\<lambda>(ups, p, n, c). isGoName n \<and> \<not> list_ex skippedDir ups)"

lemma files_below_ups: "f \<in> set (files_below ups path e) \<Longrightarrow> \<exists>new. fst f = new @ ups"
proof (induction ups path e rule: files_below.induct)
  case (1 ups path name es)
  then obtain e where "e \<in> set es"
    "f \<in> set (files_below (name # ups) (path @ ''/'' @ (case e of FDir n _ \<Rightarrow> n | FFile n _ \<Rightarrow> n)) e)"
    by auto
  with "1.IH" obtain new where "fst f = new @ name # ups" by blast
  then have "fst f = (new @ [name]) @ ups" by simp
  then show ?case by blast
qed simp

lemma skipped_ups: "list_ex skippedDir ups \<Longrightarrow> filter kept (files_below ups path e) = []"
  using files_below_ups by (fastforce simp: filter_empty_conv kept_def split_def)

lemma scanEntry_files:
  "\<not> list_ex skippedDir ups \<Longrightarrow>
     scanEntry sha path e = map (\<lambda>(a, p, n, c). (p, hashFile sha c)) (filter kept (files_below ups path e))"
proof (induction ups path e rule: files_below.induct)
  case (1 ups path name es)
  show ?case
  proof (cases "skippedDir name")
    case True
    then have "filter kept (files_below ups path (FDir name es)) = []"
      by (simp add: filter_concat o_def skipped_ups)
    with True show ?thesis by simp
  next
    case False
    with 1 have "scanEntry sha (path @ ''/'' @ (case e of FDir n _ \<Rightarrow> n | FFile n _ \<Rightarrow> n)) e
      = map (\<lambda>(a, p, n, c). (p, hashFile sha c)) (filter kept (files_below (name # ups)
          (path @ ''/'' @ (case e of FDir n _ \<Rightarrow> n | FFile n _ \<Rightarrow> n)) e))" if "e \<in> set es" for e
      using that by simp
    with False show ?thesis
      by (simp add: filter_concat map_concat o_def cong: map_cong)
  qed
qed (simp add: kept_def)

section \<open>Properties\<close>

text \<open>
  The scan of a tree lists exactly the Go files that have no skipped directory above them
  (the root included), each once with the hash of its content, in walking order.
\<close>

theorem scan_lists_go_files:
  "scanHashes sha256 dir root = map (\<lambda>(ups, path, name, content). (path, hashFile sha256 content))
     (filter (\<lambda>(ups, path, name, content). isGoName name \<and> \<not> list_ex skippedDir ups)
        (files_below [] dir root))"
  using scanEntry_files [of "[]" sha256 dir root] by (simp add: scanHashes_def kept_def)

definition tableFile :: "(string \<times> string) list \<Rightarrow> string \<Rightarrow> string + string" where
  "tableFile t path = (case map_of t path of None \<Rightarrow> Inl ''sql: no rows in result set'' | Some h \<Rightarrow> Inr h)"

lemma no_rows: "errorsIsNoRows ''sql: no rows in result set''"
  by code_simp

lemma changedPaths_table:
  "changedPaths (tableFile t) current = Inr (map fst (filter (\<lambda>(p, h). map_of t p \<noteq> Some h) current))"
  by (induction current) (auto simp: tableFile_def no_rows split: option.splits)

lemma sort_eq_Nil [simp]: "sort xs = [] \<longleftrightarrow> xs = []"
  by (metis length_0_conv length_sort)

text \<open>
  C15: against a store that answers from a table, the changes are the current paths whose stored
  hash is missing or different and the stored paths that are gone, each sorted; there are none
  exactly if the table holds the current hashes and nothing else.
\<close>

theorem detect_changes_spec:
  assumes "distinct (map fst current)" "distinct (map fst t)"
  shows "DetectChanges (tableFile t) (Inr (map fst t)) current =
      Inr (sort (map fst (filter (\<lambda>(p, h). map_of t p \<noteq> Some h) current)),
           sort (filter (\<lambda>p. p \<notin> fst ` set current) (map fst t)))
    \<and> (DetectChanges (tableFile t) (Inr (map fst t)) current = Inr ([], []) \<longleftrightarrow> map_of t = map_of current)"
proof -
  let ?ch = "map fst (filter (\<lambda>(p, h). map_of t p \<noteq> Some h) current)"
  let ?del = "filter (\<lambda>p. p \<notin> fst ` set current) (map fst t)"
  have eq: "DetectChanges (tableFile t) (Inr (map fst t)) current = Inr (sort ?ch, sort ?del)"
    by (simp add: DetectChanges_def changedPaths_table)
  have "?ch = [] \<and> ?del = [] \<longleftrightarrow> map_of t = map_of current"
  proof
    assume none: "?ch = [] \<and> ?del = []"
    show "map_of t = map_of current"
    proof
      fix p
      show "map_of t p = map_of current p"
      proof (cases "map_of current p")
        case None
        then have "p \<notin> fst ` set current" by (simp add: map_of_eq_None_iff)
        with none have "p \<notin> fst ` set t" by (auto simp: filter_empty_conv)
        then have "map_of t p = None" by (simp add: map_of_eq_None_iff)
        with None show ?thesis by simp
      next
        case (Some h)
        then have "(p, h) \<in> set current" by (rule map_of_SomeD)
        with none Some show ?thesis by (auto simp: filter_empty_conv)
      qed
    qed
  next
    assume eq: "map_of t = map_of current"
    have "map_of current p = Some h" if "(p, h) \<in> set current" for p h
      using that assms(1) by simp
    moreover have "fst ` set t = fst ` set current"
      using eq by (metis dom_map_of_conv_image_fst)
    ultimately show "?ch = [] \<and> ?del = []" by (auto simp: filter_empty_conv eq)
  qed
  with eq show ?thesis by simp
qed

theorem detect_changes_spec_witness:
  "DetectChanges (tableFile [(''a.go'', ''1''), (''b.go'', ''2'')]) (Inr [''a.go'', ''b.go''])
     [(''c.go'', ''3''), (''a.go'', ''9'')] = Inr ([''a.go'', ''c.go''], [''b.go''])"
  using detect_changes_spec [of "[(''c.go'', ''3''), (''a.go'', ''9'')]" "[(''a.go'', ''1''), (''b.go'', ''2'')]"]
  by simp

definition no_nul :: "(string \<times> string) list \<Rightarrow> bool" where
  "no_nul hs \<longleftrightarrow> (\<forall>(k, h) \<in> set hs. CHR 0x00 \<notin> set k \<and> CHR 0x00 \<notin> set h)"

lemma sorted_keys_map_of:
  assumes "map_of hs = map_of hs'" "distinct (map fst hs)" "distinct (map fst hs')"
  shows "sort (map fst hs) = sort (map fst hs')"
proof -
  have "set (map fst hs) = set (map fst hs')"
    using assms(1) by (metis dom_map_of_conv_image_fst list.set_map)
  then have "mset (map fst hs) = mset (map fst hs')"
    using assms(2,3) set_eq_iff_mset_eq_distinct by blast
  then show ?thesis by (metis mset_sort properties_for_sort sorted_sort)
qed

lemma zero_terminated_inj:
  "\<lbrakk>k @ CHR 0x00 # r = k' @ CHR 0x00 # r'; CHR 0x00 \<notin> set k; CHR 0x00 \<notin> set k'\<rbrakk> \<Longrightarrow> k = k' \<and> r = r'"
proof (induction k arbitrary: k')
  case Nil
  then show ?case by (cases k') auto
next
  case (Cons a k)
  then show ?case by (cases k') auto
qed

lemma aggregate_inj_aux:
  "\<lbrakk>concat (map (\<lambda>k. k @ [CHR 0x00] @ f k @ [CHR 0x00]) ks) = concat (map (\<lambda>k. k @ [CHR 0x00] @ g k @ [CHR 0x00]) ls);
    \<forall>k\<in>set ks. CHR 0x00 \<notin> set k \<and> CHR 0x00 \<notin> set (f k);
    \<forall>k\<in>set ls. CHR 0x00 \<notin> set k \<and> CHR 0x00 \<notin> set (g k)\<rbrakk>
   \<Longrightarrow> ks = ls \<and> (\<forall>k\<in>set ks. f k = g k)"
proof (induction ks arbitrary: ls)
  case Nil
  then show ?case by (cases ls) auto
next
  case (Cons k ks)
  then obtain l ls' where ls: "ls = l # ls'" by (cases ls) auto
  let ?r = "f k @ CHR 0x00 # concat (map (\<lambda>k. k @ [CHR 0x00] @ f k @ [CHR 0x00]) ks)"
  let ?r' = "g l @ CHR 0x00 # concat (map (\<lambda>k. k @ [CHR 0x00] @ g k @ [CHR 0x00]) ls')"
  have "k @ CHR 0x00 # ?r = l @ CHR 0x00 # ?r'"
    using Cons.prems(1) ls by simp
  with Cons.prems ls have 1: "k = l" "?r = ?r'"
    using zero_terminated_inj [of k ?r l ?r'] by auto
  with Cons.prems ls have "f k = g l"
    "concat (map (\<lambda>k. k @ [CHR 0x00] @ f k @ [CHR 0x00]) ks) = concat (map (\<lambda>k. k @ [CHR 0x00] @ g k @ [CHR 0x00]) ls')"
    using zero_terminated_inj [of "f k" _ "g l"] by (auto simp del: append.simps)
  with Cons.IH [of ls'] Cons.prems(2,3) ls 1 show ?case by auto
qed

lemma aggregateInput_map_of:
  "map_of hs = map_of hs' \<Longrightarrow> distinct (map fst hs) \<Longrightarrow> distinct (map fst hs') \<Longrightarrow>
     aggregateInput hs = aggregateInput hs'"
  unfolding aggregateInput_def using sorted_keys_map_of [of hs hs'] by simp

lemma aggregateInput_inj:
  assumes eq: "aggregateInput hs = aggregateInput hs'" and nn: "no_nul hs" "no_nul hs'"
  shows "map_of hs = map_of hs'"
proof -
  have nul: "CHR 0x00 \<notin> set k \<and> CHR 0x00 \<notin> set (the (map_of xs k))"
    if "k \<in> set (sort (map fst xs))" "no_nul xs" for k and xs :: "(string \<times> string) list"
  proof -
    from that obtain h where "map_of xs k = Some h"
      by (auto simp: map_of_eq_None_iff [symmetric] simp del: not_None_eq) (metis map_of_eq_None_iff fst_conv image_eqI option.exhaust)
    moreover then have "(k, h) \<in> set xs" by (rule map_of_SomeD)
    ultimately show ?thesis using that(2) by (auto simp: no_nul_def)
  qed
  have *: "sort (map fst hs) = sort (map fst hs') \<and>
     (\<forall>k\<in>set (sort (map fst hs)). the (map_of hs k) = the (map_of hs' k))"
    by (rule aggregate_inj_aux) (use eq nul nn in \<open>auto simp: aggregateInput_def\<close>)
  then have dom: "fst ` set hs = fst ` set hs'" by (metis list.set_map set_sort)
  show ?thesis
  proof
    fix k
    show "map_of hs k = map_of hs' k"
    proof (cases "k \<in> fst ` set hs")
      case True
      then have "map_of hs k \<noteq> None" "map_of hs' k \<noteq> None" using dom by (auto simp: map_of_eq_None_iff)
      moreover have "k \<in> set (sort (map fst hs))" using True by simp
      then have "the (map_of hs k) = the (map_of hs' k)" using * by blast
      ultimately show ?thesis by auto
    next
      case False
      with dom have "map_of hs k = None" "map_of hs' k = None" by (auto simp: map_of_eq_None_iff)
      then show ?thesis by simp
    qed
  qed
qed

text \<open>
  The digest of a set of file hashes does not depend on the order of the map, and sets that
  differ are digested from different bytes, as long as no path or hash contains a zero byte.
\<close>

theorem aggregate_identifies_files:
  assumes "distinct (map fst hs)" "distinct (map fst hs')" "no_nul hs" "no_nul hs'"
  shows "(map_of hs = map_of hs' \<longrightarrow> aggregateFileHashes sha256 hs = aggregateFileHashes sha256 hs')
     \<and> (map_of hs \<noteq> map_of hs' \<longrightarrow> aggregateInput hs \<noteq> aggregateInput hs')"
proof (intro conjI impI)
  assume eq: "map_of hs = map_of hs'"
  have "hs = [] \<longleftrightarrow> hs' = []" using eq by (metis map_of_eq_empty_iff)
  moreover have "aggregateInput hs = aggregateInput hs'"
    by (rule aggregateInput_map_of [OF eq assms(1,2)])
  ultimately show "aggregateFileHashes sha256 hs = aggregateFileHashes sha256 hs'"
    by (simp only: aggregateFileHashes_def)
next
  assume "map_of hs \<noteq> map_of hs'"
  then show "aggregateInput hs \<noteq> aggregateInput hs'"
    using aggregateInput_inj [OF _ assms(3,4)] by blast
qed

theorem aggregate_identifies_files_witness:
  "aggregateFileHashes (\<lambda>s. s) [(''b'', ''2''), (''a'', ''1'')] = aggregateFileHashes (\<lambda>s. s) [(''a'', ''1''), (''b'', ''2'')]"
proof -
  have "map_of [(''b'', ''2''), (''a'', ''1'')] = map_of [(''a'', ''1''), (''b'', ''2'')]"
    by (auto simp: fun_eq_iff)
  then show ?thesis
    using aggregate_identifies_files [of "[(''b'', ''2''), (''a'', ''1'')]" "[(''a'', ''1''), (''b'', ''2'')]"
        "\<lambda>s. s"] by (simp add: no_nul_def)
qed

definition watcherDrain :: "FileWatcher \<Rightarrow> FileWatcher" where
  "watcherDrain w = (watcherReceive ^^ length (fw_changes w)) w"

lemma fold_trigger:
  "fold watcherTrigger ps w = w\<lparr>fw_changes := fw_changes w @ take (changesCapacity - length (fw_changes w)) ps\<rparr>"
proof (induction ps arbitrary: w)
  case (Cons p ps)
  show ?case
  proof (cases "length (fw_changes w) < changesCapacity")
    case True
    then obtain k where "changesCapacity - length (fw_changes w) = Suc k"
      "changesCapacity - Suc (length (fw_changes w)) = k"
      by (metis Suc_diff_Suc)
    moreover have "watcherTrigger p w = w\<lparr>fw_changes := fw_changes w @ [p]\<rparr>"
      using True by (simp add: watcherTrigger_def)
    ultimately show ?thesis by (simp add: Cons)
  next
    case False
    then have "watcherTrigger p w = w" by (simp add: watcherTrigger_def)
    with False show ?thesis by (simp add: Cons)
  qed
qed simp

lemma drain_changes:
  "fw_changes w = ps \<Longrightarrow> (watcherReceive ^^ length ps) w =
     w\<lparr>fw_changes := [], fw_pending := fold (\<lambda>p s. if p \<noteq> '''' then List.insert p s else s) ps (fw_pending w)\<rparr>"
proof (induction ps arbitrary: w)
  case (Cons p ps)
  have "(watcherReceive ^^ length (p # ps)) w = (watcherReceive ^^ length ps) (watcherReceive w)"
    by (simp add: funpow_Suc_right del: funpow.simps)
  moreover have "watcherReceive w = w\<lparr>fw_changes := ps,
      fw_pending := (if p \<noteq> [] then List.insert p (fw_pending w) else fw_pending w)\<rparr>"
    using Cons.prems by (simp add: watcherReceive_def)
  ultimately show ?case using Cons.IH [of "watcherReceive w"] by simp
qed simp

lemma fold_insert_Nil:
  "fold (\<lambda>p s. if p \<noteq> '''' then List.insert p s else s) ps s = [] \<longleftrightarrow> s = [] \<and> (\<forall>p\<in>set ps. p = '''')"
  by (induction ps arbitrary: s) (auto simp: List.insert_def)

text \<open>
  However many changed and deleted paths a scan reports, also more than the channel holds,
  the next tick after the channel has been read enqueues one rebuild request if there was a
  change and none otherwise, and nothing is left pending.
\<close>

theorem watcher_debounces:
  assumes "fw_changes w = []" "fw_pending w = []" "'''' \<notin> set (changed @ deleted)"
    and "(w1, None) = ScanAndEnqueue (Inr (changed, deleted)) w"
    and "(w2, q2) = watcherTick now (watcherDrain w1, q)"
  shows "length (rq_pending q2) = length (rq_pending q) + (if changed @ deleted = [] then 0 else 1)
     \<and> fw_changes w2 = [] \<and> fw_pending w2 = []"
proof -
  define ps where "ps = take changesCapacity (changed @ deleted)"
  have w1: "w1 = w\<lparr>fw_changes := ps\<rparr>"
    using assms(1,4) by (simp add: ScanAndEnqueue_def fold_trigger ps_def del: fold_append take_append)
  then have d: "watcherDrain w1 = w\<lparr>fw_changes := [],
     fw_pending := fold (\<lambda>p s. if p \<noteq> [] then List.insert p s else s) ps []\<rparr>"
    using drain_changes [of w1 ps] assms(2) by (simp add: watcherDrain_def)
  have nonempty: "\<forall>p\<in>set ps. p \<noteq> []"
    using assms(3) by (metis in_set_takeD ps_def)
  have "ps = [] \<longleftrightarrow> changed @ deleted = []"
    by (simp add: ps_def changesCapacity_def del: take_append append_is_Nil_conv)
  moreover have "fold (\<lambda>p s. if p \<noteq> [] then List.insert p s else s) ps [] = [] \<longleftrightarrow> ps = []"
    using nonempty fold_insert_Nil [of ps "[]"] by (cases ps) auto
  ultimately show ?thesis
    using assms(5) d by (auto simp: watcherTick_def rq_pending_Enqueue Let_def split: if_splits)
qed

theorem watcher_debounces_witness:
  "length (rq_pending (snd (watcherTick 5 (watcherDrain
      (fst (ScanAndEnqueue (Inr ([''/w/a.go'', ''/w/b.go''], [''/w/c.go''])) (NewFileWatcher ''/w''))),
      NewRebuildQueue)))) = 1"
  using watcher_debounces [of "NewFileWatcher ''/w''" "[''/w/a.go'', ''/w/b.go'']" "[''/w/c.go'']"
      "fst (ScanAndEnqueue (Inr ([''/w/a.go'', ''/w/b.go''], [''/w/c.go''])) (NewFileWatcher ''/w''))"
      _ _ 5 NewRebuildQueue, OF _ _ _ _ prod.collapse]
  by (simp add: NewFileWatcher_def NewRebuildQueue_def ScanAndEnqueue_def)

end
