(* ===== verification/Config.thy ===== *)
theory Config
  imports Source_State Boundaries Halstead Patterns
begin

text \<open>
  Workspace configuration: \<^verbatim>\<open>analyzer/config.go\<close>, \<^verbatim>\<open>duration.go\<close>, \<^verbatim>\<open>workspace_layout.go\<close> and the
  user state of \<^verbatim>\<open>sync_state.go\<close>. The files, environment variables and parsers the code
  consults are fields of \<open>config_env\<close>; a duration is its number of nanoseconds; \<open>F\<close> holds the
  \<^verbatim>\<open>float64\<close> operations.
\<close>

section \<open>Data\<close>

type_synonym ConfigDuration = int

record ConfigSync =
  sy_Debounce :: ConfigDuration
  sy_CheckInterval :: ConfigDuration
  sy_AutoRebuild :: "bool option"

record ConfigEmbeddingEndpoint =
  ee_Endpoint :: string
  ee_Model :: string
  ee_Timeout :: ConfigDuration

record ConfigEmbeddingAPI =
  ea_BaseURL :: string
  ea_Model :: string
  ea_APIKeyEnv :: string
  ea_Timeout :: ConfigDuration

record ConfigEmbeddings =
  em_Provider :: string
  em_Local :: ConfigEmbeddingEndpoint
  em_API :: ConfigEmbeddingAPI
  em_BatchSize :: int
  em_ChunkSize :: int
  em_Dimension :: int

record ConfigORM =
  or_DefaultFramework :: string
  or_MigrationDirs :: "string list"
  or_TableInference :: string

record ConfigWorkspace =
  cw_Mode :: string
  cw_File :: string

record ConfigSources =
  so_Include :: "string list"
  so_Exclude :: "string list"

record ConfigModule =
  md_Name :: string
  md_Root :: string
  md_ModulePath :: string
  md_PackagePatterns :: "string list"

record ConfigOutput =
  ou_Limit :: int
  ou_Offset :: int
  ou_MaxItems :: int
  ou_ChunkSize :: int
  ou_Summary :: bool

record 'f ConfigComplexity =
  kx_MinCyclomatic :: int
  kx_MinCognitive :: int
  kx_MinHalsteadVolume :: 'f
  kx_MaxMaintainabilityIndex :: 'f
  kx_SortBy :: string
  kx_IncludePackages :: bool

record ConfigLifecycle =
  lc_DedupeMode :: string
  lc_MaxHops :: int
  lc_Summary :: bool

record 'f WorkspaceConfig =
  wc_Version :: int
  wc_Workspace :: ConfigWorkspace
  wc_Modules :: "ConfigModule list"
  wc_PackagePatterns :: "string list"
  wc_Sources :: ConfigSources
  wc_CacheCapacity :: int
  wc_Output :: ConfigOutput
  wc_Boundaries :: "BoundaryRule list"
  wc_Complexity :: "'f ConfigComplexity"
  wc_Lifecycle :: ConfigLifecycle
  wc_ORM :: ConfigORM
  wc_Sync :: ConfigSync
  wc_Embeddings :: ConfigEmbeddings

text \<open>The zero value of the struct, from which the literals of the code start.\<close>

definition noWorkspaceConfig :: "'f float_ops \<Rightarrow> 'f WorkspaceConfig" where
  "noWorkspaceConfig F =
     \<lparr>wc_Version = 0, wc_Workspace = \<lparr>cw_Mode = '''', cw_File = ''''\<rparr>, wc_Modules = [], wc_PackagePatterns = [],
      wc_Sources = \<lparr>so_Include = [], so_Exclude = []\<rparr>, wc_CacheCapacity = 0,
      wc_Output = \<lparr>ou_Limit = 0, ou_Offset = 0, ou_MaxItems = 0, ou_ChunkSize = 0, ou_Summary = False\<rparr>,
      wc_Boundaries = [],
      wc_Complexity = \<lparr>kx_MinCyclomatic = 0, kx_MinCognitive = 0, kx_MinHalsteadVolume = fl_ofInt F 0,
        kx_MaxMaintainabilityIndex = fl_ofInt F 0, kx_SortBy = '''', kx_IncludePackages = False\<rparr>,
      wc_Lifecycle = \<lparr>lc_DedupeMode = '''', lc_MaxHops = 0, lc_Summary = False\<rparr>,
      wc_ORM = \<lparr>or_DefaultFramework = '''', or_MigrationDirs = [], or_TableInference = ''''\<rparr>,
      wc_Sync = \<lparr>sy_Debounce = 0, sy_CheckInterval = 0, sy_AutoRebuild = None\<rparr>,
      wc_Embeddings = \<lparr>em_Provider = '''', em_Local = \<lparr>ee_Endpoint = '''', ee_Model = '''', ee_Timeout = 0\<rparr>,
        em_API = \<lparr>ea_BaseURL = '''', ea_Model = '''', ea_APIKeyEnv = '''', ea_Timeout = 0\<rparr>,
        em_BatchSize = 0, em_ChunkSize = 0, em_Dimension = 0\<rparr>\<rparr>"

section \<open>Merging\<close>

text \<open>
  The overlay's value where it is set, the base's where it is not. The functions below follow
  the code field by field; a number is set if it is positive, a text if it is not blank, a list
  if it is not empty.
\<close>

definition overInt :: "int \<Rightarrow> int \<Rightarrow> int" where
  "overInt base overlay = (if overlay > 0 then overlay else base)"

definition overText :: "string \<Rightarrow> string \<Rightarrow> string" where
  "overText base overlay = (if TrimSpace overlay \<noteq> '''' then TrimSpace overlay else base)"

definition overList :: "'a list \<Rightarrow> 'a list \<Rightarrow> 'a list" where
  "overList base overlay = (if length overlay > 0 then overlay else base)"

definition overFloat :: "'f float_ops \<Rightarrow> 'f \<Rightarrow> 'f \<Rightarrow> 'f" where
  "overFloat F base overlay = (if fl_less F (fl_ofInt F 0) overlay then overlay else base)"

definition mergeConfigORM :: "ConfigORM \<Rightarrow> ConfigORM \<Rightarrow> ConfigORM" where
  "mergeConfigORM b v =
     \<lparr>or_DefaultFramework = overText (or_DefaultFramework b) (or_DefaultFramework v),
      or_MigrationDirs = overList (or_MigrationDirs b) (or_MigrationDirs v),
      or_TableInference = overText (or_TableInference b) (or_TableInference v)\<rparr>"

definition mergeConfigSync :: "ConfigSync \<Rightarrow> ConfigSync \<Rightarrow> ConfigSync" where
  "mergeConfigSync b v =
     \<lparr>sy_Debounce = overInt (sy_Debounce b) (sy_Debounce v),
      sy_CheckInterval = overInt (sy_CheckInterval b) (sy_CheckInterval v),
      sy_AutoRebuild = (if sy_AutoRebuild v \<noteq> None then sy_AutoRebuild v else sy_AutoRebuild b)\<rparr>"

definition mergeConfigEmbeddings :: "ConfigEmbeddings \<Rightarrow> ConfigEmbeddings \<Rightarrow> ConfigEmbeddings" where
  "mergeConfigEmbeddings b v =
     \<lparr>em_Provider = overText (em_Provider b) (em_Provider v),
      em_Local =
        \<lparr>ee_Endpoint = overText (ee_Endpoint (em_Local b)) (ee_Endpoint (em_Local v)),
         ee_Model = overText (ee_Model (em_Local b)) (ee_Model (em_Local v)),
         ee_Timeout = overInt (ee_Timeout (em_Local b)) (ee_Timeout (em_Local v))\<rparr>,
      em_API =
        \<lparr>ea_BaseURL = overText (ea_BaseURL (em_API b)) (ea_BaseURL (em_API v)),
         ea_Model = overText (ea_Model (em_API b)) (ea_Model (em_API v)),
         ea_APIKeyEnv = overText (ea_APIKeyEnv (em_API b)) (ea_APIKeyEnv (em_API v)),
         ea_Timeout = overInt (ea_Timeout (em_API b)) (ea_Timeout (em_API v))\<rparr>,
      em_BatchSize = overInt (em_BatchSize b) (em_BatchSize v),
      em_ChunkSize = overInt (em_ChunkSize b) (em_ChunkSize v),
      em_Dimension = overInt (em_Dimension b) (em_Dimension v)\<rparr>"

definition mergeConfigSources :: "ConfigSources \<Rightarrow> ConfigSources \<Rightarrow> ConfigSources" where
  "mergeConfigSources b v =
     \<lparr>so_Include = overList (so_Include b) (so_Include v), so_Exclude = overList (so_Exclude b) (so_Exclude v)\<rparr>"

definition mergeConfigOutput :: "ConfigOutput \<Rightarrow> ConfigOutput \<Rightarrow> ConfigOutput" where
  "mergeConfigOutput b v =
     \<lparr>ou_Limit = overInt (ou_Limit b) (ou_Limit v), ou_Offset = overInt (ou_Offset b) (ou_Offset v),
      ou_MaxItems = overInt (ou_MaxItems b) (ou_MaxItems v), ou_ChunkSize = overInt (ou_ChunkSize b) (ou_ChunkSize v),
      ou_Summary = (if ou_Summary v then True else ou_Summary b)\<rparr>"

definition mergeConfigComplexity ::
  "'f float_ops \<Rightarrow> 'f ConfigComplexity \<Rightarrow> 'f ConfigComplexity \<Rightarrow> 'f ConfigComplexity" where
  "mergeConfigComplexity F b v =
     \<lparr>kx_MinCyclomatic = overInt (kx_MinCyclomatic b) (kx_MinCyclomatic v),
      kx_MinCognitive = overInt (kx_MinCognitive b) (kx_MinCognitive v),
      kx_MinHalsteadVolume = overFloat F (kx_MinHalsteadVolume b) (kx_MinHalsteadVolume v),
      kx_MaxMaintainabilityIndex = overFloat F (kx_MaxMaintainabilityIndex b) (kx_MaxMaintainabilityIndex v),
      kx_SortBy = overText (kx_SortBy b) (kx_SortBy v),
      kx_IncludePackages = (if kx_IncludePackages v then True else kx_IncludePackages b)\<rparr>"

definition mergeConfigLifecycle :: "ConfigLifecycle \<Rightarrow> ConfigLifecycle \<Rightarrow> ConfigLifecycle" where
  "mergeConfigLifecycle b v =
     \<lparr>lc_DedupeMode = overText (lc_DedupeMode b) (lc_DedupeMode v),
      lc_MaxHops = overInt (lc_MaxHops b) (lc_MaxHops v),
      lc_Summary = (if lc_Summary v then True else lc_Summary b)\<rparr>"

section \<open>Modules and patterns\<close>

definition cleanModuleRoot :: "string \<Rightarrow> string" where
  "cleanModuleRoot root =
     (let root = TrimSpace (slashes root)
      in if root = '''' \<or> root = ''.'' \<or> root = ''./'' then ''.''
         else let root = TrimSuffix root ''/''
              in if IsAbs root then Clean root else ''./'' @ TrimPrefix root ''./'')"

definition joinModulePattern :: "string \<Rightarrow> string \<Rightarrow> string" where
  "joinModulePattern root pattern =
     (let root = cleanModuleRoot root; pattern = TrimSpace (slashes pattern)
      in if root = ''.'' \<or> root = ''./'' \<or> root = '''' then (if pattern = '''' then ''./...'' else pattern)
         else let root = TrimPrefix root ''./''
              in if pattern = '''' \<or> pattern = ''./...'' then ''./'' @ root @ ''/...''
                 else ''./'' @ TrimSuffix root ''/'' @ ''/'' @ TrimPrefix pattern ''./'')"

definition modulePackagePatterns :: "ConfigModule list \<Rightarrow> string list" where
  "modulePackagePatterns modules =
     cleanStringSlice (concat (map (\<lambda>m.
       map (joinModulePattern (cleanModuleRoot (md_Root m)))
         (if length (md_PackagePatterns m) = 0 then [''./...''] else md_PackagePatterns m)) modules))"

definition configModuleName :: "string \<Rightarrow> string \<Rightarrow> string" where
  "configModuleName root modulePath =
     (let parts = Split CHR ''/'' (Trim modulePath ''/'')
      in if modulePath \<noteq> '''' \<and> last parts \<noteq> '''' then last parts
         else let root = TrimPrefix (cleanModuleRoot root) ''./''
              in if root = ''.'' \<or> root = '''' then ''root'' else Base root)"

definition normalizeModule :: "ConfigModule \<Rightarrow> ConfigModule" where
  "normalizeModule m =
     (let root = cleanModuleRoot (md_Root m); patterns = cleanStringSlice (md_PackagePatterns m)
      in \<lparr>md_Name = (if TrimSpace (md_Name m) = '''' then configModuleName root (md_ModulePath m) else md_Name m),
          md_Root = root, md_ModulePath = md_ModulePath m,
          md_PackagePatterns = (if length patterns = 0 then [''./...''] else patterns)\<rparr>)"

text \<open>Seconds and milliseconds in nanoseconds.\<close>

definition Millisecond :: int where "Millisecond = 1000000"
definition Second :: int where "Second = 1000 * Millisecond"

definition orElse :: "int \<Rightarrow> int \<Rightarrow> int" where
  "orElse x default_value = (if x \<le> 0 then default_value else x)"

definition normalizeSync :: "ConfigSync \<Rightarrow> ConfigSync" where
  "normalizeSync s =
     s\<lparr>sy_Debounce := orElse (sy_Debounce s) (2500 * Millisecond),
       sy_CheckInterval := orElse (sy_CheckInterval s) (5 * 60 * Second)\<rparr>"

definition normalizeEmbeddings :: "ConfigEmbeddings \<Rightarrow> ConfigEmbeddings" where
  "normalizeEmbeddings e =
     (let provider = ToLower (TrimSpace (em_Provider e)); loc = em_Local e; api = em_API e
      in \<lparr>em_Provider = (if provider = '''' then ''local'' else provider),
          em_Local = loc\<lparr>ee_Timeout := orElse (ee_Timeout loc) (30 * Second)\<rparr>,
          em_API = api\<lparr>ea_Timeout := orElse (ea_Timeout api) (30 * Second),
                       ea_APIKeyEnv := (if TrimSpace (ea_APIKeyEnv api) = '''' then ''OPENAI_API_KEY'' else ea_APIKeyEnv api)\<rparr>,
          em_BatchSize = orElse (em_BatchSize e) 50, em_ChunkSize = orElse (em_ChunkSize e) 500,
          em_Dimension = orElse (em_Dimension e) 16\<rparr>)"

definition normalizeWorkspaceConfig :: "'f WorkspaceConfig \<Rightarrow> 'f WorkspaceConfig" where
  "normalizeWorkspaceConfig c =
     (let patterns = cleanStringSlice (wc_PackagePatterns c); modules = map normalizeModule (wc_Modules c);
          patterns = (if length patterns = 0 \<and> length modules > 0 then modulePackagePatterns modules else patterns);
          patterns = (if length patterns = 0 then [''./...''] else patterns)
      in c\<lparr>wc_Version := (if wc_Version c = 0 then 1 else wc_Version c), wc_PackagePatterns := patterns,
           wc_Sources := \<lparr>so_Include = cleanStringSlice (so_Include (wc_Sources c)),
                          so_Exclude = cleanStringSlice (so_Exclude (wc_Sources c))\<rparr>,
           wc_Modules := modules, wc_Sync := normalizeSync (wc_Sync c),
           wc_Embeddings := normalizeEmbeddings (wc_Embeddings c)\<rparr>)"

definition mergeWorkspaceConfig :: "'f float_ops \<Rightarrow> 'f WorkspaceConfig \<Rightarrow> 'f WorkspaceConfig \<Rightarrow> 'f WorkspaceConfig" where
  "mergeWorkspaceConfig F b v =
     normalizeWorkspaceConfig
       \<lparr>wc_Version = overInt (wc_Version b) (wc_Version v),
        wc_Workspace = (if cw_Mode (wc_Workspace v) \<noteq> '''' \<or> cw_File (wc_Workspace v) \<noteq> ''''
                        then wc_Workspace v else wc_Workspace b),
        wc_Modules = overList (wc_Modules b) (wc_Modules v),
        wc_PackagePatterns = overList (wc_PackagePatterns b) (wc_PackagePatterns v),
        wc_Sources = mergeConfigSources (wc_Sources b) (wc_Sources v),
        wc_CacheCapacity = overInt (wc_CacheCapacity b) (wc_CacheCapacity v),
        wc_Output = mergeConfigOutput (wc_Output b) (wc_Output v),
        wc_Boundaries = overList (wc_Boundaries b) (wc_Boundaries v),
        wc_Complexity = mergeConfigComplexity F (wc_Complexity b) (wc_Complexity v),
        wc_Lifecycle = mergeConfigLifecycle (wc_Lifecycle b) (wc_Lifecycle v),
        wc_ORM = mergeConfigORM (wc_ORM b) (wc_ORM v), wc_Sync = mergeConfigSync (wc_Sync b) (wc_Sync v),
        wc_Embeddings = mergeConfigEmbeddings (wc_Embeddings b) (wc_Embeddings v)\<rparr>"

definition ConfigPackagePatterns :: "'f WorkspaceConfig \<Rightarrow> string list" where
  "ConfigPackagePatterns c = wc_PackagePatterns (normalizeWorkspaceConfig c)"

section \<open>Reading configuration\<close>

datatype read_error = NotExist | ReadFailed string

fun readErrText :: "read_error \<Rightarrow> string" where
  "readErrText NotExist = ''file does not exist''"
| "readErrText (ReadFailed e) = e"

record UserWorkspaceState =
  us_Version :: int
  us_Dismissed :: bool
  us_UpdatedAt :: int

record 'f config_env =
  ev_ReadFile :: "string \<Rightarrow> read_error + string"
  ev_exists :: "string \<Rightarrow> bool"                              \<comment> \<open>\<^verbatim>\<open>os.Stat\<close> succeeds\<close>
  ev_LookupEnv :: "string \<Rightarrow> string option"
  ev_UserConfigDir :: "string option"
  ev_yaml :: "string \<Rightarrow> string + 'f WorkspaceConfig"             \<comment> \<open>\<^verbatim>\<open>yaml.Unmarshal\<close>\<close>
  ev_yaml_text :: "'f WorkspaceConfig \<Rightarrow> string + string"        \<comment> \<open>\<^verbatim>\<open>yaml.Marshal\<close>\<close>
  ev_json_state :: "string \<Rightarrow> string + UserWorkspaceState"
  ev_ParseWork :: "string \<Rightarrow> string + string list"              \<comment> \<open>paths of the use directives\<close>
  ev_ParseMod :: "string \<Rightarrow> string + string option"              \<comment> \<open>path of the module directive\<close>
  ev_open_error :: "string \<Rightarrow> string option"                    \<comment> \<open>other than the file existing\<close>
  ev_write_error :: "string \<Rightarrow> string option"

record WorkspaceLayout =
  wl_Root :: string
  wl_GAXPath :: string
  wl_DBPath :: string
  wl_ConfigPath :: string
  wl_StatePath :: string

definition WorkspaceLayoutFor :: "string \<Rightarrow> WorkspaceLayout" where
  "WorkspaceLayoutFor root =
     (let root = Clean root; gax = JoinPath [root, ''.gax'']
      in \<lparr>wl_Root = root, wl_GAXPath = gax, wl_DBPath = JoinPath [gax, ''cache.db''],
          wl_ConfigPath = JoinPath [gax, ''config.yml''], wl_StatePath = JoinPath [gax, ''state.json'']\<rparr>)"

definition WorkspaceConfigFile :: string where "WorkspaceConfigFile = ''.go-arch-xray.yml''"
definition userConfigEnv :: string where "userConfigEnv = ''GO_ARCH_XRAY_USER_CONFIG''"

definition RepoWorkspaceConfigPath :: "string \<Rightarrow> string" where
  "RepoWorkspaceConfigPath root = JoinPath [Clean root, WorkspaceConfigFile]"

definition ProjectWorkspaceConfigPath :: "string \<Rightarrow> string" where
  "ProjectWorkspaceConfigPath root = JoinPath [wl_GAXPath (WorkspaceLayoutFor root), ''config.yml'']"

definition switchedOff :: "string \<Rightarrow> bool" where
  "switchedOff override \<longleftrightarrow> override = '''' \<or> EqualFold override ''off'' \<or> EqualFold override ''none''"

definition UserWorkspaceConfigPath :: "'f config_env \<Rightarrow> string" where
  "UserWorkspaceConfigPath env =
     (case ev_LookupEnv env userConfigEnv of
        Some override \<Rightarrow> (let override = TrimSpace override in if switchedOff override then '''' else override)
      | None \<Rightarrow>
          (case ev_UserConfigDir env of
             None \<Rightarrow> ''''
           | Some dir \<Rightarrow> if dir = '''' then '''' else JoinPath [dir, ''go-arch-xray'', ''config.yml'']))"

definition userWorkspaceBaseDir :: "'f config_env \<Rightarrow> string" where
  "userWorkspaceBaseDir env =
     (let fallback = (case ev_UserConfigDir env of
             None \<Rightarrow> '''' | Some dir \<Rightarrow> if dir = '''' then '''' else JoinPath [dir, ''go-arch-xray''])
      in case ev_LookupEnv env userConfigEnv of
           None \<Rightarrow> fallback
         | Some override \<Rightarrow> (let override = TrimSpace override in if \<not> switchedOff override then Dir override else fallback))"

definition UserWorkspaceStatePath :: "'f config_env \<Rightarrow> string" where
  "UserWorkspaceStatePath env =
     (let base = userWorkspaceBaseDir env in if base = '''' then '''' else JoinPath [base, ''state.json''])"

definition freshState :: UserWorkspaceState where
  "freshState = \<lparr>us_Version = 1, us_Dismissed = False, us_UpdatedAt = 0\<rparr>"

definition LoadUserWorkspaceStateFromPath :: "'f config_env \<Rightarrow> string \<Rightarrow> string + UserWorkspaceState" where
  "LoadUserWorkspaceStateFromPath env path =
     (if path = '''' then Inr freshState
      else (case ev_ReadFile env path of
              Inl NotExist \<Rightarrow> Inr freshState
            | Inl (ReadFailed e) \<Rightarrow> Inl (''read user workspace state: '' @ e)
            | Inr data \<Rightarrow>
                (case ev_json_state env data of
                   Inl e \<Rightarrow> Inl (''parse user workspace state: '' @ e)
                 | Inr st \<Rightarrow> Inr (if us_Version st = 0 then st\<lparr>us_Version := 1\<rparr> else st))))"

definition LoadUserWorkspaceState :: "'f config_env \<Rightarrow> string + UserWorkspaceState" where
  "LoadUserWorkspaceState env =
     (let path = UserWorkspaceStatePath env
      in if path = '''' then Inr freshState else LoadUserWorkspaceStateFromPath env path)"

definition readGoModulePath :: "'f config_env \<Rightarrow> string \<Rightarrow> string + string" where
  "readGoModulePath env goModPath =
     (case ev_ReadFile env goModPath of
        Inl e \<Rightarrow> Inl (''read go.mod '' @ goModPath @ '': '' @ readErrText e)
      | Inr data \<Rightarrow>
          (case ev_ParseMod env data of
             Inl e \<Rightarrow> Inl (''parse go.mod '' @ goModPath @ '': '' @ e)
           | Inr None \<Rightarrow> Inl (''go.mod '' @ goModPath @ '' has no module directive'')
           | Inr (Some path) \<Rightarrow> Inr path))"

text \<open>The module of a use directive, and the loop over the directives up to the first error.\<close>

definition useModule :: "'f config_env \<Rightarrow> string \<Rightarrow> string \<Rightarrow> string + ConfigModule" where
  "useModule env root use =
     (let moduleRoot = cleanModuleRoot use;
          moduleAbs = (if moduleRoot = ''.'' then root else JoinPath [root, TrimPrefix moduleRoot ''./''])
      in case readGoModulePath env (JoinPath [moduleAbs, ''go.mod'']) of
           Inl e \<Rightarrow> Inl e
         | Inr modulePath \<Rightarrow> Inr \<lparr>md_Name = configModuleName moduleRoot modulePath, md_Root = moduleRoot,
             md_ModulePath = modulePath, md_PackagePatterns = [''./...'']\<rparr>)"

fun useModules :: "'f config_env \<Rightarrow> string \<Rightarrow> string list \<Rightarrow> string + ConfigModule list" where
  "useModules env root [] = Inr []"
| "useModules env root (use # uses) =
     (case useModule env root use of
        Inl e \<Rightarrow> Inl e
      | Inr m \<Rightarrow> (case useModules env root uses of Inl e \<Rightarrow> Inl e | Inr ms \<Rightarrow> Inr (m # ms)))"

definition suggestGoWorkConfig :: "'f float_ops \<Rightarrow> 'f config_env \<Rightarrow> string \<Rightarrow> string + 'f WorkspaceConfig" where
  "suggestGoWorkConfig F env root =
     (case ev_ReadFile env (JoinPath [root, ''go.work'']) of
        Inl e \<Rightarrow> Inl (''read go.work: '' @ readErrText e)
      | Inr data \<Rightarrow>
          (case ev_ParseWork env data of
             Inl e \<Rightarrow> Inl (''parse go.work: '' @ e)
           | Inr uses \<Rightarrow>
               (case useModules env root uses of
                  Inl e \<Rightarrow> Inl e
                | Inr modules \<Rightarrow> Inr (normalizeWorkspaceConfig ((noWorkspaceConfig F)\<lparr>wc_Version := 1,
                    wc_Workspace := \<lparr>cw_Mode = ''go_work'', cw_File = ''go.work''\<rparr>, wc_Modules := modules,
                    wc_PackagePatterns := modulePackagePatterns modules\<rparr>)))))"

definition SuggestWorkspaceConfig :: "'f float_ops \<Rightarrow> 'f config_env \<Rightarrow> string \<Rightarrow> string + 'f WorkspaceConfig" where
  "SuggestWorkspaceConfig F env root =
     (let root = Clean root; config = (noWorkspaceConfig F)\<lparr>wc_Version := 1, wc_PackagePatterns := [''./...'']\<rparr>
      in if pathExists (ev_exists env) (JoinPath [root, ''go.work'']) then suggestGoWorkConfig F env root
         else if pathExists (ev_exists env) (JoinPath [root, ''go.mod'']) then
           (case readGoModulePath env (JoinPath [root, ''go.mod'']) of
              Inl e \<Rightarrow> Inl e
            | Inr modulePath \<Rightarrow> Inr (normalizeWorkspaceConfig (config\<lparr>
                wc_Workspace := \<lparr>cw_Mode = ''go_mod'', cw_File = ''go.mod''\<rparr>,
                wc_Modules := [\<lparr>md_Name = configModuleName ''.'' modulePath, md_Root = ''.'',
                  md_ModulePath = modulePath, md_PackagePatterns = [''./...'']\<rparr>]\<rparr>)))
         else Inr (normalizeWorkspaceConfig (config\<lparr>wc_Workspace := \<lparr>cw_Mode = ''auto'', cw_File = ''''\<rparr>\<rparr>)))"

text \<open>\<^verbatim>\<open>(WorkspaceConfig, bool, error)\<close>: a missing file is the zero value and \<^verbatim>\<open>false\<close>.\<close>

definition loadOptionalWorkspaceConfigWithRaw ::
  "'f float_ops \<Rightarrow> 'f config_env \<Rightarrow> string \<Rightarrow> string + 'f WorkspaceConfig \<times> bool" where
  "loadOptionalWorkspaceConfigWithRaw F env path =
     (if path = '''' then Inr (noWorkspaceConfig F, False)
      else (case ev_ReadFile env path of
              Inl NotExist \<Rightarrow> Inr (noWorkspaceConfig F, False)
            | Inl (ReadFailed e) \<Rightarrow> Inl (''read workspace config '' @ path @ '': '' @ e)
            | Inr data \<Rightarrow>
                (case ev_yaml env data of
                   Inl e \<Rightarrow> Inl (''parse workspace config '' @ path @ '': '' @ e)
                 | Inr config \<Rightarrow> Inr (config, True))))"

definition hasExplicitEmbeddingsConfig :: "'f WorkspaceConfig \<Rightarrow> bool" where
  "hasExplicitEmbeddingsConfig c =
     (let e = wc_Embeddings c
      in TrimSpace (em_Provider e) \<noteq> ''''
       \<or> TrimSpace (ee_Endpoint (em_Local e)) \<noteq> '''' \<or> TrimSpace (ee_Model (em_Local e)) \<noteq> '''' \<or> ee_Timeout (em_Local e) > 0
       \<or> TrimSpace (ea_BaseURL (em_API e)) \<noteq> '''' \<or> TrimSpace (ea_Model (em_API e)) \<noteq> ''''
       \<or> TrimSpace (ea_APIKeyEnv (em_API e)) \<noteq> '''' \<or> ea_Timeout (em_API e) > 0
       \<or> em_BatchSize e > 0 \<or> em_ChunkSize e > 0 \<or> em_Dimension e > 0)"

record workspaceConfigResolution =
  wr_UserExists :: bool
  wr_RepoExists :: bool
  wr_ProjectExists :: bool
  wr_EmbeddingsConfigured :: bool

definition effectiveWorkspaceConfigWithSources ::
  "'f float_ops \<Rightarrow> 'f config_env \<Rightarrow> string \<Rightarrow> 'f WorkspaceConfig \<Rightarrow>
   string + 'f WorkspaceConfig \<times> workspaceConfigResolution" where
  "effectiveWorkspaceConfigWithSources F env root suggested =
     (case loadOptionalWorkspaceConfigWithRaw F env (UserWorkspaceConfigPath env) of
        Inl e \<Rightarrow> Inl e
      | Inr (userConfig, userExists) \<Rightarrow>
     (let effective = (if userExists then mergeWorkspaceConfig F suggested userConfig else suggested)
      in case loadOptionalWorkspaceConfigWithRaw F env (RepoWorkspaceConfigPath root) of
        Inl e \<Rightarrow> Inl e
      | Inr (repoConfig, repoExists) \<Rightarrow>
     (let effective = (if repoExists then mergeWorkspaceConfig F effective repoConfig else effective)
      in case loadOptionalWorkspaceConfigWithRaw F env (ProjectWorkspaceConfigPath root) of
        Inl e \<Rightarrow> Inl e
      | Inr (projectConfig, projectExists) \<Rightarrow>
     (let effective = (if projectExists then mergeWorkspaceConfig F effective projectConfig else effective)
      in Inr (normalizeWorkspaceConfig effective,
           \<lparr>wr_UserExists = userExists, wr_RepoExists = repoExists, wr_ProjectExists = projectExists,
            wr_EmbeddingsConfigured = hasExplicitEmbeddingsConfig userConfig \<or> hasExplicitEmbeddingsConfig repoConfig
              \<or> hasExplicitEmbeddingsConfig projectConfig\<rparr>)))))"

definition EffectiveWorkspaceConfig :: "'f float_ops \<Rightarrow> 'f config_env \<Rightarrow> string \<Rightarrow> string + 'f WorkspaceConfig" where
  "EffectiveWorkspaceConfig F env root =
     (case SuggestWorkspaceConfig F env root of
        Inl e \<Rightarrow> Inl e
      | Inr suggested \<Rightarrow>
          (case effectiveWorkspaceConfigWithSources F env root suggested of
             Inl e \<Rightarrow> Inl e | Inr (effective, _) \<Rightarrow> Inr effective))"

section \<open>Writing configuration\<close>

definition MarshalWorkspaceConfig :: "'f config_env \<Rightarrow> 'f WorkspaceConfig \<Rightarrow> string + string" where
  "MarshalWorkspaceConfig env config =
     (case ev_yaml_text env (normalizeWorkspaceConfig config) of
        Inl e \<Rightarrow> Inl (''marshal workspace config: '' @ e) | Inr data \<Rightarrow> Inr data)"

record 'f WorkspaceConfigInitResult =
  ir_RootPath :: string
  ir_ConfigPath :: string
  ir_Created :: bool
  ir_Overwritten :: bool
  ir_Config :: "'f WorkspaceConfig"
  ir_YAML :: string
  ir_Notes :: "string list"

text \<open>
  The second component is what happened to the file: \<open>None\<close> if it was not touched, otherwise its
  content. The file is opened to be created, exclusively unless it may be overwritten.
\<close>

definition InitWorkspaceConfig ::
  "'f float_ops \<Rightarrow> 'f config_env \<Rightarrow> string \<Rightarrow> bool \<Rightarrow> (string + 'f WorkspaceConfigInitResult) \<times> string option" where
  "InitWorkspaceConfig F env root overwrite =
     (let root = Clean root
      in case SuggestWorkspaceConfig F env root of
           Inl e \<Rightarrow> (Inl e, None)
         | Inr config \<Rightarrow>
             (case MarshalWorkspaceConfig env config of
                Inl e \<Rightarrow> (Inl e, None)
              | Inr yamlText \<Rightarrow>
                  (let path = RepoWorkspaceConfigPath root; existed = pathExists (ev_exists env) path
                   in if \<not> overwrite \<and> existed
                      then (Inl (''workspace config already exists at '' @ path @ ''; pass overwrite=true to replace it''), None)
                      else case ev_open_error env path of
                             Some e \<Rightarrow> (Inl (''create workspace config: '' @ e), None)
                           | None \<Rightarrow>
                               (case ev_write_error env path of
                                  Some e \<Rightarrow> (Inl (''write workspace config: '' @ e), Some '''')
                                | None \<Rightarrow> (Inr \<lparr>ir_RootPath = root, ir_ConfigPath = path, ir_Created = \<not> existed,
                                    ir_Overwritten = (existed \<and> overwrite), ir_Config = config, ir_YAML = yamlText,
                                    ir_Notes = [''repo config is shared team policy; explicit tool inputs still override these defaults'']\<rparr>,
                                    Some yamlText)))))"

definition SaveUserWorkspaceStateToPath ::
  "'f config_env \<Rightarrow> (string \<Rightarrow> string option) \<Rightarrow> (UserWorkspaceState \<Rightarrow> string + string) \<Rightarrow> string \<Rightarrow>
   UserWorkspaceState option \<Rightarrow> (string + UserWorkspaceState) \<times> string option" where
  "SaveUserWorkspaceStateToPath env mkdir_error marshal path st =
     (if path = '''' then (Inl ''user workspace state path is not configured'', None)
      else case st of
        None \<Rightarrow> (Inl ''user workspace state is nil'', None)
      | Some st \<Rightarrow>
          (let st = (if us_Version st = 0 then st\<lparr>us_Version := 1\<rparr> else st)
           in case mkdir_error (Dir path) of
                Some e \<Rightarrow> (Inl (''create user workspace state dir: '' @ e), None)
              | None \<Rightarrow>
                  (case marshal st of
                     Inl e \<Rightarrow> (Inl (''marshal user workspace state: '' @ e), None)
                   | Inr data \<Rightarrow>
                       (case ev_write_error env path of
                          Some e \<Rightarrow> (Inl (''write user workspace state: '' @ e), Some '''')
                        | None \<Rightarrow> (Inr st, Some data)))))"

definition SaveUserWorkspaceState ::
  "'f config_env \<Rightarrow> (string \<Rightarrow> string option) \<Rightarrow> (UserWorkspaceState \<Rightarrow> string + string) \<Rightarrow>
   UserWorkspaceState option \<Rightarrow> (string + UserWorkspaceState) \<times> string option" where
  "SaveUserWorkspaceState env mkdir_error marshal st =
     (let path = UserWorkspaceStatePath env
      in if path = '''' then (Inl ''user workspace state path is not configured'', None)
         else SaveUserWorkspaceStateToPath env mkdir_error marshal path st)"

definition UpdateUserWorkspaceEmbeddingsState ::
  "'f config_env \<Rightarrow> (string \<Rightarrow> string option) \<Rightarrow> (UserWorkspaceState \<Rightarrow> string + string) \<Rightarrow> int \<Rightarrow> bool \<Rightarrow>
   (string + UserWorkspaceState) \<times> string option" where
  "UpdateUserWorkspaceEmbeddingsState env mkdir_error marshal now dismissed =
     (case LoadUserWorkspaceState env of
        Inl e \<Rightarrow> (Inl e, None)
      | Inr st \<Rightarrow> SaveUserWorkspaceState env mkdir_error marshal
          (Some (st\<lparr>us_Dismissed := dismissed, us_UpdatedAt := now\<rparr>)))"

section \<open>Inspection\<close>

record 'f WorkspaceConfigInspection =
  wi_RootPath :: string
  wi_ConfigPath :: string
  wi_ConfigExists :: bool
  wi_UserConfigPath :: string
  wi_UserConfigExists :: bool
  wi_UserStatePath :: string
  wi_UserStateExists :: bool
  wi_GoWorkPath :: string
  wi_GoModPath :: string
  wi_SuggestedConfig :: "'f WorkspaceConfig"
  wi_EffectiveConfig :: "'f WorkspaceConfig"
  wi_EmbeddingsConfigured :: bool
  wi_EmbeddingsSetupRequired :: bool
  wi_EmbeddingsSetupDismissed :: bool
  wi_EmbeddingsStatePath :: string
  wi_RecommendedNextStep :: string
  wi_Notes :: "string list"

definition configNotes :: "'f WorkspaceConfig \<Rightarrow> bool \<Rightarrow> bool \<Rightarrow> string list" where
  "configNotes config repoExists userExists =
     [''explicit tool inputs override config defaults'']
     @ (if \<not> repoExists then [''no repo config found; using auto-detected workspace defaults''] else [])
     @ (if userExists then [''user-local config was merged before repo config''] else [])
     @ (if cw_Mode (wc_Workspace config) = ''go_work''
        then [''go.work modules were expanded into root-relative package patterns''] else [])"

definition configRecommendedNextStep :: "bool \<Rightarrow> bool \<Rightarrow> bool \<Rightarrow> string" where
  "configRecommendedNextStep repoExists embeddingsConfigured embeddingsDismissed =
     (if repoExists then
        ''Use effective_config for analysis; do not call init_workspace_config unless the user explicitly asks to replace the repo config.''
      else
        ''Use effective_config for analysis now; ask the user before calling init_workspace_config to create .go-arch-xray.yml.'')"

definition EmbeddingsRecommendedNextStep :: "bool \<Rightarrow> bool \<Rightarrow> string" where
  "EmbeddingsRecommendedNextStep configured dismissed =
     (if configured then
        ''Embeddings are configured; use semantic_search or re-open this tool only to review the provider settings.''
      else if dismissed then
        ''Embeddings setup notice is dismissed; call this tool with reopen=true if you want to show it again.''
      else
        ''Choose either the local or API example, save it to the user config path, or call this tool with dismiss=true to stop the notice.'')"

definition EmbeddingsSetupRequired :: "bool \<Rightarrow> bool \<Rightarrow> bool" where
  "EmbeddingsSetupRequired configured dismissed \<longleftrightarrow> \<not> configured \<and> \<not> dismissed"

definition InspectWorkspaceConfig :: "'f float_ops \<Rightarrow> 'f config_env \<Rightarrow> string \<Rightarrow> string + 'f WorkspaceConfigInspection" where
  "InspectWorkspaceConfig F env root =
     (let root = Clean root
      in case SuggestWorkspaceConfig F env root of
           Inl e \<Rightarrow> Inl e
         | Inr suggested \<Rightarrow>
             (case effectiveWorkspaceConfigWithSources F env root suggested of
                Inl e \<Rightarrow> Inl e
              | Inr (effective, res) \<Rightarrow>
                  (case LoadUserWorkspaceState env of
                     Inl e \<Rightarrow> Inl e
                   | Inr st \<Rightarrow>
                       (let dismissed = us_Dismissed st; mode = cw_Mode (wc_Workspace suggested);
                            path = JoinPath [root, cw_File (wc_Workspace suggested)]
                        in Inr \<lparr>wi_RootPath = root, wi_ConfigPath = ProjectWorkspaceConfigPath root,
                             wi_ConfigExists = (wr_RepoExists res \<or> wr_ProjectExists res),
                             wi_UserConfigPath = UserWorkspaceConfigPath env, wi_UserConfigExists = wr_UserExists res,
                             wi_UserStatePath = UserWorkspaceStatePath env,
                             wi_UserStateExists = pathExists (ev_exists env) (UserWorkspaceStatePath env),
                             wi_GoWorkPath = (if mode = ''go_work'' then path else ''''),
                             wi_GoModPath = (if mode = ''go_mod'' then path else ''''),
                             wi_SuggestedConfig = suggested, wi_EffectiveConfig = effective,
                             wi_EmbeddingsConfigured = wr_EmbeddingsConfigured res,
                             wi_EmbeddingsSetupRequired = (\<not> wr_EmbeddingsConfigured res \<and> \<not> dismissed),
                             wi_EmbeddingsSetupDismissed = dismissed,
                             wi_EmbeddingsStatePath = UserWorkspaceStatePath env,
                             wi_RecommendedNextStep =
                               configRecommendedNextStep (wr_RepoExists res) (wr_EmbeddingsConfigured res) dismissed,
                             wi_Notes = configNotes suggested (wr_RepoExists res) (wr_UserExists res)\<rparr>))))"

text \<open>The settings of the embeddings with the examples the tool prints.\<close>

record 'f EmbeddingsSettingsInspection =
  ei_RootPath :: string
  ei_ConfigPath :: string
  ei_ConfigExists :: bool
  ei_UserConfigPath :: string
  ei_UserConfigExists :: bool
  ei_UserStatePath :: string
  ei_UserStateExists :: bool
  ei_EmbeddingsConfigured :: bool
  ei_EmbeddingsSetupRequired :: bool
  ei_EmbeddingsSetupDismissed :: bool
  ei_EffectiveConfig :: "'f WorkspaceConfig"
  ei_LocalConfigYAML :: string
  ei_APIConfigYAML :: string
  ei_RecommendedNextStep :: string

definition exampleConfig :: "'f float_ops \<Rightarrow> string \<Rightarrow> ConfigEmbeddingEndpoint \<Rightarrow> ConfigEmbeddingAPI \<Rightarrow> int \<Rightarrow> 'f WorkspaceConfig" where
  "exampleConfig F provider loc api dimension =
     (noWorkspaceConfig F)\<lparr>wc_Version := 1,
        wc_Embeddings := \<lparr>em_Provider = provider, em_Local = loc, em_API = api, em_BatchSize = 50,
          em_ChunkSize = 500, em_Dimension = dimension\<rparr>\<rparr>"

definition InspectEmbeddingsSettings ::
  "'f float_ops \<Rightarrow> 'f config_env \<Rightarrow> string \<Rightarrow> string + 'f EmbeddingsSettingsInspection" where
  "InspectEmbeddingsSettings F env root =
     (let root = Clean root; none = wc_Embeddings (noWorkspaceConfig F)
      in case SuggestWorkspaceConfig F env root of Inl e \<Rightarrow> Inl e | Inr suggested \<Rightarrow>
         (case effectiveWorkspaceConfigWithSources F env root suggested of Inl e \<Rightarrow> Inl e | Inr (effective, res) \<Rightarrow>
         (case LoadUserWorkspaceState env of Inl e \<Rightarrow> Inl e | Inr st \<Rightarrow>
         (case MarshalWorkspaceConfig env (exampleConfig F ''local''
                 \<lparr>ee_Endpoint = ''http://localhost:11434/api/embeddings'', ee_Model = ''bge-m3'', ee_Timeout = 0\<rparr>
                 (em_API none) 1024) of Inl e \<Rightarrow> Inl e | Inr localExample \<Rightarrow>
         (case MarshalWorkspaceConfig env (exampleConfig F ''api'' (em_Local none)
                 \<lparr>ea_BaseURL = ''https://api.openai.com/v1'', ea_Model = ''text-embedding-3-small'',
                  ea_APIKeyEnv = ''OPENAI_API_KEY'', ea_Timeout = 0\<rparr> 1536) of Inl e \<Rightarrow> Inl e | Inr apiExample \<Rightarrow>
           Inr \<lparr>ei_RootPath = root, ei_ConfigPath = ProjectWorkspaceConfigPath root,
             ei_ConfigExists = (wr_RepoExists res \<or> wr_ProjectExists res),
             ei_UserConfigPath = UserWorkspaceConfigPath env, ei_UserConfigExists = wr_UserExists res,
             ei_UserStatePath = UserWorkspaceStatePath env,
             ei_UserStateExists = pathExists (ev_exists env) (UserWorkspaceStatePath env),
             ei_EmbeddingsConfigured = wr_EmbeddingsConfigured res,
             ei_EmbeddingsSetupRequired = (\<not> wr_EmbeddingsConfigured res \<and> \<not> us_Dismissed st),
             ei_EmbeddingsSetupDismissed = us_Dismissed st, ei_EffectiveConfig = effective,
             ei_LocalConfigYAML = localExample, ei_APIConfigYAML = apiExample,
             ei_RecommendedNextStep = EmbeddingsRecommendedNextStep (wr_EmbeddingsConfigured res) (us_Dismissed st)\<rparr>)))))"

text \<open>A duration in YAML: a scalar with its tag and text; the parsers are arguments.\<close>

definition UnmarshalDuration ::
  "(string \<Rightarrow> string + int) \<Rightarrow> (string \<Rightarrow> string + int) \<Rightarrow> (string \<Rightarrow> string + 'f) \<Rightarrow> ('f \<Rightarrow> int) \<Rightarrow>
   (string \<times> string) option \<Rightarrow> ConfigDuration \<Rightarrow> string + ConfigDuration" where
  "UnmarshalDuration parse decodeInt decodeFloat trunc node d =
     (case node of
        None \<Rightarrow> Inr d
      | Some (tag, v) \<Rightarrow>
          if tag = ''!!str'' then parse v
          else if tag = ''!!int'' then decodeInt v
          else if tag = ''!!float'' then (case decodeFloat v of Inl e \<Rightarrow> Inl e | Inr x \<Rightarrow> Inr (trunc x))
          else Inl (''unsupported duration value '' @ v))"

section \<open>What normalisation guarantees\<close>

definition wf_module :: "ConfigModule \<Rightarrow> bool" where
  "wf_module m \<longleftrightarrow> md_Name m \<noteq> '''' \<and> (md_Root m = ''.'' \<or> IsAbs (md_Root m) \<or> HasPrefix (md_Root m) ''./'')
     \<and> md_PackagePatterns m \<noteq> [] \<and> cleanStringSlice (md_PackagePatterns m) = md_PackagePatterns m"

definition wf_config :: "'f WorkspaceConfig \<Rightarrow> bool" where
  "wf_config c \<longleftrightarrow> wc_Version c \<noteq> 0
     \<and> wc_PackagePatterns c \<noteq> [] \<and> cleanStringSlice (wc_PackagePatterns c) = wc_PackagePatterns c
     \<and> cleanStringSlice (so_Include (wc_Sources c)) = so_Include (wc_Sources c)
     \<and> cleanStringSlice (so_Exclude (wc_Sources c)) = so_Exclude (wc_Sources c)
     \<and> (\<forall>m \<in> set (wc_Modules c). wf_module m)
     \<and> 0 < sy_Debounce (wc_Sync c) \<and> 0 < sy_CheckInterval (wc_Sync c)
     \<and> (let e = wc_Embeddings c
        in em_Provider e \<noteq> '''' \<and> ToLower (em_Provider e) = em_Provider e
         \<and> 0 < em_BatchSize e \<and> 0 < em_ChunkSize e \<and> 0 < em_Dimension e
         \<and> 0 < ee_Timeout (em_Local e) \<and> 0 < ea_Timeout (em_API e) \<and> TrimSpace (ea_APIKeyEnv (em_API e)) \<noteq> '''')"

lemma clean_all: "cleanStringSlice [''./...''] = [''./...'']"
  by code_simp

lemma Base_not_Nil: "Base p \<noteq> ''''"
proof -
  let ?q = "rev (dropWhile (\<lambda>c. c = CHR ''/'') (rev p))"
  have "drop (Suc i) ?q \<noteq> []" if "LastIndex ?q CHR ''/'' = Some i" "?q \<noteq> []" for i
  proof
    assume "drop (Suc i) ?q = []"
    with LastIndex_Some [OF that(1)] have "?q = take i ?q @ [CHR ''/'']" by metis
    then have "last ?q = CHR ''/''" by (metis last_snoc)
    moreover have "last ?q \<noteq> CHR ''/''" using hd_dropWhile [OF that(2) [unfolded rev_is_Nil_conv]] unfolding last_rev .
    ultimately show False by simp
  qed
  then show ?thesis by (auto simp: Base_def Let_def split: option.splits)
qed

lemma configModuleName_not_Nil: "configModuleName root path \<noteq> ''''"
  by (auto simp: configModuleName_def Let_def Base_not_Nil)

lemma cleanModuleRoot_kinds:
  "cleanModuleRoot r = ''.'' \<or> IsAbs (cleanModuleRoot r) \<or> HasPrefix (cleanModuleRoot r) ''./''"
  by (simp add: cleanModuleRoot_def Let_def HasPrefix_def)

lemma wf_normalizeModule: "wf_module (normalizeModule m)"
  using cleanModuleRoot_kinds [of "md_Root m"] configModuleName_not_Nil
  by (auto simp: wf_module_def normalizeModule_def Let_def clean_all)

lemma modulePackagePatterns_clean [simp]: "cleanStringSlice (modulePackagePatterns ms) = modulePackagePatterns ms"
  by (simp add: modulePackagePatterns_def)

lemma wf_normalize: "wf_config (normalizeWorkspaceConfig c)"
proof -
  have e: "em_Provider (normalizeEmbeddings e) \<noteq> '''' \<and> ToLower (em_Provider (normalizeEmbeddings e)) = em_Provider (normalizeEmbeddings e)
     \<and> 0 < em_BatchSize (normalizeEmbeddings e) \<and> 0 < em_ChunkSize (normalizeEmbeddings e) \<and> 0 < em_Dimension (normalizeEmbeddings e)
     \<and> 0 < ee_Timeout (em_Local (normalizeEmbeddings e)) \<and> 0 < ea_Timeout (em_API (normalizeEmbeddings e))
     \<and> TrimSpace (ea_APIKeyEnv (em_API (normalizeEmbeddings e))) \<noteq> ''''" for e
  proof -
    have "ToLower ''local'' = ''local''" "TrimSpace ''OPENAI_API_KEY'' = ''OPENAI_API_KEY''" by code_simp+
    then show ?thesis by (simp add: normalizeEmbeddings_def Let_def orElse_def Second_def Millisecond_def)
  qed
  show ?thesis
    using e [of "wc_Embeddings c"]
    by (auto simp: wf_config_def normalizeWorkspaceConfig_def Let_def wf_normalizeModule normalizeSync_def orElse_def
        Second_def Millisecond_def clean_all)
qed

section \<open>Layers\<close>

text \<open>The value of the last layer that sets a field, or else the base's.\<close>

definition lastSet :: "('a \<Rightarrow> bool) \<Rightarrow> 'a list \<Rightarrow> 'a \<Rightarrow> 'a" where
  "lastSet isSet vs base = (case filter isSet vs of [] \<Rightarrow> base | ws \<Rightarrow> last ws)"

definition setText :: "string \<Rightarrow> bool" where "setText s \<longleftrightarrow> TrimSpace s \<noteq> ''''"
definition setInt :: "int \<Rightarrow> bool" where "setInt n \<longleftrightarrow> n > 0"

lemma lastSet_Nil [simp]: "lastSet isSet [] base = base"
  by (simp add: lastSet_def)

lemma lastSet_snoc: "lastSet isSet (vs @ [v]) base = (if isSet v then v else lastSet isSet vs base)"
  by (auto simp: lastSet_def last_ConsR split: list.splits) (metis last_ConsR last_snoc)

text \<open>What the configuration of some layers over a base must hold.\<close>

definition layered :: "'f WorkspaceConfig list \<Rightarrow> 'f WorkspaceConfig \<Rightarrow> 'f WorkspaceConfig \<Rightarrow> bool" where
  "layered ls base c \<longleftrightarrow>
     wc_Version c = lastSet setInt (map wc_Version ls) (wc_Version base)
   \<and> wc_Workspace c = lastSet (\<lambda>w. cw_Mode w \<noteq> '''' \<or> cw_File w \<noteq> '''') (map wc_Workspace ls) (wc_Workspace base)
   \<and> wc_CacheCapacity c = lastSet setInt (map wc_CacheCapacity ls) (wc_CacheCapacity base)
   \<and> wc_Boundaries c = lastSet (\<lambda>b. b \<noteq> []) (map wc_Boundaries ls) (wc_Boundaries base)
   \<and> (let p = lastSet (\<lambda>p. p \<noteq> []) (map wc_PackagePatterns ls) (wc_PackagePatterns base)
      in cleanStringSlice p \<noteq> [] \<longrightarrow> wc_PackagePatterns c = cleanStringSlice p)
   \<and> ou_Limit (wc_Output c) = lastSet setInt (map (ou_Limit \<circ> wc_Output) ls) (ou_Limit (wc_Output base))
   \<and> ou_Offset (wc_Output c) = lastSet setInt (map (ou_Offset \<circ> wc_Output) ls) (ou_Offset (wc_Output base))
   \<and> ou_MaxItems (wc_Output c) = lastSet setInt (map (ou_MaxItems \<circ> wc_Output) ls) (ou_MaxItems (wc_Output base))
   \<and> ou_ChunkSize (wc_Output c) = lastSet setInt (map (ou_ChunkSize \<circ> wc_Output) ls) (ou_ChunkSize (wc_Output base))
   \<and> ou_Summary (wc_Output c) = (ou_Summary (wc_Output base) \<or> (\<exists>l \<in> set ls. ou_Summary (wc_Output l)))
   \<and> kx_SortBy (wc_Complexity c) = lastSet setText (map (TrimSpace \<circ> kx_SortBy \<circ> wc_Complexity) ls) (kx_SortBy (wc_Complexity base))
   \<and> lc_MaxHops (wc_Lifecycle c) = lastSet setInt (map (lc_MaxHops \<circ> wc_Lifecycle) ls) (lc_MaxHops (wc_Lifecycle base))
   \<and> or_MigrationDirs (wc_ORM c) = lastSet (\<lambda>d. d \<noteq> []) (map (or_MigrationDirs \<circ> wc_ORM) ls) (or_MigrationDirs (wc_ORM base))
   \<and> sy_AutoRebuild (wc_Sync c) = lastSet (\<lambda>a. a \<noteq> None) (map (sy_AutoRebuild \<circ> wc_Sync) ls) (sy_AutoRebuild (wc_Sync base))
   \<and> sy_Debounce (wc_Sync c) = lastSet setInt (map (sy_Debounce \<circ> wc_Sync) ls) (sy_Debounce (wc_Sync base))
   \<and> em_BatchSize (wc_Embeddings c) = lastSet setInt (map (em_BatchSize \<circ> wc_Embeddings) ls) (em_BatchSize (wc_Embeddings base))
   \<and> em_Dimension (wc_Embeddings c) = lastSet setInt (map (em_Dimension \<circ> wc_Embeddings) ls) (em_Dimension (wc_Embeddings base))"

lemma normalize_fields:
  "wc_Version (normalizeWorkspaceConfig c) = (if wc_Version c = 0 then 1 else wc_Version c)"
  "wc_Workspace (normalizeWorkspaceConfig c) = wc_Workspace c"
  "wc_CacheCapacity (normalizeWorkspaceConfig c) = wc_CacheCapacity c"
  "wc_Boundaries (normalizeWorkspaceConfig c) = wc_Boundaries c"
  "wc_Output (normalizeWorkspaceConfig c) = wc_Output c"
  "wc_Complexity (normalizeWorkspaceConfig c) = wc_Complexity c"
  "wc_Lifecycle (normalizeWorkspaceConfig c) = wc_Lifecycle c"
  "wc_ORM (normalizeWorkspaceConfig c) = wc_ORM c"
  "sy_AutoRebuild (wc_Sync (normalizeWorkspaceConfig c)) = sy_AutoRebuild (wc_Sync c)"
  "0 < sy_Debounce (wc_Sync c) \<Longrightarrow> sy_Debounce (wc_Sync (normalizeWorkspaceConfig c)) = sy_Debounce (wc_Sync c)"
  "0 < em_BatchSize (wc_Embeddings c) \<Longrightarrow> em_BatchSize (wc_Embeddings (normalizeWorkspaceConfig c)) = em_BatchSize (wc_Embeddings c)"
  "0 < em_Dimension (wc_Embeddings c) \<Longrightarrow> em_Dimension (wc_Embeddings (normalizeWorkspaceConfig c)) = em_Dimension (wc_Embeddings c)"
  "cleanStringSlice (wc_PackagePatterns c) \<noteq> [] \<Longrightarrow>
     wc_PackagePatterns (normalizeWorkspaceConfig c) = cleanStringSlice (wc_PackagePatterns c)"
  by (simp_all add: normalizeWorkspaceConfig_def normalizeSync_def normalizeEmbeddings_def orElse_def Let_def)

lemma wf_config_facts:
  assumes "wf_config c"
  shows "wc_Version c \<noteq> 0" "0 < sy_Debounce (wc_Sync c)" "0 < em_BatchSize (wc_Embeddings c)"
    "0 < em_Dimension (wc_Embeddings c)" "cleanStringSlice (wc_PackagePatterns c) = wc_PackagePatterns c"
    "wc_PackagePatterns c \<noteq> []"
  using assms by (simp_all add: wf_config_def Let_def)

lemmas over_defs = overInt_def overText_def overList_def mergeConfigOutput_def mergeConfigComplexity_def
  mergeConfigLifecycle_def mergeConfigORM_def mergeConfigSync_def mergeConfigEmbeddings_def

lemma merge_fields:
  assumes "wf_config b"
  shows "wc_Version (mergeWorkspaceConfig F b v) = overInt (wc_Version b) (wc_Version v)"
    "wc_Workspace (mergeWorkspaceConfig F b v) =
       (if cw_Mode (wc_Workspace v) \<noteq> '''' \<or> cw_File (wc_Workspace v) \<noteq> '''' then wc_Workspace v else wc_Workspace b)"
    "wc_CacheCapacity (mergeWorkspaceConfig F b v) = overInt (wc_CacheCapacity b) (wc_CacheCapacity v)"
    "wc_Boundaries (mergeWorkspaceConfig F b v) = overList (wc_Boundaries b) (wc_Boundaries v)"
    "wc_Output (mergeWorkspaceConfig F b v) = mergeConfigOutput (wc_Output b) (wc_Output v)"
    "wc_Complexity (mergeWorkspaceConfig F b v) = mergeConfigComplexity F (wc_Complexity b) (wc_Complexity v)"
    "wc_Lifecycle (mergeWorkspaceConfig F b v) = mergeConfigLifecycle (wc_Lifecycle b) (wc_Lifecycle v)"
    "wc_ORM (mergeWorkspaceConfig F b v) = mergeConfigORM (wc_ORM b) (wc_ORM v)"
    "sy_AutoRebuild (wc_Sync (mergeWorkspaceConfig F b v)) =
       (if sy_AutoRebuild (wc_Sync v) \<noteq> None then sy_AutoRebuild (wc_Sync v) else sy_AutoRebuild (wc_Sync b))"
    "sy_Debounce (wc_Sync (mergeWorkspaceConfig F b v)) = overInt (sy_Debounce (wc_Sync b)) (sy_Debounce (wc_Sync v))"
    "em_BatchSize (wc_Embeddings (mergeWorkspaceConfig F b v)) = overInt (em_BatchSize (wc_Embeddings b)) (em_BatchSize (wc_Embeddings v))"
    "em_Dimension (wc_Embeddings (mergeWorkspaceConfig F b v)) = overInt (em_Dimension (wc_Embeddings b)) (em_Dimension (wc_Embeddings v))"
  using wf_config_facts [OF assms]
  unfolding mergeWorkspaceConfig_def
  by (subst normalize_fields; simp add: overInt_def mergeConfigSync_def mergeConfigEmbeddings_def)+

lemma merge_patterns:
  assumes "wf_config b" "cleanStringSlice (overList (wc_PackagePatterns b) (wc_PackagePatterns v)) \<noteq> []"
  shows "wc_PackagePatterns (mergeWorkspaceConfig F b v) = cleanStringSlice (overList (wc_PackagePatterns b) (wc_PackagePatterns v))"
  using assms(2) unfolding mergeWorkspaceConfig_def by (subst normalize_fields) simp_all

lemma wf_merge: "wf_config (mergeWorkspaceConfig F b v)"
  unfolding mergeWorkspaceConfig_def by (rule wf_normalize)

lemma layered_base: "wf_config base \<Longrightarrow> layered [] base base"
  by (simp add: layered_def wf_config_facts Let_def)

lemma layered_step:
  assumes "layered ls base c" "wf_config c" "wf_config base"
  shows "layered (ls @ [l]) base (mergeWorkspaceConfig F c l)"
proof -
  let ?p = "lastSet (\<lambda>p. p \<noteq> []) (map wc_PackagePatterns ls) (wc_PackagePatterns base)"
  have pats: "cleanStringSlice ?p \<noteq> [] \<longrightarrow> wc_PackagePatterns c = cleanStringSlice ?p"
    using assms(1) by (simp add: layered_def Let_def)
  have "let p = lastSet (\<lambda>p. p \<noteq> []) (map wc_PackagePatterns (ls @ [l])) (wc_PackagePatterns base)
        in cleanStringSlice p \<noteq> [] \<longrightarrow> wc_PackagePatterns (mergeWorkspaceConfig F c l) = cleanStringSlice p"
    using pats merge_patterns [OF assms(2), of l F] wf_config_facts(5,6) [OF assms(2)]
    by (cases "wc_PackagePatterns l = []") (simp_all add: lastSet_snoc overList_def Let_def)
  then show ?thesis
    using assms(1) unfolding layered_def merge_fields [OF assms(2)]
    by (simp add: lastSet_snoc over_defs setInt_def setText_def Let_def)
qed

lemma layered_normalize: "layered ls base c \<Longrightarrow> wf_config c \<Longrightarrow> layered ls base (normalizeWorkspaceConfig c)"
  using wf_config_facts [of c] by (simp add: layered_def normalize_fields Let_def)

lemma suggested_wf: "SuggestWorkspaceConfig F env root = Inr c \<Longrightarrow> wf_config c"
  by (auto simp: SuggestWorkspaceConfig_def suggestGoWorkConfig_def Let_def wf_normalize split: if_splits sum.splits)

text \<open>The layers that exist, in the order in which they are merged.\<close>

lemma effective_layers:
  assumes "effectiveWorkspaceConfigWithSources F env root base = Inr (c, res)" "wf_config base"
  shows "\<exists>u r p. loadOptionalWorkspaceConfigWithRaw F env (UserWorkspaceConfigPath env) = Inr u
     \<and> loadOptionalWorkspaceConfigWithRaw F env (RepoWorkspaceConfigPath root) = Inr r
     \<and> loadOptionalWorkspaceConfigWithRaw F env (ProjectWorkspaceConfigPath root) = Inr p
     \<and> layered (map fst (filter snd [u, r, p])) base c \<and> wf_config c"
proof -
  obtain u eu r er p ep where l:
    "loadOptionalWorkspaceConfigWithRaw F env (UserWorkspaceConfigPath env) = Inr (u, eu)"
    "loadOptionalWorkspaceConfigWithRaw F env (RepoWorkspaceConfigPath root) = Inr (r, er)"
    "loadOptionalWorkspaceConfigWithRaw F env (ProjectWorkspaceConfigPath root) = Inr (p, ep)"
    using assms(1) by (auto simp: effectiveWorkspaceConfigWithSources_def Let_def split: sum.splits)
  define over where "over = (\<lambda>(l, e) b. if e then mergeWorkspaceConfig F b l else b)"
  have c: "c = normalizeWorkspaceConfig (over (p, ep) (over (r, er) (over (u, eu) base)))"
    using assms(1) l by (simp add: effectiveWorkspaceConfigWithSources_def over_def Let_def)
  have step: "layered (ls @ map fst (filter snd [x])) base (over x b) \<and> wf_config (over x b)"
    if "layered ls base b \<and> wf_config b" for ls x b
    using that layered_step [of ls base b "fst x" F] assms(2) by (cases x) (auto simp: over_def wf_merge)
  have "layered ((([] @ map fst (filter snd [(u, eu)])) @ map fst (filter snd [(r, er)])) @ map fst (filter snd [(p, ep)])) base
      (over (p, ep) (over (r, er) (over (u, eu) base))) \<and> wf_config (over (p, ep) (over (r, er) (over (u, eu) base)))"
    using assms(2) layered_base by (intro step) simp
  moreover have "(([] @ map fst (filter snd [(u, eu)])) @ map fst (filter snd [(r, er)])) @ map fst (filter snd [(p, ep)])
      = map fst (filter snd [(u, eu), (r, er), (p, ep)])" by simp
  ultimately show ?thesis using l layered_normalize wf_normalize unfolding c by metis
qed



text \<open>
  Initialising the configuration of a workspace without the overwrite flag never touches an
  existing file; otherwise a success reports whether the file was there, and the text written is
  the marshalled suggestion.
\<close>

theorem init_config_safe:
  assumes "InitWorkspaceConfig F env root overwrite = (result, written)"
  defines "existed \<equiv> pathExists (ev_exists env) (RepoWorkspaceConfigPath root)"
  shows "(existed \<and> \<not> overwrite \<longrightarrow> written = None \<and> (\<exists>e. result = Inl e))
     \<and> (\<forall>r. result = Inr r \<longrightarrow> written = Some (ir_YAML r) \<and> ir_Created r = (\<not> existed) \<and> ir_Overwritten r = existed
          \<and> wf_config (ir_Config r) \<and> MarshalWorkspaceConfig env (ir_Config r) = Inr (ir_YAML r))"
proof -
  have "RepoWorkspaceConfigPath (Clean root) = RepoWorkspaceConfigPath root" by (simp add: RepoWorkspaceConfigPath_def)
  then show ?thesis
    using assms(1) unfolding existed_def InitWorkspaceConfig_def Let_def
    by (auto simp: suggested_wf split: sum.splits if_splits option.splits)
qed

text \<open>A module with a repository configuration that sets a limit, and no other file.\<close>

definition sample_repo_config :: "int WorkspaceConfig" where
  "sample_repo_config = (noWorkspaceConfig sample_floats)\<lparr>wc_Output := \<lparr>ou_Limit = 5, ou_Offset = 0, ou_MaxItems = 0,
     ou_ChunkSize = 0, ou_Summary = False\<rparr>\<rparr>"

definition sample_config_env :: "int config_env" where
  "sample_config_env = \<lparr>ev_ReadFile = (\<lambda>p. if p = ''/w/go.mod'' then Inr ''app'' else if p = ''/w/.go-arch-xray.yml'' then Inr ''limit'' else Inl NotExist),
     ev_exists = (\<lambda>p. p = ''/w/go.mod'' \<or> p = ''/w/.go-arch-xray.yml''), ev_LookupEnv = (\<lambda>_. None), ev_UserConfigDir = None,
     ev_yaml = (\<lambda>_. Inr sample_repo_config), ev_yaml_text = (\<lambda>_. Inr ''text''), ev_json_state = (\<lambda>_. Inl ''''),
     ev_ParseWork = (\<lambda>_. Inr []), ev_ParseMod = (\<lambda>s. Inr (Some s)), ev_open_error = (\<lambda>_. None), ev_write_error = (\<lambda>_. None)\<rparr>"

lemma sample_loads:
  "loadOptionalWorkspaceConfigWithRaw sample_floats sample_config_env (UserWorkspaceConfigPath sample_config_env) = Inr (noWorkspaceConfig sample_floats, False)"
  "loadOptionalWorkspaceConfigWithRaw sample_floats sample_config_env (RepoWorkspaceConfigPath ''/w'') = Inr (sample_repo_config, True)"
  "loadOptionalWorkspaceConfigWithRaw sample_floats sample_config_env (ProjectWorkspaceConfigPath ''/w'') = Inr (noWorkspaceConfig sample_floats, False)"
  by code_simp+

lemma suggested_output:
  assumes "SuggestWorkspaceConfig F env root = Inr base"
  shows "wc_Output base = \<lparr>ou_Limit = 0, ou_Offset = 0, ou_MaxItems = 0, ou_ChunkSize = 0, ou_Summary = False\<rparr>"
  using assms by (auto simp: SuggestWorkspaceConfig_def suggestGoWorkConfig_def Let_def normalize_fields
      noWorkspaceConfig_def split: sum.splits if_splits option.splits)

lemma sample_effective: "\<exists>c. EffectiveWorkspaceConfig sample_floats sample_config_env ''/w'' = Inr c"
proof -
  have "Clean ''/w'' = ''/w''" "JoinPath [''/w'', ''go.work''] = ''/w/go.work''" "JoinPath [''/w'', ''go.mod''] = ''/w/go.mod''"
    "\<not> pathExists (ev_exists sample_config_env) ''/w/go.work''" "pathExists (ev_exists sample_config_env) ''/w/go.mod''"
    "readGoModulePath sample_config_env ''/w/go.mod'' = Inr ''app''"
    by code_simp+
  then have "\<exists>base. SuggestWorkspaceConfig sample_floats sample_config_env ''/w'' = Inr base"
    unfolding SuggestWorkspaceConfig_def Let_def by simp
  then show ?thesis
    by (auto simp: EffectiveWorkspaceConfig_def effectiveWorkspaceConfigWithSources_def sample_loads Let_def)
qed



theorem init_config_safe_witness:
  "snd (InitWorkspaceConfig sample_floats sample_config_env ''/w'' False) = None"
proof -
  have "pathExists (ev_exists sample_config_env) (RepoWorkspaceConfigPath ''/w'')" by code_simp
  then show ?thesis using init_config_safe [of sample_floats sample_config_env "''/w''" False] by (metis prod.collapse)
qed

end
