(* ===== verification/Dead_Code.thy ===== *)
theory Dead_Code
  imports Call_Graph Patterns
begin

text \<open>
  Functions nobody calls: \<^verbatim>\<open>analyzer/dead_code.go\<close>. A function of the program carries, besides
  its names, what the scan reads of it: its package, the function it is nested in or an instance
  of, its position and its instructions, of which only go statements and calls matter.
\<close>

datatype ssa_value = FunctionVal nat | ClosureVal "nat option" | OtherVal

record call_common =
  cc_String :: string
  cc_Args :: "ssa_value list"
  cc_Static :: "string option"         \<comment> \<open>name of the static callee\<close>

datatype ssa_instr = GoInstr ssa_value | CallInstr call_common | OtherInstr

record body_func = ssa_func +
  bf_PkgName :: "string option"        \<comment> \<open>name of \<^verbatim>\<open>fn.Package()\<close>\<close>
  bf_Nested :: bool                    \<comment> \<open>\<^verbatim>\<open>fn.Parent()\<close> is not nil\<close>
  bf_Origin :: "nat option"
  bf_Pos :: "string \<times> int"
  bf_Blocks :: "ssa_instr list list"

record dead_program =
  dp_Packages :: "(string \<times> string list) list"
  dp_SSAFuncs :: "body_func option list"
  dp_Graph :: call_graph
  dp_Nodes :: "nat list"               \<comment> \<open>the nodes of the graph\<close>

definition DeadCodePrecisionMode :: string where
  "DeadCodePrecisionMode = ''precision''"

definition DeadCodeAuditMode :: string where
  "DeadCodeAuditMode = ''audit''"

definition DeadCodeUnreferenced :: string where
  "DeadCodeUnreferenced = ''unreferenced''"

definition DeadCodeUnreachable :: string where
  "DeadCodeUnreachable = ''unreachable_from_entrypoint''"

record DeadCodeSummary =
  du_Total :: int
  du_Returned :: int
  du_ByKind :: "string \<Rightarrow> int"
  du_ByConfidence :: "string \<Rightarrow> int"
  du_FilteredUnreachable :: int
  du_RegisteredCallbacks :: int

record DeadFunction =
  df_Kind :: string
  df_Function :: string
  df_Package :: string
  df_Exported :: bool
  df_Confidence :: string
  df_Actionability :: string
  df_InboundCallers :: int
  df_ReachableFromEntrypoint :: bool
  df_Evidence :: "string list"
  df_File :: string
  df_Line :: int
  df_Anchor :: string

record DeadCodeResult =
  dc_Functions :: "DeadFunction list"
  dc_Total :: int
  dc_IncludeExported :: bool
  dc_Mode :: string
  dc_ScopePattern :: string
  dc_Summary :: DeadCodeSummary
  dc_Notes :: "string list"
  dc_Offset :: int
  dc_Limit :: int
  dc_MaxItems :: int
  dc_ChunkSize :: int
  dc_NextCursor :: string
  dc_HasMore :: bool
  dc_TotalBeforeTruncate :: int
  dc_Truncated :: bool

record DeadCodeOptions =
  do_IncludeExported :: bool
  do_Mode :: string
  do_ScopePattern :: string

section \<open>Names\<close>

definition isExportedName :: "string \<Rightarrow> bool" where
  "isExportedName name \<longleftrightarrow> (case name of [] \<Rightarrow> False | r # _ \<Rightarrow> CHR ''A'' \<le> r \<and> r \<le> CHR ''Z'')"

definition receiverTypeName :: "string \<Rightarrow> string" where
  "receiverTypeName recv =
     (let t = TrimPrefix recv ''*'';
          t = (case LastIndex t CHR ''.'' of Some i \<Rightarrow> drop (Suc i) t | None \<Rightarrow> t)
      in case Index t CHR ''['' of Some i \<Rightarrow> take i t | None \<Rightarrow> t)"

definition isExportedFunc :: "body_func \<Rightarrow> bool" where
  "isExportedFunc f \<longleftrightarrow> isExportedName (fn_Name f)
     \<and> (case fn_Recv f of None \<Rightarrow> True | Some recv \<Rightarrow> isExportedName (receiverTypeName recv))"

definition isCandidateForDeadCheck :: "body_func option \<Rightarrow> bool" where
  "isCandidateForDeadCheck fo =
     (case fo of None \<Rightarrow> False
      | Some f \<Rightarrow> fn_Pkg f \<noteq> None \<and> fn_Synthetic f = '''' \<and> \<not> bf_Nested f
          \<and> fn_Name f \<notin> {'''', ''init'', ''main''}
          \<and> (case bf_Origin f of None \<Rightarrow> True | Some ref \<Rightarrow> ref = fn_ref f))"

section \<open>Entrypoints and callbacks\<close>

text \<open>\<^verbatim>\<open>add\<close>: the node of a function, once.\<close>

definition addNodeOf :: "call_graph \<Rightarrow> nat option \<Rightarrow> nat list \<Rightarrow> nat list" where
  "addNodeOf g fo out =
     (case fo of None \<Rightarrow> out
      | Some ref \<Rightarrow> (case cg_Nodes g ref of
                     None \<Rightarrow> out
                   | Some node \<Rightarrow> if node \<in> set out then out else out @ [node]))"

fun valueFunc :: "ssa_value \<Rightarrow> nat option" where
  "valueFunc (FunctionVal ref) = Some ref"
| "valueFunc (ClosureVal inner) = inner"
| "valueFunc OtherVal = None"

fun goTarget :: "ssa_instr \<Rightarrow> nat option" where
  "goTarget (GoInstr v) = valueFunc v"
| "goTarget _ = None"

text \<open>The functions a function of the program contributes as entrypoints.\<close>

definition entrypointFuncs :: "body_func \<Rightarrow> nat option list" where
  "entrypointFuncs f =
     (case bf_PkgName f of
        None \<Rightarrow> []
      | Some pkgName \<Rightarrow>
          if fn_Name f = ''main'' \<and> pkgName = ''main'' \<or> fn_Name f = ''init'' then [Some (fn_ref f)]
          else map goTarget (concat (bf_Blocks f)))"

definition knownFuncs :: "dead_program \<Rightarrow> body_func list" where
  "knownFuncs prog = map the (filter (\<lambda>f. f \<noteq> None) (dp_SSAFuncs prog))"

definition collectEntrypointNodes :: "dead_program \<Rightarrow> nat list" where
  "collectEntrypointNodes prog =
     fold (addNodeOf (dp_Graph prog)) (concat (map entrypointFuncs (knownFuncs prog))) []"

definition callbackHandlerFunction :: "call_common \<Rightarrow> nat option" where
  "callbackHandlerFunction common =
     (case map_option valueFunc (find (\<lambda>v. valueFunc v \<noteq> None) (cc_Args common)) of
        Some (Some ref) \<Rightarrow> Some ref
      | _ \<Rightarrow>
        (case cc_Static common of
           Some callee \<Rightarrow>
             (if Contains callee ''AddTool'' then
                (case find (\<lambda>v. case v of FunctionVal _ \<Rightarrow> True | _ \<Rightarrow> False) (cc_Args common) of
                   Some v \<Rightarrow> valueFunc v | None \<Rightarrow> None)
              else None)
         | None \<Rightarrow> None))"

definition isCallbackRegistrationCall :: "call_common \<Rightarrow> bool" where
  "isCallbackRegistrationCall common \<longleftrightarrow>
     Contains (cc_String common) ''AddTool'' \<and> callbackHandlerFunction common \<noteq> None"

fun callbackTarget :: "ssa_instr \<Rightarrow> nat option" where
  "callbackTarget (CallInstr common) =
     (if isCallbackRegistrationCall common then callbackHandlerFunction common else None)"
| "callbackTarget _ = None"

definition collectRegisteredCallbackNodes :: "dead_program \<Rightarrow> nat list" where
  "collectRegisteredCallbackNodes prog =
     fold (addNodeOf (dp_Graph prog))
       (concat (map (\<lambda>f. map callbackTarget (concat (bf_Blocks f))) (knownFuncs prog))) []"

definition isCallbackRegisteredRoot :: "call_graph \<Rightarrow> body_func \<Rightarrow> nat list \<Rightarrow> bool" where
  "isCallbackRegisteredRoot g f nodes \<longleftrightarrow>
     (\<exists>n \<in> set nodes. case cg_Func g n of Some h \<Rightarrow> fn_ref h = fn_ref f | None \<Rightarrow> False)"

section \<open>Reachability\<close>

definition calleeNodes :: "call_graph \<Rightarrow> nat \<Rightarrow> nat list" where
  "calleeNodes g n = map the (filter (\<lambda>c. c \<noteq> None) (map eg_Callee (cg_Out g n)))"

definition reachableNodes :: "dead_program \<Rightarrow> nat list" where
  "reachableNodes prog =
     visitAll (Suc (length (dp_Nodes prog))) (calleeNodes (dp_Graph prog))
       (collectEntrypointNodes prog @ collectRegisteredCallbackNodes prog)"

section \<open>The report\<close>

definition deadFunctionMetadata :: "string \<Rightarrow> string \<times> string" where
  "deadFunctionMetadata kind =
     (if kind = DeadCodeUnreferenced then (''high'', ''candidate_for_delete'')
      else if kind = DeadCodeUnreachable then (''medium'', ''verify_before_delete'')
      else (''unknown'', ''review''))"

definition boolText :: "bool \<Rightarrow> string" where
  "boolText b = (if b then ''true'' else ''false'')"

definition deadFunctionEvidence ::
  "call_graph \<Rightarrow> body_func \<Rightarrow> string \<Rightarrow> int \<Rightarrow> bool \<Rightarrow> string \<Rightarrow> nat list \<Rightarrow> string list" where
  "deadFunctionEvidence g f kind inbound reachableFromEntrypoint mode callbackNodes =
     [''inbound_callers='' @ Itoa inbound, ''reachable_from_entrypoint='' @ boolText reachableFromEntrypoint]
     @ (if kind = DeadCodeUnreachable then [''caller_chain does not reach a discovered entrypoint''] else [])
     @ (if mode = DeadCodeAuditMode then [''audit_mode=full_static_inventory''] else [])
     @ (if isCallbackRegisteredRoot g f callbackNodes then [''callback_registered_root=true''] else [])"

text \<open>The incoming edges of the node of a function; none if it has no node.\<close>

definition inboundCount :: "call_graph \<Rightarrow> body_func \<Rightarrow> nat" where
  "inboundCount g f = (case cg_Nodes g (fn_ref f) of None \<Rightarrow> 0 | Some n \<Rightarrow> length (cg_In g n))"

definition nodeReachable :: "call_graph \<Rightarrow> nat list \<Rightarrow> body_func \<Rightarrow> bool" where
  "nodeReachable g reached f \<longleftrightarrow> (case cg_Nodes g (fn_ref f) of None \<Rightarrow> False | Some n \<Rightarrow> n \<in> set reached)"

definition deadKind :: "call_graph \<Rightarrow> nat list \<Rightarrow> body_func \<Rightarrow> string option" where
  "deadKind g reached f =
     (if inboundCount g f = 0 then Some DeadCodeUnreferenced
      else if \<not> nodeReachable g reached f then Some DeadCodeUnreachable
      else None)"

definition newDeadFunction ::
  "call_graph \<Rightarrow> nat list \<Rightarrow> nat list \<Rightarrow> string \<Rightarrow> body_func \<Rightarrow> string \<Rightarrow> DeadFunction" where
  "newDeadFunction g reached callbacks mode f kind =
     (let (file, line) = bf_Pos f; inbound = int (inboundCount g f); r = nodeReachable g reached f;
          (confidence, actionability) = deadFunctionMetadata kind
      in \<lparr>df_Kind = kind, df_Function = fn_String f, df_Package = the (fn_Pkg f), df_Exported = isExportedFunc f,
          df_Confidence = confidence, df_Actionability = actionability, df_InboundCallers = inbound,
          df_ReachableFromEntrypoint = r,
          df_Evidence = deadFunctionEvidence g f kind inbound r mode callbacks,
          df_File = file, df_Line = line, df_Anchor = contextAnchor file line (fn_Name f)\<rparr>)"

text \<open>A function that passes the filters in front of the classification.\<close>

definition checkedFunc ::
  "call_graph \<Rightarrow> string list \<Rightarrow> nat list \<Rightarrow> bool \<Rightarrow> body_func option \<Rightarrow> bool" where
  "checkedFunc g scopePkgs callbacks includeExported fo \<longleftrightarrow>
     isCandidateForDeadCheck fo \<and> \<not> (scopePkgs \<noteq> [] \<and> the (fn_Pkg (the fo)) \<notin> set scopePkgs)
     \<and> \<not> isCallbackRegisteredRoot g (the fo) callbacks \<and> \<not> (\<not> includeExported \<and> isExportedFunc (the fo))"

text \<open>One turn of the classification loop: the report so far and the summary.\<close>

definition classify ::
  "call_graph \<Rightarrow> nat list \<Rightarrow> nat list \<Rightarrow> string \<Rightarrow> body_func \<Rightarrow> DeadFunction list \<times> DeadCodeSummary \<Rightarrow>
   DeadFunction list \<times> DeadCodeSummary" where
  "classify g reached callbacks mode f st =
     (case deadKind g reached f of
        None \<Rightarrow> st
      | Some kind \<Rightarrow>
          (let (dead, s) = st
           in if mode \<noteq> DeadCodeAuditMode \<and> kind = DeadCodeUnreachable
              then (dead, s\<lparr>du_FilteredUnreachable := du_FilteredUnreachable s + 1\<rparr>)
              else (let d = newDeadFunction g reached callbacks mode f kind
                    in (dead @ [d],
                        s\<lparr>du_ByKind := (du_ByKind s)(kind := du_ByKind s kind + 1),
                          du_ByConfidence := (du_ByConfidence s)(df_Confidence d := du_ByConfidence s (df_Confidence d) + 1)\<rparr>))))"

definition dead_less :: "DeadFunction \<Rightarrow> DeadFunction \<Rightarrow> bool" where
  "dead_less a b =
     (if df_Kind a \<noteq> df_Kind b then df_Kind a < df_Kind b
      else if df_Package a \<noteq> df_Package b then df_Package a < df_Package b
      else df_Function a < df_Function b)"

definition deadFunctionKey :: "DeadFunction \<Rightarrow> string" where
  "deadFunctionKey d = df_Kind d @ ''|'' @ df_Package d @ ''|'' @ df_Function d @ ''|'' @ df_File d @ '':'' @ Itoa (df_Line d)"

definition deadNotes :: "bool \<Rightarrow> string list" where
  "deadNotes includeExported =
     [''CHA call graph is sound for static and interface dispatch but cannot see reflection, plugin loading, cgo, or //go:linkname callers. Verify before deleting.'',
      ''Methods satisfying interfaces consumed by other modules may appear dead even when called externally.'',
      ''Test files (*_test.go) are not loaded into the analysis program; functions only used from tests cannot be detected.'',
      ''Known callback registrations such as MCP tool handlers are treated as roots to reduce false positives.'']
     @ (if includeExported then [] else [''Exported symbols are excluded by default; pass include_exported=true to audit public API.''])"

definition emptyDeadSummary :: DeadCodeSummary where
  "emptyDeadSummary = \<lparr>du_Total = 0, du_Returned = 0, du_ByKind = (\<lambda>_. 0), du_ByConfidence = (\<lambda>_. 0),
     du_FilteredUnreachable = 0, du_RegisteredCallbacks = 0\<rparr>"

definition FindDeadCodeWithOptions ::
  "paging \<Rightarrow> (string \<Rightarrow> bool) \<Rightarrow> dead_program \<Rightarrow> string \<Rightarrow> string \<Rightarrow> DeadCodeOptions \<Rightarrow> QueryOptions \<Rightarrow>
   stream_error + DeadCodeResult" where
  "FindDeadCodeWithOptions pg exists prog dir pattern dcOpts opts =
     (let mode = (if do_Mode dcOpts = '''' then DeadCodePrecisionMode else do_Mode dcOpts);
          g = dp_Graph prog;
          scopePkgs = selectedPackageSet exists (dp_Packages prog) dir (SplitPatterns (do_ScopePattern dcOpts));
          callbacks = collectRegisteredCallbackNodes prog;
          reached = reachableNodes prog;
          checked = map the (filter (checkedFunc g scopePkgs callbacks (do_IncludeExported dcOpts)) (dp_SSAFuncs prog));
          (dead, s) = fold (classify g reached callbacks mode) checked ([], emptyDeadSummary);
          returned = int (length dead);
          s = s\<lparr>du_Total := returned + du_FilteredUnreachable s, du_Returned := returned,
                du_RegisteredCallbacks := int (length callbacks)\<rparr>
      in case page_items pg (sort_slice dead_less dead) (''dead_code:'' @ dir @ ''|'' @ pattern) deadFunctionKey opts of
           Inl e \<Rightarrow> Inl e
         | Inr w \<Rightarrow> Inr \<lparr>dc_Functions = wr_items w, dc_Total = du_Total s, dc_IncludeExported = do_IncludeExported dcOpts,
             dc_Mode = mode, dc_ScopePattern = do_ScopePattern dcOpts, dc_Summary = s,
             dc_Notes = deadNotes (do_IncludeExported dcOpts), dc_Offset = qo_Offset opts, dc_Limit = qo_Limit opts,
             dc_MaxItems = qo_MaxItems opts,
             dc_ChunkSize = (if qo_ChunkSize opts > 0 then clampChunkSize (pg_env pg) (qo_ChunkSize opts) else 0),
             dc_NextCursor = wr_next w, dc_HasMore = wr_more w, dc_TotalBeforeTruncate = du_Total s,
             dc_Truncated = wr_truncated w\<rparr>)"

section \<open>Laws\<close>

definition dead_key :: "DeadFunction \<Rightarrow> string \<times> string \<times> string" where
  "dead_key d = (df_Kind d, df_Package d, df_Function d)"

interpretation dead_functions: key_order dead_less dead_key
  by unfold_locales (auto simp: dead_less_def dead_key_def less_prod_def')

text \<open>The node list holds the nodes of all functions and is closed under calls.\<close>

definition nodes_closed :: "dead_program \<Rightarrow> bool" where
  "nodes_closed prog \<longleftrightarrow> (\<forall>ref n. cg_Nodes (dp_Graph prog) ref = Some n \<longrightarrow> n \<in> set (dp_Nodes prog))
     \<and> (\<forall>n \<in> set (dp_Nodes prog). set (calleeNodes (dp_Graph prog) n) \<subseteq> set (dp_Nodes prog))"

text \<open>A function is live if its node is reached from an entrypoint or a registered callback.\<close>

definition live :: "dead_program \<Rightarrow> body_func \<Rightarrow> bool" where
  "live prog f \<longleftrightarrow> (\<exists>n. cg_Nodes (dp_Graph prog) (fn_ref f) = Some n \<and>
     reach_from (calleeNodes (dp_Graph prog))
       (set (collectEntrypointNodes prog) \<union> set (collectRegisteredCallbackNodes prog)) n)"

lemma addNodeOf_nodes:
  "set (addNodeOf g fo out) \<subseteq> set out \<union> ran (cg_Nodes g)"
  by (auto simp: addNodeOf_def ran_def split: option.splits)

lemma fold_addNodeOf_nodes: "set (fold (addNodeOf g) fos out) \<subseteq> set out \<union> ran (cg_Nodes g)"
proof (induction fos arbitrary: out)
  case (Cons fo fos)
  from Cons [of "addNodeOf g fo out"] addNodeOf_nodes [of g fo out] show ?case by auto
qed simp

lemma reachableNodes_live:
  assumes "nodes_closed prog"
  shows "nodeReachable (dp_Graph prog) (reachableNodes prog) f \<longleftrightarrow> live prog f"
proof -
  have fg: "finite_graph (calleeNodes (dp_Graph prog)) (set (dp_Nodes prog))"
    using assms by unfold_locales (auto simp: nodes_closed_def)
  have "ran (cg_Nodes (dp_Graph prog)) \<subseteq> set (dp_Nodes prog)"
    using assms by (auto simp: nodes_closed_def ran_def)
  then have "set (collectEntrypointNodes prog @ collectRegisteredCallbackNodes prog) \<subseteq> set (dp_Nodes prog)"
    using fold_addNodeOf_nodes [of "dp_Graph prog" _ "[]"]
    unfolding collectEntrypointNodes_def collectRegisteredCallbackNodes_def by auto
  then have "set (reachableNodes prog) = {n. reach_from (calleeNodes (dp_Graph prog))
      (set (collectEntrypointNodes prog) \<union> set (collectRegisteredCallbackNodes prog)) n}"
    unfolding reachableNodes_def
    using finite_graph.visitAll_reaches(1) [OF fg] by (simp add: card_length le_imp_less_Suc)
  then show ?thesis by (auto simp: nodeReachable_def live_def split: option.splits)
qed

text \<open>What the classification loop adds.\<close>

definition reportable :: "call_graph \<Rightarrow> nat list \<Rightarrow> string \<Rightarrow> body_func \<Rightarrow> bool" where
  "reportable g reached mode f \<longleftrightarrow> (\<exists>k. deadKind g reached f = Some k \<and> (k = DeadCodeUnreachable \<longrightarrow> mode = DeadCodeAuditMode))"

lemma classify_fold:
  "fold (classify g reached callbacks mode) fs (dead, s) = (dead', s') \<Longrightarrow>
     dead' = dead @ map (\<lambda>f. newDeadFunction g reached callbacks mode f (the (deadKind g reached f)))
                (filter (reportable g reached mode) fs)
   \<and> int (length dead') + du_FilteredUnreachable s' =
     int (length dead) + du_FilteredUnreachable s + int (length (filter (\<lambda>f. deadKind g reached f \<noteq> None) fs))"
proof (induction fs arbitrary: dead s)
  case (Cons f fs)
  obtain d1 s1 where 1: "classify g reached callbacks mode f (dead, s) = (d1, s1)" by fastforce
  with Cons.prems have "fold (classify g reached callbacks mode) fs (d1, s1) = (dead', s')" by simp
  note ih = Cons.IH [OF this]
  show ?case
  proof (cases "deadKind g reached f")
    case None
    with 1 have "d1 = dead" "s1 = s" by (simp_all add: classify_def)
    with ih None show ?thesis by (auto simp: reportable_def)
  next
    case (Some k)
    show ?thesis
    proof (cases "mode \<noteq> DeadCodeAuditMode \<and> k = DeadCodeUnreachable")
      case True
      with 1 Some have "d1 = dead" "s1 = s\<lparr>du_FilteredUnreachable := du_FilteredUnreachable s + 1\<rparr>"
        by (simp_all add: classify_def)
      with ih Some True show ?thesis by (auto simp: reportable_def)
    next
      case False
      with 1 Some have "d1 = dead @ [newDeadFunction g reached callbacks mode f k]"
        "du_FilteredUnreachable s1 = du_FilteredUnreachable s"
        by (auto simp: classify_def Let_def)
      with ih Some False show ?thesis by (auto simp: reportable_def)
    qed
  qed
qed simp

section \<open>Properties\<close>

definition scopeOf :: "(string \<Rightarrow> bool) \<Rightarrow> dead_program \<Rightarrow> string \<Rightarrow> DeadCodeOptions \<Rightarrow> string list" where
  "scopeOf exists prog dir dcOpts = selectedPackageSet exists (dp_Packages prog) dir (SplitPatterns (do_ScopePattern dcOpts))"

definition checkedIn :: "(string \<Rightarrow> bool) \<Rightarrow> dead_program \<Rightarrow> string \<Rightarrow> DeadCodeOptions \<Rightarrow> body_func \<Rightarrow> bool" where
  "checkedIn exists prog dir dcOpts f \<longleftrightarrow> Some f \<in> set (dp_SSAFuncs prog)
     \<and> checkedFunc (dp_Graph prog) (scopeOf exists prog dir dcOpts) (collectRegisteredCallbackNodes prog)
         (do_IncludeExported dcOpts) (Some f)"

lemma reportable_count:
  "length (filter (reportable g reached mode) fs) \<le> length (filter (\<lambda>f. deadKind g reached f \<noteq> None) fs)"
  by (induction fs) (auto simp: reportable_def)

lemma checkedFunc_Some: "checkedFunc g scope callbacks inc fo \<Longrightarrow> fo \<noteq> None"
  by (cases fo) (simp_all add: checkedFunc_def isCandidateForDeadCheck_def)

lemma map_the_filter:
  assumes "\<And>x. P x \<Longrightarrow> x \<noteq> None"
  shows "f \<in> set (map the (filter P xs)) \<longleftrightarrow> Some f \<in> set xs \<and> P (Some f)"
  using assms by (force simp: image_iff)

lemma FindDeadCode_run:
  fixes dcOpts :: DeadCodeOptions and prog :: dead_program and dir :: string and exists :: "string \<Rightarrow> bool"
  assumes "no_paging opts"
  defines "mode \<equiv> if do_Mode dcOpts = '''' then DeadCodePrecisionMode else do_Mode dcOpts"
    and "reached \<equiv> reachableNodes prog"
    and "checked \<equiv> map the (filter (checkedFunc (dp_Graph prog) (scopeOf exists prog dir dcOpts)
                     (collectRegisteredCallbackNodes prog) (do_IncludeExported dcOpts)) (dp_SSAFuncs prog))"
  shows "\<exists>r. FindDeadCodeWithOptions pg exists prog dir pattern dcOpts opts = Inr r
     \<and> dc_Functions r = sort_slice dead_less (map (\<lambda>f. newDeadFunction (dp_Graph prog) reached
           (collectRegisteredCallbackNodes prog) mode f (the (deadKind (dp_Graph prog) reached f)))
          (filter (reportable (dp_Graph prog) reached mode) checked))
     \<and> dc_Total r = int (length (filter (\<lambda>f. deadKind (dp_Graph prog) reached f \<noteq> None) checked))"
proof -
  obtain dead s where f: "fold (classify (dp_Graph prog) reached (collectRegisteredCallbackNodes prog) mode) checked
      ([], emptyDeadSummary) = (dead, s)" by fastforce
  show ?thesis
    using classify_fold [OF f] f
    unfolding FindDeadCodeWithOptions_def Let_def page_items_all [OF assms(1)]
    by (auto simp: mode_def [symmetric] reached_def [symmetric] checked_def [symmetric, unfolded scopeOf_def]
        emptyDeadSummary_def)
qed

text \<open>
  C23: without paging, the dead code report lists exactly those functions that pass the filters
  and are either called by nobody, or, in audit mode, called but not reachable from an entrypoint
  or a registered callback; each with its kind, sorted by kind, package and name. The total also
  counts the unreachable functions that precision mode leaves out.
\<close>

theorem dead_code_exact:
  assumes "nodes_closed prog" "no_paging opts"
  shows "\<exists>r. FindDeadCodeWithOptions pg exists prog dir pattern dcOpts opts = Inr r
     \<and> (\<forall>name kind. (\<exists>d \<in> set (dc_Functions r). df_Function d = name \<and> df_Kind d = kind) \<longleftrightarrow>
          (\<exists>f. checkedIn exists prog dir dcOpts f \<and> fn_String f = name
             \<and> (kind = DeadCodeUnreferenced \<and> inboundCount (dp_Graph prog) f = 0
                \<or> kind = DeadCodeUnreachable \<and> inboundCount (dp_Graph prog) f \<noteq> 0 \<and> \<not> live prog f
                  \<and> do_Mode dcOpts = DeadCodeAuditMode)))
     \<and> sorted (map dead_key (dc_Functions r)) \<and> dc_Total r \<ge> int (length (dc_Functions r))"
proof -
  let ?g = "dp_Graph prog" and ?r = "reachableNodes prog"
  let ?mode = "if do_Mode dcOpts = '''' then DeadCodePrecisionMode else do_Mode dcOpts"
  let ?checked = "map the (filter (checkedFunc ?g (scopeOf exists prog dir dcOpts)
                     (collectRegisteredCallbackNodes prog) (do_IncludeExported dcOpts)) (dp_SSAFuncs prog))"
  obtain r where r: "FindDeadCodeWithOptions pg exists prog dir pattern dcOpts opts = Inr r"
    "dc_Functions r = sort_slice dead_less (map (\<lambda>f. newDeadFunction ?g ?r
        (collectRegisteredCallbackNodes prog) ?mode f (the (deadKind ?g ?r f))) (filter (reportable ?g ?r ?mode) ?checked))"
    "dc_Total r = int (length (filter (\<lambda>f. deadKind ?g ?r f \<noteq> None) ?checked))"
    using FindDeadCode_run [OF assms(2)] by blast
  have checked: "f \<in> set ?checked \<longleftrightarrow> checkedIn exists prog dir dcOpts f" for f
    unfolding checkedIn_def by (rule map_the_filter) (rule checkedFunc_Some)
  have mode: "?mode = DeadCodeAuditMode \<longleftrightarrow> do_Mode dcOpts = DeadCodeAuditMode"
    by (auto simp: DeadCodeAuditMode_def DeadCodePrecisionMode_def)
  have kinds: "reportable ?g ?r ?mode f \<and> the (deadKind ?g ?r f) = kind \<longleftrightarrow>
      kind = DeadCodeUnreferenced \<and> inboundCount ?g f = 0
      \<or> kind = DeadCodeUnreachable \<and> inboundCount ?g f \<noteq> 0 \<and> \<not> live prog f \<and> do_Mode dcOpts = DeadCodeAuditMode" for f kind
    unfolding reportable_def mode deadKind_def reachableNodes_live [OF assms(1)]
    by (auto simp: DeadCodeUnreferenced_def DeadCodeUnreachable_def)
  have sel: "df_Function (newDeadFunction g x c m f k) = fn_String f" "df_Kind (newDeadFunction g x c m f k) = k" for g x c m f k
    by (simp_all add: newDeadFunction_def Let_def split: prod.splits)
  have "(\<exists>d \<in> set (dc_Functions r). df_Function d = name \<and> df_Kind d = kind) \<longleftrightarrow>
      (\<exists>f. checkedIn exists prog dir dcOpts f \<and> fn_String f = name \<and> (reportable ?g ?r ?mode f \<and> the (deadKind ?g ?r f) = kind))"
    for name kind
  proof -
    have "(\<exists>d \<in> set (dc_Functions r). df_Function d = name \<and> df_Kind d = kind) \<longleftrightarrow>
      (\<exists>f \<in> set ?checked. reportable ?g ?r ?mode f \<and> fn_String f = name \<and> the (deadKind ?g ?r f) = kind)"
      unfolding r(2) set_sort_slice set_map [of _ "filter _ _"] set_filter [of "reportable _ _ _"] bex_simps(7)
      by (simp only: sel) blast
    then show ?thesis unfolding Bex_def checked by blast
  qed
  moreover have "dc_Total r \<ge> int (length (dc_Functions r))"
    unfolding r(2,3) length_sort_slice length_map of_nat_le_iff by (rule reportable_count)
  moreover have "sorted (map dead_key (dc_Functions r))" unfolding r(2) by (rule dead_functions.sorted_keys)
  ultimately show ?thesis unfolding kinds using r(1) by blast
qed

text \<open>Two functions: \<open>main\<close>, and \<open>helper\<close>, which nobody calls.\<close>

definition sample_body :: "nat \<Rightarrow> string \<Rightarrow> body_func" where
  "sample_body r name = \<lparr>fn_ref = r, fn_String = ''app.'' @ name, fn_Name = name, fn_Recv = None,
     fn_Pkg = Some ''app'', fn_Synthetic = [], bf_PkgName = Some ''main'', bf_Nested = False, bf_Origin = None,
     bf_Pos = (''app.go'', 3), bf_Blocks = []\<rparr>"

definition sample_dead :: dead_program where
  "sample_dead = \<lparr>dp_Packages = [], dp_SSAFuncs = [Some (sample_body 0 ''main''), Some (sample_body 1 ''helper'')],
     dp_Graph = \<lparr>cg_Nodes = (\<lambda>n. if n \<le> 1 then Some n else None), cg_Func = (\<lambda>_. None), cg_Out = (\<lambda>_. []), cg_In = (\<lambda>_. [])\<rparr>,
     dp_Nodes = [0, 1]\<rparr>"

definition sample_dead_opts :: DeadCodeOptions where
  "sample_dead_opts = \<lparr>do_IncludeExported = False, do_Mode = [], do_ScopePattern = []\<rparr>"

theorem dead_code_exact_witness:
  "\<exists>r. FindDeadCodeWithOptions sample_paging (\<lambda>_. True) sample_dead ''/w'' ''./...'' sample_dead_opts plain_opts = Inr r
     \<and> (\<exists>d \<in> set (dc_Functions r). df_Function d = ''app.helper'' \<and> df_Kind d = DeadCodeUnreferenced)"
proof -
  have "nodes_closed sample_dead" by (auto simp: nodes_closed_def sample_dead_def calleeNodes_def split: if_splits)
  moreover have "no_paging plain_opts" by (simp add: no_paging_def plain_opts_def)
  moreover have "checkedIn (\<lambda>_. True) sample_dead ''/w'' sample_dead_opts (sample_body 1 ''helper'')"
    unfolding checkedIn_def by code_simp
  moreover have "fn_String (sample_body 1 ''helper'') = ''app.helper''"
    "inboundCount (dp_Graph sample_dead) (sample_body 1 ''helper'') = 0" by code_simp+
  ultimately show ?thesis
    using dead_code_exact [of sample_dead plain_opts sample_paging "\<lambda>_. True" "''/w''" "''./...''" sample_dead_opts]
    by blast
qed

end
