(* ===== verification/Workspace_Cache.thy ===== *)
theory Workspace_Cache
  imports Patterns
begin

text \<open>
  The workspace of \<^verbatim>\<open>analyzer/workspace.go\<close>: an LRU cache of loaded programs, a map from keys
  to elements of a list that has the most recently used entry in front. An element is a pointer
  in Go and a number here; the map and the list are separate parts of the state and are updated
  separately, as in the code. Every operation below runs under the workspace's mutex. Loading
  programs, the clock and SHA-256 are arguments.
\<close>

section \<open>Data\<close>

datatype LoadMode = LoadModeSyntax | LoadModeTypes | LoadModeSSA

fun mode_num :: "LoadMode \<Rightarrow> nat" where
  "mode_num LoadModeSyntax = 0"
| "mode_num LoadModeTypes = 1"
| "mode_num LoadModeSSA = 2"

lemma mode_num_inj [simp]: "mode_num p = mode_num q \<longleftrightarrow> p = q"
  by (cases p; cases q) auto

instantiation LoadMode :: linorder
begin

definition less_LoadMode :: "LoadMode \<Rightarrow> LoadMode \<Rightarrow> bool" where
  "less_LoadMode p q \<longleftrightarrow> mode_num p < mode_num q"

definition less_eq_LoadMode :: "LoadMode \<Rightarrow> LoadMode \<Rightarrow> bool" where
  "less_eq_LoadMode p q \<longleftrightarrow> mode_num p \<le> mode_num q"

instance
  by standard (auto simp: less_LoadMode_def less_eq_LoadMode_def)

end

text \<open>
  Of a loaded program the cache looks at its mode and the sizes of two lists. \<open>lp_version\<close> is
  the state of the sources that was read, which the code does not record.
\<close>

record LoadedProgram =
  lp_Packages :: "string list"
  lp_SSAFuncs :: "string list"
  lp_Mode :: LoadMode
  lp_version :: nat

record cacheEntry =
  ce_key :: string
  ce_rootPath :: string
  ce_patterns :: "string list"
  ce_prog :: LoadedProgram
  ce_lastAccess :: int

record CacheRecord =
  cr_Key :: string
  cr_RootPath :: string
  cr_PackagePatterns :: "string list"
  cr_PackagesLoaded :: nat
  cr_FunctionsLoaded :: nat
  cr_LastAccess :: int

record Workspace =
  ws_capacity :: int
  ws_ttl :: int
  ws_cache :: "string \<rightharpoonup> nat"
  ws_order :: "(nat \<times> cacheEntry) list"
  ws_next :: nat

definition defaultCacheCapacity :: int where
  "defaultCacheCapacity = 2"

definition NewWorkspace :: "string \<Rightarrow> Workspace" where
  "NewWorkspace env =
     (let raw = TrimSpace env;
          capacity = (if raw \<noteq> '''' then
             (case Atoi raw of Some n \<Rightarrow> if n \<ge> 1 then n else defaultCacheCapacity
              | None \<Rightarrow> defaultCacheCapacity) else defaultCacheCapacity)
      in \<lparr>ws_capacity = capacity, ws_ttl = 900000000000, ws_cache = Map.empty, ws_order = [], ws_next = 0\<rparr>)"

definition SetTTL :: "int \<Rightarrow> Workspace \<Rightarrow> Workspace" where
  "SetTTL d w = w\<lparr>ws_ttl := d\<rparr>"

section \<open>Eviction\<close>

text \<open>Removing the back of the list, with its key.\<close>

definition dropBack :: "Workspace \<Rightarrow> Workspace" where
  "dropBack w = w\<lparr>ws_cache := (ws_cache w)(ce_key (snd (last (ws_order w))) := None),
     ws_order := butlast (ws_order w)\<rparr>"

function evictLocked :: "Workspace \<Rightarrow> Workspace" where
  "evictLocked w =
     (if int (length (ws_order w)) > ws_capacity w then
        (if ws_order w = [] then w else evictLocked (dropBack w))
      else w)"
  by pat_completeness auto
termination
  by (relation "measure (\<lambda>w. length (ws_order w))") (auto simp: dropBack_def)

declare evictLocked.simps [simp del]

function sweepLoop :: "int \<Rightarrow> Workspace \<Rightarrow> Workspace" where
  "sweepLoop now w =
     (if ws_order w = [] then w
      else if now - ce_lastAccess (snd (last (ws_order w))) > ws_ttl w then sweepLoop now (dropBack w)
      else w)"
  by pat_completeness auto
termination
  by (relation "measure (\<lambda>(now, w). length (ws_order w))") (auto simp: dropBack_def)

declare sweepLoop.simps [simp del]

definition sweep :: "int \<Rightarrow> Workspace \<Rightarrow> Workspace" where
  "sweep now w = (if ws_ttl w \<le> 0 then w else sweepLoop now w)"

definition SetCapacity :: "int \<Rightarrow> Workspace \<Rightarrow> Workspace" where
  "SetCapacity n w = evictLocked (w\<lparr>ws_capacity := (if n < 1 then 1 else n)\<rparr>)"

definition wsStats :: "Workspace \<Rightarrow> int \<times> int" where
  "wsStats w = (int (length (ws_order w)), ws_capacity w)"

definition wsStatus :: "Workspace \<Rightarrow> int \<times> int \<times> CacheRecord list" where
  "wsStatus w = (int (length (ws_order w)), ws_capacity w,
     map (\<lambda>(_, e). \<lparr>cr_Key = ce_key e, cr_RootPath = ce_rootPath e, cr_PackagePatterns = ce_patterns e,
        cr_PackagesLoaded = length (lp_Packages (ce_prog e)),
        cr_FunctionsLoaded = length (lp_SSAFuncs (ce_prog e)), cr_LastAccess = ce_lastAccess e\<rparr>) (ws_order w))"

section \<open>Lookup and insertion\<close>

definition cacheKeyInput :: "string \<Rightarrow> string list \<Rightarrow> string" where
  "cacheKeyInput dir patterns = dir @ concat (map (\<lambda>p. CHR 0x00 # p) (sort patterns))"

definition makeCacheKey :: "(string \<Rightarrow> string) \<Rightarrow> string \<Rightarrow> string list \<Rightarrow> string" where
  "makeCacheKey sha256 dir patterns = hex_encode (take 8 (sha256 (cacheKeyInput dir patterns)))"

text \<open>The entry behind an element, changed and moved to the front.\<close>

definition touch :: "nat \<Rightarrow> (cacheEntry \<Rightarrow> cacheEntry) \<Rightarrow> Workspace \<Rightarrow> Workspace" where
  "touch el f w =
     (case map_of (ws_order w) el of
        None \<Rightarrow> w
      | Some e \<Rightarrow> w\<lparr>ws_order := (el, f e) # filter (\<lambda>(el', _). el' \<noteq> el) (ws_order w)\<rparr>)"

text \<open>The first locked section of \<^verbatim>\<open>getOrLoad\<close>: a hit, or \<open>None\<close>.\<close>

definition cacheHit :: "string \<Rightarrow> LoadMode \<Rightarrow> int \<Rightarrow> Workspace \<Rightarrow> (LoadedProgram \<times> Workspace) option" where
  "cacheHit key mode now w =
     (case ws_cache w key of
        None \<Rightarrow> None
      | Some el \<Rightarrow>
          (case map_of (ws_order w) el of
             None \<Rightarrow> None
           | Some e \<Rightarrow>
               if lp_Mode (ce_prog e) \<ge> mode
               then Some (ce_prog e, touch el (\<lambda>e. e\<lparr>ce_lastAccess := now\<rparr>) w)
               else None))"

text \<open>The second one, with the program that was loaded.\<close>

definition cacheInsert ::
  "string \<Rightarrow> string \<Rightarrow> string list \<Rightarrow> LoadMode \<Rightarrow> LoadedProgram \<Rightarrow> int \<Rightarrow> Workspace \<Rightarrow> LoadedProgram \<times> Workspace" where
  "cacheInsert key dir patterns mode prog now w =
     (case cacheHit key mode now w of
        Some r \<Rightarrow> r
      | None \<Rightarrow>
          (case ws_cache w key of
             Some el \<Rightarrow> (prog, touch el (\<lambda>e. e\<lparr>ce_prog := prog, ce_lastAccess := now\<rparr>) w)
           | None \<Rightarrow>
               (prog, evictLocked (w\<lparr>ws_cache := (ws_cache w)(key \<mapsto> ws_next w),
                  ws_order := (ws_next w, \<lparr>ce_key = key, ce_rootPath = dir, ce_patterns = patterns,
                     ce_prog = prog, ce_lastAccess = now\<rparr>) # ws_order w,
                  ws_next := Suc (ws_next w)\<rparr>))))"

text \<open>The key inputs of a request.\<close>

definition requestPatterns :: "(string \<Rightarrow> bool) \<Rightarrow> string \<Rightarrow> string \<Rightarrow> string list" where
  "requestPatterns exists dir pattern = normalizePatternsForDir exists dir (SplitPatterns pattern)"

definition getOrLoad ::
  "(string \<Rightarrow> bool) \<Rightarrow> (string \<Rightarrow> string) \<Rightarrow> (string \<Rightarrow> string list \<Rightarrow> LoadMode \<Rightarrow> string + LoadedProgram) \<Rightarrow>
   int \<times> int \<Rightarrow> string \<Rightarrow> string \<Rightarrow> LoadMode \<Rightarrow> Workspace \<Rightarrow> (string + LoadedProgram) \<times> Workspace" where
  "getOrLoad exists sha256 loadProgram ts dir pattern mode w =
     (let patterns = requestPatterns exists dir pattern;
          key = makeCacheKey sha256 dir patterns
      in case cacheHit key mode (fst ts) w of
           Some (prog, w) \<Rightarrow> (Inr prog, w)
         | None \<Rightarrow>
             (case loadProgram dir patterns mode of
                Inl e \<Rightarrow> (Inl e, w)
              | Inr prog \<Rightarrow> (case cacheInsert key dir patterns mode prog (snd ts) w of
                               (prog, w) \<Rightarrow> (Inr prog, w))))"

section \<open>Removal\<close>

definition removeKey :: "string \<Rightarrow> Workspace \<Rightarrow> Workspace \<times> bool" where
  "removeKey key w =
     (case ws_cache w key of
        Some el \<Rightarrow> (w\<lparr>ws_cache := (ws_cache w)(key := None),
                      ws_order := filter (\<lambda>(el', _). el' \<noteq> el) (ws_order w)\<rparr>, True)
      | None \<Rightarrow> (w, False))"

definition Invalidate ::
  "(string \<Rightarrow> bool) \<Rightarrow> (string \<Rightarrow> string) \<Rightarrow> string \<Rightarrow> string \<Rightarrow> Workspace \<Rightarrow> Workspace" where
  "Invalidate exists sha256 dir pattern w =
     fst (removeKey (makeCacheKey sha256 dir (requestPatterns exists dir pattern)) w)"

definition wsClear ::
  "(string \<Rightarrow> bool) \<Rightarrow> (string \<Rightarrow> string) \<Rightarrow> string \<Rightarrow> string \<Rightarrow> Workspace \<Rightarrow> Workspace \<times> bool" where
  "wsClear exists sha256 dir pattern w =
     removeKey (makeCacheKey sha256 dir (requestPatterns exists dir pattern)) w"

definition ClearAll :: "Workspace \<Rightarrow> Workspace \<times> int" where
  "ClearAll w = (w\<lparr>ws_cache := Map.empty, ws_order := []\<rparr>, int (length (ws_order w)))"

definition Reload ::
  "(string \<Rightarrow> bool) \<Rightarrow> (string \<Rightarrow> string) \<Rightarrow> (string \<Rightarrow> string list \<Rightarrow> LoadMode \<Rightarrow> string + LoadedProgram) \<Rightarrow>
   int \<times> int \<Rightarrow> string \<Rightarrow> string \<Rightarrow> Workspace \<Rightarrow> (string + LoadedProgram) \<times> Workspace" where
  "Reload exists sha256 loadProgram ts dir pattern w =
     getOrLoad exists sha256 loadProgram ts dir pattern LoadModeTypes
       (Invalidate exists sha256 dir pattern w)"

section \<open>The map and the list agree\<close>

definition agrees :: "Workspace \<Rightarrow> bool" where
  "agrees w \<longleftrightarrow> distinct (map fst (ws_order w)) \<and> distinct (map (ce_key \<circ> snd) (ws_order w))
     \<and> (\<forall>k el. ws_cache w k = Some el \<longleftrightarrow> (\<exists>e. (el, e) \<in> set (ws_order w) \<and> ce_key e = k))
     \<and> (\<forall>el \<in> fst ` set (ws_order w). el < ws_next w)"

definition recent_first :: "int \<Rightarrow> Workspace \<Rightarrow> bool" where
  "recent_first now w \<longleftrightarrow> sorted_wrt (\<lambda>x y. ce_lastAccess (snd y) \<le> ce_lastAccess (snd x)) (ws_order w)
     \<and> (\<forall>x \<in> set (ws_order w). ce_lastAccess (snd x) \<le> now)"

definition within_capacity :: "Workspace \<Rightarrow> bool" where
  "within_capacity w \<longleftrightarrow> 1 \<le> ws_capacity w \<and> int (length (ws_order w)) \<le> ws_capacity w"

text \<open>The invariant at time \<open>now\<close>.\<close>

definition cache_inv :: "int \<Rightarrow> Workspace \<Rightarrow> bool" where
  "cache_inv now w \<longleftrightarrow> agrees w \<and> recent_first now w \<and> within_capacity w"

lemma agrees_key_unique:
  "agrees w \<Longrightarrow> (el, e) \<in> set (ws_order w) \<Longrightarrow> (el', e') \<in> set (ws_order w) \<Longrightarrow> ce_key e = ce_key e' \<Longrightarrow> el = el'"
  by (metis agrees_def option.inject)

lemma agrees_map_of:
  "agrees w \<Longrightarrow> map_of (ws_order w) el = Some e \<longleftrightarrow> (el, e) \<in> set (ws_order w)"
  by (simp add: agrees_def)

lemma agrees_cache:
  "agrees w \<Longrightarrow> ws_cache w k = Some el \<Longrightarrow> \<exists>e. map_of (ws_order w) el = Some e \<and> ce_key e = k"
  by (auto simp: agrees_map_of) (auto simp: agrees_def)

lemma order_split_last: "xs \<noteq> [] \<Longrightarrow> set xs = insert (last xs) (set (butlast xs))"
  by (metis append_butlast_last_id list.set(2) list.set(1) set_append sup_bot.right_neutral Un_insert_right)

text \<open>Removing any one entry, with its key, keeps the agreement.\<close>

lemma agrees_remove:
  assumes "agrees w" "(el, e) \<in> set (ws_order w)" "set ord = set (ws_order w) - {(el, e)}"
    "distinct (map fst ord)" "distinct (map (ce_key \<circ> snd) ord)"
  shows "agrees (w\<lparr>ws_cache := (ws_cache w)(ce_key e := None), ws_order := ord\<rparr>)"
proof -
  have cache: "ws_cache w k = Some el' \<longleftrightarrow> (\<exists>e'. (el', e') \<in> set (ws_order w) \<and> ce_key e' = k)" for k el'
    using assms(1) by (auto simp: agrees_def)
  have other: "ce_key e' \<noteq> ce_key e" if "(el', e') \<in> set ord" for el' e'
  proof
    assume k: "ce_key e' = ce_key e"
    have in_w: "(el', e') \<in> set (ws_order w)" "(el', e') \<noteq> (el, e)" using that assms(3) by auto
    with agrees_key_unique [OF assms(1) in_w(1) assms(2) k] agrees_map_of [OF assms(1)] assms(2)
    show False by (metis option.inject)
  qed
  have "(if k = ce_key e then None else ws_cache w k) = Some el' \<longleftrightarrow> (\<exists>e'. (el', e') \<in> set ord \<and> ce_key e' = k)" for k el'
    using other assms(3) cache by (cases "k = ce_key e") auto
  moreover have "\<forall>el' \<in> fst ` set ord. el' < ws_next w"
    using assms(1,3) by (auto simp: agrees_def)
  ultimately show ?thesis
    using assms(4,5) by (simp add: agrees_def)
qed

lemma agrees_dropBack:
  assumes "agrees w" "ws_order w \<noteq> []"
  shows "agrees (dropBack w)"
proof -
  obtain el e where l: "last (ws_order w) = (el, e)" by fastforce
  have o: "ws_order w = butlast (ws_order w) @ [(el, e)]"
    using assms(2) l by (metis append_butlast_last_id)
  have "distinct (map fst (butlast (ws_order w) @ [(el, e)]))"
    "distinct (map (ce_key \<circ> snd) (butlast (ws_order w) @ [(el, e)]))"
    using assms(1) o by (simp_all add: agrees_def)
  moreover from this have "set (butlast (ws_order w)) = set (ws_order w) - {(el, e)}"
    by (subst (2) o) force
  moreover have "(el, e) \<in> set (ws_order w)" by (subst o) simp
  ultimately show ?thesis
    using agrees_remove [OF assms(1), of el e "butlast (ws_order w)"] l by (simp add: dropBack_def)
qed

lemma order_dropBack [simp]: "ws_order (dropBack w) = butlast (ws_order w)"
  "ws_capacity (dropBack w) = ws_capacity w" "ws_ttl (dropBack w) = ws_ttl w"
  by (simp_all add: dropBack_def)

text \<open>What the two loops leave: a prefix of the list.\<close>

lemma evictLocked_spec:
  "agrees w \<Longrightarrow> 0 \<le> ws_capacity w \<Longrightarrow>
     ws_order (evictLocked w) = take (nat (ws_capacity w)) (ws_order w) \<and> agrees (evictLocked w)
     \<and> ws_capacity (evictLocked w) = ws_capacity w"
proof (induction w rule: evictLocked.induct)
  case (1 w)
  show ?case
  proof (cases "int (length (ws_order w)) > ws_capacity w")
    case True
    then have ne: "ws_order w \<noteq> []" using 1 by auto
    have "take (nat (ws_capacity w)) (butlast (ws_order w)) = take (nat (ws_capacity w)) (ws_order w)"
      using True "1.prems" by (simp add: take_butlast)
    with 1 ne True agrees_dropBack [OF _ ne] show ?thesis
      by (subst (1 2 3) evictLocked.simps) simp
  next
    case False
    then have "length (ws_order w) \<le> nat (ws_capacity w)" by linarith
    with False 1 show ?thesis by (subst (1 2 3) evictLocked.simps) simp
  qed
qed

lemma sweepLoop_spec:
  "agrees w \<Longrightarrow> agrees (sweepLoop now w) \<and> ws_capacity (sweepLoop now w) = ws_capacity w
     \<and> ws_order (sweepLoop now w)
       = rev (dropWhile (\<lambda>x. now - ce_lastAccess (snd x) > ws_ttl w) (rev (ws_order w)))"
proof (induction now w rule: sweepLoop.induct)
  case (1 now w)
  show ?case
  proof (cases "ws_order w" rule: rev_cases)
    case Nil
    with 1 show ?thesis by (subst (1 2 3) sweepLoop.simps) simp
  next
    case (snoc ys y)
    show ?thesis
    proof (cases "now - ce_lastAccess (snd (last (ws_order w))) > ws_ttl w")
      case True
      with 1 snoc agrees_dropBack [of w] show ?thesis
        by (subst (1 2 3) sweepLoop.simps) simp
    next
      case False
      with 1 snoc show ?thesis
        by (subst (1 2 3) sweepLoop.simps) simp
    qed
  qed
qed

lemma touch_order:
  "agrees w \<Longrightarrow> (el, e) \<in> set (ws_order w) \<Longrightarrow>
     touch el f w = w\<lparr>ws_order := (el, f e) # filter (\<lambda>(el', _). el' \<noteq> el) (ws_order w)\<rparr>"
  by (simp add: touch_def agrees_map_of [THEN iffD2])

lemma filter_el:
  assumes "agrees w" "(el, e) \<in> set (ws_order w)"
  shows "set (filter (\<lambda>(el', _). el' \<noteq> el) (ws_order w)) = set (ws_order w) - {(el, e)}"
  using assms agrees_map_of [OF assms(1)] by (auto, metis option.inject)

lemma agrees_touch:
  assumes "agrees w" "(el, e) \<in> set (ws_order w)" "ce_key (f e) = ce_key e"
  shows "agrees (touch el f w)"
proof -
  let ?r = "filter (\<lambda>(el', _). el' \<noteq> el) (ws_order w)"
  note set = filter_el [OF assms(1,2)]
  have d: "distinct (map fst ?r)" "distinct (map (ce_key \<circ> snd) ?r)"
    using assms(1) by (auto simp: agrees_def distinct_map inj_on_def)
  have "ce_key e \<notin> (ce_key \<circ> snd) ` set ?r"
  proof
    assume "ce_key e \<in> (ce_key \<circ> snd) ` set ?r"
    then obtain el' e' where "(el', e') \<in> set ?r" "ce_key e' = ce_key e" by auto
    with agrees_key_unique [OF assms(1) _ assms(2)] show False by auto
  qed
  moreover have "el \<notin> fst ` set ?r" by auto
  moreover have "ws_cache w k = Some el' \<longleftrightarrow> (\<exists>e'. (el', e') \<in> insert (el, f e) (set ?r) \<and> ce_key e' = k)" for k el'
    using assms set by (auto simp: agrees_def)
  ultimately show ?thesis
    using assms d by (auto simp: touch_order [OF assms(1,2)] agrees_def o_def)
qed

text \<open>Pushing an entry with a fresh key.\<close>

definition pushFront :: "cacheEntry \<Rightarrow> Workspace \<Rightarrow> Workspace" where
  "pushFront e w = w\<lparr>ws_cache := (ws_cache w)(ce_key e \<mapsto> ws_next w),
     ws_order := (ws_next w, e) # ws_order w, ws_next := Suc (ws_next w)\<rparr>"

lemma agrees_pushFront:
  assumes "agrees w" "ws_cache w (ce_key e) = None"
  shows "agrees (pushFront e w)"
proof -
  have fresh: "ws_next w \<notin> fst ` set (ws_order w)" using assms(1) by (auto simp: agrees_def)
  have key: "ce_key e' \<noteq> ce_key e" if "(el, e') \<in> set (ws_order w)" for el e'
    using that assms by (metis agrees_def option.distinct(1))
  have "((ws_cache w)(ce_key e \<mapsto> ws_next w)) k = Some el \<longleftrightarrow>
     (\<exists>e'. (el, e') \<in> insert (ws_next w, e) (set (ws_order w)) \<and> ce_key e' = k)" for k el
    using assms(1) key by (cases "k = ce_key e") (auto simp: agrees_def)
  with assms(1) fresh key show ?thesis
    by (force simp: agrees_def pushFront_def)
qed

lemma cacheInsert_eq:
  "cacheInsert key dir patterns mode prog now w =
     (case cacheHit key mode now w of
        Some r \<Rightarrow> r
      | None \<Rightarrow>
          (case ws_cache w key of
             Some el \<Rightarrow> (prog, touch el (\<lambda>e. e\<lparr>ce_prog := prog, ce_lastAccess := now\<rparr>) w)
           | None \<Rightarrow> (prog, evictLocked (pushFront \<lparr>ce_key = key, ce_rootPath = dir, ce_patterns = patterns,
                     ce_prog = prog, ce_lastAccess = now\<rparr> w))))"
  by (simp add: cacheInsert_def pushFront_def split: option.split)

section \<open>The cache as an abstract LRU list\<close>

text \<open>What the cache promises: a list of keys and programs, most recent first.\<close>

definition lru_of :: "Workspace \<Rightarrow> (string \<times> LoadedProgram) list" where
  "lru_of w = map (\<lambda>(_, e). (ce_key e, ce_prog e)) (ws_order w)"

definition lru_use :: "nat \<Rightarrow> string \<Rightarrow> LoadedProgram \<Rightarrow> (string \<times> LoadedProgram) list \<Rightarrow> (string \<times> LoadedProgram) list" where
  "lru_use cap k p xs = take cap ((k, p) # filter (\<lambda>(k', _). k' \<noteq> k) xs)"

lemma lru_filter:
  assumes "agrees w" "(el, e) \<in> set (ws_order w)"
  shows "map (\<lambda>(_, e). (ce_key e, ce_prog e)) (filter (\<lambda>(el', _). el' \<noteq> el) (ws_order w))
       = filter (\<lambda>(k', _). k' \<noteq> ce_key e) (lru_of w)"
proof -
  have "el' \<noteq> el \<longleftrightarrow> ce_key e' \<noteq> ce_key e" if "(el', e') \<in> set (ws_order w)" for el' e'
    using that assms agrees_key_unique [OF assms(1)] agrees_map_of [OF assms(1)] by (metis option.inject)
  then show ?thesis
    unfolding lru_of_def filter_map
    by (intro arg_cong [where f = "map _"] filter_cong refl) (auto simp: o_def split: prod.split)
qed

lemma length_filter_key:
  "distinct (map fst xs) \<Longrightarrow> (el, e) \<in> set xs \<Longrightarrow> Suc (length (filter (\<lambda>(el', _). el' \<noteq> el) xs)) = length xs"
proof (induction xs)
  case (Cons x xs)
  show ?case
  proof (cases "x = (el, e)")
    case True
    with Cons.prems have "filter (\<lambda>(el', _). el' \<noteq> el) xs = xs"
      by (intro filter_True) force
    with True show ?thesis by simp
  next
    case False
    with Cons.prems have in_xs: "(el, e) \<in> set xs" by auto
    then have "el \<in> fst ` set xs" by force
    with Cons.prems(1) have "fst x \<noteq> el" by auto
    with in_xs Cons show ?thesis by (simp add: split_def)
  qed
qed simp

lemma agrees_absent:
  "agrees w \<Longrightarrow> ws_cache w k = None \<Longrightarrow> (el, e) \<in> set (ws_order w) \<Longrightarrow> ce_key e \<noteq> k"
  by (metis agrees_def option.distinct(1))

lemma lru_touch:
  assumes "agrees w" "(el, e) \<in> set (ws_order w)" "within_capacity w" "ce_key (f e) = ce_key e"
  shows "lru_of (touch el f w) = lru_use (nat (ws_capacity w)) (ce_key e) (ce_prog (f e)) (lru_of w)"
    "length (ws_order (touch el f w)) = length (ws_order w)"
proof -
  let ?r = "filter (\<lambda>(el', _). el' \<noteq> el) (ws_order w)"
  have len: "Suc (length ?r) = length (ws_order w)"
    by (rule length_filter_key [OF _ assms(2)]) (use assms(1) in \<open>simp add: agrees_def\<close>)
  then show "length (ws_order (touch el f w)) = length (ws_order w)"
    by (simp add: touch_order [OF assms(1,2)])
  note flt = lru_filter [OF assms(1,2)]
  have "length (filter (\<lambda>(k', _). k' \<noteq> ce_key e) (lru_of w)) = length ?r"
    using arg_cong [OF flt, of length] by simp
  then have "length ((ce_key e, ce_prog (f e)) # filter (\<lambda>(k', _). k' \<noteq> ce_key e) (lru_of w)) \<le> nat (ws_capacity w)"
    using len assms(3) by (simp add: within_capacity_def le_nat_iff)
  then have "lru_use (nat (ws_capacity w)) (ce_key e) (ce_prog (f e)) (lru_of w)
      = (ce_key e, ce_prog (f e)) # filter (\<lambda>(k', _). k' \<noteq> ce_key e) (lru_of w)"
    by (simp only: lru_use_def take_all)
  moreover have "lru_of (touch el f w) = (ce_key e, ce_prog (f e)) # filter (\<lambda>(k', _). k' \<noteq> ce_key e) (lru_of w)"
    using flt assms(4) by (simp add: touch_order [OF assms(1,2)] lru_of_def)
  ultimately show "lru_of (touch el f w) = lru_use (nat (ws_capacity w)) (ce_key e) (ce_prog (f e)) (lru_of w)"
    by simp
qed

lemma recent_touch:
  assumes "agrees w" "(el, e) \<in> set (ws_order w)" "recent_first t w" "t \<le> now" "ce_lastAccess (f e) = now"
  shows "recent_first now (touch el f w)"
  using assms
  by (auto simp: touch_order recent_first_def intro!: sorted_wrt_filter dest: order_trans)

lemma recent_later: "recent_first t w \<Longrightarrow> t \<le> now \<Longrightarrow> recent_first now w"
  by (force simp: recent_first_def)

lemma cacheHit_elem:
  assumes "agrees w" "cacheHit key mode now w = Some (p, w')"
  obtains el e where "ws_cache w key = Some el" "(el, e) \<in> set (ws_order w)" "ce_key e = key"
    "mode \<le> lp_Mode (ce_prog e)" "p = ce_prog e" "w' = touch el (\<lambda>e. e\<lparr>ce_lastAccess := now\<rparr>) w"
proof -
  from assms(2) obtain el where el: "ws_cache w key = Some el"
    by (auto simp: cacheHit_def split: option.splits)
  with agrees_cache [OF assms(1)] obtain e where e: "map_of (ws_order w) el = Some e" "ce_key e = key"
    by blast
  with agrees_map_of [OF assms(1)] have "(el, e) \<in> set (ws_order w)" by blast
  with el e assms(2) show thesis
    by (intro that [of el e]) (auto simp: cacheHit_def split: if_splits)
qed

lemma touch_capacity [simp]: "ws_capacity (touch el f w) = ws_capacity w" "ws_ttl (touch el f w) = ws_ttl w"
  by (auto simp: touch_def split: option.splits)

lemma inv_touch:
  assumes "cache_inv t w" "(el, e) \<in> set (ws_order w)" "t \<le> now" "ce_lastAccess (f e) = now" "ce_key (f e) = ce_key e"
  shows "cache_inv now (touch el f w)"
  using assms agrees_touch [of w el e f] recent_touch [of w el e t now f] lru_touch(2) [of w el e f]
  by (simp add: cache_inv_def within_capacity_def)

lemma inv_hit [inv_intros]:
  assumes "cache_inv t w" "t \<le> now" "cacheHit key mode now w = Some (p, w')"
  shows "cache_inv now w'"
proof -
  have "agrees w" using assms(1) by (simp add: cache_inv_def)
  from cacheHit_elem [OF this assms(3)] obtain el e where
    "(el, e) \<in> set (ws_order w)" "w' = touch el (\<lambda>e. e\<lparr>ce_lastAccess := now\<rparr>) w" by metis
  with inv_touch [OF assms(1) _ assms(2)] show ?thesis by simp
qed

lemma lru_hit:
  assumes "cache_inv t w" "cacheHit key mode now w = Some (p, w')"
  shows "lru_of w' = lru_use (nat (ws_capacity w)) key p (lru_of w)" "mode \<le> lp_Mode p" "ws_capacity w' = ws_capacity w"
proof -
  have a: "agrees w" "within_capacity w" using assms(1) by (simp_all add: cache_inv_def)
  from cacheHit_elem [OF a(1) assms(2)] obtain el e where
    "(el, e) \<in> set (ws_order w)" "ce_key e = key" "mode \<le> lp_Mode (ce_prog e)" "p = ce_prog e"
    "w' = touch el (\<lambda>e. e\<lparr>ce_lastAccess := now\<rparr>) w" by metis
  with lru_touch(1) [OF a(1) _ a(2)] show "lru_of w' = lru_use (nat (ws_capacity w)) key p (lru_of w)"
    "mode \<le> lp_Mode p" "ws_capacity w' = ws_capacity w" by simp_all
qed

lemma recent_take: "recent_first t w \<Longrightarrow> ws_order w' = take n (ws_order w) \<Longrightarrow> recent_first t w'"
  by (auto simp: recent_first_def sorted_wrt_take dest: in_set_takeD)

lemma inv_evict:
  assumes "agrees w" "recent_first t w" "1 \<le> ws_capacity w"
  shows "cache_inv t (evictLocked w)"
  using evictLocked_spec [OF assms(1)] assms recent_take [OF assms(2)]
  by (auto simp: cache_inv_def within_capacity_def)

text \<open>An insertion that finds no usable entry, in its two cases.\<close>

lemma insert_cases:
  assumes inv: "cache_inv t w" and t: "t \<le> now"
    and miss: "cacheHit key mode now w = None"
  shows "cache_inv now (snd (cacheInsert key dir pats mode prog now w))
     \<and> fst (cacheInsert key dir pats mode prog now w) = prog
     \<and> lru_of (snd (cacheInsert key dir pats mode prog now w)) = lru_use (nat (ws_capacity w)) key prog (lru_of w)
     \<and> ws_capacity (snd (cacheInsert key dir pats mode prog now w)) = ws_capacity w"
proof -
  have a: "agrees w" "recent_first t w" "within_capacity w" using inv by (simp_all add: cache_inv_def)
  show ?thesis
  proof (cases "ws_cache w key")
    case (Some el)
    then obtain e where e: "(el, e) \<in> set (ws_order w)" "ce_key e = key"
      using a(1) by (auto simp: agrees_def)
    let ?f = "\<lambda>e. e\<lparr>ce_prog := prog, ce_lastAccess := now\<rparr>"
    have "cacheInsert key dir pats mode prog now w = (prog, touch el ?f w)"
      using miss Some by (simp add: cacheInsert_eq)
    with inv_touch [OF inv e(1) t, of ?f] lru_touch(1) [OF a(1) e(1) a(3), of ?f] e(2) show ?thesis by simp
  next
    case None
    let ?e = "\<lparr>ce_key = key, ce_rootPath = dir, ce_patterns = pats, ce_prog = prog, ce_lastAccess = now\<rparr>"
    have ins: "cacheInsert key dir pats mode prog now w = (prog, evictLocked (pushFront ?e w))"
      using miss None by (simp add: cacheInsert_eq)
    have ag: "agrees (pushFront ?e w)" using agrees_pushFront [OF a(1)] None by simp
    have rec: "recent_first now (pushFront ?e w)"
      using recent_later [OF a(2) t] by (auto simp: recent_first_def pushFront_def)
    have cap: "1 \<le> ws_capacity (pushFront ?e w)" using a(3) by (simp add: pushFront_def within_capacity_def)
    have "filter (\<lambda>(k', _). k' \<noteq> key) (lru_of w) = lru_of w"
      using agrees_absent [OF a(1) None] by (intro filter_True) (auto simp: lru_of_def)
    moreover have "ws_order (evictLocked (pushFront ?e w)) = take (nat (ws_capacity w)) ((ws_next w, ?e) # ws_order w)"
      "ws_capacity (evictLocked (pushFront ?e w)) = ws_capacity w"
      using evictLocked_spec [OF ag] cap by (simp_all add: pushFront_def)
    then have "lru_of (evictLocked (pushFront ?e w)) = take (nat (ws_capacity w)) ((key, prog) # lru_of w)"
      "ws_capacity (evictLocked (pushFront ?e w)) = ws_capacity w"
      by (simp_all add: lru_of_def take_map [symmetric] del: take_Cons')
    ultimately show ?thesis
      using inv_evict [OF ag rec cap] by (simp add: ins lru_use_def)
  qed
qed

lemma insert_inv [inv_intros]:
  assumes "cache_inv t w" "t \<le> now"
  shows "cache_inv now (snd (cacheInsert key dir pats mode prog now w))"
proof (cases "cacheHit key mode now w")
  case None
  with insert_cases [OF assms] show ?thesis by simp
next
  case (Some r)
  then show ?thesis using inv_hit [OF assms] by (cases r) (simp add: cacheInsert_def)
qed

lemma sorted_dropWhile_filter:
  assumes "sorted_wrt (\<lambda>x y. f y \<le> (f x :: int)) xs"
  shows "rev (dropWhile (\<lambda>x. now - f x > ttl) (rev xs)) = filter (\<lambda>x. now - f x \<le> ttl) xs"
  using assms
proof (induction xs rule: rev_induct)
  case (snoc x xs)
  show ?case
  proof (cases "now - f x > ttl")
    case False
    then have "filter (\<lambda>x. now - f x \<le> ttl) xs = xs"
      using snoc.prems by (intro filter_True) (auto simp: sorted_wrt_append)
    with False show ?thesis by simp
  qed (use snoc in \<open>simp add: sorted_wrt_append\<close>)
qed simp

lemma sweep_filter:
  assumes "cache_inv t w" "0 < ws_ttl w"
  shows "ws_order (sweep now w) = filter (\<lambda>(_, e). now - ce_lastAccess e \<le> ws_ttl w) (ws_order w)"
  using assms sweepLoop_spec [of w now]
    sorted_dropWhile_filter [where f = "\<lambda>x. ce_lastAccess (snd x)" and xs = "ws_order w"
      and now = now and ttl = "ws_ttl w"]
  by (simp add: cache_inv_def recent_first_def sweep_def split_def)

lemma inv_sweep [inv_intros]:
  assumes "cache_inv t w" "t \<le> now"
  shows "cache_inv now (sweep now w)"
proof (cases "0 < ws_ttl w")
  case True
  have "length (ws_order (sweep now w)) \<le> length (ws_order w)"
    using sweep_filter [OF assms(1) True] by simp
  moreover have "recent_first now (sweep now w)"
    using sweep_filter [OF assms(1) True] assms recent_later [of t w now]
    by (auto simp: cache_inv_def recent_first_def intro: sorted_wrt_filter)
  ultimately show ?thesis
    using assms True sweepLoop_spec [of w now] by (auto simp: cache_inv_def within_capacity_def sweep_def)
next
  case False
  with assms recent_later show ?thesis by (auto simp: sweep_def cache_inv_def)
qed

lemma inv_SetCapacity [inv_intros]: "cache_inv t w \<Longrightarrow> cache_inv t (SetCapacity n w)"
  unfolding SetCapacity_def
  by (rule inv_evict) (auto simp: cache_inv_def agrees_def recent_first_def)

lemma inv_SetTTL [inv_intros]: "cache_inv t w \<Longrightarrow> cache_inv t (SetTTL d w)"
  by (auto simp: SetTTL_def cache_inv_def agrees_def recent_first_def within_capacity_def)

lemma inv_removeKey [inv_intros]:
  assumes "cache_inv t w"
  shows "cache_inv t (fst (removeKey key w))"
proof (cases "ws_cache w key")
  case (Some el)
  have a: "agrees w" using assms by (simp add: cache_inv_def)
  then obtain e where e: "(el, e) \<in> set (ws_order w)" "ce_key e = key"
    using Some by (auto simp: agrees_def)
  let ?r = "filter (\<lambda>(el', _). el' \<noteq> el) (ws_order w)"
  have "distinct (map fst ?r)" "distinct (map (ce_key \<circ> snd) ?r)"
    using a by (auto simp: agrees_def distinct_map inj_on_def)
  with agrees_remove [OF a e(1) filter_el [OF a e(1)]] e(2)
  have "agrees (fst (removeKey key w))" by (simp add: removeKey_def Some)
  moreover have "length ?r \<le> length (ws_order w)" by simp
  ultimately show ?thesis
    using assms Some by (auto simp: cache_inv_def removeKey_def recent_first_def within_capacity_def
        intro: sorted_wrt_filter simp del: length_filter_le)
qed (use assms in \<open>simp add: removeKey_def\<close>)

lemma inv_ClearAll [inv_intros]: "cache_inv t w \<Longrightarrow> cache_inv t (fst (ClearAll w))"
  by (auto simp: ClearAll_def cache_inv_def agrees_def recent_first_def within_capacity_def)

lemma inv_new [inv_intros]: "cache_inv t (NewWorkspace env)"
  by (auto simp: NewWorkspace_def cache_inv_def agrees_def recent_first_def within_capacity_def
      defaultCacheCapacity_def Let_def split: option.splits)

section \<open>Concurrent use\<close>

text \<open>
  The critical sections of the workspace in any interleaving, at times that do not go back. A
  call of \<^verbatim>\<open>getOrLoad\<close> is a \<open>hit\<close>, or an \<open>insert\<close> that comes later, with anything in between;
  the program inserted is whatever was loaded meanwhile.
\<close>

inductive ws_step :: "int \<times> Workspace \<Rightarrow> int \<times> Workspace \<Rightarrow> bool" where
  hit: "t \<le> now \<Longrightarrow> cacheHit key mode now w = Some (p, w') \<Longrightarrow> ws_step (t, w) (now, w')"
| insert: "t \<le> now \<Longrightarrow> cacheInsert key dir pats mode prog now w = (p, w') \<Longrightarrow> ws_step (t, w) (now, w')"
| sweep: "t \<le> now \<Longrightarrow> ws_step (t, w) (now, sweep now w)"
| setCapacity: "ws_step (t, w) (t, SetCapacity n w)"
| setTTL: "ws_step (t, w) (t, SetTTL d w)"
| remove: "ws_step (t, w) (t, fst (removeKey key w))"
| clearAll: "ws_step (t, w) (t, fst (ClearAll w))"

inductive_simps ws_step_simps: "ws_step (t, w) s"

inductive ws_reach :: "int \<times> Workspace \<Rightarrow> bool" where
  start: "ws_reach (t, NewWorkspace env)"
| step: "ws_reach s \<Longrightarrow> ws_step s s' \<Longrightarrow> ws_reach s'"

lemma ws_step_inv: "ws_step (t, w) (t', w') \<Longrightarrow> cache_inv t w \<Longrightarrow> cache_inv t' w'"
  by (auto simp: ws_step_simps intro: inv_intros) (metis insert_inv snd_conv)

text \<open>
  The loads in flight. \<^verbatim>\<open>singleflight.Group.Do\<close> lets a call whose key and mode are being loaded
  wait for that load and share its result.
\<close>

record ws_system =
  sy_ws :: Workspace
  sy_flight :: "string \<times> LoadMode \<rightharpoonup> LoadedProgram"
  sy_version :: nat

text \<open>A call that found no usable entry: it starts a load of the present sources or joins one.\<close>

definition joinFlight :: "(nat \<Rightarrow> LoadMode \<Rightarrow> LoadedProgram) \<Rightarrow> string \<Rightarrow> LoadMode \<Rightarrow> ws_system \<Rightarrow> ws_system" where
  "joinFlight loaded key mode s =
     (case sy_flight s (key, mode) of
        Some p \<Rightarrow> s
      | None \<Rightarrow> s\<lparr>sy_flight := (sy_flight s)((key, mode) \<mapsto> loaded (sy_version s) mode)\<rparr>)"

definition finishFlight ::
  "string \<Rightarrow> string \<Rightarrow> string list \<Rightarrow> LoadMode \<Rightarrow> int \<Rightarrow> ws_system \<Rightarrow> LoadedProgram option \<times> ws_system" where
  "finishFlight key dir pats mode now s =
     (case sy_flight s (key, mode) of
        None \<Rightarrow> (None, s)
      | Some prog \<Rightarrow>
          (case cacheInsert key dir pats mode prog now (sy_ws s) of
             (p, w) \<Rightarrow> (Some p, s\<lparr>sy_ws := w, sy_flight := (sy_flight s)((key, mode) := None)\<rparr>)))"

definition editSources :: "ws_system \<Rightarrow> ws_system" where
  "editSources s = s\<lparr>sy_version := Suc (sy_version s)\<rparr>"

text \<open>The part of \<^verbatim>\<open>Reload\<close> before it waits for the load.\<close>

definition reloadBegins :: "(nat \<Rightarrow> LoadMode \<Rightarrow> LoadedProgram) \<Rightarrow> string \<Rightarrow> ws_system \<Rightarrow> ws_system" where
  "reloadBegins loaded key s =
     joinFlight loaded key LoadModeTypes (s\<lparr>sy_ws := fst (removeKey key (sy_ws s))\<rparr>)"

section \<open>Properties\<close>

text \<open>
  C3: in every state the interleaved operations of the workspace can reach, the map and the list
  describe the same entries, there are at most as many as the capacity, which is positive, and
  the list is ordered by last access, most recent first.
\<close>

theorem workspace_invariant:
  assumes "ws_reach (t, w)"
  shows "agrees w \<and> int (length (ws_order w)) \<le> ws_capacity w \<and> 1 \<le> ws_capacity w
     \<and> sorted_wrt (\<lambda>x y. ce_lastAccess (snd y) \<le> ce_lastAccess (snd x)) (ws_order w)"
proof -
  have "cache_inv t w"
    using assms
  proof (induction "(t, w)" arbitrary: t w rule: ws_reach.induct)
    case (start env t)
    show ?case by (rule inv_new)
  next
    case (step s)
    then show ?case using ws_step_inv by (metis surj_pair)
  qed
  then show ?thesis by (simp add: cache_inv_def recent_first_def within_capacity_def)
qed

definition sample_prog :: LoadedProgram where
  "sample_prog = \<lparr>lp_Packages = [''p''], lp_SSAFuncs = [], lp_Mode = LoadModeTypes, lp_version = 0\<rparr>"

theorem workspace_invariant_witness:
  "agrees (snd (cacheInsert ''k'' ''/w'' [''./...''] LoadModeTypes sample_prog 3 (NewWorkspace '''')))"
proof -
  have "ws_step (0, NewWorkspace '''') (3, snd (cacheInsert ''k'' ''/w'' [''./...''] LoadModeTypes sample_prog 3 (NewWorkspace '''')))"
    by (rule ws_step.insert [where p = "fst (cacheInsert ''k'' ''/w'' [''./...''] LoadModeTypes sample_prog 3 (NewWorkspace ''''))"]) auto
  then have "ws_reach (3, snd (cacheInsert ''k'' ''/w'' [''./...''] LoadModeTypes sample_prog 3 (NewWorkspace '''')))"
    using ws_reach.intros by blast
  from workspace_invariant [OF this] show ?thesis by simp
qed

text \<open>
  C2: \<^verbatim>\<open>getOrLoad\<close> implements an LRU cache: a successful call returns a program loaded at
  least as far as was asked, and afterwards the cache holds that program in front of the other
  entries in their old order, cut to the capacity; a failing load changes nothing.
\<close>

theorem getOrLoad_is_lru:
  assumes inv: "cache_inv t w" and ts: "t \<le> fst ts" "t \<le> snd ts"
    and load: "\<And>d ps m p. load d ps m = Inr p \<Longrightarrow> lp_Mode p = m"
    and call: "getOrLoad exists sha256 load ts dir pattern mode w = (r, w')"
  shows "(case r of
       Inl e \<Rightarrow> w' = w \<and> load dir (requestPatterns exists dir pattern) mode = Inl e
     | Inr p \<Rightarrow> mode \<le> lp_Mode p \<and> lru_of w' = lru_use (nat (ws_capacity w))
                 (makeCacheKey sha256 dir (requestPatterns exists dir pattern)) p (lru_of w))"
proof -
  define ps where "ps = requestPatterns exists dir pattern"
  define key where "key = makeCacheKey sha256 dir ps"
  show ?thesis
  proof (cases "cacheHit key mode (fst ts) w")
    case (Some pw)
    obtain p w1 where [simp]: "pw = (p, w1)" by fastforce
    have "r = Inr p" "w' = w1" using call Some by (simp_all add: getOrLoad_def Let_def key_def ps_def)
    with lru_hit [OF inv, of key mode "fst ts" p w1] Some show ?thesis by (simp add: key_def ps_def)
  next
    case miss: None
    show ?thesis
    proof (cases "load dir ps mode")
      case (Inl e)
      then have "r = Inl e" "w' = w" using call miss by (auto simp: getOrLoad_def Let_def key_def ps_def)
      with Inl show ?thesis by (simp add: ps_def)
    next
      case (Inr prog)
      have "cacheHit key mode (snd ts) w = None"
        using miss by (auto simp: cacheHit_def split: option.splits if_splits)
      note ins = insert_cases [OF inv ts(2) this, of dir ps prog]
      have "r = Inr prog" "w' = snd (cacheInsert key dir ps mode prog (snd ts) w)"
        using call miss Inr ins by (auto simp: getOrLoad_def Let_def key_def ps_def split: prod.splits)
      with ins load [OF Inr] show ?thesis by (simp add: key_def ps_def)
    qed
  qed
qed

theorem getOrLoad_is_lru_witness:
  "map snd (lru_of (snd (getOrLoad (\<lambda>_. True) (\<lambda>s. s)
      (\<lambda>_ _ m. Inr (sample_prog\<lparr>lp_Mode := m\<rparr>)) (1, 2) ''/w'' ''./...'' LoadModeSSA (NewWorkspace ''''))))
     = [sample_prog\<lparr>lp_Mode := LoadModeSSA\<rparr>]"
proof -
  let ?load = "\<lambda>_ _ m. Inr (sample_prog\<lparr>lp_Mode := m\<rparr>) :: string + LoadedProgram"
  let ?g = "getOrLoad (\<lambda>_. True) (\<lambda>s. s) ?load (1, 2) ''/w'' ''./...'' LoadModeSSA (NewWorkspace '''')"
  have "fst ?g = Inr (sample_prog\<lparr>lp_Mode := LoadModeSSA\<rparr>)"
    by (simp add: getOrLoad_def cacheHit_def NewWorkspace_def Let_def cacheInsert_def)
  moreover have "ws_capacity (NewWorkspace '''') = 2" "lru_of (NewWorkspace '''') = []"
    by (simp_all add: NewWorkspace_def defaultCacheCapacity_def lru_of_def)
  moreover have "case fst ?g of Inl e \<Rightarrow> True | Inr p \<Rightarrow> lru_of (snd ?g) = lru_use (nat (ws_capacity (NewWorkspace '''')))
      (makeCacheKey (\<lambda>s. s) ''/w'' (requestPatterns (\<lambda>_. True) ''/w'' ''./...'')) p (lru_of (NewWorkspace ''''))"
    using getOrLoad_is_lru [OF inv_new [of 0], of "(1, 2)" ?load "\<lambda>_. True" "\<lambda>s. s" "''/w''" "''./...''"
        LoadModeSSA "''''" "fst ?g" "snd ?g"]
    by (auto split: sum.splits)
  ultimately show ?thesis by (simp add: lru_use_def)
qed

text \<open>
  The sweep, which stops at the first entry from the back that is not idle for longer than
  the time to live, removes exactly the entries that are; a non-positive time to live removes
  nothing.
\<close>

theorem sweep_removes_idle:
  assumes "cache_inv t w"
  shows "ws_order (sweep now w) =
    (if ws_ttl w \<le> 0 then ws_order w
     else filter (\<lambda>(_, e). now - ce_lastAccess e \<le> ws_ttl w) (ws_order w))"
  using sweep_filter [OF assms] by (auto simp: sweep_def)

theorem sweep_removes_idle_witness:
  "ws_order (sweep 9 (NewWorkspace '''')) = []"
  using sweep_removes_idle [OF inv_new, of 9 "''''" ] by (simp add: NewWorkspace_def)

text \<open>
  A reload can return the old program: if a load of the key is in flight when the sources
  change, a reload after the change joins it, and the program from before the change is what the
  reload returns and the cache then serves.
\<close>

theorem reload_joins_stale_load:
  assumes "cache_inv t (sy_ws s)" "t \<le> now" "sy_flight s (key, LoadModeTypes) = None"
    and "\<And>v m. lp_version (loaded v m) = v \<and> lp_Mode (loaded v m) = m"
    and "s1 = joinFlight loaded key LoadModeTypes s" "s2 = reloadBegins loaded key (editSources s1)"
    and "finishFlight key dir pats LoadModeTypes now s2 = (r, s3)"
  shows "\<exists>p. r = Some p \<and> lp_version p = sy_version s \<and> sy_version s3 = Suc (sy_version s)
     \<and> hd (lru_of (sy_ws s3)) = (key, p)"
proof -
  let ?w = "fst (removeKey key (sy_ws s))"
  let ?p = "loaded (sy_version s) LoadModeTypes"
  have inv: "cache_inv t ?w" by (rule inv_removeKey [OF assms(1)])
  have s2: "sy_flight s2 (key, LoadModeTypes) = Some ?p" "sy_ws s2 = ?w" "sy_version s2 = Suc (sy_version s)"
    using assms(3) by (simp_all add: assms(5,6) joinFlight_def reloadBegins_def editSources_def)
  have "ws_cache ?w key = None"
    by (auto simp: removeKey_def split: option.splits)
  then have "cacheHit key LoadModeTypes now ?w = None" by (simp add: cacheHit_def)
  note ins = insert_cases [OF inv assms(2) this, of dir pats ?p]
  have "r = Some ?p" "sy_version s3 = Suc (sy_version s)"
    "sy_ws s3 = snd (cacheInsert key dir pats LoadModeTypes ?p now ?w)"
    using assms(7) s2 ins by (auto simp: finishFlight_def split: prod.splits)
  moreover have "0 < nat (ws_capacity ?w)" using inv by (simp add: cache_inv_def within_capacity_def)
  then have "hd (lru_use (nat (ws_capacity ?w)) key ?p xs) = (key, ?p)" for xs
    by (cases "nat (ws_capacity ?w)") (simp_all add: lru_use_def)
  ultimately show ?thesis using assms(4) ins by simp
qed

theorem reload_joins_stale_load_witness:
  "let s = \<lparr>sy_ws = NewWorkspace '''', sy_flight = Map.empty, sy_version = 4\<rparr>;
       loaded = \<lambda>v m. sample_prog\<lparr>lp_Mode := m, lp_version := v\<rparr>;
       s2 = reloadBegins loaded ''k'' (editSources (joinFlight loaded ''k'' LoadModeTypes s))
   in map_option lp_version (fst (finishFlight ''k'' ''/w'' [] LoadModeTypes 1 s2)) = Some 4"
proof -
  let ?s = "\<lparr>sy_ws = NewWorkspace '''', sy_flight = Map.empty, sy_version = 4\<rparr>"
  let ?l = "\<lambda>v m. sample_prog\<lparr>lp_Mode := m, lp_version := v\<rparr>"
  let ?s2 = "reloadBegins ?l ''k'' (editSources (joinFlight ?l ''k'' LoadModeTypes ?s))"
  let ?f = "finishFlight ''k'' ''/w'' [] LoadModeTypes 1 ?s2"
  have "\<exists>p. fst ?f = Some p \<and> lp_version p = sy_version ?s \<and> sy_version (snd ?f) = Suc (sy_version ?s)
     \<and> hd (lru_of (sy_ws (snd ?f))) = (''k'', p)"
    by (rule reload_joins_stale_load [of 0 ?s 1 "''k''" ?l _ _ "''/w''" "[]"]) (auto intro: inv_new)
  then show ?thesis by (auto simp: Let_def)
qed

end
