(* ===== verification/Handlers.thy ===== *)
theory Handlers
  imports Config Call_Graph Dead_Code Complexity_Report Compute_Mutex Workspace_Cache
begin

text \<open>
  The tool handlers of \<^verbatim>\<open>main.go\<close>: the inputs, the defaults taken from the configuration, the
  options passed on, and the way from a request through the lock to an analysis and back. The
  state of the server is the workspace cache and the compute lock. What the workspace hands out
  for a root and a pattern is an argument; that it does so from its cache is the subject of
  \<^verbatim>\<open>Workspace_Cache\<close>.
\<close>

section \<open>Inputs\<close>

text \<open>The fields that tools share, and the inputs as extensions of them.\<close>

record analysis_input =
  in_RootPath :: string
  in_PackagePattern :: string
  in_PackagePatterns :: "string list"

record paged_input = analysis_input +
  in_Offset :: int
  in_Limit :: int
  in_MaxItems :: int
  in_ChunkSize :: int
  in_Cursor :: string

record PackageDependenciesInput = paged_input +
  pi_IncludeStdlib :: bool
  pi_Summary :: bool
  pi_Export :: string

record CallHierarchyInput = paged_input +
  hi_FunctionName :: string
  hi_MaxDepth :: int
  hi_Summary :: bool
  hi_Export :: string

record CallersInput = paged_input +
  ci_FunctionName :: string
  ci_MaxDepth :: int

record FindCallPathInput = analysis_input +
  fi_FromFunction :: string
  fi_ToFunction :: string
  fi_MaxDepth :: int
  fi_MaxPaths :: int

record FindReverseDependenciesInput = paged_input +
  ri_TargetPackage :: string
  ri_IncludeTransitive :: bool
  ri_Export :: string

record CheckArchitectureBoundariesInput = paged_input +
  bi_Rules :: "BoundaryRule list"
  bi_Export :: string

record FindDeadCodeInput = paged_input +
  di_IncludeExported :: bool
  di_Mode :: string
  di_ScopePackagePattern :: string

record 'f ComplexityMetricsInput = paged_input +
  xi_MinCyclomatic :: int
  xi_MinCognitive :: int
  xi_MinHalsteadVolume :: 'f
  xi_MaxMaintainabilityIndex :: 'f
  xi_SortBy :: string
  xi_IncludePackages :: bool

record ClearCacheInput = analysis_input +
  li_All :: bool

record InitWorkspaceConfigInput =
  ii_RootPath :: string
  ii_Overwrite :: bool

record EmbeddingsSettingsInput =
  ai_RootPath :: string
  ai_Dismiss :: bool
  ai_Reopen :: bool

section \<open>Environment, state and replies\<close>

text \<open>
  What the handlers find around them. The functions of root and pattern are what the workspace
  returns for them: packages, located imports, an SSA program per pattern with the fallback
  patterns, the program of the dead code search, complexity metrics, and the rows of the store.
\<close>

record 'f handler_env =
  hx_Getwd :: "string + string"
  hx_config :: "'f config_env"
  hx_floats :: "'f float_ops"
  hx_paging :: paging
  hx_exists :: "string \<Rightarrow> bool"
  hx_loadProgram :: "string \<Rightarrow> string list \<Rightarrow> LoadMode \<Rightarrow> string + LoadedProgram"
  hx_times :: "int \<times> int"
  hx_packages :: "string \<Rightarrow> string \<Rightarrow> string + Pkg list"
  hx_rows :: "string \<Rightarrow> bool \<Rightarrow> string + (string \<times> string list) list"
  hx_located :: "string \<Rightarrow> string \<Rightarrow> string + (Pkg \<times> import_locs) list"
  hx_ssa :: "string \<Rightarrow> string \<Rightarrow> string + ssa_program"
  hx_fallback :: "string \<Rightarrow> string \<Rightarrow> string list"
  hx_dead :: "string \<Rightarrow> string \<Rightarrow> string + dead_program"
  hx_metrics :: "string \<Rightarrow> string \<Rightarrow> string + 'f FunctionComplexity list"
  hx_mkdir_error :: "string \<Rightarrow> string option"
  hx_state_json :: "UserWorkspaceState \<Rightarrow> string + string"
  hx_clock :: int

record server =
  sv_workspace :: Workspace
  sv_mutex :: "ComputeMutex option"

datatype tool_error = ToolMsg string | ToolPage stream_error | ToolLock lock_error

text \<open>A reply is the result, a tool error, the busy notice, or an error of the protocol call.\<close>

datatype 'r reply = Reply 'r | ErrorReply tool_error | BusyReply busy_result | Failure string

definition toolError :: "tool_error \<Rightarrow> 'r reply" where
  "toolError e = ErrorReply e"

definition replyOf :: "tool_error + 'r \<Rightarrow> 'r reply" where
  "replyOf result = (case result of Inl e \<Rightarrow> toolError e | Inr r \<Rightarrow> Reply r)"

section \<open>Defaults\<close>

definition resolveRootPath :: "string + string \<Rightarrow> string \<Rightarrow> string + string" where
  "resolveRootPath getwd rootPath =
     (if rootPath \<noteq> '''' then Inr rootPath
      else (case getwd of Inl e \<Rightarrow> Inl (''get working directory: '' @ e) | Inr wd \<Rightarrow> Inr wd))"

definition mergePatterns :: "string \<Rightarrow> string list \<Rightarrow> string" where
  "mergePatterns single multi =
     Join '','' (filter (\<lambda>s. s \<noteq> '''') (map TrimSpace multi) @ (if TrimSpace single \<noteq> '''' then [TrimSpace single] else []))"

definition mergePatternsWithDefault :: "string \<Rightarrow> string list \<Rightarrow> string list \<Rightarrow> string" where
  "mergePatternsWithDefault single multi defaultPatterns =
     (let merged = mergePatterns single multi
      in if TrimSpace merged \<noteq> '''' then merged
         else if length defaultPatterns = 0 then '''' else Join '','' defaultPatterns)"

record 'f analysisDefaults =
  ad_RootPath :: string
  ad_Pattern :: string
  ad_Config :: "'f WorkspaceConfig"

definition resolveAnalysisDefaults ::
  "'f handler_env \<Rightarrow> ('i analysis_input_scheme) \<Rightarrow> server \<Rightarrow> (string + 'f analysisDefaults) \<times> server" where
  "resolveAnalysisDefaults env input sv =
     (case resolveRootPath (hx_Getwd env) (in_RootPath input) of
        Inl e \<Rightarrow> (Inl e, sv)
      | Inr root \<Rightarrow>
          (case EffectiveWorkspaceConfig (hx_floats env) (hx_config env) root of
             Inl e \<Rightarrow> (Inl e, sv)
           | Inr config \<Rightarrow>
               (Inr \<lparr>ad_RootPath = root,
                  ad_Pattern = mergePatternsWithDefault (in_PackagePattern input) (in_PackagePatterns input)
                    (ConfigPackagePatterns config),
                  ad_Config = config\<rparr>,
                if wc_CacheCapacity config > 0
                then sv\<lparr>sv_workspace := SetCapacity (wc_CacheCapacity config) (sv_workspace sv)\<rparr> else sv)))"

definition queryOptionsWithConfig :: "'f WorkspaceConfig \<Rightarrow> QueryOptions \<Rightarrow> QueryOptions" where
  "queryOptionsWithConfig config opts =
     (let out = wc_Output config
      in opts\<lparr>qo_Limit := (if qo_Limit opts = 0 then ou_Limit out else qo_Limit opts),
              qo_Offset := (if qo_Offset opts = 0 then ou_Offset out else qo_Offset opts),
              qo_MaxItems := (if qo_MaxItems opts = 0 then ou_MaxItems out else qo_MaxItems opts),
              qo_ChunkSize := (if qo_ChunkSize opts = 0 then ou_ChunkSize out else qo_ChunkSize opts),
              qo_Summary := (if \<not> qo_Summary opts \<and> ou_Summary out then True else qo_Summary opts)\<rparr>)"

definition complexityOptionsWithConfig ::
  "'f float_ops \<Rightarrow> 'f WorkspaceConfig \<Rightarrow> 'f ComplexityOptions \<Rightarrow> 'f ComplexityOptions" where
  "complexityOptionsWithConfig F config opts =
     (let k = wc_Complexity config
      in opts\<lparr>co_MinCyclomatic := (if co_MinCyclomatic opts = 0 then kx_MinCyclomatic k else co_MinCyclomatic opts),
              co_MinCognitive := (if co_MinCognitive opts = 0 then kx_MinCognitive k else co_MinCognitive opts),
              co_MinHalsteadVolume := (if fl_eq F (co_MinHalsteadVolume opts) (fl_ofInt F 0)
                then kx_MinHalsteadVolume k else co_MinHalsteadVolume opts),
              co_MaxMaintainabilityIndex := (if fl_eq F (co_MaxMaintainabilityIndex opts) (fl_ofInt F 0)
                then kx_MaxMaintainabilityIndex k else co_MaxMaintainabilityIndex opts),
              co_SortBy := (if TrimSpace (co_SortBy opts) = '''' then kx_SortBy k else co_SortBy opts),
              co_IncludePackages := (if \<not> co_IncludePackages opts \<and> kx_IncludePackages k then True
                else co_IncludePackages opts)\<rparr>)"

definition truncateStringBytes :: "string \<Rightarrow> int \<Rightarrow> string" where
  "truncateStringBytes v maxBytes =
     (if maxBytes \<le> 0 \<or> int (length v) \<le> maxBytes then v else take (nat maxBytes) v)"

text \<open>The query options of an input, and of its defaults.\<close>

definition queryOf :: "'f WorkspaceConfig \<Rightarrow> ('i paged_input_scheme) \<Rightarrow> bool \<Rightarrow> string \<Rightarrow> QueryOptions" where
  "queryOf config input summary export =
     queryOptionsWithConfig config
       \<lparr>qo_Limit = in_Limit input, qo_Offset = in_Offset input, qo_MaxItems = in_MaxItems input,
        qo_Summary = summary, qo_Cursor = in_Cursor input, qo_ChunkSize = in_ChunkSize input, qo_Export = export\<rparr>"

section \<open>The way through the lock\<close>

text \<open>
  A slow tool: if \<^verbatim>\<open>beginSlowPath\<close> admits the owner, its analysis runs and the deferred
  \<^verbatim>\<open>Unlock\<close> follows; an analysis that fails with a lock error answers busy.
\<close>

definition slowTool :: "string \<Rightarrow> tool_error + 'r \<Rightarrow> server \<Rightarrow> 'r reply \<times> server" where
  "slowTool owner result sv =
     (case beginSlowPath owner (sv_mutex sv) of
        (m, Inl busy) \<Rightarrow> (BusyReply busy, sv\<lparr>sv_mutex := m\<rparr>)
      | (m, Inr _) \<Rightarrow>
          ((case result of
              Inl (ToolLock e) \<Rightarrow> (case handleBusyError (Some e) of Some busy \<Rightarrow> BusyReply busy | None \<Rightarrow> toolError (ToolLock e))
            | _ \<Rightarrow> replyOf result),
           sv\<lparr>sv_mutex := Unlock owner m\<rparr>))"

definition withDefaults ::
  "'f handler_env \<Rightarrow> ('i analysis_input_scheme) \<Rightarrow> ('f analysisDefaults \<Rightarrow> server \<Rightarrow> 'r reply \<times> server) \<Rightarrow>
   server \<Rightarrow> 'r reply \<times> server" where
  "withDefaults env input body sv =
     (case resolveAnalysisDefaults env input sv of
        (Inl e, sv) \<Rightarrow> (toolError (ToolMsg e), sv) | (Inr d, sv) \<Rightarrow> body d sv)"

text \<open>Errors of the analyses as errors of the tools.\<close>

definition pageResult :: "stream_error + 'r \<Rightarrow> tool_error + 'r" where
  "pageResult result = (case result of Inl e \<Rightarrow> Inl (ToolPage e) | Inr r \<Rightarrow> Inr r)"

definition msgResult :: "string + 'r \<Rightarrow> tool_error + 'r" where
  "msgResult result = (case result of Inl e \<Rightarrow> Inl (ToolMsg e) | Inr r \<Rightarrow> Inr r)"

definition queryResult :: "query_error + 'r \<Rightarrow> tool_error + 'r" where
  "queryResult result =
     (case result of Inl (Msg e) \<Rightarrow> Inl (ToolMsg e) | Inl (PageErr e) \<Rightarrow> Inl (ToolPage e) | Inr r \<Rightarrow> Inr r)"

definition loaded :: "string + 'p \<Rightarrow> ('p \<Rightarrow> tool_error + 'r) \<Rightarrow> tool_error + 'r" where
  "loaded prog body = (case prog of Inl e \<Rightarrow> Inl (ToolMsg (''loading packages: '' @ e)) | Inr p \<Rightarrow> body p)"

definition exporting :: "string \<Rightarrow> (string \<Rightarrow> tool_error + 'r) \<Rightarrow> tool_error + 'r" where
  "exporting s body = (case ParseExportFormat s of Inl e \<Rightarrow> Inl (ToolMsg e) | Inr export \<Rightarrow> body export)"

section \<open>Slow tools\<close>

definition handleAnalyzeCallHierarchy ::
  "'f handler_env \<Rightarrow> CallHierarchyInput \<Rightarrow> server \<Rightarrow> CallHierarchyResult reply \<times> server" where
  "handleAnalyzeCallHierarchy env input =
     withDefaults env input (\<lambda>d. slowTool ''analyze_call_hierarchy''
       (exporting (hi_Export input) (\<lambda>export.
          queryResult (AnalyzeCallHierarchyWithOptions (hx_paging env) (hx_ssa env (ad_RootPath d))
            (hx_fallback env (ad_RootPath d) (ad_Pattern d)) (ad_Pattern d) (hi_FunctionName input) (hi_MaxDepth input)
            (queryOf (ad_Config d) input (hi_Summary input) export)))))"

definition handleFindCallers :: "'f handler_env \<Rightarrow> CallersInput \<Rightarrow> server \<Rightarrow> CallersResult reply \<times> server" where
  "handleFindCallers env input =
     withDefaults env input (\<lambda>d. slowTool ''find_callers''
       (queryResult (FindCallersWithOptions (hx_paging env) (hx_ssa env (ad_RootPath d))
          (hx_fallback env (ad_RootPath d) (ad_Pattern d)) (ad_Pattern d) (ci_FunctionName input) (ci_MaxDepth input)
          (queryOf (ad_Config d) input False ExportNone))))"

definition handleFindCallPath :: "'f handler_env \<Rightarrow> FindCallPathInput \<Rightarrow> server \<Rightarrow> FindCallPathResult reply \<times> server" where
  "handleFindCallPath env input =
     withDefaults env input (\<lambda>d. slowTool ''find_call_path''
       (msgResult (FindCallPath (hx_ssa env (ad_RootPath d)) (hx_fallback env (ad_RootPath d) (ad_Pattern d))
          (ad_Pattern d) (fi_FromFunction input) (fi_ToFunction input) (fi_MaxDepth input) (fi_MaxPaths input))))"

definition handleFindDeadCode :: "'f handler_env \<Rightarrow> FindDeadCodeInput \<Rightarrow> server \<Rightarrow> DeadCodeResult reply \<times> server" where
  "handleFindDeadCode env input =
     withDefaults env input (\<lambda>d. slowTool ''find_dead_code''
       (loaded (hx_dead env (ad_RootPath d) (ad_Pattern d)) (\<lambda>prog.
          pageResult (FindDeadCodeWithOptions (hx_paging env) (hx_exists env) prog (ad_RootPath d) (ad_Pattern d)
            \<lparr>do_IncludeExported = di_IncludeExported input, do_Mode = TrimSpace (di_Mode input),
             do_ScopePattern = di_ScopePackagePattern input\<rparr>
            (queryOf (ad_Config d) input False ExportNone)))))"

section \<open>Other tools\<close>

definition handlePackageDependencies ::
  "'f handler_env \<Rightarrow> PackageDependenciesInput \<Rightarrow> server \<Rightarrow> DependencyResult reply \<times> server" where
  "handlePackageDependencies env input =
     withDefaults env input (\<lambda>d sv.
       (replyOf (exporting (pi_Export input) (\<lambda>export.
          loaded (hx_packages env (ad_RootPath d) (ad_Pattern d)) (\<lambda>pkgs.
            case hx_rows env (ad_RootPath d) (pi_IncludeStdlib input) of
              Inl e \<Rightarrow> Inl (ToolMsg e)
            | Inr rows \<Rightarrow> pageResult (GetPackageDependenciesWithOptions (hx_paging env) pkgs rows (ad_RootPath d)
                (ad_Pattern d) (queryOf (ad_Config d) input (pi_Summary input) export))))), sv))"

definition handleDetectImportCycles ::
  "'f handler_env \<Rightarrow> analysis_input \<Rightarrow> server \<Rightarrow> (string list list \<times> int) reply \<times> server" where
  "handleDetectImportCycles env input =
     withDefaults env input (\<lambda>d sv.
       (replyOf (loaded (hx_packages env (ad_RootPath d) (ad_Pattern d)) (\<lambda>pkgs. Inr (DetectImportCycles pkgs))), sv))"

definition handleFindReverseDependencies ::
  "'f handler_env \<Rightarrow> FindReverseDependenciesInput \<Rightarrow> server \<Rightarrow> ReverseDependenciesResult reply \<times> server" where
  "handleFindReverseDependencies env input =
     withDefaults env input (\<lambda>d sv.
       (replyOf (exporting (ri_Export input) (\<lambda>export.
          if ri_TargetPackage input = '''' then Inl (ToolMsg ''target_package is required'')
          else loaded (hx_packages env (ad_RootPath d) (ad_Pattern d)) (\<lambda>pkgs.
            case FindReverseDependenciesWithOptions (hx_paging env) pkgs (ri_TargetPackage input)
                   (ri_IncludeTransitive input) (queryOf (ad_Config d) input False export) of
              Inl TargetRequired \<Rightarrow> Inl (ToolMsg ''target_package is required'')
            | Inl (RdStream e) \<Rightarrow> Inl (ToolPage e)
            | Inr r \<Rightarrow> Inr r))), sv))"

definition handleCheckArchitectureBoundaries ::
  "'f handler_env \<Rightarrow> CheckArchitectureBoundariesInput \<Rightarrow> server \<Rightarrow> BoundaryResult reply \<times> server" where
  "handleCheckArchitectureBoundaries env input =
     withDefaults env input (\<lambda>d sv.
       (replyOf (exporting (bi_Export input) (\<lambda>export.
          let rules = (if length (bi_Rules input) = 0 then wc_Boundaries (ad_Config d) else bi_Rules input);
              opts = queryOf (ad_Config d) input False export
          in if rules = []
             then pageResult (CheckArchitectureBoundariesWithOptions (hx_paging env) [] (ad_RootPath d) (ad_Pattern d) rules opts)
             else loaded (hx_located env (ad_RootPath d) (ad_Pattern d)) (\<lambda>pkgs.
               pageResult (CheckArchitectureBoundariesWithOptions (hx_paging env) pkgs (ad_RootPath d) (ad_Pattern d) rules opts)))), sv))"

definition handleComputeComplexityMetrics ::
  "'f handler_env \<Rightarrow> 'f ComplexityMetricsInput \<Rightarrow> server \<Rightarrow> 'f ComplexityResult reply \<times> server" where
  "handleComputeComplexityMetrics env input =
     withDefaults env input (\<lambda>d sv.
       (replyOf (loaded (hx_metrics env (ad_RootPath d) (ad_Pattern d)) (\<lambda>metrics.
          pageResult (ComputeComplexityMetricsWithOptions (hx_floats env) (hx_paging env) metrics (ad_RootPath d) (ad_Pattern d)
            (complexityOptionsWithConfig (hx_floats env) (ad_Config d)
              \<lparr>co_MinCyclomatic = xi_MinCyclomatic input, co_MinCognitive = xi_MinCognitive input,
               co_MinHalsteadVolume = xi_MinHalsteadVolume input,
               co_MaxMaintainabilityIndex = xi_MaxMaintainabilityIndex input, co_SortBy = xi_SortBy input,
               co_IncludePackages = xi_IncludePackages input\<rparr>)
            (queryOf (ad_Config d) input False ExportNone)))), sv))"

section \<open>Cache tools\<close>

record ReloadWorkspaceResult =
  rw_RootPath :: string
  rw_PackagePatterns :: "string list"
  rw_PackagesLoaded :: int
  rw_FunctionsLoaded :: int
  rw_CacheSize :: int
  rw_CacheCapacity :: int

record CacheStatusResult =
  ct_CacheSize :: int
  ct_CacheCapacity :: int
  ct_Entries :: "CacheRecord list"

record ClearCacheResult =
  lr_Cleared :: int
  lr_ClearedAll :: bool
  lr_CacheSize :: int
  lr_CacheCapacity :: int

text \<open>\<^verbatim>\<open>prog.Patterns\<close> are the patterns of the request.\<close>

definition handleReloadWorkspace ::
  "'f handler_env \<Rightarrow> analysis_input \<Rightarrow> server \<Rightarrow> ReloadWorkspaceResult reply \<times> server" where
  "handleReloadWorkspace env input =
     withDefaults env input (\<lambda>d sv.
       (case Reload (hx_exists env) (pg_sha256 (hx_paging env)) (hx_loadProgram env) (hx_times env)
               (ad_RootPath d) (ad_Pattern d) (sv_workspace sv) of
          (Inl e, w) \<Rightarrow> (toolError (ToolMsg e), sv\<lparr>sv_workspace := w\<rparr>)
        | (Inr prog, w) \<Rightarrow>
            (case wsStats w of (n, capacity) \<Rightarrow>
              (Reply \<lparr>rw_RootPath = ad_RootPath d,
                 rw_PackagePatterns = requestPatterns (hx_exists env) (ad_RootPath d) (ad_Pattern d),
                 rw_PackagesLoaded = int (length (lp_Packages prog)), rw_FunctionsLoaded = int (length (lp_SSAFuncs prog)),
                 rw_CacheSize = n, rw_CacheCapacity = capacity\<rparr>, sv\<lparr>sv_workspace := w\<rparr>))))"

definition handleCacheStatus :: "server \<Rightarrow> CacheStatusResult reply \<times> server" where
  "handleCacheStatus sv =
     (case wsStatus (sv_workspace sv) of (n, capacity, entries) \<Rightarrow>
       (Reply \<lparr>ct_CacheSize = n, ct_CacheCapacity = capacity, ct_Entries = entries\<rparr>, sv))"

definition handleClearCache ::
  "'f handler_env \<Rightarrow> ClearCacheInput \<Rightarrow> server \<Rightarrow> ClearCacheResult reply \<times> server" where
  "handleClearCache env input sv =
     (if li_All input then
        (case ClearAll (sv_workspace sv) of (w, cleared) \<Rightarrow>
           (case wsStats w of (n, capacity) \<Rightarrow>
              (Reply \<lparr>lr_Cleared = cleared, lr_ClearedAll = True, lr_CacheSize = n, lr_CacheCapacity = capacity\<rparr>,
               sv\<lparr>sv_workspace := w\<rparr>)))
      else withDefaults env input (\<lambda>d sv.
        (case wsClear (hx_exists env) (pg_sha256 (hx_paging env)) (ad_RootPath d) (ad_Pattern d) (sv_workspace sv) of (w, removed) \<Rightarrow>
           (case wsStats w of (n, capacity) \<Rightarrow>
              (Reply \<lparr>lr_Cleared = (if removed then 1 else 0), lr_ClearedAll = False, lr_CacheSize = n,
                 lr_CacheCapacity = capacity\<rparr>, sv\<lparr>sv_workspace := w\<rparr>)))) sv)"

section \<open>Configuration tools\<close>

record 'f WorkspaceConfigSuggestionResult =
  sr_RootPath :: string
  sr_ConfigPath :: string
  sr_Config :: "'f WorkspaceConfig"
  sr_YAML :: string
  sr_RecommendedNextStep :: string
  sr_Notes :: "string list"

definition handleInspectWorkspaceConfig :: "'f handler_env \<Rightarrow> string \<Rightarrow> 'f WorkspaceConfigInspection reply" where
  "handleInspectWorkspaceConfig env rootPath =
     (case resolveRootPath (hx_Getwd env) rootPath of
        Inl e \<Rightarrow> Failure e
      | Inr root \<Rightarrow> replyOf (msgResult (InspectWorkspaceConfig (hx_floats env) (hx_config env) root)))"

definition handleSuggestWorkspaceConfig :: "'f handler_env \<Rightarrow> string \<Rightarrow> 'f WorkspaceConfigSuggestionResult reply" where
  "handleSuggestWorkspaceConfig env rootPath =
     (case resolveRootPath (hx_Getwd env) rootPath of
        Inl e \<Rightarrow> Failure e
      | Inr root \<Rightarrow>
          (case SuggestWorkspaceConfig (hx_floats env) (hx_config env) root of
             Inl e \<Rightarrow> toolError (ToolMsg e)
           | Inr config \<Rightarrow>
               (case MarshalWorkspaceConfig (hx_config env) config of
                  Inl e \<Rightarrow> toolError (ToolMsg e)
                | Inr yaml \<Rightarrow> Reply \<lparr>sr_RootPath = root, sr_ConfigPath = RepoWorkspaceConfigPath root,
                    sr_Config = config, sr_YAML = yaml,
                    sr_RecommendedNextStep = ''Show this YAML to the user; call init_workspace_config only if the user explicitly asks to create .go-arch-xray.yml.'',
                    sr_Notes = [''suggestion only; no files were written'', ''explicit tool inputs override config defaults'']\<rparr>)))"

definition handleInitWorkspaceConfig ::
  "'f handler_env \<Rightarrow> InitWorkspaceConfigInput \<Rightarrow> 'f WorkspaceConfigInitResult reply \<times> string option" where
  "handleInitWorkspaceConfig env input =
     (case resolveRootPath (hx_Getwd env) (ii_RootPath input) of
        Inl e \<Rightarrow> (Failure e, None)
      | Inr root \<Rightarrow>
          (case InitWorkspaceConfig (hx_floats env) (hx_config env) root (ii_Overwrite input) of
             (result, written) \<Rightarrow> (replyOf (msgResult result), written)))"

text \<open>
  Dismissing and reopening the embeddings notice. The state of the configuration environment is
  threaded, since the state file that is written is read again; the reply names a nil dereference
  when that reading fails and the notice is to be reopened.
\<close>

record 'f EmbeddingsSettingsResult =
  er_Inspection :: "'f EmbeddingsSettingsInspection"
  er_State :: "UserWorkspaceState option"

definition saveState ::
  "'f handler_env \<Rightarrow> bool \<Rightarrow> UserWorkspaceState \<Rightarrow> 'f config_env \<Rightarrow> (string + UserWorkspaceState) \<times> 'f config_env" where
  "saveState env dismissed st config =
     (case SaveUserWorkspaceState config (hx_mkdir_error env) (hx_state_json env)
             (Some (st\<lparr>us_Dismissed := dismissed, us_UpdatedAt := hx_clock env\<rparr>)) of
        (result, None) \<Rightarrow> (result, config)
      | (result, Some data) \<Rightarrow>
          (result, config\<lparr>ev_ReadFile := (ev_ReadFile config)(UserWorkspaceStatePath config := Inr data)\<rparr>))"

definition dismissNotice ::
  "'f handler_env \<Rightarrow> bool \<Rightarrow> UserWorkspaceState \<Rightarrow> 'f EmbeddingsSettingsInspection \<Rightarrow> 'f config_env \<Rightarrow>
   (string + UserWorkspaceState option \<times> 'f EmbeddingsSettingsInspection) \<times> 'f config_env" where
  "dismissNotice env dismiss st inspection config =
     (if \<not> dismiss then (Inr (Some st, inspection), config)
      else case saveState env True st config of
        (Inl e, config) \<Rightarrow> (Inl e, config)
      | (Inr _, config) \<Rightarrow>
          (Inr (case LoadUserWorkspaceState config of Inl _ \<Rightarrow> None | Inr st \<Rightarrow> Some st,
                inspection\<lparr>ei_EmbeddingsSetupRequired := False, ei_EmbeddingsSetupDismissed := True,
                  ei_RecommendedNextStep := ''Embeddings setup notice dismissed; call inspect_embeddings_settings with reopen=true to show it again.''\<rparr>),
           config))"

definition handleInspectEmbeddingsSettings ::
  "'f handler_env \<Rightarrow> EmbeddingsSettingsInput \<Rightarrow> 'f config_env \<Rightarrow> 'f EmbeddingsSettingsResult reply \<times> 'f config_env" where
  "handleInspectEmbeddingsSettings env input config =
     (case resolveRootPath (hx_Getwd env) (ai_RootPath input) of Inl e \<Rightarrow> (Failure e, config) | Inr root \<Rightarrow>
     (case InspectEmbeddingsSettings (hx_floats env) config root of Inl e \<Rightarrow> (toolError (ToolMsg e), config) | Inr inspection \<Rightarrow>
     (case LoadUserWorkspaceState config of Inl e \<Rightarrow> (toolError (ToolMsg e), config) | Inr st \<Rightarrow>
     (case dismissNotice env (ai_Dismiss input) st inspection config of
        (Inl e, config) \<Rightarrow> (toolError (ToolMsg e), config)
      | (Inr (st, inspection), config) \<Rightarrow>
          if \<not> ai_Reopen input then (Reply \<lparr>er_Inspection = inspection, er_State = st\<rparr>, config)
          else case st of
            None \<Rightarrow> (Failure ''nil pointer dereference'', config)
          | Some st \<Rightarrow>
              (case saveState env False st config of
                 (Inl e, config) \<Rightarrow> (toolError (ToolMsg e), config)
               | (Inr saved, config) \<Rightarrow>
                   (let configured = ei_EmbeddingsConfigured inspection
                    in (Reply \<lparr>er_Inspection = inspection\<lparr>
                           ei_EmbeddingsSetupRequired := EmbeddingsSetupRequired configured False,
                           ei_EmbeddingsSetupDismissed := False,
                           ei_RecommendedNextStep := EmbeddingsRecommendedNextStep configured False\<rparr>,
                          er_State = Some saved\<rparr>, config)))))))"

section \<open>The lock protocol of the slow tools\<close>

text \<open>
  What a slow tool may do to the lock: nothing if its defaults cannot be resolved; if somebody
  else holds the lock, answer busy and leave the holder in place; otherwise answer, and leave the
  lock free.
\<close>

definition lock_protocol :: "string \<Rightarrow> server \<Rightarrow> 'r reply \<times> server \<Rightarrow> bool" where
  "lock_protocol owner sv out \<longleftrightarrow>
     (case sv_mutex sv of
        None \<Rightarrow> sv_mutex (snd out) = None
      | Some m \<Rightarrow>
          (\<exists>e. fst out = ErrorReply (ToolMsg e)) \<and> sv_mutex (snd out) = Some m
        \<or> cm_holder m \<notin> {'''', owner} \<and> (\<exists>b. fst out = BusyReply b)
            \<and> (\<exists>m'. sv_mutex (snd out) = Some m' \<and> cm_holder m' = cm_holder m)
        \<or> cm_holder m \<in> {'''', owner} \<and> (\<forall>b. fst out \<noteq> BusyReply b)
            \<and> sv_mutex (snd out) = Some (m\<lparr>cm_holder := '''', cm_priority := PriorityLow, cm_aborted := False\<rparr>))"

lemma resolve_mutex: "resolveAnalysisDefaults env input sv = (d, sv') \<Longrightarrow> sv_mutex sv' = sv_mutex sv"
  by (auto simp: resolveAnalysisDefaults_def split: sum.splits if_splits)

lemma slowTool_protocol:
  assumes "owner \<noteq> ''''" "\<And>e. result \<noteq> Inl (ToolLock e)"
  shows "lock_protocol owner sv (slowTool owner result sv)"
  using assms
  by (auto simp: lock_protocol_def slowTool_def beginSlowPath_def TryLock_def Unlock_def handleBusyError_def
      replyOf_def toolError_def split: option.splits sum.splits tool_error.splits if_splits)

lemma withDefaults_protocol:
  assumes "\<And>d sv. lock_protocol owner sv (body d sv)"
  shows "lock_protocol owner sv (withDefaults env input body sv)"
proof (cases "resolveAnalysisDefaults env input sv")
  case (Pair d sv')
  show ?thesis
  proof (cases d)
    case (Inl e)
    with Pair show ?thesis
      by (simp add: withDefaults_def lock_protocol_def toolError_def resolve_mutex [OF Pair] split: option.splits)
  next
    case (Inr x)
    have "lock_protocol owner sv' (body x sv')" by (rule assms)
    with Pair Inr show ?thesis by (simp add: withDefaults_def lock_protocol_def resolve_mutex [OF Pair])
  qed
qed

lemma not_lock_errors:
  "pageResult r \<noteq> Inl (ToolLock e)" "msgResult q \<noteq> Inl (ToolLock e)" "queryResult t \<noteq> Inl (ToolLock e)"
  "(\<And>p. body p \<noteq> Inl (ToolLock e)) \<Longrightarrow> loaded prog body \<noteq> Inl (ToolLock e)"
  "(\<And>x. body' x \<noteq> Inl (ToolLock e)) \<Longrightarrow> exporting ex body' \<noteq> Inl (ToolLock e)"
  by (auto simp: pageResult_def msgResult_def queryResult_def loaded_def exporting_def split: sum.splits query_error.splits)

text \<open>The slow tools of this theory keep the protocol.\<close>

lemma call_tools_lock_protocol:
  "lock_protocol ''analyze_call_hierarchy'' sv (handleAnalyzeCallHierarchy env hier sv)
   \<and> lock_protocol ''find_callers'' sv (handleFindCallers env callers_in sv)
   \<and> lock_protocol ''find_call_path'' sv (handleFindCallPath env path_in sv)
   \<and> lock_protocol ''find_dead_code'' sv (handleFindDeadCode env dead_in sv)"
  unfolding handleAnalyzeCallHierarchy_def handleFindCallers_def handleFindCallPath_def handleFindDeadCode_def
  by (intro conjI withDefaults_protocol slowTool_protocol not_lock_errors) simp_all

section \<open>Options\<close>

text \<open>The configurations that exist for a root, in the order in which they are merged.\<close>

definition configLayers :: "'f float_ops \<Rightarrow> 'f config_env \<Rightarrow> string \<Rightarrow> 'f WorkspaceConfig list \<Rightarrow> bool" where
  "configLayers F env root ls \<longleftrightarrow>
     (\<exists>u r p. loadOptionalWorkspaceConfigWithRaw F env (UserWorkspaceConfigPath env) = Inr u
        \<and> loadOptionalWorkspaceConfigWithRaw F env (RepoWorkspaceConfigPath root) = Inr r
        \<and> loadOptionalWorkspaceConfigWithRaw F env (ProjectWorkspaceConfigPath root) = Inr p
        \<and> ls = map fst (filter snd [u, r, p]))"

text \<open>
  C35: the options an analysis runs with: a number given in the call wins; otherwise the last of
  the user, repository and project configurations that sets it; otherwise none applies.
\<close>

theorem options_precedence:
  assumes "resolveAnalysisDefaults env input sv = (Inr d, sv')"
    and "queryOf (ad_Config d) inp summary export = q"
  shows "\<exists>ls. configLayers (hx_floats env) (hx_config env) (ad_RootPath d) ls
     \<and> qo_Limit q = (if in_Limit inp \<noteq> 0 then in_Limit inp else lastSet setInt (map (ou_Limit \<circ> wc_Output) ls) 0)
     \<and> qo_Offset q = (if in_Offset inp \<noteq> 0 then in_Offset inp else lastSet setInt (map (ou_Offset \<circ> wc_Output) ls) 0)
     \<and> qo_MaxItems q = (if in_MaxItems inp \<noteq> 0 then in_MaxItems inp else lastSet setInt (map (ou_MaxItems \<circ> wc_Output) ls) 0)
     \<and> qo_ChunkSize q = (if in_ChunkSize inp \<noteq> 0 then in_ChunkSize inp else lastSet setInt (map (ou_ChunkSize \<circ> wc_Output) ls) 0)
     \<and> qo_Summary q = (summary \<or> (\<exists>l \<in> set ls. ou_Summary (wc_Output l)))
     \<and> qo_Cursor q = in_Cursor inp \<and> qo_Export q = export"
proof -
  let ?F = "hx_floats env" and ?E = "hx_config env"
  obtain c where c: "EffectiveWorkspaceConfig ?F ?E (ad_RootPath d) = Inr c" "ad_Config d = c"
    using assms(1) by (auto simp: resolveAnalysisDefaults_def split: sum.splits if_splits)
  then obtain base res where base: "SuggestWorkspaceConfig ?F ?E (ad_RootPath d) = Inr base"
    "effectiveWorkspaceConfigWithSources ?F ?E (ad_RootPath d) base = Inr (c, res)"
    by (auto simp: EffectiveWorkspaceConfig_def split: sum.splits)
  have out: "wc_Output base = \<lparr>ou_Limit = 0, ou_Offset = 0, ou_MaxItems = 0, ou_ChunkSize = 0, ou_Summary = False\<rparr>"
    using base(1) by (rule suggested_output)
  obtain ls where ls: "configLayers ?F ?E (ad_RootPath d) ls" "layered ls base c"
    using effective_layers [OF base(2) suggested_wf [OF base(1)]] unfolding configLayers_def by blast
  then have fields: "ou_Limit (wc_Output c) = lastSet setInt (map (ou_Limit \<circ> wc_Output) ls) 0"
    "ou_Offset (wc_Output c) = lastSet setInt (map (ou_Offset \<circ> wc_Output) ls) 0"
    "ou_MaxItems (wc_Output c) = lastSet setInt (map (ou_MaxItems \<circ> wc_Output) ls) 0"
    "ou_ChunkSize (wc_Output c) = lastSet setInt (map (ou_ChunkSize \<circ> wc_Output) ls) 0"
    "ou_Summary (wc_Output c) \<longleftrightarrow> (\<exists>l \<in> set ls. ou_Summary (wc_Output l))"
    by (simp_all add: layered_def out)
  show ?thesis
    unfolding assms(2) [symmetric] queryOf_def queryOptionsWithConfig_def Let_def c(2)
    by (rule exI [of _ ls]) (simp add: ls(1) fields [symmetric])
qed

section \<open>Reloading\<close>

lemma capacity_SetCapacity: "cache_inv t w \<Longrightarrow> 0 < n \<Longrightarrow> ws_capacity (SetCapacity n w) = n"
  using evictLocked_spec [of "w\<lparr>ws_capacity := n\<rparr>"] by (simp add: SetCapacity_def cache_inv_def agrees_def)

lemma removeKey_fields: "ws_capacity (fst (removeKey key w)) = ws_capacity w" "ws_cache (fst (removeKey key w)) key = None"
  by (auto simp: removeKey_def split: option.splits)

lemma resolve_workspace:
  assumes "resolveAnalysisDefaults env input sv = (Inr d, sv1)" "cache_inv t (sv_workspace sv)"
  shows "cache_inv t (sv_workspace sv1)"
    and "0 < wc_CacheCapacity (ad_Config d) \<Longrightarrow> ws_capacity (sv_workspace sv1) = wc_CacheCapacity (ad_Config d)"
  using assms inv_SetCapacity [OF assms(2)] capacity_SetCapacity [OF assms(2)]
  by (auto simp: resolveAnalysisDefaults_def split: sum.splits if_splits)

text \<open>
  A reload puts the program just loaded in front of the cache, under the key of the resolved
  root and patterns, whatever the cache held for it; it applies the configured capacity, keeps the
  cache well formed, and reports the counts of the new state.
\<close>

theorem reload_refreshes_cache:
  assumes inv: "cache_inv t (sv_workspace sv)" and t: "t \<le> snd (hx_times env)"
    and d: "resolveAnalysisDefaults env input sv = (Inr d, sv1)"
    and load: "hx_loadProgram env (ad_RootPath d)
        (requestPatterns (hx_exists env) (ad_RootPath d) (ad_Pattern d)) LoadModeTypes = Inr prog"
  shows "\<exists>r sv'. handleReloadWorkspace env input sv = (Reply r, sv')
     \<and> cache_inv (snd (hx_times env)) (sv_workspace sv')
     \<and> hd (lru_of (sv_workspace sv')) = (makeCacheKey (pg_sha256 (hx_paging env)) (ad_RootPath d)
          (requestPatterns (hx_exists env) (ad_RootPath d) (ad_Pattern d)), prog)
     \<and> rw_PackagesLoaded r = int (length (lp_Packages prog)) \<and> rw_FunctionsLoaded r = int (length (lp_SSAFuncs prog))
     \<and> rw_CacheSize r = int (length (lru_of (sv_workspace sv'))) \<and> rw_CacheSize r \<le> rw_CacheCapacity r
     \<and> (0 < wc_CacheCapacity (ad_Config d) \<longrightarrow> rw_CacheCapacity r = wc_CacheCapacity (ad_Config d))
     \<and> sv_mutex sv' = sv_mutex sv"
proof -
  let ?key = "makeCacheKey (pg_sha256 (hx_paging env)) (ad_RootPath d)
      (requestPatterns (hx_exists env) (ad_RootPath d) (ad_Pattern d))"
  let ?w = "fst (removeKey ?key (sv_workspace sv1))" and ?now = "snd (hx_times env)"
  define out where "out = cacheInsert ?key (ad_RootPath d) (requestPatterns (hx_exists env) (ad_RootPath d) (ad_Pattern d))
      LoadModeTypes prog ?now ?w"
  have inv1: "cache_inv t ?w" using inv_removeKey [OF resolve_workspace(1) [OF d inv]] .
  have miss: "cacheHit ?key LoadModeTypes now ?w = None" for now by (simp add: cacheHit_def removeKey_fields)
  from insert_cases [OF inv1 t miss] have out: "cache_inv ?now (snd out)" "fst out = prog"
    "lru_of (snd out) = lru_use (nat (ws_capacity ?w)) ?key prog (lru_of ?w)" "ws_capacity (snd out) = ws_capacity ?w"
    by (simp_all add: out_def)
  have pair: "cacheInsert ?key (ad_RootPath d) (requestPatterns (hx_exists env) (ad_RootPath d) (ad_Pattern d))
      LoadModeTypes prog ?now ?w = (prog, snd out)" using out(2) unfolding out_def by (metis prod.collapse)
  have cap: "1 \<le> ws_capacity ?w" using inv1 by (simp add: cache_inv_def within_capacity_def)
  have "handleReloadWorkspace env input sv =
      (Reply \<lparr>rw_RootPath = ad_RootPath d, rw_PackagePatterns = requestPatterns (hx_exists env) (ad_RootPath d) (ad_Pattern d),
         rw_PackagesLoaded = int (length (lp_Packages prog)), rw_FunctionsLoaded = int (length (lp_SSAFuncs prog)),
         rw_CacheSize = int (length (ws_order (snd out))), rw_CacheCapacity = ws_capacity (snd out)\<rparr>,
       sv1\<lparr>sv_workspace := snd out\<rparr>)"
    by (simp add: handleReloadWorkspace_def withDefaults_def d Reload_def Invalidate_def getOrLoad_def miss load wsStats_def
        pair Let_def)
  moreover have "hd (lru_of (snd out)) = (?key, prog)"
    unfolding out(3) lru_use_def using cap by (cases "nat (ws_capacity ?w)") auto
  moreover have "int (length (ws_order (snd out))) \<le> ws_capacity (snd out)"
    using out(1) by (simp add: cache_inv_def within_capacity_def)
  moreover have "length (lru_of (snd out)) = length (ws_order (snd out))" by (simp add: lru_of_def)
  moreover have "ws_capacity (snd out) = wc_CacheCapacity (ad_Config d)" if "0 < wc_CacheCapacity (ad_Config d)"
    using resolve_workspace(2) [OF d inv that] by (simp add: out(4) removeKey_fields)
  ultimately show ?thesis using out(1) resolve_mutex [OF d] by simp
qed

section \<open>A whole request\<close>

text \<open>
  A call hierarchy request from end to end: when its defaults resolve, nobody holds the lock,
  the workspace delivers a program with the function, and neither the call nor the configuration
  limits the output, the reply is the complete hierarchy and the lock is free again.
\<close>

theorem call_hierarchy_request:
  fixes env :: "'f handler_env" and input :: CallHierarchyInput
  assumes d: "resolveAnalysisDefaults env input sv = (Inr d, sv1)"
    and lock: "sv_mutex sv = Some m" "cm_holder m = ''''"
    and export: "ParseExportFormat (hi_Export input) = Inr export"
    and paging: "no_paging (queryOf (ad_Config d) input (hi_Summary input) export)"
    and name: "TrimSpace (hi_FunctionName input) \<noteq> ''''"
    and prog: "hx_ssa env (ad_RootPath d) (ad_Pattern d) = Inr p0"
      "findFunctionWithFallback (hx_ssa env (ad_RootPath d)) (hx_fallback env (ad_RootPath d) (ad_Pattern d))
         (ad_Pattern d) p0 (hi_FunctionName input) = Inr (prog, f)"
      "cg_Nodes (sp_Graph prog) (fn_ref f) = Some root"
  shows "\<exists>r sv'. handleAnalyzeCallHierarchy env input sv = (Reply r, sv')
     \<and> hr_RootFunction r = fn_String f
     \<and> reports (sp_Graph prog) (cg_Out (sp_Graph prog)) eg_Callee root (hr_MaxDepth r) (hr_Edges r)
     \<and> map_option cm_holder (sv_mutex sv') = Some ''''"
proof -
  obtain r where r: "AnalyzeCallHierarchyWithOptions (hx_paging env) (hx_ssa env (ad_RootPath d))
      (hx_fallback env (ad_RootPath d) (ad_Pattern d)) (ad_Pattern d) (hi_FunctionName input) (hi_MaxDepth input)
      (queryOf (ad_Config d) input (hi_Summary input) export) = Inr r" "hr_RootFunction r = fn_String f"
    "reports (sp_Graph prog) (cg_Out (sp_Graph prog)) eg_Callee root (hr_MaxDepth r) (hr_Edges r)"
    using hierarchy_run [OF name prog(1,2,3) paging] by blast
  have "sv_mutex sv1 = Some m" using resolve_mutex [OF d] lock(1) by simp
  then show ?thesis
    using r lock(2)
    by (simp add: handleAnalyzeCallHierarchy_def withDefaults_def d exporting_def export queryResult_def slowTool_def
        beginSlowPath_def TryLock_def Unlock_def handleBusyError_def replyOf_def)
qed

section \<open>Concrete requests\<close>

text \<open>
  A server with an empty cache and a free lock, a root with and one without a configuration file,
  and a workspace that delivers the sample program of the call graph.
\<close>

definition bare_config_env :: "int config_env" where
  "bare_config_env = sample_config_env\<lparr>ev_ReadFile := (\<lambda>p. if p = ''/w/go.mod'' then Inr ''app'' else Inl NotExist)\<rparr>"

definition sample_handler_env :: "int config_env \<Rightarrow> int handler_env" where
  "sample_handler_env config = \<lparr>hx_Getwd = Inl '''', hx_config = config, hx_floats = sample_floats, hx_paging = sample_paging,
     hx_exists = (\<lambda>_. True), hx_loadProgram = (\<lambda>_ _ _. Inr sample_prog), hx_times = (1, 2),
     hx_packages = (\<lambda>_ _. Inr []), hx_rows = (\<lambda>_ _. Inr []), hx_located = (\<lambda>_ _. Inr []),
     hx_ssa = (\<lambda>_. sample_load), hx_fallback = (\<lambda>_ _. []), hx_dead = (\<lambda>_ _. Inl ''''), hx_metrics = (\<lambda>_ _. Inr []),
     hx_mkdir_error = (\<lambda>_. None), hx_state_json = (\<lambda>_. Inr ''state''), hx_clock = 0\<rparr>"

definition sample_server :: server where
  "sample_server = \<lparr>sv_workspace = NewWorkspace '''', sv_mutex = Some NewComputeMutex\<rparr>"

definition sample_input :: CallHierarchyInput where
  "sample_input = \<lparr>in_RootPath = ''/w'', in_PackagePattern = ''./...'', in_PackagePatterns = [], in_Offset = 0, in_Limit = 0,
     in_MaxItems = 0, in_ChunkSize = 0, in_Cursor = '''', hi_FunctionName = ''main'', hi_MaxDepth = 2,
     hi_Summary = False, hi_Export = ''''\<rparr>"

lemma bare_loads:
  "loadOptionalWorkspaceConfigWithRaw sample_floats bare_config_env (UserWorkspaceConfigPath bare_config_env) = Inr (noWorkspaceConfig sample_floats, False)"
  "loadOptionalWorkspaceConfigWithRaw sample_floats bare_config_env (RepoWorkspaceConfigPath ''/w'') = Inr (noWorkspaceConfig sample_floats, False)"
  "loadOptionalWorkspaceConfigWithRaw sample_floats bare_config_env (ProjectWorkspaceConfigPath ''/w'') = Inr (noWorkspaceConfig sample_floats, False)"
  by code_simp+

lemma bare_suggested: "\<exists>base. SuggestWorkspaceConfig sample_floats bare_config_env ''/w'' = Inr base"
proof -
  have "Clean ''/w'' = ''/w''" "JoinPath [''/w'', ''go.work''] = ''/w/go.work''" "JoinPath [''/w'', ''go.mod''] = ''/w/go.mod''"
    "\<not> pathExists (ev_exists bare_config_env) ''/w/go.work''" "pathExists (ev_exists bare_config_env) ''/w/go.mod''"
    "readGoModulePath bare_config_env ''/w/go.mod'' = Inr ''app''"
    by code_simp+
  then show ?thesis unfolding SuggestWorkspaceConfig_def Let_def by simp
qed

lemma sample_pattern: "mergePatternsWithDefault ''./...'' [] ps = ''./...''"
  by (simp add: mergePatternsWithDefault_def mergePatterns_def TrimSpace_default)

lemma sample_resolve:
  assumes "EffectiveWorkspaceConfig sample_floats config ''/w'' = Inr c"
  shows "\<exists>sv1. resolveAnalysisDefaults (sample_handler_env config) sample_input sample_server
     = (Inr \<lparr>ad_RootPath = ''/w'', ad_Pattern = ''./...'', ad_Config = c\<rparr>, sv1)"
  using assms by (simp add: resolveAnalysisDefaults_def resolveRootPath_def sample_handler_env_def sample_input_def sample_pattern)

theorem options_precedence_witness:
  "\<exists>d sv1. resolveAnalysisDefaults (sample_handler_env sample_config_env) sample_input sample_server = (Inr d, sv1)
     \<and> qo_Limit (queryOf (ad_Config d) sample_input False ExportNone) = 5"
proof -
  obtain c where "EffectiveWorkspaceConfig sample_floats sample_config_env ''/w'' = Inr c" using sample_effective by blast
  from sample_resolve [OF this] obtain sv1 where d:
    "resolveAnalysisDefaults (sample_handler_env sample_config_env) sample_input sample_server
      = (Inr \<lparr>ad_RootPath = ''/w'', ad_Pattern = ''./...'', ad_Config = c\<rparr>, sv1)" by blast
  have "qo_Limit (queryOf c sample_input False ExportNone) = 5"
    using options_precedence [OF d, of sample_input False ExportNone]
    by (auto simp: configLayers_def sample_handler_env_def sample_loads sample_input_def lastSet_def setInt_def sample_repo_config_def)
  with d show ?thesis by force
qed

theorem reload_refreshes_cache_witness:
  "\<exists>r sv'. handleReloadWorkspace (sample_handler_env sample_config_env)
       \<lparr>in_RootPath = ''/w'', in_PackagePattern = ''./...'', in_PackagePatterns = []\<rparr> sample_server = (Reply r, sv')
     \<and> rw_PackagesLoaded r = 1 \<and> snd (hd (lru_of (sv_workspace sv'))) = sample_prog"
proof -
  let ?env = "sample_handler_env sample_config_env"
  obtain c where "EffectiveWorkspaceConfig sample_floats sample_config_env ''/w'' = Inr c" using sample_effective by blast
  then obtain d sv1 where d: "resolveAnalysisDefaults ?env \<lparr>in_RootPath = ''/w'', in_PackagePattern = ''./...'', in_PackagePatterns = []\<rparr>
      sample_server = (Inr d, sv1)"
    by (simp add: resolveAnalysisDefaults_def resolveRootPath_def sample_handler_env_def)
  have "hx_loadProgram ?env root ps m = Inr sample_prog" "0 \<le> snd (hx_times ?env)" for root ps m
    by (simp_all add: sample_handler_env_def)
  moreover have "cache_inv 0 (sv_workspace sample_server)" by (simp add: sample_server_def inv_new)
  ultimately show ?thesis
    using reload_refreshes_cache [OF _ _ d, of 0 sample_prog] by (auto simp: sample_prog_def)
qed

theorem call_hierarchy_request_witness:
  "\<exists>r sv'. handleAnalyzeCallHierarchy (sample_handler_env bare_config_env) sample_input sample_server = (Reply r, sv')
     \<and> map_option cm_holder (sv_mutex sv') = Some ''''"
proof -
  let ?env = "sample_handler_env bare_config_env"
  obtain base where base: "SuggestWorkspaceConfig sample_floats bare_config_env ''/w'' = Inr base" using bare_suggested by blast
  then obtain c where c: "EffectiveWorkspaceConfig sample_floats bare_config_env ''/w'' = Inr c" "c = normalizeWorkspaceConfig base"
    by (simp add: EffectiveWorkspaceConfig_def effectiveWorkspaceConfigWithSources_def bare_loads Let_def)
  then obtain sv1 where d: "resolveAnalysisDefaults ?env sample_input sample_server
      = (Inr \<lparr>ad_RootPath = ''/w'', ad_Pattern = ''./...'', ad_Config = c\<rparr>, sv1)" using sample_resolve by blast
  have "wc_Output c = \<lparr>ou_Limit = 0, ou_Offset = 0, ou_MaxItems = 0, ou_ChunkSize = 0, ou_Summary = False\<rparr>"
    using suggested_output [OF base] by (simp add: c(2) normalize_fields)
  then have paging: "no_paging (queryOf c sample_input (hi_Summary sample_input) ExportNone)"
    by (simp add: no_paging_def queryOf_def queryOptionsWithConfig_def sample_input_def Let_def)
  have "ParseExportFormat (hi_Export sample_input) = Inr ExportNone" by code_simp
  from call_hierarchy_request [OF d _ _ this _ _ _ _ sample_finds(3), of NewComputeMutex] paging
  show ?thesis
    using sample_finds(1) sample_nonblank(1)
    by (auto simp: sample_server_def NewComputeMutex_def sample_handler_env_def sample_load_def sample_input_def)
qed

end
