(* ===== verification/Workflows.thy ===== *)
theory Workflows
  imports Go_Strings
begin

text \<open>
  The workflow guide of the server in \<^verbatim>\<open>main.go\<close>: the table of workflows, the choice of one for
  a task, and the texts served as tool results, prompts and resources.
\<close>

record analysisWorkflow =
  aw_Name :: string
  aw_Title :: string
  aw_Description :: string
  aw_Tools :: "string list"
  aw_Steps :: "string list"
  aw_Notes :: "string list"

definition wf_onboarding :: analysisWorkflow where
  "wf_onboarding = \<lparr>aw_Name = ''onboarding'', aw_Title = ''Go Repository Onboarding'',
     aw_Description = ''Understand a Go repository's package topology, runtime entrypoints, and main complexity hotspots.'',
     aw_Tools = [''inspect_workspace_config'', ''get_package_dependencies'', ''list_entrypoints'', ''compute_complexity_metrics''],
     aw_Steps = [
       ''Call inspect_workspace_config once with the active root_path and use effective_config package patterns.'',
       ''Call get_package_dependencies with summary=true and chunk_size 20-50 to map package topology before raw file search.'',
       ''Call list_entrypoints with chunk_size 20-50 to find main/init/goroutine starts.'',
       ''Call compute_complexity_metrics with include_packages=true and sort_by=\"cognitive\" to find functions that need careful reading.''],
     aw_Notes = []\<rparr>"

definition wf_refactor_precheck :: analysisWorkflow where
  "wf_refactor_precheck = \<lparr>aw_Name = ''refactor_precheck'', aw_Title = ''Refactor Precheck'',
     aw_Description = ''Map impact and risk before changing Go code, then verify topology after edits.'',
     aw_Tools = [''inspect_workspace_config'', ''compute_complexity_metrics'', ''find_callers'', ''analyze_call_hierarchy'', ''find_reverse_dependencies'', ''reload_workspace''],
     aw_Steps = [
       ''Call inspect_workspace_config once with the active root_path.'',
       ''Call compute_complexity_metrics for the target package or function area before editing.'',
       ''Call find_callers for target functions to map incoming impact.'',
       ''Call analyze_call_hierarchy for target functions to map outgoing behavior, using chunk_size when output can grow.'',
       ''Call find_reverse_dependencies for package-level changes.'',
       ''After edits, call reload_workspace with the same root_path and package pattern, then rerun the relevant topology checks.''],
     aw_Notes = []\<rparr>"

definition wf_cleanup :: analysisWorkflow where
  "wf_cleanup = \<lparr>aw_Name = ''cleanup'', aw_Title = ''Cleanup Audit'',
     aw_Description = ''Find dead code, duplicate methods, and orphaned database models while keeping reported candidates scoped.'',
     aw_Tools = [''inspect_workspace_config'', ''find_dead_code'', ''find_duplicate_methods'', ''find_orphaned_database_models''],
     aw_Steps = [
       ''Call inspect_workspace_config once and load broad enough package patterns for cross-package references.'',
       ''When reviewing one subtree, pass package_pattern or package_patterns for the loaded workspace and scope_package_pattern for reported candidates.'',
       ''Call find_dead_code in precision mode first; use include_exported=true only when auditing an internal-only public surface.'',
       ''Call find_duplicate_methods with a practical min_body_lines threshold.'',
       ''Call find_orphaned_database_models when ORM models may exist; treat findings as review signals and propagate notes.''],
     aw_Notes = []\<rparr>"

definition wf_api_surface_inventory :: analysisWorkflow where
  "wf_api_surface_inventory = \<lparr>aw_Name = ''api_surface_inventory'', aw_Title = ''API Surface Inventory'',
     aw_Description = ''Inventory HTTP routes and gRPC services exposed by a Go repository.'',
     aw_Tools = [''inspect_workspace_config'', ''list_http_routes'', ''list_grpc_endpoints'', ''list_entrypoints''],
     aw_Steps = [
       ''Call inspect_workspace_config once with the active root_path.'',
       ''Call list_http_routes with chunk_size 20-50 for HTTP endpoints.'',
       ''Call list_grpc_endpoints with chunk_size 20-50 for generated grpc-go descriptors and registrations.'',
       ''If gRPC results are empty, retry with package patterns that include generated *.pb.go or *_grpc.pb.go packages.'',
       ''Call list_entrypoints when you need to connect endpoint registration to runtime startup.''],
     aw_Notes = []\<rparr>"

definition wf_concurrency_review :: analysisWorkflow where
  "wf_concurrency_review = \<lparr>aw_Name = ''concurrency_review'', aw_Title = ''Concurrency Review'',
     aw_Description = ''Review goroutine entrypoints, shared-field risks, and struct lifecycle evidence.'',
     aw_Tools = [''inspect_workspace_config'', ''list_entrypoints'', ''detect_concurrency_risks'', ''trace_struct_lifecycle''],
     aw_Steps = [
       ''Call inspect_workspace_config once with the active root_path.'',
       ''Call list_entrypoints to find goroutine spawn sites.'',
       ''Call detect_concurrency_risks for bounded SSA access-risk summaries.'',
       ''Use trace_struct_lifecycle for structs involved in findings to inspect instantiation, mutation, and interface handoff points.'',
       ''Treat concurrency findings as review signals, not runtime-proven races.''],
     aw_Notes = []\<rparr>"

definition wf_architecture_check :: analysisWorkflow where
  "wf_architecture_check = \<lparr>aw_Name = ''architecture_check'', aw_Title = ''Architecture Check'',
     aw_Description = ''Map package imports, reverse dependencies, cycles, and configured architecture boundary rules.'',
     aw_Tools = [''inspect_workspace_config'', ''get_package_dependencies'', ''detect_import_cycles'', ''find_reverse_dependencies'', ''check_architecture_boundaries''],
     aw_Steps = [
       ''Call inspect_workspace_config once and prefer configured package patterns.'',
       ''Call get_package_dependencies with summary=true to map direct imports.'',
       ''Call detect_import_cycles before changing package layering.'',
       ''Call find_reverse_dependencies for package impact questions.'',
       ''Call check_architecture_boundaries when boundary rules exist in config or are supplied by the user.''],
     aw_Notes = []\<rparr>"

definition analysisWorkflows :: "analysisWorkflow list" where
  "analysisWorkflows = [wf_onboarding, wf_refactor_precheck, wf_cleanup, wf_api_surface_inventory, wf_concurrency_review, wf_architecture_check]"

definition defaultWorkflowNotes :: "string list" where
  "defaultWorkflowNotes = [
     ''Always pass root_path explicitly.'',
     ''Prefer chunk_size 20-50 for slice-returning tools and continue with cursor while has_more=true when completeness matters.'',
     ''If results look stale, empty, or mismatched, call reload_workspace with the same root_path and package pattern, then retry.'',
     ''Use raw file search only after the relevant MCP workflow has been attempted or when the needed detail is outside the available tools.'']"

text \<open>The names of the tools the server offers; their descriptions are left out.\<close>

definition serverToolNames :: "string list" where
  "serverToolNames = [
     ''get_interface_topology'', ''get_package_dependencies'', ''reload_workspace'', ''analyze_call_hierarchy'',
     ''find_callers'', ''trace_struct_lifecycle'', ''detect_concurrency_risks'', ''find_call_path'',
     ''detect_import_cycles'', ''find_reverse_dependencies'', ''cache_status'', ''inspect_workspace_config'',
     ''inspect_embeddings_settings'', ''suggest_workspace_config'', ''init_workspace_config'', ''clear_cache'',
     ''check_architecture_boundaries'', ''list_entrypoints'', ''list_http_routes'', ''list_grpc_endpoints'',
     ''find_dead_code'', ''find_duplicate_methods'', ''compute_complexity_metrics'', ''find_orphaned_database_models'',
     ''semantic_search'', ''suggest_analysis_workflow'']"

section \<open>Choosing a workflow\<close>

definition noWorkflow :: analysisWorkflow where
  "noWorkflow = \<lparr>aw_Name = '''', aw_Title = '''', aw_Description = '''', aw_Tools = [], aw_Steps = [], aw_Notes = []\<rparr>"

definition workflowByName :: "string \<Rightarrow> analysisWorkflow" where
  "workflowByName name =
     (case find (\<lambda>w. aw_Name w = TrimSpace (ToLower name)) analysisWorkflows of
        Some w \<Rightarrow> w | None \<Rightarrow> noWorkflow)"

definition mentions :: "string \<Rightarrow> string list \<Rightarrow> bool" where
  "mentions task words \<longleftrightarrow> list_ex (Contains task) words"

definition selectAnalysisWorkflow :: "string \<Rightarrow> analysisWorkflow" where
  "selectAnalysisWorkflow task =
     (let normalized = ToLower (TrimSpace task)
      in if normalized = '''' then workflowByName ''onboarding''
         else if mentions normalized [''refactor'', ''impact'', ''change''] then workflowByName ''refactor_precheck''
         else if mentions normalized [''dead'', ''duplicate'', ''orphan'', ''cleanup'', ''unused''] then workflowByName ''cleanup''
         else if mentions normalized [''http'', ''route'', ''grpc'', ''api'', ''endpoint''] then workflowByName ''api_surface_inventory''
         else if mentions normalized [''concurrency'', ''goroutine'', ''race'', ''lock''] then workflowByName ''concurrency_review''
         else if mentions normalized [''architecture'', ''boundary'', ''dependency'', ''import'', ''cycle''] then workflowByName ''architecture_check''
         else workflowByName ''onboarding'')"

section \<open>Texts\<close>

definition newline :: string where "newline = [CHR 0x0A]"

fun numberedSteps :: "int \<Rightarrow> string list \<Rightarrow> string" where
  "numberedSteps i [] = ''''"
| "numberedSteps i (step # steps) = Itoa i @ ''. '' @ step @ newline @ numberedSteps (i + 1) steps"

definition bullets :: "string list \<Rightarrow> string" where
  "bullets notes = concat (map (\<lambda>note. ''- '' @ note @ newline) notes)"

definition workflowMarkdown :: "analysisWorkflow \<Rightarrow> string" where
  "workflowMarkdown w =
     ''# '' @ aw_Title w @ newline @ newline @ aw_Description w @ newline @ newline
     @ ''Use these tools in order, adapting only when the user's task is narrower:'' @ newline
     @ numberedSteps 1 (aw_Steps w) @ newline @ ''Tools: ''
     @ Join '', '' (map (\<lambda>tool. ''`'' @ tool @ ''`'') (aw_Tools w))
     @ newline @ newline @ ''Operational notes:'' @ newline @ bullets (defaultWorkflowNotes @ aw_Notes w)"

definition agentGuideMarkdown :: string where
  "agentGuideMarkdown =
     ''# Go Architecture X-Ray Agent Guide'' @ newline @ newline
     @ ''Use an MCP-first workflow for Go repository understanding, refactor planning, architecture mapping, service inventory, cleanup audits, concurrency review, and complexity triage.'' @ newline @ newline
     @ ''If embeddings are not configured, surface `go_embeddings_setup` or read `go-arch-xray://embeddings-setup` before using `semantic_search`.'' @ newline @ newline
     @ ''Baseline rules:'' @ newline @ bullets defaultWorkflowNotes @ newline @ ''Available workflows:'' @ newline
     @ concat (map (\<lambda>w. ''- `'' @ aw_Name w @ ''`: '' @ aw_Description w @ '' Resource: `go-arch-xray://workflow/''
         @ aw_Name w @ ''`; prompt: `go_'' @ aw_Name w @ ''`.'' @ newline) analysisWorkflows)"

definition embeddingsSetupMarkdown :: string where
  "embeddingsSetupMarkdown = concat (map (\<lambda>line. line @ newline) [
     ''# Go Architecture X-Ray Embeddings Setup'',
     '''',
     ''Use this when the server reports `embeddings_setup_required=true` or when the user wants to enable RAG-backed `semantic_search`.'',
     '''',
     ''1. Call `inspect_embeddings_settings` with the active `root_path`.'',
     ''2. Show the returned `local_config_yaml` and `api_config_yaml` options.'',
     ''3. Recommend a user-wide config first. The user config path is returned as `user_config_path` and normally resolves under the OS config directory.'',
     ''4. Explain that `.gax/config.yml` is only for project-local overrides and still takes precedence over the user-wide config.'',
     ''5. If the user chooses not to configure embeddings now, call `inspect_embeddings_settings` with `dismiss=true`. If they later want the setup again, call it with `reopen=true`.'',
     '''',
     ''Do not ask the AI client to choose an embedding model from its own account. Embeddings are provided by the server-side local/API config.''])"

section \<open>Tool, prompt and resources\<close>

record SuggestAnalysisWorkflowResult =
  wf_Workflow :: string
  wf_Title :: string
  wf_Instructions :: string
  wf_Tools :: "string list"
  wf_Resources :: "string list"
  wf_Prompts :: "string list"
  wf_Notes :: "string list"

definition workflowResult :: "analysisWorkflow \<Rightarrow> SuggestAnalysisWorkflowResult" where
  "workflowResult w = \<lparr>wf_Workflow = aw_Name w, wf_Title = aw_Title w, wf_Instructions = workflowMarkdown w,
     wf_Tools = aw_Tools w, wf_Resources = [''go-arch-xray://agent-guide'', ''go-arch-xray://workflow/'' @ aw_Name w],
     wf_Prompts = [''go_'' @ aw_Name w], wf_Notes = defaultWorkflowNotes\<rparr>"

definition handleSuggestAnalysisWorkflow :: "string \<Rightarrow> SuggestAnalysisWorkflowResult" where
  "handleSuggestAnalysisWorkflow task = workflowResult (selectAnalysisWorkflow task)"

definition workflowNameFromURI :: "string \<Rightarrow> string" where
  "workflowNameFromURI uri =
     (let pre = ''go-arch-xray://workflow/''
      in if HasPrefix uri pre then TrimSpace (TrimPrefix uri pre) else '''')"

text \<open>The named workflow, or the first of the table.\<close>

definition workflowOrFirst :: "string \<Rightarrow> analysisWorkflow" where
  "workflowOrFirst name =
     (let w = workflowByName name in if aw_Name w = '''' then hd analysisWorkflows else w)"

text \<open>
  Prompts answer with a description and a text; resources with their address and a text. A
  request without parameters is \<open>None\<close>.
\<close>

definition handleEmbeddingsSetupPrompt :: "string \<times> string" where
  "handleEmbeddingsSetupPrompt = (''Configure embeddings for semantic_search/RAG.'', embeddingsSetupMarkdown)"

definition handleWorkflowPrompt :: "string option \<Rightarrow> string \<times> string" where
  "handleWorkflowPrompt req =
     (let w = workflowOrFirst (case req of None \<Rightarrow> '''' | Some name \<Rightarrow> TrimPrefix name ''go_'')
      in (aw_Description w, workflowMarkdown w))"

definition requestURI :: "string \<Rightarrow> string option \<Rightarrow> string" where
  "requestURI default_uri req = (case req of None \<Rightarrow> default_uri | Some uri \<Rightarrow> if uri \<noteq> '''' then uri else default_uri)"

definition handleAgentGuideResource :: "string option \<Rightarrow> string \<times> string" where
  "handleAgentGuideResource req =
     (let uri = requestURI ''go-arch-xray://agent-guide'' req
      in (uri, if uri = ''go-arch-xray://embeddings-setup'' then embeddingsSetupMarkdown else agentGuideMarkdown))"

definition handleWorkflowResource :: "string option \<Rightarrow> string \<times> string" where
  "handleWorkflowResource req =
     (let uri = requestURI ''go-arch-xray://workflow/onboarding'' req
      in (uri, workflowMarkdown (workflowOrFirst (workflowNameFromURI uri))))"

text \<open>The names of the registered prompts, with the handler each goes to.\<close>

definition registerWorkflowPrompts :: "(string \<times> (string option \<Rightarrow> string \<times> string)) list" where
  "registerWorkflowPrompts = (''go_embeddings_setup'', \<lambda>_. handleEmbeddingsSetupPrompt)
     # map (\<lambda>w. (''go_'' @ aw_Name w, handleWorkflowPrompt)) analysisWorkflows"

section \<open>The guide is consistent\<close>

lemmas workflow_defs = wf_onboarding_def wf_refactor_precheck_def wf_cleanup_def
  wf_api_surface_inventory_def wf_concurrency_review_def wf_architecture_check_def

lemma workflow_names: "map aw_Name analysisWorkflows = [''onboarding'', ''refactor_precheck'', ''cleanup'',
    ''api_surface_inventory'', ''concurrency_review'', ''architecture_check'']"
  by (simp add: analysisWorkflows_def workflow_defs)

lemma name_normal:
  assumes "n \<in> aw_Name ` set analysisWorkflows"
  shows "TrimSpace (ToLower n) = n" "TrimSpace n = n" "n \<noteq> ''''"
proof -
  have "list_all (\<lambda>n. ToLower n = n \<and> list_all graphic n \<and> n \<noteq> '''') [''onboarding'', ''refactor_precheck'', ''cleanup'',
    ''api_surface_inventory'', ''concurrency_review'', ''architecture_check'']" by code_simp
  then have "\<forall>n \<in> set (map aw_Name analysisWorkflows). ToLower n = n \<and> list_all graphic n \<and> n \<noteq> ''''"
    unfolding workflow_names list_all_iff .
  then have "\<forall>n \<in> set (map aw_Name analysisWorkflows). TrimSpace (ToLower n) = n \<and> TrimSpace n = n \<and> n \<noteq> ''''"
    by (simp add: TrimSpace_graphic)
  with assms show "TrimSpace (ToLower n) = n" "TrimSpace n = n" "n \<noteq> ''''" by auto
qed

lemma workflowByName_own:
  assumes "w \<in> set analysisWorkflows"
  shows "workflowByName (aw_Name w) = w"
proof -
  have d: "distinct (map aw_Name analysisWorkflows)" unfolding workflow_names by simp
  obtain v where v: "find (\<lambda>v. aw_Name v = aw_Name w) analysisWorkflows = Some v"
    using assms by (cases "find (\<lambda>v. aw_Name v = aw_Name w) analysisWorkflows") (auto simp: find_None_iff)
  then have "v \<in> set analysisWorkflows" "aw_Name v = aw_Name w" by (auto simp: find_Some_iff)
  with d assms have "v = w" by (auto simp: distinct_map dest: inj_onD)
  then show ?thesis using v name_normal(1) [of "aw_Name w"] assms by (simp add: workflowByName_def)
qed

lemma selected_in_table: "selectAnalysisWorkflow task \<in> set analysisWorkflows"
proof -
  have in_table: "workflowByName n \<in> set analysisWorkflows" if "n \<in> set (map aw_Name analysisWorkflows)" for n
    using that workflowByName_own by auto
  show ?thesis
    unfolding selectAnalysisWorkflow_def Let_def
    by (auto intro!: in_table simp del: set_map simp: workflow_names)
qed

lemma tools_offered: "w \<in> set analysisWorkflows \<Longrightarrow> set (aw_Tools w) \<subseteq> set serverToolNames"
proof -
  have "list_all (\<lambda>w. list_all (\<lambda>t. t \<in> set serverToolNames) (aw_Tools w)) analysisWorkflows"
    unfolding analysisWorkflows_def by (simp add: workflow_defs serverToolNames_def)
  then show "w \<in> set analysisWorkflows \<Longrightarrow> set (aw_Tools w) \<subseteq> set serverToolNames" by (auto simp: list_all_iff)
qed

text \<open>
  Whatever the task, the guide answers with a workflow of the table, every tool it names is one
  the server offers, and the prompt and the resource it refers to exist and give the same
  instructions.
\<close>

theorem workflow_guide_consistent:
  "let r = handleSuggestAnalysisWorkflow task
   in wf_Workflow r \<in> aw_Name ` set analysisWorkflows
    \<and> set (wf_Tools r) \<subseteq> set serverToolNames
    \<and> (\<exists>uri. wf_Resources r = [''go-arch-xray://agent-guide'', uri]
         \<and> handleWorkflowResource (Some uri) = (uri, wf_Instructions r))
    \<and> (\<exists>name h. wf_Prompts r = [name] \<and> (name, h) \<in> set registerWorkflowPrompts
         \<and> snd (h (Some name)) = wf_Instructions r)"
proof -
  let ?w = "selectAnalysisWorkflow task"
  have w: "?w \<in> set analysisWorkflows" by (rule selected_in_table)
  then have n: "TrimSpace (aw_Name ?w) = aw_Name ?w" "aw_Name ?w \<noteq> ''''" "workflowByName (aw_Name ?w) = ?w"
    using name_normal workflowByName_own by blast+
  have first: "workflowOrFirst (aw_Name ?w) = ?w" using n by (simp add: workflowOrFirst_def)
  have "workflowNameFromURI (''go-arch-xray://workflow/'' @ aw_Name ?w) = aw_Name ?w"
    by (simp only: workflowNameFromURI_def Let_def HasPrefix_append TrimPrefix_append n(1) if_True)
  with first have "handleWorkflowResource (Some (''go-arch-xray://workflow/'' @ aw_Name ?w))
      = (''go-arch-xray://workflow/'' @ aw_Name ?w, workflowMarkdown ?w)"
    by (simp add: handleWorkflowResource_def requestURI_def)
  moreover have "(''go_'' @ aw_Name ?w, handleWorkflowPrompt) \<in> set registerWorkflowPrompts"
    using w by (auto simp: registerWorkflowPrompts_def)
  moreover have "TrimPrefix (''go_'' @ aw_Name ?w) ''go_'' = aw_Name ?w" by (rule TrimPrefix_append)
  then have "snd (handleWorkflowPrompt (Some (''go_'' @ aw_Name ?w))) = workflowMarkdown ?w"
    using first unfolding handleWorkflowPrompt_def Let_def by simp
  ultimately show ?thesis
    using w tools_offered [OF w] unfolding handleSuggestAnalysisWorkflow_def workflowResult_def Let_def
    by (simp del: append.simps) blast
qed

end
