(* ===== verification/Go_Inspect.thy ===== *)
theory Go_Inspect
  imports Complexity_Report Duplicate_Methods Go_Types
begin

text \<open>
  \<^verbatim>\<open>ast.Inspect\<close> with a function that always returns true: the expressions and statements of a
  file in depth-first order. A node is known by its number in that order; what the file set
  and the type checker say of a node is a function of its number. Identifiers of fields and
  labels, type parameters and the parameter lists of declared functions are left out: no
  analysis that inspects files looks at them.
\<close>

datatype ast_item = ExprItem expr | StmtItem stmt

primrec inspectExpr :: "expr \<Rightarrow> ast_item list"
  and inspectFields :: "fields \<Rightarrow> ast_item list"
  and inspectField :: "field \<Rightarrow> ast_item list"
  and inspectBlock :: "block \<Rightarrow> ast_item list"
  and inspectStmt :: "stmt \<Rightarrow> ast_item list"
  and inspectDecl :: "decl \<Rightarrow> ast_item list"
  and inspectSpec :: "spec \<Rightarrow> ast_item list" where
  "inspectExpr NilExpr = []"
| "inspectExpr (Ident x) = [ExprItem (Ident x)]"
| "inspectExpr (BasicLit v) = [ExprItem (BasicLit v)]"
| "inspectExpr (BinaryExpr op x y) = ExprItem (BinaryExpr op x y) # inspectExpr x @ inspectExpr y"
| "inspectExpr (CallExpr f args) = ExprItem (CallExpr f args) # inspectExpr f @ concat (map inspectExpr args)"
| "inspectExpr (ParenExpr x) = ExprItem (ParenExpr x) # inspectExpr x"
| "inspectExpr (UnaryExpr op x) = ExprItem (UnaryExpr op x) # inspectExpr x"
| "inspectExpr (SelectorExpr x sel) = ExprItem (SelectorExpr x sel) # inspectExpr x"
| "inspectExpr (IndexExpr x i) = ExprItem (IndexExpr x i) # inspectExpr x @ inspectExpr i"
| "inspectExpr (IndexListExpr x is) = ExprItem (IndexListExpr x is) # inspectExpr x @ concat (map inspectExpr is)"
| "inspectExpr (SliceExpr x lo hi m) =
     ExprItem (SliceExpr x lo hi m) # inspectExpr x @ inspectExpr lo @ inspectExpr hi @ inspectExpr m"
| "inspectExpr (StarExpr x) = ExprItem (StarExpr x) # inspectExpr x"
| "inspectExpr (TypeAssertExpr x t) = ExprItem (TypeAssertExpr x t) # inspectExpr x @ inspectExpr t"
| "inspectExpr (CompositeLit t elts) = ExprItem (CompositeLit t elts) # inspectExpr t @ concat (map inspectExpr elts)"
| "inspectExpr (KeyValueExpr k v) = ExprItem (KeyValueExpr k v) # inspectExpr k @ inspectExpr v"
| "inspectExpr (FuncLit t body) = ExprItem (FuncLit t body) # inspectExpr t @ inspectBlock body"
| "inspectExpr (ArrayType len elt) = ExprItem (ArrayType len elt) # inspectExpr len @ inspectExpr elt"
| "inspectExpr (MapType k v) = ExprItem (MapType k v) # inspectExpr k @ inspectExpr v"
| "inspectExpr (ChanType v) = ExprItem (ChanType v) # inspectExpr v"
| "inspectExpr (StructType fs) = ExprItem (StructType fs) # inspectFields fs"
| "inspectExpr (InterfaceType fs) = ExprItem (InterfaceType fs) # inspectFields fs"
| "inspectExpr (FuncType ps rs) = ExprItem (FuncType ps rs) # inspectFields ps @ inspectFields rs"
| "inspectExpr (Ellipsis x) = ExprItem (Ellipsis x) # inspectExpr x"
| "inspectExpr BadExpr = [ExprItem BadExpr]"
| "inspectFields NilFields = []"
| "inspectFields (Fields fs) = concat (map inspectField fs)"
| "inspectField (Field _ t) = inspectExpr t"
| "inspectBlock NilBlock = []"
| "inspectBlock (Block ss) = concat (map inspectStmt ss)"
| "inspectStmt NilStmt = []"
| "inspectStmt (IfStmt init cond body els) =
     StmtItem (IfStmt init cond body els) # inspectStmt init @ inspectExpr cond @ inspectBlock body @ inspectStmt els"
| "inspectStmt (ForStmt init cond post body) =
     StmtItem (ForStmt init cond post body) # inspectStmt init @ inspectExpr cond @ inspectStmt post @ inspectBlock body"
| "inspectStmt (RangeStmt tok k v x body) =
     StmtItem (RangeStmt tok k v x body) # inspectExpr k @ inspectExpr v @ inspectExpr x @ inspectBlock body"
| "inspectStmt (SwitchStmt init tag body) =
     StmtItem (SwitchStmt init tag body) # inspectStmt init @ inspectExpr tag @ inspectBlock body"
| "inspectStmt (TypeSwitchStmt init assign body) =
     StmtItem (TypeSwitchStmt init assign body) # inspectStmt init @ inspectStmt assign @ inspectBlock body"
| "inspectStmt (SelectStmt body) = StmtItem (SelectStmt body) # inspectBlock body"
| "inspectStmt (CaseClause es body) =
     StmtItem (CaseClause es body) # concat (map inspectExpr es) @ concat (map inspectStmt body)"
| "inspectStmt (CommClause comm body) = StmtItem (CommClause comm body) # inspectStmt comm @ concat (map inspectStmt body)"
| "inspectStmt (BranchStmt tok label) = [StmtItem (BranchStmt tok label)]"
| "inspectStmt (BlockStmt b) = StmtItem (BlockStmt b) # inspectBlock b"
| "inspectStmt (ExprStmt x) = StmtItem (ExprStmt x) # inspectExpr x"
| "inspectStmt (AssignStmt lhs tok rhs) =
     StmtItem (AssignStmt lhs tok rhs) # concat (map inspectExpr lhs) @ concat (map inspectExpr rhs)"
| "inspectStmt (ReturnStmt results) = StmtItem (ReturnStmt results) # concat (map inspectExpr results)"
| "inspectStmt (DeclStmt d) = StmtItem (DeclStmt d) # inspectDecl d"
| "inspectStmt (GoStmt call) = StmtItem (GoStmt call) # inspectExpr call"
| "inspectStmt (DeferStmt call) = StmtItem (DeferStmt call) # inspectExpr call"
| "inspectStmt (IncDecStmt x tok) = StmtItem (IncDecStmt x tok) # inspectExpr x"
| "inspectStmt (LabeledStmt l s) = StmtItem (LabeledStmt l s) # inspectStmt s"
| "inspectStmt (SendStmt ch v) = StmtItem (SendStmt ch v) # inspectExpr ch @ inspectExpr v"
| "inspectStmt EmptyStmt = [StmtItem EmptyStmt]"
| "inspectDecl (GenDecl _ specs) = concat (map inspectSpec specs)"
| "inspectDecl OtherDecl = []"
| "inspectSpec (ValueSpec _ t vs) = inspectExpr t @ concat (map inspectExpr vs)"
| "inspectSpec (TypeSpec _ t) = inspectExpr t"
| "inspectSpec OtherSpec = []"

text \<open>A parsed file: its declarations, its imports (name, path literal), and the positions of its nodes.\<close>

datatype file_decl = FuncTop FuncDecl | GenTop decl

record go_file =
  gof_Decls :: "file_decl list"
  gof_Imports :: "(string option \<times> string) list"
  gof_Pos :: "nat \<Rightarrow> string \<times> int"             \<comment> \<open>file and line of a node\<close>
  gof_RecvType :: "nat \<Rightarrow> gotype option"       \<comment> \<open>type of the operand of the selector a call calls\<close>
  gof_CalleePkg :: "nat \<Rightarrow> string option"      \<comment> \<open>package of the function a call refers to\<close>
  gof_Print :: "nat \<Rightarrow> string"                 \<comment> \<open>text of a node as \<^verbatim>\<open>go/printer\<close> writes it\<close>

fun inspectTop :: "file_decl \<Rightarrow> ast_item list" where
  "inspectTop (FuncTop fd) = inspectExpr (fd_Recv fd) @ inspectBlock (fd_Body fd)"
| "inspectTop (GenTop d) = inspectDecl d"

definition Inspect :: "go_file \<Rightarrow> (nat \<times> ast_item) list" where
  "Inspect f = enumerate 0 (concat (map inspectTop (gof_Decls f)))"

text \<open>The children of a node with their numbers, when the first has number n.\<close>

fun numbered :: "('a \<Rightarrow> ast_item list) \<Rightarrow> nat \<Rightarrow> 'a list \<Rightarrow> (nat \<times> 'a) list" where
  "numbered items n [] = []"
| "numbered items n (x # xs) = (n, x) # numbered items (n + length (items x)) xs"

lemma map_snd_numbered [simp]: "map snd (numbered items n xs) = xs"
  by (induction xs arbitrary: n) auto

definition topDecls :: "go_file \<Rightarrow> (nat \<times> file_decl) list" where
  "topDecls f = numbered inspectTop 0 (gof_Decls f)"

text \<open>The call expressions of a file with their numbers.\<close>

definition callOf :: "nat \<times> ast_item \<Rightarrow> (nat \<times> expr \<times> expr list) option" where
  "callOf n = (case snd n of ExprItem (CallExpr f args) \<Rightarrow> Some (fst n, f, args) | _ \<Rightarrow> None)"

definition calls :: "go_file \<Rightarrow> (nat \<times> expr \<times> expr list) list" where
  "calls f = List.map_filter callOf (Inspect f)"

lemma set_calls: "(k, f, args) \<in> set (calls file) \<longleftrightarrow> (k, ExprItem (CallExpr f args)) \<in> set (Inspect file)"
proof -
  have "callOf n = Some (k, f, args) \<longleftrightarrow> n = (k, ExprItem (CallExpr f args))" for n
    by (cases n) (auto simp: callOf_def split: ast_item.splits expr.splits)
  then show ?thesis by (auto simp: calls_def List.map_filter_def image_iff) (metis option.sel)
qed

text \<open>Every call of a function body is visited.\<close>

lemma body_calls_visited:
  assumes "FuncTop fd \<in> set (gof_Decls file)" "ExprItem (CallExpr f args) \<in> set (inspectBlock (fd_Body fd))"
  shows "\<exists>k. (k, f, args) \<in> set (calls file)"
proof -
  have "ExprItem (CallExpr f args) \<in> set (concat (map inspectTop (gof_Decls file)))"
    using assms by (auto intro!: bexI [of _ "FuncTop fd"])
  then obtain k where "k < length (concat (map inspectTop (gof_Decls file)))"
      "concat (map inspectTop (gof_Decls file)) ! k = ExprItem (CallExpr f args)"
    unfolding in_set_conv_nth by blast
  then have "(k, f, args) \<in> set (calls file)"
    by (simp add: set_calls Inspect_def in_set_enumerate_eq del: length_concat)
  then show ?thesis by blast
qed

end
