(* ===== verification/Entrypoints.thy ===== *)
theory Entrypoints
  imports Go_Inspect
begin

text \<open>
  \<^verbatim>\<open>analyzer/entrypoints.go\<close>: main and init functions and go statements, found in the syntax
  of the loaded packages. The maps of what was seen are threaded through the packages as lists
  of their keys.
\<close>

datatype EntrypointKind = EntrypointMain | EntrypointInit | EntrypointGoroutine

fun kindText :: "EntrypointKind \<Rightarrow> string" where
  "kindText EntrypointMain = ''main''"
| "kindText EntrypointInit = ''init''"
| "kindText EntrypointGoroutine = ''goroutine_start''"

record Entrypoint =
  ent_Kind :: EntrypointKind
  ent_Function :: string
  ent_Package :: string
  ent_File :: string
  ent_Line :: int
  ent_Anchor :: string

record EntrypointsResult =
  enr_Entrypoints :: "Entrypoint list"
  enr_Total :: int
  enr_Offset :: int
  enr_Limit :: int
  enr_MaxItems :: int
  enr_ChunkSize :: int
  enr_NextCursor :: string
  enr_HasMore :: bool
  enr_TotalBeforeTruncate :: int
  enr_Truncated :: bool

text \<open>
  A function of a file with the position of the n-th go statement of its body, and a package.
\<close>

record entry_func =
  enf_Decl :: FuncDecl
  enf_GoPos :: "nat \<Rightarrow> string \<times> int"

record entry_package =
  enp_PkgPath :: string
  enp_Name :: string
  enp_Fset :: bool
  enp_Syntax :: "entry_func list option list"    \<comment> \<open>\<open>None\<close> is a nil file\<close>

section \<open>Names\<close>

definition selectorExprName :: "expr \<Rightarrow> string option \<Rightarrow> string" where
  "selectorExprName x sel =
     (case sel of
        None \<Rightarrow> ''''
      | Some name \<Rightarrow> (case x of Ident recv \<Rightarrow> recv @ ''.'' @ name | _ \<Rightarrow> name))"

fun receiverTypeExprName :: "expr \<Rightarrow> string" where
  "receiverTypeExprName (Ident name) = name"
| "receiverTypeExprName (StarExpr x) = receiverTypeExprName x"
| "receiverTypeExprName (SelectorExpr x sel) = selectorExprName x sel"
| "receiverTypeExprName (IndexExpr x _) = receiverTypeExprName x"
| "receiverTypeExprName (IndexListExpr x _) = receiverTypeExprName x"
| "receiverTypeExprName _ = ''''"

definition syntaxFunctionName :: "entry_package \<Rightarrow> FuncDecl \<Rightarrow> string" where
  "syntaxFunctionName pkg fd =
     enp_PkgPath pkg @ ''.'' @ (if fd_Recv fd \<noteq> NilExpr then receiverTypeExprName (fd_Recv fd) @ ''.'' else '''')
     @ fd_Name fd"

fun callee :: "expr \<Rightarrow> expr" where
  "callee (CallExpr f _) = f"
| "callee _ = NilExpr"

definition syntaxGoroutineTarget :: "entry_package \<Rightarrow> expr \<Rightarrow> FuncDecl \<Rightarrow> string" where
  "syntaxGoroutineTarget pkg call enclosing =
     (case callee call of
        Ident name \<Rightarrow> enp_PkgPath pkg @ ''.'' @ name
      | SelectorExpr x sel \<Rightarrow> selectorExprName x sel
      | FuncLit _ _ \<Rightarrow> ''<closure in '' @ syntaxFunctionName pkg enclosing @ ''>''
      | _ \<Rightarrow> ''<dynamic in '' @ syntaxFunctionName pkg enclosing @ ''>'')"

section \<open>Collecting\<close>

record entry_state =
  ens_seenFunc :: "string list"
  ens_seenGo :: "string list"
  ens_out :: "Entrypoint list"

definition entryKind :: "entry_package \<Rightarrow> FuncDecl \<Rightarrow> EntrypointKind option" where
  "entryKind pkg fd =
     (if fd_Name fd = ''main'' \<and> enp_Name pkg = ''main'' then Some EntrypointMain
      else if fd_Name fd = ''init'' then Some EntrypointInit else None)"

definition functionEntry :: "entry_package \<Rightarrow> FuncDecl \<Rightarrow> EntrypointKind \<Rightarrow> Entrypoint" where
  "functionEntry pkg fd kind =
     \<lparr>ent_Kind = kind, ent_Function = syntaxFunctionName pkg fd, ent_Package = enp_PkgPath pkg,
      ent_File = fd_File fd, ent_Line = fd_Line fd, ent_Anchor = contextAnchor (fd_File fd) (fd_Line fd) (fd_Name fd)\<rparr>"

definition addFunction :: "entry_package \<Rightarrow> FuncDecl \<Rightarrow> entry_state \<Rightarrow> entry_state" where
  "addFunction pkg fd st =
     (case entryKind pkg fd of
        None \<Rightarrow> st
      | Some kind \<Rightarrow>
          let key = kindText kind @ '':'' @ syntaxFunctionName pkg fd
          in if key \<in> set (ens_seenFunc st) then st
             else st\<lparr>ens_seenFunc := key # ens_seenFunc st, ens_out := ens_out st @ [functionEntry pkg fd kind]\<rparr>)"

definition goCalls :: "FuncDecl \<Rightarrow> expr list" where
  "goCalls fd = List.map_filter (\<lambda>n. case n of StmtItem (GoStmt call) \<Rightarrow> Some call | _ \<Rightarrow> None) (inspectBlock (fd_Body fd))"

definition goEntry :: "entry_package \<Rightarrow> FuncDecl \<Rightarrow> expr \<times> string \<times> int \<Rightarrow> Entrypoint" where
  "goEntry pkg fd g =
     (let (call, file, line) = g; spawned = syntaxGoroutineTarget pkg call fd
      in \<lparr>ent_Kind = EntrypointGoroutine, ent_Function = spawned, ent_Package = enp_PkgPath pkg, ent_File = file,
          ent_Line = line, ent_Anchor = contextAnchor file line spawned\<rparr>)"

definition addGo :: "entry_package \<Rightarrow> FuncDecl \<Rightarrow> expr \<times> string \<times> int \<Rightarrow> entry_state \<Rightarrow> entry_state" where
  "addGo pkg fd g st =
     (let (call, file, line) = g;
          key = enp_PkgPath pkg @ '':'' @ syntaxGoroutineTarget pkg call fd @ '':'' @ file @ '':'' @ Itoa line
      in if key \<in> set (ens_seenGo st) then st
         else st\<lparr>ens_seenGo := key # ens_seenGo st, ens_out := ens_out st @ [goEntry pkg fd g]\<rparr>)"

definition goSites :: "entry_func \<Rightarrow> (expr \<times> string \<times> int) list" where
  "goSites ef = map (\<lambda>(n, call). (call, enf_GoPos ef n)) (enumerate 0 (goCalls (enf_Decl ef)))"

definition collectFunction :: "entry_package \<Rightarrow> entry_func \<Rightarrow> entry_state \<Rightarrow> entry_state" where
  "collectFunction pkg ef st = fold (addGo pkg (enf_Decl ef)) (goSites ef) (addFunction pkg (enf_Decl ef) st)"

definition collectSyntaxEntrypoints :: "entry_package \<Rightarrow> entry_func list option \<Rightarrow> entry_state \<Rightarrow> entry_state" where
  "collectSyntaxEntrypoints pkg file st =
     (case file of None \<Rightarrow> st | Some fns \<Rightarrow> fold (collectFunction pkg) fns st)"

definition entry_less :: "Entrypoint \<Rightarrow> Entrypoint \<Rightarrow> bool" where
  "entry_less a b =
     (if ent_Kind a \<noteq> ent_Kind b then kindText (ent_Kind a) < kindText (ent_Kind b)
      else if ent_Package a \<noteq> ent_Package b then ent_Package a < ent_Package b
      else ent_Function a < ent_Function b)"

definition sortEntrypoints :: "Entrypoint list \<Rightarrow> Entrypoint list" where
  "sortEntrypoints = sort_slice entry_less"

definition entry_packages :: "entry_package option list \<Rightarrow> entry_package list" where
  "entry_packages pkgs = filter (\<lambda>p. enp_PkgPath p \<noteq> '''' \<and> enp_Fset p) (map the (filter (\<lambda>p. p \<noteq> None) pkgs))"

definition collectAll :: "entry_package option list \<Rightarrow> entry_state" where
  "collectAll pkgs =
     fold (\<lambda>pkg. fold (collectSyntaxEntrypoints pkg) (enp_Syntax pkg)) (entry_packages pkgs)
       \<lparr>ens_seenFunc = [], ens_seenGo = [], ens_out = []\<rparr>"

definition extractEntrypointsFromSyntax :: "entry_package option list \<Rightarrow> Entrypoint list" where
  "extractEntrypointsFromSyntax pkgs = sortEntrypoints (ens_out (collectAll pkgs))"

definition entrypointKey :: "Entrypoint \<Rightarrow> string" where
  "entrypointKey e = kindText (ent_Kind e) @ ''|'' @ ent_Package e @ ''|'' @ ent_Function e @ ''|'' @ ent_File e @ '':''
     @ Itoa (ent_Line e)"

definition ListEntrypointsWithOptions ::
  "paging \<Rightarrow> string + entry_package option list \<Rightarrow> string \<Rightarrow> string \<Rightarrow> QueryOptions
   \<Rightarrow> (string + stream_error) + EntrypointsResult" where
  "ListEntrypointsWithOptions pg loaded dir pattern opts =
     (case loaded of
        Inl e \<Rightarrow> Inl (Inl (''loading packages: '' @ e))
      | Inr pkgs \<Rightarrow>
          let all = sortEntrypoints (extractEntrypointsFromSyntax pkgs)
          in case page_items pg all (''entrypoints:'' @ dir @ ''|'' @ pattern) entrypointKey opts of
               Inl e \<Rightarrow> Inl (Inr e)
             | Inr w \<Rightarrow> Inr \<lparr>enr_Entrypoints = wr_items w, enr_Total = int (length all), enr_Offset = qo_Offset opts,
                 enr_Limit = qo_Limit opts, enr_MaxItems = qo_MaxItems opts,
                 enr_ChunkSize = (if qo_ChunkSize opts > 0 then clampChunkSize (pg_env pg) (qo_ChunkSize opts) else 0),
                 enr_NextCursor = wr_next w, enr_HasMore = wr_more w, enr_TotalBeforeTruncate = int (length all),
                 enr_Truncated = wr_truncated w\<rparr>)"

definition ListEntrypoints ::
  "paging \<Rightarrow> string + entry_package option list \<Rightarrow> string \<Rightarrow> string \<Rightarrow> (string + stream_error) + EntrypointsResult" where
  "ListEntrypoints pg loaded dir pattern =
     ListEntrypointsWithOptions pg loaded dir pattern
       \<lparr>qo_Limit = 0, qo_Offset = 0, qo_MaxItems = 0, qo_Summary = False, qo_Cursor = '''', qo_ChunkSize = 0, qo_Export = ExportNone\<rparr>"

section \<open>What is listed\<close>

text \<open>
  The candidates of the packages in the order of the traversal, and what the two maps tell
  apart. The maps together are one removal of duplicates.
\<close>

definition function_candidates :: "entry_package \<Rightarrow> entry_func \<Rightarrow> Entrypoint list" where
  "function_candidates pkg ef =
     (case entryKind pkg (enf_Decl ef) of None \<Rightarrow> [] | Some kind \<Rightarrow> [functionEntry pkg (enf_Decl ef) kind])
     @ map (goEntry pkg (enf_Decl ef)) (goSites ef)"

definition file_candidates :: "entry_package \<Rightarrow> entry_func list option \<Rightarrow> Entrypoint list" where
  "file_candidates pkg file = concat (map (function_candidates pkg) (case file of None \<Rightarrow> [] | Some fns \<Rightarrow> fns))"

definition entry_candidates :: "entry_package option list \<Rightarrow> Entrypoint list" where
  "entry_candidates pkgs =
     concat (map (\<lambda>pkg. concat (map (file_candidates pkg) (enp_Syntax pkg))) (entry_packages pkgs))"

definition entry_identity :: "Entrypoint \<Rightarrow> string + string" where
  "entry_identity e =
     (if ent_Kind e = EntrypointGoroutine
      then Inr (ent_Package e @ '':'' @ ent_Function e @ '':'' @ ent_File e @ '':'' @ Itoa (ent_Line e))
      else Inl (kindText (ent_Kind e) @ '':'' @ ent_Function e))"

definition seen_entries :: "entry_state \<Rightarrow> (string + string) list" where
  "seen_entries st = map Inl (ens_seenFunc st) @ map Inr (ens_seenGo st)"

lemma dedup_seen_cong: "set seen = set seen' \<Longrightarrow> dedup_seen k seen xs = dedup_seen k seen' xs"
  by (induction k seen xs arbitrary: seen' rule: dedup_seen.induct) auto

lemma dedup_seen_append:
  "dedup_seen k seen (xs @ ys) = dedup_seen k seen xs @ dedup_seen k (map k (dedup_seen k seen xs) @ seen) ys"
  by (induction k seen xs rule: dedup_seen.induct) (auto intro: dedup_seen_cong)

text \<open>A step of the traversal adds the new ones of its candidates and marks them.\<close>

definition adds :: "Entrypoint list \<Rightarrow> (entry_state \<Rightarrow> entry_state) \<Rightarrow> bool" where
  "adds cands f \<longleftrightarrow> (\<forall>st.
     ens_out (f st) = ens_out st @ dedup_seen entry_identity (seen_entries st) cands
     \<and> set (seen_entries (f st)) = entry_identity ` set cands \<union> set (seen_entries st))"

lemma adds_Nil: "adds [] (\<lambda>st. st)"
  by (simp add: adds_def)

lemma adds_append: 
  assumes "adds xs f" "adds ys g"
  shows "adds (xs @ ys) (\<lambda>st. g (f st))"
proof -
  have "dedup_seen entry_identity (seen_entries (f st)) ys
      = dedup_seen entry_identity (map entry_identity (dedup_seen entry_identity (seen_entries st) xs) @ seen_entries st) ys" for st
    by (rule dedup_seen_cong) (use assms(1) in \<open>auto simp: adds_def dedup_seen_keys\<close>)
  then show ?thesis using assms by (auto simp: adds_def dedup_seen_append)
qed

lemma adds_fold: "(\<And>x. x \<in> set xs \<Longrightarrow> adds (c x) (f x)) \<Longrightarrow> adds (concat (map c xs)) (fold f xs)"
proof (induction xs)
  case Nil
  then show ?case using adds_Nil by (simp add: id_def)
next
  case (Cons x xs)
  then show ?case using adds_append [of "c x" "f x" "concat (map c xs)" "fold f xs"] by (simp add: comp_def)
qed

lemma adds_go: "adds [goEntry pkg fd g] (addGo pkg fd g)"
  by (cases g) (auto simp: adds_def addGo_def goEntry_def entry_identity_def seen_entries_def Let_def)

lemma entryKind_function: "entryKind pkg fd \<noteq> Some EntrypointGoroutine"
  by (simp add: entryKind_def)

lemma adds_function:
  "adds (case entryKind pkg fd of None \<Rightarrow> [] | Some kind \<Rightarrow> [functionEntry pkg fd kind]) (addFunction pkg fd)"
  using entryKind_function [of pkg fd]
  by (auto simp: adds_def addFunction_def functionEntry_def entry_identity_def seen_entries_def Let_def split: option.splits)

lemma adds_function_body: "adds (function_candidates pkg ef) (collectFunction pkg ef)"
proof -
  have "adds (map (goEntry pkg (enf_Decl ef)) (goSites ef)) (fold (addGo pkg (enf_Decl ef)) (goSites ef))"
    using adds_fold [of "goSites ef" "\<lambda>g. [goEntry pkg (enf_Decl ef) g]" "addGo pkg (enf_Decl ef)"] adds_go by simp
  from adds_append [OF adds_function [of pkg "enf_Decl ef"] this] show ?thesis
    by (simp add: function_candidates_def collectFunction_def [abs_def])
qed

lemma collected: "ens_out (collectAll pkgs) = dedup_by entry_identity (entry_candidates pkgs)"
proof -
  have "adds (file_candidates pkg f) (collectSyntaxEntrypoints pkg f)" for pkg f
    by (cases f) (auto simp: file_candidates_def collectSyntaxEntrypoints_def [abs_def] intro: adds_fold adds_Nil adds_function_body)
  then have "adds (entry_candidates pkgs) (fold (\<lambda>pkg. fold (collectSyntaxEntrypoints pkg) (enp_Syntax pkg)) (entry_packages pkgs))"
    unfolding entry_candidates_def by (intro adds_fold)
  then show ?thesis by (simp add: adds_def collectAll_def dedup_by_def seen_entries_def)
qed

lemma kindText_inject [simp]: "kindText k = kindText k' \<longleftrightarrow> k = k'"
  by (cases k; cases k') simp_all

interpretation entry_order: key_order entry_less "\<lambda>e. (kindText (ent_Kind e), ent_Package e, ent_Function e)"
  by unfold_locales (auto simp: entry_less_def less_prod_def' order.strict_iff_order)


end
