(* ===== verification/Store_Tables.thy ===== *)
theory Store_Tables
  imports Prelude
begin

text \<open>
  What the store of \<^verbatim>\<open>analyzer/storage.go\<close> asks of its SQL engine. A table is the list of its
  rows in the order of insertion; \<open>INSERT ... ON CONFLICT(key) DO UPDATE\<close> is \<open>upsert\<close>,
  and \<open>ORDER BY\<close> is the stable sort of the prelude. A statement runs or fails as a whole,
  as told by the environment for its position in the run; a transaction that does not commit
  leaves every table as it was.
\<close>

section \<open>Keyed tables\<close>

definition upsert :: "('r \<Rightarrow> 'k) \<Rightarrow> ('r \<Rightarrow> 'r \<Rightarrow> 'r) \<Rightarrow> 'r \<Rightarrow> 'r list \<Rightarrow> 'r list" where
  "upsert key merge r rows =
     (if key r \<in> key ` set rows then map (\<lambda>old. if key old = key r then merge r old else old) rows
      else rows @ [r])"

text \<open>The row with a key, and the table as the map it stands for.\<close>

definition row_of :: "('r \<Rightarrow> 'k) \<Rightarrow> 'r list \<Rightarrow> 'k \<Rightarrow> 'r option" where
  "row_of key rows k = find (\<lambda>r. key r = k) rows"

lemma row_of_Nil [simp]: "row_of key [] k = None"
  by (simp add: row_of_def)

lemma row_of_Cons [simp]: "row_of key (r # rows) k = (if key r = k then Some r else row_of key rows k)"
  by (simp add: row_of_def)

lemma row_of_append: "row_of key (xs @ ys) k = (case row_of key xs k of None \<Rightarrow> row_of key ys k | Some r \<Rightarrow> Some r)"
  by (induction xs) auto

lemma row_of_None: "row_of key rows k = None \<longleftrightarrow> k \<notin> key ` set rows"
  by (induction rows) auto

lemma row_of_Some: "row_of key rows k = Some r \<Longrightarrow> r \<in> set rows \<and> key r = k"
  by (induction rows) (auto split: if_splits)

lemma row_of_distinct:
  "distinct (map key rows) \<Longrightarrow> row_of key rows k = Some r \<longleftrightarrow> r \<in> set rows \<and> key r = k"
  by (induction rows) (auto simp: image_iff)

text \<open>With unique keys a table is determined by the order of its keys and the map.\<close>

lemma rows_determined:
  assumes "map key xs = map key ys" "distinct (map key xs)"
    and same: "\<And>k. row_of key xs k = row_of key ys k"
  shows "xs = ys"
proof (rule nth_equalityI)
  show len: "length xs = length ys" using assms(1) by (metis length_map)
  fix i assume i: "i < length xs"
  let ?k = "key (xs ! i)"
  have k: "?k = key (ys ! i)"
    using assms(1) i len by (metis nth_map)
  have "distinct (map key ys)" using assms by simp
  then have "row_of key xs ?k = Some (xs ! i)" "row_of key ys ?k = Some (ys ! i)"
    using i len k assms(2) by (simp_all add: row_of_distinct)
  then show "xs ! i = ys ! i" using same by simp
qed

text \<open>
  The contract of a conflict clause: updating a row does not change the columns of the
  unique constraint.
\<close>

locale keyed_table =
  fixes key :: "'r \<Rightarrow> 'k" and merge :: "'r \<Rightarrow> 'r \<Rightarrow> 'r"
  assumes key_merge: "key old = key new \<Longrightarrow> key (merge new old) = key new"
begin

lemma keys_upsert:
  "map key (upsert key merge r rows)
   = (if key r \<in> key ` set rows then map key rows else map key rows @ [key r])"
  by (auto simp: upsert_def key_merge)

lemma key_set_upsert: "key ` set (upsert key merge r rows) = insert (key r) (key ` set rows)"
  using arg_cong [OF keys_upsert, of set r rows] by (auto split: if_splits)

lemma distinct_upsert [intro]: "distinct (map key rows) \<Longrightarrow> distinct (map key (upsert key merge r rows))"
  by (simp add: keys_upsert)

lemma row_upsert:
  "row_of key (upsert key merge r rows) k
   = (if k = key r then Some (case row_of key rows k of None \<Rightarrow> r | Some old \<Rightarrow> merge r old)
      else row_of key rows k)"
proof (cases "key r \<in> key ` set rows")
  case True
  have mapped: "row_of key (map (\<lambda>old. if key old = key r then merge r old else old) rows) k
      = (if k = key r then map_option (merge r) (row_of key rows k) else row_of key rows k)"
    by (induction rows) (auto simp: key_merge)
  show ?thesis
    using True row_of_None [of key rows "key r"] by (auto simp: upsert_def mapped split: option.splits)
next
  case False
  then show ?thesis
    using row_of_None [of key rows "key r"] by (auto simp: upsert_def row_of_append split: option.splits)
qed

lemma distinct_upserts: "distinct (map key rows) \<Longrightarrow> distinct (map key (fold (upsert key merge) rs rows))"
  by (induction rs arbitrary: rows) auto

lemma key_set_upserts: "key ` set (fold (upsert key merge) rs rows) = key ` set rs \<union> key ` set rows"
  by (induction rs arbitrary: rows) (auto simp: key_set_upsert)

lemma other_rows_upserts:
  "k \<notin> key ` set rs \<Longrightarrow> row_of key (fold (upsert key merge) rs rows) k = row_of key rows k"
  by (induction rs arbitrary: rows) (auto simp: row_upsert)

lemma keys_upserts_known:
  "key ` set rs \<subseteq> key ` set rows \<Longrightarrow> map key (fold (upsert key merge) rs rows) = map key rows"
proof (induction rs arbitrary: rows)
  case (Cons r rs)
  then have "map key (upsert key merge r rows) = map key rows" by (simp add: keys_upsert)
  moreover from this have "key ` set (upsert key merge r rows) = key ` set rows" by (metis set_map)
  ultimately show ?case using Cons by simp
qed simp

end

text \<open>Most clauses replace the whole row.\<close>

locale replacing_table = keyed_table +
  assumes merge_new: "key old = key new \<Longrightarrow> merge new old = new"
begin

lemma row_replace: "row_of key (upsert key merge r rows) k = (if k = key r then Some r else row_of key rows k)"
  using row_of_Some [of key rows k] by (auto simp: row_upsert merge_new split: option.splits)

text \<open>After a batch the table holds the last row of the batch for every key in it.\<close>

lemma row_upserts:
  "row_of key (fold (upsert key merge) rs rows) k
   = (case row_of key (rev rs) k of None \<Rightarrow> row_of key rows k | Some r \<Rightarrow> Some r)"
  by (induction rs arbitrary: rows) (auto simp: row_replace row_of_append split: option.splits)

lemma row_upserts_distinct:
  assumes "distinct (map key rs)" "r \<in> set rs"
  shows "row_of key (fold (upsert key merge) rs rows) (key r) = Some r"
proof -
  have "distinct (map key (rev rs))" using assms(1) by (simp add: rev_map [symmetric])
  then have "row_of key (rev rs) (key r) = Some r" using assms(2) by (simp add: row_of_distinct)
  then show ?thesis by (simp add: row_upserts)
qed

lemma upserts_idem:
  assumes "distinct (map key rows)"
  shows "fold (upsert key merge) rs (fold (upsert key merge) rs rows) = fold (upsert key merge) rs rows"
proof (rule rows_determined)
  show "map key (fold (upsert key merge) rs (fold (upsert key merge) rs rows))
      = map key (fold (upsert key merge) rs rows)"
    by (rule keys_upserts_known) (simp add: key_set_upserts)
  show "distinct (map key (fold (upsert key merge) rs (fold (upsert key merge) rs rows)))"
    using assms by (simp add: distinct_upserts)
  show "row_of key (fold (upsert key merge) rs (fold (upsert key merge) rs rows)) k
      = row_of key (fold (upsert key merge) rs rows) k" for k
    by (simp add: row_upserts split: option.splits)
qed

end

section \<open>Statements and transactions\<close>

record 'd store =
  st_db :: 'd
  st_n :: nat                       \<comment> \<open>statements executed so far\<close>

record store_env =
  se_fails :: "nat \<Rightarrow> string option"   \<comment> \<open>the error of the n-th statement\<close>
  se_now :: "nat \<Rightarrow> int"               \<comment> \<open>the clock after n statements\<close>
  se_ensure :: "string option"         \<comment> \<open>the error of creating the directories\<close>
  se_open :: "string option"           \<comment> \<open>the error of \<^verbatim>\<open>sql.Open\<close>\<close>

type_synonym ('d, 'a) action = "'d store \<Rightarrow> (string + 'a) \<times> 'd store"

definition retA :: "'a \<Rightarrow> ('d, 'a) action" where
  "retA x s = (Inr x, s)"

definition failA :: "string \<Rightarrow> ('d, 'a) action" where
  "failA e s = (Inl e, s)"

definition bindA :: "('d, 'a) action \<Rightarrow> ('a \<Rightarrow> ('d, 'b) action) \<Rightarrow> ('d, 'b) action" where
  "bindA m f s = (case m s of (Inl e, s) \<Rightarrow> (Inl e, s) | (Inr x, s) \<Rightarrow> f x s)"

definition thenA :: "('d, 'a) action \<Rightarrow> ('d, 'b) action \<Rightarrow> ('d, 'b) action" where
  "thenA m k = bindA m (\<lambda>_. k)"

definition liftA :: "string + 'a \<Rightarrow> ('d, 'a) action" where
  "liftA r s = (r, s)"

text \<open>\<^verbatim>\<open>for _, x := range xs { if err := f(x); err != nil { return err } }\<close>\<close>

fun forA :: "('a \<Rightarrow> ('d, unit) action) \<Rightarrow> 'a list \<Rightarrow> ('d, unit) action" where
  "forA f [] = retA ()"
| "forA f (x # xs) = thenA (f x) (forA f xs)"

definition statement :: "store_env \<Rightarrow> ('d \<Rightarrow> 'a \<times> 'd) \<Rightarrow> ('d, 'a) action" where
  "statement E f s =
     (case se_fails E (st_n s) of
        Some err \<Rightarrow> (Inl err, s\<lparr>st_n := Suc (st_n s)\<rparr>)
      | None \<Rightarrow> let (x, d) = f (st_db s) in (Inr x, s\<lparr>st_db := d, st_n := Suc (st_n s)\<rparr>))"

text \<open>A statement the engine may refuse by itself.\<close>

definition attemptA :: "store_env \<Rightarrow> ('d \<Rightarrow> string + 'd) \<Rightarrow> ('d, unit) action" where
  "attemptA E f s =
     (case se_fails E (st_n s) of
        Some err \<Rightarrow> (Inl err, s\<lparr>st_n := Suc (st_n s)\<rparr>)
      | None \<Rightarrow> (case f (st_db s) of
            Inl err \<Rightarrow> (Inl err, s\<lparr>st_n := Suc (st_n s)\<rparr>)
          | Inr d \<Rightarrow> (Inr (), s\<lparr>st_db := d, st_n := Suc (st_n s)\<rparr>)))"

definition execA :: "store_env \<Rightarrow> ('d \<Rightarrow> 'd) \<Rightarrow> ('d, unit) action" where
  "execA E f = statement E (\<lambda>d. ((), f d))"

definition queryA :: "store_env \<Rightarrow> ('d \<Rightarrow> 'a) \<Rightarrow> ('d, 'a) action" where
  "queryA E f = statement E (\<lambda>d. (f d, d))"

text \<open>Preparing a statement, beginning and committing a transaction touch no table.\<close>

definition touchA :: "store_env \<Rightarrow> ('d, unit) action" where
  "touchA E = execA E (\<lambda>d. d)"

definition wrapA :: "string \<Rightarrow> ('d, 'a) action \<Rightarrow> ('d, 'a) action" where
  "wrapA what m s = (case m s of (Inl e, s) \<Rightarrow> (Inl (what @ '': '' @ e), s) | (Inr x, s) \<Rightarrow> (Inr x, s))"

definition clockA :: "store_env \<Rightarrow> ('d, int) action" where
  "clockA E s = (Inr (se_now E (st_n s)), s)"

definition InTransaction :: "store_env \<Rightarrow> ('d, 'a) action \<Rightarrow> ('d, 'a) action" where
  "InTransaction E fn =
     thenA (touchA E)
       (\<lambda>s. case fn s of
          (Inl err, s') \<Rightarrow> (Inl err, s'\<lparr>st_db := st_db s\<rparr>)
        | (Inr x, s') \<Rightarrow>
            (case touchA E s' of
               (Inl err, s') \<Rightarrow> (Inl err, s'\<lparr>st_db := st_db s\<rparr>)
             | (Inr _, s') \<Rightarrow> (Inr x, s')))"

section \<open>Facts about actions\<close>

named_theorems action_simps \<open>an action that succeeds, part by part\<close>

lemma retA_ok [action_simps]: "retA x s = (Inr y, t) \<longleftrightarrow> y = x \<and> t = s"
  by (auto simp: retA_def)

lemma failA_ok [action_simps]: "failA e s = (Inr y, t) \<longleftrightarrow> False"
  by (simp add: failA_def)

lemma liftA_ok [action_simps]: "liftA r s = (Inr y, t) \<longleftrightarrow> r = Inr y \<and> t = s"
  by (auto simp: liftA_def)

lemma bindA_ok [action_simps]:
  "bindA m f s = (Inr y, t) \<longleftrightarrow> (\<exists>x u. m s = (Inr x, u) \<and> f x u = (Inr y, t))"
  by (auto simp: bindA_def split: prod.splits sum.splits)

lemma thenA_ok [action_simps]:
  "thenA m k s = (Inr y, t) \<longleftrightarrow> (\<exists>x u. m s = (Inr x, u) \<and> k u = (Inr y, t))"
  by (simp add: thenA_def bindA_ok)

lemma clockA_ok [action_simps]: "clockA E s = (Inr y, t) \<longleftrightarrow> y = se_now E (st_n s) \<and> t = s"
  by (auto simp: clockA_def)

lemma wrapA_ok [action_simps]: "wrapA w m s = (Inr y, t) \<longleftrightarrow> m s = (Inr y, t)"
  by (auto simp: wrapA_def split: prod.splits sum.splits)

lemma attemptA_ok: "attemptA E f s = (Inr y, t) \<Longrightarrow> f (st_db s) = Inr (st_db t)"
  by (auto simp: attemptA_def split: option.splits sum.splits)

text \<open>What a statement that succeeds does to the tables.\<close>

lemma execA_ok: "execA E f s = (Inr y, t) \<Longrightarrow> st_db t = f (st_db s)"
  by (auto simp: execA_def statement_def split: option.splits)

lemma queryA_ok: "queryA E f s = (Inr y, t) \<Longrightarrow> st_db t = st_db s \<and> y = f (st_db s)"
  by (auto simp: queryA_def statement_def split: option.splits)

lemma touchA_ok: "touchA E s = (r, t) \<Longrightarrow> st_db t = st_db s"
  by (auto simp: touchA_def execA_def statement_def split: option.splits)

lemma execA_fail: "execA E f s = (Inl e, t) \<Longrightarrow> st_db t = st_db s"
  by (auto simp: execA_def statement_def split: option.splits)

lemma queryA_db: "queryA E f s = (r, t) \<Longrightarrow> st_db t = st_db s"
  by (auto simp: queryA_def statement_def split: option.splits)

lemma forA_ok:
  assumes "\<And>x s t. x \<in> set xs \<Longrightarrow> f x s = (Inr (), t) \<Longrightarrow> st_db t = g x (st_db s)"
  shows "forA f xs s = (Inr (), t) \<Longrightarrow> st_db t = fold g xs (st_db s)"
  using assms
proof (induction xs arbitrary: s)
  case (Cons x xs)
  then obtain u where u: "f x s = (Inr (), u)" "forA f xs u = (Inr (), t)"
    by (auto simp: action_simps)
  with Cons have "st_db t = fold g xs (st_db u)" by simp
  moreover have "st_db u = g x (st_db s)" using Cons.prems u by simp
  ultimately show ?case by simp
qed (simp add: action_simps)

lemma InTransaction_ok:
  "InTransaction E fn s = (Inr y, t) \<Longrightarrow> \<exists>u v. st_db u = st_db s \<and> fn u = (Inr y, v) \<and> st_db t = st_db v"
  unfolding InTransaction_def thenA_ok
  by (fastforce split: prod.splits sum.splits dest: touchA_ok)

text \<open>Atomicity: whatever fails, and wherever, the tables are what they were.\<close>

lemma InTransaction_fail:
  assumes "InTransaction E fn s = (Inl e, t)"
  shows "st_db t = st_db s"
proof (cases "touchA E s")
  case (Pair r u)
  then have u: "st_db u = st_db s" by (rule touchA_ok)
  show ?thesis
    using assms u Pair
    by (cases r) (auto simp: InTransaction_def thenA_def bindA_def split: prod.splits sum.splits)
qed

section \<open>Invariants\<close>

text \<open>\<open>P\<close> survives the action, whether it succeeds or fails.\<close>

definition maintains :: "('d \<Rightarrow> bool) \<Rightarrow> ('d, 'a) action \<Rightarrow> bool" where
  "maintains P m \<longleftrightarrow> (\<forall>s r t. m s = (r, t) \<longrightarrow> P (st_db s) \<longrightarrow> P (st_db t))"

named_theorems maintains_intros \<open>actions an invariant survives\<close>

lemma maintainsD: "maintains P m \<Longrightarrow> m s = (r, t) \<Longrightarrow> P (st_db s) \<Longrightarrow> P (st_db t)"
  by (simp add: maintains_def)

lemma maintains_retA [maintains_intros]: "maintains P (retA x)"
  by (auto simp: maintains_def retA_def)

lemma maintains_failA [maintains_intros]: "maintains P (failA x)"
  by (auto simp: maintains_def failA_def)

lemma maintains_liftA [maintains_intros]: "maintains P (liftA x)"
  by (auto simp: maintains_def liftA_def)

lemma maintains_clockA [maintains_intros]: "maintains P (clockA E)"
  by (auto simp: maintains_def clockA_def)

lemma maintains_bindA [maintains_intros]:
  "maintains P m \<Longrightarrow> (\<And>x. maintains P (f x)) \<Longrightarrow> maintains P (bindA m f)"
  unfolding maintains_def bindA_def by (auto split: prod.splits sum.splits)

lemma maintains_thenA [maintains_intros]: "maintains P m \<Longrightarrow> maintains P k \<Longrightarrow> maintains P (thenA m k)"
  by (simp add: thenA_def maintains_intros)

lemma maintains_wrapA [maintains_intros]: "maintains P m \<Longrightarrow> maintains P (wrapA w m)"
  unfolding maintains_def wrapA_def by (auto split: prod.splits sum.splits)

lemma maintains_forA [maintains_intros]: "(\<And>x. x \<in> set xs \<Longrightarrow> maintains P (f x)) \<Longrightarrow> maintains P (forA f xs)"
  by (induction xs) (auto intro: maintains_intros)

lemma maintains_execA [maintains_intros]: "(\<And>d. P d \<Longrightarrow> P (f d)) \<Longrightarrow> maintains P (execA E f)"
  by (auto simp: maintains_def execA_def statement_def split: option.splits)

lemma maintains_queryA [maintains_intros]: "maintains P (queryA E f)"
  by (auto simp: maintains_def dest: queryA_db)

lemma maintains_touchA [maintains_intros]: "maintains P (touchA E)"
  by (auto simp: maintains_def dest: touchA_ok)

lemma maintains_attemptA [maintains_intros]:
  "(\<And>d d'. P d \<Longrightarrow> f d = Inr d' \<Longrightarrow> P d') \<Longrightarrow> maintains P (attemptA E f)"
  by (auto simp: maintains_def attemptA_def split: option.splits sum.splits)

lemma maintains_InTransaction [maintains_intros]:
  assumes "maintains P fn"
  shows "maintains P (InTransaction E fn)"
  unfolding maintains_def
proof (intro allI impI)
  fix s r t assume run: "InTransaction E fn s = (r, t)" and s: "P (st_db s)"
  show "P (st_db t)"
  proof (cases r)
    case (Inl e)
    then show ?thesis using run s InTransaction_fail by metis
  next
    case (Inr y)
    then show ?thesis using run s InTransaction_ok maintainsD [OF assms] by metis
  qed
qed

text \<open>A run in which no statement fails.\<close>

definition never_fails :: "store_env \<Rightarrow> bool" where
  "never_fails E \<longleftrightarrow> (\<forall>n. se_fails E n = None)"

text \<open>From every database with \<open>P\<close> the action succeeds, with a result and a database in \<open>Q\<close>.\<close>

definition succeeds :: "('d \<Rightarrow> bool) \<Rightarrow> ('d, 'a) action \<Rightarrow> ('a \<Rightarrow> 'd \<Rightarrow> bool) \<Rightarrow> bool" where
  "succeeds P m Q \<longleftrightarrow> (\<forall>s. P (st_db s) \<longrightarrow> (\<exists>x t. m s = (Inr x, t) \<and> Q x (st_db t)))"

lemma succeedsD: "succeeds P m Q \<Longrightarrow> P (st_db s) \<Longrightarrow> \<exists>x t. m s = (Inr x, t) \<and> Q x (st_db t)"
  by (simp add: succeeds_def)

lemma succeeds_conseq:
  "succeeds P m Q \<Longrightarrow> (\<And>d. P' d \<Longrightarrow> P d) \<Longrightarrow> (\<And>x d. Q x d \<Longrightarrow> Q' x d) \<Longrightarrow> succeeds P' m Q'"
  unfolding succeeds_def by meson

lemma succeeds_retA: "(\<And>d. P d \<Longrightarrow> Q x d) \<Longrightarrow> succeeds P (retA x) Q"
  by (simp add: succeeds_def retA_def)

lemma succeeds_liftA: "(\<And>d. P d \<Longrightarrow> Q x d) \<Longrightarrow> succeeds P (liftA (Inr x)) Q"
  by (simp add: succeeds_def liftA_def)

lemma succeeds_clockA: "(\<And>d n. P d \<Longrightarrow> Q n d) \<Longrightarrow> succeeds P (clockA E) Q"
  by (simp add: succeeds_def clockA_def)

lemma succeeds_bindA: "succeeds P m R \<Longrightarrow> (\<And>x. succeeds (R x) (f x) Q) \<Longrightarrow> succeeds P (bindA m f) Q"
  unfolding succeeds_def bindA_ok by meson

lemma succeeds_thenA: "succeeds P m R \<Longrightarrow> (\<And>x. succeeds (R x) k Q) \<Longrightarrow> succeeds P (thenA m k) Q"
  by (simp add: thenA_def succeeds_bindA)

lemma succeeds_wrapA: "succeeds P m Q \<Longrightarrow> succeeds P (wrapA w m) Q"
  by (simp add: succeeds_def wrapA_ok)

lemma succeeds_execA: "never_fails E \<Longrightarrow> (\<And>d. P d \<Longrightarrow> Q () (f d)) \<Longrightarrow> succeeds P (execA E f) Q"
  by (simp add: succeeds_def never_fails_def execA_def statement_def)

lemma succeeds_queryA: "never_fails E \<Longrightarrow> (\<And>d. P d \<Longrightarrow> Q (f d) d) \<Longrightarrow> succeeds P (queryA E f) Q"
  by (simp add: succeeds_def never_fails_def queryA_def statement_def)

lemma succeeds_touchA: "never_fails E \<Longrightarrow> (\<And>d. P d \<Longrightarrow> Q () d) \<Longrightarrow> succeeds P (touchA E) Q"
  unfolding touchA_def by (rule succeeds_execA)

lemma succeeds_attemptA:
  "never_fails E \<Longrightarrow> (\<And>d. P d \<Longrightarrow> \<exists>d'. f d = Inr d' \<and> Q () d') \<Longrightarrow> succeeds P (attemptA E f) Q"
  by (fastforce simp: succeeds_def never_fails_def attemptA_def)

lemma succeeds_forA:
  "(\<And>x. x \<in> set xs \<Longrightarrow> succeeds P (f x) (\<lambda>_. P)) \<Longrightarrow> succeeds P (forA f xs) (\<lambda>_. P)"
proof (induction xs)
  case (Cons x xs)
  then show ?case by (auto intro: succeeds_thenA)
qed (simp add: succeeds_retA)

lemma touchA_run: "never_fails E \<Longrightarrow> touchA E s = (Inr (), s\<lparr>st_n := Suc (st_n s)\<rparr>)"
  by (simp add: touchA_def execA_def statement_def never_fails_def)

lemma succeeds_InTransaction:
  assumes "never_fails E" "succeeds P fn Q"
  shows "succeeds P (InTransaction E fn) Q"
proof -
  have "\<exists>x t. InTransaction E fn s = (Inr x, t) \<and> Q x (st_db t)" if P: "P (st_db s)" for s
  proof -
    let ?u = "s\<lparr>st_n := Suc (st_n s)\<rparr>"
    obtain x v where v: "fn ?u = (Inr x, v)" "Q x (st_db v)" using succeedsD [OF assms(2), of ?u] P by auto
    then show ?thesis by (auto simp: InTransaction_def thenA_def bindA_def touchA_run [OF assms(1)])
  qed
  then show ?thesis by (simp add: succeeds_def)
qed

end
