(* ===== verification/Embeddings.thy ===== *)
theory Embeddings
  imports Config "HOL-Library.Word"
begin

unbundle bit_operations_syntax

text \<open>
  \<^verbatim>\<open>analyzer/embeddings.go\<close>: providers of embeddings, the codec of stored vectors and the
  deterministic embedding used without a provider. A provider is its interface: the
  methods a type does not have are \<open>None\<close>. The HTTP exchange, the environment and the
  context of a call are fields of \<open>embed_env\<close>; the bits of a \<^verbatim>\<open>float64\<close> and its square root
  belong to \<open>vector_ops\<close>.
\<close>

section \<open>Providers\<close>

record 'f vector_ops =
  vo_float :: "'f float_ops"
  vo_sqrt :: "'f \<Rightarrow> 'f"
  vo_bits :: "'f \<Rightarrow> 64 word"
  vo_frombits :: "64 word \<Rightarrow> 'f"

record 'f EmbeddingProvider =
  ep_Embed :: "string list \<Rightarrow> string + 'f list list"
  ep_Dimension :: int
  ep_Name :: string
  ep_Model :: "string option"
  ep_Fingerprint :: "string option"

record 'f embeddingResponse =
  ers_Data :: "'f list list"
  ers_Embedding :: "'f list"

text \<open>
  \<open>xe_Do client endpoint bearer model texts\<close> is one POST: the error of building or sending
  the request, or the status code with the decoded body (\<open>Inl\<close>: the decoder's error).
\<close>

record 'f embed_env =
  xe_ctxErr :: "string option"
  xe_Getenv :: "string \<Rightarrow> string"
  xe_Do :: "int \<Rightarrow> string \<Rightarrow> string \<Rightarrow> string \<Rightarrow> string list \<Rightarrow> string + int \<times> (string + 'f embeddingResponse)"

definition requestEmbeddings ::
  "'f embed_env \<Rightarrow> int \<Rightarrow> string \<Rightarrow> string \<Rightarrow> string \<Rightarrow> string list \<Rightarrow> string + 'f list list" where
  "requestEmbeddings E client endpoint model bearerToken texts =
     (if texts = [] then Inr []
      else case xe_Do E client endpoint bearerToken model texts of
        Inl err \<Rightarrow> Inl err
      | Inr (status, body) \<Rightarrow>
          if status < 200 \<or> status \<ge> 300 then Inl (''embedding endpoint returned HTTP '' @ Itoa status)
          else (case body of
                  Inl err \<Rightarrow> Inl err
                | Inr decoded \<Rightarrow>
                    if length (ers_Data decoded) > 0 then Inr (ers_Data decoded)
                    else if length (ers_Embedding decoded) > 0 then Inr [ers_Embedding decoded]
                    else Inl ''embedding endpoint returned no embeddings''))"

record LocalProvider =
  epl_endpoint :: string
  epl_model :: string
  epl_timeout :: int
  epl_dimension :: int

definition LocalProvider_Dimension :: "LocalProvider \<Rightarrow> int" where
  "LocalProvider_Dimension p = (if epl_dimension p > 0 then epl_dimension p else 16)"

definition LocalProvider_Embed :: "'f embed_env \<Rightarrow> LocalProvider \<Rightarrow> string list \<Rightarrow> string + 'f list list" where
  "LocalProvider_Embed E p texts =
     (case xe_ctxErr E of
        Some err \<Rightarrow> Inl err
      | None \<Rightarrow>
          if TrimSpace (epl_endpoint p) \<noteq> ''''
          then requestEmbeddings E (epl_timeout p) (epl_endpoint p) (epl_model p) '''' texts
          else Inl ''embedding local endpoint is required'')"

definition LocalProvider_Fingerprint :: "LocalProvider \<Rightarrow> string" where
  "LocalProvider_Fingerprint p =
     Join ''|'' [''local'', TrimSpace (epl_endpoint p), TrimSpace (epl_model p), Itoa (LocalProvider_Dimension p)]"

definition LocalProvider_methods :: "'f embed_env \<Rightarrow> LocalProvider \<Rightarrow> 'f EmbeddingProvider" where
  "LocalProvider_methods E p =
     \<lparr>ep_Embed = LocalProvider_Embed E p, ep_Dimension = LocalProvider_Dimension p, ep_Name = ''local'',
      ep_Model = Some (TrimSpace (epl_model p)), ep_Fingerprint = Some (LocalProvider_Fingerprint p)\<rparr>"

record APIProvider =
  epa_baseURL :: string
  epa_model :: string
  epa_apiKeyEnv :: string
  epa_timeout :: int
  epa_dimension :: int

text \<open>\<^verbatim>\<open>strings.TrimRight(s, "/")\<close>\<close>

definition trimRightSlash :: "string \<Rightarrow> string" where
  "trimRightSlash s = rev (dropWhile (\<lambda>c. c = CHR ''/'') (rev s))"

definition APIProvider_Embed :: "'f embed_env \<Rightarrow> APIProvider \<Rightarrow> string list \<Rightarrow> string + 'f list list" where
  "APIProvider_Embed E p texts =
     (let key = TrimSpace (xe_Getenv E (epa_apiKeyEnv p))
      in if key = '''' then Inl (''embedding API key env '' @ epa_apiKeyEnv p @ '' is not set'')
         else if TrimSpace (epa_baseURL p) = '''' then Inl ''embedding api base_url is required''
         else requestEmbeddings E (epa_timeout p) (trimRightSlash (epa_baseURL p) @ ''/embeddings'')
                (epa_model p) key texts)"

definition APIProvider_Fingerprint :: "APIProvider \<Rightarrow> string" where
  "APIProvider_Fingerprint p =
     Join ''|'' [''api'', TrimSpace (epa_baseURL p), TrimSpace (epa_model p), TrimSpace (epa_apiKeyEnv p),
               Itoa (epa_dimension p)]"

definition APIProvider_methods :: "'f embed_env \<Rightarrow> APIProvider \<Rightarrow> 'f EmbeddingProvider" where
  "APIProvider_methods E p =
     \<lparr>ep_Embed = APIProvider_Embed E p, ep_Dimension = epa_dimension p, ep_Name = ''api'',
      ep_Model = Some (epa_model p), ep_Fingerprint = Some (APIProvider_Fingerprint p)\<rparr>"

definition hasExplicitEmbeddingsProviderConfig :: "ConfigEmbeddings \<Rightarrow> bool" where
  "hasExplicitEmbeddingsProviderConfig c =
     (if TrimSpace (em_Provider c) = ''none'' then False
      else if TrimSpace (em_Provider c) = ''local'' then TrimSpace (ee_Endpoint (em_Local c)) \<noteq> ''''
      else if TrimSpace (em_Provider c) = ''api''
           then TrimSpace (ea_BaseURL (em_API c)) \<noteq> '''' \<or> TrimSpace (ea_Model (em_API c)) \<noteq> ''''
      else TrimSpace (ee_Endpoint (em_Local c)) \<noteq> '''' \<or> TrimSpace (ee_Model (em_Local c)) \<noteq> ''''
           \<or> TrimSpace (ea_BaseURL (em_API c)) \<noteq> '''' \<or> TrimSpace (ea_Model (em_API c)) \<noteq> ''''
           \<or> TrimSpace (ea_APIKeyEnv (em_API c)) \<noteq> ''''
           \<or> em_BatchSize c > 0 \<or> em_ChunkSize c > 0 \<or> em_Dimension c > 0)"

definition NewEmbeddingProviderFromConfig ::
  "'f embed_env \<Rightarrow> 'f float_ops \<Rightarrow> ConfigEmbeddings \<Rightarrow> string + 'f EmbeddingProvider option" where
  "NewEmbeddingProviderFromConfig E F c =
     (if \<not> hasExplicitEmbeddingsProviderConfig c then Inr None
      else let c = wc_Embeddings (normalizeWorkspaceConfig ((noWorkspaceConfig F)\<lparr>wc_Embeddings := c\<rparr>))
        in if em_Provider c = ''none'' then Inr None
           else if em_Provider c = ''api''
           then Inr (Some (APIProvider_methods E
                  \<lparr>epa_baseURL = ea_BaseURL (em_API c), epa_model = ea_Model (em_API c),
                   epa_apiKeyEnv = ea_APIKeyEnv (em_API c), epa_timeout = ea_Timeout (em_API c),
                   epa_dimension = em_Dimension c\<rparr>))
           else if em_Provider c = ''local''
           then Inr (Some (LocalProvider_methods E
                  \<lparr>epl_endpoint = ee_Endpoint (em_Local c), epl_model = ee_Model (em_Local c),
                   epl_timeout = ee_Timeout (em_Local c), epl_dimension = em_Dimension c\<rparr>))
           else Inl (''unsupported embeddings provider '' @ go_quote (em_Provider c)))"

section \<open>The version of an embedding\<close>

text \<open>FNV-1a on 32 bits, as \<^verbatim>\<open>hash/fnv\<close> has it.\<close>

definition fnv32a :: "string \<Rightarrow> 32 word" where
  "fnv32a s = fold (\<lambda>c h. (h XOR word_of_nat (of_char c)) * 16777619) s 2166136261"

definition embeddingVersionForProvider :: "'f EmbeddingProvider option \<Rightarrow> int" where
  "embeddingVersionForProvider provider =
     (case provider of
        None \<Rightarrow> 0
      | Some p \<Rightarrow>
          let label = (case ep_Fingerprint p of
                Some fp \<Rightarrow> fp
              | None \<Rightarrow>
                  ep_Name p
                  @ (case ep_Model p of
                       Some m \<Rightarrow> if TrimSpace m \<noteq> '''' then '':'' @ TrimSpace m else ''''
                     | None \<Rightarrow> '''')
                  @ '':dim='' @ Itoa (ep_Dimension p))
          in uint (fnv32a label))"

definition EmbeddingProviderLabel :: "'f EmbeddingProvider option \<Rightarrow> string" where
  "EmbeddingProviderLabel provider =
     (case provider of
        None \<Rightarrow> ''unconfigured''
      | Some p \<Rightarrow>
          (case ep_Model p of
             Some m \<Rightarrow> if TrimSpace m \<noteq> '''' then ep_Name p @ '':'' @ TrimSpace m else ep_Name p
           | None \<Rightarrow> ep_Name p))"

section \<open>Vectors\<close>

text \<open>
  Go ranges over a string by code points: the loop sees the byte index and the rune, and a
  byte that starts no valid sequence is one rune U+FFFD.
\<close>

definition is_cont :: "nat \<Rightarrow> bool" where
  "is_cont b \<longleftrightarrow> 0x80 \<le> b \<and> b \<le> 0xBF"

fun decode_rune :: "nat list \<Rightarrow> nat \<times> nat" where
  "decode_rune (a # b # c # d # bs) =
     (if a < 0x80 then (a, 1)
      else if 0xC2 \<le> a \<and> a \<le> 0xDF \<and> is_cont b then ((a - 0xC0) * 64 + (b - 0x80), 2)
      else if 0xE0 \<le> a \<and> a \<le> 0xEF \<and> is_cont b \<and> is_cont c
              \<and> (a = 0xE0 \<longrightarrow> 0xA0 \<le> b) \<and> (a = 0xED \<longrightarrow> b \<le> 0x9F)
      then (((a - 0xE0) * 64 + (b - 0x80)) * 64 + (c - 0x80), 3)
      else if 0xF0 \<le> a \<and> a \<le> 0xF4 \<and> is_cont b \<and> is_cont c \<and> is_cont d
              \<and> (a = 0xF0 \<longrightarrow> 0x90 \<le> b) \<and> (a = 0xF4 \<longrightarrow> b \<le> 0x8F)
      then ((((a - 0xF0) * 64 + (b - 0x80)) * 64 + (c - 0x80)) * 64 + (d - 0x80), 4)
      else (0xFFFD, 1))"
| "decode_rune [a, b, c] =
     (if a < 0x80 then (a, 1)
      else if 0xC2 \<le> a \<and> a \<le> 0xDF \<and> is_cont b then ((a - 0xC0) * 64 + (b - 0x80), 2)
      else if 0xE0 \<le> a \<and> a \<le> 0xEF \<and> is_cont b \<and> is_cont c
              \<and> (a = 0xE0 \<longrightarrow> 0xA0 \<le> b) \<and> (a = 0xED \<longrightarrow> b \<le> 0x9F)
      then (((a - 0xE0) * 64 + (b - 0x80)) * 64 + (c - 0x80), 3)
      else (0xFFFD, 1))"
| "decode_rune [a, b] =
     (if a < 0x80 then (a, 1)
      else if 0xC2 \<le> a \<and> a \<le> 0xDF \<and> is_cont b then ((a - 0xC0) * 64 + (b - 0x80), 2)
      else (0xFFFD, 1))"
| "decode_rune [a] = (if a < 0x80 then (a, 1) else (0xFFFD, 1))"
| "decode_rune [] = (0xFFFD, 1)"

lemma decode_rune_width: "0 < snd (decode_rune bs)"
  by (cases bs rule: decode_rune.cases) simp_all

function range_runes :: "nat \<Rightarrow> nat list \<Rightarrow> (nat \<times> nat) list" where
  "range_runes i bs =
     (if bs = [] then []
      else (i, fst (decode_rune bs))
           # range_runes (i + snd (decode_rune bs)) (drop (snd (decode_rune bs)) bs))"
  by pat_completeness auto
termination
  by (relation "measure (\<lambda>(_, bs). length bs)") (auto simp: decode_rune_width)

declare range_runes.simps [simp del]

definition runes :: "string \<Rightarrow> (nat \<times> nat) list" where
  "runes s = range_runes 0 (map of_char s)"

definition deterministicEmbedding :: "'f vector_ops \<Rightarrow> string \<Rightarrow> int \<Rightarrow> 'f list" where
  "deterministicEmbedding V txt dim =
     (let F = vo_float V;
          n = nat (if dim \<le> 0 then 16 else dim);
          vec = fold (\<lambda>(i, r) vec. vec[i mod n := fl_add F (vec ! (i mod n))
                       (fl_div F (fl_ofInt F (int (r mod 97) + 1)) (fl_ofInt F 97))])
                  (runes txt) (replicate n (fl_ofInt F 0));
          norm = fold (\<lambda>v s. fl_add F s (fl_mul F v v)) vec (fl_ofInt F 0)
      in if fl_eq F norm (fl_ofInt F 0) then vec[0 := fl_ofInt F 1]
         else map (\<lambda>v. fl_div F v (vo_sqrt V norm)) vec)"

definition PutUint64 :: "64 word \<Rightarrow> 8 word list" where
  "PutUint64 w = map (\<lambda>i. ucast (drop_bit (8 * i) w)) [0..<8]"

definition Uint64 :: "8 word list \<Rightarrow> 64 word" where
  "Uint64 bs = fold (\<lambda>i w. w OR push_bit (8 * i) (ucast (bs ! i))) [0..<8] 0"

definition encodeEmbedding :: "'f vector_ops \<Rightarrow> 'f list \<Rightarrow> 8 word list" where
  "encodeEmbedding V vec = concat (map (\<lambda>v. PutUint64 (vo_bits V v)) vec)"

definition decodeEmbedding :: "'f vector_ops \<Rightarrow> 8 word list \<Rightarrow> 'f list" where
  "decodeEmbedding V blob =
     (if length blob mod 8 \<noteq> 0 \<or> length blob = 0 then []
      else map (\<lambda>i. vo_frombits V (Uint64 (drop (i * 8) blob))) [0..<length blob div 8])"

definition normalizeSearchQuery :: "'f vector_ops \<Rightarrow> string \<Rightarrow> 'f list" where
  "normalizeSearchQuery V query = deterministicEmbedding V (TrimSpace (ToLower query)) 16"

definition EmbedSearchQuery :: "'f EmbeddingProvider option \<Rightarrow> string \<Rightarrow> string + 'f list" where
  "EmbedSearchQuery provider query =
     (case provider of
        None \<Rightarrow> Inl ''embedding provider is not configured''
      | Some p \<Rightarrow>
          (case ep_Embed p [TrimSpace query] of
             Inl err \<Rightarrow> Inl err
           | Inr vecs \<Rightarrow>
               if length vecs \<noteq> 1
               then Inl (''embedding provider returned '' @ Itoa (int (length vecs)) @ '' query vectors'')
               else Inr (vecs ! 0)))"

section \<open>Facts\<close>

lemma length_PutUint64 [simp]: "length (PutUint64 w) = 8"
  by (simp add: PutUint64_def)

lemma bit_fold_or:
  fixes f :: "nat \<Rightarrow> 64 word"
  assumes "n < 64"
  shows "bit (fold (\<lambda>i w. w OR push_bit (8 * i) (f i)) xs z) n \<longleftrightarrow>
    bit z n \<or> (\<exists>i\<in>set xs. 8 * i \<le> n \<and> bit (f i) (n - 8 * i))"
  using assms by (induction xs arbitrary: z) (auto simp: bit_or_iff bit_push_bit_iff)

lemma Uint64_PutUint64: "Uint64 (PutUint64 w @ bs) = w"
proof (rule bit_word_eqI)
  fix n assume "n < LENGTH(64)"
  then have n: "n < 64" by simp
  have put: "(PutUint64 w @ bs) ! i = ucast (drop_bit (8 * i) w)" if "i < 8" for i
    using that by (simp add: PutUint64_def nth_append)
  have "bit (Uint64 (PutUint64 w @ bs)) n \<longleftrightarrow>
      (\<exists>i<8. 8 * i \<le> n \<and> bit (ucast (ucast (drop_bit (8 * i) w) :: 8 word) :: 64 word) (n - 8 * i))"
    unfolding Uint64_def bit_fold_or [OF n] using put by (simp add: Bex_def)
  also have "\<dots> \<longleftrightarrow> (\<exists>i<8. 8 * i \<le> n \<and> n - 8 * i < 8 \<and> bit w n)"
    using n by (auto simp: bit_unsigned_iff bit_drop_bit_eq)
  also have "\<dots> \<longleftrightarrow> bit w n"
    using n by (auto intro!: exI [of _ "n div 8"])
  finally show "bit (Uint64 (PutUint64 w @ bs)) n = bit w n" .
qed

lemma length_encodeEmbedding [simp]: "length (encodeEmbedding V vec) = 8 * length vec"
  by (induction vec) (simp_all add: encodeEmbedding_def)

lemma encode_drop:
  "i < length vec \<Longrightarrow> \<exists>rest. drop (i * 8) (encodeEmbedding V vec) = PutUint64 (vo_bits V (vec ! i)) @ rest"
proof (induction vec arbitrary: i)
  case (Cons v vec)
  have step: "encodeEmbedding V (v # vec) = PutUint64 (vo_bits V v) @ encodeEmbedding V vec"
    by (simp add: encodeEmbedding_def)
  show ?case
  proof (cases i)
    case 0
    then show ?thesis by (simp add: step)
  next
    case (Suc j)
    with Cons obtain rest where "drop (j * 8) (encodeEmbedding V vec) = PutUint64 (vo_bits V (vec ! j)) @ rest"
      by auto
    with Suc show ?thesis by (simp add: step)
  qed
qed simp

lemma decode_encoded_vector: "decodeEmbedding V (encodeEmbedding V vec) = map (\<lambda>v. vo_frombits V (vo_bits V v)) vec"
proof (cases "vec = []")
  case False
  have "vo_frombits V (Uint64 (drop (i * 8) (encodeEmbedding V vec))) = vo_frombits V (vo_bits V (vec ! i))"
    if "i < length vec" for i
    using encode_drop [OF that] by (metis Uint64_PutUint64)
  then show ?thesis
    using False by (auto simp: decodeEmbedding_def intro!: nth_equalityI)
qed (simp add: decodeEmbedding_def encodeEmbedding_def)

lemma length_decodeEmbedding: "8 * length (decodeEmbedding V blob) = length blob \<or> decodeEmbedding V blob = []"
  by (auto simp: decodeEmbedding_def)

lemma length_deterministicEmbedding:
  "int (length (deterministicEmbedding V txt dim)) = (if dim \<le> 0 then 16 else dim)"
proof -
  have len: "length (fold (\<lambda>(i, r) vec. vec[i mod n := f i r vec]) rs v) = length v" for n rs v and f :: "nat \<Rightarrow> nat \<Rightarrow> 'a list \<Rightarrow> 'a"
    by (induction rs arbitrary: v) auto
  show ?thesis by (simp add: deterministicEmbedding_def Let_def len)
qed

lemma runes_ascii:
  "list_all (\<lambda>c. of_char c < (128 :: nat)) s \<Longrightarrow> range_runes k (map of_char s) = enumerate k (map of_char s)"
proof (induction s arbitrary: k)
  case (Cons c s)
  have "decode_rune (of_char c # map of_char s) = (of_char c, 1)"
    using Cons.prems by (cases "of_char c # map of_char s :: nat list" rule: decode_rune.cases) auto
  with Cons show ?case by (subst range_runes.simps) simp
qed (simp add: range_runes.simps)

end
