(* ===== verification/Symbols.thy ===== *)
theory Symbols
  imports Complexity_Report Embeddings
begin

text \<open>
  \<^verbatim>\<open>analyzer/symbols.go\<close>: the functions and types of the loaded packages as symbols with their
  source text, and the hash that tells whether a stored symbol is stale. A node carries what
  the file set and \<^verbatim>\<open>go/format\<close> say of it; \<^verbatim>\<open>go/parser\<close> gives every declaration a name, so
  the tests for nil names have no counterpart. Times are nanoseconds since Go's zero time.
  \<^verbatim>\<open>analyzer/file_meta.go\<close> follows: the metadata of the compiled files.
\<close>

record CodeSymbol =
  cds_ID :: string
  cds_Type :: string
  cds_PackagePath :: string
  cds_Name :: string
  cds_FilePath :: string
  cds_LineStart :: int
  cds_LineEnd :: int
  cds_Source :: string
  cds_Embedding :: "8 word list"

record SymbolHash =
  smh_SymbolID :: string
  smh_FilePath :: string
  smh_SymbolType :: string
  smh_SymbolName :: string
  smh_SourceHash :: string
  smh_EmbeddingVersion :: int
  smh_CreatedAt :: int

record ast_node =
  nd_File :: string
  nd_Line :: int
  nd_EndLine :: int
  nd_Format :: "string option"    \<comment> \<open>the text of \<^verbatim>\<open>format.Node\<close>, \<open>None\<close> when it fails\<close>
  nd_Sprint :: string

datatype symbol_spec = TypeSpecOf string expr ast_node | SpecElse
datatype symbol_decl = FuncOf FuncDecl ast_node | GenOf string "symbol_spec list" | DeclElse

record symbol_package =
  yp_Fset :: bool
  yp_PkgPath :: string
  yp_Syntax :: "symbol_decl list list"

section \<open>Extraction\<close>

definition symbolNameForFunc :: "string \<Rightarrow> FuncDecl \<Rightarrow> string" where
  "symbolNameForFunc pkgPath fd =
     (let recv = receiverName fd
      in if recv \<noteq> '''' then pkgPath @ ''.'' @ recv @ ''.'' @ fd_Name fd else pkgPath @ ''.'' @ fd_Name fd)"

fun typeSymbolKind :: "expr \<Rightarrow> string" where
  "typeSymbolKind (StructType _) = ''struct''"
| "typeSymbolKind (InterfaceType _) = ''interface''"
| "typeSymbolKind _ = ''type''"

definition shortSymbolName :: "string \<Rightarrow> string" where
  "shortSymbolName ident =
     (if list_ex (\<lambda>c. c = CHR ''.'' \<or> c = CHR ''/'') ident
      then rev (takeWhile (\<lambda>c. \<not> (c = CHR ''.'' \<or> c = CHR ''/'')) (rev ident)) else ident)"

definition formattedNode :: "ast_node \<Rightarrow> string" where
  "formattedNode n = (case nd_Format n of Some t \<Rightarrow> t | None \<Rightarrow> nd_Sprint n)"

definition codeSymbolForNode :: "symbol_package \<Rightarrow> ast_node \<Rightarrow> string \<Rightarrow> string \<Rightarrow> CodeSymbol option" where
  "codeSymbolForNode pkg n symbolType ident =
     (if nd_File n = '''' \<or> nd_Line n = 0 then None
      else if formattedNode n = '''' then None
      else Some \<lparr>cds_ID = ident, cds_Type = symbolType, cds_PackagePath = yp_PkgPath pkg,
        cds_Name = shortSymbolName ident, cds_FilePath = nd_File n, cds_LineStart = nd_Line n,
        cds_LineEnd = nd_EndLine n, cds_Source = formattedNode n, cds_Embedding = []\<rparr>)"

definition SymbolSourceHash :: "(string \<Rightarrow> string) \<Rightarrow> string \<Rightarrow> string" where
  "SymbolSourceHash md5 source = hex_encode (md5 source)"

definition defaultEmbeddingVersion :: int where
  "defaultEmbeddingVersion = 1"

definition symbolHashForCodeSymbol :: "(string \<Rightarrow> string) \<Rightarrow> CodeSymbol \<Rightarrow> int \<Rightarrow> SymbolHash" where
  "symbolHashForCodeSymbol md5 s createdAt =
     \<lparr>smh_SymbolID = cds_ID s, smh_FilePath = cds_FilePath s, smh_SymbolType = cds_Type s,
      smh_SymbolName = cds_Name s, smh_SourceHash = SymbolSourceHash md5 (cds_Source s),
      smh_EmbeddingVersion = defaultEmbeddingVersion, smh_CreatedAt = createdAt\<rparr>"

text \<open>One turn of the loop over the declarations: the symbols it appends.\<close>

fun symbolsOfSpec :: "symbol_package \<Rightarrow> symbol_spec \<Rightarrow> CodeSymbol list" where
  "symbolsOfSpec pkg (TypeSpecOf name ty n) =
     (case codeSymbolForNode pkg n (typeSymbolKind ty) (yp_PkgPath pkg @ ''.'' @ name) of
        None \<Rightarrow> [] | Some s \<Rightarrow> [s])"
| "symbolsOfSpec pkg SpecElse = []"

fun symbolsOfDecl :: "symbol_package \<Rightarrow> symbol_decl \<Rightarrow> CodeSymbol list" where
  "symbolsOfDecl pkg (FuncOf fd n) =
     (case codeSymbolForNode pkg n ''function'' (symbolNameForFunc (yp_PkgPath pkg) fd) of
        None \<Rightarrow> [] | Some s \<Rightarrow> [s])"
| "symbolsOfDecl pkg (GenOf tok specs) =
     (if tok \<noteq> ''type'' then [] else concat (map (symbolsOfSpec pkg) specs))"
| "symbolsOfDecl pkg DeclElse = []"

definition ExtractCodeSymbolsFromSyntax ::
  "(string \<Rightarrow> string) \<Rightarrow> int \<Rightarrow> symbol_package option list \<Rightarrow> CodeSymbol list \<times> SymbolHash list" where
  "ExtractCodeSymbolsFromSyntax md5 now pkgs =
     (let symbols = concat (map (\<lambda>p. case p of
            None \<Rightarrow> []
          | Some pkg \<Rightarrow>
              if \<not> yp_Fset pkg \<or> yp_PkgPath pkg = '''' then []
              else concat (map (\<lambda>file. concat (map (symbolsOfDecl pkg) file)) (yp_Syntax pkg))) pkgs)
      in (symbols, map (\<lambda>s. symbolHashForCodeSymbol md5 s now) symbols))"

section \<open>File metadata\<close>

record FileMeta =
  fmt_Path :: string
  fmt_Hash :: string
  fmt_Module :: string
  fmt_Package :: string
  fmt_Size :: int
  fmt_ModifiedAt :: int
  fmt_IndexedAt :: int
  fmt_LastBuildSSAAt :: int

record file_package =
  fpk_PkgPath :: string
  fpk_Module :: "string option"     \<comment> \<open>the path of the module, \<open>None\<close> without one\<close>
  fpk_CompiledGoFiles :: "string list"

text \<open>What the file system says of a file: its absolute path, its size and time, its content.\<close>

record file_probe =
  fpr_Abs :: "string \<Rightarrow> string option"
  fpr_Stat :: "string \<Rightarrow> (int \<times> int) option"
  fpr_Read :: "string \<Rightarrow> string option"
  fpr_sha256 :: "string \<Rightarrow> string"

definition modulePathFromPackage :: "file_package \<Rightarrow> string" where
  "modulePathFromPackage pkg = (case fpk_Module pkg of None \<Rightarrow> '''' | Some m \<Rightarrow> m)"

definition fileMetaOf :: "file_probe \<Rightarrow> int \<Rightarrow> file_package \<Rightarrow> string \<Rightarrow> FileMeta" where
  "fileMetaOf P now pkg file =
     (let absPath = (case fpr_Abs P file of Some p \<Rightarrow> p | None \<Rightarrow> file);
          info = fpr_Stat P file
      in \<lparr>fmt_Path = absPath, fmt_Hash = (case fpr_Read P file of Some c \<Rightarrow> hashFile (fpr_sha256 P) c | None \<Rightarrow> ''''),
          fmt_Module = modulePathFromPackage pkg, fmt_Package = fpk_PkgPath pkg,
          fmt_Size = (case info of Some (n, _) \<Rightarrow> n | None \<Rightarrow> 0),
          fmt_ModifiedAt = (case info of Some (_, t) \<Rightarrow> t | None \<Rightarrow> 0),
          fmt_IndexedAt = now, fmt_LastBuildSSAAt = 0\<rparr>)"

definition extractFileMetasFromPackages ::
  "file_probe \<Rightarrow> int \<Rightarrow> file_package option list \<Rightarrow> FileMeta list" where
  "extractFileMetasFromPackages P now pkgs =
     concat (map (\<lambda>p. case p of
        None \<Rightarrow> []
      | Some pkg \<Rightarrow> if fpk_PkgPath pkg = '''' then [] else map (fileMetaOf P now pkg) (fpk_CompiledGoFiles pkg)) pkgs)"

section \<open>Facts\<close>

lemma shortSymbolName_qualified:
  "CHR ''.'' \<notin> set name \<Longrightarrow> CHR ''/'' \<notin> set name \<Longrightarrow> shortSymbolName (pre @ ''.'' @ name) = name"
proof -
  assume "CHR ''.'' \<notin> set name" "CHR ''/'' \<notin> set name"
  then have "\<forall>c\<in>set (rev name). \<not> (c = CHR ''.'' \<or> c = CHR ''/'')" by auto
  then have "takeWhile (\<lambda>c. \<not> (c = CHR ''.'' \<or> c = CHR ''/'')) (rev name @ CHR ''.'' # rev pre) = rev name"
    by (subst takeWhile_append2) auto
  then show ?thesis by (simp add: shortSymbolName_def)
qed

text \<open>Hashes and symbols correspond one to one, whatever the packages hold.\<close>

lemma extracted_hashes:
  "snd (ExtractCodeSymbolsFromSyntax md5 now pkgs)
   = map (\<lambda>s. symbolHashForCodeSymbol md5 s now) (fst (ExtractCodeSymbolsFromSyntax md5 now pkgs))"
  by (simp add: ExtractCodeSymbolsFromSyntax_def Let_def)

lemma extracted_have_source:
  assumes "s \<in> set (fst (ExtractCodeSymbolsFromSyntax md5 now pkgs))"
  shows "cds_Source s \<noteq> '''' \<and> cds_Embedding s = [] \<and> cds_FilePath s \<noteq> '''' \<and> cds_PackagePath s \<noteq> ''''"
proof -
  have node: "cds_Source s \<noteq> '''' \<and> cds_Embedding s = [] \<and> cds_FilePath s \<noteq> '''' \<and> cds_PackagePath s = yp_PkgPath pkg"
    if "codeSymbolForNode pkg n k i = Some s" for pkg n k i
    using that by (auto simp: codeSymbolForNode_def split: if_splits)
  have decl: "cds_Source s \<noteq> '''' \<and> cds_Embedding s = [] \<and> cds_FilePath s \<noteq> '''' \<and> cds_PackagePath s = yp_PkgPath pkg"
    if "s \<in> set (symbolsOfDecl pkg d)" for pkg d
  proof (cases d)
    case (GenOf tok specs)
    with that obtain sp where "s \<in> set (symbolsOfSpec pkg sp)" by (auto split: if_splits)
    then show ?thesis by (cases sp) (use node in \<open>auto split: option.splits\<close>)
  qed (use that node in \<open>auto split: option.splits\<close>)
  show ?thesis
    using assms decl by (fastforce simp: ExtractCodeSymbolsFromSyntax_def Let_def split: option.splits if_splits)
qed

end
