(* ===== verification/Store.thy ===== *)
theory Store
  imports Store_Tables Symbols Interfaces
begin

text \<open>
  \<^verbatim>\<open>analyzer/storage.go\<close>: the workspace store. The database is a record of tables; each
  \<open>...Tx\<close> function is the loop over its argument with one prepared statement. Times are
  nanoseconds since Go's zero time, a NULL time is \<open>None\<close>. The vector index is a virtual
  table of an extension of the engine: which vectors it accepts, how it orders matches and
  what \<^verbatim>\<open>json.Marshal\<close> makes of a vector are the argument \<open>X\<close>.
\<close>

section \<open>Rows\<close>

record ArchEdge =
  aed_SourceType :: string
  aed_SourcePath :: string
  aed_SourceName :: string
  aed_TargetType :: string
  aed_TargetPath :: string
  aed_TargetName :: string
  aed_EdgeType :: string
  aed_Metadata :: string
  aed_CreatedAt :: int

record HTTPRoute =
  hrt_Method :: string
  hrt_Path :: string
  hrt_Handler :: string
  hrt_Framework :: string
  hrt_File :: string
  hrt_Line :: int
  hrt_Anchor :: string

record HTTPRouteRow =
  hrr_Method :: string
  hrr_Path :: string
  hrr_Handler :: string
  hrr_Framework :: string
  hrr_File :: string
  hrr_Line :: int

record GRPCEndpoint =
  gep_Service :: string
  gep_ServiceShortName :: string
  gep_Method :: string
  gep_FullMethod :: string
  gep_RPCType :: string
  gep_Handler :: string
  gep_HandlerType :: string
  gep_ServiceDesc :: string
  gep_ProtoFile :: string
  gep_Package :: string
  gep_Registered :: bool
  gep_Implementations :: "string list"
  gep_File :: string
  gep_Line :: int
  gep_Anchor :: string

record GRPCRegistration =
  grg_Service :: string
  grg_ServiceShortName :: string
  grg_RegisterFunc :: string
  grg_Registrar :: string
  grg_Implementation :: string
  grg_Package :: string
  grg_File :: string
  grg_Line :: int
  grg_Anchor :: string

text \<open>The columns of the tables that are not the fields of a struct.\<close>

type_synonym file_row = "FileMeta \<times> int option"    \<comment> \<open>the last column is nullable\<close>

record 'f metric_row =
  mtr_function_id :: string
  mtr_package_path :: string
  mtr_function_name :: string
  mtr_receiver :: string
  mtr_file_path :: string
  mtr_line_start :: int
  mtr_cyclomatic :: int
  mtr_cognitive :: int
  mtr_body_lines :: int
  mtr_max_nesting :: int
  mtr_halstead_volume :: 'f
  mtr_halstead_difficulty :: 'f
  mtr_halstead_effort :: 'f
  mtr_maintainability_index :: 'f

record endpoint_row =
  epr_service :: string
  epr_method :: string
  epr_full_path :: string
  epr_rpc_type :: string
  epr_handler_path :: string
  epr_handler_type :: string
  epr_service_desc :: string
  epr_proto_file :: string
  epr_package_path :: string
  epr_registered :: int
  epr_implementations :: string
  epr_file_path :: string
  epr_line :: int

record reg_row =
  rgr_service :: string
  rgr_service_short_name :: string
  rgr_register_func :: string
  rgr_registrar :: string
  rgr_implementation :: string
  rgr_package_path :: string
  rgr_file_path :: string
  rgr_line :: int

record 'f db =
  db_files :: "file_row list"
  db_edges :: "ArchEdge list"
  db_metrics :: "'f metric_row list"
  db_routes :: "HTTPRouteRow list"
  db_endpoints :: "endpoint_row list"
  db_regs :: "reg_row list"
  db_symbols :: "CodeSymbol list"
  db_hashes :: "SymbolHash list"
  db_state :: "(string \<times> string \<times> int) list"
  db_vec_map :: "(int \<times> string) list"
  db_vec_next :: int                                  \<comment> \<open>the next value of AUTOINCREMENT\<close>
  db_vec :: "(int \<times> (int \<times> string) list) option"   \<comment> \<open>dimension, rows; \<open>None\<close>: no table\<close>

definition empty_db :: "'f db" where
  "empty_db = \<lparr>db_files = [], db_edges = [], db_metrics = [], db_routes = [], db_endpoints = [], db_regs = [],
     db_symbols = [], db_hashes = [], db_state = [], db_vec_map = [], db_vec_next = 1, db_vec = None\<rparr>"

record 'f vec_engine =
  ve_json :: "'f list \<Rightarrow> string + string"
  ve_rejects :: "int \<Rightarrow> string \<Rightarrow> string option"
  ve_match :: "(int \<times> string) list \<Rightarrow> string \<Rightarrow> int \<Rightarrow> string + int list"

section \<open>The unique constraints\<close>

definition file_key :: "file_row \<Rightarrow> string" where
  "file_key r = fmt_Path (fst r)"

definition edge_key7 :: "ArchEdge \<Rightarrow> string list" where
  "edge_key7 e = [aed_SourceType e, aed_SourcePath e, aed_SourceName e, aed_TargetType e, aed_TargetPath e,
     aed_TargetName e, aed_EdgeType e]"

definition edge_merge :: "ArchEdge \<Rightarrow> ArchEdge \<Rightarrow> ArchEdge" where
  "edge_merge new old = old\<lparr>aed_Metadata := aed_Metadata new, aed_CreatedAt := aed_CreatedAt new\<rparr>"

definition route_key :: "HTTPRouteRow \<Rightarrow> string list \<times> int" where
  "route_key r = ([hrr_Method r, hrr_Path r, hrr_Handler r, hrr_Framework r, hrr_File r], hrr_Line r)"

definition endpoint_key :: "endpoint_row \<Rightarrow> string list \<times> int" where
  "endpoint_key r = ([epr_service r, epr_method r, epr_rpc_type r, epr_package_path r, epr_file_path r], epr_line r)"

definition endpoint_merge :: "endpoint_row \<Rightarrow> endpoint_row \<Rightarrow> endpoint_row" where
  "endpoint_merge new old =
     old\<lparr>epr_full_path := epr_full_path new, epr_handler_path := epr_handler_path new,
         epr_handler_type := epr_handler_type new, epr_service_desc := epr_service_desc new,
         epr_proto_file := epr_proto_file new, epr_registered := epr_registered new,
         epr_implementations := epr_implementations new\<rparr>"

definition reg_key :: "reg_row \<Rightarrow> string list \<times> int" where
  "reg_key r = ([rgr_register_func r, rgr_package_path r, rgr_file_path r], rgr_line r)"

definition reg_merge :: "reg_row \<Rightarrow> reg_row \<Rightarrow> reg_row" where
  "reg_merge new old =
     old\<lparr>rgr_service := rgr_service new, rgr_service_short_name := rgr_service_short_name new,
         rgr_registrar := rgr_registrar new, rgr_implementation := rgr_implementation new\<rparr>"

definition hash_merge :: "SymbolHash \<Rightarrow> SymbolHash \<Rightarrow> SymbolHash" where
  "hash_merge new old = new\<lparr>smh_CreatedAt := smh_CreatedAt old\<rparr>"

abbreviation replace_row :: "'r \<Rightarrow> 'r \<Rightarrow> 'r" where
  "replace_row new old \<equiv> new"

text \<open>\<^verbatim>\<open>DO UPDATE SET handler_path\<close> writes a column nothing reads: the row stays.\<close>

definition route_merge :: "HTTPRouteRow \<Rightarrow> HTTPRouteRow \<Rightarrow> HTTPRouteRow" where
  "route_merge new old = old"

abbreviation "put_file \<equiv> upsert file_key replace_row"
abbreviation "put_edge \<equiv> upsert edge_key7 edge_merge"
abbreviation "put_metric \<equiv> upsert mtr_function_id replace_row"
abbreviation "put_route \<equiv> upsert route_key route_merge"
abbreviation "put_endpoint \<equiv> upsert endpoint_key endpoint_merge"
abbreviation "put_reg \<equiv> upsert reg_key reg_merge"
abbreviation "put_symbol \<equiv> upsert cds_ID replace_row"
abbreviation "put_hash \<equiv> upsert smh_SymbolID hash_merge"
abbreviation "put_state \<equiv> upsert (fst :: string \<times> string \<times> int \<Rightarrow> string) replace_row"

interpretation files: replacing_table file_key replace_row
  by unfold_locales auto

interpretation edges: replacing_table edge_key7 edge_merge
  by unfold_locales (auto simp: edge_key7_def edge_merge_def)

interpretation metrics: replacing_table mtr_function_id replace_row
  by unfold_locales auto

interpretation routes: replacing_table route_key route_merge
  by unfold_locales (auto simp: route_key_def route_merge_def)

interpretation endpoints: replacing_table endpoint_key endpoint_merge
  by unfold_locales (auto simp: endpoint_key_def endpoint_merge_def)

interpretation symbols: replacing_table cds_ID replace_row
  by unfold_locales auto

interpretation hashes: keyed_table smh_SymbolID hash_merge
  by unfold_locales (auto simp: hash_merge_def)

interpretation state_rows: replacing_table "fst :: string \<times> string \<times> int \<Rightarrow> string" replace_row
  by unfold_locales auto

interpretation regs: replacing_table reg_key reg_merge
  by unfold_locales (auto simp: reg_key_def reg_merge_def)

section \<open>Opening\<close>

text \<open>The \<^verbatim>\<open>CREATE ... IF NOT EXISTS\<close> statements of the schema, 19 of them, change no row.\<close>

definition schema_statements :: nat where
  "schema_statements = 19"

definition workspaceStoreSchemaVersion :: string where
  "workspaceStoreSchemaVersion = ''1''"

definition set_state :: "string \<Rightarrow> string \<Rightarrow> int \<Rightarrow> 'f db \<Rightarrow> 'f db" where
  "set_state k v now d = d\<lparr>db_state := put_state (k, v, now) (db_state d)\<rparr>"

definition initSchema :: "store_env \<Rightarrow> ('f db, unit) action" where
  "initSchema E =
     thenA (wrapA ''init schema'' (forA (\<lambda>_. touchA E) [0..<schema_statements]))
       (bindA (clockA E) (\<lambda>now.
          wrapA ''record schema version'' (execA E (set_state ''schema_version'' workspaceStoreSchemaVersion now))))"

definition OpenWorkspaceStore :: "store_env \<Rightarrow> ('f db, unit) action" where
  "OpenWorkspaceStore E =
     (case se_ensure E of
        Some e \<Rightarrow> failA e
      | None \<Rightarrow>
          (case se_open E of
             Some e \<Rightarrow> failA (''open sqlite db: '' @ e)
           | None \<Rightarrow>
               thenA (wrapA ''enable wal'' (touchA E))
                 (thenA (wrapA ''set busy timeout'' (touchA E))
                   (thenA (wrapA ''set synchronous'' (touchA E)) (initSchema E)))))"

section \<open>Files\<close>

definition nullableTime :: "int \<Rightarrow> int option" where
  "nullableTime t = (if t = 0 then None else Some t)"

definition file_row_of :: "FileMeta \<Rightarrow> file_row" where
  "file_row_of m = (m\<lparr>fmt_LastBuildSSAAt := 0\<rparr>, nullableTime (fmt_LastBuildSSAAt m))"

definition scanFileMeta :: "file_row \<Rightarrow> FileMeta" where
  "scanFileMeta r = (case snd r of Some t \<Rightarrow> (fst r)\<lparr>fmt_LastBuildSSAAt := t\<rparr> | None \<Rightarrow> fst r)"

definition StoreFileMeta :: "store_env \<Rightarrow> FileMeta \<Rightarrow> ('f db, unit) action" where
  "StoreFileMeta E m =
     bindA (clockA E) (\<lambda>now.
       execA E (\<lambda>d. d\<lparr>db_files := put_file
         (file_row_of (if fmt_IndexedAt m = 0 then m\<lparr>fmt_IndexedAt := now\<rparr> else m)) (db_files d)\<rparr>))"

definition errNoRows :: string where
  "errNoRows = ''sql: no rows in result set''"

definition by_path :: "file_row \<Rightarrow> file_row \<Rightarrow> bool" where
  "by_path a b \<longleftrightarrow> file_key a < file_key b"

definition one_file :: "(file_row \<Rightarrow> bool) \<Rightarrow> 'f db \<Rightarrow> string + FileMeta" where
  "one_file P d =
     (case sort_slice by_path (filter P (db_files d)) of [] \<Rightarrow> Inl errNoRows | r # _ \<Rightarrow> Inr (scanFileMeta r))"

definition GetFileByHash :: "store_env \<Rightarrow> string \<Rightarrow> ('f db, FileMeta) action" where
  "GetFileByHash E hash = bindA (queryA E (one_file (\<lambda>r. fmt_Hash (fst r) = hash))) liftA"

definition GetFileByPath :: "store_env \<Rightarrow> string \<Rightarrow> ('f db, FileMeta) action" where
  "GetFileByPath E path = bindA (queryA E (one_file (\<lambda>r. file_key r = path))) liftA"

text \<open>\<^verbatim>\<open>LIKE\<close>: \<open>%\<close> matches any text, \<open>_\<close> one character, letters of ASCII in either case.\<close>

fun sql_like :: "string \<Rightarrow> string \<Rightarrow> bool" where
  "sql_like [] s \<longleftrightarrow> s = []"
| "sql_like (p # ps) [] \<longleftrightarrow> p = CHR ''%'' \<and> sql_like ps []"
| "sql_like (p # ps) (c # s) \<longleftrightarrow>
     (if p = CHR ''%'' then sql_like ps (c # s) \<or> sql_like (p # ps) s
      else (p = CHR ''_'' \<or> lower_char p = lower_char c) \<and> sql_like ps s)"

definition GetFilesByPrefix :: "store_env \<Rightarrow> string \<Rightarrow> ('f db, FileMeta list) action" where
  "GetFilesByPrefix E pre =
     queryA E (\<lambda>d. map scanFileMeta
       (sort_slice by_path (filter (\<lambda>r. sql_like (pre @ ''%'') (file_key r)) (db_files d))))"

definition DeleteFilesByPath :: "store_env \<Rightarrow> string list \<Rightarrow> ('f db, unit) action" where
  "DeleteFilesByPath E paths =
     (if length paths = 0 then retA ()
      else InTransaction E (thenA (touchA E) (forA (\<lambda>path.
        execA E (\<lambda>d. d\<lparr>db_files := filter (\<lambda>r. file_key r \<noteq> path) (db_files d)\<rparr>)) paths)))"

definition upsertFileMetasTx :: "store_env \<Rightarrow> FileMeta list \<Rightarrow> ('f db, unit) action" where
  "upsertFileMetasTx E metas =
     thenA (touchA E) (forA (\<lambda>m. execA E (\<lambda>d. d\<lparr>db_files := put_file (file_row_of m) (db_files d)\<rparr>)) metas)"

section \<open>Edges\<close>

definition stamped_edge :: "int \<Rightarrow> ArchEdge \<Rightarrow> ArchEdge" where
  "stamped_edge now e = (if aed_CreatedAt e = 0 then e\<lparr>aed_CreatedAt := now\<rparr> else e)"

definition upsertEdgesTx :: "store_env \<Rightarrow> ArchEdge list \<Rightarrow> ('f db, unit) action" where
  "upsertEdgesTx E edges =
     thenA (touchA E) (forA (\<lambda>e. bindA (clockA E) (\<lambda>now.
       execA E (\<lambda>d. d\<lparr>db_edges := put_edge (stamped_edge now e) (db_edges d)\<rparr>))) edges)"

definition UpsertEdges :: "store_env \<Rightarrow> ArchEdge list \<Rightarrow> ('f db, unit) action" where
  "UpsertEdges E edges = (if length edges = 0 then retA () else InTransaction E (upsertEdgesTx E edges))"

definition stored_edge_less :: "ArchEdge \<Rightarrow> ArchEdge \<Rightarrow> bool" where
  "stored_edge_less a b \<longleftrightarrow> (aed_SourcePath a, aed_TargetPath a, aed_TargetName a)
                 < (aed_SourcePath b, aed_TargetPath b, aed_TargetName b)"

definition queryEdges :: "store_env \<Rightarrow> (ArchEdge \<Rightarrow> bool) \<Rightarrow> ('f db, ArchEdge list) action" where
  "queryEdges E P = queryA E (\<lambda>d. sort_slice stored_edge_less (filter P (db_edges d)))"

definition GetEdges :: "store_env \<Rightarrow> string \<Rightarrow> string \<Rightarrow> ('f db, ArchEdge list) action" where
  "GetEdges E source edgeType =
     queryEdges E (\<lambda>e. (source \<noteq> '''' \<longrightarrow> aed_SourcePath e = source) \<and> (edgeType \<noteq> '''' \<longrightarrow> aed_EdgeType e = edgeType))"

definition GetEdgesByPackage :: "store_env \<Rightarrow> string \<Rightarrow> ('f db, ArchEdge list) action" where
  "GetEdgesByPackage E pkgPath = queryEdges E (\<lambda>e. aed_SourcePath e = pkgPath \<or> aed_TargetPath e = pkgPath)"

section \<open>Package dependencies\<close>

text \<open>The two queries: the packages known, and the import edges by source and target.\<close>

definition known_packages :: "'f db \<Rightarrow> string list" where
  "known_packages d =
     sort (dedup (filter (\<lambda>p. p \<noteq> '''') (map (\<lambda>r. fmt_Package (fst r)) (db_files d))
       @ filter (\<lambda>p. p \<noteq> '''') (map aed_SourcePath (filter (\<lambda>e. aed_EdgeType e = ''imports'') (db_edges d)))))"

definition import_target :: "ArchEdge \<Rightarrow> string" where
  "import_target e = (if aed_TargetPath e \<noteq> '''' then aed_TargetPath e else aed_TargetName e)"

definition import_rows :: "'f db \<Rightarrow> (string \<times> string) list" where
  "import_rows d =
     map (\<lambda>e. (aed_SourcePath e, import_target e))
       (sort_slice (\<lambda>a b. (aed_SourcePath a, aed_TargetPath a) < (aed_SourcePath b, aed_TargetPath b))
         (filter (\<lambda>e. aed_EdgeType e = ''imports'') (db_edges d)))"

text \<open>
  The map from packages to imports has the known packages as its keys, since every source of
  an import edge is known. The order in which Go ranges over it is lost in the final sort.
\<close>

definition dependencyRows :: "bool \<Rightarrow> string list \<Rightarrow> (string \<times> string) list \<Rightarrow> (string \<times> string list) list" where
  "dependencyRows includeStdlib packages edgeRows =
     (let rootPaths = set (map fst edgeRows);
          deps = (\<lambda>pkg. map snd (filter (\<lambda>r. fst r \<noteq> '''' \<and> fst r = pkg) edgeRows));
          kept = (\<lambda>imp. \<not> (\<not> includeStdlib \<and> imp \<notin> rootPaths \<and> isStdlib imp))
      in sort_slice (\<lambda>a b. fst a < fst b) (map (\<lambda>pkg. (pkg, sort (dedup (filter kept (deps pkg))))) packages))"

definition GetPackageDependencies :: "store_env \<Rightarrow> bool \<Rightarrow> ('f db, (string \<times> string list) list) action" where
  "GetPackageDependencies E includeStdlib =
     bindA (queryA E known_packages) (\<lambda>packages.
       bindA (queryA E import_rows) (\<lambda>edgeRows. retA (dependencyRows includeStdlib packages edgeRows)))"

definition GetPackageAnchor :: "store_env \<Rightarrow> string \<Rightarrow> ('f db, string \<times> int) action" where
  "GetPackageAnchor E pkgPath =
     bindA (queryA E (one_file (\<lambda>r. fmt_Package (fst r) = pkgPath))) (\<lambda>r.
       case r of Inl e \<Rightarrow> failA e | Inr m \<Rightarrow> retA (fmt_Path m, 1))"

section \<open>Metrics\<close>

definition metric_row_of :: "'f FunctionComplexity \<Rightarrow> 'f metric_row" where
  "metric_row_of m =
     \<lparr>mtr_function_id = fc_Function m, mtr_package_path = fc_Package m, mtr_function_name = fc_Name m,
      mtr_receiver = fc_Receiver m, mtr_file_path = fc_File m, mtr_line_start = fc_Line m,
      mtr_cyclomatic = fc_Cyclomatic m, mtr_cognitive = fc_Cognitive m, mtr_body_lines = fc_BodyLines m,
      mtr_max_nesting = fc_MaxNesting m, mtr_halstead_volume = hm_Volume (fc_Halstead m),
      mtr_halstead_difficulty = hm_Difficulty (fc_Halstead m), mtr_halstead_effort = hm_Effort (fc_Halstead m),
      mtr_maintainability_index = fc_MaintainabilityIndex m\<rparr>"

definition upsertMetricsTx :: "store_env \<Rightarrow> 'f FunctionComplexity list \<Rightarrow> ('f db, unit) action" where
  "upsertMetricsTx E metrics =
     thenA (touchA E) (forA (\<lambda>m. execA E (\<lambda>d. d\<lparr>db_metrics := put_metric (metric_row_of m) (db_metrics d)\<rparr>)) metrics)"

definition UpsertMetrics :: "store_env \<Rightarrow> 'f FunctionComplexity list \<Rightarrow> ('f db, unit) action" where
  "UpsertMetrics E metrics = (if length metrics = 0 then retA () else InTransaction E (upsertMetricsTx E metrics))"

text \<open>A metric read back: the counts behind the Halstead numbers have no column and are zero.\<close>

definition metric_of_row :: "'f metric_row \<Rightarrow> 'f FunctionComplexity" where
  "metric_of_row r =
     \<lparr>fc_Function = mtr_function_id r, fc_Package = mtr_package_path r, fc_Receiver = mtr_receiver r,
      fc_Name = mtr_function_name r, fc_File = mtr_file_path r, fc_Line = mtr_line_start r,
      fc_Anchor = contextAnchor (mtr_file_path r) (mtr_line_start r) (mtr_function_name r),
      fc_Cyclomatic = mtr_cyclomatic r, fc_Cognitive = mtr_cognitive r, fc_BodyLines = mtr_body_lines r,
      fc_MaxNesting = mtr_max_nesting r,
      fc_Halstead = \<lparr>hm_DistinctOperators = 0, hm_DistinctOperands = 0, hm_TotalOperators = 0,
        hm_TotalOperands = 0, hm_Vocabulary = 0, hm_Length = 0, hm_Volume = mtr_halstead_volume r,
        hm_Difficulty = mtr_halstead_difficulty r, hm_Effort = mtr_halstead_effort r\<rparr>,
      fc_MaintainabilityIndex = mtr_maintainability_index r\<rparr>"

definition metric_wanted :: "'f float_ops \<Rightarrow> 'f ComplexityOptions \<Rightarrow> 'f metric_row \<Rightarrow> bool" where
  "metric_wanted F flt r \<longleftrightarrow>
     (co_MinCyclomatic flt > 0 \<longrightarrow> mtr_cyclomatic r \<ge> co_MinCyclomatic flt)
   \<and> (co_MinCognitive flt > 0 \<longrightarrow> mtr_cognitive r \<ge> co_MinCognitive flt)
   \<and> (fl_less F (fl_ofInt F 0) (co_MinHalsteadVolume flt)
      \<longrightarrow> fl_less F (co_MinHalsteadVolume flt) (mtr_halstead_volume r)
          \<or> fl_eq F (co_MinHalsteadVolume flt) (mtr_halstead_volume r))
   \<and> (fl_less F (fl_ofInt F 0) (co_MaxMaintainabilityIndex flt)
      \<longrightarrow> fl_less F (mtr_maintainability_index r) (co_MaxMaintainabilityIndex flt)
          \<or> fl_eq F (mtr_maintainability_index r) (co_MaxMaintainabilityIndex flt))"

definition GetMetrics ::
  "store_env \<Rightarrow> 'f float_ops \<Rightarrow> 'f ComplexityOptions \<Rightarrow> ('f db, 'f FunctionComplexity list) action" where
  "GetMetrics E F filters =
     (let filters = normalizeComplexityOptions F filters
      in bindA (queryA E (\<lambda>d. map metric_of_row
             (sort_slice (\<lambda>a b. (mtr_package_path a, mtr_function_id a) < (mtr_package_path b, mtr_function_id b))
               (filter (metric_wanted F filters) (db_metrics d)))))
           (\<lambda>metrics. retA (sortComplexityMetrics F metrics (co_SortBy filters))))"

section \<open>Routes\<close>

definition route_row_of :: "HTTPRoute \<Rightarrow> HTTPRouteRow" where
  "route_row_of r = \<lparr>hrr_Method = hrt_Method r, hrr_Path = hrt_Path r, hrr_Handler = hrt_Handler r,
     hrr_Framework = hrt_Framework r, hrr_File = hrt_File r, hrr_Line = hrt_Line r\<rparr>"

definition upsertRoutesTx :: "store_env \<Rightarrow> HTTPRoute list \<Rightarrow> ('f db, unit) action" where
  "upsertRoutesTx E routes =
     thenA (touchA E) (forA (\<lambda>r. execA E (\<lambda>d. d\<lparr>db_routes := put_route (route_row_of r) (db_routes d)\<rparr>)) routes)"

definition UpsertRoutes :: "store_env \<Rightarrow> HTTPRoute list \<Rightarrow> ('f db, unit) action" where
  "UpsertRoutes E routes = (if length routes = 0 then retA () else InTransaction E (upsertRoutesTx E routes))"

definition GetHTTPRoutes :: "store_env \<Rightarrow> ('f db, HTTPRouteRow list) action" where
  "GetHTTPRoutes E =
     queryA E (\<lambda>d. sort_slice (\<lambda>a b. (hrr_Path a, hrr_Method a, hrr_Handler a) < (hrr_Path b, hrr_Method b, hrr_Handler b))
       (db_routes d))"

section \<open>gRPC\<close>

definition grpcShortNameFromService :: "string \<Rightarrow> string" where
  "grpcShortNameFromService service = (if service = '''' then '''' else last (Split CHR ''.'' service))"

text \<open>\<^verbatim>\<open>strings.Index\<close> for a text to look for.\<close>

fun IndexOf :: "string \<Rightarrow> string \<Rightarrow> nat option" where
  "IndexOf [] p = (if p = [] then Some 0 else None)"
| "IndexOf (c # s) p = (if HasPrefix (c # s) p then Some 0 else map_option Suc (IndexOf s p))"

definition short_name_mark :: string where
  "short_name_mark = CHR 0x0A # ''short_name:''"

text \<open>The short name has no column of its own: it is appended to the name of the proto file.\<close>

definition endpoint_row_of :: "GRPCEndpoint \<Rightarrow> endpoint_row" where
  "endpoint_row_of e =
     (let short = (if gep_ServiceShortName e = '''' then grpcShortNameFromService (gep_Service e)
                   else gep_ServiceShortName e);
          protoFile = (if short \<noteq> '''' then gep_ProtoFile e @ short_name_mark @ short else gep_ProtoFile e)
      in \<lparr>epr_service = gep_Service e, epr_method = gep_Method e, epr_full_path = gep_FullMethod e,
          epr_rpc_type = gep_RPCType e, epr_handler_path = gep_Handler e, epr_handler_type = gep_HandlerType e,
          epr_service_desc = gep_ServiceDesc e, epr_proto_file = protoFile, epr_package_path = gep_Package e,
          epr_registered = (if gep_Registered e then 1 else 0),
          epr_implementations = Join [CHR 0x0A] (gep_Implementations e),
          epr_file_path = gep_File e, epr_line = gep_Line e\<rparr>)"

definition endpoint_of_row :: "endpoint_row \<Rightarrow> GRPCEndpoint" where
  "endpoint_of_row r =
     (let (protoFile, short) = (case IndexOf (epr_proto_file r) short_name_mark of
            Some idx \<Rightarrow> (take idx (epr_proto_file r),
                         TrimSpace (drop (idx + length short_name_mark) (epr_proto_file r)))
          | None \<Rightarrow> (epr_proto_file r, ''''));
          short = (if short = '''' then grpcShortNameFromService (epr_service r) else short)
      in \<lparr>gep_Service = epr_service r, gep_ServiceShortName = short, gep_Method = epr_method r,
          gep_FullMethod = epr_full_path r, gep_RPCType = epr_rpc_type r, gep_Handler = epr_handler_path r,
          gep_HandlerType = epr_handler_type r, gep_ServiceDesc = epr_service_desc r, gep_ProtoFile = protoFile,
          gep_Package = epr_package_path r, gep_Registered = (epr_registered r \<noteq> 0),
          gep_Implementations = (if TrimSpace (epr_implementations r) \<noteq> ''''
            then Split (CHR 0x0A) (epr_implementations r) else []),
          gep_File = epr_file_path r, gep_Line = epr_line r,
          gep_Anchor = contextAnchor (epr_file_path r) (epr_line r) (epr_method r)\<rparr>)"

definition upsertGRPCEndpointsTx :: "store_env \<Rightarrow> GRPCEndpoint list \<Rightarrow> ('f db, unit) action" where
  "upsertGRPCEndpointsTx E endpoints =
     thenA (touchA E) (forA (\<lambda>e. execA E (\<lambda>d.
       d\<lparr>db_endpoints := put_endpoint (endpoint_row_of e) (db_endpoints d)\<rparr>)) endpoints)"

definition UpsertGRPCEndpoints :: "store_env \<Rightarrow> GRPCEndpoint list \<Rightarrow> ('f db, unit) action" where
  "UpsertGRPCEndpoints E endpoints =
     (if length endpoints = 0 then retA () else InTransaction E (upsertGRPCEndpointsTx E endpoints))"

definition reg_row_of :: "GRPCRegistration \<Rightarrow> reg_row" where
  "reg_row_of r = \<lparr>rgr_service = grg_Service r, rgr_service_short_name = grg_ServiceShortName r,
     rgr_register_func = grg_RegisterFunc r, rgr_registrar = grg_Registrar r,
     rgr_implementation = grg_Implementation r, rgr_package_path = grg_Package r, rgr_file_path = grg_File r,
     rgr_line = grg_Line r\<rparr>"

definition reg_of_row :: "reg_row \<Rightarrow> GRPCRegistration" where
  "reg_of_row r = \<lparr>grg_Service = rgr_service r, grg_ServiceShortName = rgr_service_short_name r,
     grg_RegisterFunc = rgr_register_func r, grg_Registrar = rgr_registrar r,
     grg_Implementation = rgr_implementation r, grg_Package = rgr_package_path r, grg_File = rgr_file_path r,
     grg_Line = rgr_line r, grg_Anchor = contextAnchor (rgr_file_path r) (rgr_line r) (rgr_register_func r)\<rparr>"

definition upsertGRPCRegistrationsTx :: "store_env \<Rightarrow> GRPCRegistration list \<Rightarrow> ('f db, unit) action" where
  "upsertGRPCRegistrationsTx E registrations =
     thenA (touchA E) (forA (\<lambda>r. execA E (\<lambda>d. d\<lparr>db_regs := put_reg (reg_row_of r) (db_regs d)\<rparr>)) registrations)"

definition UpsertGRPCRegistrations :: "store_env \<Rightarrow> GRPCRegistration list \<Rightarrow> ('f db, unit) action" where
  "UpsertGRPCRegistrations E registrations =
     (if length registrations = 0 then retA () else InTransaction E (upsertGRPCRegistrationsTx E registrations))"

definition GetGRPCEndpoints :: "store_env \<Rightarrow> ('f db, GRPCEndpoint list \<times> GRPCRegistration list) action" where
  "GetGRPCEndpoints E =
     bindA (queryA E (\<lambda>d. map endpoint_of_row
       (sort_slice (\<lambda>a b. (epr_service a, epr_method a, epr_line a) < (epr_service b, epr_method b, epr_line b))
         (db_endpoints d)))) (\<lambda>endpoints.
     bindA (queryA E (\<lambda>d. map reg_of_row
       (sort_slice (\<lambda>a b. (rgr_service a, rgr_register_func a, rgr_line a) < (rgr_service b, rgr_register_func b, rgr_line b))
         (db_regs d)))) (\<lambda>registrations. retA (endpoints, registrations)))"

section \<open>Symbol hashes\<close>

definition stamped_hash :: "int \<Rightarrow> SymbolHash \<Rightarrow> SymbolHash" where
  "stamped_hash now h = (if smh_CreatedAt h = 0 then h\<lparr>smh_CreatedAt := now\<rparr> else h)"

definition upsertSymbolHashesTx :: "store_env \<Rightarrow> SymbolHash list \<Rightarrow> ('f db, unit) action" where
  "upsertSymbolHashesTx E hashes =
     (if length hashes = 0 then retA ()
      else thenA (touchA E) (forA (\<lambda>h. bindA (clockA E) (\<lambda>now.
        execA E (\<lambda>d. d\<lparr>db_hashes := put_hash (stamped_hash now h) (db_hashes d)\<rparr>))) hashes))"

definition UpsertSymbolHashes :: "store_env \<Rightarrow> SymbolHash list \<Rightarrow> ('f db, unit) action" where
  "UpsertSymbolHashes E hashes =
     (if length hashes = 0 then retA () else InTransaction E (upsertSymbolHashesTx E hashes))"

definition stored_hash :: "string \<Rightarrow> 'f db \<Rightarrow> (string \<times> int) option" where
  "stored_hash ident d =
     map_option (\<lambda>h. (smh_SourceHash h, smh_EmbeddingVersion h)) (row_of smh_SymbolID (db_hashes d) ident)"

text \<open>
  A query that fails leaves both variables zero; the error is returned only when the new hash
  is zero too.
\<close>

fun staleSymbolHashesFromStmt :: "store_env \<Rightarrow> SymbolHash list \<Rightarrow> ('f db, SymbolHash list) action" where
  "staleSymbolHashesFromStmt E [] s = (Inr [], s)"
| "staleSymbolHashesFromStmt E (next # hs) s =
     (let (found, s) = queryA E (stored_hash (smh_SymbolID next)) s;
          (sourceHash, version) = (case found of Inr (Some p) \<Rightarrow> p | _ \<Rightarrow> ('''', 0));
          noRows = (found = Inr None)
      in if noRows \<or> sourceHash \<noteq> smh_SourceHash next \<or> version \<noteq> smh_EmbeddingVersion next
         then bindA (staleSymbolHashesFromStmt E hs) (\<lambda>stale. retA (next # stale)) s
         else (case found of Inl err \<Rightarrow> (Inl err, s) | _ \<Rightarrow> staleSymbolHashesFromStmt E hs s))"

definition GetStaleSymbolHashes :: "store_env \<Rightarrow> SymbolHash list \<Rightarrow> ('f db, SymbolHash list) action" where
  "GetStaleSymbolHashes E newHashes =
     (if length newHashes = 0 then retA [] else thenA (touchA E) (staleSymbolHashesFromStmt E newHashes))"

definition withEmbeddingVersion :: "SymbolHash list \<Rightarrow> int \<Rightarrow> SymbolHash list" where
  "withEmbeddingVersion hashes version = map (\<lambda>h. h\<lparr>smh_EmbeddingVersion := version\<rparr>) hashes"

section \<open>The vector index\<close>

definition vectorRow :: "string \<Rightarrow> 'f db \<Rightarrow> 'f db" where
  "vectorRow symbolID d =
     (if symbolID \<in> snd ` set (db_vec_map d) then d
      else d\<lparr>db_vec_map := db_vec_map d @ [(db_vec_next d, symbolID)], db_vec_next := db_vec_next d + 1\<rparr>)"

definition row_id :: "string \<Rightarrow> 'f db \<Rightarrow> string + int" where
  "row_id symbolID d =
     (case row_of snd (db_vec_map d) symbolID of None \<Rightarrow> Inl errNoRows | Some r \<Rightarrow> Inr (fst r))"

definition vectorRowIDTx :: "store_env \<Rightarrow> string \<Rightarrow> ('f db, int) action" where
  "vectorRowIDTx E symbolID =
     thenA (execA E (vectorRow symbolID)) (bindA (queryA E (row_id symbolID)) liftA)"

definition noSuchTable :: string where
  "noSuchTable = ''no such table: code_symbol_vec''"

definition vec_delete :: "int \<Rightarrow> 'f db \<Rightarrow> string + 'f db" where
  "vec_delete rowID d =
     (case db_vec d of
        None \<Rightarrow> Inl noSuchTable
      | Some (dim, rows) \<Rightarrow> Inr (d\<lparr>db_vec := Some (dim, filter (\<lambda>r. fst r \<noteq> rowID) rows)\<rparr>))"

definition vec_insert :: "'f vec_engine \<Rightarrow> int \<Rightarrow> string \<Rightarrow> 'f db \<Rightarrow> string + 'f db" where
  "vec_insert X rowID vector d =
     (case db_vec d of
        None \<Rightarrow> Inl noSuchTable
      | Some (dim, rows) \<Rightarrow>
          (case ve_rejects X dim vector of
             Some e \<Rightarrow> Inl e
           | None \<Rightarrow>
               if rowID \<in> fst ` set rows then Inl ''UNIQUE constraint failed on code_symbol_vec primary key''
               else Inr (d\<lparr>db_vec := Some (dim, rows @ [(rowID, vector)])\<rparr>)))"

definition upsertSymbolVectorTx ::
  "store_env \<Rightarrow> 'f vector_ops \<Rightarrow> 'f vec_engine \<Rightarrow> string \<Rightarrow> 8 word list \<Rightarrow> ('f db, unit) action" where
  "upsertSymbolVectorTx E V X symbolID embedding =
     (let vec = decodeEmbedding V embedding
      in if length vec = 0 then retA ()
         else bindA (vectorRowIDTx E symbolID) (\<lambda>rowID.
              bindA (liftA (ve_json X vec)) (\<lambda>vector.
                thenA (attemptA E (vec_delete rowID)) (attemptA E (vec_insert X rowID vector)))))"

text \<open>The embedding a symbol gets when it has none.\<close>

definition embedding_or_default :: "'f vector_ops \<Rightarrow> CodeSymbol \<Rightarrow> 8 word list" where
  "embedding_or_default V s =
     (if length (cds_Embedding s) = 0 \<and> cds_Source s \<noteq> ''''
      then encodeEmbedding V (deterministicEmbedding V (cds_Source s) 16) else cds_Embedding s)"

definition filled :: "'f vector_ops \<Rightarrow> CodeSymbol \<Rightarrow> CodeSymbol" where
  "filled V s = s\<lparr>cds_Embedding := embedding_or_default V s\<rparr>"

definition upsertSymbolsTx ::
  "store_env \<Rightarrow> 'f vector_ops \<Rightarrow> 'f vec_engine \<Rightarrow> CodeSymbol list \<Rightarrow> ('f db, unit) action" where
  "upsertSymbolsTx E V X symbols =
     (if length symbols = 0 then retA ()
      else thenA (touchA E) (forA (\<lambda>s.
        thenA (execA E (\<lambda>d. d\<lparr>db_symbols := put_symbol (filled V s) (db_symbols d)\<rparr>))
          (upsertSymbolVectorTx E V X (cds_ID s) (embedding_or_default V s))) symbols))"

definition rebuildVectorTable ::
  "store_env \<Rightarrow> 'f vector_ops \<Rightarrow> 'f vec_engine \<Rightarrow> int \<Rightarrow> ('f db, unit) action" where
  "rebuildVectorTable E V X dimension =
     bindA (queryA E (\<lambda>d. map (\<lambda>s. (cds_ID s, cds_Embedding s)) (filter (\<lambda>s. cds_Embedding s \<noteq> []) (db_symbols d))))
       (\<lambda>rows. InTransaction E (forA (\<lambda>(ident, embedding).
          let vec = decodeEmbedding V embedding
          in if int (length vec) \<noteq> dimension then retA ()
             else bindA (vectorRowIDTx E ident) (\<lambda>rowID.
                  bindA (liftA (ve_json X vec)) (\<lambda>vector. attemptA E (vec_insert X rowID vector)))) rows))"

definition dimension_key :: string where
  "dimension_key = ''code_symbol_vec_dimension''"

definition create_vec :: "int \<Rightarrow> 'f db \<Rightarrow> 'f db" where
  "create_vec dimension d = (if db_vec d = None then d\<lparr>db_vec := Some (dimension, [])\<rparr> else d)"

definition stored_dimension :: "'f db \<Rightarrow> string option" where
  "stored_dimension d = map_option (\<lambda>r. fst (snd r)) (row_of fst (db_state d) dimension_key)"

definition ensureVectorTable ::
  "store_env \<Rightarrow> 'f vector_ops \<Rightarrow> 'f vec_engine \<Rightarrow> int \<Rightarrow> ('f db, unit) action" where
  "ensureVectorTable E V X dimension =
     (if dimension \<le> 0 then failA ''vector dimension must be positive''
      else bindA (queryA E stored_dimension) (\<lambda>current.
        let renew = thenA (execA E (create_vec dimension))
              (bindA (clockA E) (\<lambda>now. thenA (execA E (set_state dimension_key (Itoa dimension) now))
                (rebuildVectorTable E V X dimension)))
        in case current of
             None \<Rightarrow> renew
           | Some v \<Rightarrow>
               (case Atoi v of
                  None \<Rightarrow> failA (''strconv.Atoi: parsing '' @ go_quote v @ '': invalid syntax'')
                | Some n \<Rightarrow>
                    if n = dimension then execA E (create_vec dimension)
                    else thenA (execA E (\<lambda>d. d\<lparr>db_vec := None\<rparr>)) renew)))"

fun symbols_dimension :: "'f vector_ops \<Rightarrow> CodeSymbol list \<Rightarrow> int" where
  "symbols_dimension V [] = 0"
| "symbols_dimension V (s # ss) =
     (if length (decodeEmbedding V (cds_Embedding s)) > 0 then int (length (decodeEmbedding V (cds_Embedding s)))
      else if cds_Source s \<noteq> '''' then 16 else symbols_dimension V ss)"

definition ensureVectorTableForSymbols ::
  "store_env \<Rightarrow> 'f vector_ops \<Rightarrow> 'f vec_engine \<Rightarrow> CodeSymbol list \<Rightarrow> ('f db, unit) action" where
  "ensureVectorTableForSymbols E V X symbols =
     (let dimension = symbols_dimension V symbols
      in if dimension = 0 then retA () else ensureVectorTable E V X dimension)"

section \<open>Symbols\<close>

definition embedSymbols :: "'f vector_ops \<Rightarrow> 'f EmbeddingProvider \<Rightarrow> CodeSymbol list \<Rightarrow> string + CodeSymbol list" where
  "embedSymbols V p symbols =
     (case ep_Embed p (map cds_Source symbols) of
        Inl err \<Rightarrow> Inl err
      | Inr embeddings \<Rightarrow>
          if length embeddings \<noteq> length symbols
          then Inl (''embedding provider returned '' @ Itoa (int (length embeddings)) @ '' vectors for ''
                    @ Itoa (int (length symbols)) @ '' symbols'')
          else Inr (map2 (\<lambda>s e. s\<lparr>cds_Embedding := encodeEmbedding V e\<rparr>) symbols embeddings))"

definition applySymbolEmbeddings ::
  "'f vector_ops \<Rightarrow> 'f EmbeddingProvider option \<Rightarrow> CodeSymbol list \<Rightarrow> string + CodeSymbol list" where
  "applySymbolEmbeddings V provider symbols =
     (case provider of
        None \<Rightarrow> Inr symbols
      | Some p \<Rightarrow> if length symbols = 0 then Inr symbols else embedSymbols V p symbols)"

definition UpsertSymbolsWithProvider ::
  "store_env \<Rightarrow> 'f vector_ops \<Rightarrow> 'f vec_engine \<Rightarrow> CodeSymbol list \<Rightarrow> 'f EmbeddingProvider option
   \<Rightarrow> ('f db, unit) action" where
  "UpsertSymbolsWithProvider E V X symbols provider =
     (if length symbols = 0 then retA ()
      else bindA (liftA (case provider of None \<Rightarrow> Inr symbols | Some p \<Rightarrow> embedSymbols V p symbols)) (\<lambda>symbols.
        let symbols = map (filled V) symbols
        in thenA (ensureVectorTableForSymbols E V X symbols) (InTransaction E (upsertSymbolsTx E V X symbols))))"

definition UpsertSymbols ::
  "store_env \<Rightarrow> 'f vector_ops \<Rightarrow> 'f vec_engine \<Rightarrow> CodeSymbol list \<Rightarrow> ('f db, unit) action" where
  "UpsertSymbols E V X symbols = UpsertSymbolsWithProvider E V X symbols None"

text \<open>The part that \<^verbatim>\<open>UpsertChangedSymbols\<close> and \<^verbatim>\<open>prepareChangedSymbols\<close> have in common.\<close>

definition changedSymbols ::
  "store_env \<Rightarrow> 'f vector_ops \<Rightarrow> CodeSymbol list \<Rightarrow> SymbolHash list \<Rightarrow> 'f EmbeddingProvider option
   \<Rightarrow> ('f db, CodeSymbol list) action" where
  "changedSymbols E V symbols hashes provider =
     bindA (GetStaleSymbolHashes E hashes) (\<lambda>stale.
       let changed = filter (\<lambda>s. cds_ID s \<in> smh_SymbolID ` set stale) symbols
       in bindA (liftA (applySymbolEmbeddings V provider changed)) (\<lambda>changed. retA (map (filled V) changed)))"

definition UpsertChangedSymbols ::
  "store_env \<Rightarrow> 'f vector_ops \<Rightarrow> 'f vec_engine \<Rightarrow> CodeSymbol list \<Rightarrow> SymbolHash list
   \<Rightarrow> 'f EmbeddingProvider option \<Rightarrow> ('f db, unit) action" where
  "UpsertChangedSymbols E V X symbols hashes provider =
     (if length symbols = 0 \<and> length hashes = 0 then retA ()
      else bindA (changedSymbols E V symbols hashes provider) (\<lambda>changed.
        thenA (ensureVectorTableForSymbols E V X changed)
          (InTransaction E (thenA (upsertSymbolsTx E V X changed) (upsertSymbolHashesTx E hashes)))))"

definition prepareChangedSymbols ::
  "store_env \<Rightarrow> 'f vector_ops \<Rightarrow> CodeSymbol list \<Rightarrow> SymbolHash list \<Rightarrow> 'f EmbeddingProvider option
   \<Rightarrow> ('f db, CodeSymbol list \<times> SymbolHash list) action" where
  "prepareChangedSymbols E V symbols hashes provider =
     (if length symbols = 0 \<and> length hashes = 0 then retA ([], [])
      else let hashes = withEmbeddingVersion hashes (embeddingVersionForProvider provider)
        in bindA (changedSymbols E V symbols hashes provider) (\<lambda>changed. retA (changed, hashes)))"

definition GetSymbolsByPackage :: "store_env \<Rightarrow> string \<Rightarrow> ('f db, CodeSymbol list) action" where
  "GetSymbolsByPackage E packagePath =
     queryA E (\<lambda>d. sort_slice (\<lambda>a b. cds_ID a < cds_ID b)
       (filter (\<lambda>s. cds_PackagePath s = packagePath) (db_symbols d)))"

definition matchSymbols :: "'f vec_engine \<Rightarrow> string \<Rightarrow> int \<Rightarrow> 'f db \<Rightarrow> string + CodeSymbol list" where
  "matchSymbols X queryVector limit d =
     (case db_vec d of
        None \<Rightarrow> Inl noSuchTable
      | Some (dim, rows) \<Rightarrow>
          (case ve_match X rows queryVector limit of
             Inl e \<Rightarrow> Inl e
           | Inr ids \<Rightarrow> Inr (concat (map (\<lambda>i. concat (map (\<lambda>m. filter (\<lambda>s. cds_ID s = snd m) (db_symbols d))
                             (filter (\<lambda>m. fst m = i) (db_vec_map d)))) ids))))"

definition SemanticSearch ::
  "store_env \<Rightarrow> 'f vector_ops \<Rightarrow> 'f vec_engine \<Rightarrow> 'f list \<Rightarrow> int \<Rightarrow> ('f db, CodeSymbol list) action" where
  "SemanticSearch E V X query limit =
     (if length query = 0 then failA ''semantic search query is required''
      else let limit = (if limit \<le> 0 then 10 else limit)
        in thenA (ensureVectorTable E V X (int (length query)))
             (bindA (liftA (ve_json X query)) (\<lambda>queryVector.
               bindA (queryA E (matchSymbols X queryVector limit)) liftA)))"

section \<open>Storing a program\<close>

record edge_package =
  egp_PkgPath :: string
  egp_Name :: string
  egp_Imports :: "(string \<times> (string \<times> string) option) list"   \<comment> \<open>import path; path and name of the package\<close>

definition import_target_path :: "string \<times> (string \<times> string) option \<Rightarrow> string" where
  "import_target_path i =
     (let path = TrimSpace (fst i)
      in if path = '''' then (case snd i of Some (p, _) \<Rightarrow> TrimSpace p | None \<Rightarrow> path) else path)"

definition import_edge :: "string set \<Rightarrow> int \<Rightarrow> edge_package \<Rightarrow> string \<times> (string \<times> string) option \<Rightarrow> ArchEdge" where
  "import_edge rootPaths now pkg i =
     (let targetPath = import_target_path i
      in \<lparr>aed_SourceType = ''package'', aed_SourcePath = egp_PkgPath pkg, aed_SourceName = egp_Name pkg,
          aed_TargetType = (if targetPath \<in> rootPaths then ''package'' else ''external_package''),
          aed_TargetPath = targetPath,
          aed_TargetName = (case snd i of
             Some (_, name) \<Rightarrow> if TrimSpace name \<noteq> '''' then TrimSpace name else targetPath
           | None \<Rightarrow> targetPath),
          aed_EdgeType = ''imports'', aed_Metadata = '''', aed_CreatedAt = now\<rparr>)"

definition packageImportEdges :: "int \<Rightarrow> edge_package option list \<Rightarrow> ArchEdge list" where
  "packageImportEdges now pkgs =
     (let loaded = filter (\<lambda>p. egp_PkgPath p \<noteq> '''') (map the (filter (\<lambda>p. p \<noteq> None) pkgs));
          rootPaths = set (map egp_PkgPath loaded)
      in concat (map (\<lambda>pkg. map (import_edge rootPaths now pkg)
           (dedup_by import_target_path (filter (\<lambda>i. import_target_path i \<noteq> '''') (egp_Imports pkg)))) loaded))"

text \<open>What the loader leaves of a program for the store.\<close>

record 'f stored_program =
  spr_Packages :: "edge_package option list"
  spr_fileMetas :: "FileMeta list"
  spr_complexityMetrics :: "'f FunctionComplexity list"
  spr_httpRoutes :: "HTTPRoute list"
  spr_grpcEndpoints :: "GRPCEndpoint list"
  spr_grpcRegistrations :: "GRPCRegistration list"
  spr_codeSymbols :: "CodeSymbol list"
  spr_symbolHashes :: "SymbolHash list"

text \<open>The transaction of \<^verbatim>\<open>ShadowStoreProgram\<close>.\<close>

definition storeProgramTx ::
  "store_env \<Rightarrow> 'f vector_ops \<Rightarrow> 'f vec_engine \<Rightarrow> 'f stored_program \<Rightarrow> ArchEdge list \<Rightarrow> CodeSymbol list
   \<Rightarrow> SymbolHash list \<Rightarrow> ('f db, unit) action" where
  "storeProgramTx E V X prog edges changed hashes =
     thenA (upsertFileMetasTx E (spr_fileMetas prog))
       (thenA (upsertEdgesTx E edges)
         (thenA (upsertMetricsTx E (spr_complexityMetrics prog))
           (thenA (upsertRoutesTx E (spr_httpRoutes prog))
             (thenA (upsertGRPCEndpointsTx E (spr_grpcEndpoints prog))
               (thenA (upsertGRPCRegistrationsTx E (spr_grpcRegistrations prog))
                 (thenA (upsertSymbolsTx E V X changed) (upsertSymbolHashesTx E hashes)))))))"

definition ShadowStoreProgram ::
  "store_env \<Rightarrow> 'f config_env \<Rightarrow> 'f embed_env \<Rightarrow> 'f vector_ops \<Rightarrow> 'f vec_engine \<Rightarrow> string
   \<Rightarrow> 'f stored_program option \<Rightarrow> ('f db, unit) action" where
  "ShadowStoreProgram E C N V X root prog =
     (case prog of
        None \<Rightarrow> retA ()
      | Some prog \<Rightarrow>
          thenA (OpenWorkspaceStore E) (bindA (clockA E) (\<lambda>now.
            let edges = packageImportEdges now (spr_Packages prog)
            in bindA (liftA (EffectiveWorkspaceConfig (vo_float V) C root)) (\<lambda>config.
               bindA (liftA (NewEmbeddingProviderFromConfig N (vo_float V) (wc_Embeddings config))) (\<lambda>provider.
               let hashes = withEmbeddingVersion (spr_symbolHashes prog) (embeddingVersionForProvider provider)
               in bindA (prepareChangedSymbols E V (spr_codeSymbols prog) hashes provider) (\<lambda>(changed, hashes).
                  thenA (ensureVectorTableForSymbols E V X changed)
                    (InTransaction E (storeProgramTx E V X prog edges changed hashes))))))))"

end
