(* ===== verification/Store_Facts.thy ===== *)
theory Store_Facts
  imports Store
begin

text \<open>
  Facts about \<^verbatim>\<open>Store\<close>. The content of the database is its eight tables without the vector
  index and the bookkeeping of its dimension. Storing a program either lays everything the
  program holds over the content (\<open>shadow_store_content\<close>) or leaves it alone
  (\<open>clean_ShadowStoreProgram\<close>); a hash that was stored is not stale (\<open>stored_not_stale\<close>).
\<close>

definition content :: "'f db \<Rightarrow> 'f db" where
  "content d = d\<lparr>db_state := [], db_vec_map := [], db_vec_next := 1, db_vec := None\<rparr>"

lemma content_eq:
  "content d = content d' \<longleftrightarrow>
     db_files d = db_files d' \<and> db_edges d = db_edges d' \<and> db_metrics d = db_metrics d' \<and> db_routes d = db_routes d'
   \<and> db_endpoints d = db_endpoints d' \<and> db_regs d = db_regs d' \<and> db_symbols d = db_symbols d' \<and> db_hashes d = db_hashes d'"
  by (cases d; cases d') (simp add: content_def)

section \<open>Actions that leave the content alone\<close>

definition keeps_content :: "('f db, 'a) action \<Rightarrow> bool" where
  "keeps_content m \<longleftrightarrow> (\<forall>c. maintains (\<lambda>d. content d = c) m)"

named_theorems keeps_intros \<open>actions that leave the content alone\<close>

lemma keepsD: "keeps_content m \<Longrightarrow> m s = (r, t) \<Longrightarrow> content (st_db t) = content (st_db s)"
  by (auto simp: keeps_content_def maintains_def)

lemma keepsI: "(\<And>s r t. m s = (r, t) \<Longrightarrow> content (st_db t) = content (st_db s)) \<Longrightarrow> keeps_content m"
  by (auto simp: keeps_content_def maintains_def)

lemma keeps_basic [keeps_intros]:
  "keeps_content (retA x)" "keeps_content (failA e)" "keeps_content (liftA z)" "keeps_content (clockA E)" "keeps_content (queryA E q)" "keeps_content (touchA E)"
  by (simp_all add: keeps_content_def maintains_intros)

lemma keeps_compose [keeps_intros]:
  "keeps_content m \<Longrightarrow> (\<And>x. keeps_content (f x)) \<Longrightarrow> keeps_content (bindA m f)"
  "keeps_content m \<Longrightarrow> keeps_content k \<Longrightarrow> keeps_content (thenA m k)"
  "keeps_content m \<Longrightarrow> keeps_content (wrapA w m)"
  "keeps_content m \<Longrightarrow> keeps_content (InTransaction E m)"
  by (simp_all add: keeps_content_def maintains_intros)

lemma keeps_forA [keeps_intros]: "(\<And>x. keeps_content (f x)) \<Longrightarrow> keeps_content (forA f xs)"
  by (simp add: keeps_content_def maintains_intros)

lemma keeps_execA [keeps_intros]: "(\<And>d. content (f d) = content d) \<Longrightarrow> keeps_content (execA E f)"
  by (simp add: keeps_content_def maintains_intros)

lemma keeps_attemptA [keeps_intros]:
  "(\<And>d d'. f d = Inr d' \<Longrightarrow> content d' = content d) \<Longrightarrow> keeps_content (attemptA E f)"
  unfolding keeps_content_def by (auto intro!: maintains_intros)

lemma content_set_state [simp]: "content (set_state k v now d) = content d"
  by (simp add: set_state_def content_def)

lemma content_vectorRow [simp]: "content (vectorRow i d) = content d"
  by (simp add: vectorRow_def content_def)

lemma content_create_vec [simp]: "content (create_vec n d) = content d"
  by (simp add: create_vec_def content_def)

lemma content_drop_vec [simp]: "content (d\<lparr>db_vec := None\<rparr>) = content d"
  by (simp add: content_def)

lemma content_vec_delete: "vec_delete i d = Inr d' \<Longrightarrow> content d' = content d"
  by (auto simp: vec_delete_def content_def split: option.splits prod.splits)

lemma content_vec_insert: "vec_insert X i v d = Inr d' \<Longrightarrow> content d' = content d"
  by (auto simp: vec_insert_def content_def split: option.splits prod.splits if_splits)

lemma keeps_vec_delete [keeps_intros]: "keeps_content (attemptA E (vec_delete i))"
  by (intro keeps_intros) (rule content_vec_delete)

lemma keeps_vec_insert [keeps_intros]: "keeps_content (attemptA E (vec_insert X i v))"
  by (intro keeps_intros) (rule content_vec_insert)

lemma keeps_vectorRowIDTx [keeps_intros]: "keeps_content (vectorRowIDTx E i)"
  unfolding vectorRowIDTx_def by (intro keeps_intros) simp

lemma keeps_upsertSymbolVectorTx [keeps_intros]: "keeps_content (upsertSymbolVectorTx E V X i e)"
  unfolding upsertSymbolVectorTx_def Let_def
  by (auto intro!: keeps_intros)

lemma keeps_initSchema [keeps_intros]: "keeps_content (initSchema E)"
  unfolding initSchema_def by (intro keeps_intros) simp

lemma keeps_OpenWorkspaceStore [keeps_intros]: "keeps_content (OpenWorkspaceStore E)"
  unfolding OpenWorkspaceStore_def by (auto intro!: keeps_intros split: option.split)

lemma keeps_rebuildVectorTable [keeps_intros]: "keeps_content (rebuildVectorTable E V X n)"
  unfolding rebuildVectorTable_def Let_def
  by (auto intro!: keeps_intros split: prod.split)

lemma keeps_ensureVectorTable [keeps_intros]: "keeps_content (ensureVectorTable E V X n)"
  unfolding ensureVectorTable_def Let_def
  by (auto intro!: keeps_intros split: option.split)

lemma keeps_ensureVectorTableForSymbols [keeps_intros]: "keeps_content (ensureVectorTableForSymbols E V X ss)"
  unfolding ensureVectorTableForSymbols_def Let_def by (auto intro!: keeps_intros)

lemma keeps_staleSymbolHashesFromStmt [keeps_intros]: "keeps_content (staleSymbolHashesFromStmt E hs :: ('f db, SymbolHash list) action)"
proof (induction hs)
  case (Cons h hs)
  have *: "keeps_content (bindA (staleSymbolHashesFromStmt E hs) (\<lambda>stale. retA (h # stale)) :: ('f db, SymbolHash list) action)"
    using Cons by (intro keeps_intros)
  show ?case
    by (rule keepsI) (auto simp: Let_def split: prod.splits sum.splits option.splits if_splits dest!: queryA_db
        dest: keepsD [OF Cons] keepsD [OF *])
qed (auto intro: keepsI)

lemma keeps_prepareChangedSymbols [keeps_intros]: "keeps_content (prepareChangedSymbols E V ss hs p)"
  unfolding prepareChangedSymbols_def changedSymbols_def GetStaleSymbolHashes_def Let_def
  by (auto intro!: keeps_intros)

section \<open>Atomicity\<close>

text \<open>An action that leaves the content alone when it fails.\<close>

definition fails_clean :: "('f db, 'a) action \<Rightarrow> bool" where
  "fails_clean m \<longleftrightarrow> (\<forall>s e t. m s = (Inl e, t) \<longrightarrow> content (st_db t) = content (st_db s))"

named_theorems clean_intros \<open>actions that leave the content alone when they fail\<close>

lemma clean_keeps: "keeps_content m \<Longrightarrow> fails_clean m"
  by (auto simp: fails_clean_def dest: keepsD)

lemma clean_InTransaction [clean_intros]: "fails_clean (InTransaction E fn)"
  unfolding fails_clean_def using InTransaction_fail by metis

lemma clean_bindA [clean_intros]: "keeps_content m \<Longrightarrow> (\<And>x. fails_clean (f x)) \<Longrightarrow> fails_clean (bindA m f)"
  unfolding fails_clean_def bindA_def by (auto split: prod.splits sum.splits dest: keepsD)

lemma clean_thenA [clean_intros]: "keeps_content m \<Longrightarrow> fails_clean k \<Longrightarrow> fails_clean (thenA m k)"
  by (simp add: thenA_def clean_intros)

lemma clean_retA [clean_intros]: "fails_clean (retA x)"
  by (intro clean_keeps keeps_intros)

lemma clean_ShadowStoreProgram: "fails_clean (ShadowStoreProgram E C N V X root prog)"
  unfolding ShadowStoreProgram_def Let_def
  by (auto intro!: clean_intros keeps_intros split: option.split prod.split)

section \<open>What a successful action does to the content\<close>

definition has_effect :: "('f db, 'a) action \<Rightarrow> ('f db \<Rightarrow> 'f db) \<Rightarrow> bool" where
  "has_effect m g \<longleftrightarrow> (\<forall>s y t. m s = (Inr y, t) \<longrightarrow> content (st_db t) = g (content (st_db s)))"

named_theorems effect_intros \<open>the effect of a successful action on the content\<close>

lemma effectD: "has_effect m g \<Longrightarrow> m s = (Inr y, t) \<Longrightarrow> content (st_db t) = g (content (st_db s))"
  by (simp add: has_effect_def)

lemma effect_cong: "has_effect m g \<Longrightarrow> g = h \<Longrightarrow> has_effect m h"
  by simp

lemma effect_keeps: "keeps_content m \<Longrightarrow> has_effect m (\<lambda>d. d)"
  by (auto simp: has_effect_def dest: keepsD)

lemma effect_thenA [effect_intros]: "has_effect m g \<Longrightarrow> has_effect k h \<Longrightarrow> has_effect (thenA m k) (\<lambda>d. h (g d))"
  by (fastforce simp: has_effect_def action_simps)

lemma effect_after [effect_intros]: "keeps_content m \<Longrightarrow> has_effect k h \<Longrightarrow> has_effect (thenA m k) h"
  using effect_thenA [OF effect_keeps] by fastforce

lemma effect_then_keeps: "has_effect m h \<Longrightarrow> keeps_content k \<Longrightarrow> has_effect (thenA m k) h"
  using effect_thenA [OF _ effect_keeps] by fastforce

lemma effect_execA: "(\<And>d. content (f d) = g (content d)) \<Longrightarrow> has_effect (execA E f) g"
  by (auto simp: has_effect_def dest: execA_ok)

lemma effect_forA: "(\<And>x. x \<in> set xs \<Longrightarrow> has_effect (f x) (g x)) \<Longrightarrow> has_effect (forA f xs) (fold g xs)"
proof (induction xs)
  case (Cons x xs)
  then have "has_effect (thenA (f x) (forA f xs)) (\<lambda>d. fold g xs (g x d))"
    by (intro effect_intros) auto
  then show ?case by (simp add: comp_def)
qed (simp add: has_effect_def action_simps)

lemma effect_InTransaction: "has_effect fn g \<Longrightarrow> has_effect (InTransaction E fn) g"
  unfolding has_effect_def by (metis InTransaction_ok)

text \<open>
  A batch of upserts into one table: \<open>upd\<close> changes the rows of the table, each statement of
  the loop adds one row.
\<close>

lemma effect_batch:
  assumes "\<And>x. x \<in> set xs \<Longrightarrow> has_effect (f x) (\<lambda>d. upd (put (row x)) d)"
    and compose: "\<And>F G d. upd F (upd G d) = upd (\<lambda>r. F (G r)) d" and same: "\<And>d. upd (\<lambda>r. r) d = d"
  shows "has_effect (thenA (touchA E) (forA f xs)) (\<lambda>d. upd (fold put (map row xs)) d)"
proof -
  have "fold (\<lambda>x d. upd (put (row x)) d) xs d = upd (fold put (map row xs)) d" for d
    by (induction xs arbitrary: d) (simp_all add: compose same id_def comp_def)
  then have eq: "fold (\<lambda>x d. upd (put (row x)) d) xs = (\<lambda>d. upd (fold put (map row xs)) d)" by (rule ext)
  have "has_effect (forA f xs) (fold (\<lambda>x d. upd (put (row x)) d) xs)"
    by (rule effect_forA) (rule assms(1))
  then show ?thesis unfolding eq by (rule effect_after [OF keeps_basic(6)])
qed

lemma effect_files [effect_intros]:
  "has_effect (upsertFileMetasTx E ms) (\<lambda>d. d\<lparr>db_files := fold put_file (map file_row_of ms) (db_files d)\<rparr>)"
  unfolding upsertFileMetasTx_def
  by (rule effect_batch [where upd = "\<lambda>F d. d\<lparr>db_files := F (db_files d)\<rparr>" and put = put_file and row = file_row_of])
    (auto intro!: effect_execA simp: content_def)

lemma effect_metrics [effect_intros]:
  "has_effect (upsertMetricsTx E ms) (\<lambda>d. d\<lparr>db_metrics := fold put_metric (map metric_row_of ms) (db_metrics d)\<rparr>)"
  unfolding upsertMetricsTx_def
  by (rule effect_batch [where upd = "\<lambda>F d. d\<lparr>db_metrics := F (db_metrics d)\<rparr>" and put = put_metric and row = metric_row_of])
    (auto intro!: effect_execA simp: content_def)

lemma effect_routes [effect_intros]:
  "has_effect (upsertRoutesTx E rs) (\<lambda>d. d\<lparr>db_routes := fold put_route (map route_row_of rs) (db_routes d)\<rparr>)"
  unfolding upsertRoutesTx_def
  by (rule effect_batch [where upd = "\<lambda>F d. d\<lparr>db_routes := F (db_routes d)\<rparr>" and put = put_route and row = route_row_of])
    (auto intro!: effect_execA simp: content_def)

lemma effect_endpoints [effect_intros]:
  "has_effect (upsertGRPCEndpointsTx E es)
     (\<lambda>d. d\<lparr>db_endpoints := fold put_endpoint (map endpoint_row_of es) (db_endpoints d)\<rparr>)"
  unfolding upsertGRPCEndpointsTx_def
  by (rule effect_batch [where upd = "\<lambda>F d. d\<lparr>db_endpoints := F (db_endpoints d)\<rparr>" and put = put_endpoint and row = endpoint_row_of])
    (auto intro!: effect_execA simp: content_def)

lemma effect_regs [effect_intros]:
  "has_effect (upsertGRPCRegistrationsTx E rs) (\<lambda>d. d\<lparr>db_regs := fold put_reg (map reg_row_of rs) (db_regs d)\<rparr>)"
  unfolding upsertGRPCRegistrationsTx_def
  by (rule effect_batch [where upd = "\<lambda>F d. d\<lparr>db_regs := F (db_regs d)\<rparr>" and put = put_reg and row = reg_row_of])
    (auto intro!: effect_execA simp: content_def)

text \<open>Rows that carry their time already are stored as they are.\<close>

lemma effect_edges [effect_intros]:
  assumes "\<forall>e\<in>set es. aed_CreatedAt e \<noteq> 0"
  shows "has_effect (upsertEdgesTx E es) (\<lambda>d. d\<lparr>db_edges := fold put_edge es (db_edges d)\<rparr>)"
proof -
  have step: "has_effect (bindA (clockA E) (\<lambda>now. execA E (\<lambda>d. d\<lparr>db_edges := put_edge (stamped_edge now e) (db_edges d)\<rparr>)))
      (\<lambda>d. d\<lparr>db_edges := put_edge e (db_edges d)\<rparr>)" if "e \<in> set es" for e
    using assms that by (auto simp: has_effect_def action_simps content_def stamped_edge_def dest!: execA_ok)
  show ?thesis
    unfolding upsertEdgesTx_def
    using effect_batch [where upd = "\<lambda>F d. d\<lparr>db_edges := F (db_edges d)\<rparr>" and row = "\<lambda>e. e" and put = put_edge, OF step]
    by simp
qed

lemma effect_hashes [effect_intros]:
  assumes "\<forall>h\<in>set hs. smh_CreatedAt h \<noteq> 0"
  shows "has_effect (upsertSymbolHashesTx E hs) (\<lambda>d. d\<lparr>db_hashes := fold put_hash hs (db_hashes d)\<rparr>)"
proof -
  have step: "has_effect (bindA (clockA E) (\<lambda>now. execA E (\<lambda>d. d\<lparr>db_hashes := put_hash (stamped_hash now h) (db_hashes d)\<rparr>)))
      (\<lambda>d. d\<lparr>db_hashes := put_hash h (db_hashes d)\<rparr>)" if "h \<in> set hs" for h
    using assms that by (auto simp: has_effect_def action_simps content_def stamped_hash_def dest!: execA_ok)
  show ?thesis
    using effect_batch [where upd = "\<lambda>F d. d\<lparr>db_hashes := F (db_hashes d)\<rparr>" and row = "\<lambda>h. h" and put = put_hash, OF step]
    by (cases "hs = []") (simp_all add: upsertSymbolHashesTx_def has_effect_def retA_ok)
qed

lemma effect_symbols [effect_intros]:
  "has_effect (upsertSymbolsTx E V X ss) (\<lambda>d. d\<lparr>db_symbols := fold put_symbol (map (filled V) ss) (db_symbols d)\<rparr>)"
proof -
  have step: "has_effect (thenA (execA E (\<lambda>d. d\<lparr>db_symbols := put_symbol (filled V s) (db_symbols d)\<rparr>))
          (upsertSymbolVectorTx E V X (cds_ID s) (embedding_or_default V s)))
        (\<lambda>d. d\<lparr>db_symbols := put_symbol (filled V s) (db_symbols d)\<rparr>)" for s
    by (intro effect_then_keeps effect_execA keeps_intros) (simp add: content_def)
  show ?thesis
    using effect_batch [where upd = "\<lambda>F d. d\<lparr>db_symbols := F (db_symbols d)\<rparr>" and row = "filled V"
      and put = put_symbol and xs = ss, OF step]
    by (cases "ss = []") (simp_all add: upsertSymbolsTx_def has_effect_def retA_ok)
qed

section \<open>Stale symbols\<close>

definition is_stale :: "'f db \<Rightarrow> SymbolHash \<Rightarrow> bool" where
  "is_stale d h \<longleftrightarrow> stored_hash (smh_SymbolID h) d \<noteq> Some (smh_SourceHash h, smh_EmbeddingVersion h)"

lemma queryA_run: "never_fails E \<Longrightarrow> queryA E f s = (Inr (f (st_db s)), s\<lparr>st_n := Suc (st_n s)\<rparr>)"
  by (simp add: queryA_def statement_def never_fails_def)

lemma stale_filter:
  assumes "never_fails E"
  shows "\<exists>t. staleSymbolHashesFromStmt E hs s = (Inr (filter (is_stale (st_db s)) hs), t) \<and> st_db t = st_db s"
proof (induction hs arbitrary: s)
  case (Cons h hs)
  define u where "u = s\<lparr>st_n := Suc (st_n s)\<rparr>"
  then have u: "st_db u = st_db s" by simp
  obtain t where t: "staleSymbolHashesFromStmt E hs u = (Inr (filter (is_stale (st_db s)) hs), t)" "st_db t = st_db s"
    using Cons [of u] u by auto
  have h: "is_stale (st_db s) h \<longleftrightarrow>
      stored_hash (smh_SymbolID h) (st_db s) \<noteq> Some (smh_SourceHash h, smh_EmbeddingVersion h)"
    by (simp add: is_stale_def)
  show ?case
    using t by (auto simp: queryA_run [OF assms] u_def [symmetric] h bindA_def retA_def split: option.splits)
qed simp

lemma GetStale_filter:
  assumes "never_fails E"
  shows "\<exists>t. GetStaleSymbolHashes E hs s = (Inr (filter (is_stale (st_db s)) hs), t) \<and> st_db t = st_db s"
  using stale_filter [OF assms, of hs "s\<lparr>st_n := Suc (st_n s)\<rparr>"]
  by (auto simp: GetStaleSymbolHashes_def retA_def thenA_def bindA_def touchA_run [OF assms])

definition stale_ids :: "'f db \<Rightarrow> SymbolHash list \<Rightarrow> string set" where
  "stale_ids d hs = smh_SymbolID ` set (filter (is_stale d) hs)"

lemma changedSymbols_run:
  assumes "never_fails E"
  shows "\<exists>t. changedSymbols E V ss hs p s
      = (case applySymbolEmbeddings V p (filter (\<lambda>s'. cds_ID s' \<in> stale_ids (st_db s) hs) ss) of
           Inl e \<Rightarrow> Inl e | Inr c \<Rightarrow> Inr (map (filled V) c), t) \<and> st_db t = st_db s"
proof -
  obtain t where "GetStaleSymbolHashes E hs s = (Inr (filter (is_stale (st_db s)) hs), t)" "st_db t = st_db s"
    using GetStale_filter [OF assms] by blast
  then show ?thesis
    by (auto simp: changedSymbols_def bindA_def Let_def liftA_def retA_def stale_ids_def split: sum.splits)
qed

lemma embedded_ids: "applySymbolEmbeddings V p ss = Inr c \<Longrightarrow> map cds_ID c = map cds_ID ss"
  by (auto simp: applySymbolEmbeddings_def embedSymbols_def map2_map_map [symmetric] comp_def
      intro!: nth_equalityI split: option.splits if_splits sum.splits)

lemma stored_hash_content: "content d = content d' \<Longrightarrow> stored_hash i d = stored_hash i d'"
  by (simp add: stored_hash_def content_eq)

lemma is_stale_content: "content d = content d' \<Longrightarrow> is_stale d h = is_stale d' h"
  using stored_hash_content [of d d' "smh_SymbolID h"] by (simp add: is_stale_def)

section \<open>What storing a program does\<close>

definition program_content ::
  "'f vector_ops \<Rightarrow> 'f stored_program \<Rightarrow> ArchEdge list \<Rightarrow> CodeSymbol list \<Rightarrow> SymbolHash list \<Rightarrow> 'f db \<Rightarrow> 'f db" where
  "program_content V prog es changed hs d =
     d\<lparr>db_files := fold put_file (map file_row_of (spr_fileMetas prog)) (db_files d),
       db_edges := fold put_edge es (db_edges d),
       db_metrics := fold put_metric (map metric_row_of (spr_complexityMetrics prog)) (db_metrics d),
       db_routes := fold put_route (map route_row_of (spr_httpRoutes prog)) (db_routes d),
       db_endpoints := fold put_endpoint (map endpoint_row_of (spr_grpcEndpoints prog)) (db_endpoints d),
       db_regs := fold put_reg (map reg_row_of (spr_grpcRegistrations prog)) (db_regs d),
       db_symbols := fold put_symbol (map (filled V) changed) (db_symbols d),
       db_hashes := fold put_hash hs (db_hashes d)\<rparr>"

lemma effect_storeProgramTx:
  assumes "\<forall>e\<in>set es. aed_CreatedAt e \<noteq> 0" "\<forall>h\<in>set hs. smh_CreatedAt h \<noteq> 0"
  shows "has_effect (storeProgramTx E V X prog es changed hs) (program_content V prog es changed hs)"
proof -
  note effects = effect_thenA [OF effect_files effect_thenA [OF effect_edges [OF assms(1)]
      effect_thenA [OF effect_metrics effect_thenA [OF effect_routes effect_thenA [OF effect_endpoints
        effect_thenA [OF effect_regs effect_thenA [OF effect_symbols effect_hashes [OF assms(2)]]]]]]]]
  show ?thesis
    unfolding storeProgramTx_def
    by (rule effect_cong [OF effects]) (simp add: program_content_def fun_eq_iff)
qed

lemma edges_stamped: "e \<in> set (packageImportEdges now pkgs) \<Longrightarrow> aed_CreatedAt e = now"
  by (auto simp: packageImportEdges_def Let_def import_edge_def)

text \<open>The steps of a run that succeeds.\<close>

lemma shadow_store_steps:
  assumes "ShadowStoreProgram E C N V X root (Some prog) s = (Inr (), t)"
  obtains n config provider changed hashes u v
  where "EffectiveWorkspaceConfig (vo_float V) C root = Inr config"
    and "NewEmbeddingProviderFromConfig N (vo_float V) (wc_Embeddings config) = Inr provider"
    and "content (st_db u) = content (st_db s)"
    and "prepareChangedSymbols E V (spr_codeSymbols prog)
           (withEmbeddingVersion (spr_symbolHashes prog) (embeddingVersionForProvider provider)) provider u
         = (Inr (changed, hashes), v)"
    and "\<And>g. has_effect (storeProgramTx E V X prog (packageImportEdges (se_now E n) (spr_Packages prog)) changed hashes) g
         \<Longrightarrow> content (st_db t) = g (content (st_db s))"
proof -
  let ?hs = "\<lambda>p. withEmbeddingVersion (spr_symbolHashes prog) (embeddingVersionForProvider p)"
  obtain s1 where s1: "OpenWorkspaceStore E s = (Inr (), s1)"
    and rest: "(\<exists>config provider. EffectiveWorkspaceConfig (vo_float V) C root = Inr config
      \<and> NewEmbeddingProviderFromConfig N (vo_float V) (wc_Embeddings config) = Inr provider
      \<and> (\<exists>changed hashes v w. prepareChangedSymbols E V (spr_codeSymbols prog) (?hs provider) provider s1
            = (Inr (changed, hashes), v)
          \<and> ensureVectorTableForSymbols E V X changed v = (Inr (), w)
          \<and> InTransaction E (storeProgramTx E V X prog
              (packageImportEdges (se_now E (st_n s1)) (spr_Packages prog)) changed hashes) w = (Inr (), t)))"
    using assms by (auto simp: ShadowStoreProgram_def action_simps Let_def split: prod.splits)
  from rest obtain config provider changed hashes v w where run:
    "EffectiveWorkspaceConfig (vo_float V) C root = Inr config"
    "NewEmbeddingProviderFromConfig N (vo_float V) (wc_Embeddings config) = Inr provider"
    "prepareChangedSymbols E V (spr_codeSymbols prog) (?hs provider) provider s1 = (Inr (changed, hashes), v)"
    "ensureVectorTableForSymbols E V X changed v = (Inr (), w)"
    and tx: "InTransaction E (storeProgramTx E V X prog
        (packageImportEdges (se_now E (st_n s1)) (spr_Packages prog)) changed hashes) w = (Inr (), t)"
    by blast
  have "content (st_db s1) = content (st_db s)" using keepsD [OF keeps_OpenWorkspaceStore s1] .
  moreover have "content (st_db w) = content (st_db s1)"
    using keepsD [OF keeps_prepareChangedSymbols run(3)] keepsD [OF keeps_ensureVectorTableForSymbols run(4)] by simp
  ultimately show thesis
    using that [OF run(1,2) _ run(3)] effectD [OF effect_InTransaction tx] by (metis (no_types))
qed

lemma version_twice [simp]: "withEmbeddingVersion (withEmbeddingVersion hs n) n = withEmbeddingVersion hs n"
  by (simp add: withEmbeddingVersion_def)

lemma version_stamps [simp]:
  "(\<forall>h\<in>set (withEmbeddingVersion hs n). smh_CreatedAt h \<noteq> 0) \<longleftrightarrow> (\<forall>h\<in>set hs. smh_CreatedAt h \<noteq> 0)"
  by (simp add: withEmbeddingVersion_def)

lemma stale_ids_content: "content d = content d' \<Longrightarrow> stale_ids d hs = stale_ids d' hs"
  using is_stale_content [of d d'] by (auto simp: stale_ids_def)

text \<open>The symbols a program has to store anew, with the embeddings they get.\<close>

definition symbols_to_store ::
  "'f vector_ops \<Rightarrow> 'f EmbeddingProvider option \<Rightarrow> 'f db \<Rightarrow> CodeSymbol list \<Rightarrow> SymbolHash list \<Rightarrow> string + CodeSymbol list" where
  "symbols_to_store V p d ss hs =
     (case applySymbolEmbeddings V p (filter (\<lambda>s. cds_ID s \<in> stale_ids d (withEmbeddingVersion hs (embeddingVersionForProvider p))) ss) of
        Inl e \<Rightarrow> Inl e | Inr c \<Rightarrow> Inr (map (filled V) c))"

lemma prepare_run:
  assumes "never_fails E"
  shows "\<exists>t. prepareChangedSymbols E V ss hs p s
    = (case symbols_to_store V p (st_db s) ss hs of
         Inl e \<Rightarrow> Inl e | Inr c \<Rightarrow> Inr (c, withEmbeddingVersion hs (embeddingVersionForProvider p)), t)
    \<and> st_db t = st_db s"
proof (cases "ss = [] \<and> hs = []")
  case True
  then show ?thesis
    by (auto simp: prepareChangedSymbols_def symbols_to_store_def retA_def withEmbeddingVersion_def
        applySymbolEmbeddings_def split: option.splits)
next
  case False
  obtain t where "changedSymbols E V ss (withEmbeddingVersion hs (embeddingVersionForProvider p)) p s
      = (symbols_to_store V p (st_db s) ss hs, t)" "st_db t = st_db s"
    using changedSymbols_run [OF assms, of V ss "withEmbeddingVersion hs (embeddingVersionForProvider p)" p s]
    by (auto simp: symbols_to_store_def split: sum.splits)
  with False show ?thesis
    by (auto simp: prepareChangedSymbols_def Let_def bindA_def retA_def split: sum.splits)
qed

lemma symbols_to_store_content: "content d = content d' \<Longrightarrow> symbols_to_store V p d ss hs = symbols_to_store V p d' ss hs"
  using stale_ids_content [of d d'] by (simp add: symbols_to_store_def)

lemma shadow_store_content:
  assumes "never_fails E" "\<forall>n. se_now E n \<noteq> 0" "\<forall>h\<in>set (spr_symbolHashes prog). smh_CreatedAt h \<noteq> 0"
    and run: "ShadowStoreProgram E C N V X root (Some prog) s = (Inr (), t)"
  shows "\<exists>now config provider changed. now \<noteq> 0
    \<and> EffectiveWorkspaceConfig (vo_float V) C root = Inr config
    \<and> NewEmbeddingProviderFromConfig N (vo_float V) (wc_Embeddings config) = Inr provider
    \<and> symbols_to_store V provider (st_db s) (spr_codeSymbols prog) (spr_symbolHashes prog) = Inr changed
    \<and> content (st_db t) = program_content V prog (packageImportEdges now (spr_Packages prog)) changed
        (withEmbeddingVersion (spr_symbolHashes prog) (embeddingVersionForProvider provider)) (content (st_db s))"
  using run
proof (rule shadow_store_steps)
  fix n config changed hashes u v and provider :: "'a EmbeddingProvider option"
  let ?hs = "withEmbeddingVersion (spr_symbolHashes prog) (embeddingVersionForProvider provider)"
  assume cfg: "EffectiveWorkspaceConfig (vo_float V) C root = Inr config"
      "NewEmbeddingProviderFromConfig N (vo_float V) (wc_Embeddings config) = Inr provider"
    and u: "content (st_db u) = content (st_db s)"
    and prep: "prepareChangedSymbols E V (spr_codeSymbols prog) ?hs provider u = (Inr (changed, hashes), v)"
    and eff: "\<And>g. has_effect (storeProgramTx E V X prog (packageImportEdges (se_now E n) (spr_Packages prog)) changed hashes) g
         \<Longrightarrow> content (st_db t) = g (content (st_db s))"
  have c: "symbols_to_store V provider (st_db u) (spr_codeSymbols prog) ?hs = Inr changed" and h: "hashes = ?hs"
    using prepare_run [OF assms(1), of V "spr_codeSymbols prog" ?hs provider u] prep
    by (auto split: sum.splits)
  have "symbols_to_store V provider (st_db u) (spr_codeSymbols prog) ?hs
      = symbols_to_store V provider (st_db u) (spr_codeSymbols prog) (spr_symbolHashes prog)"
    by (simp add: symbols_to_store_def)
  with c have "symbols_to_store V provider (st_db s) (spr_codeSymbols prog) (spr_symbolHashes prog) = Inr changed"
    using symbols_to_store_content [OF u] by metis
  moreover have "content (st_db t) = program_content V prog (packageImportEdges (se_now E n) (spr_Packages prog)) changed ?hs
      (content (st_db s))"
    using assms(2,3) by (intro eff) (auto intro!: effect_storeProgramTx simp: h withEmbeddingVersion_def dest: edges_stamped)
  ultimately show ?thesis using cfg assms(2) by blast
qed

text \<open>A table over which a batch of rows was laid: the last row of the batch wins.\<close>

definition overlaid :: "('r \<Rightarrow> 'k) \<Rightarrow> 'r list \<Rightarrow> 'r list \<Rightarrow> 'r list \<Rightarrow> bool" where
  "overlaid key batch old new \<longleftrightarrow>
     (\<forall>k. row_of key new k = (case row_of key (rev batch) k of None \<Rightarrow> row_of key old k | Some r \<Rightarrow> Some r))"

lemma filled_id [simp]: "cds_ID (filled V s) = cds_ID s"
  by (simp add: filled_def)

lemma content_fields:
  "content d = program_content V prog es changed hs (content d') \<Longrightarrow>
     overlaid file_key (map file_row_of (spr_fileMetas prog)) (db_files d') (db_files d)
   \<and> overlaid edge_key7 es (db_edges d') (db_edges d)
   \<and> overlaid mtr_function_id (map metric_row_of (spr_complexityMetrics prog)) (db_metrics d') (db_metrics d)
   \<and> overlaid route_key (map route_row_of (spr_httpRoutes prog)) (db_routes d') (db_routes d)
   \<and> overlaid endpoint_key (map endpoint_row_of (spr_grpcEndpoints prog)) (db_endpoints d') (db_endpoints d)
   \<and> overlaid reg_key (map reg_row_of (spr_grpcRegistrations prog)) (db_regs d') (db_regs d)
   \<and> overlaid cds_ID (map (filled V) changed) (db_symbols d') (db_symbols d)
   \<and> db_hashes d = fold put_hash hs (db_hashes d')"
  by (cases d; cases d')
    (simp add: content_def program_content_def overlaid_def files.row_upserts edges.row_upserts metrics.row_upserts
      routes.row_upserts endpoints.row_upserts regs.row_upserts symbols.row_upserts)

lemma stored_after_hashes:
  "map_option (\<lambda>h. (smh_SourceHash h, smh_EmbeddingVersion h)) (row_of smh_SymbolID (fold put_hash hs rows) i)
   = (case row_of smh_SymbolID (rev hs) i of
        None \<Rightarrow> map_option (\<lambda>h. (smh_SourceHash h, smh_EmbeddingVersion h)) (row_of smh_SymbolID rows i)
      | Some h \<Rightarrow> Some (smh_SourceHash h, smh_EmbeddingVersion h))"
  by (induction hs arbitrary: rows)
    (auto simp: hashes.row_upsert row_of_append hash_merge_def split: option.splits)

lemma stored_not_stale:
  assumes "distinct (map smh_SymbolID hs)" "h \<in> set hs" "db_hashes d = fold put_hash hs rows"
  shows "\<not> is_stale d h"
proof -
  have "distinct (map smh_SymbolID (rev hs))" using assms(1) by (simp add: rev_map [symmetric])
  then have "row_of smh_SymbolID (rev hs) (smh_SymbolID h) = Some h" using assms(2) by (simp add: row_of_distinct)
  then show ?thesis by (simp add: is_stale_def stored_hash_def assms(3) stored_after_hashes)
qed

end
