(* ===== verification/Store_Index.thy ===== *)
theory Store_Index
  imports Store_Facts
begin

text \<open>
  The invariant of the store, unique keys in every table and a vector index whose rows belong
  to symbols, and the runs that succeed: when the engine refuses nothing, storing a program
  succeeds, provided the recorded dimension is the one of the vector table.
\<close>

section \<open>The invariant\<close>

definition tables_inv :: "'f db \<Rightarrow> bool" where
  "tables_inv d \<longleftrightarrow>
     distinct (map file_key (db_files d)) \<and> distinct (map edge_key7 (db_edges d))
   \<and> distinct (map mtr_function_id (db_metrics d)) \<and> distinct (map route_key (db_routes d))
   \<and> distinct (map endpoint_key (db_endpoints d)) \<and> distinct (map reg_key (db_regs d))
   \<and> distinct (map cds_ID (db_symbols d)) \<and> distinct (map smh_SymbolID (db_hashes d))
   \<and> distinct (map fst (db_state d))"

definition index_inv :: "'f db \<Rightarrow> bool" where
  "index_inv d \<longleftrightarrow>
     distinct (map fst (db_vec_map d)) \<and> distinct (map snd (db_vec_map d))
   \<and> (\<forall>r\<in>set (db_vec_map d). fst r < db_vec_next d)
   \<and> (case db_vec d of None \<Rightarrow> True
      | Some v \<Rightarrow> distinct (map fst (snd v)) \<and> fst ` set (snd v) \<subseteq> fst ` set (db_vec_map d))"

definition store_inv :: "'f db \<Rightarrow> bool" where
  "store_inv d \<longleftrightarrow> tables_inv d \<and> index_inv d"

lemma inv_empty: "store_inv empty_db"
  by (simp add: store_inv_def tables_inv_def index_inv_def empty_db_def)

lemma tables_of_index [simp]:
  "tables_inv (d\<lparr>db_vec := v\<rparr>) = tables_inv d"
  "tables_inv (d\<lparr>db_vec_map := m, db_vec_next := n\<rparr>) = tables_inv d"
  by (simp_all add: tables_inv_def)

lemma index_of_tables [simp]:
  "index_inv (d\<lparr>db_files := a1\<rparr>) = index_inv d" "index_inv (d\<lparr>db_edges := a2\<rparr>) = index_inv d"
  "index_inv (d\<lparr>db_metrics := a3\<rparr>) = index_inv d" "index_inv (d\<lparr>db_routes := a4\<rparr>) = index_inv d"
  "index_inv (d\<lparr>db_endpoints := a5\<rparr>) = index_inv d" "index_inv (d\<lparr>db_regs := a6\<rparr>) = index_inv d"
  "index_inv (d\<lparr>db_symbols := a7\<rparr>) = index_inv d" "index_inv (d\<lparr>db_hashes := a8\<rparr>) = index_inv d"
  "index_inv (d\<lparr>db_state := a9\<rparr>) = index_inv d"
  by (simp_all add: index_inv_def split: option.split)

lemma inv_set_state: "store_inv d \<Longrightarrow> store_inv (set_state k v now d)"
  unfolding store_inv_def set_state_def tables_inv_def by (simp add: state_rows.distinct_upsert)

lemma inv_upserts:
  "store_inv d \<Longrightarrow> store_inv (d\<lparr>db_files := put_file r1 (db_files d)\<rparr>)"
  "store_inv d \<Longrightarrow> store_inv (d\<lparr>db_edges := put_edge r2 (db_edges d)\<rparr>)"
  "store_inv d \<Longrightarrow> store_inv (d\<lparr>db_metrics := put_metric r3 (db_metrics d)\<rparr>)"
  "store_inv d \<Longrightarrow> store_inv (d\<lparr>db_routes := put_route r4 (db_routes d)\<rparr>)"
  "store_inv d \<Longrightarrow> store_inv (d\<lparr>db_endpoints := put_endpoint r5 (db_endpoints d)\<rparr>)"
  "store_inv d \<Longrightarrow> store_inv (d\<lparr>db_regs := put_reg r6 (db_regs d)\<rparr>)"
  "store_inv d \<Longrightarrow> store_inv (d\<lparr>db_symbols := put_symbol r7 (db_symbols d)\<rparr>)"
  "store_inv d \<Longrightarrow> store_inv (d\<lparr>db_hashes := put_hash r8 (db_hashes d)\<rparr>)"
  unfolding store_inv_def tables_inv_def
  by (simp_all add: files.distinct_upsert edges.distinct_upsert metrics.distinct_upsert routes.distinct_upsert
      endpoints.distinct_upsert regs.distinct_upsert symbols.distinct_upsert hashes.distinct_upsert)

lemma inv_delete: "store_inv d \<Longrightarrow> store_inv (d\<lparr>db_files := filter P (db_files d)\<rparr>)"
  unfolding store_inv_def tables_inv_def by (simp add: distinct_map_filter)

lemma inv_vectorRow: "store_inv d \<Longrightarrow> store_inv (vectorRow i d)"
proof (cases "i \<in> snd ` set (db_vec_map d)")
  case False
  assume inv: "store_inv d"
  then have "db_vec_next d \<notin> fst ` set (db_vec_map d)" by (auto simp: store_inv_def index_inv_def)
  with inv False show ?thesis
    by (cases "db_vec d") (simp_all add: store_inv_def vectorRow_def index_inv_def subset_insertI2, fastforce+)
qed (simp add: vectorRow_def)

lemma inv_create_vec: "store_inv d \<Longrightarrow> store_inv (create_vec n d)"
  by (simp add: store_inv_def index_inv_def create_vec_def)

lemma inv_drop_vec: "store_inv d \<Longrightarrow> store_inv (d\<lparr>db_vec := None\<rparr>)"
  by (simp add: store_inv_def index_inv_def)

lemma inv_vec_delete:
  assumes "store_inv d" "vec_delete i d = Inr d'"
  shows "store_inv d' \<and> db_vec_map d' = db_vec_map d"
proof -
  obtain n rows where v: "db_vec d = Some (n, rows)" "d' = d\<lparr>db_vec := Some (n, filter (\<lambda>r. fst r \<noteq> i) rows)\<rparr>"
    using assms(2) by (auto simp: vec_delete_def split: option.splits)
  have "fst ` set (filter (\<lambda>r. fst r \<noteq> i) rows) \<subseteq> fst ` set rows" by auto
  then show ?thesis
    using assms(1) v by (simp add: store_inv_def index_inv_def distinct_map_filter) blast
qed

lemma inv_vec_insert:
  assumes "store_inv d" "i \<in> fst ` set (db_vec_map d)" "vec_insert X i v d = Inr d'"
  shows "store_inv d' \<and> db_vec_map d' = db_vec_map d"
proof -
  obtain n rows where v: "db_vec d = Some (n, rows)" "d' = d\<lparr>db_vec := Some (n, rows @ [(i, v)])\<rparr>" "i \<notin> fst ` set rows"
    using assms(3) by (auto simp: vec_insert_def split: option.splits if_splits)
  then show ?thesis using assms(1,2) by (simp add: store_inv_def index_inv_def)
qed

text \<open>The row id a symbol gets is one of the map.\<close>

lemma vectorRowIDTx_inv:
  assumes "vectorRowIDTx E i s = (r, t)" "store_inv (st_db s)"
  shows "store_inv (st_db t) \<and> (\<forall>n. r = Inr n \<longrightarrow> n \<in> fst ` set (db_vec_map (st_db t)))"
proof -
  obtain r1 u where u: "execA E (vectorRow i) s = (r1, u)" by fastforce
  have inv: "store_inv (st_db u)"
    using maintainsD [OF maintains_execA u] inv_vectorRow assms(2) by blast
  show ?thesis
  proof (cases r1)
    case (Inl e)
    then have "r = Inl e" "t = u" using assms(1) u by (auto simp: vectorRowIDTx_def thenA_def bindA_def)
    then show ?thesis using inv by simp
  next
    case (Inr y)
    then have run: "bindA (queryA E (row_id i)) liftA u = (r, t)"
      using assms(1) u by (simp add: vectorRowIDTx_def thenA_def bindA_def)
    then have db: "st_db t = st_db u" by (auto simp: bindA_def liftA_def split: prod.splits sum.splits dest!: queryA_db)
    have "n \<in> fst ` set (db_vec_map (st_db u))" if "r = Inr n" for n
    proof -
      from run that have "row_id i (st_db u) = Inr n" by (auto simp: action_simps dest!: queryA_ok)
      then show ?thesis using row_of_Some by (fastforce simp: row_id_def split: option.splits)
    qed
    then show ?thesis using inv db by simp
  qed
qed

text \<open>Writing the vector of a symbol: what follows the row id keeps the map.\<close>

lemma maintains_insert:
  assumes "i \<in> set ids"
  shows "maintains (\<lambda>d. store_inv d \<and> set ids \<subseteq> fst ` set (db_vec_map d)) (attemptA E (vec_insert X i v))"
proof (rule maintains_attemptA)
  fix d d' assume d: "store_inv d \<and> set ids \<subseteq> fst ` set (db_vec_map d)" and ins: "vec_insert X i v d = Inr d'"
  then have "i \<in> fst ` set (db_vec_map d)" using assms by blast
  then show "store_inv d' \<and> set ids \<subseteq> fst ` set (db_vec_map d')"
    using inv_vec_insert [OF _ _ ins] d by simp
qed

lemma maintains_delete:
  "maintains (\<lambda>d. store_inv d \<and> set ids \<subseteq> fst ` set (db_vec_map d)) (attemptA E (vec_delete i))"
  by (rule maintains_attemptA) (metis inv_vec_delete)

lemma maintains_vector:
  assumes "\<And>n. maintains (\<lambda>d. store_inv d \<and> set [n] \<subseteq> fst ` set (db_vec_map d)) (f n)"
  shows "maintains store_inv (bindA (vectorRowIDTx E i) f)"
  unfolding maintains_def
proof (intro allI impI)
  fix s r t assume run: "bindA (vectorRowIDTx E i) f s = (r, t)" and inv: "store_inv (st_db s)"
  obtain x u where u: "vectorRowIDTx E i s = (x, u)" by fastforce
  show "store_inv (st_db t)"
  proof (cases x)
    case (Inl e)
    then show ?thesis using run u vectorRowIDTx_inv [OF u inv] by (simp add: bindA_def)
  next
    case (Inr n)
    then have "f n u = (r, t)" "store_inv (st_db u) \<and> set [n] \<subseteq> fst ` set (db_vec_map (st_db u))"
      using run u vectorRowIDTx_inv [OF u inv] by (simp_all add: bindA_def)
    then show ?thesis using maintainsD [OF assms] by blast
  qed
qed

named_theorems inv_actions \<open>operations the invariant of the store survives\<close>

lemma inv_upsertSymbolVectorTx [inv_actions]: "maintains store_inv (upsertSymbolVectorTx E V X i e)"
  unfolding upsertSymbolVectorTx_def Let_def
  by (auto intro!: maintains_vector maintains_intros(1-6) maintains_insert maintains_delete)

lemma inv_Tx [inv_actions]:
  "maintains store_inv (upsertFileMetasTx E metas)"
  "maintains store_inv (upsertEdgesTx E es)"
  "maintains store_inv (upsertMetricsTx E ms)"
  "maintains store_inv (upsertRoutesTx E rs)"
  "maintains store_inv (upsertGRPCEndpointsTx E eps)"
  "maintains store_inv (upsertGRPCRegistrationsTx E regs)"
  "maintains store_inv (upsertSymbolHashesTx E hs)"
  "maintains store_inv (upsertSymbolsTx E V X ss)"
  unfolding upsertFileMetasTx_def upsertEdgesTx_def upsertMetricsTx_def upsertRoutesTx_def
    upsertGRPCEndpointsTx_def upsertGRPCRegistrationsTx_def upsertSymbolHashesTx_def upsertSymbolsTx_def
  by (auto intro!: maintains_intros inv_upserts inv_actions)

lemma inv_rebuildVectorTable [inv_actions]: "maintains store_inv (rebuildVectorTable E V X n)"
  unfolding rebuildVectorTable_def Let_def
  by (auto intro!: maintains_vector maintains_bindA maintains_queryA maintains_InTransaction maintains_forA
      maintains_retA maintains_liftA maintains_insert split: prod.split)

lemma inv_ensureVectorTable [inv_actions]: "maintains store_inv (ensureVectorTable E V X n)"
  unfolding ensureVectorTable_def Let_def
  by (auto intro!: maintains_intros inv_create_vec inv_drop_vec inv_set_state inv_actions split: option.split)

lemma inv_ensureVectorTableForSymbols [inv_actions]: "maintains store_inv (ensureVectorTableForSymbols E V X ss)"
  unfolding ensureVectorTableForSymbols_def Let_def by (auto intro!: maintains_intros inv_actions)

lemma inv_OpenWorkspaceStore [inv_actions]: "maintains store_inv (OpenWorkspaceStore E)"
  unfolding OpenWorkspaceStore_def initSchema_def
  by (auto intro!: maintains_intros inv_set_state split: option.split)

text \<open>Queries change no table.\<close>

lemma queries_keep_db:
  "staleSymbolHashesFromStmt E hs s = (r, t) \<Longrightarrow> st_db t = st_db s"
proof (induction hs arbitrary: s r)
  case (Cons h hs)
  then show ?case
    by (fastforce simp: Let_def bindA_def retA_def split: prod.splits sum.splits option.splits if_splits
        dest!: queryA_db)
qed simp

lemma maintains_prepare:
  "maintains P (GetStaleSymbolHashes E hs)"
  "maintains P (changedSymbols E V ss hs p)"
  "maintains P (prepareChangedSymbols E V ss hs p)"
proof -
  have stale: "maintains P (staleSymbolHashesFromStmt E hs)" for hs
    unfolding maintains_def using queries_keep_db by metis
  then show stale': "maintains P (GetStaleSymbolHashes E hs)" for hs
    unfolding GetStaleSymbolHashes_def by (auto intro!: maintains_intros)
  then show changed: "maintains P (changedSymbols E V ss hs p)" for hs
    unfolding changedSymbols_def Let_def by (auto intro!: maintains_intros)
  then show "maintains P (prepareChangedSymbols E V ss hs p)"
    unfolding prepareChangedSymbols_def Let_def by (auto intro!: maintains_intros)
qed

lemmas inv_prepare [inv_actions] = maintains_prepare [of store_inv]

lemma inv_storeProgramTx [inv_actions]: "maintains store_inv (storeProgramTx E V X prog es changed hs)"
  unfolding storeProgramTx_def by (intro maintains_intros inv_actions)

lemma inv_programs [inv_actions]:
  "maintains store_inv (ShadowStoreProgram E C N V X root prog)"
  "maintains store_inv (UpsertSymbolsWithProvider E V X ss p)"
  "maintains store_inv (UpsertChangedSymbols E V X ss hs p)"
  "maintains store_inv (SemanticSearch E V X query limit)"
  unfolding ShadowStoreProgram_def UpsertSymbolsWithProvider_def UpsertChangedSymbols_def SemanticSearch_def Let_def
  by (auto intro!: maintains_intros inv_actions split: option.split prod.split)

lemma inv_batches [inv_actions]:
  "maintains store_inv (StoreFileMeta E m)"
  "maintains store_inv (DeleteFilesByPath E paths)"
  "maintains store_inv (UpsertEdges E es)"
  "maintains store_inv (UpsertMetrics E ms)"
  "maintains store_inv (UpsertRoutes E rs)"
  "maintains store_inv (UpsertGRPCEndpoints E eps)"
  "maintains store_inv (UpsertGRPCRegistrations E regs)"
  "maintains store_inv (UpsertSymbolHashes E hs)"
  unfolding StoreFileMeta_def DeleteFilesByPath_def UpsertEdges_def UpsertMetrics_def UpsertRoutes_def
    UpsertGRPCEndpoints_def UpsertGRPCRegistrations_def UpsertSymbolHashes_def
  by (auto intro!: maintains_intros inv_actions inv_upserts inv_delete)

text \<open>
  C7: every operation of the store keeps its invariant, whether it succeeds or fails and
  wherever it fails: unique keys in all tables, a vector index in which every row belongs to one
  symbol.
\<close>

theorem store_invariant:
  "store_inv empty_db
   \<and> maintains store_inv (OpenWorkspaceStore E) \<and> maintains store_inv (ShadowStoreProgram E C N V X root prog)
   \<and> maintains store_inv (StoreFileMeta E m) \<and> maintains store_inv (DeleteFilesByPath E paths)
   \<and> maintains store_inv (UpsertEdges E es) \<and> maintains store_inv (UpsertMetrics E ms)
   \<and> maintains store_inv (UpsertRoutes E rs) \<and> maintains store_inv (UpsertGRPCEndpoints E eps)
   \<and> maintains store_inv (UpsertGRPCRegistrations E regs) \<and> maintains store_inv (UpsertSymbolHashes E hs)
   \<and> maintains store_inv (UpsertSymbolsWithProvider E V X ss p) \<and> maintains store_inv (UpsertChangedSymbols E V X ss hs p)
   \<and> maintains store_inv (SemanticSearch E V X query limit)"
  by (intro conjI inv_empty inv_actions)

text \<open>
  C5: storing is atomic: a batch that fails, whichever statement of the engine fails it, leaves
  the content of all tables as it was; only the vector index may have been rebuilt.
\<close>

theorem store_batches_atomic:
  "fails_clean (ShadowStoreProgram E C N V X root prog) \<and> fails_clean (UpsertChangedSymbols E V X ss hs p)
   \<and> fails_clean (UpsertSymbolsWithProvider E V X ss p) \<and> fails_clean (DeleteFilesByPath E paths)
   \<and> fails_clean (UpsertEdges E es) \<and> fails_clean (UpsertMetrics E ms) \<and> fails_clean (UpsertRoutes E rs)
   \<and> fails_clean (UpsertGRPCEndpoints E eps) \<and> fails_clean (UpsertGRPCRegistrations E regs)
   \<and> fails_clean (UpsertSymbolHashes E hs)"
proof -
  have changed: "keeps_content (changedSymbols E V ss hs p)" for hs
    unfolding changedSymbols_def GetStaleSymbolHashes_def Let_def by (auto intro!: keeps_intros)
  have "fails_clean (UpsertChangedSymbols E V X ss hs p)" "fails_clean (UpsertSymbolsWithProvider E V X ss p)"
    unfolding UpsertChangedSymbols_def UpsertSymbolsWithProvider_def Let_def
    by (auto intro!: clean_intros keeps_intros changed)
  moreover have "fails_clean (DeleteFilesByPath E paths)" "fails_clean (UpsertEdges E es)" "fails_clean (UpsertMetrics E ms)"
    "fails_clean (UpsertRoutes E rs)" "fails_clean (UpsertGRPCEndpoints E eps)" "fails_clean (UpsertGRPCRegistrations E regs)"
    "fails_clean (UpsertSymbolHashes E hs)"
    unfolding DeleteFilesByPath_def UpsertEdges_def UpsertMetrics_def UpsertRoutes_def UpsertGRPCEndpoints_def
      UpsertGRPCRegistrations_def UpsertSymbolHashes_def
    by (auto intro!: clean_intros)
  ultimately show ?thesis by (intro conjI clean_ShadowStoreProgram)
qed

end
