(* ===== verification/Store_Runs.thy ===== *)
theory Store_Runs
  imports Store_Index
begin

text \<open>
  Runs of the store that succeed. When the engine refuses nothing and takes every vector of the
  dimension of its table, storing a program succeeds, provided the recorded dimension of the
  vector table is its own. The condition is needed: \<^verbatim>\<open>ensureVectorTable\<close> records the dimension in
  a statement of its own, and a failure in between leaves a table it never repairs
  (\<open>unrecorded_dimension_is_never_repaired\<close> in \<^verbatim>\<open>Store_Search\<close>).
\<close>

section \<open>The vector table\<close>

definition index_ok :: "'f db \<Rightarrow> bool" where
  "index_ok d \<longleftrightarrow>
     (case stored_dimension d of
        None \<Rightarrow> db_vec d = None
      | Some v \<Rightarrow> \<exists>n. Atoi v = Some n \<and> (\<forall>m rows. db_vec d = Some (m, rows) \<longrightarrow> m = n))"

definition has_table :: "int \<Rightarrow> 'f db \<Rightarrow> bool" where
  "has_table n d \<longleftrightarrow> store_inv d \<and> (\<exists>rows. db_vec d = Some (n, rows))"

text \<open>An engine that takes every vector of the table's dimension.\<close>

definition accepts :: "'f vec_engine \<Rightarrow> bool" where
  "accepts X \<longleftrightarrow> (\<forall>v. \<exists>j. ve_json X v = Inr j \<and> ve_rejects X (int (length v)) j = None)"

text \<open>The row id of a symbol after its row was ensured.\<close>

definition rid :: "string \<Rightarrow> 'f db \<Rightarrow> int" where
  "rid i d = fst (the (row_of snd (db_vec_map d) i))"

lemma vectorRow_row:
  "\<exists>n. row_of snd (db_vec_map (vectorRow i d)) i = Some (n, i)"
proof (cases "i \<in> snd ` set (db_vec_map d)")
  case True
  then obtain r where "row_of snd (db_vec_map d) i = Some r" using row_of_None by (metis option.exhaust)
  moreover from this have "snd r = i" using row_of_Some by metis
  ultimately show ?thesis using True by (cases r) (auto simp: vectorRow_def)
next
  case False
  then show ?thesis using row_of_None [of snd "db_vec_map d" i] by (simp add: vectorRow_def row_of_append)
qed

lemma vectorRow_vec [simp]: "db_vec (vectorRow i d) = db_vec d"
  by (simp add: vectorRow_def)

lemma succeeds_vectorRowIDTx:
  assumes "never_fails E" "\<And>d. P d \<Longrightarrow> R (rid i (vectorRow i d)) (vectorRow i d)"
  shows "succeeds P (vectorRowIDTx E i) R"
  unfolding vectorRowIDTx_def
proof (rule succeeds_thenA)
  let ?A = "\<lambda>d. R (rid i d) d \<and> (\<exists>n. row_of snd (db_vec_map d) i = Some (n, i))"
  show "succeeds P (execA E (vectorRow i)) (\<lambda>_. ?A)"
    using assms vectorRow_row by (intro succeeds_execA) blast+
  have "succeeds ?A (queryA E (row_id i)) (\<lambda>x d. \<exists>n. x = Inr n \<and> R n d)"
    using assms(1) by (intro succeeds_queryA) (auto simp: row_id_def rid_def)
  then show "succeeds ?A (bindA (queryA E (row_id i)) liftA) R" for x :: unit
    unfolding succeeds_def bindA_ok liftA_ok by blast
qed

lemma succeeds_upsertSymbolVectorTx:
  fixes X :: "'f vec_engine"
  assumes "never_fails E" "accepts X" "length (decodeEmbedding V e) \<in> {0, nat n}" "0 < n"
  shows "succeeds (has_table n) (upsertSymbolVectorTx E V X i e) (\<lambda>_. has_table n)"
proof (cases "length (decodeEmbedding V e) = 0")
  case True
  then show ?thesis by (auto simp: upsertSymbolVectorTx_def intro: succeeds_retA)
next
  case False
  then have len: "int (length (decodeEmbedding V e)) = n" using assms(3,4) by simp
  then obtain j where j: "ve_json X (decodeEmbedding V e) = Inr j" "ve_rejects X n j = None"
    using assms(2) unfolding accepts_def by metis
  let ?R = "\<lambda>r (d :: 'f db). has_table n d \<and> r \<in> fst ` set (db_vec_map d)"
  have row: "succeeds (has_table n) (vectorRowIDTx E i) ?R"
  proof (rule succeeds_vectorRowIDTx [OF assms(1)])
    fix d :: "'f db" assume d: "has_table n d"
    obtain m where "row_of snd (db_vec_map (vectorRow i d)) i = Some (m, i)" using vectorRow_row by blast
    moreover from this have "(m, i) \<in> set (db_vec_map (vectorRow i d))" using row_of_Some by metis
    ultimately have "rid i (vectorRow i d) \<in> fst ` set (db_vec_map (vectorRow i d))"
      by (force simp: rid_def)
    then show "?R (rid i (vectorRow i d)) (vectorRow i d)" using d inv_vectorRow [of d i] by (simp add: has_table_def)
  qed
  let ?S = "\<lambda>r d. ?R r d \<and> (\<exists>rows. db_vec d = Some (n, rows) \<and> r \<notin> fst ` set rows)"
  have del: "succeeds (?R r) (attemptA E (vec_delete r)) (\<lambda>_. ?S r)" for r
  proof (rule succeeds_attemptA [OF assms(1)])
    fix d :: "'f db" assume d: "?R r d"
    then obtain rows where rows: "db_vec d = Some (n, rows)" by (auto simp: has_table_def)
    let ?d = "d\<lparr>db_vec := Some (n, filter (\<lambda>x. fst x \<noteq> r) rows)\<rparr>"
    have "vec_delete r d = Inr ?d" using rows by (simp add: vec_delete_def)
    moreover have "?S r ?d" using d inv_vec_delete [OF _ calculation] by (auto simp: has_table_def)
    ultimately show "\<exists>d'. vec_delete r d = Inr d' \<and> ?S r d'" by blast
  qed
  have ins: "succeeds (?S r) (attemptA E (vec_insert X r j)) (\<lambda>_. has_table n)" for r
  proof (rule succeeds_attemptA [OF assms(1)])
    fix d :: "'f db" assume d: "?S r d"
    then obtain rows where rows: "db_vec d = Some (n, rows)" "r \<notin> fst ` set rows" by blast
    let ?d = "d\<lparr>db_vec := Some (n, rows @ [(r, j)])\<rparr>"
    have "vec_insert X r j d = Inr ?d" using rows j by (simp add: vec_insert_def)
    moreover have "has_table n ?d" using d inv_vec_insert [OF _ _ calculation] by (auto simp: has_table_def)
    ultimately show "\<exists>d'. vec_insert X r j d = Inr d' \<and> has_table n d'" by blast
  qed
  have body: "succeeds (?R r) (bindA (liftA (Inr j)) (\<lambda>vector. thenA (attemptA E (vec_delete r)) (attemptA E (vec_insert X r vector))))
      (\<lambda>_. has_table n)" for r
    using succeeds_thenA [OF del ins] by (simp add: succeeds_def bindA_def liftA_def)
  show ?thesis
    using False succeeds_bindA [OF row body] by (simp add: upsertSymbolVectorTx_def j(1))
qed

text \<open>
  Rebuilding the table. The rows still to come have row ids the table does not hold.
\<close>

definition awaits :: "int \<Rightarrow> string list \<Rightarrow> 'f db \<Rightarrow> bool" where
  "awaits n ids d \<longleftrightarrow> store_inv d \<and> distinct ids
   \<and> (\<exists>rows. db_vec d = Some (n, rows) \<and> (\<forall>i\<in>set ids. \<forall>r. row_of snd (db_vec_map d) i = Some r \<longrightarrow> fst r \<notin> fst ` set rows))"

lemma awaits_tail: "awaits n (i # ids) d \<Longrightarrow> awaits n ids d"
  by (auto simp: awaits_def)

lemma row_vectorRow:
  "row_of snd (db_vec_map (vectorRow i d)) k
   = (if k = i then Some (rid i (vectorRow i d), i) else row_of snd (db_vec_map d) k)"
proof (cases "k = i")
  case True
  then show ?thesis using vectorRow_row [of i d] by (auto simp: rid_def)
next
  case False
  then show ?thesis by (auto simp: vectorRow_def row_of_append split: option.splits)
qed

text \<open>Two symbols of the map never share a row id.\<close>

lemma row_ids_differ:
  assumes "store_inv d" "row_of snd (db_vec_map d) i = Some r" "row_of snd (db_vec_map d) k = Some q" "i \<noteq> k"
  shows "fst r \<noteq> fst q"
proof
  assume same: "fst r = fst q"
  have "r \<in> set (db_vec_map d)" "q \<in> set (db_vec_map d)" "snd r = i" "snd q = k"
    using assms(2,3) row_of_Some by metis+
  moreover have "distinct (map fst (db_vec_map d))" using assms(1) by (simp add: store_inv_def index_inv_def)
  ultimately show False using same assms(4) by (metis distinct_map inj_onD)
qed

lemma awaits_vectorRow:
  assumes "awaits n (i # ids) d"
  shows "awaits n (i # ids) (vectorRow i d)"
proof -
  obtain rows where rows: "db_vec d = Some (n, rows)"
      "\<forall>k\<in>set (i # ids). \<forall>r. row_of snd (db_vec_map d) k = Some r \<longrightarrow> fst r \<notin> fst ` set rows"
    and inv: "store_inv d" and dist: "distinct (i # ids)"
    using assms by (auto simp: awaits_def)
  have "rid i (vectorRow i d) \<notin> fst ` set rows"
  proof (cases "i \<in> snd ` set (db_vec_map d)")
    case True
    then have "vectorRow i d = d" by (simp add: vectorRow_def)
    moreover from True obtain r where "row_of snd (db_vec_map d) i = Some r" using row_of_None by (metis option.exhaust)
    ultimately show ?thesis using rows(2) by (cases r) (auto simp: rid_def)
  next
    case False
    then have "rid i (vectorRow i d) = db_vec_next d"
      using row_of_None [of snd "db_vec_map d" i] by (simp add: rid_def vectorRow_def row_of_append)
    moreover have "db_vec_next d \<notin> fst ` set (db_vec_map d)" "fst ` set rows \<subseteq> fst ` set (db_vec_map d)"
      using inv rows(1) by (auto simp: store_inv_def index_inv_def)
    ultimately show ?thesis by auto
  qed
  then show ?thesis
    using rows inv dist inv_vectorRow [OF inv] by (auto simp: awaits_def row_vectorRow)
qed

lemma succeeds_rebuild_loop:
  fixes X :: "'f vec_engine"
  assumes "never_fails E" "accepts X"
  shows "succeeds (awaits n (map fst rows) :: 'f db \<Rightarrow> bool) (forA (\<lambda>(ident, embedding).
      let vec = decodeEmbedding V embedding
      in if int (length vec) \<noteq> n then retA ()
         else bindA (vectorRowIDTx E ident) (\<lambda>rowID.
              bindA (liftA (ve_json X vec)) (\<lambda>vector. attemptA E (vec_insert X rowID vector)))) rows)
    (\<lambda>_. has_table n)"
proof (induction rows)
  case Nil
  show ?case by (auto simp: has_table_def awaits_def intro!: succeeds_retA)
next
  case (Cons row rows)
  obtain i e where row: "row = (i, e)" by fastforce
  let ?ids = "map fst rows"
  obtain j where j: "ve_json X (decodeEmbedding V e) = Inr j" "ve_rejects X (int (length (decodeEmbedding V e))) j = None"
    using assms(2) unfolding accepts_def by metis
  let ?R = "\<lambda>r (d :: 'f db). awaits n (i # ?ids) d \<and> row_of snd (db_vec_map d) i = Some (r, i)"
  have vec_row: "succeeds (awaits n (i # ?ids)) (vectorRowIDTx E i) ?R"
    by (rule succeeds_vectorRowIDTx [OF assms(1)]) (simp add: awaits_vectorRow row_vectorRow)
  have ins: "succeeds (?R r) (attemptA E (vec_insert X r j)) (\<lambda>_. awaits n ?ids)"
    if "int (length (decodeEmbedding V e)) = n" for r
  proof (rule succeeds_attemptA [OF assms(1)])
    fix d :: "'f db" assume d: "?R r d"
    then obtain old where old: "db_vec d = Some (n, old)" "r \<notin> fst ` set old"
        "\<forall>k\<in>set ?ids. \<forall>q. row_of snd (db_vec_map d) k = Some q \<longrightarrow> fst q \<notin> fst ` set old"
      by (auto simp: awaits_def)
    let ?d = "d\<lparr>db_vec := Some (n, old @ [(r, j)])\<rparr>"
    have insert: "vec_insert X r j d = Inr ?d" using old j that by (simp add: vec_insert_def)
    have "r \<in> fst ` set (db_vec_map d)" using d row_of_Some by (metis fst_conv image_eqI)
    then have inv: "store_inv ?d" using d inv_vec_insert [OF _ _ insert] by (simp add: awaits_def)
    have "fst q \<noteq> r" if "k \<in> set ?ids" "row_of snd (db_vec_map d) k = Some q" for k q
    proof -
      have "i \<noteq> k" using d that(1) by (auto simp: awaits_def)
      then show ?thesis using row_ids_differ [of d i "(r, i)" k q] d that(2) by (auto simp: awaits_def)
    qed
    then have "\<forall>k\<in>set ?ids. \<forall>q. row_of snd (db_vec_map ?d) k = Some q \<longrightarrow> fst q \<notin> fst ` set (old @ [(r, j)])"
      using old(3) by simp
    moreover have "distinct ?ids" using d by (simp add: awaits_def)
    ultimately have "awaits n ?ids ?d"
      unfolding awaits_def using inv by (intro conjI exI [of _ "old @ [(r, j)]"]) simp_all
    then show "\<exists>d'. vec_insert X r j d = Inr d' \<and> awaits n ?ids d'" using insert by blast
  qed
  have step: "succeeds (awaits n (i # ?ids)) (if int (length (decodeEmbedding V e)) \<noteq> n then retA ()
         else bindA (vectorRowIDTx E i) (\<lambda>rowID.
              bindA (liftA (ve_json X (decodeEmbedding V e))) (\<lambda>vector. attemptA E (vec_insert X rowID vector))))
      (\<lambda>_. awaits n ?ids)"
  proof (cases "int (length (decodeEmbedding V e)) = n")
    case True
    have body: "succeeds (?R r) (bindA (liftA (Inr j)) (\<lambda>vector. attemptA E (vec_insert X r vector))) (\<lambda>_. awaits n ?ids)" for r
      using ins [OF True] by (simp add: succeeds_def bindA_def liftA_def)
    show ?thesis using True succeeds_bindA [OF vec_row body] by (simp add: j(1))
  next
    case False
    then show ?thesis using awaits_tail by (auto intro!: succeeds_retA)
  qed
  show ?case
    using succeeds_thenA [OF step Cons] by (simp add: row Let_def)
qed

lemma succeeds_rebuildVectorTable:
  fixes X :: "'f vec_engine"
  assumes "never_fails E" "accepts X"
  shows "succeeds (\<lambda>d. store_inv d \<and> db_vec d = Some (n, [])) (rebuildVectorTable E V X n) (\<lambda>_. has_table n)"
  unfolding rebuildVectorTable_def
proof (rule succeeds_bindA)
  show "succeeds (\<lambda>d. store_inv d \<and> db_vec d = Some (n, []))
      (queryA E (\<lambda>d. map (\<lambda>s. (cds_ID s, cds_Embedding s)) (filter (\<lambda>s. cds_Embedding s \<noteq> []) (db_symbols d))))
      (\<lambda>rows. awaits n (map fst rows))"
    by (rule succeeds_queryA [OF assms(1)])
      (simp add: awaits_def comp_def store_inv_def tables_inv_def distinct_map_filter)
qed (rule succeeds_InTransaction [OF assms(1) succeeds_rebuild_loop [OF assms]])

lemma succeeds_ensureVectorTable:
  fixes X :: "'f vec_engine"
  assumes "never_fails E" "accepts X" "0 < n"
  shows "succeeds (\<lambda>d. store_inv d \<and> index_ok d) (ensureVectorTable E V X n) (\<lambda>_. has_table n)"
proof -
  let ?new = "\<lambda>d :: 'f db. store_inv d \<and> db_vec d = Some (n, [])"
  let ?renew = "thenA (execA E (create_vec n)) (bindA (clockA E) (\<lambda>now.
      thenA (execA E (set_state dimension_key (Itoa n) now)) (rebuildVectorTable E V X n)))"
  have create: "succeeds (\<lambda>d :: 'f db. store_inv d \<and> db_vec d = None) (execA E (create_vec n)) (\<lambda>_. ?new)"
    by (rule succeeds_execA [OF assms(1)]) (simp add: inv_create_vec, simp add: create_vec_def)
  have noted: "succeeds ?new (execA E (set_state dimension_key (Itoa n) now)) (\<lambda>_. ?new)" for now
    by (rule succeeds_execA [OF assms(1)]) (simp add: inv_set_state, simp add: set_state_def)
  have renew: "succeeds (\<lambda>d :: 'f db. store_inv d \<and> db_vec d = None) ?renew (\<lambda>_. has_table n)"
  proof (rule succeeds_thenA [OF create], rule succeeds_bindA)
    show "succeeds ?new (clockA E) (\<lambda>_. ?new)" by (rule succeeds_clockA)
    show "succeeds ?new (thenA (execA E (set_state dimension_key (Itoa n) now)) (rebuildVectorTable E V X n))
        (\<lambda>_. has_table n)" for now
      by (rule succeeds_thenA [OF noted]) (rule succeeds_rebuildVectorTable [OF assms(1,2)])
  qed
  let ?P = "\<lambda>c (d :: 'f db). store_inv d \<and> index_ok d \<and> stored_dimension d = c"
  have branch: "succeeds (?P c) (case c of None \<Rightarrow> ?renew
      | Some v \<Rightarrow> (case Atoi v of
            None \<Rightarrow> failA (''strconv.Atoi: parsing '' @ go_quote v @ '': invalid syntax'')
          | Some k \<Rightarrow> if k = n then execA E (create_vec n) else thenA (execA E (\<lambda>d. d\<lparr>db_vec := None\<rparr>)) ?renew))
      (\<lambda>_. has_table n)" for c
  proof (cases c)
    case None
    then show ?thesis by (auto intro: succeeds_conseq [OF renew] simp: index_ok_def)
  next
    case (Some v)
    show ?thesis
    proof (cases "Atoi v")
      case None
      with Some show ?thesis by (auto simp: succeeds_def index_ok_def)
    next
      case (Some k)
      show ?thesis
      proof (cases "k = n")
        case True
        have "succeeds (?P c) (execA E (create_vec n)) (\<lambda>_. has_table n)"
        proof (rule succeeds_execA [OF assms(1)])
          fix d :: "'f db" assume d: "?P c d"
          then have "\<exists>rows. db_vec (create_vec n d) = Some (n, rows)"
            using True Some \<open>c = Some v\<close> by (auto simp: index_ok_def create_vec_def)
          then show "has_table n (create_vec n d)" using d inv_create_vec [of d n] by (simp add: has_table_def)
        qed
        then show ?thesis using True Some \<open>c = Some v\<close> by simp
      next
        case False
        have "succeeds (?P c) (execA E (\<lambda>d. d\<lparr>db_vec := None\<rparr>)) (\<lambda>_ d. store_inv d \<and> db_vec d = None)"
          by (rule succeeds_execA [OF assms(1)]) (simp add: inv_drop_vec)
        then show ?thesis using False Some \<open>c = Some v\<close> succeeds_thenA [OF _ renew] by simp
      qed
    qed
  qed
  have "succeeds (\<lambda>d. store_inv d \<and> index_ok d) (queryA E stored_dimension) (\<lambda>c. ?P c)"
    by (rule succeeds_queryA [OF assms(1)]) simp
  then show ?thesis
    using assms(3) succeeds_bindA [OF _ branch] by (simp add: ensureVectorTable_def Let_def)
qed

section \<open>Storing a program\<close>

lemma has_table_upserts:
  "has_table n d \<Longrightarrow> has_table n (d\<lparr>db_files := put_file r1 (db_files d)\<rparr>)"
  "has_table n d \<Longrightarrow> has_table n (d\<lparr>db_edges := put_edge r2 (db_edges d)\<rparr>)"
  "has_table n d \<Longrightarrow> has_table n (d\<lparr>db_metrics := put_metric r3 (db_metrics d)\<rparr>)"
  "has_table n d \<Longrightarrow> has_table n (d\<lparr>db_routes := put_route r4 (db_routes d)\<rparr>)"
  "has_table n d \<Longrightarrow> has_table n (d\<lparr>db_endpoints := put_endpoint r5 (db_endpoints d)\<rparr>)"
  "has_table n d \<Longrightarrow> has_table n (d\<lparr>db_regs := put_reg r6 (db_regs d)\<rparr>)"
  "has_table n d \<Longrightarrow> has_table n (d\<lparr>db_symbols := put_symbol r7 (db_symbols d)\<rparr>)"
  "has_table n d \<Longrightarrow> has_table n (d\<lparr>db_hashes := put_hash r8 (db_hashes d)\<rparr>)"
  unfolding has_table_def by (simp_all add: inv_upserts)

text \<open>A batch that only writes rows succeeds from any property its rows keep.\<close>

lemma succeeds_batch:
  assumes "never_fails E" "\<And>x d. x \<in> set xs \<Longrightarrow> P d \<Longrightarrow> P (g x d)"
  shows "succeeds P (thenA (touchA E) (forA (\<lambda>x. execA E (g x)) xs)) (\<lambda>_. P)"
  by (rule succeeds_thenA [OF succeeds_touchA [OF assms(1)]], assumption,
      rule succeeds_forA, rule succeeds_execA [OF assms(1)], rule assms(2))

lemma succeeds_stamped_batch:
  assumes "never_fails E" "\<And>x n d. x \<in> set xs \<Longrightarrow> P d \<Longrightarrow> P (g x n d)"
  shows "succeeds P (thenA (touchA E) (forA (\<lambda>x. bindA (clockA E) (\<lambda>now. execA E (g x now))) xs)) (\<lambda>_. P)"
proof (rule succeeds_thenA [OF succeeds_touchA [OF assms(1)]], assumption, rule succeeds_forA)
  fix x assume x: "x \<in> set xs"
  show "succeeds P (bindA (clockA E) (\<lambda>now. execA E (g x now))) (\<lambda>_. P)"
    by (rule succeeds_bindA [OF succeeds_clockA], assumption, rule succeeds_execA [OF assms(1)], rule assms(2) [OF x])
qed

lemma succeeds_storeProgramTx:
  fixes X :: "'f vec_engine" and P :: "'f db \<Rightarrow> bool"
  assumes "never_fails E"
    and symbols: "succeeds P (upsertSymbolsTx E V X changed) (\<lambda>_. P)"
    and rows: "\<And>d r. P d \<Longrightarrow> P (d\<lparr>db_files := put_file r (db_files d)\<rparr>)"
      "\<And>d r. P d \<Longrightarrow> P (d\<lparr>db_edges := put_edge r (db_edges d)\<rparr>)"
      "\<And>d r. P d \<Longrightarrow> P (d\<lparr>db_metrics := put_metric r (db_metrics d)\<rparr>)"
      "\<And>d r. P d \<Longrightarrow> P (d\<lparr>db_routes := put_route r (db_routes d)\<rparr>)"
      "\<And>d r. P d \<Longrightarrow> P (d\<lparr>db_endpoints := put_endpoint r (db_endpoints d)\<rparr>)"
      "\<And>d r. P d \<Longrightarrow> P (d\<lparr>db_regs := put_reg r (db_regs d)\<rparr>)"
      "\<And>d r. P d \<Longrightarrow> P (d\<lparr>db_hashes := put_hash r (db_hashes d)\<rparr>)"
  shows "succeeds P (storeProgramTx E V X prog es changed hs) (\<lambda>_. P)"
proof -
  have "succeeds P (upsertFileMetasTx E (spr_fileMetas prog)) (\<lambda>_. P)"
    "succeeds P (upsertMetricsTx E (spr_complexityMetrics prog)) (\<lambda>_. P)"
    "succeeds P (upsertRoutesTx E (spr_httpRoutes prog)) (\<lambda>_. P)"
    "succeeds P (upsertGRPCEndpointsTx E (spr_grpcEndpoints prog)) (\<lambda>_. P)"
    "succeeds P (upsertGRPCRegistrationsTx E (spr_grpcRegistrations prog)) (\<lambda>_. P)"
    unfolding upsertFileMetasTx_def upsertMetricsTx_def upsertRoutesTx_def upsertGRPCEndpointsTx_def upsertGRPCRegistrationsTx_def
    by (rule succeeds_batch [OF assms(1)], erule rows)+
  moreover have "succeeds P (upsertEdgesTx E es) (\<lambda>_. P)"
    unfolding upsertEdgesTx_def by (rule succeeds_stamped_batch [OF assms(1)], erule rows)
  moreover have "succeeds P (upsertSymbolHashesTx E hs) (\<lambda>_. P)"
  proof (cases "length hs = 0")
    case True
    then show ?thesis by (simp add: upsertSymbolHashesTx_def succeeds_retA)
  next
    case False
    have "succeeds P (thenA (touchA E) (forA (\<lambda>h. bindA (clockA E) (\<lambda>now.
        execA E (\<lambda>d. d\<lparr>db_hashes := put_hash (stamped_hash now h) (db_hashes d)\<rparr>))) hs)) (\<lambda>_. P)"
      by (rule succeeds_stamped_batch [OF assms(1)], erule rows)
    then show ?thesis using False by (simp add: upsertSymbolHashesTx_def)
  qed
  ultimately show ?thesis
    unfolding storeProgramTx_def using symbols by (intro succeeds_thenA)
qed

lemma succeeds_upsertSymbolsTx:
  fixes X :: "'f vec_engine"
  assumes "never_fails E" "accepts X" "0 < n"
    and dims: "\<forall>c\<in>set changed. length (decodeEmbedding V (embedding_or_default V c)) \<in> {0, nat n}"
  shows "succeeds (has_table n) (upsertSymbolsTx E V X changed) (\<lambda>_. has_table n)"
proof (cases "length changed = 0")
  case True
  then show ?thesis by (simp add: upsertSymbolsTx_def succeeds_retA)
next
  case False
  have each: "succeeds (has_table n) (thenA (execA E (\<lambda>d. d\<lparr>db_symbols := put_symbol (filled V c) (db_symbols d)\<rparr>))
      (upsertSymbolVectorTx E V X (cds_ID c) (embedding_or_default V c))) (\<lambda>_. has_table n)"
    if "c \<in> set changed" for c
    by (rule succeeds_thenA [OF succeeds_execA [OF assms(1)]], erule has_table_upserts(7))
      (use succeeds_upsertSymbolVectorTx [OF assms(1,2) _ assms(3)] dims that in blast)
  then have "succeeds (has_table n) (thenA (touchA E) (forA (\<lambda>c.
      thenA (execA E (\<lambda>d. d\<lparr>db_symbols := put_symbol (filled V c) (db_symbols d)\<rparr>))
        (upsertSymbolVectorTx E V X (cds_ID c) (embedding_or_default V c))) changed)) (\<lambda>_. has_table n)"
    by - (rule succeeds_thenA [OF succeeds_touchA [OF assms(1)]], assumption, rule succeeds_forA, rule each)
  with False show ?thesis by (simp add: upsertSymbolsTx_def)
qed

lemma succeeds_no_vectors:
  assumes "never_fails E" "\<forall>c\<in>set changed. decodeEmbedding V (embedding_or_default V c) = []"
  shows "succeeds (\<lambda>_. True) (upsertSymbolsTx E V X changed) (\<lambda>_ _. True)"
proof (cases "length changed = 0")
  case False
  have each: "succeeds (\<lambda>_. True) (thenA (execA E (\<lambda>d. d\<lparr>db_symbols := put_symbol (filled V c) (db_symbols d)\<rparr>))
      (upsertSymbolVectorTx E V X (cds_ID c) (embedding_or_default V c))) (\<lambda>_ _. True)"
    if "c \<in> set changed" for c
    by (rule succeeds_thenA [OF succeeds_execA [OF assms(1)]], rule TrueI)
      (use assms(2) that in \<open>simp add: upsertSymbolVectorTx_def succeeds_retA\<close>)
  have "succeeds (\<lambda>_. True) (thenA (touchA E) (forA (\<lambda>c.
      thenA (execA E (\<lambda>d. d\<lparr>db_symbols := put_symbol (filled V c) (db_symbols d)\<rparr>))
        (upsertSymbolVectorTx E V X (cds_ID c) (embedding_or_default V c))) changed)) (\<lambda>_ _. True)"
    by (rule succeeds_thenA [OF succeeds_touchA [OF assms(1)]], rule TrueI, rule succeeds_forA, rule each)
  with False show ?thesis by (simp add: upsertSymbolsTx_def)
qed (simp add: upsertSymbolsTx_def succeeds_retA)

lemma filled_twice [simp]: "filled V (filled V s) = filled V s"
proof -
  have "length (encodeEmbedding V (deterministicEmbedding V (cds_Source s) 16)) \<noteq> 0"
    using length_deterministicEmbedding [of V "cds_Source s" 16] by auto
  then show ?thesis by (auto simp: filled_def embedding_or_default_def)
qed

lemma succeeds_OpenWorkspaceStore:
  fixes P :: "'f db \<Rightarrow> bool"
  assumes "never_fails E" "se_ensure E = None" "se_open E = None"
    and P: "\<And>d now. P d \<Longrightarrow> P (set_state ''schema_version'' workspaceStoreSchemaVersion now d)"
  shows "succeeds P (OpenWorkspaceStore E) (\<lambda>_. P)"
proof -
  have touch: "succeeds P (touchA E) (\<lambda>_. P)" by (rule succeeds_touchA [OF assms(1)])
  have loop: "succeeds P (forA (\<lambda>_. touchA E) [0..<schema_statements]) (\<lambda>_. P)"
    by (rule succeeds_forA) (rule touch)
  have clock: "succeeds P (clockA E) (\<lambda>_. P)" by (rule succeeds_clockA)
  have version: "succeeds P (execA E (set_state ''schema_version'' workspaceStoreSchemaVersion now)) (\<lambda>_. P)" for now
    by (rule succeeds_execA [OF assms(1)]) (rule P)
  have "succeeds P (initSchema E) (\<lambda>_. P)"
    unfolding initSchema_def
    by (intro succeeds_thenA [OF succeeds_wrapA [OF loop]] succeeds_bindA [OF clock] succeeds_wrapA version)
  then show ?thesis
    using assms(2,3) touch by (simp add: OpenWorkspaceStore_def) (intro succeeds_thenA succeeds_wrapA)
qed

lemma index_ok_state:
  "k \<noteq> dimension_key \<Longrightarrow> index_ok d \<Longrightarrow> index_ok (set_state k v now d)"
  by (simp add: index_ok_def stored_dimension_def set_state_def state_rows.row_replace cong: option.case_cong)

lemma shadow_store_runs:
  fixes X :: "'f vec_engine"
  assumes "never_fails E" "se_ensure E = None" "se_open E = None" "accepts X"
    and "store_inv (st_db s)" "index_ok (st_db s)"
    and config: "EffectiveWorkspaceConfig (vo_float V) C root = Inr config"
      "NewEmbeddingProviderFromConfig N (vo_float V) (wc_Embeddings config) = Inr provider"
    and changed: "symbols_to_store V provider (st_db s) (spr_codeSymbols prog) (spr_symbolHashes prog) = Inr changed"
    and dims: "\<forall>c\<in>set changed. length (decodeEmbedding V (cds_Embedding c)) \<in> {0, nat (symbols_dimension V changed)}"
  shows "\<exists>t. ShadowStoreProgram E C N V X root (Some prog) s = (Inr (), t)"
proof -
  let ?P = "\<lambda>d. store_inv d \<and> index_ok d \<and> content d = content (st_db s)"
  have "succeeds ?P (OpenWorkspaceStore E) (\<lambda>_. ?P)"
    using assms(1-3) inv_set_state index_ok_state [of "''schema_version''"]
    by (intro succeeds_OpenWorkspaceStore) (auto simp: dimension_key_def)
  then obtain s1 where s1: "OpenWorkspaceStore E s = (Inr (), s1)" "?P (st_db s1)"
    using assms(5,6) by (fastforce dest: succeedsD)
  let ?hs = "withEmbeddingVersion (spr_symbolHashes prog) (embeddingVersionForProvider provider)"
  have "symbols_to_store V provider (st_db s1) (spr_codeSymbols prog) ?hs = Inr changed"
    using changed symbols_to_store_content [of "st_db s1" "st_db s" V provider] s1(2)
    by (simp add: symbols_to_store_def)
  then obtain s2 where s2: "prepareChangedSymbols E V (spr_codeSymbols prog) ?hs provider s1 = (Inr (changed, ?hs), s2)"
      "st_db s2 = st_db s1"
    using prepare_run [OF assms(1), of V "spr_codeSymbols prog" ?hs provider s1] by auto
  have fill: "embedding_or_default V c = cds_Embedding c" if c: "c \<in> set changed" for c
  proof -
    obtain c' where "c = filled V c'" using c changed by (auto simp: symbols_to_store_def split: sum.splits)
    then have "filled V c = c" by simp
    then show ?thesis by (metis CodeSymbol.select_convs(9) CodeSymbol.surjective CodeSymbol.update_convs(9) filled_def)
  qed
  let ?tx = "storeProgramTx E V X prog (packageImportEdges (se_now E (st_n s1)) (spr_Packages prog)) changed ?hs"
  have "\<exists>u t. ensureVectorTableForSymbols E V X changed s2 = (Inr (), u) \<and> InTransaction E ?tx u = (Inr (), t)"
  proof (cases "0 < symbols_dimension V changed")
    case True
    let ?n = "symbols_dimension V changed"
    obtain u where u: "ensureVectorTableForSymbols E V X changed s2 = (Inr (), u)" "has_table ?n (st_db u)"
      using succeedsD [OF succeeds_ensureVectorTable [OF assms(1,4) True, of V], of s2] s1 s2 True
      by (auto simp: ensureVectorTableForSymbols_def)
    have "succeeds (has_table ?n) ?tx (\<lambda>_. has_table ?n)"
      using dims fill
      by (intro succeeds_storeProgramTx succeeds_upsertSymbolsTx assms(1,4) True has_table_upserts) auto
    then show ?thesis using u succeedsD [OF succeeds_InTransaction [OF assms(1)], of _ ?tx _ u] by (metis (full_types) old.unit.exhaust)
  next
    case False
    have "0 \<le> symbols_dimension V changed" by (induction changed) simp_all
    with False have zero: "symbols_dimension V changed = 0" by simp
    then have "\<forall>c\<in>set changed. decodeEmbedding V (embedding_or_default V c) = []" using dims fill by simp
    then have "succeeds (\<lambda>_. True) ?tx (\<lambda>_ _. True)"
      by (intro succeeds_storeProgramTx succeeds_no_vectors assms(1)) simp_all
    then obtain t where "InTransaction E ?tx s2 = (Inr (), t)"
      using succeedsD [OF succeeds_InTransaction [OF assms(1)], of _ ?tx _ s2] by (metis (full_types) old.unit.exhaust)
    then show ?thesis using zero by (simp add: ensureVectorTableForSymbols_def retA_def)
  qed
  then show ?thesis
    using s1 s2 config by (auto simp: ShadowStoreProgram_def thenA_def bindA_def clockA_def liftA_def)
qed

end
