(* ===== verification/Store_Reads.thy ===== *)
theory Store_Reads
  imports Store_Runs
begin

text \<open>
  What the store promises its readers: the properties of \<^verbatim>\<open>ShadowStoreProgram\<close>, the imports
  and the gRPC endpoints read back, and the sample runs that witness them.
\<close>

section \<open>Samples\<close>

definition bare_store_config :: "int config_env" where
  "bare_store_config = sample_config_env\<lparr>ev_exists := (\<lambda>_. False), ev_ReadFile := (\<lambda>_. Inl NotExist)\<rparr>"

definition offline :: "int embed_env" where
  "offline = \<lparr>xe_ctxErr = None, xe_Getenv = (\<lambda>_. ''''), xe_Do = (\<lambda>_ _ _ _ _. Inl ''offline'')\<rparr>"

definition sample_vectors :: "int vector_ops" where
  "sample_vectors = \<lparr>vo_float = sample_floats, vo_sqrt = (\<lambda>x. x), vo_bits = (\<lambda>x. word_of_int x), vo_frombits = sint\<rparr>"

definition sample_engine :: "int vec_engine" where
  "sample_engine = \<lparr>ve_json = (\<lambda>v. Inr (Join '','' (map Itoa v))), ve_rejects = (\<lambda>_ _. None),
     ve_match = (\<lambda>rows _ k. Inr (take (nat k) (map fst rows)))\<rparr>"

definition working :: store_env where
  "working = \<lparr>se_fails = (\<lambda>_. None), se_now = (\<lambda>_. 5), se_ensure = None, se_open = None\<rparr>"

definition sample_symbol :: CodeSymbol where
  "sample_symbol = \<lparr>cds_ID = ''app.F'', cds_Type = ''function'', cds_PackagePath = ''app'', cds_Name = ''F'',
     cds_FilePath = ''a.go'', cds_LineStart = 3, cds_LineEnd = 4, cds_Source = ''func F()'', cds_Embedding = []\<rparr>"

definition stored_sample :: "int stored_program" where
  "stored_sample = \<lparr>
     spr_Packages = [None, Some \<lparr>egp_PkgPath = ''app'', egp_Name = ''app'', egp_Imports = [(''fmt'', None), (''app/db'', Some (''app/db'', ''db''))]\<rparr>],
     spr_fileMetas = [\<lparr>fmt_Path = ''/w/a.go'', fmt_Hash = ''h'', fmt_Module = ''app'', fmt_Package = ''app'', fmt_Size = 9,
        fmt_ModifiedAt = 1, fmt_IndexedAt = 2, fmt_LastBuildSSAAt = 0\<rparr>],
     spr_complexityMetrics = [], spr_httpRoutes = [], spr_grpcEndpoints = [], spr_grpcRegistrations = [],
     spr_codeSymbols = [sample_symbol],
     spr_symbolHashes = [symbolHashForCodeSymbol (\<lambda>s. s) sample_symbol 4]\<rparr>"

definition fresh_store :: "int db store" where
  "fresh_store = \<lparr>st_db = empty_db, st_n = 0\<rparr>"

lemma sample_provider:
  "\<exists>config. EffectiveWorkspaceConfig sample_floats bare_store_config ''/w'' = Inr config
    \<and> NewEmbeddingProviderFromConfig offline sample_floats (wc_Embeddings config) = Inr None"
proof -
  have files: "loadOptionalWorkspaceConfigWithRaw sample_floats bare_store_config path = Inr (noWorkspaceConfig sample_floats, False)" for path
    by (simp add: loadOptionalWorkspaceConfigWithRaw_def bare_store_config_def)
  have no_file: "pathExists (ev_exists bare_store_config) path = False" for path
    by (simp add: pathExists_def bare_store_config_def)
  have normal: "wc_Embeddings (normalizeWorkspaceConfig c) = normalizeEmbeddings (wc_Embeddings c)" for c :: "int WorkspaceConfig"
    by (simp add: normalizeWorkspaceConfig_def Let_def)
  have suggested: "\<exists>base. SuggestWorkspaceConfig sample_floats bare_store_config ''/w'' = Inr base
      \<and> wc_Embeddings base = normalizeEmbeddings (wc_Embeddings (noWorkspaceConfig sample_floats))"
    by (simp add: SuggestWorkspaceConfig_def no_file normal Let_def)
  then obtain c where c: "EffectiveWorkspaceConfig sample_floats bare_store_config ''/w'' = Inr c"
      "wc_Embeddings c = normalizeEmbeddings (normalizeEmbeddings (wc_Embeddings (noWorkspaceConfig sample_floats)))"
    by (auto simp: EffectiveWorkspaceConfig_def effectiveWorkspaceConfigWithSources_def files normal Let_def)
  have "\<not> hasExplicitEmbeddingsProviderConfig
      (normalizeEmbeddings (normalizeEmbeddings (wc_Embeddings (noWorkspaceConfig sample_floats))))"
    by code_simp
  then show ?thesis using c by (auto simp: NewEmbeddingProviderFromConfig_def)
qed

lemma working_facts [simp]:
  "never_fails working" "se_now working n = 5" "se_ensure working = None" "se_open working = None"
  by (simp_all add: working_def never_fails_def)

lemma sample_changed:
  "symbols_to_store sample_vectors None (st_db fresh_store) (spr_codeSymbols stored_sample) (spr_symbolHashes stored_sample)
   = Inr [filled sample_vectors sample_symbol]"
  by (simp add: symbols_to_store_def applySymbolEmbeddings_def stale_ids_def is_stale_def stored_hash_def
      withEmbeddingVersion_def stored_sample_def fresh_store_def empty_db_def symbolHashForCodeSymbol_def)

lemma sample_vector:
  "length (decodeEmbedding V (cds_Embedding (filled V sample_symbol))) = 16"
  using length_deterministicEmbedding [of V "cds_Source sample_symbol" 16]
  by (simp add: filled_def embedding_or_default_def sample_symbol_def decode_encoded_vector)

lemma sample_dimension: "symbols_dimension V [filled V sample_symbol] = 16"
  using sample_vector [of V] by simp

lemma sample_store: "store_inv (st_db fresh_store)" "index_ok (st_db fresh_store)" "accepts sample_engine"
  by (simp_all add: fresh_store_def inv_empty accepts_def sample_engine_def)
    (simp add: index_ok_def empty_db_def stored_dimension_def)

lemma sample_run:
  "\<exists>t. ShadowStoreProgram working bare_store_config offline sample_vectors sample_engine ''/w'' (Some stored_sample) fresh_store
    = (Inr (), t)"
proof -
  obtain config where "EffectiveWorkspaceConfig (vo_float sample_vectors) bare_store_config ''/w'' = Inr config"
      "NewEmbeddingProviderFromConfig offline (vo_float sample_vectors) (wc_Embeddings config) = Inr None"
    using sample_provider by (auto simp: sample_vectors_def)
  then show ?thesis
    by (rule shadow_store_runs [OF working_facts(1,3,4) sample_store(3,1,2) _ _ sample_changed])
      (simp add: sample_dimension sample_vector)
qed

lemma sample_hashes: "\<forall>h\<in>set (spr_symbolHashes stored_sample). smh_CreatedAt h \<noteq> 0"
    "distinct (map smh_SymbolID (spr_symbolHashes stored_sample))"
  by (simp_all add: stored_sample_def symbolHashForCodeSymbol_def)

section \<open>Storing a program\<close>

text \<open>
  C8: storing cannot fail by itself: when the engine refuses no statement and takes the vectors
  of its table's dimension, the configuration and the provider are there, and all vectors have the
  dimension of the first, the program is stored, whatever the (well-formed) store held before.
\<close>

theorem shadow_store_succeeds:
  fixes X :: "'f vec_engine"
  assumes "never_fails E" "se_ensure E = None" "se_open E = None" "accepts X"
    and "store_inv (st_db s)" "index_ok (st_db s)"
    and "EffectiveWorkspaceConfig (vo_float V) C root = Inr config"
      "NewEmbeddingProviderFromConfig N (vo_float V) (wc_Embeddings config) = Inr provider"
    and "symbols_to_store V provider (st_db s) (spr_codeSymbols prog) (spr_symbolHashes prog) = Inr changed"
    and "\<forall>c\<in>set changed. length (decodeEmbedding V (cds_Embedding c)) \<in> {0, nat (symbols_dimension V changed)}"
  shows "\<exists>t. ShadowStoreProgram E C N V X root (Some prog) s = (Inr (), t)"
  using assms by (rule shadow_store_runs)

theorem shadow_store_succeeds_witness:
  "\<exists>t. ShadowStoreProgram working bare_store_config offline sample_vectors sample_engine ''/w'' (Some stored_sample) fresh_store
    = (Inr (), t)"
proof -
  obtain config where "EffectiveWorkspaceConfig (vo_float sample_vectors) bare_store_config ''/w'' = Inr config"
      "NewEmbeddingProviderFromConfig offline (vo_float sample_vectors) (wc_Embeddings config) = Inr None"
    using sample_provider by (auto simp: sample_vectors_def)
  then show ?thesis
    by (rule shadow_store_succeeds [OF working_facts(1,3,4) sample_store(3,1,2) _ _ sample_changed])
      (simp add: sample_dimension sample_vector)
qed





section \<open>Reading the imports back\<close>

lemma import_edge_stored:
  assumes "overlaid edge_key7 (packageImportEdges now pkgs) old new"
    and "Some p \<in> set pkgs" "egp_PkgPath p \<noteq> ''''" "i \<in> set (egp_Imports p)" "import_target_path i \<noteq> ''''"
  shows "\<exists>e\<in>set new. aed_SourcePath e = egp_PkgPath p \<and> aed_TargetPath e = import_target_path i \<and> aed_EdgeType e = ''imports''"
proof -
  let ?imports = "filter (\<lambda>i. import_target_path i \<noteq> '''') (egp_Imports p)"
  have "import_target_path i \<in> import_target_path ` set (dedup_by import_target_path ?imports)"
    using assms(4,5) by (simp del: set_map)
  then obtain i' where i': "import_target_path i = import_target_path i'" "i' \<in> set (dedup_by import_target_path ?imports)"
    by (rule imageE)
  let ?loaded = "filter (\<lambda>p. egp_PkgPath p \<noteq> '''') (map the (filter (\<lambda>p. p \<noteq> None) pkgs))"
  define e where "e = import_edge (set (map egp_PkgPath ?loaded)) now p i'"
  have "p \<in> set ?loaded" using assms(2,3) by force
  then have batch: "e \<in> set (packageImportEdges now pkgs)"
    using i'(2) unfolding packageImportEdges_def Let_def e_def by auto
  then have "edge_key7 e \<in> edge_key7 ` set (rev (packageImportEdges now pkgs))" by simp
  then obtain r where r: "row_of edge_key7 (rev (packageImportEdges now pkgs)) (edge_key7 e) = Some r"
    using row_of_None by (metis option.exhaust)
  then have "row_of edge_key7 new (edge_key7 e) = Some r" using assms(1) by (simp add: overlaid_def)
  then have "r \<in> set new" "edge_key7 r = edge_key7 e" using row_of_Some by metis+
  then show ?thesis using i'(1) by (auto simp: edge_key7_def e_def import_edge_def Let_def)
qed

lemma dependency_row:
  assumes "e \<in> set (db_edges d)" "aed_EdgeType e = ''imports''" "aed_SourcePath e \<noteq> ''''"
  shows "\<exists>imports. (aed_SourcePath e, imports) \<in> set (dependencyRows includeStdlib (known_packages d) (import_rows d))
    \<and> (import_target e \<in> set imports \<or> \<not> includeStdlib \<and> isStdlib (import_target e))"
proof -
  let ?deps = "map snd (filter (\<lambda>r. fst r \<noteq> '''' \<and> fst r = aed_SourcePath e) (import_rows d))"
  let ?kept = "\<lambda>imp. \<not> (\<not> includeStdlib \<and> imp \<notin> set (map fst (import_rows d)) \<and> isStdlib imp)"
  have "aed_SourcePath e \<in> set (known_packages d)" using assms by (auto simp: known_packages_def)
  then have "(aed_SourcePath e, sort (dedup (filter ?kept ?deps))) \<in> set (dependencyRows includeStdlib (known_packages d) (import_rows d))"
    by (auto simp: dependencyRows_def Let_def)
  moreover have "import_target e \<in> set ?deps"
    using assms by (force simp: import_rows_def)
  ultimately show ?thesis by (intro exI [of _ "sort (dedup (filter ?kept ?deps))"]) auto
qed

lemma insert_by_head: "(\<And>y. y \<in> set ys \<Longrightarrow> \<not> lt y x) \<Longrightarrow> insert_by lt x ys = x # ys"
  by (cases ys) auto

lemma rows_in_order: "sorted_wrt (<) (map fst (dependencyRows includeStdlib (known_packages d) edgeRows))"
proof -
  have ps: "sorted_wrt (<) (known_packages d)" by (simp add: known_packages_def strict_sorted_sort)
  have "sort_slice (\<lambda>a b. fst a < fst b) (map (\<lambda>pkg. (pkg, f pkg)) ps) = map (\<lambda>pkg. (pkg, f pkg)) ps"
    if "sorted_wrt (<) ps" for ps :: "string list" and f :: "string \<Rightarrow> string list"
    using that
  proof (induction ps)
    case (Cons a ps)
    then have "insert_by (\<lambda>a b. fst a < fst b) (a, f a) (map (\<lambda>pkg. (pkg, f pkg)) ps)
        = (a, f a) # map (\<lambda>pkg. (pkg, f pkg)) ps"
      by (intro insert_by_head) (auto dest: less_not_sym)
    then show ?case using Cons by simp
  qed simp
  then show ?thesis using ps by (simp add: dependencyRows_def Let_def comp_def)
qed

text \<open>
  After a program was stored, the dependency query answers for every package of it: its row
  lists every import of the package, the standard library left out on request; the rows come in
  the order of the packages, one for each.
\<close>

theorem stored_imports_complete:
  fixes V :: "'f vector_ops"
  assumes "never_fails E" "\<forall>n. se_now E n \<noteq> 0" "\<forall>h\<in>set (spr_symbolHashes prog). smh_CreatedAt h \<noteq> 0"
    and "ShadowStoreProgram E C N V X root (Some prog) s = (Inr (), t)"
    and "GetPackageDependencies E' includeStdlib s' = (Inr rows, u)" "st_db s' = st_db t"
    and "Some p \<in> set (spr_Packages prog)" "egp_PkgPath p \<noteq> ''''"
  shows "sorted_wrt (<) (map fst rows)
    \<and> (\<forall>i\<in>set (egp_Imports p). import_target_path i = '''' \<or> (\<exists>imports. (egp_PkgPath p, imports) \<in> set rows
        \<and> (import_target_path i \<in> set imports \<or> \<not> includeStdlib \<and> isStdlib (import_target_path i))))"
proof -
  obtain now and provider :: "'f EmbeddingProvider option" and changed where "content (st_db t) = program_content V prog (packageImportEdges now (spr_Packages prog)) changed
        (withEmbeddingVersion (spr_symbolHashes prog) (embeddingVersionForProvider provider)) (content (st_db s))"
    using shadow_store_content [OF assms(1-4)] by blast
  then have edges: "overlaid edge_key7 (packageImportEdges now (spr_Packages prog)) (db_edges (st_db s)) (db_edges (st_db t))"
    using content_fields by blast
  have rows: "rows = dependencyRows includeStdlib (known_packages (st_db t)) (import_rows (st_db t))"
    using assms(5,6) by (auto simp: GetPackageDependencies_def action_simps dest!: queryA_ok)
  have "\<exists>imports. (egp_PkgPath p, imports) \<in> set rows
      \<and> (import_target_path i \<in> set imports \<or> \<not> includeStdlib \<and> isStdlib (import_target_path i))"
    if i: "i \<in> set (egp_Imports p)" "import_target_path i \<noteq> ''''" for i
  proof -
    obtain e where e: "e \<in> set (db_edges (st_db t))" "aed_SourcePath e = egp_PkgPath p"
        "aed_TargetPath e = import_target_path i" "aed_EdgeType e = ''imports''"
      using import_edge_stored [OF edges assms(7,8) i] by blast
    then show ?thesis
      using dependency_row [OF e(1,4), of includeStdlib] assms(8) i(2) by (simp add: rows import_target_def)
  qed
  then show ?thesis using rows_in_order by (auto simp: rows)
qed

theorem stored_imports_complete_witness:
  "\<exists>rows imports. (''app'', imports) \<in> set (rows :: (string \<times> string list) list) \<and> ''app/db'' \<in> set imports"
proof -
  obtain t where t: "ShadowStoreProgram working bare_store_config offline sample_vectors sample_engine ''/w''
      (Some stored_sample) fresh_store = (Inr (), t)"
    using sample_run by blast
  define p where "p = the (spr_Packages stored_sample ! 1)"
  have p: "Some p \<in> set (spr_Packages stored_sample)" "egp_PkgPath p \<noteq> ''''" "egp_PkgPath p = ''app''"
      "(''app/db'', Some (''app/db'', ''db'')) \<in> set (egp_Imports p)"
    by (simp_all add: p_def stored_sample_def)
  have target: "import_target_path (''app/db'', Some (''app/db'', ''db'')) = ''app/db''" by code_simp
  have std: "\<not> isStdlib ''app/db''" by code_simp
  obtain rows u where "GetPackageDependencies working False t = (Inr rows, u)"
    by (auto simp: GetPackageDependencies_def bindA_def queryA_run retA_def)
  from stored_imports_complete [OF working_facts(1) _ sample_hashes(1) t this refl p(1,2)]
  show ?thesis using p(3,4) target std by fastforce
qed

end
