(* ===== verification/Go_Literals.thy ===== *)
theory Go_Literals
  imports Embeddings
begin

text \<open>
  Literals of Go source: the bytes of a code point (\<^verbatim>\<open>utf8.AppendRune\<close>) and
  \<^verbatim>\<open>strconv.Unquote\<close> for the two kinds of string literals.
\<close>

section \<open>Code points\<close>

definition rune_bytes :: "nat \<Rightarrow> string" where
  "rune_bytes r =
     (let r = (if 0xD800 \<le> r \<and> r \<le> 0xDFFF \<or> r > 0x10FFFF then 0xFFFD else r)
      in map char_of
        (if r < 0x80 then [r]
         else if r < 0x800 then [0xC0 + r div 64, 0x80 + r mod 64]
         else if r < 0x10000 then [0xE0 + r div 4096, 0x80 + r div 64 mod 64, 0x80 + r mod 64]
         else [0xF0 + r div 262144, 0x80 + r div 4096 mod 64, 0x80 + r div 64 mod 64, 0x80 + r mod 64]))"

definition hex_value :: "char \<Rightarrow> nat option" where
  "hex_value c =
     (let n = of_char c :: nat
      in if 48 \<le> n \<and> n \<le> 57 then Some (n - 48)
         else if 97 \<le> n \<and> n \<le> 102 then Some (n - 87)
         else if 65 \<le> n \<and> n \<le> 70 then Some (n - 55) else None)"

text \<open>The number written by digits in a base, at most \<^verbatim>\<open>max\<close> of them.\<close>

fun digits_value :: "nat \<Rightarrow> nat \<Rightarrow> string \<Rightarrow> nat option" where
  "digits_value base acc [] = Some acc"
| "digits_value base acc (c # s) =
     (case hex_value c of None \<Rightarrow> None | Some v \<Rightarrow> if v < base then digits_value base (acc * base + v) s else None)"

definition numeric_escape :: "nat \<Rightarrow> nat \<Rightarrow> string \<Rightarrow> (nat \<times> string) option" where
  "numeric_escape base n s =
     (if length s < n then None
      else map_option (\<lambda>v. (v, drop n s)) (digits_value base 0 (take n s)))"

definition rune_escape :: "nat \<Rightarrow> string \<Rightarrow> (string \<times> string) option" where
  "rune_escape n s =
     (case numeric_escape 16 n s of
        None \<Rightarrow> None
      | Some (r, t) \<Rightarrow> if 0xD800 \<le> r \<and> r \<le> 0xDFFF \<or> r > 0x10FFFF then None else Some (rune_bytes r, t))"

definition byte_escape :: "nat \<Rightarrow> nat \<Rightarrow> string \<Rightarrow> (string \<times> string) option" where
  "byte_escape base n s =
     (case numeric_escape base n s of
        None \<Rightarrow> None
      | Some (v, t) \<Rightarrow> if v > 255 then None else Some ([char_of v], t))"

text \<open>\<^verbatim>\<open>strconv.UnquoteChar\<close> for a double quote, after the backslash: the bytes and the rest.\<close>

definition simple_escapes :: "(char \<times> char) list" where
  "simple_escapes = [(CHR ''a'', CHR 0x07), (CHR ''b'', CHR 0x08), (CHR ''f'', CHR 0x0C), (CHR ''n'', CHR 0x0A),
     (CHR ''r'', CHR 0x0D), (CHR ''t'', CHR 0x09), (CHR ''v'', CHR 0x0B), (CHR 0x5C, CHR 0x5C), (CHR 0x22, CHR 0x22)]"

definition escape :: "char \<Rightarrow> string \<Rightarrow> (string \<times> string) option" where
  "escape c s =
     (case map_of simple_escapes c of
        Some b \<Rightarrow> Some ([b], s)
      | None \<Rightarrow>
          if c = CHR ''x'' then byte_escape 16 2 s
          else if c = CHR ''u'' then rune_escape 4 s
          else if c = CHR ''U'' then rune_escape 8 s
          else if c \<in> set ''01234567'' then byte_escape 8 3 (c # s)
          else None)"

lemma numeric_escape_shorter: "numeric_escape b n s = Some (v, t) \<Longrightarrow> length t = length s - n"
  by (auto simp: numeric_escape_def split: if_splits)

lemma rune_escape_shorter: "rune_escape n s = Some (b, t) \<Longrightarrow> length t = length s - n"
  by (auto simp: rune_escape_def split: option.splits if_splits dest: numeric_escape_shorter)

lemma byte_escape_shorter: "byte_escape base n s = Some (b, t) \<Longrightarrow> length t = length s - n"
  by (auto simp: byte_escape_def split: option.splits if_splits dest: numeric_escape_shorter)

lemma escape_shorter:
  assumes "escape c s = Some (b, t)"
  shows "length t \<le> length s"
proof (cases "map_of simple_escapes c")
  case None
  then consider "byte_escape 16 2 s = Some (b, t)" | "rune_escape 4 s = Some (b, t)" | "rune_escape 8 s = Some (b, t)"
    | "byte_escape 8 3 (c # s) = Some (b, t)"
    using assms unfolding escape_def by (simp only: option.case split: if_splits) simp
  then show ?thesis by cases (auto dest!: rune_escape_shorter byte_escape_shorter)
qed (use assms in \<open>auto simp: escape_def\<close>)

function unescape :: "string \<Rightarrow> string option" where
  "unescape [] = Some []"
| "unescape (c # s) =
     (if c = CHR 0x22 \<or> c = CHR 0x0A then None
      else if c = CHR 0x5C then
        (case s of
           [] \<Rightarrow> None
         | e # s' \<Rightarrow> (case escape e s' of None \<Rightarrow> None | Some (b, s'') \<Rightarrow> map_option ((@) b) (unescape s'')))
      else if of_char c < (0x80 :: nat) then map_option ((#) c) (unescape s)
      else (let (r, w) = decode_rune (map of_char (c # s))
            in map_option ((@) (rune_bytes r)) (unescape (drop (w - 1) s))))"
  by pat_completeness auto
termination
  by (relation "measure length") (auto dest: escape_shorter)

definition Unquote :: "string \<Rightarrow> string option" where
  "Unquote v =
     (if length v < 2 \<or> last v \<noteq> hd v then None
      else let s = butlast (tl v)
           in if hd v = CHR 0x60 then
                (if CHR 0x60 \<in> set s then None else Some (filter (\<lambda>c. c \<noteq> CHR 0x0D) s))
              else if hd v = CHR 0x22 then unescape s
              else None)"

text \<open>A literal is a string when it starts with a quote or a back quote.\<close>

definition stringLit :: "string \<Rightarrow> bool" where
  "stringLit v \<longleftrightarrow> v \<noteq> '''' \<and> hd v \<in> {CHR 0x22, CHR 0x60}"

end
