(* ===== verification/Http_Routes.thy ===== *)
theory Http_Routes
  imports Go_Inspect Go_Literals Store
begin

text \<open>
  \<^verbatim>\<open>analyzer/http_routes.go\<close>: the routes a program registers, found in its syntax when it is
  loaded and listed from the store. What the type checker knows of the operand of a selector is
  part of the file; the package path of a named type is a parameter.
\<close>

record syntax_package =
  sxp_PkgPath :: string
  sxp_Fset :: bool
  sxp_TypesInfo :: bool
  sxp_Syntax :: "go_file list"

record HTTPRoutesResult =
  rr_Routes :: "HTTPRoute list"
  rr_Total :: int
  rr_Offset :: int
  rr_Limit :: int
  rr_MaxItems :: int
  rr_ChunkSize :: int
  rr_NextCursor :: string
  rr_HasMore :: bool
  rr_TotalBeforeTruncate :: int
  rr_Truncated :: bool

section \<open>Finding routes\<close>

definition routeMethod :: "string \<Rightarrow> string option" where
  "routeMethod = map_of [(''HandleFunc'', ''ANY''), (''Handle'', ''ANY''), (''GET'', ''GET''), (''POST'', ''POST''),
     (''PUT'', ''PUT''), (''PATCH'', ''PATCH''), (''DELETE'', ''DELETE''), (''HEAD'', ''HEAD''), (''OPTIONS'', ''OPTIONS''),
     (''CONNECT'', ''CONNECT''), (''TRACE'', ''TRACE''), (''ANY'', ''ANY''), (''Get'', ''GET''), (''Post'', ''POST''),
     (''Put'', ''PUT''), (''Patch'', ''PATCH''), (''Delete'', ''DELETE''), (''Head'', ''HEAD''), (''Options'', ''OPTIONS''),
     (''Connect'', ''CONNECT''), (''Any'', ''ANY''), (''All'', ''ANY'')]"

definition handlerExprName :: "expr \<Rightarrow> string" where
  "handlerExprName e =
     (case e of
        Ident name \<Rightarrow> name
      | SelectorExpr x sel \<Rightarrow> (case x of Ident recv \<Rightarrow> recv @ ''.'' @ the sel | _ \<Rightarrow> the sel)
      | FuncLit _ _ \<Rightarrow> ''<inline>''
      | _ \<Rightarrow> ''<unknown>'')"

definition frameworkOfPackage :: "string \<Rightarrow> string" where
  "frameworkOfPackage p =
     (if p = ''net/http'' \<or> HasPrefix p ''net/http/'' then ''net/http''
      else if HasPrefix p ''github.com/labstack/echo'' then ''echo''
      else if HasPrefix p ''github.com/gofiber/fiber'' then ''fiber''
      else if HasPrefix p ''github.com/valyala/fasthttp'' \<or> HasPrefix p ''github.com/fasthttp/router'' then ''fasthttp''
      else if HasPrefix p ''github.com/go-chi/chi'' then ''chi''
      else if HasPrefix p ''github.com/gin-gonic/gin'' then ''gin''
      else if HasPrefix p ''github.com/gorilla/mux'' then ''gorilla/mux''
      else '''')"

text \<open>
  The first argument is the type of the receiver, \<open>None\<close> when nothing is known of it; the path
  of a type declared in no package (\<^verbatim>\<open>error\<close>) is empty.
\<close>

definition frameworkFromTypes :: "(nat \<Rightarrow> string) \<Rightarrow> gotype option \<Rightarrow> string" where
  "frameworkFromTypes packageOf t =
     (case t of
        None \<Rightarrow> ''''
      | Some t \<Rightarrow>
          (case (case t of TPointer elem \<Rightarrow> elem | _ \<Rightarrow> t) of
             TNamed n \<Rightarrow> frameworkOfPackage (packageOf n)
           | _ \<Rightarrow> ''''))"

definition inferFrameworkHeuristic :: "expr \<Rightarrow> string \<Rightarrow> string" where
  "inferFrameworkHeuristic x method =
     (if method \<in> {''HandleFunc'', ''Handle''} then
        (case x of
           Ident recv \<Rightarrow>
             let name = ToLower recv
             in if name = ''http'' then ''net/http''
                else if Contains name ''mux'' \<or> Contains name ''router'' then ''gorilla/mux'' else ''net/http''
         | _ \<Rightarrow> ''net/http'')
      else if method = ''All'' then ''fiber''
      else if method = ''ANY'' then ''fasthttp''
      else if method = ''Any'' then ''echo''
      else if method \<in> {''Connect'', ''Trace''} then ''echo''
      else if method \<in> {''GET'', ''POST'', ''PUT'', ''PATCH'', ''DELETE'', ''HEAD'', ''OPTIONS'', ''CONNECT'', ''TRACE''} then ''gin''
      else if method \<in> {''Get'', ''Post'', ''Put'', ''Patch'', ''Delete'', ''Head'', ''Options''} then ''chi''
      else ''unknown'')"

definition inferFramework :: "(nat \<Rightarrow> string) \<Rightarrow> gotype option \<Rightarrow> expr \<Rightarrow> string \<Rightarrow> string" where
  "inferFramework packageOf t x method =
     (let fw = frameworkFromTypes packageOf t in if fw \<noteq> '''' then fw else inferFrameworkHeuristic x method)"

definition extractHTTPRoute ::
  "(nat \<Rightarrow> string) \<Rightarrow> bool \<Rightarrow> go_file \<Rightarrow> nat \<times> expr \<times> expr list \<Rightarrow> HTTPRoute option" where
  "extractHTTPRoute packageOf typed file c =
     (case c of (k, f, args) \<Rightarrow>
        case f of
          SelectorExpr x (Some sel) \<Rightarrow>
            (case routeMethod sel of
               None \<Rightarrow> None
             | Some method \<Rightarrow>
                 (case args of
                    BasicLit v # handlerArg # _ \<Rightarrow>
                      if \<not> stringLit v then None
                      else let handler = handlerExprName handlerArg; (filename, line) = gof_Pos file k
                           in Some \<lparr>hrt_Method = method, hrt_Path = Trim v [CHR 0x22], hrt_Handler = handler,
                                hrt_Framework = inferFramework packageOf (if typed then gof_RecvType file k else None) x sel,
                                hrt_File = filename, hrt_Line = line, hrt_Anchor = contextAnchor filename line handler\<rparr>
                  | _ \<Rightarrow> None))
        | _ \<Rightarrow> None)"

definition extractRoutesFromSyntax :: "(nat \<Rightarrow> string) \<Rightarrow> syntax_package list \<Rightarrow> HTTPRoute list" where
  "extractRoutesFromSyntax packageOf pkgs =
     concat (map (\<lambda>pkg. concat (map (\<lambda>file.
         List.map_filter (extractHTTPRoute packageOf (sxp_TypesInfo pkg) file) (calls file)) (sxp_Syntax pkg)))
       (filter (\<lambda>pkg. sxp_Fset pkg \<and> length (sxp_Syntax pkg) \<noteq> 0) pkgs))"

section \<open>Listing routes\<close>

definition route_of_row :: "HTTPRouteRow \<Rightarrow> HTTPRoute" where
  "route_of_row row =
     \<lparr>hrt_Method = hrr_Method row, hrt_Path = hrr_Path row, hrt_Handler = hrr_Handler row,
      hrt_Framework = hrr_Framework row, hrt_File = hrr_File row, hrt_Line = hrr_Line row,
      hrt_Anchor = contextAnchor (hrr_File row) (hrr_Line row) (hrr_Path row)\<rparr>"

definition route_less :: "HTTPRoute \<Rightarrow> HTTPRoute \<Rightarrow> bool" where
  "route_less a b =
     (if hrt_Path a \<noteq> hrt_Path b then hrt_Path a < hrt_Path b
      else if hrt_Method a \<noteq> hrt_Method b then hrt_Method a < hrt_Method b
      else hrt_File a < hrt_File b)"

definition httpRouteKey :: "HTTPRoute \<Rightarrow> string" where
  "httpRouteKey r = hrt_Method r @ ''|'' @ hrt_Path r @ ''|'' @ hrt_Framework r @ ''|'' @ hrt_Handler r @ ''|''
     @ hrt_File r @ '':'' @ Itoa (hrt_Line r)"

definition httpRouteBoundaryKeys :: "HTTPRoute list \<Rightarrow> string \<times> string" where
  "httpRouteBoundaryKeys routes =
     (if routes = [] then ('''', '''') else (httpRouteKey (hd routes), httpRouteKey (last routes)))"

definition pageRoutes :: "paging \<Rightarrow> string \<Rightarrow> QueryOptions \<Rightarrow> HTTPRoute list \<Rightarrow> stream_error + HTTPRoutesResult" where
  "pageRoutes pg ident opts routes =
     (let tot = int (length routes);
          routes = (if qo_MaxItems opts > 0 \<and> tot > qo_MaxItems opts then take (nat (qo_MaxItems opts)) routes else routes);
          result = \<lparr>rr_Routes = [], rr_Total = tot, rr_Offset = 0, rr_Limit = 0, rr_MaxItems = 0, rr_ChunkSize = 0,
             rr_NextCursor = '''', rr_HasMore = False, rr_TotalBeforeTruncate = tot, rr_Truncated = False\<rparr>
      in if qo_ChunkSize opts > 0 then
           (let (firstKey, lastKey) = httpRouteBoundaryKeys routes
            in case applyStreamWindow (pg_env pg) (pg_sha256 pg) (pg_unmarshal pg) routes ident firstKey lastKey
                   (qo_Cursor opts) (qo_ChunkSize opts) of
                 Inl e \<Rightarrow> Inl e
               | Inr ch \<Rightarrow> Inr (result\<lparr>rr_ChunkSize := clampChunkSize (pg_env pg) (qo_ChunkSize opts),
                   rr_Routes := ch_items ch, rr_NextCursor := ch_next ch, rr_HasMore := ch_more ch,
                   rr_Truncated := (ch_more ch \<or> qo_Cursor opts \<noteq> '''')\<rparr>))
         else
           (let (page, _, truncated) = applyQueryWindow (pg_env pg) routes opts
            in Inr (result\<lparr>rr_Offset := qo_Offset opts, rr_Limit := qo_Limit opts, rr_MaxItems := qo_MaxItems opts,
                 rr_Routes := page, rr_Truncated := truncated\<rparr>)))"

definition ListHTTPRoutesWithOptions ::
  "paging \<Rightarrow> store_env \<Rightarrow> string + unit \<Rightarrow> string \<Rightarrow> string \<Rightarrow> QueryOptions
   \<Rightarrow> ('f db, stream_error + HTTPRoutesResult) action" where
  "ListHTTPRoutesWithOptions pg E loaded dir pattern opts =
     (case loaded of
        Inl e \<Rightarrow> failA (''loading packages: '' @ e)
      | Inr _ \<Rightarrow>
          thenA (OpenWorkspaceStore E) (bindA (GetHTTPRoutes E) (\<lambda>rows.
            retA (pageRoutes pg (''http_routes:'' @ dir @ ''|'' @ pattern) opts (sort_slice route_less (map route_of_row rows))))))"

definition ListHTTPRoutes ::
  "paging \<Rightarrow> store_env \<Rightarrow> string + unit \<Rightarrow> string \<Rightarrow> string \<Rightarrow> ('f db, stream_error + HTTPRoutesResult) action" where
  "ListHTTPRoutes pg E loaded dir pattern =
     ListHTTPRoutesWithOptions pg E loaded dir pattern
       \<lparr>qo_Limit = 0, qo_Offset = 0, qo_MaxItems = 0, qo_Summary = False, qo_Cursor = '''', qo_ChunkSize = 0, qo_Export = ExportNone\<rparr>"

end
