(* ===== verification/Grpc.thy ===== *)
theory Grpc
  imports Http_Routes "HOL-Library.AList"
begin

text \<open>
  \<^verbatim>\<open>analyzer/grpc_endpoints.go\<close>: the services a program describes in generated
  \<^verbatim>\<open>grpc.ServiceDesc\<close> values, the calls that register implementations, and the endpoints that
  follow; then the listing from the store. A Go map is an association list; where the code
  ranges over it the result does not depend on the order.
\<close>

section \<open>Literals and expressions\<close>

definition stringLiteral :: "expr \<Rightarrow> string" where
  "stringLiteral e =
     (case e of
        BasicLit v \<Rightarrow> if \<not> stringLit v then '''' else (case Unquote v of None \<Rightarrow> Trim v [CHR 0x22] | Some t \<Rightarrow> t)
      | _ \<Rightarrow> '''')"

definition boolLiteral :: "expr \<Rightarrow> bool" where
  "boolLiteral e \<longleftrightarrow> e = Ident ''true''"

definition selectorName :: "expr \<Rightarrow> string" where
  "selectorName e =
     (case e of Ident name \<Rightarrow> name | SelectorExpr _ sel \<Rightarrow> (case sel of None \<Rightarrow> '''' | Some name \<Rightarrow> name) | _ \<Rightarrow> '''')"

definition grpcExprString :: "go_file \<Rightarrow> nat \<times> expr \<Rightarrow> string" where
  "grpcExprString file e = (if snd e = NilExpr then '''' else collapseWhitespace (gof_Print file (fst e)))"

text \<open>The elements of a composite literal, and the value of a keyed element, with their numbers.\<close>

definition elements :: "nat \<times> expr \<Rightarrow> (nat \<times> expr) list" where
  "elements e =
     (case snd e of CompositeLit t elts \<Rightarrow> numbered inspectExpr (fst e + 1 + length (inspectExpr t)) elts | _ \<Rightarrow> [])"

definition keyed :: "nat \<times> expr \<Rightarrow> (string \<times> nat \<times> expr) option" where
  "keyed e =
     (case snd e of
        KeyValueExpr k v \<Rightarrow> Some (identName k, fst e + 1 + length (inspectExpr k), v)
      | _ \<Rightarrow> None)"

section \<open>Service descriptors\<close>

record grpcMethodDesc =
  gmd_Name :: string
  gmd_Handler :: string
  gmd_RPCType :: string

record grpcServiceDesc =
  gsd_Name :: string
  gsd_Service :: string
  gsd_ServiceShortName :: string
  gsd_HandlerType :: string
  gsd_ProtoFile :: string
  gsd_Package :: string
  gsd_File :: string
  gsd_Line :: int
  gsd_Methods :: "grpcMethodDesc list"

definition grpcRPCType :: "bool \<Rightarrow> bool \<Rightarrow> string" where
  "grpcRPCType serverStreams clientStreams =
     (if serverStreams \<and> clientStreams then ''bidi_stream''
      else if serverStreams then ''server_stream''
      else if clientStreams then ''client_stream'' else ''unary'')"

definition grpcServiceShortName :: "string \<Rightarrow> string" where
  "grpcServiceShortName service = (if service = '''' then '''' else last (Split CHR ''.'' service))"

definition methodField :: "go_file \<Rightarrow> string \<times> nat \<times> expr \<Rightarrow> grpcMethodDesc \<Rightarrow> grpcMethodDesc" where
  "methodField file kv m =
     (if fst kv = ''MethodName'' then m\<lparr>gmd_Name := stringLiteral (snd (snd kv))\<rparr>
      else if fst kv = ''Handler'' then m\<lparr>gmd_Handler := grpcExprString file (snd kv)\<rparr> else m)"

definition is_composite :: "nat \<times> expr \<Rightarrow> bool" where
  "is_composite e = (case snd e of CompositeLit _ _ \<Rightarrow> True | _ \<Rightarrow> False)"

definition parseGRPCMethods :: "go_file \<Rightarrow> nat \<times> expr \<Rightarrow> grpcMethodDesc list" where
  "parseGRPCMethods file e =
     filter (\<lambda>m. gmd_Name m \<noteq> '''')
       (map (\<lambda>lit. fold (methodField file) (List.map_filter keyed (elements lit))
           \<lparr>gmd_Name = '''', gmd_Handler = '''', gmd_RPCType = ''unary''\<rparr>)
         (filter is_composite (elements e)))"

definition streamField ::
  "go_file \<Rightarrow> string \<times> nat \<times> expr \<Rightarrow> grpcMethodDesc \<times> bool \<times> bool \<Rightarrow> grpcMethodDesc \<times> bool \<times> bool" where
  "streamField file kv st =
     (case st of (m, server, client) \<Rightarrow>
        if fst kv = ''StreamName'' then (m\<lparr>gmd_Name := stringLiteral (snd (snd kv))\<rparr>, server, client)
        else if fst kv = ''Handler'' then (m\<lparr>gmd_Handler := grpcExprString file (snd kv)\<rparr>, server, client)
        else if fst kv = ''ServerStreams'' then (m, boolLiteral (snd (snd kv)), client)
        else if fst kv = ''ClientStreams'' then (m, server, boolLiteral (snd (snd kv)))
        else st)"

definition parseGRPCStreams :: "go_file \<Rightarrow> nat \<times> expr \<Rightarrow> grpcMethodDesc list" where
  "parseGRPCStreams file e =
     filter (\<lambda>m. gmd_Name m \<noteq> '''')
       (map (\<lambda>lit. case fold (streamField file) (List.map_filter keyed (elements lit))
             (\<lparr>gmd_Name = '''', gmd_Handler = '''', gmd_RPCType = ''''\<rparr>, False, False) of
           (m, server, client) \<Rightarrow> m\<lparr>gmd_RPCType := grpcRPCType server client\<rparr>)
         (filter is_composite (elements e)))"

definition serviceField :: "go_file \<Rightarrow> string \<times> nat \<times> expr \<Rightarrow> grpcServiceDesc \<Rightarrow> grpcServiceDesc" where
  "serviceField file kv s =
     (if fst kv = ''ServiceName'' then
        s\<lparr>gsd_Service := stringLiteral (snd (snd kv)),
          gsd_ServiceShortName := grpcServiceShortName (stringLiteral (snd (snd kv)))\<rparr>
      else if fst kv = ''HandlerType'' then s\<lparr>gsd_HandlerType := grpcExprString file (snd kv)\<rparr>
      else if fst kv = ''Metadata'' then s\<lparr>gsd_ProtoFile := stringLiteral (snd (snd kv))\<rparr>
      else if fst kv = ''Methods'' then s\<lparr>gsd_Methods := gsd_Methods s @ parseGRPCMethods file (snd kv)\<rparr>
      else if fst kv = ''Streams'' then s\<lparr>gsd_Methods := gsd_Methods s @ parseGRPCStreams file (snd kv)\<rparr>
      else s)"

definition parseGRPCServiceDesc :: "syntax_package \<Rightarrow> go_file \<Rightarrow> string \<Rightarrow> nat \<times> expr \<Rightarrow> grpcServiceDesc" where
  "parseGRPCServiceDesc pkg file descName lit =
     fold (serviceField file) (List.map_filter keyed (elements lit))
       \<lparr>gsd_Name = descName, gsd_Service = '''', gsd_ServiceShortName = '''', gsd_HandlerType = '''',
        gsd_ProtoFile = '''', gsd_Package = sxp_PkgPath pkg, gsd_File = fst (gof_Pos file (fst lit)),
        gsd_Line = snd (gof_Pos file (fst lit)), gsd_Methods = []\<rparr>"

fun isGRPCCompositeType :: "expr \<Rightarrow> string \<Rightarrow> bool" where
  "isGRPCCompositeType (SelectorExpr _ sel) name = (sel = Some name)"
| "isGRPCCompositeType (Ident x) name = (x = name)"
| "isGRPCCompositeType (ArrayType _ elt) name = isGRPCCompositeType elt name"
| "isGRPCCompositeType _ name = False"

definition grpcServiceDescKey :: "string \<Rightarrow> string \<Rightarrow> string" where
  "grpcServiceDescKey pkgPath descName = pkgPath @ ''|'' @ descName"

text \<open>One value of a variable declaration.\<close>

definition describeValue ::
  "syntax_package \<Rightarrow> go_file \<Rightarrow> string \<times> nat \<times> expr \<Rightarrow> (string \<times> grpcServiceDesc) list \<Rightarrow> (string \<times> grpcServiceDesc) list" where
  "describeValue pkg file nv services =
     (case snd (snd nv) of
        CompositeLit t _ \<Rightarrow>
          if \<not> isGRPCCompositeType t ''ServiceDesc'' then services
          else let service = parseGRPCServiceDesc pkg file (fst nv) (snd nv)
               in if gsd_Service service \<noteq> ''''
                  then AList.update (grpcServiceDescKey (sxp_PkgPath pkg) (gsd_Name service)) service services
                  else services
      | _ \<Rightarrow> services)"

definition specValues :: "nat \<times> spec \<Rightarrow> (string \<times> nat \<times> expr) list" where
  "specValues ns =
     (case snd ns of
        ValueSpec names t vs \<Rightarrow> zip names (numbered inspectExpr (fst ns + length (inspectExpr t)) vs)
      | _ \<Rightarrow> [])"

definition extractGRPCServiceDescsFromDecl ::
  "syntax_package \<Rightarrow> go_file \<Rightarrow> nat \<times> decl \<Rightarrow> (string \<times> grpcServiceDesc) list \<Rightarrow> (string \<times> grpcServiceDesc) list" where
  "extractGRPCServiceDescsFromDecl pkg file nd services =
     (case snd nd of
        GenDecl _ specs \<Rightarrow>
          fold (\<lambda>ns. fold (describeValue pkg file) (specValues ns)) (numbered inspectSpec (fst nd) specs) services
      | OtherDecl \<Rightarrow> services)"

section \<open>Registrations\<close>

definition isGRPCRegisterFuncName :: "string \<Rightarrow> bool" where
  "isGRPCRegisterFuncName name \<longleftrightarrow>
     HasPrefix name ''Register'' \<and> HasSuffix name ''Server'' \<and> length name > length ''RegisterServer''"

definition grpcRegisterFuncKey :: "string \<Rightarrow> string \<Rightarrow> string" where
  "grpcRegisterFuncKey pkgPath funcName = pkgPath @ ''|'' @ funcName"

text \<open>The descriptor an argument names, with its number.\<close>

primrec grpcDescriptorArgName :: "go_file \<Rightarrow> nat \<Rightarrow> expr \<Rightarrow> string" where
  "grpcDescriptorArgName file n (UnaryExpr op x) = grpcDescriptorArgName file (n + 1) x"
| "grpcDescriptorArgName file n (Ident name) = name"
| "grpcDescriptorArgName file n (SelectorExpr x sel) =
     (case sel of Some name \<Rightarrow> name | None \<Rightarrow> grpcExprString file (n, SelectorExpr x sel))"
| "grpcDescriptorArgName file n NilExpr = grpcExprString file (n, NilExpr)"
| "grpcDescriptorArgName file n (BasicLit v) = grpcExprString file (n, BasicLit v)"
| "grpcDescriptorArgName file n (BinaryExpr op x y) = grpcExprString file (n, BinaryExpr op x y)"
| "grpcDescriptorArgName file n (CallExpr f args) = grpcExprString file (n, CallExpr f args)"
| "grpcDescriptorArgName file n (ParenExpr x) = grpcExprString file (n, ParenExpr x)"
| "grpcDescriptorArgName file n (IndexExpr x i) = grpcExprString file (n, IndexExpr x i)"
| "grpcDescriptorArgName file n (IndexListExpr x is) = grpcExprString file (n, IndexListExpr x is)"
| "grpcDescriptorArgName file n (SliceExpr x lo hi m) = grpcExprString file (n, SliceExpr x lo hi m)"
| "grpcDescriptorArgName file n (StarExpr x) = grpcExprString file (n, StarExpr x)"
| "grpcDescriptorArgName file n (TypeAssertExpr x t) = grpcExprString file (n, TypeAssertExpr x t)"
| "grpcDescriptorArgName file n (CompositeLit t elts) = grpcExprString file (n, CompositeLit t elts)"
| "grpcDescriptorArgName file n (KeyValueExpr k v) = grpcExprString file (n, KeyValueExpr k v)"
| "grpcDescriptorArgName file n (FuncLit t body) = grpcExprString file (n, FuncLit t body)"
| "grpcDescriptorArgName file n (ArrayType len elt) = grpcExprString file (n, ArrayType len elt)"
| "grpcDescriptorArgName file n (MapType k v) = grpcExprString file (n, MapType k v)"
| "grpcDescriptorArgName file n (ChanType v) = grpcExprString file (n, ChanType v)"
| "grpcDescriptorArgName file n (StructType fs) = grpcExprString file (n, StructType fs)"
| "grpcDescriptorArgName file n (InterfaceType fs) = grpcExprString file (n, InterfaceType fs)"
| "grpcDescriptorArgName file n (FuncType ps rs) = grpcExprString file (n, FuncType ps rs)"
| "grpcDescriptorArgName file n (Ellipsis x) = grpcExprString file (n, Ellipsis x)"
| "grpcDescriptorArgName file n BadExpr = grpcExprString file (n, BadExpr)"

text \<open>The arguments of a call with their numbers.\<close>

definition call_args :: "nat \<Rightarrow> expr \<Rightarrow> expr list \<Rightarrow> (nat \<times> expr) list" where
  "call_args k f args = numbered inspectExpr (k + 1 + length (inspectExpr f)) args"

definition describedBy :: "go_file \<Rightarrow> nat \<times> ast_item \<Rightarrow> string" where
  "describedBy file n =
     (case callOf n of
        Some (k, f, args) \<Rightarrow>
          (if args = [] \<or> selectorName f \<noteq> ''RegisterService'' then ''''
           else case hd (call_args k f args) of (m, arg) \<Rightarrow> grpcDescriptorArgName file m arg)
      | None \<Rightarrow> '''')"

definition extractRegisterFuncDescriptor :: "go_file \<Rightarrow> nat \<times> FuncDecl \<Rightarrow> string \<times> string" where
  "extractRegisterFuncDescriptor file nf =
     (let (n, fd) = nf
      in if fd_Body fd = NilBlock \<or> \<not> isGRPCRegisterFuncName (fd_Name fd) then ('''', '''')
         else (fd_Name fd,
           case filter (\<lambda>d. d \<noteq> '''') (map (describedBy file)
               (enumerate (n + length (inspectExpr (fd_Recv fd))) (inspectBlock (fd_Body fd)))) of
             [] \<Rightarrow> '''' | d # _ \<Rightarrow> d))"

definition import_name :: "string option \<times> string \<Rightarrow> string" where
  "import_name imp =
     (case fst imp of
        Some name \<Rightarrow> name
      | None \<Rightarrow> last (Split CHR ''/'' (stringLiteral (BasicLit (snd imp)))))"

definition importedKey :: "go_file \<Rightarrow> expr \<Rightarrow> string \<Rightarrow> string option" where
  "importedKey file f funcName =
     (case f of
        SelectorExpr (Ident x) _ \<Rightarrow>
          map_option (\<lambda>imp. grpcRegisterFuncKey (stringLiteral (BasicLit (snd imp))) funcName)
            (find (\<lambda>imp. import_name imp = x) (gof_Imports file))
      | _ \<Rightarrow> None)"

definition grpcRegisterCallKey :: "syntax_package \<Rightarrow> go_file \<Rightarrow> nat \<Rightarrow> expr \<Rightarrow> string \<Rightarrow> string" where
  "grpcRegisterCallKey pkg file k f funcName =
     (let refers = (case f of Ident _ \<Rightarrow> True | SelectorExpr _ sel \<Rightarrow> sel \<noteq> None | _ \<Rightarrow> False)
      in case (if sxp_TypesInfo pkg \<and> refers then gof_CalleePkg file k else None) of
           Some path \<Rightarrow> grpcRegisterFuncKey path funcName
         | None \<Rightarrow>
             (case importedKey file f funcName of
                Some key \<Rightarrow> key
              | None \<Rightarrow> (case f of Ident _ \<Rightarrow> grpcRegisterFuncKey (sxp_PkgPath pkg) funcName | _ \<Rightarrow> '''')))"

definition shortNamesOf :: "(string \<times> grpcServiceDesc) list \<Rightarrow> string list" where
  "shortNamesOf services = filter (\<lambda>n. n \<noteq> '''') (map (\<lambda>s. gsd_ServiceShortName (snd s)) services)"

definition uniqueGRPCShortNames :: "(string \<times> grpcServiceDesc) list \<Rightarrow> string \<Rightarrow> bool" where
  "uniqueGRPCShortNames services n = (count_list (shortNamesOf services) n = 1)"

definition uniqueGRPCServicesByShortName :: "(string \<times> grpcServiceDesc) list \<Rightarrow> string \<Rightarrow> grpcServiceDesc option" where
  "uniqueGRPCServicesByShortName services n =
     (if n \<noteq> '''' \<and> count_list (shortNamesOf services) n = 1
      then map_option snd (find (\<lambda>s. gsd_ServiceShortName (snd s) = n) services) else None)"

definition extractGRPCRegistration ::
  "syntax_package \<Rightarrow> go_file \<Rightarrow> (string \<times> string) list \<Rightarrow> (string \<times> grpcServiceDesc) list
   \<Rightarrow> nat \<times> expr \<times> expr list \<Rightarrow> GRPCRegistration option" where
  "extractGRPCRegistration pkg file registerFuncToDesc services c =
     (case c of (k, f, args) \<Rightarrow>
        let calleeName = selectorName f
        in if \<not> isGRPCRegisterFuncName calleeName \<or> length args < 2 then None
           else
             let shortName = TrimSuffix (TrimPrefix calleeName ''Register'') ''Server'';
                 descKey = (case map_of registerFuncToDesc (grpcRegisterCallKey pkg file k f calleeName) of
                   Some d \<Rightarrow> d | None \<Rightarrow> '''');
                 (serviceName, shortName) = (case (if descKey \<noteq> '''' then map_of services descKey else None) of
                     Some s \<Rightarrow> (gsd_Service s, gsd_ServiceShortName s)
                   | None \<Rightarrow> ('''', shortName));
                 serviceName = (if serviceName = '''' then
                     (case uniqueGRPCServicesByShortName services shortName of Some s \<Rightarrow> gsd_Service s | None \<Rightarrow> '''')
                   else serviceName);
                 as = call_args k f args; (filename, line) = gof_Pos file k
             in Some \<lparr>grg_Service = serviceName, grg_ServiceShortName = shortName,
                  grg_RegisterFunc = grpcExprString file (k + 1, f), grg_Registrar = grpcExprString file (as ! 0),
                  grg_Implementation = grpcExprString file (as ! 1), grg_Package = sxp_PkgPath pkg,
                  grg_File = filename, grg_Line = line, grg_Anchor = contextAnchor filename line calleeName\<rparr>)"

section \<open>Endpoints\<close>

definition appendUniqueString :: "string list \<Rightarrow> string \<Rightarrow> string list" where
  "appendUniqueString items item = (if item = '''' \<or> item \<in> set items then items else items @ [item])"

definition registrationKeys :: "(string \<Rightarrow> bool) \<Rightarrow> GRPCRegistration \<Rightarrow> string list" where
  "registrationKeys unique r =
     filter (\<lambda>key. key \<noteq> '''')
       ([grg_Service r] @ (if unique (grg_ServiceShortName r) then [grg_ServiceShortName r] else []))"

text \<open>A Go map of lists is a function that gives the empty list where nothing was stored.\<close>

definition putImplementation :: "string \<Rightarrow> string \<Rightarrow> (string \<Rightarrow> string list) \<Rightarrow> string \<Rightarrow> string list" where
  "putImplementation x key m = m(key := appendUniqueString (m key) x)"

definition addImplementation :: "(string \<Rightarrow> bool) \<Rightarrow> GRPCRegistration \<Rightarrow> (string \<Rightarrow> string list) \<Rightarrow> string \<Rightarrow> string list" where
  "addImplementation unique r impls =
     fold (putImplementation (grg_Implementation r)) (registrationKeys unique r) impls"

definition implementationsByService ::
  "(string \<Rightarrow> bool) \<Rightarrow> GRPCRegistration list \<Rightarrow> string \<Rightarrow> string list" where
  "implementationsByService unique regs = fold (addImplementation unique) regs (\<lambda>_. [])"

definition serviceEndpoint :: "(string \<Rightarrow> string list) \<Rightarrow> grpcServiceDesc \<Rightarrow> grpcMethodDesc \<Rightarrow> GRPCEndpoint" where
  "serviceEndpoint impls service m =
     (let implementations = (if impls (gsd_Service service) = [] then impls (gsd_ServiceShortName service)
        else impls (gsd_Service service))
      in \<lparr>gep_Service = gsd_Service service, gep_ServiceShortName = gsd_ServiceShortName service, gep_Method = gmd_Name m,
          gep_FullMethod = ''/'' @ gsd_Service service @ ''/'' @ gmd_Name m, gep_RPCType = gmd_RPCType m,
          gep_Handler = gmd_Handler m, gep_HandlerType = gsd_HandlerType service, gep_ServiceDesc = gsd_Name service,
          gep_ProtoFile = gsd_ProtoFile service, gep_Package = gsd_Package service,
          gep_Registered = (length implementations > 0), gep_Implementations = implementations,
          gep_File = gsd_File service, gep_Line = gsd_Line service,
          gep_Anchor = contextAnchor (gsd_File service) (gsd_Line service) (gsd_ServiceShortName service)\<rparr>)"

definition buildGRPCEndpoints :: "(string \<times> grpcServiceDesc) list \<Rightarrow> GRPCRegistration list \<Rightarrow> GRPCEndpoint list" where
  "buildGRPCEndpoints services regs =
     (let impls = implementationsByService (uniqueGRPCShortNames services) regs
      in concat (map (\<lambda>s. map (serviceEndpoint impls (snd s)) (gsd_Methods (snd s))) services))"

definition endpoint_less :: "GRPCEndpoint \<Rightarrow> GRPCEndpoint \<Rightarrow> bool" where
  "endpoint_less a b =
     (if gep_Service a \<noteq> gep_Service b then gep_Service a < gep_Service b
      else if gep_Method a \<noteq> gep_Method b then gep_Method a < gep_Method b
      else if gep_RPCType a \<noteq> gep_RPCType b then gep_RPCType a < gep_RPCType b
      else if gep_Package a \<noteq> gep_Package b then gep_Package a < gep_Package b
      else if gep_File a \<noteq> gep_File b then gep_File a < gep_File b
      else gep_Line a < gep_Line b)"

definition sortGRPCEndpoints :: "GRPCEndpoint list \<Rightarrow> GRPCEndpoint list" where
  "sortGRPCEndpoints = sort_slice endpoint_less"

definition registration_less :: "GRPCRegistration \<Rightarrow> GRPCRegistration \<Rightarrow> bool" where
  "registration_less a b =
     (if grg_Service a \<noteq> grg_Service b then grg_Service a < grg_Service b
      else if grg_RegisterFunc a \<noteq> grg_RegisterFunc b then grg_RegisterFunc a < grg_RegisterFunc b
      else if grg_File a \<noteq> grg_File b then grg_File a < grg_File b
      else grg_Line a < grg_Line b)"

definition sortGRPCRegistrations :: "GRPCRegistration list \<Rightarrow> GRPCRegistration list" where
  "sortGRPCRegistrations = sort_slice registration_less"

text \<open>The packages the extraction looks at, with their files.\<close>

definition grpcFiles :: "syntax_package list \<Rightarrow> (syntax_package \<times> go_file) list" where
  "grpcFiles pkgs =
     concat (map (\<lambda>pkg. map (Pair pkg) (sxp_Syntax pkg))
       (filter (\<lambda>pkg. sxp_Fset pkg \<and> length (sxp_Syntax pkg) \<noteq> 0 \<and> sxp_PkgPath pkg \<noteq> '''') pkgs))"

type_synonym grpc_tables = "(string \<times> grpcServiceDesc) list \<times> (string \<times> string) list"

definition describeDecl :: "syntax_package \<Rightarrow> go_file \<Rightarrow> nat \<times> file_decl \<Rightarrow> grpc_tables \<Rightarrow> grpc_tables" where
  "describeDecl pkg file nd tables =
     (let (services, registerFuncToDesc) = tables
      in case snd nd of
           GenTop d \<Rightarrow> (extractGRPCServiceDescsFromDecl pkg file (fst nd, d) services, registerFuncToDesc)
         | FuncTop fd \<Rightarrow>
             (let (name, descName) = extractRegisterFuncDescriptor file (fst nd, fd)
              in if name \<noteq> '''' \<and> descName \<noteq> ''''
                 then (services, AList.update (grpcRegisterFuncKey (sxp_PkgPath pkg) name)
                        (grpcServiceDescKey (sxp_PkgPath pkg) descName) registerFuncToDesc)
                 else tables))"

definition grpcTables :: "syntax_package list \<Rightarrow> grpc_tables" where
  "grpcTables pkgs = fold (\<lambda>(pkg, file). fold (describeDecl pkg file) (topDecls file)) (grpcFiles pkgs) ([], [])"

definition grpcRegistrations :: "syntax_package list \<Rightarrow> grpc_tables \<Rightarrow> GRPCRegistration list" where
  "grpcRegistrations pkgs tables =
     concat (map (\<lambda>(pkg, file).
         List.map_filter (extractGRPCRegistration pkg file (snd tables) (fst tables)) (calls file)) (grpcFiles pkgs))"

definition extractGRPCFromSyntax :: "syntax_package list \<Rightarrow> GRPCEndpoint list \<times> GRPCRegistration list" where
  "extractGRPCFromSyntax pkgs =
     (let tables = grpcTables pkgs; regs = grpcRegistrations pkgs tables
      in (sortGRPCEndpoints (buildGRPCEndpoints (fst tables) regs), sortGRPCRegistrations regs))"

section \<open>Listing\<close>

record GRPCEndpointsResult =
  ger_Endpoints :: "GRPCEndpoint list"
  ger_Registrations :: "GRPCRegistration list"
  ger_Total :: int
  ger_TotalRegistrations :: int
  ger_Notes :: "string list"
  ger_Offset :: int
  ger_Limit :: int
  ger_MaxItems :: int
  ger_ChunkSize :: int
  ger_NextCursor :: string
  ger_HasMore :: bool
  ger_TotalBeforeTruncate :: int
  ger_Truncated :: bool

datatype grpcResultItem = EndpointItem GRPCEndpoint | RegistrationItem GRPCRegistration

definition buildGRPCResultItems :: "GRPCEndpoint list \<Rightarrow> GRPCRegistration list \<Rightarrow> grpcResultItem list" where
  "buildGRPCResultItems endpoints regs = map EndpointItem endpoints @ map RegistrationItem regs"

definition splitGRPCResultItems :: "grpcResultItem list \<Rightarrow> GRPCEndpoint list \<times> GRPCRegistration list" where
  "splitGRPCResultItems items =
     (List.map_filter (\<lambda>i. case i of EndpointItem e \<Rightarrow> Some e | _ \<Rightarrow> None) items,
      List.map_filter (\<lambda>i. case i of RegistrationItem r \<Rightarrow> Some r | _ \<Rightarrow> None) items)"

definition grpcEndpointKey :: "GRPCEndpoint \<Rightarrow> string" where
  "grpcEndpointKey e = gep_Service e @ ''|'' @ gep_Method e @ ''|'' @ gep_RPCType e @ ''|'' @ gep_Package e @ ''|''
     @ gep_File e @ '':'' @ Itoa (gep_Line e)"

definition grpcRegistrationKey :: "GRPCRegistration \<Rightarrow> string" where
  "grpcRegistrationKey r = grg_Service r @ ''|'' @ grg_ServiceShortName r @ ''|'' @ grg_RegisterFunc r @ ''|''
     @ grg_Package r @ ''|'' @ grg_File r @ '':'' @ Itoa (grg_Line r)"

fun grpcResultItemKey :: "grpcResultItem \<Rightarrow> string" where
  "grpcResultItemKey (RegistrationItem r) = ''registration|'' @ grpcRegistrationKey r"
| "grpcResultItemKey (EndpointItem e) = ''endpoint|'' @ grpcEndpointKey e"

definition grpcNotes :: "string list" where
  "grpcNotes = [
     ''gRPC endpoints are discovered from generated grpc-go ServiceDesc values and Register<Service>Server call sites in loaded Go packages.'',
     ''Use package_pattern/package_patterns that include generated *.pb.go or *_grpc.pb.go packages; proto-only directories without Go packages are not loaded.'',
     ''Pagination and streaming apply across endpoint rows and registration rows together; total and total_registrations report the full unpaged counts for each kind.'',
     ''Dynamic grpc.ServiceDesc construction, reflection-only registration, grpc-gateway, Connect, and Twirp are outside this tool''
       @ [CHR 0x27] @ ''s v1 scope.'']"

definition pageGRPC ::
  "paging \<Rightarrow> string \<Rightarrow> QueryOptions \<Rightarrow> GRPCEndpoint list \<Rightarrow> GRPCRegistration list \<Rightarrow> stream_error + GRPCEndpointsResult" where
  "pageGRPC pg ident opts endpoints regs =
     (case page_items pg (buildGRPCResultItems endpoints regs) ident grpcResultItemKey opts of
        Inl e \<Rightarrow> Inl e
      | Inr w \<Rightarrow>
          let (es, rs) = splitGRPCResultItems (wr_items w)
          in Inr \<lparr>ger_Endpoints = es, ger_Registrations = rs, ger_Total = int (length endpoints),
               ger_TotalRegistrations = int (length regs), ger_Notes = grpcNotes, ger_Offset = qo_Offset opts,
               ger_Limit = qo_Limit opts, ger_MaxItems = qo_MaxItems opts,
               ger_ChunkSize = (if qo_ChunkSize opts > 0 then clampChunkSize (pg_env pg) (qo_ChunkSize opts) else 0),
               ger_NextCursor = wr_next w, ger_HasMore = wr_more w, ger_TotalBeforeTruncate = wr_total w,
               ger_Truncated = wr_truncated w\<rparr>)"

definition ListGRPCEndpointsWithOptions ::
  "paging \<Rightarrow> store_env \<Rightarrow> string + unit \<Rightarrow> string \<Rightarrow> string \<Rightarrow> QueryOptions
   \<Rightarrow> ('f db, stream_error + GRPCEndpointsResult) action" where
  "ListGRPCEndpointsWithOptions pg E loaded dir pattern opts =
     (case loaded of
        Inl e \<Rightarrow> failA (''loading packages: '' @ e)
      | Inr _ \<Rightarrow>
          thenA (OpenWorkspaceStore E) (bindA (GetGRPCEndpoints E) (\<lambda>(endpoints, regs).
            retA (pageGRPC pg (''grpc_endpoints:'' @ dir @ ''|'' @ pattern) opts
              (sortGRPCEndpoints endpoints) (sortGRPCRegistrations regs)))))"

definition ListGRPCEndpoints ::
  "paging \<Rightarrow> store_env \<Rightarrow> string + unit \<Rightarrow> string \<Rightarrow> string \<Rightarrow> ('f db, stream_error + GRPCEndpointsResult) action" where
  "ListGRPCEndpoints pg E loaded dir pattern =
     ListGRPCEndpointsWithOptions pg E loaded dir pattern
       \<lparr>qo_Limit = 0, qo_Offset = 0, qo_MaxItems = 0, qo_Summary = False, qo_Cursor = '''', qo_ChunkSize = 0, qo_Export = ExportNone\<rparr>"

section \<open>What is extracted\<close>

text \<open>The implementations registered under a name: of a service, or a short name that only one has.\<close>

definition implementations_named :: "(string \<Rightarrow> bool) \<Rightarrow> GRPCRegistration list \<Rightarrow> string \<Rightarrow> string set" where
  "implementations_named unique regs n =
     {grg_Implementation r | r. r \<in> set regs \<and> grg_Implementation r \<noteq> '''' \<and> n \<noteq> ''''
        \<and> (grg_Service r = n \<or> grg_ServiceShortName r = n \<and> unique n)}"

lemma set_appendUnique: "set (appendUniqueString xs x) = set xs \<union> ({x} - {''''})"
  by (auto simp: appendUniqueString_def)

lemma distinct_appendUnique: "distinct xs \<Longrightarrow> distinct (appendUniqueString xs x)"
  by (simp add: appendUniqueString_def)

lemma putImplementation_apply:
  "putImplementation x key m n = (if n = key then appendUniqueString (m n) x else m n)"
  by (simp add: putImplementation_def)

lemma fold_append_keys:
  "set (fold (putImplementation x) keys impls n) = set (impls n) \<union> (if n \<in> set keys then {x} - {''''} else {})"
  by (induction keys arbitrary: impls) (auto simp: putImplementation_apply set_appendUnique)

lemma distinct_append_keys: "distinct (impls n) \<Longrightarrow> distinct (fold (putImplementation x) keys impls n)"
proof (induction keys arbitrary: impls)
  case (Cons key keys)
  have "distinct (putImplementation x key impls n)"
    using Cons.prems by (auto simp: putImplementation_apply intro: distinct_appendUnique)
  then show ?case using Cons.IH [of "putImplementation x key impls"] by simp
qed simp

lemma fold_implementations:
  "set (fold (addImplementation unique) regs impls n) = set (impls n) \<union> implementations_named unique regs n
   \<and> (distinct (impls n) \<longrightarrow> distinct (fold (addImplementation unique) regs impls n))"
proof (induction regs arbitrary: impls)
  case (Cons r regs)
  have "n \<in> set (registrationKeys unique r) \<longleftrightarrow> n \<noteq> '''' \<and> (grg_Service r = n \<or> grg_ServiceShortName r = n \<and> unique n)"
    by (auto simp: registrationKeys_def)
  then have "set (addImplementation unique r impls n) = set (impls n) \<union> implementations_named unique [r] n"
    unfolding addImplementation_def fold_append_keys implementations_named_def by auto
  moreover have "distinct (impls n) \<Longrightarrow> distinct (addImplementation unique r impls n)"
    unfolding addImplementation_def by (rule distinct_append_keys)
  moreover have "implementations_named unique (r # regs) n = implementations_named unique [r] n \<union> implementations_named unique regs n"
    by (auto simp: implementations_named_def)
  ultimately show ?case using Cons [of "addImplementation unique r impls"] by auto
qed (simp add: implementations_named_def)

lemma set_implementations: "set (implementationsByService unique regs n) = implementations_named unique regs n"
  and distinct_implementations: "distinct (implementationsByService unique regs n)"
  using fold_implementations [of unique regs "\<lambda>_. []" n] by (simp_all add: implementationsByService_def)

lemma same_named: "set regs = set regs' \<Longrightarrow> implementations_named unique regs n = implementations_named unique regs' n"
  by (simp add: implementations_named_def)

definition endpoint_order_key :: "GRPCEndpoint \<Rightarrow> string \<times> string \<times> string \<times> string \<times> string \<times> int" where
  "endpoint_order_key e = (gep_Service e, gep_Method e, gep_RPCType e, gep_Package e, gep_File e, gep_Line e)"

interpretation endpoint_order: key_order endpoint_less endpoint_order_key
  by unfold_locales (auto simp: endpoint_less_def endpoint_order_key_def less_prod_def')

definition registration_order_key :: "GRPCRegistration \<Rightarrow> string \<times> string \<times> string \<times> int" where
  "registration_order_key r = (grg_Service r, grg_RegisterFunc r, grg_File r, grg_Line r)"

interpretation registration_order: key_order registration_less registration_order_key
  by unfold_locales (auto simp: registration_less_def registration_order_key_def less_prod_def')


definition sample_grpc_file :: go_file where
  "sample_grpc_file = \<lparr>gof_Decls = [
       GenTop (GenDecl ''var'' [ValueSpec [''Echo_ServiceDesc''] NilExpr [
         CompositeLit (SelectorExpr (Ident ''grpc'') (Some ''ServiceDesc'')) [
           KeyValueExpr (Ident ''ServiceName'') (BasicLit (CHR 0x22 # ''demo.Echo'' @ [CHR 0x22])),
           KeyValueExpr (Ident ''Methods'') (CompositeLit (ArrayType NilExpr (Ident ''MethodDesc'')) [
             CompositeLit NilExpr [KeyValueExpr (Ident ''MethodName'') (BasicLit (CHR 0x22 # ''Say'' @ [CHR 0x22]))]])]]]),
       FuncTop \<lparr>fd_Recv = NilExpr, fd_Name = ''main'', fd_Body = Block [ExprStmt (CallExpr
          (SelectorExpr (Ident ''pb'') (Some ''RegisterEchoServer'')) [Ident ''srv'', Ident ''impl''])],
          fd_File = ''a.go'', fd_Line = 9, fd_Lbrace = 9, fd_Rbrace = 11\<rparr>],
     gof_Imports = [(None, CHR 0x22 # ''demo/pb'' @ [CHR 0x22])], gof_Pos = (\<lambda>k. (''a.go'', int k + 1)),
     gof_RecvType = (\<lambda>_. None), gof_CalleePkg = (\<lambda>_. None), gof_Print = (\<lambda>k. if k = 20 then ''impl'' else ''text'')\<rparr>"

definition sample_grpc :: "syntax_package list" where
  "sample_grpc = [\<lparr>sxp_PkgPath = ''demo'', sxp_Fset = True, sxp_TypesInfo = False, sxp_Syntax = [sample_grpc_file]\<rparr>]"

definition sample_service :: grpcServiceDesc where
  "sample_service = \<lparr>gsd_Name = ''Echo_ServiceDesc'', gsd_Service = ''demo.Echo'', gsd_ServiceShortName = ''Echo'',
     gsd_HandlerType = '''', gsd_ProtoFile = '''', gsd_Package = ''demo'', gsd_File = ''a.go'', gsd_Line = 1,
     gsd_Methods = [\<lparr>gmd_Name = ''Say'', gmd_Handler = '''', gmd_RPCType = ''unary''\<rparr>]\<rparr>"

lemma sample_tables: "grpcTables sample_grpc = ([(''demo|Echo_ServiceDesc'', sample_service)], [])"
  by code_simp


section \<open>Rows and endpoints\<close>

lemma split_no_sep: "c \<notin> set s \<Longrightarrow> Split c s = [s]"
  by (induction s) auto

lemma split_sep: "c \<notin> set s \<Longrightarrow> Split c (s @ c # t) = s # Split c t"
  by (induction s) auto

lemma split_join: "xs \<noteq> [] \<Longrightarrow> \<forall>x\<in>set xs. c \<notin> set x \<Longrightarrow> Split c (Join [c] xs) = xs"
proof (induction xs)
  case (Cons x xs)
  then show ?case by (cases xs) (auto simp: split_no_sep split_sep)
qed simp

lemma IndexOf_first: "hd p \<notin> set s \<Longrightarrow> p \<noteq> '''' \<Longrightarrow> IndexOf (s @ p @ t) p = Some (length s)"
proof (induction s)
  case Nil
  then show ?case by (cases p) (auto simp: HasPrefix_def)
next
  case (Cons a s)
  then show ?case by (cases p) (auto simp: HasPrefix_def)
qed

lemma IndexOf_none: "hd p \<notin> set s \<Longrightarrow> p \<noteq> '''' \<Longrightarrow> IndexOf s p = None"
proof (induction s)
  case (Cons a s)
  then show ?case by (cases p) (auto simp: HasPrefix_def)
qed simp

definition storable :: "GRPCEndpoint \<Rightarrow> bool" where
  "storable e \<longleftrightarrow>
     CHR 0x0A \<notin> set (gep_ProtoFile e) \<and> TrimSpace (gep_ServiceShortName e) = gep_ServiceShortName e
   \<and> (gep_ServiceShortName e = '''' \<longrightarrow> grpcShortNameFromService (gep_Service e) = '''')
   \<and> (\<forall>i\<in>set (gep_Implementations e). CHR 0x0A \<notin> set i)
   \<and> (gep_Implementations e \<noteq> [] \<longrightarrow> TrimSpace (Join [CHR 0x0A] (gep_Implementations e)) \<noteq> '''')"

lemma read_back:
  assumes "storable e"
  shows "endpoint_of_row (endpoint_row_of e)
    = e\<lparr>gep_Anchor := contextAnchor (gep_File e) (gep_Line e) (gep_Method e)\<rparr>"
proof -
  note assms = assms [unfolded storable_def]
  have mark: "hd short_name_mark = CHR 0x0A" "short_name_mark \<noteq> ''''" by (simp_all add: short_name_mark_def)
  have trim: "TrimSpace '''' = ''''" by code_simp
  have impls: "(if TrimSpace (Join [CHR 0x0A] (gep_Implementations e)) \<noteq> ''''
      then Split CHR 0x0A (Join [CHR 0x0A] (gep_Implementations e)) else []) = gep_Implementations e"
    using assms split_join [of "gep_Implementations e" "CHR 0x0A"] trim
    by (cases "gep_Implementations e = []") (auto split: if_splits)
  show ?thesis
  proof (cases "gep_ServiceShortName e = ''''")
    case True
    then show ?thesis
      using assms impls IndexOf_none [of short_name_mark "gep_ProtoFile e"] assms mark
      by (intro GRPCEndpoint.equality) (simp_all add: endpoint_of_row_def endpoint_row_of_def Let_def split: if_splits)
  next
    case False
    then show ?thesis
      using assms impls IndexOf_first [of short_name_mark "gep_ProtoFile e" "gep_ServiceShortName e"] assms mark
      by (intro GRPCEndpoint.equality) (simp_all add: endpoint_of_row_def endpoint_row_of_def Let_def split: if_splits)
  qed
qed


definition sample_endpoint :: GRPCEndpoint where
  "sample_endpoint = serviceEndpoint (\<lambda>_. [''impl'', ''other'']) sample_service (hd (gsd_Methods sample_service))"


end
