(* ===== verification/Store_Listings.thy ===== *)
theory Store_Listings
  imports Store_Reads Grpc
begin

text \<open>
  From the source to the listing: what \<^verbatim>\<open>ListHTTPRoutes\<close> and \<^verbatim>\<open>ListGRPCEndpoints\<close>
  answer after \<^verbatim>\<open>ShadowStoreProgram\<close> stored what the extraction found.
\<close>

section \<open>Lists that start with opening the store\<close>

lemma open_runs:
  assumes "never_fails E" "se_ensure E = None" "se_open E = None"
  shows "\<exists>t. OpenWorkspaceStore E s = (Inr (), t) \<and> content (st_db t) = content (st_db s)"
proof -
  have "succeeds (\<lambda>_. True) (OpenWorkspaceStore E) (\<lambda>_ _. True)"
    using assms by (intro succeeds_OpenWorkspaceStore) simp_all
  then obtain t where t: "OpenWorkspaceStore E s = (Inr (), t)" by (metis succeedsD old.unit.exhaust)
  moreover have "keeps_content (OpenWorkspaceStore E)" by (intro keeps_intros)
  ultimately show ?thesis using keepsD by blast
qed

lemma key_set_overlaid: "overlaid key batch old new \<Longrightarrow> key ` set new = key ` set batch \<union> key ` set old"
proof -
  assume over: "overlaid key batch old new"
  have "k \<in> key ` set new \<longleftrightarrow> k \<in> key ` set batch \<or> k \<in> key ` set old" for k
    using row_of_None [of key new k] row_of_None [of key old k] row_of_None [of key "rev batch" k] over
    by (auto simp: overlaid_def split: option.splits)
  then show ?thesis by blast
qed

lemma stored_overlaid:
  fixes V :: "'f vector_ops"
  assumes "never_fails E" "\<forall>n. se_now E n \<noteq> 0" "\<forall>h\<in>set (spr_symbolHashes prog). smh_CreatedAt h \<noteq> 0"
    and "ShadowStoreProgram E C N V X root (Some prog) s = (Inr (), t)"
  shows "overlaid route_key (map route_row_of (spr_httpRoutes prog)) (db_routes (st_db s)) (db_routes (st_db t))"
    "overlaid endpoint_key (map endpoint_row_of (spr_grpcEndpoints prog)) (db_endpoints (st_db s)) (db_endpoints (st_db t))"
    "overlaid reg_key (map reg_row_of (spr_grpcRegistrations prog)) (db_regs (st_db s)) (db_regs (st_db t))"
proof -
  obtain now and provider :: "'f EmbeddingProvider option" and changed where "content (st_db t) = program_content V prog (packageImportEdges now (spr_Packages prog)) changed
        (withEmbeddingVersion (spr_symbolHashes prog) (embeddingVersionForProvider provider)) (content (st_db s))"
    using shadow_store_content [OF assms] by blast
  from content_fields [OF this]
  show "overlaid route_key (map route_row_of (spr_httpRoutes prog)) (db_routes (st_db s)) (db_routes (st_db t))"
    "overlaid endpoint_key (map endpoint_row_of (spr_grpcEndpoints prog)) (db_endpoints (st_db s)) (db_endpoints (st_db t))"
    "overlaid reg_key (map reg_row_of (spr_grpcRegistrations prog)) (db_regs (st_db s)) (db_regs (st_db t))"
    by simp_all
qed

section \<open>Routes\<close>

definition route_order_key :: "HTTPRoute \<Rightarrow> string \<times> string \<times> string" where
  "route_order_key r = (hrt_Path r, hrt_Method r, hrt_File r)"

interpretation route_order: key_order route_less route_order_key
  by unfold_locales (auto simp: route_less_def route_order_key_def less_prod_def')

lemma row_of_route [simp]: "route_row_of (route_of_row row) = row"
  by (simp add: route_row_of_def route_of_row_def)

lemma route_key_inj: "inj route_key"
  by (rule injI) (simp add: route_key_def)

lemma list_routes_run:
  assumes "never_fails E" "se_ensure E = None" "se_open E = None" "no_paging opts"
  shows "\<exists>r u. ListHTTPRoutesWithOptions pg E (Inr ()) dir pattern opts s = (Inr (Inr r), u)
    \<and> sorted (map route_order_key (rr_Routes r)) \<and> mset (rr_Routes r) = image_mset route_of_row (mset (db_routes (st_db s)))
    \<and> rr_Total r = int (length (db_routes (st_db s)))"
proof -
  obtain t where t: "OpenWorkspaceStore E s = (Inr (), t)" "content (st_db t) = content (st_db s)"
    using open_runs [OF assms(1-3)] by blast
  then have rows: "db_routes (st_db t) = db_routes (st_db s)" by (simp add: content_eq)
  have window: "applyQueryWindow env xs opts = (xs, int (length xs), False)" for env and xs :: "HTTPRoute list"
    using assms(4)
    by (simp add: no_paging_def applyQueryWindow_slice windowBounds_def Let_def normalizeQueryOptions_fields clampChunkSize_def)
  let ?rows = "map route_of_row (sort_slice (\<lambda>a b. (hrr_Path a, hrr_Method a, hrr_Handler a) < (hrr_Path b, hrr_Method b, hrr_Handler b))
    (db_routes (st_db s)))"
  let ?routes = "sort_slice route_less ?rows"
  have "\<exists>r u. ListHTTPRoutesWithOptions pg E (Inr ()) dir pattern opts s = (Inr (Inr r), u) \<and> rr_Routes r = ?routes
      \<and> rr_Total r = int (length ?routes)"
    using assms(4)
    by (simp add: ListHTTPRoutesWithOptions_def thenA_def bindA_def t(1) GetHTTPRoutes_def queryA_run [OF assms(1)] rows retA_def
        pageRoutes_def window no_paging_def Let_def)
  moreover have "sorted (map route_order_key ?routes)" by (rule route_order.sorted_keys)
  ultimately show ?thesis by fastforce
qed

lemma stored_routes_in_order:
  fixes V :: "'f vector_ops"
  assumes "never_fails E" "\<forall>n. se_now E n \<noteq> 0" "\<forall>h\<in>set (spr_symbolHashes prog). smh_CreatedAt h \<noteq> 0"
    and "ShadowStoreProgram E C N V X root (Some prog) s = (Inr (), t)" "store_inv (st_db s)"
    and "never_fails E'" "se_ensure E' = None" "se_open E' = None" "no_paging opts" "content (st_db s') = content (st_db t)"
  shows "\<exists>r u. ListHTTPRoutesWithOptions pg E' (Inr ()) dir pattern opts s' = (Inr (Inr r), u)
    \<and> sorted (map route_order_key (rr_Routes r)) \<and> distinct (rr_Routes r)
    \<and> route_row_of ` set (rr_Routes r) = route_row_of ` set (spr_httpRoutes prog) \<union> set (db_routes (st_db s))"
proof -
  obtain r u where r: "ListHTTPRoutesWithOptions pg E' (Inr ()) dir pattern opts s' = (Inr (Inr r), u)"
      "sorted (map route_order_key (rr_Routes r))" "mset (rr_Routes r) = image_mset route_of_row (mset (db_routes (st_db s')))"
    using list_routes_run [OF assms(6-9)] by blast
  have rows: "db_routes (st_db s') = db_routes (st_db t)" using assms(10) by (simp add: content_eq)
  have "store_inv (st_db t)" using inv_programs(1) assms(4,5) unfolding maintains_def by metis
  then have "distinct (map route_key (db_routes (st_db t)))" by (simp add: store_inv_def tables_inv_def)
  then have once: "distinct (db_routes (st_db t))" by (simp add: distinct_map)
  have "inj route_of_row" by (metis injI row_of_route)
  then have "distinct (map route_of_row (db_routes (st_db t)))" using once by (auto simp: distinct_map intro: inj_on_subset)
  moreover have same: "mset (rr_Routes r) = mset (map route_of_row (db_routes (st_db t)))" using r(3) rows by simp
  ultimately have "distinct (rr_Routes r)" by (metis mset_eq_imp_distinct_iff)
  moreover have "set (rr_Routes r) = route_of_row ` set (db_routes (st_db t))" using mset_eq_setD [OF same] by simp
  then have "route_row_of ` set (rr_Routes r) = set (db_routes (st_db t))" by (simp add: image_image)
  moreover have "route_key ` set (db_routes (st_db t))
      = route_key ` (route_row_of ` set (spr_httpRoutes prog) \<union> set (db_routes (st_db s)))"
    using key_set_overlaid [OF stored_overlaid(1) [OF assms(1-4)]] by (simp add: image_Un)
  then have "set (db_routes (st_db t)) = route_row_of ` set (spr_httpRoutes prog) \<union> set (db_routes (st_db s))"
    using route_key_inj by (simp add: inj_image_eq_iff)
  ultimately show ?thesis using r(1,2) by auto
qed

text \<open>
  C18: after a program was stored, the listing succeeds and shows every route of the program and
  every route stored before, with its method, path, handler, framework and place, each once and
  in order; nothing else.
\<close>

theorem stored_routes_listed:
  fixes V :: "'f vector_ops"
  assumes "never_fails E" "\<forall>n. se_now E n \<noteq> 0" "\<forall>h\<in>set (spr_symbolHashes prog). smh_CreatedAt h \<noteq> 0"
    and "ShadowStoreProgram E C N V X root (Some prog) s = (Inr (), t)" "store_inv (st_db s)"
    and "never_fails E'" "se_ensure E' = None" "se_open E' = None" "no_paging opts" "content (st_db s') = content (st_db t)"
  shows "\<exists>r u. ListHTTPRoutesWithOptions pg E' (Inr ()) dir pattern opts s' = (Inr (Inr r), u)
    \<and> sorted (map route_order_key (rr_Routes r)) \<and> distinct (rr_Routes r)
    \<and> route_row_of ` set (rr_Routes r) = route_row_of ` set (spr_httpRoutes prog) \<union> set (db_routes (st_db s))"
  using stored_routes_in_order [OF assms] .

definition listed_program :: "int stored_program" where
  "listed_program = stored_sample\<lparr>
     spr_httpRoutes := [\<lparr>hrt_Method = ''GET'', hrt_Path = ''/users'', hrt_Handler = ''list'', hrt_Framework = ''gin'',
       hrt_File = ''a.go'', hrt_Line = 7, hrt_Anchor = ''''\<rparr>],
     spr_grpcEndpoints := [sample_endpoint]\<rparr>"

lemma listed_run:
  "\<exists>t. ShadowStoreProgram working bare_store_config offline sample_vectors sample_engine ''/w'' (Some listed_program) fresh_store
    = (Inr (), t)"
proof -
  obtain config where config: "EffectiveWorkspaceConfig (vo_float sample_vectors) bare_store_config ''/w'' = Inr config"
      "NewEmbeddingProviderFromConfig offline (vo_float sample_vectors) (wc_Embeddings config) = Inr None"
    using sample_provider by (auto simp: sample_vectors_def)
  have changed: "symbols_to_store sample_vectors None (st_db fresh_store) (spr_codeSymbols listed_program) (spr_symbolHashes listed_program)
      = Inr [filled sample_vectors sample_symbol]"
    using sample_changed by (simp add: listed_program_def)
  show ?thesis
    by (rule shadow_store_runs [OF working_facts(1,3,4) sample_store(3,1,2) config changed])
      (simp add: sample_dimension sample_vector)
qed

lemma listed_hashes: "\<forall>h\<in>set (spr_symbolHashes listed_program). smh_CreatedAt h \<noteq> 0"
  using sample_hashes(1) by (simp add: listed_program_def)

theorem stored_routes_listed_witness:
  "\<exists>t r u. ShadowStoreProgram working bare_store_config offline sample_vectors sample_engine ''/w'' (Some listed_program) fresh_store
      = (Inr (), t)
    \<and> ListHTTPRoutesWithOptions sample_paging working (Inr ()) ''/w'' ''./...'' plain_opts t = (Inr (Inr r), u)
    \<and> hrt_Path ` set (rr_Routes r) = {''/users''}"
proof -
  obtain t where t: "ShadowStoreProgram working bare_store_config offline sample_vectors sample_engine ''/w''
      (Some listed_program) fresh_store = (Inr (), t)"
    using listed_run by blast
  have opts: "no_paging plain_opts" by (simp add: no_paging_def plain_opts_def)
  obtain r u where r: "ListHTTPRoutesWithOptions sample_paging working (Inr ()) ''/w'' ''./...'' plain_opts t = (Inr (Inr r), u)"
      "distinct (rr_Routes r)" "route_row_of ` set (rr_Routes r) = route_row_of ` set (spr_httpRoutes listed_program)"
    using stored_routes_listed [OF working_facts(1) _ listed_hashes t sample_store(1) working_facts(1,3,4) opts refl]
    by (fastforce simp: fresh_store_def empty_db_def)
  have "hrt_Path ` set (rr_Routes r) = hrr_Path ` (route_row_of ` set (rr_Routes r))"
    by (simp add: image_image route_row_of_def)
  also have "... = {''/users''}" using r(3) by (simp add: listed_program_def route_row_of_def)
  finally show ?thesis using t r(1) by blast
qed

section \<open>Endpoints\<close>

lemma list_endpoints_run:
  assumes "never_fails E" "se_ensure E = None" "se_open E = None" "no_paging opts"
  shows "\<exists>r u. ListGRPCEndpointsWithOptions pg E (Inr ()) dir pattern opts s = (Inr (Inr r), u)
    \<and> sorted (map endpoint_order_key (ger_Endpoints r)) \<and> sorted (map registration_order_key (ger_Registrations r))
    \<and> mset (ger_Endpoints r) = image_mset endpoint_of_row (mset (db_endpoints (st_db s)))
    \<and> mset (ger_Registrations r) = image_mset reg_of_row (mset (db_regs (st_db s)))"
proof -
  obtain t where t: "OpenWorkspaceStore E s = (Inr (), t)" "content (st_db t) = content (st_db s)"
    using open_runs [OF assms(1-3)] by blast
  then have rows: "db_endpoints (st_db t) = db_endpoints (st_db s)" "db_regs (st_db t) = db_regs (st_db s)"
    by (simp_all add: content_eq)
  let ?endpoints = "map endpoint_of_row (sort_slice (\<lambda>a b. (epr_service a, epr_method a, epr_line a) < (epr_service b, epr_method b, epr_line b))
         (db_endpoints (st_db s)))"
  let ?regs = "map reg_of_row (sort_slice (\<lambda>a b. (rgr_service a, rgr_register_func a, rgr_line a) < (rgr_service b, rgr_register_func b, rgr_line b))
         (db_regs (st_db s)))"
  have split: "splitGRPCResultItems (buildGRPCResultItems es rs) = (es, rs)" for es rs
    by (simp add: splitGRPCResultItems_def buildGRPCResultItems_def List.map_filter_def comp_def)
  have "\<exists>r u. ListGRPCEndpointsWithOptions pg E (Inr ()) dir pattern opts s = (Inr (Inr r), u)
      \<and> ger_Endpoints r = sortGRPCEndpoints ?endpoints \<and> ger_Registrations r = sortGRPCRegistrations ?regs"
    by (simp add: ListGRPCEndpointsWithOptions_def thenA_def bindA_def t(1) GetGRPCEndpoints_def queryA_run [OF assms(1)] rows retA_def
        pageGRPC_def page_items_all [OF assms(4)] split Let_def)
  then show ?thesis
    using endpoint_order.sorted_keys registration_order.sorted_keys
    by (fastforce simp: sortGRPCEndpoints_def sortGRPCRegistrations_def)
qed


lemma sample_storable: "storable sample_endpoint"
proof -
  have "gep_Implementations sample_endpoint = [''impl'', ''other'']" "gep_ProtoFile sample_endpoint = ''''"
      "gep_ServiceShortName sample_endpoint = ''Echo''"
    by (simp_all add: sample_endpoint_def serviceEndpoint_def sample_service_def)
  moreover have "TrimSpace ''Echo'' = ''Echo''" by code_simp
  moreover have "TrimSpace (Join [CHR 0x0A] [''impl'', ''other'']) \<noteq> ''''" by code_simp
  ultimately show ?thesis by (simp add: storable_def)
qed


end
