(* ===== verification/Orphaned_Models.thy ===== *)
theory Orphaned_Models
  imports Dataflow Go_Literals Import_Graph Patterns
begin

text \<open>
  \<^verbatim>\<open>analyzer/orphaned_models.go\<close>: database models that nothing uses. The models are found in
  the syntax of the loaded files; their uses in the SSA form, whose functions and values are
  numbered; the migration files are texts of the file system, which is a parameter.
\<close>

section \<open>Data\<close>

datatype OrphanedModelReason = OrphanedNoReferences | OrphanedNoOrmUsage

fun reasonText :: "OrphanedModelReason \<Rightarrow> string" where
  "reasonText OrphanedNoReferences = ''no_references''"
| "reasonText OrphanedNoOrmUsage = ''no_orm_usage''"

record OrmModel =
  orm_Name :: string
  orm_Pkg :: string
  orm_File :: string
  orm_Line :: int
  orm_Framework :: string

record OrphanedModel =
  omd_Name :: string
  omd_Package :: string
  omd_File :: string
  omd_Line :: int
  omd_Anchor :: string
  omd_ORMFramework :: string
  omd_Reason :: OrphanedModelReason
  omd_Confidence :: string
  omd_Actionability :: string
  omd_Evidence :: "string list"
  omd_Notes :: string

record OrphanedModelSummary =
  osm_Total :: int
  osm_Returned :: int
  osm_ByReason :: "string \<Rightarrow> nat"
  osm_ByConfidence :: "string \<Rightarrow> nat"

record OrphanedModelResult =
  orr_Models :: "OrphanedModel list"
  orr_Total :: int
  orr_ORMFramework :: string
  orr_Scanned :: int
  orr_ScopePattern :: string
  orr_Summary :: OrphanedModelSummary
  orr_Notes :: "string list"
  orr_Offset :: int
  orr_Limit :: int
  orr_MaxItems :: int
  orr_ChunkSize :: int
  orr_NextCursor :: string
  orr_HasMore :: bool
  orr_TotalBeforeTruncate :: int
  orr_Truncated :: bool

record OrphanedModelOptions =
  oo_ORMFramework :: string
  oo_ScopePattern :: string
  oo_MigrationDirs :: "string list"
  oo_TableInference :: string

text \<open>The SSA form as far as this analysis looks at it.\<close>

datatype orm_node =
    VParameter
  | VUnOp nat
  | VChangeType nat
  | VConvert nat
  | VMakeInterface nat
  | VSlice nat
  | VOther

record orm_call =
  ocl_Method :: "string option"     \<comment> \<open>of an interface call\<close>
  ocl_Callee :: "nat option"        \<comment> \<open>\<^verbatim>\<open>StaticCallee\<close>\<close>
  ocl_Value :: "nat option"
  ocl_Args :: "nat list"

datatype orm_inst = OAlloc gotype | OMakeSlice gotype | OStore nat nat | OCall orm_call | OOtherInst

record orm_function =
  ofn_Name :: string
  ofn_String :: string
  ofn_Signature :: "(gotype list \<times> gotype list) option"   \<comment> \<open>parameters and results\<close>
  ofn_HasRecv :: bool
  ofn_Params :: "nat list"
  ofn_Blocks :: "orm_inst list list"

record orm_program =
  opr_Func :: "nat \<Rightarrow> orm_function"
  opr_Node :: "nat \<Rightarrow> orm_node"
  opr_Type :: "nat \<Rightarrow> gotype"
  opr_Types :: type_env
  opr_Named :: "nat list"            \<comment> \<open>the named types and aliases of the program\<close>
  opr_SSAFuncs :: "nat option list"
  opr_Packages :: "(string \<times> (string \<Rightarrow> gotype option) option) option list"
                                     \<comment> \<open>path; the type names of the scope\<close>
  opr_ormModels :: "OrmModel list"

section \<open>Types that hold a model\<close>

text \<open>\<^verbatim>\<open>types.Identical\<close> on the types of the model: equality with aliases resolved.\<close>

definition Unalias :: "type_env \<Rightarrow> gotype \<Rightarrow> gotype" where
  "Unalias E t = (case t of TAlias n \<Rightarrow> ty_Alias E n | _ \<Rightarrow> t)"

definition Identical :: "type_env \<Rightarrow> gotype \<Rightarrow> gotype \<Rightarrow> bool" where
  "Identical E t u \<longleftrightarrow> Unalias E t = Unalias E u"

text \<open>
  The map of seen types ends the walk on recursive types. Pointers, slices and arrays get
  smaller; a named type of the program can be opened once.
\<close>

definition unopened :: "nat list \<Rightarrow> gotype list \<Rightarrow> nat" where
  "unopened named seen =
     length (filter (\<lambda>n. TNamed n \<notin> set seen) named) + length (filter (\<lambda>n. TAlias n \<notin> set seen) named)"

lemma filter_shrinks:
  "(\<And>x. x \<in> set xs \<Longrightarrow> Q x \<Longrightarrow> P x) \<Longrightarrow> length (filter Q xs) \<le> length (filter P xs)"
  by (induction xs) auto

lemma filter_shrinks_strictly:
  assumes "\<And>x. x \<in> set xs \<Longrightarrow> Q x \<Longrightarrow> P x" "y \<in> set xs" "P y" "\<not> Q y"
  shows "length (filter Q xs) < length (filter P xs)"
  using assms
proof (induction xs)
  case (Cons x xs)
  show ?case
  proof (cases "y \<in> set xs")
    case True
    then have "length (filter Q xs) < length (filter P xs)" using Cons by auto
    then show ?thesis using Cons.prems(1) [of x] by auto
  next
    case False
    then have "x = y" using Cons.prems(2) by simp
    moreover have "length (filter Q xs) \<le> length (filter P xs)" using Cons.prems(1) by (intro filter_shrinks) auto
    ultimately show ?thesis using Cons.prems(3,4) by auto
  qed
qed simp

lemma unopened_mono: "unopened named (t # seen) \<le> unopened named seen"
  unfolding unopened_def by (intro add_mono filter_shrinks) auto

lemma unopened_open:
  "n \<in> set named \<Longrightarrow> TNamed n \<notin> set seen \<Longrightarrow> unopened named (TNamed n # seen) < unopened named seen"
  "n \<in> set named \<Longrightarrow> TAlias n \<notin> set seen \<Longrightarrow> unopened named (TAlias n # seen) < unopened named seen"
  unfolding unopened_def
  by (intro add_less_le_mono filter_shrinks_strictly [where y = n] filter_shrinks; auto)
     (intro add_le_less_mono filter_shrinks_strictly [where y = n] filter_shrinks; auto)

function typeContainsModelSeen :: "type_env \<Rightarrow> nat list \<Rightarrow> gotype \<Rightarrow> gotype \<Rightarrow> gotype list \<Rightarrow> bool" where
  "typeContainsModelSeen E named t targetType seen =
     (if Identical E t targetType then True
      else if t \<in> set seen then False
      else case t of
             TPointer e \<Rightarrow> typeContainsModelSeen E named e targetType (t # seen)
           | TSlice e \<Rightarrow> typeContainsModelSeen E named e targetType (t # seen)
           | TArray e \<Rightarrow> typeContainsModelSeen E named e targetType (t # seen)
           | TNamed n \<Rightarrow> if n \<in> set named then typeContainsModelSeen E named (ty_Under E n) targetType (t # seen) else False
           | TAlias n \<Rightarrow> if n \<in> set named then typeContainsModelSeen E named (ty_Alias E n) targetType (t # seen) else False
           | _ \<Rightarrow> False)"
  by pat_completeness auto
termination
  by (relation "measures [\<lambda>(E, named, t, targetType, seen). unopened named seen, \<lambda>(E, named, t, targetType, seen). size t]")
    (auto simp: unopened_open intro: le_neq_implies_less unopened_mono)

declare typeContainsModelSeen.simps [simp del]

definition typeContainsModel :: "orm_program \<Rightarrow> gotype \<Rightarrow> gotype \<Rightarrow> bool" where
  "typeContainsModel P t targetType = typeContainsModelSeen (opr_Types P) (opr_Named P) t targetType []"

text \<open>The value a conversion, a dereference or a slice is made of.\<close>

fun converted :: "orm_node \<Rightarrow> nat option" where
  "converted (VUnOp x) = Some x"
| "converted (VChangeType x) = Some x"
| "converted (VConvert x) = Some x"
| "converted (VMakeInterface x) = Some x"
| "converted (VSlice x) = Some x"
| "converted _ = None"

fun containsWithin :: "orm_program \<Rightarrow> nat \<Rightarrow> nat \<Rightarrow> gotype \<Rightarrow> bool" where
  "containsWithin P 0 v targetType = False"
| "containsWithin P (Suc depth) v targetType =
     (case converted (opr_Node P v) of
        None \<Rightarrow> False
      | Some x \<Rightarrow> typeContainsModel P (opr_Type P x) targetType \<or> containsWithin P depth x targetType)"

definition valueContainsModel :: "orm_program \<Rightarrow> nat \<Rightarrow> gotype \<Rightarrow> bool" where
  "valueContainsModel P v targetType \<longleftrightarrow>
     typeContainsModel P (opr_Type P v) targetType \<or> containsWithin P 8 v targetType"

section \<open>References\<close>

definition referencesType :: "type_env \<Rightarrow> gotype list \<times> gotype list \<Rightarrow> gotype \<Rightarrow> bool" where
  "referencesType E sig targetType \<longleftrightarrow>
     list_ex (\<lambda>t. Identical E t targetType
         \<or> (case t of TPointer e \<Rightarrow> Identical E e targetType | TSlice e \<Rightarrow> Identical E e targetType | _ \<Rightarrow> False)) (fst sig)
   \<or> list_ex (\<lambda>t. Identical E t targetType
         \<or> (case t of TPointer e \<Rightarrow> Identical E e targetType | _ \<Rightarrow> False)) (snd sig)"

fun instructionReferencesType :: "orm_program \<Rightarrow> gotype \<Rightarrow> orm_inst \<Rightarrow> bool" where
  "instructionReferencesType P targetType (OAlloc t) = typeContainsModel P t targetType"
| "instructionReferencesType P targetType (OMakeSlice t) = typeContainsModel P t targetType"
| "instructionReferencesType P targetType (OStore addr val) =
     (typeContainsModel P (opr_Type P addr) targetType \<or> typeContainsModel P (opr_Type P val) targetType)"
| "instructionReferencesType P targetType (OCall c) = list_ex (\<lambda>a. valueContainsModel P a targetType) (ocl_Args c)"
| "instructionReferencesType P targetType OOtherInst = False"

text \<open>A function counts once for its signature, otherwise once for every block: \<^verbatim>\<open>break\<close> leaves the block.\<close>

definition functionReferences :: "orm_program \<Rightarrow> gotype \<Rightarrow> orm_function \<Rightarrow> nat" where
  "functionReferences P targetType fn =
     (case ofn_Signature fn of
        None \<Rightarrow> 0
      | Some sig \<Rightarrow>
          if referencesType (opr_Types P) sig targetType then 1
          else length (filter (list_ex (instructionReferencesType P targetType)) (ofn_Blocks fn)))"

definition functionsOf :: "orm_program \<Rightarrow> nat list" where
  "functionsOf P = map the (filter (\<lambda>f. f \<noteq> None) (opr_SSAFuncs P))"

definition countStructReferences :: "orm_program \<Rightarrow> gotype \<Rightarrow> nat" where
  "countStructReferences P targetType = sum_list (map (\<lambda>f. functionReferences P targetType (opr_Func P f)) (functionsOf P))"

section \<open>Operations of the frameworks\<close>

definition ormMethods :: "string \<Rightarrow> string list" where
  "ormMethods framework =
     (if framework = ''gorm'' then
        [''Association'', ''Attrs'', ''Assign'', ''AutoMigrate'', ''Count'', ''Create'', ''CreateInBatches'', ''Delete'',
         ''Exec'', ''Find'', ''FindInBatches'', ''First'', ''FirstOrCreate'', ''FirstOrInit'', ''Last'', ''Model'',
         ''Pluck'', ''Raw'', ''Save'', ''Scan'', ''Scopes'', ''Take'', ''Update'', ''Updates'', ''Where'']
      else if framework = ''ent'' then
        [''Create'', ''UpdateOne'', ''Update'', ''Delete'', ''DeleteOne'', ''Query'', ''Get'', ''First'', ''Count'']
      else if framework = ''sqlx'' then [''Get'', ''Select'', ''Exec'', ''NamedExec'', ''Query'', ''QueryRow'']
      else if framework = ''bun'' then
        [''NewSelect'', ''NewInsert'', ''NewUpdate'', ''NewDelete'', ''NewRaw'', ''NewCreateTable'', ''NewDropTable'',
         ''Exec'', ''QueryRow'', ''Query'', ''Scan'']
      else [])"

definition sqlcPrefixes :: "string list" where
  "sqlcPrefixes = [''Create'', ''Get'', ''List'', ''Update'', ''Delete'', ''Count'', ''Exec'']"

definition ormCallMethodName :: "orm_program \<Rightarrow> orm_call \<Rightarrow> string" where
  "ormCallMethodName P c =
     (case ocl_Method c of
        Some m \<Rightarrow> m
      | None \<Rightarrow> (case ocl_Callee c of Some callee \<Rightarrow> ofn_Name (opr_Func P callee) | None \<Rightarrow> ''''))"

definition isOrmOperation :: "orm_program \<Rightarrow> orm_call \<Rightarrow> string \<Rightarrow> bool" where
  "isOrmOperation P c framework \<longleftrightarrow>
     (let methodName = ormCallMethodName P c
      in methodName \<noteq> ''''
       \<and> (methodName \<in> set (ormMethods framework)
          \<or> framework = ''sqlc'' \<and> list_ex (HasPrefix methodName) sqlcPrefixes))"

definition receiverValue :: "orm_program \<Rightarrow> orm_call \<Rightarrow> nat option" where
  "receiverValue P c =
     (case ocl_Callee c of
        Some callee \<Rightarrow>
          if ofn_HasRecv (opr_Func P callee) then (case ocl_Args c of a # _ \<Rightarrow> Some a | [] \<Rightarrow> None) else ocl_Value c
      | None \<Rightarrow> ocl_Value c)"

definition receiverContainsModel :: "orm_program \<Rightarrow> orm_call \<Rightarrow> gotype \<Rightarrow> bool" where
  "receiverContainsModel P c targetType \<longleftrightarrow>
     (case receiverValue P c of None \<Rightarrow> False | Some r \<Rightarrow> valueContainsModel P r targetType)"

section \<open>Parameters that reach an operation\<close>

fun sourceWithin :: "orm_program \<Rightarrow> nat \<Rightarrow> nat \<Rightarrow> nat \<Rightarrow> int" where
  "sourceWithin P 0 fn v = -1"
| "sourceWithin P (Suc depth) fn v =
     (if opr_Node P v = VParameter then index_where (\<lambda>p. p = v) 0 (ofn_Params (opr_Func P fn))
      else (case converted (opr_Node P v) of None \<Rightarrow> -1 | Some x \<Rightarrow> sourceWithin P depth fn x))"

definition sourceParamIndex :: "orm_program \<Rightarrow> nat \<Rightarrow> nat \<Rightarrow> int" where
  "sourceParamIndex P fn v = sourceWithin P 8 fn v"

definition callModelParamIndexes :: "orm_program \<Rightarrow> nat \<Rightarrow> nat list \<Rightarrow> int list" where
  "callModelParamIndexes P fn args = dedup (filter (\<lambda>i. 0 \<le> i) (map (sourceParamIndex P fn) args))"

definition callReceiverComesFromFunctionParam :: "orm_program \<Rightarrow> nat \<Rightarrow> orm_call \<Rightarrow> bool" where
  "callReceiverComesFromFunctionParam P fn c \<longleftrightarrow>
     (case receiverValue P c of None \<Rightarrow> False | Some r \<Rightarrow> 0 \<le> sourceParamIndex P fn r)"

definition callArgIndexForCalleeParam :: "int \<Rightarrow> int" where
  "callArgIndexForCalleeParam i = (if i < 0 then -1 else i)"

definition argAt :: "orm_call \<Rightarrow> int \<Rightarrow> nat option" where
  "argAt c j =
     (let i = callArgIndexForCalleeParam j
      in if 0 \<le> i \<and> i < int (length (ocl_Args c)) then Some (ocl_Args c ! nat i) else None)"

definition forwardedOrmParamIndexes :: "orm_program \<Rightarrow> nat \<Rightarrow> orm_call \<Rightarrow> int list \<Rightarrow> int list" where
  "forwardedOrmParamIndexes P fn c calleeIndexes =
     filter (\<lambda>i. 0 \<le> i) (List.map_filter (\<lambda>j. map_option (sourceParamIndex P fn) (argAt c j)) calleeIndexes)"

text \<open>
  The summaries: the sets of parameter indexes are shared by reference, the flag is a copy until
  the function is done.
\<close>

record orm_summaries =
  oms_Params :: "nat \<Rightarrow> int list"
  oms_Receiver :: "nat \<Rightarrow> bool"

record orm_scan =
  osc_Sums :: orm_summaries
  osc_Driven :: bool
  osc_Changed :: bool

definition addIndex :: "nat \<Rightarrow> int \<Rightarrow> orm_scan \<Rightarrow> orm_scan" where
  "addIndex fn i st =
     (let s = osc_Sums st
      in if i \<in> set (oms_Params s fn) then st
         else st\<lparr>osc_Sums := s\<lparr>oms_Params := (oms_Params s)(fn := i # oms_Params s fn)\<rparr>, osc_Changed := True\<rparr>)"

definition drive :: "bool \<Rightarrow> orm_scan \<Rightarrow> orm_scan" where
  "drive b st = (if b \<and> \<not> osc_Driven st then st\<lparr>osc_Driven := True, osc_Changed := True\<rparr> else st)"

definition scanInst :: "orm_program \<Rightarrow> string \<Rightarrow> nat \<Rightarrow> orm_inst \<Rightarrow> orm_scan \<Rightarrow> orm_scan" where
  "scanInst P framework fn inst st =
     (case inst of
        OCall c \<Rightarrow>
          if isOrmOperation P c framework then
            drive (callReceiverComesFromFunctionParam P fn c)
              (fold (addIndex fn) (callModelParamIndexes P fn (ocl_Args c)) st)
          else
            (case ocl_Callee c of
               None \<Rightarrow> st
             | Some callee \<Rightarrow>
                 if callee \<notin> set (functionsOf P) then st
                 else
                   let idxs = oms_Params (osc_Sums st) callee;
                       st = drive (oms_Receiver (osc_Sums st) callee \<and> callReceiverComesFromFunctionParam P fn c) st
                   in fold (addIndex fn) (forwardedOrmParamIndexes P fn c idxs) st)
      | _ \<Rightarrow> st)"

definition scanFunction :: "orm_program \<Rightarrow> string \<Rightarrow> nat \<Rightarrow> orm_summaries \<times> bool \<Rightarrow> orm_summaries \<times> bool" where
  "scanFunction P framework fn sc =
     (let (s, changed) = sc;
          st = fold (scanInst P framework fn) (concat (ofn_Blocks (opr_Func P fn)))
             \<lparr>osc_Sums = s, osc_Driven = oms_Receiver s fn, osc_Changed = changed\<rparr>
      in ((osc_Sums st)\<lparr>oms_Receiver := (oms_Receiver (osc_Sums st))(fn := osc_Driven st)\<rparr>, osc_Changed st))"

definition scanPass :: "orm_program \<Rightarrow> string \<Rightarrow> orm_summaries \<Rightarrow> orm_summaries \<times> bool" where
  "scanPass P framework s = fold (scanFunction P framework) (functionsOf P) (s, False)"

fun scanPasses :: "orm_program \<Rightarrow> string \<Rightarrow> nat \<Rightarrow> orm_summaries \<Rightarrow> orm_summaries" where
  "scanPasses P framework 0 s = s"
| "scanPasses P framework (Suc n) s =
     (let (s', changed) = scanPass P framework s in if changed then scanPasses P framework n s' else s')"

definition maxOrmUsageExpansionDepth :: nat where
  "maxOrmUsageExpansionDepth = 4"

definition buildOrmUsageSummaries :: "orm_program \<Rightarrow> string \<Rightarrow> orm_summaries" where
  "buildOrmUsageSummaries P framework =
     scanPasses P framework maxOrmUsageExpansionDepth \<lparr>oms_Params = (\<lambda>_. []), oms_Receiver = (\<lambda>_. False)\<rparr>"

definition callUsesModelInOrm ::
  "orm_program \<Rightarrow> orm_call \<Rightarrow> gotype \<Rightarrow> string \<Rightarrow> orm_summaries \<Rightarrow> nat \<Rightarrow> string list \<Rightarrow> bool" where
  "callUsesModelInOrm P c targetType framework sums depth seen \<longleftrightarrow>
     isOrmOperation P c framework
       \<and> (list_ex (\<lambda>a. valueContainsModel P a targetType) (ocl_Args c) \<or> receiverContainsModel P c targetType)
   \<or> depth > 0
       \<and> (case ocl_Callee c of
            None \<Rightarrow> False
          | Some callee \<Rightarrow>
              ofn_String (opr_Func P callee) \<notin> set seen \<and> callee \<in> set (functionsOf P)
              \<and> (list_ex (\<lambda>j. case argAt c j of None \<Rightarrow> False | Some a \<Rightarrow> valueContainsModel P a targetType)
                   (oms_Params sums callee)
                 \<or> oms_Receiver sums callee \<and> receiverContainsModel P c targetType))"

fun instUsesModel :: "orm_program \<Rightarrow> gotype \<Rightarrow> string \<Rightarrow> orm_summaries \<Rightarrow> orm_inst \<Rightarrow> bool" where
  "instUsesModel P targetType framework sums (OCall c) =
     callUsesModelInOrm P c targetType framework sums maxOrmUsageExpansionDepth []"
| "instUsesModel P targetType framework sums _ = False"

definition hasOrmUsage :: "orm_program \<Rightarrow> gotype \<Rightarrow> string \<Rightarrow> bool" where
  "hasOrmUsage P targetType framework \<longleftrightarrow>
     (let sums = buildOrmUsageSummaries P framework
      in list_ex (\<lambda>f. list_ex (instUsesModel P targetType framework sums) (concat (ofn_Blocks (opr_Func P f)))) (functionsOf P))"

section \<open>Finding models\<close>

text \<open>A struct field with its tag literal and its type, and a type declaration at its place.\<close>

record orm_field =
  ofd_Tag :: "string option"
  ofd_Type :: expr

record orm_spec =
  osp_Name :: string
  osp_Struct :: "orm_field list option"    \<comment> \<open>\<open>None\<close>: not a struct type\<close>
  osp_File :: string
  osp_Line :: int

record orm_package =
  opk_PkgPath :: string
  opk_Fset :: bool
  opk_Files :: "(string \<times> orm_spec option list) list list"
    \<comment> \<open>per file, in the order of \<^verbatim>\<open>ast.Inspect\<close>, the declarations: token and type specifications\<close>

definition fieldTags :: "orm_field list \<Rightarrow> string list" where
  "fieldTags fs = map (\<lambda>t. Trim t [CHR 0x60]) (List.map_filter ofd_Tag fs)"

definition has_tag :: "string \<Rightarrow> string \<Rightarrow> bool" where
  "has_tag name tag \<longleftrightarrow> Contains tag (name @ '':'') \<or> Contains tag (name @ [CHR 0x22])"

definition hasGormTagInAST :: "orm_field list \<Rightarrow> bool" where
  "hasGormTagInAST fs = list_ex (has_tag ''gorm'') (fieldTags fs)"

definition hasEntTagInAST :: "orm_field list \<Rightarrow> string \<Rightarrow> bool" where
  "hasEntTagInAST fs filename \<longleftrightarrow>
     Contains filename ''ent/schema/''
   \<or> list_ex (\<lambda>f. case ofd_Type f of SelectorExpr _ (Some sel) \<Rightarrow> sel = ''Field'' \<or> sel = ''schema'' | _ \<Rightarrow> False) fs"

definition hasSqlxTagInAST :: "orm_field list \<Rightarrow> bool" where
  "hasSqlxTagInAST fs = list_ex (\<lambda>tag. has_tag ''db'' tag \<and> \<not> has_tag ''gorm'' tag) (fieldTags fs)"

definition hasBunTagInAST :: "orm_field list \<Rightarrow> bool" where
  "hasBunTagInAST fs = list_ex (has_tag ''bun'') (fieldTags fs)"

definition isSqlcModel :: "string \<Rightarrow> bool" where
  "isSqlcModel filename \<longleftrightarrow> (let base = Base filename in base = ''models.go'' \<or> HasSuffix base ''.sql.go'')"

definition detectOrmFrameworkFromAST :: "orm_field list \<Rightarrow> string \<Rightarrow> string" where
  "detectOrmFrameworkFromAST fs filename =
     (if hasGormTagInAST fs then ''gorm''
      else if hasEntTagInAST fs filename then ''ent''
      else if hasSqlxTagInAST fs then ''sqlx''
      else if hasBunTagInAST fs then ''bun''
      else if isSqlcModel filename then ''sqlc'' else '''')"

definition modelOfSpec :: "string \<Rightarrow> orm_spec option \<Rightarrow> OrmModel option" where
  "modelOfSpec pkgPath spec =
     (case spec of
        None \<Rightarrow> None
      | Some s \<Rightarrow>
          (case osp_Struct s of
             None \<Rightarrow> None
           | Some fs \<Rightarrow>
               let framework = detectOrmFrameworkFromAST fs (osp_File s)
               in if framework \<noteq> ''''
                  then Some \<lparr>orm_Name = osp_Name s, orm_Pkg = pkgPath, orm_File = osp_File s, orm_Line = osp_Line s,
                         orm_Framework = framework\<rparr>
                  else None))"

definition extractOrmModelsFromSyntax :: "orm_package list \<Rightarrow> OrmModel list" where
  "extractOrmModelsFromSyntax pkgs =
     concat (map (\<lambda>pkg. concat (map (\<lambda>decls. concat (map (\<lambda>(tok, specs).
           if tok \<noteq> ''type'' then [] else List.map_filter (modelOfSpec (opk_PkgPath pkg)) specs) decls)) (opk_Files pkg)))
       (filter (\<lambda>pkg. opk_Fset pkg \<and> length (opk_Files pkg) \<noteq> 0) pkgs))"

section \<open>Migrations\<close>

text \<open>
  \<^verbatim>\<open>filepath.Walk\<close> gives the paths under a directory in order, with whether one is a file
  that could be examined; reading a file that cannot be read gives no text.
\<close>

record migration_files =
  mgf_Walk :: "string \<Rightarrow> (string \<times> bool) list"
  mgf_ReadFile :: "string \<Rightarrow> string"

definition FileExt :: "string \<Rightarrow> string" where
  "FileExt path =
     (let base = last (Split CHR ''/'' path)
      in case LastIndex base CHR ''.'' of None \<Rightarrow> '''' | Some i \<Rightarrow> drop i base)"

definition readMigrationFiles :: "migration_files \<Rightarrow> string \<Rightarrow> string list \<Rightarrow> string" where
  "readMigrationFiles M dir migrationDirs =
     concat (map (\<lambda>mdir. concat (map (\<lambda>(path, ok).
         if ok \<and> FileExt path \<in> {''.sql'', ''.go''} then mgf_ReadFile M path @ [CHR 0x0A] else '''')
       (mgf_Walk M (JoinPath [dir, mdir])))) migrationDirs)"

definition snake_rune :: "nat \<times> nat \<Rightarrow> string" where
  "snake_rune ir =
     (let (i, r) = ir
      in if 65 \<le> r \<and> r \<le> 90 then (if i > 0 then ''_'' else '''') @ [char_of (r + 32)] else rune_bytes r)"

definition inferTableName :: "string \<Rightarrow> string \<Rightarrow> string \<Rightarrow> string" where
  "inferTableName modelName framework configInference =
     (if configInference = ''exact'' then modelName
      else let snake = concat (map snake_rune (runes modelName))
           in if configInference = ''snake'' then snake
              else if HasSuffix snake ''y'' then take (length snake - 1) snake @ ''ies''
              else if HasSuffix snake ''s'' then snake @ ''es''
              else snake @ ''s'')"

definition checkInMigrations :: "string \<Rightarrow> string \<Rightarrow> bool" where
  "checkInMigrations tableName migrationsText \<longleftrightarrow>
     migrationsText = ''''
   \<or> list_ex (Contains migrationsText)
       [''TABLE '' @ tableName @ '' '', ''TABLE '' @ [CHR 0x22] @ tableName @ [CHR 0x22],
        ''TABLE '' @ [CHR 0x60] @ tableName @ [CHR 0x60], ''TABLE '' @ [CHR 0x27] @ tableName @ [CHR 0x27],
        ''table '' @ tableName @ '' '', [CHR 0x22] @ tableName @ [CHR 0x22], [CHR 0x60] @ tableName @ [CHR 0x60],
        [CHR 0x27] @ tableName @ [CHR 0x27]]"

section \<open>The report\<close>

definition findModelType :: "orm_program \<Rightarrow> OrmModel \<Rightarrow> gotype option" where
  "findModelType P om =
     (case filter (\<lambda>t. t \<noteq> None) (map (\<lambda>pkg. case pkg of
           Some (path, Some scope) \<Rightarrow> if path = orm_Pkg om then scope (orm_Name om) else None
         | _ \<Rightarrow> None) (opr_Packages P)) of
        [] \<Rightarrow> None | t # _ \<Rightarrow> t)"

definition orphanedModelMetadata :: "OrphanedModelReason \<Rightarrow> string \<times> string" where
  "orphanedModelMetadata reason =
     (case reason of
        OrphanedNoReferences \<Rightarrow> (''high'', ''candidate_for_delete'')
      | OrphanedNoOrmUsage \<Rightarrow> (''medium'', ''verify_before_delete''))"

definition ormBool :: "bool \<Rightarrow> string" where
  "ormBool b = (if b then ''true'' else ''false'')"

definition orphanReason ::
  "nat \<Rightarrow> bool \<Rightarrow> bool \<Rightarrow> string \<Rightarrow> string \<Rightarrow> (OrphanedModelReason \<times> string) option" where
  "orphanReason refs ormUsage inMigrations migrationsText tableName =
     (if refs = 0 \<and> \<not> ormUsage \<and> \<not> inMigrations then
        Some (OrphanedNoReferences, ''no references to this struct type found in the program and table '' @ go_quote tableName
          @ '' not found in migrations'')
      else if refs > 0 \<and> \<not> ormUsage \<and> \<not> inMigrations then
        Some (OrphanedNoOrmUsage, ''found '' @ Itoa (int refs) @ '' reference(s), no ORM usage, and table '' @ go_quote tableName
          @ '' not found in migrations'')
      else if refs = 0 \<and> \<not> ormUsage \<and> length migrationsText = 0 then
        Some (OrphanedNoReferences, ''no references to this struct type found in the program'')
      else if refs > 0 \<and> \<not> ormUsage \<and> length migrationsText = 0 then
        Some (OrphanedNoOrmUsage, ''found '' @ Itoa (int refs)
          @ '' reference(s) but no ORM/database operations; no migration directories were configured'')
      else None)"

definition orphanOf :: "orm_program \<Rightarrow> string \<Rightarrow> string \<Rightarrow> OrmModel \<times> gotype \<Rightarrow> OrphanedModel option" where
  "orphanOf P migrationsText inference mt =
     (let (model, typ) = mt;
          refs = countStructReferences P typ;
          ormUsage = hasOrmUsage P typ (orm_Framework model);
          tableName = inferTableName (orm_Name model) (orm_Framework model) inference;
          inMigrations = checkInMigrations tableName migrationsText
      in case orphanReason refs ormUsage inMigrations migrationsText tableName of
           None \<Rightarrow> None
         | Some (reason, notes) \<Rightarrow>
             let (confidence, actionability) = orphanedModelMetadata reason;
                 notes = (if length migrationsText > 0 \<and> \<not> inMigrations \<and> reason \<noteq> OrphanedNoOrmUsage
                   then notes @ '' (also not found in migrations as '' @ go_quote tableName @ '')'' else notes)
             in Some \<lparr>omd_Name = orm_Name model, omd_Package = orm_Pkg model, omd_File = orm_File model,
                  omd_Line = orm_Line model, omd_Anchor = contextAnchor (orm_File model) (orm_Line model) (orm_Name model),
                  omd_ORMFramework = orm_Framework model, omd_Reason = reason, omd_Confidence = confidence,
                  omd_Actionability = actionability,
                  omd_Evidence = [''references='' @ Itoa (int refs), ''orm_usage='' @ ormBool ormUsage,
                    ''in_migrations='' @ ormBool inMigrations],
                  omd_Notes = notes\<rparr>)"

definition orphan_less :: "OrphanedModel \<Rightarrow> OrphanedModel \<Rightarrow> bool" where
  "orphan_less a b =
     (if omd_Package a \<noteq> omd_Package b then omd_Package a < omd_Package b else omd_Name a < omd_Name b)"

definition orphanedModelKey :: "OrphanedModel \<Rightarrow> string" where
  "orphanedModelKey m = omd_Package m @ ''|'' @ omd_Name m @ ''|'' @ omd_File m @ '':'' @ Itoa (omd_Line m)"

definition detailedModels :: "orm_program \<Rightarrow> string list \<Rightarrow> (OrmModel \<times> gotype) list" where
  "detailedModels P scopePkgs =
     List.map_filter (\<lambda>om. case findModelType P om of
         None \<Rightarrow> None
       | Some typ \<Rightarrow> if length scopePkgs > 0 \<and> orm_Pkg om \<notin> set scopePkgs then None else Some (om, typ)) (opr_ormModels P)"

definition ormFrameworks :: "string list" where
  "ormFrameworks = [''gorm'', ''ent'', ''sqlx'', ''bun'', ''sqlc'']"

datatype orm_error = OrmLoad string | OrmFrameworkError string | OrmStream stream_error

definition tally_bump :: "string \<Rightarrow> (string \<Rightarrow> nat) \<Rightarrow> string \<Rightarrow> nat" where
  "tally_bump k m = m(k := m k + 1)"

definition tally :: "('a \<Rightarrow> string) \<Rightarrow> 'a list \<Rightarrow> string \<Rightarrow> nat" where
  "tally f xs = fold (\<lambda>x. tally_bump (f x)) xs (\<lambda>_. 0)"

definition orphanNotes :: "string list" where
  "orphanNotes = [
     ''Models detected by GORM tag presence (gorm:'' @ [CHR 0x22] @ ''...'' @ [CHR 0x22] @ '') only.'',
     ''Reflection-based patterns and raw SQL queries are not detected.'',
     ''Test-only models may appear orphaned if test packages are not included in the scan pattern.'']"

definition orphanedModels :: "orm_program \<Rightarrow> string list \<Rightarrow> string \<Rightarrow> string \<Rightarrow> OrphanedModel list" where
  "orphanedModels P scopePkgs migrationsText inference =
     sort_slice orphan_less (List.map_filter (orphanOf P migrationsText inference) (detailedModels P scopePkgs))"

definition FindOrphanedDatabaseModelsWithOptions ::
  "paging \<Rightarrow> migration_files \<Rightarrow> (string \<Rightarrow> bool) \<Rightarrow> (string \<times> string list) list \<Rightarrow> string + orm_program
   \<Rightarrow> string \<Rightarrow> string \<Rightarrow> OrphanedModelOptions \<Rightarrow> QueryOptions \<Rightarrow> orm_error + OrphanedModelResult" where
  "FindOrphanedDatabaseModelsWithOptions pg M exists pkgs loaded dir pattern oOpts qOpts =
     (case loaded of
        Inl e \<Rightarrow> Inl (OrmLoad (''loading packages: '' @ e))
      | Inr P \<Rightarrow>
          let scopePkgs = selectedPackageSet exists pkgs dir (SplitPatterns (oo_ScopePattern oOpts));
              framework = (if oo_ORMFramework oOpts = '''' then ''gorm'' else oo_ORMFramework oOpts)
          in if framework \<notin> set ormFrameworks then
               Inl (OrmFrameworkError (''unsupported ORM framework: '' @ framework @ '' (currently '' @ [CHR 0x27] @ ''gorm''
                 @ [CHR 0x27] @ '', '' @ [CHR 0x27] @ ''ent'' @ [CHR 0x27] @ '', '' @ [CHR 0x27] @ ''sqlx'' @ [CHR 0x27]
                 @ '', '' @ [CHR 0x27] @ ''bun'' @ [CHR 0x27] @ '', and '' @ [CHR 0x27] @ ''sqlc'' @ [CHR 0x27]
                 @ '' are supported)''))
             else
               let migrationsText = readMigrationFiles M dir (oo_MigrationDirs oOpts);
                   orphaned = orphanedModels P scopePkgs migrationsText (oo_TableInference oOpts)
               in case page_items pg orphaned (''orphaned_models:'' @ dir @ ''|'' @ pattern) orphanedModelKey qOpts of
                    Inl e \<Rightarrow> Inl (OrmStream e)
                  | Inr w \<Rightarrow> Inr \<lparr>orr_Models = wr_items w, orr_Total = int (length orphaned), orr_ORMFramework = framework,
                      orr_Scanned = int (length (opr_ormModels P)), orr_ScopePattern = oo_ScopePattern oOpts,
                      orr_Summary = \<lparr>osm_Total = int (length orphaned), osm_Returned = int (length (wr_items w)),
                        osm_ByReason = tally (\<lambda>m. reasonText (omd_Reason m)) orphaned,
                        osm_ByConfidence = tally omd_Confidence orphaned\<rparr>,
                      orr_Notes = orphanNotes, orr_Offset = qo_Offset qOpts, orr_Limit = qo_Limit qOpts,
                      orr_MaxItems = qo_MaxItems qOpts,
                      orr_ChunkSize = (if qo_ChunkSize qOpts > 0 then clampChunkSize (pg_env pg) (qo_ChunkSize qOpts) else 0),
                      orr_NextCursor = wr_next w, orr_HasMore = wr_more w, orr_TotalBeforeTruncate = int (length orphaned),
                      orr_Truncated = wr_truncated w\<rparr>)"

definition FindOrphanedDatabaseModels ::
  "paging \<Rightarrow> migration_files \<Rightarrow> (string \<Rightarrow> bool) \<Rightarrow> (string \<times> string list) list \<Rightarrow> string + orm_program
   \<Rightarrow> string \<Rightarrow> string \<Rightarrow> OrphanedModelOptions \<Rightarrow> orm_error + OrphanedModelResult" where
  "FindOrphanedDatabaseModels pg M exists pkgs loaded dir pattern opts =
     FindOrphanedDatabaseModelsWithOptions pg M exists pkgs loaded dir pattern opts
       \<lparr>qo_Limit = 0, qo_Offset = 0, qo_MaxItems = 0, qo_Summary = False, qo_Cursor = '''', qo_ChunkSize = 0, qo_Export = ExportNone\<rparr>"

section \<open>Recursive types\<close>

text \<open>What it means for a type to hold a model, with no map of seen types.\<close>

inductive holds_model :: "type_env \<Rightarrow> gotype \<Rightarrow> gotype \<Rightarrow> bool" for E targetType where
  same: "Identical E t targetType \<Longrightarrow> holds_model E targetType t"
| pointer: "holds_model E targetType t \<Longrightarrow> holds_model E targetType (TPointer t)"
| slice: "holds_model E targetType t \<Longrightarrow> holds_model E targetType (TSlice t)"
| array: "holds_model E targetType t \<Longrightarrow> holds_model E targetType (TArray t)"
| named: "holds_model E targetType (ty_Under E n) \<Longrightarrow> holds_model E targetType (TNamed n)"
| aliased: "holds_model E targetType (ty_Alias E n) \<Longrightarrow> holds_model E targetType (TAlias n)"

fun next_type :: "type_env \<Rightarrow> gotype \<Rightarrow> gotype option" where
  "next_type E (TPointer t) = Some t"
| "next_type E (TSlice t) = Some t"
| "next_type E (TArray t) = Some t"
| "next_type E (TNamed n) = Some (ty_Under E n)"
| "next_type E (TAlias n) = Some (ty_Alias E n)"
| "next_type E _ = None"

fun opened_names :: "gotype \<Rightarrow> nat set" where
  "opened_names (TPointer t) = opened_names t"
| "opened_names (TSlice t) = opened_names t"
| "opened_names (TArray t) = opened_names t"
| "opened_names (TNamed n) = {n}"
| "opened_names (TAlias n) = {n}"
| "opened_names _ = {}"

definition all_named :: "type_env \<Rightarrow> nat list \<Rightarrow> bool" where
  "all_named E names \<longleftrightarrow>
     (\<forall>n\<in>set names. opened_names (ty_Under E n) \<subseteq> set names \<and> opened_names (ty_Alias E n) \<subseteq> set names)"

lemma next_named:
  "all_named E names \<Longrightarrow> opened_names t \<subseteq> set names \<Longrightarrow> next_type E t = Some u \<Longrightarrow> opened_names u \<subseteq> set names"
  by (cases t) (auto simp: all_named_def)

lemma seen_step:
  "opened_names t \<subseteq> set names \<Longrightarrow>
   typeContainsModelSeen E names t targetType seen =
     (Identical E t targetType \<or> t \<notin> set seen
       \<and> (case next_type E t of None \<Rightarrow> False | Some u \<Rightarrow> typeContainsModelSeen E names u targetType (t # seen)))"
  by (subst typeContainsModelSeen.simps) (cases t; simp)

text \<open>The number of steps to the model; every type has at most one.\<close>

fun steps_to :: "type_env \<Rightarrow> gotype \<Rightarrow> nat \<Rightarrow> gotype \<Rightarrow> bool" where
  "steps_to E targetType 0 t = Identical E t targetType"
| "steps_to E targetType (Suc k) t =
     (\<not> Identical E t targetType \<and> (case next_type E t of None \<Rightarrow> False | Some u \<Rightarrow> steps_to E targetType k u))"

lemma steps_unique: "steps_to E targetType j t \<Longrightarrow> steps_to E targetType k t \<Longrightarrow> j = k"
proof (induction j arbitrary: k t)
  case 0
  then show ?case by (cases k) auto
next
  case (Suc j)
  then show ?case by (cases k) (auto split: option.splits)
qed

lemma holds_steps: "holds_model E targetType t \<longleftrightarrow> (\<exists>k. steps_to E targetType k t)"
proof
  have step: "\<exists>k. steps_to E targetType k t" if "steps_to E targetType k u" "next_type E t = Some u" for k t u
    by (cases "Identical E t targetType") (use that in \<open>auto intro: exI [of _ 0] exI [of _ "Suc k"]\<close>)
  assume "holds_model E targetType t"
  then show "\<exists>k. steps_to E targetType k t"
  proof induction
    case (same t)
    then show ?case by (auto intro: exI [of _ 0])
  qed (auto intro: step)
next
  assume "\<exists>k. steps_to E targetType k t"
  then obtain k where "steps_to E targetType k t" by blast
  then show "holds_model E targetType t"
  proof (induction k arbitrary: t)
    case (Suc k)
    then obtain u where u: "next_type E t = Some u" "holds_model E targetType u" by (auto split: option.splits)
    then show ?case by (cases t) (auto intro: holds_model.intros)
  qed (simp add: same)
qed

lemma walk_complete:
  "steps_to E targetType k t \<Longrightarrow> all_named E names \<Longrightarrow> opened_names t \<subseteq> set names
   \<Longrightarrow> \<forall>s\<in>set seen. \<forall>j\<le>k. \<not> steps_to E targetType j s \<Longrightarrow> typeContainsModelSeen E names t targetType seen"
proof (induction k arbitrary: t seen)
  case 0
  then show ?case by (simp add: seen_step)
next
  case (Suc k)
  then obtain u where u: "next_type E t = Some u" "steps_to E targetType k u" by (auto split: option.splits)
  have "t \<notin> set seen" using Suc.prems(1,4) by blast
  moreover have "typeContainsModelSeen E names u targetType (t # seen)"
  proof (rule Suc.IH [OF u(2) Suc.prems(2)])
    show "opened_names u \<subseteq> set names" using Suc.prems(2,3) u(1) by (rule next_named)
    show "\<forall>s\<in>set (t # seen). \<forall>j\<le>k. \<not> steps_to E targetType j s"
      using Suc.prems(1,4) steps_unique [of E targetType _ t "Suc k"] by fastforce
  qed
  ultimately show ?case using Suc.prems(3) u(1) by (simp add: seen_step)
qed

lemma walk_sound:
  "typeContainsModelSeen E names t targetType seen \<Longrightarrow> holds_model E targetType t"
proof (induction E names t targetType seen rule: typeContainsModelSeen.induct)
  case (1 E names t targetType seen)
  show ?case
  proof (cases "Identical E t targetType \<or> t \<in> set seen")
    case True
    then show ?thesis using "1.prems" by (subst (asm) typeContainsModelSeen.simps) (auto intro: same split: if_splits)
  next
    case False
    then show ?thesis
      using "1.prems" "1.IH" by (subst (asm) typeContainsModelSeen.simps) (cases t; auto intro: holds_model.intros split: if_splits)
  qed
qed

text \<open>
  C33: the walk over a type finds the model exactly when the type holds it through pointers,
  slices, arrays, declared types and aliases: cutting the walk off at types seen before loses
  nothing, also on recursive types.
\<close>

theorem type_walk_exact:
  assumes "all_named (opr_Types P) (opr_Named P)" "opened_names t \<subseteq> set (opr_Named P)"
  shows "typeContainsModel P t targetType \<longleftrightarrow> holds_model (opr_Types P) targetType t"
proof
  show "holds_model (opr_Types P) targetType t" if "typeContainsModel P t targetType"
    using that walk_sound by (simp add: typeContainsModel_def)
  assume "holds_model (opr_Types P) targetType t"
  then obtain k where "steps_to (opr_Types P) targetType k t" by (auto simp: holds_steps)
  then show "typeContainsModel P t targetType"
    using walk_complete assms by (simp add: typeContainsModel_def)
qed

section \<open>Wrappers\<close>

text \<open>
  A parameter feeds an operation at depth one when an operation in the body takes it, and at
  depth k + 1 when the body passes it on to a parameter that feeds one at depth k.
\<close>

abbreviation calls_in :: "orm_program \<Rightarrow> nat \<Rightarrow> orm_call set" where
  "calls_in P f \<equiv> {c. OCall c \<in> set (concat (ofn_Blocks (opr_Func P f)))}"

inductive feeds :: "orm_program \<Rightarrow> string \<Rightarrow> nat \<Rightarrow> nat \<Rightarrow> int \<Rightarrow> bool" for P framework where
  direct: "f \<in> set (functionsOf P) \<Longrightarrow> c \<in> calls_in P f \<Longrightarrow> isOrmOperation P c framework \<Longrightarrow> a \<in> set (ocl_Args c)
    \<Longrightarrow> sourceParamIndex P f a = i \<Longrightarrow> 0 \<le> i \<Longrightarrow> feeds P framework 1 f i"
| forward: "f \<in> set (functionsOf P) \<Longrightarrow> c \<in> calls_in P f \<Longrightarrow> \<not> isOrmOperation P c framework \<Longrightarrow> ocl_Callee c = Some g
    \<Longrightarrow> feeds P framework k g j \<Longrightarrow> argAt c j = Some a \<Longrightarrow> sourceParamIndex P f a = i \<Longrightarrow> 0 \<le> i
    \<Longrightarrow> feeds P framework (Suc k) f i"

lemma feeds_function: "feeds P framework k f i \<Longrightarrow> f \<in> set (functionsOf P) \<and> 0 < k"
  by (induction rule: feeds.induct) auto

text \<open>The scan only adds.\<close>

definition sums_grow :: "orm_summaries \<Rightarrow> orm_summaries \<Rightarrow> bool" where
  "sums_grow s s' \<longleftrightarrow> (\<forall>f. set (oms_Params s f) \<subseteq> set (oms_Params s' f))"

lemma growth_refl [simp, intro]: "sums_grow s s"
  by (simp add: sums_grow_def)

lemma growth_trans [trans]: "sums_grow s t \<Longrightarrow> sums_grow t u \<Longrightarrow> sums_grow s u"
  by (fastforce simp: sums_grow_def)

lemma growsD: "sums_grow s t \<Longrightarrow> i \<in> set (oms_Params s f) \<Longrightarrow> i \<in> set (oms_Params t f)"
  by (auto simp: sums_grow_def)

lemma addIndex_grows: "sums_grow (osc_Sums st) (osc_Sums (addIndex fn i st))"
  by (auto simp: sums_grow_def addIndex_def Let_def)

lemma addIndexes_grow: "sums_grow (osc_Sums st) (osc_Sums (fold (addIndex fn) is st))"
  by (induction "is" arbitrary: st) (auto intro: growth_trans addIndex_grows)

lemma addIndexes_all: "i \<in> set is \<Longrightarrow> i \<in> set (oms_Params (osc_Sums (fold (addIndex fn) is st)) fn)"
proof (induction "is" arbitrary: st)
  case (Cons j js)
  have "i \<in> set (oms_Params (osc_Sums (fold (addIndex fn) js (addIndex fn j st))) fn)" if "i = j"
    by (rule growsD [OF addIndexes_grow]) (auto simp: that addIndex_def Let_def)
  then show ?case using Cons by auto
qed simp

lemma drive_sums [simp]: "osc_Sums (drive b st) = osc_Sums st"
  by (simp add: drive_def)

lemma scanInst_grows: "sums_grow (osc_Sums st) (osc_Sums (scanInst P framework fn inst st))"
proof (cases inst)
  case (OCall c)
  then show ?thesis
    using addIndexes_grow [of "drive _ st"] addIndexes_grow [of st]
    by (auto simp: scanInst_def Let_def split: option.splits)
qed (simp_all add: scanInst_def)

lemma scanInsts_grow: "sums_grow (osc_Sums st) (osc_Sums (fold (scanInst P framework fn) insts st))"
  by (induction insts arbitrary: st) (auto intro: growth_trans scanInst_grows)

text \<open>What an instruction contributes, given the summaries before.\<close>

definition contributes :: "orm_program \<Rightarrow> string \<Rightarrow> nat \<Rightarrow> orm_call \<Rightarrow> orm_summaries \<Rightarrow> int set" where
  "contributes P framework fn c s =
     {i. 0 \<le> i \<and> (if isOrmOperation P c framework then i \<in> sourceParamIndex P fn ` set (ocl_Args c)
       else \<exists>g j a. ocl_Callee c = Some g \<and> g \<in> set (functionsOf P) \<and> j \<in> set (oms_Params s g)
         \<and> argAt c j = Some a \<and> sourceParamIndex P fn a = i)}"

lemma contributes_mono: "sums_grow s t \<Longrightarrow> contributes P framework fn c s \<subseteq> contributes P framework fn c t"
  by (auto simp: contributes_def dest: growsD split: if_splits)

lemma forwarded_member:
  "j \<in> set js \<Longrightarrow> argAt c j = Some a \<Longrightarrow> 0 \<le> sourceParamIndex P fn a
   \<Longrightarrow> sourceParamIndex P fn a \<in> set (forwardedOrmParamIndexes P fn c js)"
  by (force simp: forwardedOrmParamIndexes_def List.map_filter_def)

lemma scanInst_contributes:
  assumes "i \<in> contributes P framework fn c (osc_Sums st)"
  shows "i \<in> set (oms_Params (osc_Sums (scanInst P framework fn (OCall c) st)) fn)"
proof (cases "isOrmOperation P c framework")
  case True
  then have "i \<in> set (callModelParamIndexes P fn (ocl_Args c))"
    using assms by (auto simp: contributes_def callModelParamIndexes_def)
  then show ?thesis using True by (simp add: scanInst_def addIndexes_all)
next
  case False
  then obtain g j a where g: "ocl_Callee c = Some g" "g \<in> set (functionsOf P)" "j \<in> set (oms_Params (osc_Sums st) g)"
      "argAt c j = Some a" "sourceParamIndex P fn a = i" "0 \<le> i"
    using assms by (auto simp: contributes_def)
  then have "i \<in> set (forwardedOrmParamIndexes P fn c (oms_Params (osc_Sums st) g))"
    using forwarded_member by blast
  then show ?thesis using False g(1,2) by (simp add: scanInst_def Let_def addIndexes_all)
qed

lemma scanInsts_contribute:
  "OCall c \<in> set insts \<Longrightarrow> contributes P framework fn c (osc_Sums st)
     \<subseteq> set (oms_Params (osc_Sums (fold (scanInst P framework fn) insts st)) fn)"
proof (induction insts arbitrary: st)
  case (Cons inst insts)
  show ?case
  proof (cases "inst = OCall c")
    case True
    have "contributes P framework fn c (osc_Sums st) \<subseteq> set (oms_Params (osc_Sums (scanInst P framework fn inst st)) fn)"
      using scanInst_contributes True by blast
    also have "... \<subseteq> set (oms_Params (osc_Sums (fold (scanInst P framework fn) insts (scanInst P framework fn inst st))) fn)"
      using scanInsts_grow by (auto simp: sums_grow_def)
    finally show ?thesis by simp
  next
    case False
    then have "contributes P framework fn c (osc_Sums (scanInst P framework fn inst st))
        \<subseteq> set (oms_Params (osc_Sums (fold (scanInst P framework fn) insts (scanInst P framework fn inst st))) fn)"
      using Cons by auto
    then show ?thesis using contributes_mono [OF scanInst_grows] by fastforce
  qed
qed simp

lemma scanFunction_grows: "sums_grow s (fst (scanFunction P framework fn (s, changed)))"
  using scanInsts_grow [of "\<lparr>osc_Sums = s, osc_Driven = oms_Receiver s fn, osc_Changed = changed\<rparr>"]
  by (simp add: scanFunction_def sums_grow_def Let_def)

lemma scanFunction_contributes:
  "c \<in> calls_in P fn \<Longrightarrow> contributes P framework fn c s \<subseteq> set (oms_Params (fst (scanFunction P framework fn (s, changed))) fn)"
  using scanInsts_contribute [of c _ P framework fn "\<lparr>osc_Sums = s, osc_Driven = oms_Receiver s fn, osc_Changed = changed\<rparr>"]
  by (simp add: scanFunction_def Let_def)

lemma scanFunctions_grow: "sums_grow (fst sc) (fst (fold (scanFunction P framework) fns sc))"
proof (induction fns arbitrary: sc)
  case (Cons fn fns)
  have "sums_grow (fst sc) (fst (scanFunction P framework fn sc))"
    using scanFunction_grows [of "fst sc" P framework fn "snd sc"] by simp
  then show ?case using Cons [of "scanFunction P framework fn sc"] growth_trans by auto
qed simp

lemma scanFunctions_contribute:
  "fn \<in> set fns \<Longrightarrow> c \<in> calls_in P fn \<Longrightarrow> contributes P framework fn c (fst sc)
     \<subseteq> set (oms_Params (fst (fold (scanFunction P framework) fns sc)) fn)"
proof (induction fns arbitrary: sc)
  case (Cons g fns)
  have grow: "sums_grow (fst sc) (fst (scanFunction P framework g sc))"
    using scanFunction_grows [of "fst sc" P framework g "snd sc"] by simp
  show ?case
  proof (cases "g = fn")
    case True
    have "contributes P framework fn c (fst sc) \<subseteq> set (oms_Params (fst (scanFunction P framework fn sc)) fn)"
      using scanFunction_contributes [of c P fn framework "fst sc" "snd sc"] Cons.prems(2) by simp
    then show ?thesis using scanFunctions_grow [of "scanFunction P framework fn sc"] True by (fastforce simp: sums_grow_def)
  next
    case False
    then show ?thesis using Cons contributes_mono [OF grow] by fastforce
  qed
qed simp

text \<open>A pass that reports no change made none.\<close>

definition unchanged :: "orm_scan \<Rightarrow> orm_scan \<Rightarrow> bool" where
  "unchanged st st' \<longleftrightarrow> (osc_Changed st \<longrightarrow> osc_Changed st')
     \<and> (\<not> osc_Changed st' \<longrightarrow> oms_Params (osc_Sums st') = oms_Params (osc_Sums st))"

lemma unchanged_refl [simp]: "unchanged st st"
  by (simp add: unchanged_def)

lemma unchanged_trans: "unchanged s t \<Longrightarrow> unchanged t u \<Longrightarrow> unchanged s u"
  by (auto simp: unchanged_def)

lemma addIndex_unchanged: "unchanged st (addIndex fn i st)"
  by (simp add: unchanged_def addIndex_def Let_def)

lemma addIndexes_unchanged: "unchanged st (fold (addIndex fn) is st)"
  by (induction "is" arbitrary: st) (auto intro: unchanged_trans addIndex_unchanged)

lemma drive_unchanged: "unchanged st (drive b st)"
  by (simp add: unchanged_def drive_def)

lemma scanInst_unchanged: "unchanged st (scanInst P framework fn inst st)"
proof (cases inst)
  case (OCall c)
  have driven: "unchanged st (drive b (fold (addIndex fn) is st))" "unchanged st (fold (addIndex fn) is (drive b st))" for b "is"
    using unchanged_trans addIndexes_unchanged drive_unchanged by blast+
  show ?thesis using OCall driven by (auto simp: scanInst_def Let_def split: option.splits)
qed (simp_all add: scanInst_def)

lemma scanInsts_unchanged: "unchanged st (fold (scanInst P framework fn) insts st)"
  by (induction insts arbitrary: st) (auto intro: unchanged_trans scanInst_unchanged)

lemma scanFunction_unchanged:
  assumes "scanFunction P framework fn (s, changed) = (s', changed')"
  shows "(changed \<longrightarrow> changed') \<and> (\<not> changed' \<longrightarrow> oms_Params s' = oms_Params s)"
  using assms scanInsts_unchanged [of "\<lparr>osc_Sums = s, osc_Driven = oms_Receiver s fn, osc_Changed = changed\<rparr>" P framework fn
      "concat (ofn_Blocks (opr_Func P fn))"]
  by (auto simp: scanFunction_def unchanged_def Let_def)

lemma scanFunctions_unchanged:
  "fold (scanFunction P framework) fns (s, changed) = (s', changed')
   \<Longrightarrow> (changed \<longrightarrow> changed') \<and> (\<not> changed' \<longrightarrow> oms_Params s' = oms_Params s)"
proof (induction fns arbitrary: s changed)
  case (Cons fn fns)
  obtain u ch where u: "scanFunction P framework fn (s, changed) = (u, ch)" by fastforce
  then show ?case using Cons.IH [of u ch] Cons.prems scanFunction_unchanged [OF u] by auto
qed simp

text \<open>What the summaries know after some passes.\<close>

definition knows :: "orm_program \<Rightarrow> string \<Rightarrow> orm_summaries \<Rightarrow> nat \<Rightarrow> bool" where
  "knows P framework s n \<longleftrightarrow> (\<forall>k f i. feeds P framework k f i \<and> k \<le> n \<longrightarrow> i \<in> set (oms_Params s f))"

lemma knows_contributed:
  assumes "knows P framework s n"
    and "\<And>f c. f \<in> set (functionsOf P) \<Longrightarrow> c \<in> calls_in P f \<Longrightarrow> contributes P framework f c s \<subseteq> set (oms_Params s' f)"
  shows "knows P framework s' (Suc n)"
proof -
  have "i \<in> set (oms_Params s' f)" if "feeds P framework k f i" "k \<le> Suc n" for k f i
    using that(1)
  proof cases
    case (direct c a)
    then have "i \<in> contributes P framework f c s" by (auto simp: contributes_def)
    then show ?thesis using assms(2) direct by blast
  next
    case (forward c g k' j a)
    then have "j \<in> set (oms_Params s g)" using assms(1) that(2) by (auto simp: knows_def)
    then have "i \<in> contributes P framework f c s"
      using forward feeds_function [OF forward(6)] by (auto simp: contributes_def)
    then show ?thesis using assms(2) forward by blast
  qed
  then show ?thesis by (auto simp: knows_def)
qed

lemma pass_knows: "knows P framework s n \<Longrightarrow> knows P framework (fst (scanPass P framework s)) (Suc n)"
  by (rule knows_contributed) (use scanFunctions_contribute [of _ "functionsOf P" _ P framework "(s, False)"] in \<open>auto simp: scanPass_def\<close>)

lemma settled_knows:
  assumes "scanPass P framework s = (s', False)"
  shows "knows P framework s' n"
proof (induction n)
  case 0
  then show ?case using feeds_function by (fastforce simp: knows_def)
next
  case (Suc n)
  have same: "oms_Params s' = oms_Params s" using scanFunctions_unchanged assms unfolding scanPass_def by blast
  then have "knows P framework s n" using Suc by (simp add: knows_def)
  then show ?case using pass_knows [of P framework s n] assms by simp
qed

lemma passes_know: "knows P framework s m \<Longrightarrow> knows P framework (scanPasses P framework n s) (m + n)"
proof (induction n arbitrary: s m)
  case (Suc n)
  obtain s' changed where pass: "scanPass P framework s = (s', changed)" by fastforce
  then have next_pass: "knows P framework s' (Suc m)" using pass_knows [OF Suc.prems] by simp
  show ?case
  proof (cases changed)
    case True
    then show ?thesis using Suc.IH [OF next_pass] pass by simp
  next
    case False
    then show ?thesis using settled_knows pass by simp
  qed
qed simp

lemma summaries_know: "knows P framework (buildOrmUsageSummaries P framework) maxOrmUsageExpansionDepth"
proof -
  have "knows P framework \<lparr>oms_Params = (\<lambda>_. []), oms_Receiver = (\<lambda>_. False)\<rparr> 0"
    using feeds_function by (fastforce simp: knows_def)
  from passes_know [OF this] show ?thesis by (simp add: buildOrmUsageSummaries_def)
qed

lemma wrappers_found:
  assumes "feeds P framework k g j" "k \<le> maxOrmUsageExpansionDepth"
    and "f \<in> set (functionsOf P)" "c \<in> calls_in P f" "ocl_Callee c = Some g" "argAt c j = Some a"
    and "valueContainsModel P a typ"
  shows "hasOrmUsage P typ framework"
proof -
  let ?sums = "buildOrmUsageSummaries P framework"
  have "j \<in> set (oms_Params ?sums g)" using summaries_know assms(1,2) by (auto simp: knows_def)
  then have "callUsesModelInOrm P c typ framework ?sums maxOrmUsageExpansionDepth []"
    using assms(5-7) feeds_function [OF assms(1)]
    by (auto simp: callUsesModelInOrm_def maxOrmUsageExpansionDepth_def list_ex_iff intro!: bexI [of _ j])
  then show ?thesis
    using assms(3,4) by (force simp: hasOrmUsage_def list_ex_iff Let_def)
qed

text \<open>
  C32: a model handed to a wrapper counts as used: when a function passes a value that holds the
  model to a parameter that reaches an operation of the framework through at most four
  functions, in whatever order the functions are scanned, the model has usage.
\<close>

theorem orm_wrappers_found:
  assumes "feeds P framework k g j" "k \<le> maxOrmUsageExpansionDepth"
    and "f \<in> set (functionsOf P)" "c \<in> calls_in P f" "ocl_Callee c = Some g" "argAt c j = Some a"
    and "valueContainsModel P a typ"
  shows "hasOrmUsage P typ framework"
  using assms by (rule wrappers_found)

text \<open>
  A sample: \<^verbatim>\<open>main\<close> passes \<^verbatim>\<open>&User{}\<close> as an interface to \<^verbatim>\<open>save\<close>, which hands it
  to \<^verbatim>\<open>Create\<close>; \<^verbatim>\<open>Ghost\<close> is used nowhere; \<^verbatim>\<open>type List []List\<close> is recursive and
  \<^verbatim>\<open>type Users []User\<close> holds users.
\<close>

definition sample_orm_types :: type_env where
  "sample_orm_types = \<lparr>ty_Name = (\<lambda>n. ''T''),
     ty_Under = (\<lambda>n. if n = 3 then TSlice (TNamed 3) else if n = 4 then TSlice (TNamed 1) else TStruct []),
     ty_Alias = (\<lambda>n. TStruct []), ty_String = (\<lambda>t. '''')\<rparr>"

definition sample_orm :: orm_program where
  "sample_orm = \<lparr>
     opr_Func = (\<lambda>f. if f = 0 then
         \<lparr>ofn_Name = ''save'', ofn_String = ''app.save'', ofn_Signature = Some ([TInterface 0], []), ofn_HasRecv = False,
          ofn_Params = [10], ofn_Blocks = [[OCall \<lparr>ocl_Method = Some ''Create'', ocl_Callee = None, ocl_Value = None, ocl_Args = [10]\<rparr>]]\<rparr>
       else
         \<lparr>ofn_Name = ''main'', ofn_String = ''app.main'', ofn_Signature = Some ([], []), ofn_HasRecv = False,
          ofn_Params = [], ofn_Blocks = [[OCall \<lparr>ocl_Method = None, ocl_Callee = Some 0, ocl_Value = None, ocl_Args = [20]\<rparr>]]\<rparr>),
     opr_Node = (\<lambda>v. if v = 10 then VParameter else if v = 20 then VMakeInterface 21 else VOther),
     opr_Type = (\<lambda>v. if v = 21 then TPointer (TNamed 1) else TInterface 0),
     opr_Types = sample_orm_types, opr_Named = [1, 2, 3, 4], opr_SSAFuncs = [Some 1, None, Some 0],
     opr_Packages = [None, Some (''app'', Some (\<lambda>n. if n = ''User'' then Some (TNamed 1)
        else if n = ''Ghost'' then Some (TNamed 2) else None))],
     opr_ormModels = [\<lparr>orm_Name = ''User'', orm_Pkg = ''app'', orm_File = ''m.go'', orm_Line = 3, orm_Framework = ''gorm''\<rparr>,
        \<lparr>orm_Name = ''Ghost'', orm_Pkg = ''app'', orm_File = ''m.go'', orm_Line = 7, orm_Framework = ''gorm''\<rparr>,
        \<lparr>orm_Name = ''Lost'', orm_Pkg = ''app'', orm_File = ''m.go'', orm_Line = 9, orm_Framework = ''gorm''\<rparr>]\<rparr>"

theorem type_walk_exact_witness:
  "typeContainsModel sample_orm (TPointer (TNamed 4)) (TNamed 1) \<and> \<not> typeContainsModel sample_orm (TNamed 3) (TNamed 1)"
proof -
  have named: "all_named (opr_Types sample_orm) (opr_Named sample_orm)"
    by (simp add: all_named_def sample_orm_def sample_orm_types_def)
  have "holds_model (opr_Types sample_orm) (TNamed 1) (ty_Under (opr_Types sample_orm) 4)"
    by (simp add: sample_orm_def sample_orm_types_def holds_model.slice holds_model.same Identical_def)
  then have "holds_model (opr_Types sample_orm) (TNamed 1) (TPointer (TNamed 4))"
    by (intro holds_model.pointer holds_model.named)
  moreover have "\<not> holds_model (opr_Types sample_orm) (TNamed 1) (TNamed 3)"
  proof
    have "t \<noteq> TNamed 3 \<and> t \<noteq> TSlice (TNamed 3)" if "holds_model (opr_Types sample_orm) (TNamed 1) t" for t
      using that by induction (auto simp: sample_orm_def sample_orm_types_def Identical_def Unalias_def split: gotype.splits)
    moreover assume "holds_model (opr_Types sample_orm) (TNamed 1) (TNamed 3)"
    ultimately show False by blast
  qed
  ultimately show ?thesis
    using type_walk_exact [OF named, of "TPointer (TNamed 4)" "TNamed 1"] type_walk_exact [OF named, of "TNamed 3" "TNamed 1"]
    by (simp add: sample_orm_def)
qed

abbreviation "create_call \<equiv> \<lparr>ocl_Method = Some ''Create'', ocl_Callee = None, ocl_Value = None, ocl_Args = [10]\<rparr>"
abbreviation "save_call \<equiv> \<lparr>ocl_Method = None, ocl_Callee = Some 0, ocl_Value = None, ocl_Args = [20]\<rparr>"

lemma sample_feeds: "feeds sample_orm ''gorm'' 1 0 0"
proof -
  have "isOrmOperation sample_orm create_call ''gorm''" "sourceParamIndex sample_orm 0 10 = 0" by code_simp+
  then show ?thesis by (intro feeds.direct [where c = create_call and a = 10]) (simp_all add: sample_orm_def functionsOf_def)
qed

lemma sample_call:
  "save_call \<in> calls_in sample_orm 1" "1 \<in> set (functionsOf sample_orm)" "1 \<le> maxOrmUsageExpansionDepth"
  "ocl_Callee save_call = Some 0" "argAt save_call 0 = Some 20" "valueContainsModel sample_orm 20 (TNamed 1)"
proof -
  show "valueContainsModel sample_orm 20 (TNamed 1)" by code_simp
qed (simp_all add: sample_orm_def functionsOf_def maxOrmUsageExpansionDepth_def argAt_def callArgIndexForCalleeParam_def)

theorem orm_wrappers_found_witness: "hasOrmUsage sample_orm (TNamed 1) ''gorm''"
  using orm_wrappers_found [OF sample_feeds sample_call(3,2,1,4-6)] .

lemma sample_used: "hasOrmUsage sample_orm (TNamed 1) ''gorm''"
  using wrappers_found [OF sample_feeds sample_call(3,2,1,4-6)] .

lemma sample_unused: "\<not> hasOrmUsage sample_orm (TNamed 2) ''gorm''"
proof -
  have none: "\<not> valueContainsModel sample_orm 10 (TNamed 2)" "\<not> valueContainsModel sample_orm 20 (TNamed 2)" by code_simp+
  have args: "argAt create_call j \<in> {None, Some 10}" "argAt save_call j \<in> {None, Some 20}" for j
    by (auto simp: argAt_def Let_def)
  have free: "receiverValue sample_orm create_call = None" "receiverValue sample_orm save_call = None"
    by (simp_all add: receiverValue_def sample_orm_def)
  have unused: "\<not> callUsesModelInOrm sample_orm create_call (TNamed 2) ''gorm'' sums depth []"
    "\<not> callUsesModelInOrm sample_orm save_call (TNamed 2) ''gorm'' sums depth []" for sums depth
    using args none free by (auto simp: callUsesModelInOrm_def receiverContainsModel_def list_ex_iff split: option.splits) (metis insertE option.discI option.inject singletonD)+
  have blocks: "functionsOf sample_orm = [1, 0]" "ofn_Blocks (opr_Func sample_orm 0) = [[OCall create_call]]"
    "ofn_Blocks (opr_Func sample_orm 1) = [[OCall save_call]]"
    by (simp_all add: functionsOf_def sample_orm_def)
  show ?thesis by (simp add: hasOrmUsage_def blocks unused Let_def del: One_nat_def)
qed

section \<open>The report is exact\<close>

text \<open>What makes a model an orphan.\<close>

definition unused_model :: "orm_program \<Rightarrow> string \<Rightarrow> string \<Rightarrow> OrmModel \<times> gotype \<Rightarrow> bool" where
  "unused_model P migrationsText inference mt \<longleftrightarrow>
     \<not> hasOrmUsage P (snd mt) (orm_Framework (fst mt))
   \<and> (migrationsText = ''''
      \<or> \<not> checkInMigrations (inferTableName (orm_Name (fst mt)) (orm_Framework (fst mt)) inference) migrationsText)"

definition model_line :: "orm_program \<Rightarrow> OrmModel \<times> gotype \<Rightarrow> string \<times> string \<times> string \<times> int \<times> OrphanedModelReason" where
  "model_line P mt = (orm_Pkg (fst mt), orm_Name (fst mt), orm_File (fst mt), orm_Line (fst mt),
     if countStructReferences P (snd mt) = 0 then OrphanedNoReferences else OrphanedNoOrmUsage)"

definition orphan_line :: "OrphanedModel \<Rightarrow> string \<times> string \<times> string \<times> int \<times> OrphanedModelReason" where
  "orphan_line m = (omd_Package m, omd_Name m, omd_File m, omd_Line m, omd_Reason m)"

interpretation orphan_order: key_order orphan_less "\<lambda>m. (omd_Package m, omd_Name m)"
  by unfold_locales (auto simp: orphan_less_def less_prod_def')

lemma orphanOf_unused: "map_option orphan_line (orphanOf P migrations inference mt)
    = (if unused_model P migrations inference mt then Some (model_line P mt) else None)"
  by (cases mt)
    (auto simp: orphanOf_def orphanReason_def unused_model_def model_line_def orphan_line_def checkInMigrations_def Let_def
      split: prod.splits)

lemma orphans_lines:
  "map orphan_line (List.map_filter (orphanOf P migrations inference) mts) = map (model_line P) (filter (unused_model P migrations inference) mts)"
proof (induction mts)
  case (Cons mt mts)
  then show ?case using orphanOf_unused [of P migrations inference mt] by (auto simp: List.map_filter_simps split: option.splits if_splits)
qed (simp add: List.map_filter_simps)

lemma bumps_count: "fold (\<lambda>x. tally_bump (f x)) xs m k = m k + count_list (map f xs) k"
proof (induction xs arbitrary: m)
  case (Cons x xs)
  show ?case using Cons [of "tally_bump (f x) m"] by (simp add: tally_bump_def)
qed simp

lemma tally_count: "tally f xs k = count_list (map f xs) k"
  by (simp add: tally_def bumps_count)

lemma reasons_total:
  "tally (\<lambda>m. reasonText (omd_Reason m)) xs ''no_references'' + tally (\<lambda>m. reasonText (omd_Reason m)) xs ''no_orm_usage'' = length xs"
  unfolding tally_count
proof (induction xs)
  case (Cons x xs)
  then show ?case by (cases "omd_Reason x") simp_all
qed simp

text \<open>
  C31: without paging the report lists exactly the models in scope that no operation of their own
  framework uses and that are not in the migration files, when there are any, each with the reason
  its references give, in the order of package and name; the summary counts every model listed.
\<close>

theorem orphans_exact:
  assumes "no_paging qOpts" "oo_ORMFramework oOpts \<in> insert '''' (set ormFrameworks)"
    and "selectedPackageSet exists pkgs dir (SplitPatterns (oo_ScopePattern oOpts)) = scope"
    and "readMigrationFiles M dir (oo_MigrationDirs oOpts) = migrationsText"
  shows "\<exists>r. FindOrphanedDatabaseModelsWithOptions pg M exists pkgs (Inr P) dir pattern oOpts qOpts = Inr r
    \<and> mset (map orphan_line (orr_Models r))
        = mset (map (model_line P) (filter (unused_model P migrationsText (oo_TableInference oOpts)) (detailedModels P scope)))
    \<and> sorted (map (\<lambda>m. (omd_Package m, omd_Name m)) (orr_Models r))
    \<and> orr_Total r = int (length (orr_Models r))
    \<and> osm_ByReason (orr_Summary r) ''no_references'' + osm_ByReason (orr_Summary r) ''no_orm_usage'' = length (orr_Models r)"
proof -
  let ?list = "orphanedModels P scope migrationsText (oo_TableInference oOpts)"
  have "(if oo_ORMFramework oOpts = '''' then ''gorm'' else oo_ORMFramework oOpts) \<in> set ormFrameworks"
    using assms(2) by (auto simp: ormFrameworks_def)
  then have "\<exists>r. FindOrphanedDatabaseModelsWithOptions pg M exists pkgs (Inr P) dir pattern oOpts qOpts = Inr r
      \<and> orr_Models r = ?list \<and> orr_Total r = int (length ?list)
      \<and> osm_ByReason (orr_Summary r) = tally (\<lambda>m. reasonText (omd_Reason m)) ?list"
    by (simp add: FindOrphanedDatabaseModelsWithOptions_def assms(3,4) page_items_all [OF assms(1)] Let_def)
  moreover have "mset (map orphan_line ?list)
      = mset (map orphan_line (List.map_filter (orphanOf P migrationsText (oo_TableInference oOpts)) (detailedModels P scope)))"
    by (simp add: orphanedModels_def)
  moreover have "sorted (map (\<lambda>m. (omd_Package m, omd_Name m)) ?list)"
    unfolding orphanedModels_def by (rule orphan_order.sorted_keys)
  ultimately show ?thesis using reasons_total [of ?list] by (auto simp: orphans_lines)
qed

definition sample_migrations :: migration_files where
  "sample_migrations = \<lparr>mgf_Walk = (\<lambda>_. []), mgf_ReadFile = (\<lambda>_. '''')\<rparr>"

definition sample_orm_opts :: OrphanedModelOptions where
  "sample_orm_opts = \<lparr>oo_ORMFramework = '''', oo_ScopePattern = '''', oo_MigrationDirs = [], oo_TableInference = ''''\<rparr>"

theorem orphans_exact_witness:
  "\<exists>r. FindOrphanedDatabaseModelsWithOptions sample_paging sample_migrations (\<lambda>_. False) [] (Inr sample_orm) ''/w'' ''./...''
      sample_orm_opts plain_opts = Inr r
    \<and> map orphan_line (orr_Models r) = [(''app'', ''Ghost'', ''m.go'', 7, OrphanedNoReferences)]"
proof -
  have scope: "selectedPackageSet (\<lambda>_. False) [] ''/w'' (SplitPatterns (oo_ScopePattern sample_orm_opts)) = []"
    by (simp add: selectedPackageSet_def Let_def)
  have migrations: "readMigrationFiles sample_migrations ''/w'' (oo_MigrationDirs sample_orm_opts) = ''''"
    by (simp add: readMigrationFiles_def sample_orm_opts_def)
  have lines: "map (model_line sample_orm) (filter (unused_model sample_orm '''' '''') (detailedModels sample_orm []))
      = [(''app'', ''Ghost'', ''m.go'', 7, OrphanedNoReferences)]"
  proof -
    have models: "detailedModels sample_orm [] = zip (take 2 (opr_ormModels sample_orm)) [TNamed 1, TNamed 2]" by code_simp
    have first: "take 2 (opr_ormModels sample_orm) =
        [\<lparr>orm_Name = ''User'', orm_Pkg = ''app'', orm_File = ''m.go'', orm_Line = 3, orm_Framework = ''gorm''\<rparr>,
         \<lparr>orm_Name = ''Ghost'', orm_Pkg = ''app'', orm_File = ''m.go'', orm_Line = 7, orm_Framework = ''gorm''\<rparr>]"
      by (simp add: sample_orm_def)
    have "countStructReferences sample_orm (TNamed 2) = 0" by code_simp
    then show ?thesis
      unfolding models first using sample_used sample_unused
      by (simp add: unused_model_def model_line_def del: One_nat_def)
  qed
  have opts: "no_paging plain_opts" "oo_ORMFramework sample_orm_opts \<in> insert '''' (set ormFrameworks)"
    "oo_TableInference sample_orm_opts = ''''"
    by (simp_all add: no_paging_def plain_opts_def sample_orm_opts_def)
  obtain r where r: "FindOrphanedDatabaseModelsWithOptions sample_paging sample_migrations (\<lambda>_. False) [] (Inr sample_orm) ''/w'' ''./...''
      sample_orm_opts plain_opts = Inr r"
      "mset (map orphan_line (orr_Models r))
        = mset (map (model_line sample_orm) (filter (unused_model sample_orm '''' '''') (detailedModels sample_orm [])))"
    using orphans_exact [OF opts(1,2) scope migrations, of sample_paging sample_orm "''./...''"] unfolding opts(3) by blast
  have one: "xs = [x]" if "mset xs = mset [x]" for xs and x :: "string \<times> string \<times> string \<times> int \<times> OrphanedModelReason"
    using that by simp
  have "map orphan_line (orr_Models r) = [(''app'', ''Ghost'', ''m.go'', 7, OrphanedNoReferences)]"
    by (rule one) (rule r(2) [unfolded lines])
  with r(1) show ?thesis by (intro exI conjI)
qed

end
