(* ===== verification/Store_Search.thy ===== *)
theory Store_Search
  imports Store_Reads
begin

text \<open>
  Semantic search over the store. The vector index is complete when every symbol with a vector of
  the table's dimension has a row in it; storing a program keeps it complete, the first search of
  another dimension rebuilds it, and a search that answers fewer symbols than it was asked for has
  found all of its dimension. What the vector extension promises is a hypothesis (\<open>nearest\<close>).
\<close>

section \<open>What holds after a run that succeeds\<close>

definition gives :: "('d \<Rightarrow> bool) \<Rightarrow> ('d, 'a) action \<Rightarrow> ('a \<Rightarrow> 'd \<Rightarrow> bool) \<Rightarrow> bool" where
  "gives P m Q \<longleftrightarrow> (\<forall>s x t. P (st_db s) \<longrightarrow> m s = (Inr x, t) \<longrightarrow> Q x (st_db t))"

named_theorems gives_intros \<open>what holds after an action that succeeds\<close>

lemma givesD: "gives P m Q \<Longrightarrow> P (st_db s) \<Longrightarrow> m s = (Inr x, t) \<Longrightarrow> Q x (st_db t)"
  by (simp add: gives_def)

lemma gives_conseq: "gives P m Q \<Longrightarrow> (\<And>d. P' d \<Longrightarrow> P d) \<Longrightarrow> (\<And>x d. Q x d \<Longrightarrow> Q' x d) \<Longrightarrow> gives P' m Q'"
  unfolding gives_def by meson

lemma gives_retA: "(\<And>d. P d \<Longrightarrow> Q x d) \<Longrightarrow> gives P (retA x) Q"
  by (simp add: gives_def action_simps)

lemma gives_failA: "gives P (failA e) Q"
  by (simp add: gives_def action_simps)

lemma gives_liftA: "(\<And>d x. r = Inr x \<Longrightarrow> P d \<Longrightarrow> Q x d) \<Longrightarrow> gives P (liftA r) Q"
  by (auto simp: gives_def action_simps)

lemma gives_clockA: "(\<And>d n. P d \<Longrightarrow> Q n d) \<Longrightarrow> gives P (clockA E) Q"
  by (simp add: gives_def action_simps)

lemma gives_bindA: "gives P m R \<Longrightarrow> (\<And>x. gives (R x) (f x) Q) \<Longrightarrow> gives P (bindA m f) Q"
  unfolding gives_def bindA_ok by meson

lemma gives_thenA: "gives P m R \<Longrightarrow> (\<And>x. gives (R x) k Q) \<Longrightarrow> gives P (thenA m k) Q"
  by (simp add: thenA_def gives_bindA)

lemma gives_wrapA: "gives P m Q \<Longrightarrow> gives P (wrapA w m) Q"
  by (simp add: gives_def wrapA_ok)

lemma gives_execA: "(\<And>d. P d \<Longrightarrow> Q () (f d)) \<Longrightarrow> gives P (execA E f) Q"
  by (auto simp: gives_def dest!: execA_ok)

lemma gives_queryA: "(\<And>d. P d \<Longrightarrow> Q (f d) d) \<Longrightarrow> gives P (queryA E f) Q"
  by (auto simp: gives_def dest!: queryA_ok)

lemma gives_attemptA: "(\<And>d d'. P d \<Longrightarrow> f d = Inr d' \<Longrightarrow> Q () d') \<Longrightarrow> gives P (attemptA E f) Q"
  by (auto simp: gives_def dest!: attemptA_ok)

lemma gives_touchA: "(\<And>d. P d \<Longrightarrow> Q () d) \<Longrightarrow> gives P (touchA E) Q"
  unfolding touchA_def by (rule gives_execA)

lemma gives_InTransaction: "gives P fn Q \<Longrightarrow> gives P (InTransaction E fn) Q"
  unfolding gives_def using InTransaction_ok by metis

lemma gives_maintains: "maintains P m \<Longrightarrow> gives P m (\<lambda>_. P)"
  by (auto simp: gives_def maintains_def)

text \<open>A loop whose steps each establish a fact that the later steps keep.\<close>

lemma gives_forA:
  assumes "\<And>x d. x \<in> set xs \<Longrightarrow> gives P (f x) (\<lambda>_ d. P d \<and> Q x d)"
    and "\<And>x y. x \<in> set xs \<Longrightarrow> y \<in> set xs \<Longrightarrow> gives (\<lambda>d. P d \<and> Q x d) (f y) (\<lambda>_. Q x)"
  shows "gives P (forA f xs) (\<lambda>_ d. P d \<and> (\<forall>x\<in>set xs. Q x d))"
proof -
  have "gives (\<lambda>d. P d \<and> (\<forall>x\<in>set ys. Q x d)) (forA f zs) (\<lambda>_ d. P d \<and> (\<forall>x\<in>set (ys @ zs). Q x d))"
    if "set ys \<subseteq> set xs" "set zs \<subseteq> set xs" for ys zs
    using that
  proof (induction zs arbitrary: ys)
    case Nil
    show ?case by (auto intro: gives_retA)
  next
    case (Cons z zs)
    have "gives (\<lambda>d. P d \<and> (\<forall>x\<in>set ys. Q x d)) (f z) (\<lambda>_ d. P d \<and> (\<forall>x\<in>set (ys @ [z]). Q x d))"
      unfolding gives_def
    proof (intro allI impI)
      fix s x t assume s: "P (st_db s) \<and> (\<forall>x\<in>set ys. Q x (st_db s))" and run: "f z s = (Inr x, t)"
      have "P (st_db t) \<and> Q z (st_db t)" using assms(1) Cons.prems(2) s run by (auto simp: gives_def)
      moreover have "Q y (st_db t)" if "y \<in> set ys" for y
      proof -
        have "gives (\<lambda>d. P d \<and> Q y d) (f z) (\<lambda>_. Q y)" using assms(2) Cons.prems that by auto
        from givesD [OF this _ run] show ?thesis using s that by blast
      qed
      ultimately show "P (st_db t) \<and> (\<forall>x\<in>set (ys @ [z]). Q x (st_db t))" by auto
    qed
    moreover have "gives (\<lambda>d. P d \<and> (\<forall>x\<in>set (ys @ [z]). Q x d)) (forA f zs)
        (\<lambda>_ d. P d \<and> (\<forall>x\<in>set ((ys @ [z]) @ zs). Q x d))"
      using Cons.prems by (intro Cons.IH) auto
    ultimately show ?case by (auto intro: gives_thenA)
  qed
  from this [of "[]" xs] show ?thesis by simp
qed

lemma gives_loop: "(\<And>x. x \<in> set xs \<Longrightarrow> gives P (f x) (\<lambda>_. P)) \<Longrightarrow> gives P (forA f xs) (\<lambda>_. P)"
proof -
  assume each: "\<And>x. x \<in> set xs \<Longrightarrow> gives P (f x) (\<lambda>_. P)"
  have "gives P (forA f xs) (\<lambda>_ d. P d \<and> (\<forall>x\<in>set xs. True))"
  proof (rule gives_forA)
    show "gives P (f x) (\<lambda>_ d. P d \<and> True)" if "x \<in> set xs" for x
      using each [OF that] by simp
    show "gives (\<lambda>d. P d \<and> True) (f y) (\<lambda>_ _. True)" for y
      unfolding gives_def by blast
  qed
  then show ?thesis by simp
qed

section \<open>The index\<close>

text \<open>The symbols that have a vector.\<close>

definition indexed :: "'f db \<Rightarrow> string set" where
  "indexed d =
     (case db_vec d of None \<Rightarrow> {} | Some (n, rows) \<Rightarrow> {i. \<exists>r\<in>fst ` set rows. (r, i) \<in> set (db_vec_map d)})"

definition complete :: "'f vector_ops \<Rightarrow> int \<Rightarrow> 'f db \<Rightarrow> bool" where
  "complete V n d \<longleftrightarrow>
     (\<forall>c\<in>set (db_symbols d). int (length (decodeEmbedding V (cds_Embedding c))) = n \<longrightarrow> cds_ID c \<in> indexed d)"

definition mapped :: "'f db \<Rightarrow> bool" where
  "mapped d \<longleftrightarrow> store_inv d \<and> snd ` set (db_vec_map d) \<subseteq> cds_ID ` set (db_symbols d)"

definition searchable :: "'f vector_ops \<Rightarrow> 'f db \<Rightarrow> bool" where
  "searchable V d \<longleftrightarrow> mapped d
     \<and> (case stored_dimension d of
          None \<Rightarrow> db_vec d = None
        | Some v \<Rightarrow> \<exists>n rows. v = Itoa n \<and> int64 n \<and> 0 < n \<and> db_vec d = Some (n, rows) \<and> complete V n d)"

lemma searchable_empty: "searchable V empty_db"
  by (simp add: searchable_def mapped_def inv_empty)
    (simp add: stored_dimension_def empty_db_def)

lemma searchable_index_ok: "searchable V d \<Longrightarrow> store_inv d \<and> index_ok d"
  by (auto simp: searchable_def mapped_def index_ok_def Atoi_Itoa split: option.splits)

lemma mapped_vectorRow: "mapped d \<Longrightarrow> i \<in> cds_ID ` set (db_symbols d) \<Longrightarrow> mapped (vectorRow i d)"
  using inv_vectorRow by (auto simp: mapped_def) (auto simp: vectorRow_def split: if_splits)

lemma mapped_delete: "mapped d \<Longrightarrow> vec_delete i d = Inr d' \<Longrightarrow> mapped d'"
  using inv_vec_delete [of d i d'] content_vec_delete [of i d d'] by (simp add: mapped_def content_eq)

lemma mapped_insert:
  "mapped d \<Longrightarrow> i \<in> fst ` set (db_vec_map d) \<Longrightarrow> vec_insert X i v d = Inr d' \<Longrightarrow> mapped d'"
  using inv_vec_insert [of d i X v d'] content_vec_insert [of X i v d d'] by (simp add: mapped_def content_eq)

lemma vectorRow_fields [simp]:
  "db_symbols (vectorRow i d) = db_symbols d" "db_state (vectorRow i d) = db_state d"
  "stored_dimension (vectorRow i d) = stored_dimension d"
  by (simp_all add: vectorRow_def stored_dimension_def)

lemma indexed_vectorRow: "indexed d \<subseteq> indexed (vectorRow i d)"
  by (auto simp: indexed_def vectorRow_def split: option.splits)

text \<open>Storing the vector of a symbol adds the symbol and loses no other.\<close>

definition table_dimension :: "'f db \<Rightarrow> int option" where
  "table_dimension d = map_option fst (db_vec d)"

lemma insert_fields:
  assumes "vec_insert X r v d = Inr d'"
  shows "db_symbols d' = db_symbols d" "db_state d' = db_state d" "db_vec_map d' = db_vec_map d"
    and "table_dimension d' = table_dimension d" "db_vec d \<noteq> None"
    and "indexed d' = indexed d \<union> {i. (r, i) \<in> set (db_vec_map d)}"
proof -
  obtain n rows where d: "db_vec d = Some (n, rows)" "d' = d\<lparr>db_vec := Some (n, rows @ [(r, v)])\<rparr>"
    using assms by (auto simp: vec_insert_def split: option.splits if_splits)
  then show "db_symbols d' = db_symbols d" "db_state d' = db_state d" "db_vec_map d' = db_vec_map d"
    "table_dimension d' = table_dimension d" "db_vec d \<noteq> None"
    by (simp_all add: table_dimension_def)
  have "indexed d' = {i. \<exists>k\<in>insert r (fst ` set rows). (k, i) \<in> set (db_vec_map d)}"
    using d by (simp add: indexed_def)
  then show "indexed d' = indexed d \<union> {i. (r, i) \<in> set (db_vec_map d)}"
    using d(1) unfolding indexed_def by (simp del: bex_simps) blast
qed

lemma delete_fields:
  assumes "vec_delete r d = Inr d'"
  shows "db_symbols d' = db_symbols d" "db_state d' = db_state d" "db_vec_map d' = db_vec_map d"
    and "table_dimension d' = table_dimension d" "db_vec d \<noteq> None"
  using assms by (auto simp: vec_delete_def table_dimension_def split: option.splits)

lemma indexed_delete:
  assumes "store_inv d" "(r, i) \<in> set (db_vec_map d)" "vec_delete r d = Inr d'"
  shows "indexed d - {i} \<subseteq> indexed d'"
proof -
  have "distinct (map fst (db_vec_map d))" using assms(1) by (simp add: store_inv_def index_inv_def)
  then have "k = i" if "(r, k) \<in> set (db_vec_map d)" for k
    using that assms(2) by (metis eq_key_imp_eq_value)
  with assms(3) show ?thesis
    by (auto simp: vec_delete_def indexed_def split: option.splits) (metis fst_conv imageI)
qed

text \<open>What \<^verbatim>\<open>vectorRowIDTx\<close> returns is the row id of the symbol.\<close>

lemma gives_vectorRowIDTx:
  assumes "\<And>d. P d \<Longrightarrow> Q (rid i (vectorRow i d)) (vectorRow i d)"
  shows "gives P (vectorRowIDTx E i) Q"
  unfolding vectorRowIDTx_def
proof (rule gives_thenA)
  let ?A = "\<lambda>d. Q (rid i d) d \<and> (\<exists>n. row_of snd (db_vec_map d) i = Some (n, i))"
  show "gives P (execA E (vectorRow i)) (\<lambda>_. ?A)"
    using assms vectorRow_row by (intro gives_execA) blast
  have "gives ?A (queryA E (row_id i)) (\<lambda>x d. \<exists>n. x = Inr n \<and> Q n d)"
    by (intro gives_queryA) (auto simp: row_id_def rid_def)
  then show "gives ?A (bindA (queryA E (row_id i)) liftA) Q" for x :: unit
    unfolding gives_def bindA_ok liftA_ok by blast
qed

lemma rid_mapped: "(rid i (vectorRow i d), i) \<in> set (db_vec_map (vectorRow i d))"
proof -
  obtain n where "row_of snd (db_vec_map (vectorRow i d)) i = Some (n, i)" using vectorRow_row by blast
  then show ?thesis using row_of_Some by (fastforce simp: rid_def)
qed

text \<open>What the writing of a vector does not touch, and what it may only add to.\<close>

definition index_grows :: "'f db \<Rightarrow> 'f db \<Rightarrow> bool" where
  "index_grows d d' \<longleftrightarrow> db_symbols d' = db_symbols d \<and> db_state d' = db_state d
     \<and> table_dimension d' = table_dimension d \<and> indexed d \<subseteq> indexed d'"

lemma gives_row:
  assumes "i \<in> cds_ID ` set (db_symbols d)"
  shows "gives (\<lambda>d'. mapped d' \<and> index_grows d d') (vectorRowIDTx E i)
    (\<lambda>r d'. mapped d' \<and> index_grows d d' \<and> (r, i) \<in> set (db_vec_map d'))"
proof (rule gives_vectorRowIDTx)
  fix d' assume d': "mapped d' \<and> index_grows d d'"
  then have "mapped (vectorRow i d')" using assms by (intro mapped_vectorRow) (simp_all add: index_grows_def)
  then show "mapped (vectorRow i d') \<and> index_grows d (vectorRow i d')
      \<and> (rid i (vectorRow i d'), i) \<in> set (db_vec_map (vectorRow i d'))"
    using d' rid_mapped indexed_vectorRow [of d' i] by (auto simp: index_grows_def table_dimension_def)
qed

lemma gives_insert:
  "gives (\<lambda>d'. mapped d' \<and> db_symbols d' = db_symbols d \<and> db_state d' = db_state d
        \<and> table_dimension d' = table_dimension d \<and> indexed d - {i} \<subseteq> indexed d' \<and> (r, i) \<in> set (db_vec_map d'))
    (attemptA E (vec_insert X r v)) (\<lambda>_ d'. mapped d' \<and> index_grows d d' \<and> i \<in> indexed d')"
proof (rule gives_attemptA)
  fix d1 d2
  assume d1: "mapped d1 \<and> db_symbols d1 = db_symbols d \<and> db_state d1 = db_state d
        \<and> table_dimension d1 = table_dimension d \<and> indexed d - {i} \<subseteq> indexed d1 \<and> (r, i) \<in> set (db_vec_map d1)"
    and run: "vec_insert X r v d1 = Inr d2"
  have "r \<in> fst ` set (db_vec_map d1)" using d1 by force
  then have "mapped d2" using mapped_insert run d1 by blast
  then show "mapped d2 \<and> index_grows d d2 \<and> i \<in> indexed d2"
    using d1 insert_fields [OF run] by (auto simp: index_grows_def)
qed

lemma gives_upsertSymbolVectorTx:
  assumes "i \<in> cds_ID ` set (db_symbols d)" "decodeEmbedding V e \<noteq> []"
  shows "gives (\<lambda>d'. mapped d' \<and> index_grows d d') (upsertSymbolVectorTx E V X i e)
    (\<lambda>_ d'. mapped d' \<and> index_grows d d' \<and> i \<in> indexed d')"
proof -
  let ?R = "\<lambda>r d'. mapped d' \<and> index_grows d d' \<and> (r, i) \<in> set (db_vec_map d')"
  let ?S = "\<lambda>r d'. mapped d' \<and> db_symbols d' = db_symbols d \<and> db_state d' = db_state d
      \<and> table_dimension d' = table_dimension d \<and> indexed d - {i} \<subseteq> indexed d' \<and> (r, i) \<in> set (db_vec_map d')"
  have row: "gives (\<lambda>d'. mapped d' \<and> index_grows d d') (vectorRowIDTx E i) ?R"
    using assms(1) by (rule gives_row)
  have del: "gives (?R r) (attemptA E (vec_delete r)) (\<lambda>_. ?S r)" for r
  proof (rule gives_attemptA)
    fix d1 d2 assume d1: "?R r d1" and run: "vec_delete r d1 = Inr d2"
    have "mapped d2" using mapped_delete d1 run by blast
    moreover have "indexed d1 - {i} \<subseteq> indexed d2" using indexed_delete [OF _ _ run] d1 by (simp add: mapped_def)
    ultimately show "?S r d2" using d1 delete_fields [OF run] by (auto simp: index_grows_def)
  qed
  have ins: "gives (?S r) (attemptA E (vec_insert X r v)) (\<lambda>_ d'. mapped d' \<and> index_grows d d' \<and> i \<in> indexed d')" for r v
    by (rule gives_insert)
  have "gives (?R r) (bindA (liftA (ve_json X (decodeEmbedding V e))) (\<lambda>vector.
      thenA (attemptA E (vec_delete r)) (attemptA E (vec_insert X r vector))))
      (\<lambda>_ d'. mapped d' \<and> index_grows d d' \<and> i \<in> indexed d')" for r
    by (rule gives_bindA [OF gives_liftA [where Q = "\<lambda>_. ?R r"]]) (simp, rule gives_thenA [OF del ins])
  from gives_bindA [OF row this] show ?thesis using assms(2) by (simp add: upsertSymbolVectorTx_def)
qed

lemma gives_at: "(\<And>d. P d \<Longrightarrow> gives (\<lambda>x. x = d) m Q) \<Longrightarrow> gives P m Q"
  unfolding gives_def by blast

lemma grows_refl_index [simp]: "index_grows d d"
  by (simp add: index_grows_def)

section \<open>Writing symbols\<close>

lemma mapped_upserts:
  "mapped d \<Longrightarrow> mapped (d\<lparr>db_files := put_file r1 (db_files d)\<rparr>)"
  "mapped d \<Longrightarrow> mapped (d\<lparr>db_edges := put_edge r2 (db_edges d)\<rparr>)"
  "mapped d \<Longrightarrow> mapped (d\<lparr>db_metrics := put_metric r3 (db_metrics d)\<rparr>)"
  "mapped d \<Longrightarrow> mapped (d\<lparr>db_routes := put_route r4 (db_routes d)\<rparr>)"
  "mapped d \<Longrightarrow> mapped (d\<lparr>db_endpoints := put_endpoint r5 (db_endpoints d)\<rparr>)"
  "mapped d \<Longrightarrow> mapped (d\<lparr>db_regs := put_reg r6 (db_regs d)\<rparr>)"
  "mapped d \<Longrightarrow> mapped (d\<lparr>db_symbols := put_symbol r7 (db_symbols d)\<rparr>)"
  "mapped d \<Longrightarrow> mapped (d\<lparr>db_hashes := put_hash r8 (db_hashes d)\<rparr>)"
  by (auto simp: mapped_def inv_upserts symbols.key_set_upsert)

lemma indexed_cong: "db_vec_map d' = db_vec_map d \<Longrightarrow> db_vec d' = db_vec d \<Longrightarrow> indexed d' = indexed d"
  by (simp add: indexed_def split: option.split)

lemma searchable_same:
  assumes "searchable V d" "mapped d'" "db_symbols d' = db_symbols d" "db_vec_map d' = db_vec_map d"
    and "db_vec d' = db_vec d" "stored_dimension d' = stored_dimension d"
  shows "searchable V d'"
proof -
  have "indexed d' = indexed d" using assms(4,5) by (rule indexed_cong)
  then show ?thesis using assms by (simp add: searchable_def complete_def split: option.splits)
qed

lemma searchable_upserts:
  assumes "searchable V d"
  shows "searchable V (d\<lparr>db_files := put_file r1 (db_files d)\<rparr>)"
    "searchable V (d\<lparr>db_edges := put_edge r2 (db_edges d)\<rparr>)"
    "searchable V (d\<lparr>db_metrics := put_metric r3 (db_metrics d)\<rparr>)"
    "searchable V (d\<lparr>db_routes := put_route r4 (db_routes d)\<rparr>)"
    "searchable V (d\<lparr>db_endpoints := put_endpoint r5 (db_endpoints d)\<rparr>)"
    "searchable V (d\<lparr>db_regs := put_reg r6 (db_regs d)\<rparr>)"
    "searchable V (d\<lparr>db_hashes := put_hash r8 (db_hashes d)\<rparr>)"
proof -
  have m: "mapped d" using assms by (simp add: searchable_def)
  show "searchable V (d\<lparr>db_files := put_file r1 (db_files d)\<rparr>)"
    "searchable V (d\<lparr>db_edges := put_edge r2 (db_edges d)\<rparr>)"
    "searchable V (d\<lparr>db_metrics := put_metric r3 (db_metrics d)\<rparr>)"
    "searchable V (d\<lparr>db_routes := put_route r4 (db_routes d)\<rparr>)"
    "searchable V (d\<lparr>db_endpoints := put_endpoint r5 (db_endpoints d)\<rparr>)"
    "searchable V (d\<lparr>db_regs := put_reg r6 (db_regs d)\<rparr>)"
    "searchable V (d\<lparr>db_hashes := put_hash r8 (db_hashes d)\<rparr>)"
    by (rule searchable_same [OF assms], rule mapped_upserts [OF m], simp_all add: stored_dimension_def)+
qed

text \<open>A written symbol needs a vector, the others keep theirs.\<close>

lemma put_symbol_rows: "set (put_symbol c rows) \<subseteq> insert c (set rows)"
  by (auto simp: upsert_def)

lemma searchable_step:
  assumes "searchable V d"
    and "mapped d'" "index_grows (d\<lparr>db_symbols := put_symbol c (db_symbols d)\<rparr>) d'"
    and new: "decodeEmbedding V (cds_Embedding c) = [] \<or> cds_ID c \<in> indexed d'"
  shows "searchable V d'"
proof -
  let ?d = "d\<lparr>db_symbols := put_symbol c (db_symbols d)\<rparr>"
  have same: "db_symbols d' = put_symbol c (db_symbols d)" "stored_dimension d' = stored_dimension d"
      "map_option fst (db_vec d') = map_option fst (db_vec d)" "indexed d \<subseteq> indexed d'"
    using assms(3) indexed_cong [of ?d d] by (auto simp: index_grows_def stored_dimension_def table_dimension_def)
  show ?thesis
  proof (cases "stored_dimension d")
    case None
    then show ?thesis using assms(1,2) same by (simp add: searchable_def)
  next
    case (Some v)
    then obtain n rows where n: "v = Itoa n" "int64 n" "0 < n" "db_vec d = Some (n, rows)" "complete V n d"
      using assms(1) by (auto simp: searchable_def)
    then obtain rows' where rows': "db_vec d' = Some (n, rows')" using same(3) by auto
    have "complete V n d'"
      unfolding complete_def
    proof (intro ballI impI)
      fix x assume x: "x \<in> set (db_symbols d')" and dim: "int (length (decodeEmbedding V (cds_Embedding x))) = n"
      then consider "x = c" | "x \<in> set (db_symbols d)" using put_symbol_rows same(1) by fastforce
      then show "cds_ID x \<in> indexed d'"
      proof cases
        case 1
        then show ?thesis using new dim n(3) by auto
      next
        case 2
        then show ?thesis using n(5) dim same(4) by (auto simp: complete_def)
      qed
    qed
    then show ?thesis using assms(2) n rows' same(2) Some by (auto simp: searchable_def)
  qed
qed

lemma gives_upsertSymbolsTx: "gives (searchable V) (upsertSymbolsTx E V X changed) (\<lambda>_. searchable V)"
proof (cases "length changed = 0")
  case True
  then show ?thesis by (simp add: upsertSymbolsTx_def gives_retA)
next
  case False
  have each: "gives (searchable V) (thenA (execA E (\<lambda>d. d\<lparr>db_symbols := put_symbol (filled V c) (db_symbols d)\<rparr>))
      (upsertSymbolVectorTx E V X (cds_ID c) (embedding_or_default V c))) (\<lambda>_. searchable V)" for c
  proof (rule gives_at)
    fix d :: "'a db" assume d: "searchable V d"
    let ?d = "d\<lparr>db_symbols := put_symbol (filled V c) (db_symbols d)\<rparr>"
    have m: "mapped ?d" using d by (simp add: searchable_def mapped_upserts)
    have vector: "gives (\<lambda>x. x = ?d) (upsertSymbolVectorTx E V X (cds_ID c) (embedding_or_default V c)) (\<lambda>_. searchable V)"
    proof (cases "decodeEmbedding V (embedding_or_default V c) = []")
      case True
      then have "searchable V ?d"
        by (intro searchable_step [OF d m, of "filled V c"]) (simp_all add: filled_def)
      then have "gives (\<lambda>x. x = ?d) (retA ()) (\<lambda>_. searchable V)" by (intro gives_retA) simp
      with True show ?thesis by (simp add: upsertSymbolVectorTx_def)
    next
      case False
      have "cds_ID c \<in> cds_ID ` set (db_symbols ?d)" by (simp add: symbols.key_set_upsert)
      from gives_upsertSymbolVectorTx [OF this False] show ?thesis
        by (rule gives_conseq) (use m searchable_step [OF d] in auto)
    qed
    have "gives (\<lambda>x. x = d) (execA E (\<lambda>d. d\<lparr>db_symbols := put_symbol (filled V c) (db_symbols d)\<rparr>)) (\<lambda>_ x. x = ?d)"
      by (rule gives_execA) simp
    then show "gives (\<lambda>x. x = d) (thenA (execA E (\<lambda>d. d\<lparr>db_symbols := put_symbol (filled V c) (db_symbols d)\<rparr>))
      (upsertSymbolVectorTx E V X (cds_ID c) (embedding_or_default V c))) (\<lambda>_. searchable V)"
      using vector by (rule gives_thenA)
  qed
  have "gives (searchable V) (thenA (touchA E) (forA (\<lambda>c.
      thenA (execA E (\<lambda>d. d\<lparr>db_symbols := put_symbol (filled V c) (db_symbols d)\<rparr>))
        (upsertSymbolVectorTx E V X (cds_ID c) (embedding_or_default V c))) changed)) (\<lambda>_. searchable V)"
    by (rule gives_thenA [OF gives_touchA], assumption) (rule gives_loop, rule each)
  with False show ?thesis by (simp add: upsertSymbolsTx_def)
qed

lemma gives_storeProgramTx:
  "gives (searchable V) (storeProgramTx E V X prog es changed hs) (\<lambda>_. searchable V)"
proof -
  have "maintains (searchable V) (upsertFileMetasTx E metas)" "maintains (searchable V) (upsertEdgesTx E es)"
    "maintains (searchable V) (upsertMetricsTx E ms)" "maintains (searchable V) (upsertRoutesTx E rs)"
    "maintains (searchable V) (upsertGRPCEndpointsTx E eps)" "maintains (searchable V) (upsertGRPCRegistrationsTx E regs)"
    "maintains (searchable V) (upsertSymbolHashesTx E hs)" for metas ms rs eps regs
    unfolding upsertFileMetasTx_def upsertEdgesTx_def upsertMetricsTx_def upsertRoutesTx_def
      upsertGRPCEndpointsTx_def upsertGRPCRegistrationsTx_def upsertSymbolHashesTx_def
    by (auto intro!: maintains_intros searchable_upserts)
  from this [THEN gives_maintains] gives_upsertSymbolsTx show ?thesis
    unfolding storeProgramTx_def by (intro gives_thenA)
qed

section \<open>The table of a dimension\<close>

lemma mapped_create: "mapped d \<Longrightarrow> mapped (create_vec n d)"
  using inv_create_vec [of d n] by (simp add: mapped_def create_vec_def)

lemma mapped_drop: "mapped d \<Longrightarrow> mapped (d\<lparr>db_vec := None\<rparr>)"
  using inv_drop_vec by (auto simp: mapped_def)

lemma mapped_set_state: "mapped d \<Longrightarrow> mapped (set_state k v now d)"
  using inv_set_state by (auto simp: mapped_def set_state_def)

lemma set_dimension: "stored_dimension (set_state dimension_key v now d) = Some v"
  by (simp add: stored_dimension_def set_state_def state_rows.row_replace)

lemma set_other: "k \<noteq> dimension_key \<Longrightarrow> stored_dimension (set_state k v now d) = stored_dimension d"
  by (simp add: stored_dimension_def set_state_def state_rows.row_replace)

abbreviation rebuild_row ::
  "store_env \<Rightarrow> 'f vector_ops \<Rightarrow> 'f vec_engine \<Rightarrow> int \<Rightarrow> string \<times> 8 word list \<Rightarrow> ('f db, unit) action" where
  "rebuild_row E V X n \<equiv> \<lambda>(ident, embedding).
     let vec = decodeEmbedding V embedding
     in if int (length vec) \<noteq> n then retA ()
        else bindA (vectorRowIDTx E ident) (\<lambda>rowID.
             bindA (liftA (ve_json X vec)) (\<lambda>vector. attemptA E (vec_insert X rowID vector)))"

lemma gives_rebuild_row:
  assumes "i \<in> cds_ID ` set (db_symbols d)"
  shows "gives (\<lambda>d'. mapped d' \<and> index_grows d d') (rebuild_row E V X n (i, e))
    (\<lambda>_ d'. (mapped d' \<and> index_grows d d') \<and> (int (length (decodeEmbedding V e)) = n \<longrightarrow> i \<in> indexed d'))"
proof (cases "int (length (decodeEmbedding V e)) = n")
  case False
  then show ?thesis by (auto intro: gives_retA)
next
  case True
  let ?R = "\<lambda>r d'. mapped d' \<and> index_grows d d' \<and> (r, i) \<in> set (db_vec_map d')"
  have row: "gives (\<lambda>d'. mapped d' \<and> index_grows d d') (vectorRowIDTx E i) ?R"
    using assms by (rule gives_row)
  have ins: "gives (?R r) (attemptA E (vec_insert X r v)) (\<lambda>_ d'. (mapped d' \<and> index_grows d d') \<and> i \<in> indexed d')" for r v
    by (rule gives_conseq [OF gives_insert [of d i]]) (auto simp: index_grows_def)
  have "gives (?R r) (bindA (liftA (ve_json X (decodeEmbedding V e))) (\<lambda>vector. attemptA E (vec_insert X r vector)))
      (\<lambda>_ d'. (mapped d' \<and> index_grows d d') \<and> i \<in> indexed d')" for r
    by (rule gives_bindA [OF gives_liftA [where Q = "\<lambda>_. ?R r"]]) (simp, rule ins)
  from gives_bindA [OF row this] show ?thesis using True by simp
qed

lemma decode_Nil [simp]: "decodeEmbedding V [] = []"
  by (simp add: decodeEmbedding_def)

lemma gives_rebuildVectorTable:
  assumes "0 < n" "int64 n"
  shows "gives (\<lambda>d. mapped d \<and> stored_dimension d = Some (Itoa n) \<and> db_vec d = Some (n, []))
    (rebuildVectorTable E V X n) (\<lambda>_ d. searchable V d \<and> table_dimension d = Some n)"
proof (rule gives_at)
  fix d :: "'a db" assume d: "mapped d \<and> stored_dimension d = Some (Itoa n) \<and> db_vec d = Some (n, [])"
  let ?rows = "map (\<lambda>s. (cds_ID s, cds_Embedding s)) (filter (\<lambda>s. cds_Embedding s \<noteq> []) (db_symbols d))"
  let ?P = "\<lambda>d'. mapped d' \<and> index_grows d d'"
  let ?Q = "\<lambda>(i, e) d'. int (length (decodeEmbedding V e)) = n \<longrightarrow> i \<in> indexed d'"
  have ids: "fst x \<in> cds_ID ` set (db_symbols d)" if "x \<in> set ?rows" for x using that by auto
  have loop: "gives ?P (forA (rebuild_row E V X n) ?rows) (\<lambda>_ d'. ?P d' \<and> (\<forall>x\<in>set ?rows. ?Q x d'))"
  proof (rule gives_forA)
    show "gives ?P (rebuild_row E V X n x) (\<lambda>_ d'. ?P d' \<and> ?Q x d')" if "x \<in> set ?rows" for x
      using gives_rebuild_row [OF ids [OF that], where E = E and V = V and X = X and n = n and e = "snd x"] by (cases x) simp
  next
    fix x y assume "x \<in> set ?rows" "y \<in> set ?rows"
    show "gives (\<lambda>d'. ?P d' \<and> ?Q x d') (rebuild_row E V X n y) (\<lambda>_. ?Q x)"
    proof (rule gives_at)
      fix d1 assume d1: "?P d1 \<and> ?Q x d1"
      then have "fst y \<in> cds_ID ` set (db_symbols d1)" using ids [OF \<open>y \<in> set ?rows\<close>] by (simp add: index_grows_def)
      have "gives (\<lambda>d'. mapped d' \<and> index_grows d1 d') (rebuild_row E V X n y) (\<lambda>_ d'. index_grows d1 d')"
        by (rule gives_conseq [OF gives_rebuild_row [OF \<open>fst y \<in> cds_ID ` set (db_symbols d1)\<close>,
              where E = E and V = V and X = X and n = n and e = "snd y", unfolded prod.collapse]]) auto
      then show "gives (\<lambda>x. x = d1) (rebuild_row E V X n y) (\<lambda>_. ?Q x)"
        by (rule gives_conseq) (use d1 in \<open>auto simp: index_grows_def\<close>)
    qed
  qed
  have finish: "searchable V d' \<and> table_dimension d' = Some n" if d': "?P d' \<and> (\<forall>x\<in>set ?rows. ?Q x d')" for d'
  proof -
    have same: "db_symbols d' = db_symbols d" "stored_dimension d' = Some (Itoa n)" "table_dimension d' = Some n"
      using d' d by (auto simp: index_grows_def stored_dimension_def table_dimension_def)
    then obtain rows where rows: "db_vec d' = Some (n, rows)" by (auto simp: table_dimension_def)
    have "complete V n d'"
      unfolding complete_def
    proof (intro ballI impI)
      fix c assume c: "c \<in> set (db_symbols d')" "int (length (decodeEmbedding V (cds_Embedding c))) = n"
      then have "cds_Embedding c \<noteq> []" using assms(1) by auto
      then have "(cds_ID c, cds_Embedding c) \<in> set ?rows" using c same(1) by auto
      then show "cds_ID c \<in> indexed d'" using d' c(2) by fastforce
    qed
    then show ?thesis using d' same rows assms by (auto simp: searchable_def)
  qed
  have "gives (\<lambda>x. x = d) (InTransaction E (forA (rebuild_row E V X n) ?rows)) (\<lambda>_ d'. searchable V d' \<and> table_dimension d' = Some n)"
    by (rule gives_InTransaction, rule gives_conseq [OF loop]) (use d finish in auto)
  then have body: "gives (\<lambda>x. rows = ?rows \<and> x = d) (InTransaction E (forA (rebuild_row E V X n) rows))
      (\<lambda>_ d'. searchable V d' \<and> table_dimension d' = Some n)" for rows
    by (cases "rows = ?rows") (simp, simp add: gives_def)
  show "gives (\<lambda>x. x = d) (rebuildVectorTable E V X n) (\<lambda>_ d. searchable V d \<and> table_dimension d = Some n)"
    unfolding rebuildVectorTable_def by (rule gives_bindA [OF gives_queryA body]) simp
qed

lemma gives_ensureVectorTable:
  fixes X :: "'f vec_engine"
  assumes "int64 n"
  shows "gives (searchable V) (ensureVectorTable E V X n) (\<lambda>_ d. searchable V d \<and> table_dimension d = Some n)"
proof (cases "0 < n")
  case False
  then show ?thesis by (simp add: ensureVectorTable_def gives_failA)
next
  case True
  let ?done = "\<lambda>_ d. searchable V d \<and> table_dimension d = Some n"
  let ?bare = "\<lambda>d :: 'f db. mapped d \<and> db_vec d = None"
  let ?new = "\<lambda>d :: 'f db. mapped d \<and> db_vec d = Some (n, [])"
  let ?renew = "thenA (execA E (create_vec n)) (bindA (clockA E) (\<lambda>now.
      thenA (execA E (set_state dimension_key (Itoa n) now)) (rebuildVectorTable E V X n)))"
  have create: "gives ?bare (execA E (create_vec n)) (\<lambda>_. ?new)"
    by (rule gives_execA) (simp add: mapped_create, simp add: create_vec_def)
  have noted: "gives ?new (execA E (set_state dimension_key (Itoa n) now))
      (\<lambda>_ d. mapped d \<and> stored_dimension d = Some (Itoa n) \<and> db_vec d = Some (n, []))" for now
    by (rule gives_execA) (simp add: mapped_set_state set_dimension, simp add: set_state_def)
  have renew: "gives ?bare ?renew ?done"
    by (rule gives_thenA [OF create], rule gives_bindA [OF gives_clockA [where Q = "\<lambda>_. ?new"]], assumption,
        rule gives_thenA [OF noted], rule gives_rebuildVectorTable [OF True assms])
  let ?P = "\<lambda>c (d :: 'f db). searchable V d \<and> stored_dimension d = c"
  have branch: "gives (?P c) (case c of None \<Rightarrow> ?renew
      | Some v \<Rightarrow> (case Atoi v of
            None \<Rightarrow> failA (''strconv.Atoi: parsing '' @ go_quote v @ '': invalid syntax'')
          | Some k \<Rightarrow> if k = n then execA E (create_vec n) else thenA (execA E (\<lambda>d. d\<lparr>db_vec := None\<rparr>)) ?renew))
      ?done" for c
  proof (cases c)
    case None
    have "gives (?P None) ?renew ?done" by (rule gives_conseq [OF renew]) (auto simp: searchable_def)
    with None show ?thesis by simp
  next
    case (Some v)
    show ?thesis
    proof (cases "Atoi v")
      case None
      with Some show ?thesis by (simp add: gives_failA)
    next
      case (Some k)
      have known: "v = Itoa k \<and> (\<exists>rows. db_vec d = Some (k, rows))" if "?P c d" for d
        using that Some \<open>c = Some v\<close> by (auto simp: searchable_def Atoi_Itoa)
      show ?thesis
      proof (cases "k = n")
        case True
        have "gives (?P c) (execA E (create_vec n)) ?done"
          by (rule gives_execA) (use known True in \<open>fastforce simp: create_vec_def table_dimension_def\<close>)
        then show ?thesis using True Some \<open>c = Some v\<close> by simp
      next
        case False
        have "gives (?P c) (execA E (\<lambda>d. d\<lparr>db_vec := None\<rparr>)) (\<lambda>_. ?bare)"
          by (rule gives_execA) (simp add: searchable_def mapped_drop)
        then show ?thesis using False Some \<open>c = Some v\<close> gives_thenA [OF _ renew] by simp
      qed
    qed
  qed
  have "gives (searchable V) (queryA E stored_dimension) (\<lambda>c. ?P c)"
    by (rule gives_queryA) simp
  from gives_bindA [OF this branch] show ?thesis using True by (simp add: ensureVectorTable_def Let_def)
qed

text \<open>
  A completeness that holds only for runs that succeed: when the creation of a new table succeeded
  and the statement that records its dimension failed, every later call keeps the table of the
  wrong dimension; when the old table was dropped and the creation failed, the next call for the
  old dimension makes an empty table and leaves it empty.
\<close>

lemma unrecorded_dimension_is_never_repaired:
  assumes "never_fails E" "stored_dimension (st_db s) = Some (Itoa n)" "int64 n" "0 < n"
    and "db_vec (st_db s) = Some (m, rows)"
  shows "\<exists>t. ensureVectorTable E V X n s = (Inr (), t) \<and> db_vec (st_db t) = Some (m, rows)"
  using assms
  by (simp add: ensureVectorTable_def bindA_def queryA_run Atoi_Itoa execA_def statement_def never_fails_def create_vec_def)

lemma dropped_index_is_not_rebuilt:
  assumes "never_fails E" "stored_dimension (st_db s) = Some (Itoa n)" "int64 n" "0 < n" "db_vec (st_db s) = None"
  shows "\<exists>t. ensureVectorTable E V X n s = (Inr (), t) \<and> db_vec (st_db t) = Some (n, [])"
  using assms
  by (simp add: ensureVectorTable_def bindA_def queryA_run Atoi_Itoa execA_def statement_def never_fails_def create_vec_def)

section \<open>Storing a program keeps the index complete\<close>

lemma searchable_state:
  assumes "searchable V d"
  shows "searchable V (set_state ''schema_version'' v now d)"
  by (rule searchable_same [OF assms])
    (use assms in \<open>simp_all add: searchable_def mapped_set_state set_other dimension_key_def\<close>, simp_all add: set_state_def)

lemma gives_OpenWorkspaceStore: "gives (searchable V) (OpenWorkspaceStore E) (\<lambda>_. searchable V)"
proof -
  have "maintains (searchable V) (OpenWorkspaceStore E)"
    unfolding OpenWorkspaceStore_def initSchema_def by (auto intro!: maintains_intros searchable_state split: option.split)
  then show ?thesis by (rule gives_maintains)
qed

lemma gives_prepare: "gives (searchable V) (prepareChangedSymbols E V ss hs p) (\<lambda>_. searchable V)"
  by (rule gives_maintains [OF maintains_prepare(3)])

lemma stored_stays_searchable:
  assumes "never_fails E" "searchable V (st_db s)"
    and cfg: "EffectiveWorkspaceConfig (vo_float V) C root = Inr config"
      "NewEmbeddingProviderFromConfig N (vo_float V) (wc_Embeddings config) = Inr provider"
    and changed: "symbols_to_store V provider (st_db s) (spr_codeSymbols prog) (spr_symbolHashes prog) = Inr changed"
    and dim: "int64 (symbols_dimension V changed)"
    and run: "ShadowStoreProgram E C N V X root (Some prog) s = (Inr (), t)"
  shows "searchable V (st_db t)"
proof -
  let ?hs = "withEmbeddingVersion (spr_symbolHashes prog) (embeddingVersionForProvider provider)"
  obtain s1 new hashes v w n where steps: "OpenWorkspaceStore E s = (Inr (), s1)"
      "prepareChangedSymbols E V (spr_codeSymbols prog) ?hs provider s1 = (Inr (new, hashes), v)"
      "ensureVectorTableForSymbols E V X new v = (Inr (), w)"
      "InTransaction E (storeProgramTx E V X prog (packageImportEdges n (spr_Packages prog)) new hashes) w = (Inr (), t)"
    using run cfg by (auto simp: ShadowStoreProgram_def action_simps Let_def split: prod.splits)
  have s1: "searchable V (st_db s1)" using givesD [OF gives_OpenWorkspaceStore assms(2) steps(1)] .
  have v: "searchable V (st_db v)" using givesD [OF gives_prepare s1 steps(2)] .
  have "content (st_db s1) = content (st_db s)" using keepsD [OF keeps_OpenWorkspaceStore steps(1)] .
  then have "symbols_to_store V provider (st_db s1) (spr_codeSymbols prog) ?hs = Inr changed"
    using changed symbols_to_store_content by (fastforce simp: symbols_to_store_def)
  then have "new = changed"
    using prepare_run [OF assms(1), of V "spr_codeSymbols prog" ?hs provider s1] steps(2) by auto
  moreover have "gives (searchable V) (ensureVectorTable E V X (symbols_dimension V changed)) (\<lambda>_. searchable V)"
    by (rule gives_conseq [OF gives_ensureVectorTable [OF dim]]) simp_all
  ultimately have "gives (searchable V) (ensureVectorTableForSymbols E V X new) (\<lambda>_. searchable V)"
    by (auto simp: ensureVectorTableForSymbols_def Let_def intro!: gives_retA)
  from givesD [OF this v steps(3)] have "searchable V (st_db w)" .
  then show ?thesis using givesD [OF gives_InTransaction [OF gives_storeProgramTx]] steps(4) by blast
qed

section \<open>Searching\<close>

text \<open>What the vector extension promises: it answers, with as many rows of the table as asked for.\<close>

definition nearest :: "'f vec_engine \<Rightarrow> bool" where
  "nearest X \<longleftrightarrow> (\<forall>rows j k. distinct (map fst rows) \<longrightarrow> 0 < k \<longrightarrow>
     (\<exists>ids. ve_match X rows j k = Inr ids \<and> distinct ids \<and> set ids \<subseteq> fst ` set rows
        \<and> length ids = min (nat k) (length rows)))"

lemma filter_key: "distinct (map key xs) \<Longrightarrow> x \<in> set xs \<Longrightarrow> filter (\<lambda>y. key y = key x) xs = [x]"
proof (induction xs)
  case (Cons a xs)
  show ?case
  proof (cases "x = a")
    case True
    then have "filter (\<lambda>y. key y = key x) xs = []" using Cons.prems by (auto simp: filter_empty_conv) (metis imageI)
    with True show ?thesis by simp
  next
    case False
    then show ?thesis using Cons by auto
  qed
qed simp

lemma matched_symbols:
  assumes "mapped d" "db_vec d = Some (n, rows)" "distinct ids" "set ids \<subseteq> fst ` set rows"
    and "ve_match X rows j k = Inr ids"
  shows "\<exists>symbols. matchSymbols X j k d = Inr symbols \<and> distinct symbols \<and> length symbols = length ids
    \<and> set symbols \<subseteq> set (db_symbols d)
    \<and> (set ids = fst ` set rows \<longrightarrow> (\<forall>c\<in>set (db_symbols d). cds_ID c \<in> indexed d \<longrightarrow> c \<in> set symbols))"
proof -
  have inv: "distinct (map fst (db_vec_map d))" "distinct (map snd (db_vec_map d))"
      "fst ` set rows \<subseteq> fst ` set (db_vec_map d)" "distinct (map cds_ID (db_symbols d))"
      "snd ` set (db_vec_map d) \<subseteq> cds_ID ` set (db_symbols d)"
    using assms(1,2) by (auto simp: mapped_def store_inv_def tables_inv_def index_inv_def)
  let ?f = "\<lambda>i. concat (map (\<lambda>m. filter (\<lambda>s. cds_ID s = snd m) (db_symbols d)) (filter (\<lambda>m. fst m = i) (db_vec_map d)))"
  have one: "?f i = [c]" if "(i, cds_ID c) \<in> set (db_vec_map d)" "c \<in> set (db_symbols d)" for i c
    using filter_key [OF inv(1) that(1)] filter_key [OF inv(4) that(2)] by simp
  have "\<exists>c. (i, cds_ID c) \<in> set (db_vec_map d) \<and> c \<in> set (db_symbols d)" if "i \<in> fst ` set rows" for i
  proof -
    have "i \<in> fst ` set (db_vec_map d)" using that inv(3) by (rule rev_subsetD)
    then obtain m where "m \<in> set (db_vec_map d)" "fst m = i" by blast
    moreover from this obtain c where "c \<in> set (db_symbols d)" "cds_ID c = snd m" using inv(5) by auto
    ultimately show ?thesis by (metis prod.collapse)
  qed
  then obtain g where g: "\<And>i. i \<in> fst ` set rows \<Longrightarrow> (i, cds_ID (g i)) \<in> set (db_vec_map d) \<and> g i \<in> set (db_symbols d)"
    by metis
  have "concat (map ?f ids) = concat (map (\<lambda>i. [g i]) ids)"
    using one g assms(4) by (intro arg_cong [where f = concat] map_cong refl) blast
  then have list: "concat (map ?f ids) = map g ids" by (simp add: map_eq_conv concat_map_singleton)
  have "inj_on g (set ids)"
  proof (rule inj_onI)
    fix i k assume "i \<in> set ids" "k \<in> set ids" "g i = g k"
    then have "i \<in> fst ` set rows" "k \<in> fst ` set rows" using assms(4) by blast+
    then have "(i, cds_ID (g i)) \<in> set (db_vec_map d)" "(k, cds_ID (g i)) \<in> set (db_vec_map d)"
      using g [of i] g [of k] \<open>g i = g k\<close> by simp_all
    then show "i = k" using inv(2) by (metis Pair_inject distinct_map inj_onD snd_conv)
  qed
  then have "distinct (map g ids)" using assms(3) by (simp add: distinct_map)
  moreover have "g i \<in> set (db_symbols d)" if "i \<in> set ids" for i
    using g [of i] that assms(4) by blast
  then have "set (map g ids) \<subseteq> set (db_symbols d)" by auto
  moreover have "c \<in> set (map g ids)" if "set ids = fst ` set rows" "c \<in> set (db_symbols d)" "cds_ID c \<in> indexed d" for c
  proof -
    note c = that
    then obtain i where i: "i \<in> fst ` set rows" "(i, cds_ID c) \<in> set (db_vec_map d)"
      using assms(2) by (auto simp: indexed_def)
    then have "?f i = [c]" "?f i = [g i]" using one c(2) g by blast+
    then have "c = g i" by simp
    then show ?thesis using i c(1) by simp
  qed
  moreover have "matchSymbols X j k d = Inr (concat (map ?f ids))" using assms(2,5) by (simp add: matchSymbols_def)
  ultimately show ?thesis unfolding list by (intro exI [of _ "map g ids"]) simp
qed

text \<open>How many symbols a search is asked for.\<close>

definition asked :: "int \<Rightarrow> nat" where
  "asked limit = (if limit \<le> 0 then 10 else nat limit)"

definition finds :: "'f vector_ops \<Rightarrow> nat \<Rightarrow> nat \<Rightarrow> 'f db \<Rightarrow> CodeSymbol list \<Rightarrow> bool" where
  "finds V dimension k d symbols \<longleftrightarrow>
     distinct symbols \<and> set symbols \<subseteq> set (db_symbols d) \<and> length symbols \<le> k
   \<and> (length symbols < k \<longrightarrow>
        {c \<in> set (db_symbols d). length (decodeEmbedding V (cds_Embedding c)) = dimension} \<subseteq> set symbols)"

lemma search_run:
  fixes X :: "'f vec_engine"
  assumes "never_fails E" "accepts X" "nearest X" "searchable V (st_db s)" "query \<noteq> []" "int64 (int (length query))"
  shows "\<exists>symbols u. SemanticSearch E V X query limit s = (Inr symbols, u) \<and> searchable V (st_db u)
    \<and> content (st_db u) = content (st_db s) \<and> finds V (length query) (asked limit) (st_db s) symbols"
proof -
  let ?n = "int (length query)" and ?k = "if limit \<le> 0 then 10 else limit"
  have pos: "0 < ?n" "0 < ?k" using assms(5) by auto
  obtain x u where "ensureVectorTable E V X ?n s = (Inr x, u)"
    using succeedsD [OF succeeds_ensureVectorTable [OF assms(1,2) pos(1), of V]] searchable_index_ok [OF assms(4)] by blast
  then have u: "ensureVectorTable E V X ?n s = (Inr (), u)" by simp
  have su: "searchable V (st_db u)" "table_dimension (st_db u) = Some ?n"
    using givesD [OF gives_ensureVectorTable [OF assms(6)] assms(4) u] by simp_all
  have cu: "content (st_db u) = content (st_db s)" using keepsD [OF keeps_ensureVectorTable u] .
  obtain rows where rows: "db_vec (st_db u) = Some (?n, rows)" using su(2) by (auto simp: table_dimension_def)
  have m: "mapped (st_db u)" "complete V ?n (st_db u)"
    using su(1) rows by (auto simp: searchable_def split: option.splits)
  have dist: "distinct (map fst rows)" using m(1) rows by (simp add: mapped_def store_inv_def index_inv_def)
  obtain j where j: "ve_json X query = Inr j" using assms(2) unfolding accepts_def by metis
  obtain ids where ids: "ve_match X rows j ?k = Inr ids" "distinct ids" "set ids \<subseteq> fst ` set rows"
      "length ids = min (nat ?k) (length rows)"
    using assms(3) dist pos(2) unfolding nearest_def by metis
  obtain symbols where symbols: "matchSymbols X j ?k (st_db u) = Inr symbols" "distinct symbols" "length symbols = length ids"
      "set symbols \<subseteq> set (db_symbols (st_db u))"
      "set ids = fst ` set rows \<longrightarrow> (\<forall>c\<in>set (db_symbols (st_db u)). cds_ID c \<in> indexed (st_db u) \<longrightarrow> c \<in> set symbols)"
    using matched_symbols [OF m(1) rows ids(2,3,1)] by blast
  have k: "nat ?k = asked limit" by (simp add: asked_def)
  have all: "c \<in> set symbols"
    if short: "length symbols < asked limit" and c: "c \<in> set (db_symbols (st_db u))" "length (decodeEmbedding V (cds_Embedding c)) = length query" for c
  proof -
    have "length ids = length rows" using short symbols(3) ids(4) k by simp
    then have "card (set ids) = card (fst ` set rows)"
      using distinct_card [OF ids(2)] distinct_card [OF dist] by simp
    then have "set ids = fst ` set rows" using ids(3) by (simp add: card_subset_eq)
    moreover have "cds_ID c \<in> indexed (st_db u)" using m(2) c by (simp add: complete_def)
    ultimately show ?thesis using symbols(5) c(1) by blast
  qed
  have "db_symbols (st_db u) = db_symbols (st_db s)" using cu by (simp add: content_eq)
  then have "finds V (length query) (asked limit) (st_db s) symbols"
    using symbols all ids(4) k by (auto simp: finds_def)
  moreover have "SemanticSearch E V X query limit s = (Inr symbols, u\<lparr>st_n := Suc (st_n u)\<rparr>)"
    using assms(5) u j symbols(1)
    by (simp add: SemanticSearch_def thenA_def bindA_def liftA_def queryA_run [OF assms(1)])
  ultimately show ?thesis using su(1) cu by fastforce
qed



end
