(* ===== verification/Tool_Handlers.thy ===== *)
theory Tool_Handlers
  imports Handlers Interfaces Lifecycle Concurrency Duplicate_Methods Entrypoints Store_Listings Store_Search Orphaned_Models
begin

text \<open>
  The remaining tool handlers of \<^verbatim>\<open>main.go\<close>: interface topology, struct lifecycle, concurrency
  risks, duplicate methods, entrypoints, orphaned models, and the tools that read the SQLite
  store: routes, endpoints and semantic search. The stores are a function of the root directory.
\<close>

section \<open>Inputs\<close>

record InterfaceTopologyInput = paged_input +
  ti_InterfaceName :: string
  ti_IncludeStdlib :: bool
  ti_Summary :: bool

record StructLifecycleInput = paged_input +
  fi_StructName :: string
  fi_DedupeMode :: string
  fi_MaxHops :: int
  fi_Summary :: bool

record ConcurrencyRisksInput = analysis_input +
  ni_IncludeDiagnostics :: bool

record FindDuplicateMethodsInput = paged_input +
  ui_MinBodyLines :: int
  ui_ScopePackagePattern :: string

record FindOrphanedDatabaseModelsInput = paged_input +
  oi_ORMFramework :: string
  oi_ScopePackagePattern :: string

record SemanticSearchInput = analysis_input +
  si_Query :: string
  si_Limit :: int
  si_MaxSourceBytes :: int

type_synonym ListEntrypointsInput = paged_input
type_synonym ListHTTPRoutesInput = paged_input
type_synonym ListGRPCEndpointsInput = paged_input

section \<open>Environment\<close>

text \<open>
  What the workspace hands out for a root and a pattern to these analyses, beside the environment
  of the other handlers; the store of a root, the embedding environment and the vector engine.
\<close>

record 'f tool_env =
  tx_base :: "'f handler_env"
  tx_checker :: type_checker
  tx_fuel :: nat
  tx_topology :: "string \<Rightarrow> string \<Rightarrow> string + topo_program"
  tx_life :: "string \<Rightarrow> string \<Rightarrow> string + life_program"
  tx_ssa_code :: "string \<Rightarrow> string \<Rightarrow> string + ssa_code"
  tx_methods :: "string \<Rightarrow> string \<Rightarrow> string + ((string \<times> string list) list \<times> MethodFingerprint list)"
  tx_entries :: "string \<Rightarrow> string \<Rightarrow> string + entry_package option list"
  tx_syntax :: "string \<Rightarrow> string \<Rightarrow> string + unit"
  tx_models :: "string \<Rightarrow> string \<Rightarrow> (string \<times> string list) list \<times> (string + orm_program)"
  tx_migrations :: migration_files
  tx_store :: "string \<Rightarrow> store_env"
  tx_embed :: "'f embed_env"
  tx_vectors :: "'f vector_ops"
  tx_index :: "'f vec_engine"

type_synonym 'f stores = "string \<Rightarrow> 'f db store"

definition onStore :: "string \<Rightarrow> ('f db, 'a) action \<Rightarrow> 'f stores \<Rightarrow> (string + 'a) \<times> 'f stores" where
  "onStore root m stores = (case m (stores root) of (r, s) \<Rightarrow> (r, stores(root := s)))"

section \<open>Options and errors\<close>

definition lifecycleOptionsWithConfig :: "'f WorkspaceConfig \<Rightarrow> LifecycleOptions \<Rightarrow> LifecycleOptions" where
  "lifecycleOptionsWithConfig config opts =
     (let k = wc_Lifecycle config; out = wc_Output config
      in opts\<lparr>lo_DedupeMode := (if TrimSpace (lo_DedupeMode opts) = '''' then lc_DedupeMode k else lo_DedupeMode opts),
              lo_MaxHops := (if lo_MaxHops opts = 0 then lc_MaxHops k else lo_MaxHops opts),
              lo_Limit := (if lo_Limit opts = 0 then ou_Limit out else lo_Limit opts),
              lo_Offset := (if lo_Offset opts = 0 then ou_Offset out else lo_Offset opts),
              lo_MaxItems := (if lo_MaxItems opts = 0 then ou_MaxItems out else lo_MaxItems opts),
              lo_ChunkSize := (if lo_ChunkSize opts = 0 then ou_ChunkSize out else lo_ChunkSize opts),
              lo_Summary := (lo_Summary opts \<or> lc_Summary k \<or> ou_Summary out)\<rparr>)"

definition topoResult :: "topo_error + 'r \<Rightarrow> tool_error + 'r" where
  "topoResult result =
     (case result of Inl (TopoMsg e) \<Rightarrow> Inl (ToolMsg e) | Inl (TopoStream e) \<Rightarrow> Inl (ToolPage e) | Inr r \<Rightarrow> Inr r)"

definition lifeResult :: "lifecycle_error + 'r \<Rightarrow> tool_error + 'r" where
  "lifeResult result =
     (case result of Inl (LifeMsg e) \<Rightarrow> Inl (ToolMsg e) | Inl (LifeStream e) \<Rightarrow> Inl (ToolPage e) | Inr r \<Rightarrow> Inr r)"

definition dupResult :: "duplicate_error + 'r \<Rightarrow> tool_error + 'r" where
  "dupResult result =
     (case result of Inl (DupLoad e) \<Rightarrow> Inl (ToolMsg e) | Inl (DupStream e) \<Rightarrow> Inl (ToolPage e) | Inr r \<Rightarrow> Inr r)"

definition entryResult :: "(string + stream_error) + 'r \<Rightarrow> tool_error + 'r" where
  "entryResult result =
     (case result of Inl (Inl e) \<Rightarrow> Inl (ToolMsg e) | Inl (Inr e) \<Rightarrow> Inl (ToolPage e) | Inr r \<Rightarrow> Inr r)"

definition ormResult :: "orm_error + 'r \<Rightarrow> tool_error + 'r" where
  "ormResult result =
     (case result of Inl (OrmLoad e) \<Rightarrow> Inl (ToolMsg e) | Inl (OrmFrameworkError e) \<Rightarrow> Inl (ToolMsg e)
      | Inl (OrmStream e) \<Rightarrow> Inl (ToolPage e) | Inr r \<Rightarrow> Inr r)"

text \<open>The error of an action on the store, or the error or result it computed.\<close>

definition storeResult :: "string + (stream_error + 'r) \<Rightarrow> tool_error + 'r" where
  "storeResult result = (case result of Inl e \<Rightarrow> Inl (ToolMsg e) | Inr r \<Rightarrow> pageResult r)"

section \<open>Slow tools\<close>

definition handleTraceStructLifecycle ::
  "'f tool_env \<Rightarrow> StructLifecycleInput \<Rightarrow> server \<Rightarrow> StructLifecycleResult reply \<times> server" where
  "handleTraceStructLifecycle env input =
     withDefaults (tx_base env) input (\<lambda>d. slowTool ''trace_struct_lifecycle''
       (lifeResult (TraceStructLifecycle (hx_paging (tx_base env)) (tx_life env (ad_RootPath d) (ad_Pattern d))
          (fi_StructName input)
          (lifecycleOptionsWithConfig (ad_Config d)
            \<lparr>lo_DedupeMode = fi_DedupeMode input, lo_MaxHops = fi_MaxHops input, lo_Summary = fi_Summary input,
             lo_Limit = in_Limit input, lo_Offset = in_Offset input, lo_MaxItems = in_MaxItems input,
             lo_Cursor = in_Cursor input, lo_ChunkSize = in_ChunkSize input\<rparr>))))"

text \<open>
  A slow tool whose analysis may not return: \<open>None\<close> means that it does not. A refused caller is
  answered in any case.
\<close>

definition slowToolOrHang ::
  "string \<Rightarrow> (tool_error + 'r) option \<Rightarrow> server \<Rightarrow> ('r reply \<times> server) option" where
  "slowToolOrHang owner result sv =
     (case result of
        Some r \<Rightarrow> Some (slowTool owner r sv)
      | None \<Rightarrow>
          (case beginSlowPath owner (sv_mutex sv) of
             (m, Inl busy) \<Rightarrow> Some (BusyReply busy, sv\<lparr>sv_mutex := m\<rparr>)
           | (m, Inr _) \<Rightarrow> None))"

definition handleDetectConcurrencyRisks ::
  "'f tool_env \<Rightarrow> ConcurrencyRisksInput \<Rightarrow> server \<Rightarrow> (ConcurrencyRiskResult reply \<times> server) option" where
  "handleDetectConcurrencyRisks env input sv =
     (case resolveAnalysisDefaults (tx_base env) input sv of
        (Inl e, sv) \<Rightarrow> Some (toolError (ToolMsg e), sv)
      | (Inr d, sv) \<Rightarrow>
          slowToolOrHang ''detect_concurrency_risks''
            (map_option msgResult (DetectConcurrencyRisks (tx_fuel env)
               (tx_ssa_code env (ad_RootPath d) (ad_Pattern d)) (ni_IncludeDiagnostics input))) sv)"

definition handleFindOrphanedDatabaseModels ::
  "'f tool_env \<Rightarrow> FindOrphanedDatabaseModelsInput \<Rightarrow> server \<Rightarrow> OrphanedModelResult reply \<times> server" where
  "handleFindOrphanedDatabaseModels env input =
     withDefaults (tx_base env) input (\<lambda>d.
       let orm = wc_ORM (ad_Config d);
           framework = (if oi_ORMFramework input = '''' then or_DefaultFramework orm else oi_ORMFramework input);
           (pkgs, prog) = tx_models env (ad_RootPath d) (ad_Pattern d)
       in slowTool ''find_orphaned_database_models''
         (ormResult (FindOrphanedDatabaseModelsWithOptions (hx_paging (tx_base env)) (tx_migrations env)
            (hx_exists (tx_base env)) pkgs prog (ad_RootPath d) (ad_Pattern d)
            \<lparr>oo_ORMFramework = framework, oo_ScopePattern = oi_ScopePackagePattern input,
             oo_MigrationDirs = or_MigrationDirs orm, oo_TableInference = or_TableInference orm\<rparr>
            (queryOf (ad_Config d) input False ExportNone))))"

section \<open>Other tools\<close>

definition handleInterfaceTopology ::
  "'f tool_env \<Rightarrow> InterfaceTopologyInput \<Rightarrow> server \<Rightarrow> TopologyResult reply \<times> server" where
  "handleInterfaceTopology env input =
     withDefaults (tx_base env) input (\<lambda>d sv.
       (replyOf (topoResult (GetInterfaceTopologyWithOptions (hx_paging (tx_base env)) (tx_checker env) (tx_fuel env)
          (tx_topology env (ad_RootPath d)) (hx_fallback (tx_base env) (ad_RootPath d) (ad_Pattern d)) (ad_Pattern d)
          (ti_InterfaceName input) (ti_IncludeStdlib input)
          (queryOf (ad_Config d) input (ti_Summary input) ExportNone))), sv))"

definition handleFindDuplicateMethods ::
  "'f tool_env \<Rightarrow> FindDuplicateMethodsInput \<Rightarrow> server \<Rightarrow> DuplicateMethodsResult reply \<times> server" where
  "handleFindDuplicateMethods env input =
     withDefaults (tx_base env) input (\<lambda>d sv.
       (replyOf (dupResult (FindDuplicateMethodsWithOptions (hx_paging (tx_base env)) (hx_exists (tx_base env))
          (tx_methods env (ad_RootPath d) (ad_Pattern d)) (ad_RootPath d) (ad_Pattern d)
          \<lparr>dn_MinBodyLines = ui_MinBodyLines input, dn_ScopePattern = ui_ScopePackagePattern input\<rparr>
          (queryOf (ad_Config d) input False ExportNone))), sv))"

definition handleListEntrypoints ::
  "'f tool_env \<Rightarrow> ListEntrypointsInput \<Rightarrow> server \<Rightarrow> EntrypointsResult reply \<times> server" where
  "handleListEntrypoints env input =
     withDefaults (tx_base env) input (\<lambda>d sv.
       (replyOf (entryResult (ListEntrypointsWithOptions (hx_paging (tx_base env))
          (tx_entries env (ad_RootPath d) (ad_Pattern d)) (ad_RootPath d) (ad_Pattern d)
          (queryOf (ad_Config d) input False ExportNone))), sv))"

section \<open>Tools on the store\<close>

definition withStore ::
  "'f tool_env \<Rightarrow> ('i analysis_input_scheme) \<Rightarrow> ('f analysisDefaults \<Rightarrow> ('f db, stream_error + 'r) action) \<Rightarrow>
   server \<times> 'f stores \<Rightarrow> 'r reply \<times> server \<times> 'f stores" where
  "withStore env input body = (\<lambda>(sv, stores).
     case resolveAnalysisDefaults (tx_base env) input sv of
       (Inl e, sv) \<Rightarrow> (toolError (ToolMsg e), sv, stores)
     | (Inr d, sv) \<Rightarrow>
         (case onStore (ad_RootPath d) (body d) stores of
            (r, stores) \<Rightarrow> (replyOf (storeResult r), sv, stores)))"

definition handleListHTTPRoutes ::
  "'f tool_env \<Rightarrow> ListHTTPRoutesInput \<Rightarrow> server \<times> 'f stores \<Rightarrow> HTTPRoutesResult reply \<times> server \<times> 'f stores" where
  "handleListHTTPRoutes env input =
     withStore env input (\<lambda>d. ListHTTPRoutesWithOptions (hx_paging (tx_base env)) (tx_store env (ad_RootPath d))
       (tx_syntax env (ad_RootPath d) (ad_Pattern d)) (ad_RootPath d) (ad_Pattern d)
       (queryOf (ad_Config d) input False ExportNone))"

definition handleListGRPCEndpoints ::
  "'f tool_env \<Rightarrow> ListGRPCEndpointsInput \<Rightarrow> server \<times> 'f stores \<Rightarrow> GRPCEndpointsResult reply \<times> server \<times> 'f stores" where
  "handleListGRPCEndpoints env input =
     withStore env input (\<lambda>d. ListGRPCEndpointsWithOptions (hx_paging (tx_base env)) (tx_store env (ad_RootPath d))
       (tx_syntax env (ad_RootPath d) (ad_Pattern d)) (ad_RootPath d) (ad_Pattern d)
       (queryOf (ad_Config d) input False ExportNone))"

section \<open>Semantic search\<close>

record SemanticSearchSymbol =
  sy_ID :: string
  sy_Type :: string
  sy_PackagePath :: string
  sy_Name :: string
  sy_FilePath :: string
  sy_LineStart :: int
  sy_LineEnd :: int
  sy_Source :: string

datatype meta_value = MetaText string | MetaFlag bool | MetaInt int

record SemanticSearchResult =
  sx_Query :: string
  sx_Limit :: int
  sx_Total :: int
  sx_Symbols :: "SemanticSearchSymbol list"
  sx_Meta :: "(string \<times> meta_value) list"

definition setupRequiredMeta :: "(string \<times> meta_value) list" where
  "setupRequiredMeta = [(''status'', MetaText ''setup_required''), (''source'', MetaText ''sqlite_shadow''),
     (''read_path'', MetaText ''rag_index''), (''embeddings_setup_required'', MetaFlag True)]"

text \<open>The text that goes with the result when no provider is configured.\<close>

definition setupRequiredText :: string where
  "setupRequiredText =
     ''semantic_search requires embeddings setup; call inspect_embeddings_settings or the go_embeddings_setup prompt first.''"

definition searchSymbol :: "int \<Rightarrow> CodeSymbol \<Rightarrow> SemanticSearchSymbol" where
  "searchSymbol maxSourceBytes s =
     \<lparr>sy_ID = cds_ID s, sy_Type = cds_Type s, sy_PackagePath = cds_PackagePath s, sy_Name = cds_Name s,
      sy_FilePath = cds_FilePath s, sy_LineStart = cds_LineStart s, sy_LineEnd = cds_LineEnd s,
      sy_Source = truncateStringBytes (cds_Source s) maxSourceBytes\<rparr>"

text \<open>What the handler does once the store is open.\<close>

definition searchOpened ::
  "'f tool_env \<Rightarrow> 'f analysisDefaults \<Rightarrow> string \<Rightarrow> int \<Rightarrow> int \<Rightarrow>
   ('f db, string option \<times> SemanticSearchResult) action" where
  "searchOpened env d query limit maxSourceBytes =
     (let h = tx_base env
      in bindA (liftA (NewEmbeddingProviderFromConfig (tx_embed env) (hx_floats h) (wc_Embeddings (ad_Config d)))) (\<lambda>provider.
           case provider of
             None \<Rightarrow>
             bindA (liftA (InspectEmbeddingsSettings (hx_floats h) (hx_config h) (ad_RootPath d))) (\<lambda>_.
               retA (Some setupRequiredText,
                 \<lparr>sx_Query = query, sx_Limit = limit, sx_Total = 0, sx_Symbols = [], sx_Meta = setupRequiredMeta\<rparr>))
           | Some _ \<Rightarrow>
             bindA (liftA (EmbedSearchQuery provider query)) (\<lambda>queryEmbedding.
               bindA (SemanticSearch (tx_store env (ad_RootPath d)) (tx_vectors env) (tx_index env) queryEmbedding limit) (\<lambda>symbols.
                 retA (None,
                   \<lparr>sx_Query = query, sx_Limit = limit, sx_Total = int (length symbols),
                    sx_Symbols = map (searchSymbol maxSourceBytes) symbols,
                    sx_Meta = [(''source'', MetaText ''sqlite_shadow''), (''freshness'', MetaText ''shadow''),
                      (''read_path'', MetaText ''rag_index''), (''model'', MetaText (EmbeddingProviderLabel provider)),
                      (''dimensions'', MetaInt (int (length queryEmbedding)))]\<rparr>)))))"

definition handleSemanticSearch ::
  "'f tool_env \<Rightarrow> SemanticSearchInput \<Rightarrow> server \<times> 'f stores \<Rightarrow>
   (string option \<times> SemanticSearchResult) reply \<times> server \<times> 'f stores" where
  "handleSemanticSearch env input = (\<lambda>(sv, stores).
     case resolveAnalysisDefaults (tx_base env) input sv of
       (Inl e, sv) \<Rightarrow> (toolError (ToolMsg e), sv, stores)
     | (Inr d, sv) \<Rightarrow>
         (let query = TrimSpace (si_Query input);
              limit = (if si_Limit input \<le> 0 then 10 else si_Limit input);
              maxSourceBytes = (if si_MaxSourceBytes input \<le> 0 then 4000 else si_MaxSourceBytes input);
              E = tx_store env (ad_RootPath d)
          in if query = '''' then (toolError (ToolMsg ''semantic search query is required''), sv, stores)
             else (case onStore (ad_RootPath d)
                     (thenA (OpenWorkspaceStore E) (searchOpened env d query limit maxSourceBytes)) stores of
                     (r, stores) \<Rightarrow> (replyOf (msgResult r), sv, stores))))"

section \<open>The lock\<close>

lemma not_lock_errors':
  "lifeResult l \<noteq> Inl (ToolLock e)" "ormResult q \<noteq> Inl (ToolLock e)" "msgResult m \<noteq> Inl (ToolLock e)"
  by (auto simp: lifeResult_def ormResult_def msgResult_def split: sum.splits lifecycle_error.splits orm_error.splits)

lemma hang_protocol:
  assumes "owner \<noteq> ''''" "\<And>r e. result = Some r \<Longrightarrow> r \<noteq> Inl (ToolLock e)"
  shows "pred_option (lock_protocol owner sv) (slowToolOrHang owner result sv)"
proof (cases result)
  case None
  have "lock_protocol owner sv (BusyReply busy, sv\<lparr>sv_mutex := m\<rparr>)" if "beginSlowPath owner (sv_mutex sv) = (m, Inl busy)" for m busy
    using that slowTool_protocol [OF assms(1), of "Inl (ToolMsg '''')" sv] by (simp add: slowTool_def)
  with None show ?thesis by (auto simp: slowToolOrHang_def split: prod.split sum.split)
next
  case (Some r)
  then show ?thesis using slowTool_protocol [OF assms(1), of r sv] assms(2) by (simp add: slowToolOrHang_def)
qed


section \<open>Semantic search\<close>

lemma truncate_short: "0 < n \<Longrightarrow> int (length (truncateStringBytes v n)) \<le> n"
  by (simp add: truncateStringBytes_def)

text \<open>
  A search with a provider, on a store with a complete index: the reply has the symbols
  that the search finds, their sources cut to the size asked for; only the index of this root may change.
\<close>

lemma semantic_search_reply:
  fixes env :: "'f tool_env"
  assumes "resolveAnalysisDefaults (tx_base env) input sv = (Inr d, sv')" "TrimSpace (si_Query input) \<noteq> ''''"
    and E: "never_fails (tx_store env (ad_RootPath d))" "se_ensure (tx_store env (ad_RootPath d)) = None"
      "se_open (tx_store env (ad_RootPath d)) = None"
    and X: "accepts (tx_index env)" "nearest (tx_index env)"
    and provider: "NewEmbeddingProviderFromConfig (tx_embed env) (hx_floats (tx_base env)) (wc_Embeddings (ad_Config d)) = Inr (Some p)"
      "EmbedSearchQuery (Some p) (TrimSpace (si_Query input)) = Inr v" "v \<noteq> []" "int64 (int (length v))"
    and store: "searchable (tx_vectors env) (st_db (stores (ad_RootPath d)))"
  shows "\<exists>r stores' symbols. handleSemanticSearch env input (sv, stores) = (Reply (None, r), sv', stores')
    \<and> finds (tx_vectors env) (length v) (asked (si_Limit input)) (st_db (stores (ad_RootPath d))) symbols
    \<and> map sy_ID (sx_Symbols r) = map cds_ID symbols \<and> sx_Total r = int (length symbols)
    \<and> (\<forall>y\<in>set (sx_Symbols r). length (sy_Source y) \<le> (if si_MaxSourceBytes input \<le> 0 then 4000 else nat (si_MaxSourceBytes input)))
    \<and> searchable (tx_vectors env) (st_db (stores' (ad_RootPath d)))
    \<and> (\<forall>other. other \<noteq> ad_RootPath d \<longrightarrow> stores' other = stores other)"
proof -
  let ?E = "tx_store env (ad_RootPath d)" and ?V = "tx_vectors env" and ?s = "stores (ad_RootPath d)"
  let ?limit = "if si_Limit input \<le> 0 then 10 else si_Limit input"
  let ?max = "if si_MaxSourceBytes input \<le> 0 then 4000 else si_MaxSourceBytes input"
  let ?P = "\<lambda>x :: 'f db. searchable ?V x \<and> content x = content (st_db ?s)"
  have "succeeds ?P (OpenWorkspaceStore ?E) (\<lambda>_. ?P)"
    using E by (intro succeeds_OpenWorkspaceStore) (auto intro: searchable_state)
  then obtain x u where open': "OpenWorkspaceStore ?E ?s = (Inr x, u)" "?P (st_db u)"
    using store by (fastforce dest: succeedsD)
  obtain symbols w where found: "SemanticSearch ?E ?V (tx_index env) v ?limit u = (Inr symbols, w)" "searchable ?V (st_db w)"
      "finds ?V (length v) (asked ?limit) (st_db u) symbols"
    using search_run [OF E(1) X, of ?V u v ?limit] open'(2) provider(3,4) by blast
  have finds: "finds ?V (length v) (asked (si_Limit input)) (st_db ?s) symbols"
    using found(3) open'(2) by (auto simp: finds_def content_eq asked_def split: if_splits)
  let ?r = "\<lparr>sx_Query = TrimSpace (si_Query input), sx_Limit = ?limit, sx_Total = int (length symbols),
      sx_Symbols = map (searchSymbol ?max) symbols,
      sx_Meta = [(''source'', MetaText ''sqlite_shadow''), (''freshness'', MetaText ''shadow''),
        (''read_path'', MetaText ''rag_index''), (''model'', MetaText (EmbeddingProviderLabel (Some p))),
        (''dimensions'', MetaInt (int (length v)))]\<rparr>"
  have "searchOpened env d (TrimSpace (si_Query input)) ?limit ?max u = (Inr (None, ?r), w)"
    unfolding searchOpened_def Let_def using provider(1,2) found(1)
    by (simp add: bindA_def liftA_def retA_def)
  then have "onStore (ad_RootPath d) (thenA (OpenWorkspaceStore ?E) (searchOpened env d (TrimSpace (si_Query input)) ?limit ?max)) stores
      = (Inr (None, ?r), stores(ad_RootPath d := w))"
    using open'(1) by (simp add: onStore_def thenA_def bindA_def)
  then have "handleSemanticSearch env input (sv, stores) = (Reply (None, ?r), sv', stores(ad_RootPath d := w))"
    using assms(1,2) by (simp add: handleSemanticSearch_def Let_def msgResult_def replyOf_def)
  moreover have "map sy_ID (sx_Symbols ?r) = map cds_ID symbols" by (simp add: searchSymbol_def comp_def)
  moreover have "length (sy_Source y) \<le> (if si_MaxSourceBytes input \<le> 0 then 4000 else nat (si_MaxSourceBytes input))"
    if y: "y \<in> set (sx_Symbols ?r)" for y
  proof -
    obtain c where "y = searchSymbol ?max c" using y by auto
    moreover have "int (length (truncateStringBytes (cds_Source c) ?max)) \<le> ?max" by (rule truncate_short) simp
    ultimately show ?thesis by (simp add: searchSymbol_def split: if_splits)
  qed
  ultimately show ?thesis
    using finds found(2)
    by (intro exI [of _ ?r] exI [of _ "stores(ad_RootPath d := w)"] exI [of _ symbols]) simp
qed

end
