(* ===== verification/Loading.thy ===== *)
theory Loading
  imports Source_State Config Entrypoints
begin

text \<open>
  Loading of programs (\<^verbatim>\<open>analyzer/workspace.go\<close>): the quick loader that only parses the source
  files below the patterns, and \<^verbatim>\<open>loadProgram\<close>, which loads packages in one of three modes and
  runs the eight extractors over them before the syntax is dropped. \<^verbatim>\<open>go/packages\<close>, \<^verbatim>\<open>go/ssa\<close>,
  \<^verbatim>\<open>go/parser\<close> and the file system are arguments.
\<close>

section \<open>The quick loader\<close>

text \<open>A package as the quick loader builds it; \<open>'s\<close> is the parsed file.\<close>

record 's fast_package =
  ldp_PkgPath :: string
  ldp_Name :: string
  ldp_Syntax :: "'s list"
  ldp_CompiledGoFiles :: "string list"

type_synonym 's fast_packages = "(string \<times> 's fast_package) list"

text \<open>
  The file tree and the parser: what stands at a path (an error, nothing, or an entry), the
  content of \<^verbatim>\<open>go.mod\<close>, the package name and the syntax of a file that parses, and
  \<^verbatim>\<open>filepath.Match\<close>.
\<close>

record 's source_tree =
  src_lookup :: "string \<Rightarrow> string + fs_entry option"
  src_gomod :: "string option"
  src_parse :: "string \<Rightarrow> string \<Rightarrow> (string \<times> 's) option"
  src_glob :: "string \<Rightarrow> string \<Rightarrow> bool option"

definition moduleLine :: "string \<Rightarrow> string option" where
  "moduleLine line =
     (if HasPrefix (TrimSpace line) ''module '' then Some (TrimSpace (TrimPrefix (TrimSpace line) ''module '')) else None)"

definition fastModulePath :: "string option \<Rightarrow> string" where
  "fastModulePath gomod =
     (case gomod of
        None \<Rightarrow> ''''
      | Some text' \<Rightarrow>
          (case List.map_filter moduleLine (Split (CHR 0x0A) text') of [] \<Rightarrow> '''' | m # _ \<Rightarrow> m))"

definition fastPkgPath :: "string \<Rightarrow> string \<Rightarrow> string \<Rightarrow> string" where
  "fastPkgPath dir modPath fileDir =
     (case Rel dir fileDir of
        None \<Rightarrow> fileDir
      | Some rel \<Rightarrow>
          if slashes rel = ''.'' then (if modPath \<noteq> '''' then modPath else fileDir)
          else if modPath \<noteq> '''' then modPath @ ''/'' @ slashes rel else slashes rel)"

definition skippedFastDir :: "string \<Rightarrow> bool" where
  "skippedFastDir name \<longleftrightarrow> name \<in> set [''vendor'', ''.git'', ''testdata'', ''node_modules'']"

text \<open>Whether a file of this name at this path is parsed.\<close>

definition fastWanted :: "'s source_tree \<Rightarrow> SourceFilter option \<Rightarrow> string \<Rightarrow> string \<Rightarrow> string \<Rightarrow> bool" where
  "fastWanted T filt dir path name =
     (if \<not> HasSuffix name ''.go'' then False
      else let relPath = (case Rel dir path of None \<Rightarrow> slashes path | Some r \<Rightarrow> r)
           in (case filt of
                 Some _ \<Rightarrow> ShouldProcess (src_glob T) filt relPath
               | None \<Rightarrow> \<not> HasSuffix name ''_test.go''))"

text \<open>The package of the directory gets the file; the first file of a directory creates it.\<close>

definition addFast :: "string \<Rightarrow> string \<Rightarrow> string \<Rightarrow> string \<times> 's \<Rightarrow> 's fast_packages \<Rightarrow> 's fast_packages" where
  "addFast dir modPath path parsed pkgs =
     (let (name, syntax) = parsed;
          fileDir = slashes (Dir path);
          pkgs = (if fileDir \<in> fst ` set pkgs then pkgs
                  else pkgs @ [(fileDir, \<lparr>ldp_PkgPath = fastPkgPath dir modPath fileDir, ldp_Name = name,
                         ldp_Syntax = [], ldp_CompiledGoFiles = []\<rparr>)])
      in map (\<lambda>(k, p). if k = fileDir
           then (k, p\<lparr>ldp_Syntax := ldp_Syntax p @ [syntax], ldp_CompiledGoFiles := ldp_CompiledGoFiles p @ [path]\<rparr>)
           else (k, p)) pkgs)"

definition visitFast ::
  "'s source_tree \<Rightarrow> SourceFilter option \<Rightarrow> string \<Rightarrow> string \<Rightarrow> string \<Rightarrow> string \<Rightarrow> string \<Rightarrow> 's fast_packages \<Rightarrow> 's fast_packages" where
  "visitFast T filt dir modPath path name src pkgs =
     (if fastWanted T filt dir path name
      then (case src_parse T path src of None \<Rightarrow> pkgs | Some parsed \<Rightarrow> addFast dir modPath path parsed pkgs)
      else pkgs)"

definition entryName :: "fs_entry \<Rightarrow> string" where
  "entryName e = (case e of FDir n _ \<Rightarrow> n | FFile n _ \<Rightarrow> n)"

text \<open>\<^verbatim>\<open>filepath.WalkDir\<close> with the function of \<^verbatim>\<open>processDir\<close>; \<open>root\<close> is the path the walk began at.\<close>

fun walkFast ::
  "'s source_tree \<Rightarrow> SourceFilter option \<Rightarrow> string \<Rightarrow> string \<Rightarrow> bool \<Rightarrow> string \<Rightarrow> string \<Rightarrow> fs_entry \<Rightarrow>
   's fast_packages \<Rightarrow> 's fast_packages" where
  "walkFast T filt dir modPath recursive root path (FDir name es) pkgs =
     (if path \<noteq> root \<and> \<not> recursive then pkgs
      else if skippedFastDir name then pkgs
      else fold (\<lambda>e. walkFast T filt dir modPath recursive root (JoinPath [path, entryName e]) e) es pkgs)"
| "walkFast T filt dir modPath recursive root path (FFile name src) pkgs =
     visitFast T filt dir modPath path name src pkgs"

definition processDir ::
  "'s source_tree \<Rightarrow> SourceFilter option \<Rightarrow> string \<Rightarrow> string \<Rightarrow> bool \<Rightarrow> string \<Rightarrow> 's fast_packages \<Rightarrow> string + 's fast_packages" where
  "processDir T filt dir modPath recursive dpath pkgs =
     (case src_lookup T dpath of
        Inl e \<Rightarrow> Inl e
      | Inr None \<Rightarrow> Inr pkgs
      | Inr (Some e) \<Rightarrow> Inr (walkFast T filt dir modPath recursive dpath dpath e pkgs))"

text \<open>What a pattern asks for: whether to descend, and where to begin.\<close>

definition fastTarget :: "string \<Rightarrow> string \<Rightarrow> bool \<times> string" where
  "fastTarget dir p =
     (let recursive = (HasSuffix p ''/...'' \<or> p = ''...'');
          base = (if recursive then TrimSuffix p ''/...'' else p)
      in (recursive, if IsAbs base then base else JoinPath [dir, base]))"

fun processPatterns ::
  "'s source_tree \<Rightarrow> SourceFilter option \<Rightarrow> string \<Rightarrow> string \<Rightarrow> string list \<Rightarrow> 's fast_packages \<Rightarrow> string + 's fast_packages" where
  "processPatterns T filt dir modPath [] pkgs = Inr pkgs"
| "processPatterns T filt dir modPath (p # ps) pkgs =
     (case fastTarget dir p of (recursive, absBase) \<Rightarrow>
        (case processDir T filt dir modPath recursive absBase pkgs of
           Inl e \<Rightarrow> Inl e
         | Inr pkgs \<Rightarrow> processPatterns T filt dir modPath ps pkgs))"

text \<open>The result is a map in Go; here its packages come in the order of their creation.\<close>

definition loadSyntaxOnlyFast ::
  "'s source_tree \<Rightarrow> string \<Rightarrow> string list \<Rightarrow> SourceFilter option \<Rightarrow> string + 's fast_package list" where
  "loadSyntaxOnlyFast T dir patterns filt =
     map_sum id (map snd) (processPatterns T filt dir (fastModulePath (src_gomod T)) patterns [])"

definition sourceFilterForDir :: "'f float_ops \<Rightarrow> 'f config_env \<Rightarrow> string \<Rightarrow> string + SourceFilter option" where
  "sourceFilterForDir F env dir =
     (case EffectiveWorkspaceConfig F env dir of
        Inl e \<Rightarrow> Inl e
      | Inr config \<Rightarrow>
          if length (so_Include (wc_Sources config)) = 0 \<and> length (so_Exclude (wc_Sources config)) = 0 then Inr None
          else Inr (Some (NewSourceFilter (so_Include (wc_Sources config)) (so_Exclude (wc_Sources config)))))"

section \<open>What the quick loader loads\<close>

text \<open>The files a walk visits, in order, and those of them that are wanted and parse.\<close>

fun visited :: "bool \<Rightarrow> string \<Rightarrow> string \<Rightarrow> fs_entry \<Rightarrow> (string \<times> string \<times> string) list" where
  "visited recursive root path (FDir name es) =
     (if path \<noteq> root \<and> \<not> recursive \<or> skippedFastDir name then []
      else concat (map (\<lambda>e. visited recursive root (JoinPath [path, entryName e]) e) es))"
| "visited recursive root path (FFile name src) = [(path, name, src)]"

definition accepted :: "'s source_tree \<Rightarrow> SourceFilter option \<Rightarrow> string \<Rightarrow> string \<Rightarrow> (string \<times> string \<times> 's) list" where
  "accepted T filt dir p =
     (case fastTarget dir p of (recursive, absBase) \<Rightarrow>
        (case src_lookup T absBase of
           Inr (Some e) \<Rightarrow> List.map_filter (\<lambda>(path, name, src).
               if fastWanted T filt dir path name then map_option (Pair path) (src_parse T path src) else None)
             (visited recursive absBase absBase e)
         | _ \<Rightarrow> []))"

lemma walk_visits:
  "walkFast T filt dir modPath recursive root path e pkgs =
     fold (\<lambda>(path, name, src). visitFast T filt dir modPath path name src) (visited recursive root path e) pkgs"
proof (induction e arbitrary: path pkgs)
  case (FDir name es)
  have "fold (\<lambda>e. walkFast T filt dir modPath recursive root (JoinPath [path, entryName e]) e) es pkgs
      = fold (\<lambda>(path, name, src). visitFast T filt dir modPath path name src)
          (concat (map (\<lambda>e. visited recursive root (JoinPath [path, entryName e]) e) es)) pkgs"
    using FDir by (induction es arbitrary: pkgs) simp_all
  then show ?case by auto
qed simp

lemma visits_accepted:
  "fold (\<lambda>(path, name, src). visitFast T filt dir modPath path name src) vs pkgs =
     fold (\<lambda>(path, parsed). addFast dir modPath path parsed) (List.map_filter (\<lambda>(path, name, src).
       if fastWanted T filt dir path name then map_option (Pair path) (src_parse T path src) else None) vs) pkgs"
proof (induction vs arbitrary: pkgs)
  case (Cons v vs)
  then show ?case by (cases v) (simp add: visitFast_def map_filter_simps split: option.split)
qed (simp add: map_filter_simps)

definition readable :: "'s source_tree \<Rightarrow> string \<Rightarrow> string list \<Rightarrow> bool" where
  "readable T dir patterns \<longleftrightarrow> list_all (\<lambda>p. case src_lookup T (snd (fastTarget dir p)) of Inl _ \<Rightarrow> False | Inr _ \<Rightarrow> True) patterns"

lemma process_accepted:
  "readable T dir patterns \<Longrightarrow> processPatterns T filt dir modPath patterns pkgs =
     Inr (fold (\<lambda>(path, parsed). addFast dir modPath path parsed) (concat (map (accepted T filt dir) patterns)) pkgs)"
proof (induction patterns arbitrary: pkgs)
  case (Cons p ps)
  then show ?case
    by (cases "fastTarget dir p")
      (auto simp: readable_def processDir_def accepted_def walk_visits visits_accepted split: sum.splits option.splits)
qed simp

text \<open>The reference: the accepted files grouped by directory.\<close>

definition fileDirOf :: "string \<Rightarrow> string" where
  "fileDirOf path = slashes (Dir path)"

definition packageAt :: "string \<Rightarrow> string \<Rightarrow> (string \<times> string \<times> 's) list \<Rightarrow> string \<Rightarrow> 's fast_package" where
  "packageAt dir modPath fs k =
     (let own = filter (\<lambda>f. fileDirOf (fst f) = k) fs
      in \<lparr>ldp_PkgPath = fastPkgPath dir modPath k, ldp_Name = fst (snd (hd own)),
          ldp_Syntax = map (snd \<circ> snd) own, ldp_CompiledGoFiles = map fst own\<rparr>)"

definition directories :: "(string \<times> string \<times> 's) list \<Rightarrow> string list" where
  "directories fs = dedup (map (\<lambda>f. fileDirOf (fst f)) fs)"

lemma dedup_snoc: "dedup (xs @ [x]) = (if x \<in> set xs then dedup xs else dedup xs @ [x])"
  using dedup_seen_keys [of "\<lambda>x. x" "[]" xs] by (simp add: dedup_by_def dedup_seen_append)

lemma fold_addFast:
  "fold (\<lambda>(path, parsed). addFast dir modPath path parsed) fs []
   = map (\<lambda>k. (k, packageAt dir modPath fs k)) (directories fs)"
proof (induction fs rule: rev_induct)
  case Nil
  show ?case by (simp add: directories_def)
next
  case (snoc f fs)
  obtain path name syn where f: "f = (path, name, syn)" by (metis prod.collapse)
  let ?k = "fileDirOf path"
  have dirs: "directories (fs @ [f]) = (if ?k \<in> set (directories fs) then directories fs else directories fs @ [?k])"
    by (simp add: directories_def f dedup_snoc)
  have others: "packageAt dir modPath (fs @ [f]) k = packageAt dir modPath fs k" if "k \<noteq> ?k" for k
    using that by (simp add: packageAt_def f Let_def)
  have own: "packageAt dir modPath (fs @ [f]) ?k =
      (packageAt dir modPath fs ?k)\<lparr>ldp_Syntax := ldp_Syntax (packageAt dir modPath fs ?k) @ [syn],
         ldp_CompiledGoFiles := ldp_CompiledGoFiles (packageAt dir modPath fs ?k) @ [path]\<rparr>"
    if "?k \<in> set (directories fs)"
  proof -
    have "filter (\<lambda>g. fileDirOf (fst g) = ?k) fs \<noteq> []"
      using that by (fastforce simp: directories_def filter_empty_conv)
    then show ?thesis by (simp add: packageAt_def f Let_def)
  qed
  have new: "packageAt dir modPath (fs @ [f]) ?k =
      \<lparr>ldp_PkgPath = fastPkgPath dir modPath ?k, ldp_Name = name, ldp_Syntax = [syn], ldp_CompiledGoFiles = [path]\<rparr>"
    if "?k \<notin> set (directories fs)"
  proof -
    have "filter (\<lambda>g. fileDirOf (fst g) = ?k) fs = []"
      using that by (force simp: directories_def filter_empty_conv)
    then show ?thesis by (simp add: packageAt_def f Let_def)
  qed
  have step: "addFast dir modPath path (name, syn) (map (\<lambda>k. (k, P k)) ks) =
      (if ?k \<in> set ks
       then map (\<lambda>k. (k, if k = ?k then (P k)\<lparr>ldp_Syntax := ldp_Syntax (P k) @ [syn],
              ldp_CompiledGoFiles := ldp_CompiledGoFiles (P k) @ [path]\<rparr> else P k)) ks
       else map (\<lambda>k. (k, P k)) ks @ [(?k, \<lparr>ldp_PkgPath = fastPkgPath dir modPath ?k, ldp_Name = name,
              ldp_Syntax = [syn], ldp_CompiledGoFiles = [path]\<rparr>)])" for P ks
    by (auto simp: addFast_def Let_def fileDirOf_def image_image comp_def)
  show ?case
  proof (cases "?k \<in> set (directories fs)")
    case True
    let ?P = "packageAt dir modPath fs"
    have "(\<lambda>k. (k, if k = ?k then (?P k)\<lparr>ldp_Syntax := ldp_Syntax (?P k) @ [syn],
          ldp_CompiledGoFiles := ldp_CompiledGoFiles (?P k) @ [path]\<rparr> else ?P k))
        = (\<lambda>k. (k, packageAt dir modPath (fs @ [f]) k))"
      using others own [OF True] by auto
    then show ?thesis using True dirs step [of ?P "directories fs"] by (simp add: snoc f)
  next
    case False
    then have "map (\<lambda>k. (k, packageAt dir modPath (fs @ [f]) k)) (directories fs)
        = map (\<lambda>k. (k, packageAt dir modPath fs k)) (directories fs)"
      using others by (intro map_cong refl) (metis)
    with False show ?thesis
      using new [OF False] dirs step [of "packageAt dir modPath fs" "directories fs"] by (simp add: snoc f)
  qed
qed

text \<open>
  What the quick loader returns: one package for every directory with an accepted file, named by
  its path below the module, holding exactly the accepted files of that directory. A file that two
  patterns reach is held twice.
\<close>

lemma fast_load_exact:
  assumes "readable T dir patterns" "fs = concat (map (accepted T filt dir) patterns)"
  shows "loadSyntaxOnlyFast T dir patterns filt
    = Inr (map (packageAt dir (fastModulePath (src_gomod T)) fs) (directories fs))"
  by (simp add: loadSyntaxOnlyFast_def process_accepted [OF assms(1)] fold_addFast assms(2))

lemma fast_load_files:
  assumes "readable T dir patterns" "loadSyntaxOnlyFast T dir patterns filt = Inr pkgs"
  shows "mset (concat (map ldp_CompiledGoFiles pkgs)) = mset (map fst (concat (map (accepted T filt dir) patterns)))"
proof -
  let ?fs = "concat (map (accepted T filt dir) patterns)"
  have grouped: "mset (concat (map (\<lambda>k. map fst (filter (\<lambda>f. fileDirOf (fst f) = k) fs)) ks)) = mset (map fst fs)"
    if "distinct ks" "fileDirOf ` fst ` set fs \<subseteq> set ks" for ks :: "string list" and fs :: "(string \<times> string \<times> 'a) list"
    using that(2)
  proof (induction fs)
    case Nil
    show ?case by (induction ks) simp_all
  next
    case (Cons f fs)
    have "mset (concat (map (\<lambda>k. map fst (filter (\<lambda>f. fileDirOf (fst f) = k) (f # fs))) ks))
        = mset (concat (map (\<lambda>k. map fst (filter (\<lambda>f. fileDirOf (fst f) = k) fs)) ks))
          + (if fileDirOf (fst f) \<in> set ks then {#fst f#} else {#})"
      using that(1) by (induction ks) auto
    then show ?case using Cons by simp
  qed
  have pkgs: "pkgs = map (packageAt dir (fastModulePath (src_gomod T)) ?fs) (directories ?fs)"
    using fast_load_exact [OF assms(1) refl, of filt] assms(2) by simp
  have "concat (map ldp_CompiledGoFiles pkgs) = concat (map (\<lambda>k. map fst (filter (\<lambda>f. fileDirOf (fst f) = k) ?fs)) (directories ?fs))"
    unfolding pkgs by (simp add: packageAt_def Let_def comp_def)
  then show ?thesis using grouped [of "directories ?fs" ?fs] by (simp add: directories_def image_image)
qed

section \<open>A sample\<close>

definition sample_tree :: "string source_tree" where
  "sample_tree = \<lparr>src_lookup = (\<lambda>p.
       if p = ''/w'' then Inr (Some (FDir ''w'' [FFile ''a.go'' ''A'', FFile ''a_test.go'' ''T'',
            FDir ''b'' [FFile ''b.go'' ''B'', FFile ''x.txt'' ''X''], FDir ''vendor'' [FFile ''v.go'' ''V'']]))
       else if p = ''/w/b'' then Inr (Some (FDir ''b'' [FFile ''b.go'' ''B'', FFile ''x.txt'' ''X'']))
       else Inr None),
     src_gomod = Some ''module app'', src_parse = (\<lambda>p c. Some (''n'', c)), src_glob = (\<lambda>_ _. None)\<rparr>"

text \<open>
  Three traits of the quick loader: a directory is loaded with its files once for the pattern
  \<^verbatim>\<open>./...\<close>, a second pattern that covers it adds its files again, and the pattern \<^verbatim>\<open>...\<close> loads nothing.
\<close>

lemma sample_load:
  "loadSyntaxOnlyFast sample_tree ''/w'' [''./...''] None
     = Inr [\<lparr>ldp_PkgPath = ''app'', ldp_Name = ''n'', ldp_Syntax = [''A''], ldp_CompiledGoFiles = [''/w/a.go'']\<rparr>,
            \<lparr>ldp_PkgPath = ''app/b'', ldp_Name = ''n'', ldp_Syntax = [''B''], ldp_CompiledGoFiles = [''/w/b/b.go'']\<rparr>]"
  by code_simp

lemma overlapping_patterns_load_twice:
  "loadSyntaxOnlyFast sample_tree ''/w'' [''./b'', ''./b/...''] None
     = Inr [\<lparr>ldp_PkgPath = ''app/b'', ldp_Name = ''n'', ldp_Syntax = [''B'', ''B''],
              ldp_CompiledGoFiles = [''/w/b/b.go'', ''/w/b/b.go'']\<rparr>]"
  by code_simp

lemma dots_alone_load_nothing: "loadSyntaxOnlyFast sample_tree ''/w'' [''...''] None = Inr []"
  by code_simp

end
