(* ===== verification/Runtime.thy ===== *)
theory Runtime
  imports Source_State Tool_Handlers
begin

text \<open>
  The start of the process in \<^verbatim>\<open>main.go\<close>: the background runtime, the router a tool call goes
  through and whose lock it takes, and the state file of the synchronisation
  (\<^verbatim>\<open>analyzer/sync_state.go\<close>). Goroutines are started by the code and run in
  \<^verbatim>\<open>Sync_Manager\<close> and \<^verbatim>\<open>Source_State\<close>.
\<close>

section \<open>The state file\<close>

definition LoadState :: "(string \<Rightarrow> read_error + string) \<Rightarrow> (string \<Rightarrow> string + PersistedState) \<Rightarrow> string \<Rightarrow> string + PersistedState" where
  "LoadState readFile unmarshal path =
     (case readFile path of
        Inl NotExist \<Rightarrow> Inr \<lparr>ps_Version = 1, ps_LastSync = 0, ps_LastHash = '''', ps_Files = [], ps_Status = idleStatus\<rparr>
      | Inl (ReadFailed e) \<Rightarrow> Inl (''read sync state: '' @ e)
      | Inr data \<Rightarrow>
          (case unmarshal data of
             Inl e \<Rightarrow> Inl (''parse sync state: '' @ e)
           | Inr st \<Rightarrow> Inr (if ps_Version st = 0 then st\<lparr>ps_Version := 1\<rparr> else st)))"

text \<open>
  \<^verbatim>\<open>Save\<close>: the error, the state it leaves in the caller's variable, and what was written.
\<close>

definition SaveState ::
  "(PersistedState \<Rightarrow> string + string) \<Rightarrow> (string \<Rightarrow> string option) \<Rightarrow> (string \<Rightarrow> string option) \<Rightarrow> string \<Rightarrow>
   PersistedState option \<Rightarrow> string option \<times> PersistedState option \<times> string option" where
  "SaveState marshal mkdir_error write_error path s =
     (case s of
        None \<Rightarrow> (Some ''sync state is nil'', None, None)
      | Some st \<Rightarrow>
          (let st = (if ps_Version st = 0 then st\<lparr>ps_Version := 1\<rparr> else st)
           in case marshal st of
                Inl e \<Rightarrow> (Some (''marshal sync state: '' @ e), Some st, None)
              | Inr data \<Rightarrow>
                  (case mkdir_error (Dir path) of
                     Some e \<Rightarrow> (Some (''create sync state dir: '' @ e), Some st, None)
                   | None \<Rightarrow>
                       (case write_error path of
                          Some e \<Rightarrow> (Some (''write sync state: '' @ e), Some st, Some '''')
                        | None \<Rightarrow> (None, Some st, Some data)))))"

text \<open>
  What was saved is loaded, with the version it was given, when the decoder undoes the encoder.
\<close>

lemma saved_state_is_loaded:
  assumes "SaveState marshal mkdir_error write_error path (Some s) = (None, Some st, Some data)"
    and "\<And>st data. marshal st = Inr data \<Longrightarrow> unmarshal data = Inr st" and "readFile path = Inr data"
  shows "LoadState readFile unmarshal path = Inr st
    \<and> st = s\<lparr>ps_Version := (if ps_Version s = 0 then 1 else ps_Version s)\<rparr>"
  using assms by (auto simp: SaveState_def LoadState_def Let_def split: sum.splits option.splits if_splits)

section \<open>Routers\<close>

text \<open>
  A router holds a pointer to a lock: that of the manager of the runtime, or one of its own.
\<close>

datatype mutex_ref = ManagerMutex | OwnMutex ComputeMutex

record queryRouter =
  qr_computeMutex :: mutex_ref

record backgroundRuntime =
  bg_store :: bool                       \<comment> \<open>the store is open\<close>
  bg_sync :: "SyncManager option"
  bg_watcher :: "FileWatcher option"
  bg_router :: "queryRouter option"

definition newQueryRouter :: "backgroundRuntime option \<Rightarrow> queryRouter" where
  "newQueryRouter runtime =
     (case Option.bind runtime bg_sync of
        None \<Rightarrow> \<lparr>qr_computeMutex = OwnMutex NewComputeMutex\<rparr>
      | Some m \<Rightarrow> if sm_mutex m \<noteq> None then \<lparr>qr_computeMutex = ManagerMutex\<rparr>
          else \<lparr>qr_computeMutex = OwnMutex NewComputeMutex\<rparr>)"

text \<open>The process: the active runtime.\<close>

type_synonym process_state = "backgroundRuntime option"

definition setActiveBackgroundRuntime :: "backgroundRuntime option \<Rightarrow> process_state \<Rightarrow> process_state" where
  "setActiveBackgroundRuntime runtime p = runtime"

definition activeQueryRouter :: "process_state \<Rightarrow> queryRouter" where
  "activeQueryRouter p =
     (case Option.bind p bg_router of Some r \<Rightarrow> r | None \<Rightarrow> newQueryRouter None)"

definition routerMutex :: "process_state \<Rightarrow> queryRouter \<Rightarrow> ComputeMutex option" where
  "routerMutex p r =
     (case qr_computeMutex r of
        OwnMutex m \<Rightarrow> Some m
      | ManagerMutex \<Rightarrow> Option.bind (Option.bind p bg_sync) sm_mutex)"

text \<open>A tool call locks through the active router; what it does to the manager's lock stays.\<close>

definition withRouter :: "(server \<Rightarrow> 'r reply \<times> server) \<Rightarrow> Workspace \<times> process_state \<Rightarrow> 'r reply \<times> Workspace \<times> process_state" where
  "withRouter handler = (\<lambda>(w, p).
     let r = activeQueryRouter p
     in case handler \<lparr>sv_workspace = w, sv_mutex = routerMutex p r\<rparr> of
          (reply, sv) \<Rightarrow> (reply, sv_workspace sv,
            if qr_computeMutex r = ManagerMutex
            then map_option (\<lambda>rt. rt\<lparr>bg_sync := map_option (\<lambda>m. m\<lparr>sm_mutex := sv_mutex sv\<rparr>) (bg_sync rt)\<rparr>) p
            else p))"

section \<open>Starting\<close>

record 'f runtime_env =
  re_mkdir :: "string \<Rightarrow> string option"      \<comment> \<open>the error of \<^verbatim>\<open>EnsureExists\<close>\<close>
  re_open :: "string \<Rightarrow> string + unit"        \<comment> \<open>\<^verbatim>\<open>OpenWorkspaceStore\<close>\<close>
  re_config :: "string \<Rightarrow> string + 'f WorkspaceConfig"
  re_float :: "'f float_ops"
  re_polling :: "string option"               \<comment> \<open>the error of \<^verbatim>\<open>StartPolling\<close>\<close>
  re_changes :: "string + string list \<times> string list"   \<comment> \<open>the first scan\<close>

definition noRuntime :: backgroundRuntime where
  "noRuntime = \<lparr>bg_store = False, bg_sync = None, bg_watcher = None, bg_router = None\<rparr>"

definition startWatcher :: "'f runtime_env \<Rightarrow> string \<Rightarrow> 'f WorkspaceConfig \<Rightarrow> FileWatcher option" where
  "startWatcher env root config =
     (let watcher = SetDebounce (sy_Debounce (wc_Sync config)) (NewFileWatcher root)
      in if sy_AutoRebuild (wc_Sync config) = Some False then None
         else Some (case re_polling env of
                      Some _ \<Rightarrow> watcher
                    | None \<Rightarrow> fst (ScanAndEnqueue (re_changes env) watcher)))"

definition startBackgroundRuntime ::
  "'f runtime_env \<Rightarrow> string \<Rightarrow> process_state \<Rightarrow> backgroundRuntime \<times> process_state" where
  "startBackgroundRuntime env root p =
     (case re_mkdir env (JoinPath [Clean root, ''.gax'']) of
        Some _ \<Rightarrow> (noRuntime, p)
      | None \<Rightarrow>
          (case re_open env root of
             Inl _ \<Rightarrow> (noRuntime, p)
           | Inr _ \<Rightarrow>
               (let config = (case re_config env root of Inl _ \<Rightarrow> noWorkspaceConfig (re_float env) | Inr c \<Rightarrow> c);
                    manager = NewSyncManagerWithQueueAndRoot Clean True (Some NewRebuildQueue) root
                      (JoinPath [JoinPath [Clean root, ''.gax''], ''state.json'']);
                    runtime = \<lparr>bg_store = True, bg_sync = Some manager, bg_watcher = None, bg_router = None\<rparr>;
                    runtime = runtime\<lparr>bg_router := Some (newQueryRouter (Some runtime)),
                      bg_watcher := startWatcher env root config\<rparr>
                in (runtime, setActiveBackgroundRuntime (Some runtime) p))))"

definition closeRuntime :: "backgroundRuntime \<Rightarrow> backgroundRuntime" where
  "closeRuntime r = r\<lparr>bg_watcher := map_option watcherStop (bg_watcher r), bg_store := False\<rparr>"

section \<open>Which lock a tool takes\<close>

text \<open>
  With a runtime the tools lock the mutex of the synchronisation, so that a tool and a rebuild
  exclude each other. Without one (the store could not be opened) every call makes a lock of its
  own, and no slow tool is ever refused.
\<close>

lemma started_tools_share_the_lock:
  assumes "startBackgroundRuntime env root p = (rt, p')" "bg_store rt"
  shows "\<exists>m. bg_sync rt = Some m \<and> p' = Some rt \<and> routerMutex p' (activeQueryRouter p') = sm_mutex m"
  using assms
  by (auto simp: startBackgroundRuntime_def noRuntime_def Let_def setActiveBackgroundRuntime_def activeQueryRouter_def
      newQueryRouter_def routerMutex_def NewSyncManagerWithQueueAndRoot_def split: option.splits sum.splits)

lemma tools_without_runtime_never_busy:
  assumes "\<And>sv. lock_protocol owner sv (handler sv)"
  shows "fst (withRouter handler (w, None)) \<noteq> BusyReply b"
proof -
  let ?sv = "\<lparr>sv_workspace = w, sv_mutex = Some NewComputeMutex\<rparr>"
  have "fst (handler ?sv) \<noteq> BusyReply b"
    using assms [of ?sv] by (auto simp: lock_protocol_def NewComputeMutex_def)
  then show ?thesis
    by (cases "handler ?sv") (simp add: withRouter_def activeQueryRouter_def newQueryRouter_def routerMutex_def Let_def)
qed

text \<open>
  While a rebuild of the runtime holds the lock, a slow tool runs no analysis: it answers busy, or
  an error of its input, and the rebuild still holds the lock afterwards.
\<close>

lemma running_rebuild_is_respected:
  assumes "\<And>sv. lock_protocol owner sv (handler sv)" "owner \<noteq> ''sync-manager''"
    and "bg_router rt = Some r" "qr_computeMutex r = ManagerMutex" "bg_sync rt = Some m"
    and "sm_mutex m = Some mx" "cm_holder mx = ''sync-manager''"
    and "withRouter handler (w, Some rt) = (reply, w', p')"
  shows "((\<exists>b. reply = BusyReply b) \<or> (\<exists>e. reply = ErrorReply (ToolMsg e)))
    \<and> (\<exists>rt' m' mx'. p' = Some rt' \<and> bg_sync rt' = Some m' \<and> sm_mutex m' = Some mx' \<and> cm_holder mx' = ''sync-manager'')"
proof -
  let ?sv = "\<lparr>sv_workspace = w, sv_mutex = Some mx\<rparr>"
  obtain out sv' where out: "handler ?sv = (out, sv')" by fastforce
  have lock: "routerMutex (Some rt) (activeQueryRouter (Some rt)) = Some mx" "qr_computeMutex (activeQueryRouter (Some rt)) = ManagerMutex"
    using assms(3-6) by (simp_all add: activeQueryRouter_def routerMutex_def)
  then have run: "reply = out" "p' = Some (rt\<lparr>bg_sync := Some (m\<lparr>sm_mutex := sv_mutex sv'\<rparr>)\<rparr>)"
    using assms(5,8) out by (auto simp: withRouter_def Let_def)
  have "lock_protocol owner ?sv (out, sv')" using assms(1) [of ?sv] out by simp
  then show ?thesis using assms(2,7) run by (auto simp: lock_protocol_def)
qed

end
