(* ===== verification/Program_Loading.thy ===== *)
theory Program_Loading
  imports Loading Boundaries Grpc Store_Listings Orphaned_Models Workspace_Cache "HOL-Library.AList"
begin

text \<open>
  \<^verbatim>\<open>loadProgram\<close> of \<^verbatim>\<open>analyzer/workspace.go\<close>: the choice of the loader, the errors, the root
  functions and the caches that the eight extractors fill. What \<^verbatim>\<open>go/packages\<close> and \<^verbatim>\<open>go/ssa\<close>
  give is an argument, and so is what each extractor sees of a package, whose type is \<open>'p\<close>. The
  extractors run in goroutines of their own and write different variables, so their order
  does not matter. Clearing the syntax of the packages afterwards is not modelled: nothing but
  the extractors reads it.
\<close>

record ('p, 'f) package_views =
  vw_PkgPath :: "'p \<Rightarrow> string"
  vw_Errors :: "'p \<Rightarrow> string list"
  vw_hasTypes :: "'p \<Rightarrow> bool"
  vw_imports :: "'p \<Rightarrow> Pkg \<times> string list \<times> parsed_file list"
  vw_syntax :: "'p \<Rightarrow> syntax_package"
  vw_decls :: "'p \<Rightarrow> string \<times> FuncDecl list list"
  vw_file :: "'p \<Rightarrow> file_package option"
  vw_symbols :: "'p \<Rightarrow> symbol_package option"
  vw_entry :: "'p \<Rightarrow> entry_package option"
  vw_orm :: "'p \<Rightarrow> orm_package"
  vw_edges :: "'p \<Rightarrow> edge_package option"
  vw_packageOf :: "nat \<Rightarrow> string"
  vw_floats :: "'f float_ops"
  vw_printer :: source_printer
  vw_probe :: file_probe
  vw_md5 :: "string \<Rightarrow> string"
  vw_now :: int

text \<open>\<open>'g\<close> is an SSA function; \<open>None\<close> as its package path is a function without a package.\<close>

record ('p, 'g) package_loader =
  ldr_fast :: "string list \<Rightarrow> SourceFilter option \<Rightarrow> string + 'p list"
  ldr_packages :: "LoadMode \<Rightarrow> string list \<Rightarrow> string + 'p list"
  ldr_ssa :: "'p list \<Rightarrow> ('g option \<times> string option) list option"   \<comment> \<open>the functions of the program, if there is one\<close>

record ('p, 'f, 'g) loaded_program =
  lpg_Packages :: "'p list"
  lpg_SSAFuncs :: "'g list"
  lpg_RootPaths :: "string list"
  lpg_Patterns :: "string list"
  lpg_Mode :: LoadMode
  lpg_importLocs :: "(string \<times> import_locs) list"
  lpg_httpRoutes :: "HTTPRoute list"
  lpg_grpcEndpoints :: "GRPCEndpoint list"
  lpg_grpcRegistrations :: "GRPCRegistration list"
  lpg_methodFingerprints :: "MethodFingerprint list"
  lpg_complexityMetrics :: "'f FunctionComplexity list"
  lpg_fileMetas :: "FileMeta list"
  lpg_codeSymbols :: "CodeSymbol list"
  lpg_symbolHashes :: "SymbolHash list"
  lpg_entrypoints :: "Entrypoint list"
  lpg_ormModels :: "OrmModel list"

text \<open>\<^verbatim>\<open>%v\<close> of a list of strings.\<close>

definition listText :: "string list \<Rightarrow> string" where
  "listText xs = ''['' @ Join '' '' xs @ '']''"

definition loadErrors :: "('p, 'f) package_views \<Rightarrow> 'p list \<Rightarrow> string list" where
  "loadErrors W pkgs = concat (map (\<lambda>p. map (\<lambda>msg. vw_PkgPath W p @ '': '' @ msg) (vw_Errors W p)) pkgs)"

definition loadPackages ::
  "('p, 'g) package_loader \<Rightarrow> string \<Rightarrow> string list \<Rightarrow> LoadMode \<Rightarrow> string + SourceFilter option \<Rightarrow> string + 'p list" where
  "loadPackages L dir patterns mode filt =
     (let filt = (case filt of Inl _ \<Rightarrow> None | Inr f \<Rightarrow> f)
      in case (if mode = LoadModeSyntax then ldr_fast L patterns filt else ldr_packages L mode patterns) of
           Inl e \<Rightarrow> Inl (''loading packages: '' @ e)
         | Inr pkgs \<Rightarrow>
             if length pkgs = 0 then Inl (''no packages matched patterns '' @ listText patterns @ '' under '' @ dir)
             else Inr pkgs)"

text \<open>Errors of packages are logged; they fail the load when no package has types.\<close>

definition checkErrors :: "('p, 'f) package_views \<Rightarrow> LoadMode \<Rightarrow> 'p list \<Rightarrow> string option" where
  "checkErrors W mode pkgs =
     (let errs = loadErrors W pkgs
      in if length errs > 0 \<and> mode \<ge> LoadModeTypes \<and> \<not> list_ex (vw_hasTypes W) pkgs
         then Some (''all packages failed to load: '' @ hd errs) else None)"

definition rootPathsOf :: "('p, 'f) package_views \<Rightarrow> 'p list \<Rightarrow> string list" where
  "rootPathsOf W pkgs = dedup (filter (\<lambda>path. path \<noteq> '''') (map (vw_PkgPath W) pkgs))"

definition rootFunctions :: "string list \<Rightarrow> ('g option \<times> string option) list \<Rightarrow> 'g list" where
  "rootFunctions rootPaths fns =
     List.map_filter (\<lambda>(fn, pkg). case (fn, pkg) of
         (Some g, Some path) \<Rightarrow> if path \<in> set rootPaths then Some g else None
       | _ \<Rightarrow> None) fns"

definition ssaFunctions :: "('p, 'g) package_loader \<Rightarrow> LoadMode \<Rightarrow> string list \<Rightarrow> 'p list \<Rightarrow> string + 'g list" where
  "ssaFunctions L mode rootPaths pkgs =
     (if mode = LoadModeSSA then
        (case ldr_ssa L pkgs of
           None \<Rightarrow> Inl ''ssa program could not be created (likely due to type errors above)''
         | Some fns \<Rightarrow> Inr (rootFunctions rootPaths fns))
      else Inr [])"

text \<open>A Go map, in the order of its last assignments; nil below the mode that fills it.\<close>

definition importLocsOf :: "('p, 'f) package_views \<Rightarrow> LoadMode \<Rightarrow> 'p list \<Rightarrow> (string \<times> import_locs) list" where
  "importLocsOf W mode pkgs =
     (if mode \<ge> LoadModeTypes
      then fold (\<lambda>p m. AList.update (vw_PkgPath W p)
             (case vw_imports W p of (pkg, keys, files) \<Rightarrow> extractImportLocsFromPkg pkg keys files) m) pkgs []
      else [])"

text \<open>What the eight extractors read off the packages, with the rest of the loaded program.\<close>

definition extractedProgram ::
  "('p, 'f) package_views \<Rightarrow> string list \<Rightarrow> LoadMode \<Rightarrow> string list \<Rightarrow> 'g list \<Rightarrow> 'p list \<Rightarrow> ('p, 'f, 'g) loaded_program" where
  "extractedProgram W patterns mode rootPaths funcs pkgs =
     (let grpc = extractGRPCFromSyntax (map (vw_syntax W) pkgs);
          symbols = ExtractCodeSymbolsFromSyntax (vw_md5 W) (vw_now W) (map (vw_symbols W) pkgs)
      in \<lparr>lpg_Packages = pkgs, lpg_SSAFuncs = funcs, lpg_RootPaths = rootPaths,
           lpg_Patterns = patterns, lpg_Mode = mode, lpg_importLocs = importLocsOf W mode pkgs,
           lpg_httpRoutes = extractRoutesFromSyntax (vw_packageOf W) (map (vw_syntax W) pkgs),
           lpg_grpcEndpoints = fst grpc, lpg_grpcRegistrations = snd grpc,
           lpg_methodFingerprints = extractMethodFingerprintsFromSyntax (vw_printer W) (map (vw_decls W) pkgs),
           lpg_complexityMetrics = extractComplexityFromSyntax (vw_floats W) (map (vw_decls W) pkgs),
           lpg_fileMetas = extractFileMetasFromPackages (vw_probe W) (vw_now W) (map (vw_file W) pkgs),
           lpg_codeSymbols = fst symbols, lpg_symbolHashes = snd symbols,
           lpg_entrypoints = extractEntrypointsFromSyntax (map (vw_entry W) pkgs),
           lpg_ormModels = extractOrmModelsFromSyntax (map (vw_orm W) pkgs)\<rparr>)"

definition loadProgram ::
  "('p, 'f) package_views \<Rightarrow> ('p, 'g) package_loader \<Rightarrow> (string \<Rightarrow> bool) \<Rightarrow> string + SourceFilter option \<Rightarrow>
   string \<Rightarrow> string list \<Rightarrow> LoadMode \<Rightarrow> string + ('p, 'f, 'g) loaded_program" where
  "loadProgram W L exists filt dir patterns mode =
     (let patterns = normalizePatternsForDir exists dir patterns
      in case loadPackages L dir patterns mode filt of
           Inl e \<Rightarrow> Inl e
         | Inr pkgs \<Rightarrow>
             (case checkErrors W mode pkgs of
                Some e \<Rightarrow> Inl e
              | None \<Rightarrow>
                  (let rootPaths = rootPathsOf W pkgs
                   in case ssaFunctions L mode rootPaths pkgs of
                        Inl e \<Rightarrow> Inl e
                      | Inr funcs \<Rightarrow> Inr (extractedProgram W patterns mode rootPaths funcs pkgs))))"

text \<open>The part of a loaded program that \<^verbatim>\<open>ShadowStoreProgram\<close> reads.\<close>

definition storedPart :: "('p, 'f) package_views \<Rightarrow> ('p, 'f, 'g) loaded_program \<Rightarrow> 'f stored_program" where
  "storedPart W prog =
     \<lparr>spr_Packages = map (vw_edges W) (lpg_Packages prog), spr_fileMetas = lpg_fileMetas prog,
      spr_complexityMetrics = lpg_complexityMetrics prog, spr_httpRoutes = lpg_httpRoutes prog,
      spr_grpcEndpoints = lpg_grpcEndpoints prog, spr_grpcRegistrations = lpg_grpcRegistrations prog,
      spr_codeSymbols = lpg_codeSymbols prog, spr_symbolHashes = lpg_symbolHashes prog\<rparr>"

section \<open>Facts\<close>

lemma root_functions_in:
  "g \<in> set (rootFunctions rootPaths fns) \<longleftrightarrow> (\<exists>path \<in> set rootPaths. (Some g, Some path) \<in> set fns)"
proof (induction fns)
  case (Cons a fns)
  then show ?case
    by (cases a) (auto simp: rootFunctions_def map_filter_simps split: option.splits if_splits)
qed (simp add: rootFunctions_def map_filter_simps)

lemma root_paths_set: "set (rootPathsOf W pkgs) = vw_PkgPath W ` set pkgs - {''''}"
  by (auto simp: rootPathsOf_def)

text \<open>
  A load that succeeds in the SSA mode holds exactly the functions of the requested packages; in any
  other mode it holds none.
\<close>

lemma loaded_packages:
  assumes "loadProgram W L exists filt dir patterns mode = Inr prog"
  shows "lpg_Mode prog = mode" "lpg_Packages prog \<noteq> []"
    and "ssaFunctions L mode (rootPathsOf W (lpg_Packages prog)) (lpg_Packages prog) = Inr (lpg_SSAFuncs prog)"
  using assms by (auto simp: loadProgram_def extractedProgram_def Let_def loadPackages_def split: sum.splits option.splits if_splits)

lemma loaded_functions:
  assumes "loadProgram W L exists filt dir patterns mode = Inr prog"
  shows "if mode = LoadModeSSA
         then \<exists>fns. ldr_ssa L (lpg_Packages prog) = Some fns \<and>
           set (lpg_SSAFuncs prog) =
             {g. \<exists>p \<in> set (lpg_Packages prog). vw_PkgPath W p \<noteq> '''' \<and> (Some g, Some (vw_PkgPath W p)) \<in> set fns}
         else lpg_SSAFuncs prog = []"
proof (cases "mode = LoadModeSSA")
  case True
  with loaded_packages(3)[OF assms] obtain fns where fns: "ldr_ssa L (lpg_Packages prog) = Some fns"
    "lpg_SSAFuncs prog = rootFunctions (rootPathsOf W (lpg_Packages prog)) fns"
    by (auto simp: ssaFunctions_def split: option.splits)
  have "set (lpg_SSAFuncs prog) =
      {g. \<exists>p \<in> set (lpg_Packages prog). vw_PkgPath W p \<noteq> '''' \<and> (Some g, Some (vw_PkgPath W p)) \<in> set fns}"
    unfolding fns(2) set_eq_iff root_functions_in root_paths_set by blast
  with True fns(1) show ?thesis by simp
next
  case False
  with loaded_packages(3)[OF assms] show ?thesis by (simp add: ssaFunctions_def)
qed

text \<open>
  A package with errors does not fail the load as long as some package has types, and never when only
  the syntax is asked for.
\<close>

lemma errors_are_tolerated: "mode < LoadModeTypes \<or> list_ex (vw_hasTypes W) pkgs \<Longrightarrow> checkErrors W mode pkgs = None"
  by (auto simp: checkErrors_def Let_def)

text \<open>
  From the source to the answer of a tool: the routes listed after a program was loaded and stored
  are those extracted from its packages and those stored before.
\<close>

lemma loaded_routes_are_listed:
  fixes W :: "('p, 'f) package_views"
  assumes "loadProgram W L exists filt dir patterns mode = Inr prog" "vw_now W \<noteq> 0"
    and "never_fails E" "\<forall>n. se_now E n \<noteq> 0"
    and "ShadowStoreProgram E C N V X root (Some (storedPart W prog)) s = (Inr (), t)" "store_inv (st_db s)"
    and "se_ensure E = None" "se_open E = None" "no_paging opts"
  shows "\<exists>r u. ListHTTPRoutesWithOptions pg E (Inr ()) dir pattern opts t = (Inr (Inr r), u)
    \<and> sorted (map route_order_key (rr_Routes r)) \<and> distinct (rr_Routes r)
    \<and> route_row_of ` set (rr_Routes r) =
        route_row_of ` set (extractRoutesFromSyntax (vw_packageOf W) (map (vw_syntax W) (lpg_Packages prog))) \<union> set (db_routes (st_db s))"
proof -
  have extracted: "lpg_httpRoutes prog = extractRoutesFromSyntax (vw_packageOf W) (map (vw_syntax W) (lpg_Packages prog))"
    "lpg_symbolHashes prog = snd (ExtractCodeSymbolsFromSyntax (vw_md5 W) (vw_now W) (map (vw_symbols W) (lpg_Packages prog)))"
    using assms(1) by (auto simp: loadProgram_def extractedProgram_def Let_def split: sum.splits option.splits)
  have "\<forall>h\<in>set (spr_symbolHashes (storedPart W prog)). smh_CreatedAt h \<noteq> 0"
    using assms(2) by (simp add: storedPart_def extracted(2) extracted_hashes symbolHashForCodeSymbol_def Let_def)
  then show ?thesis
    using stored_routes_in_order [OF assms(3,4) _ assms(5,6,3,7,8,9) refl, of pg dir pattern]
    by (simp add: storedPart_def extracted(1))
qed

end
