(* ===== verification/Spec2Isabelle.thy ===== *)
theory Spec2Isabelle
  imports Boundaries Call_Graph Concurrency Duplicate_Methods Interfaces Lifecycle Complexity_Report Compute_Mutex Config Dead_Code
    Handlers Source_State Workflows Workspace_Cache Sync_Manager Entrypoints Store_Listings Orphaned_Models
    Store_Search Tool_Handlers Loading Runtime Program_Loading
begin

text \<open>
  A verification library for \<^verbatim>\<open>go-arch-xray\<close>, a server that answers architecture questions about
  Go workspaces over MCP. The implementation is \<^verbatim>\<open>src/main.go\<close> (tool handlers, options, the
  background runtime) and \<^verbatim>\<open>src/analyzer\<close> (the analyses, the workspace cache, the SQLite store and
  the background synchronisation).

  A tool call resolves its root, patterns and configuration, takes the compute lock when it is slow,
  obtains a loaded program from the workspace cache or rows from the store, runs an analysis, and
  returns one window or one chunk of the sorted result. Beside the calls a file watcher compares
  file hashes with the store and enqueues rebuilds; the synchronisation loop takes them in order of
  priority, loads the workspace under the same lock and stores the program in one transaction.
\<close>

section \<open>Parts\<close>

text \<open>
  \<^bold>\<open>Groundwork.\<close> \<open>Prelude\<close>: wrapping 64-bit arithmetic, \<^verbatim>\<open>sort.Slice\<close> as a stable insertion sort with
  the locales \<open>less_order\<close> and \<open>key_order\<close> (the comparison functions of the source interpret
  \<open>key_order\<close>, which gives sortedness and uniqueness of the order), loops with a map of seen keys as
  \<open>dedup_by\<close>. \<open>Go_Strings\<close>, \<open>Go_Paths\<close>, \<open>Encoding\<close>, \<open>Go_Literals\<close>: what is used of \<^verbatim>\<open>strings\<close>,
  \<^verbatim>\<open>strconv\<close>, \<^verbatim>\<open>path/filepath\<close>, \<^verbatim>\<open>encoding/base64\<close>. \<open>Go_Syntax\<close>, \<open>Go_Inspect\<close>, \<open>Go_Types\<close>: syntax trees,
  \<^verbatim>\<open>ast.Inspect\<close> and types as terms. \<open>Graph_Search\<close>: a recursive visit and a worklist over successor
  lists, in the locale \<open>finite_graph\<close>.

  \<^bold>\<open>Windows and streams\<close> (\<open>Query_Window\<close>; \<^verbatim>\<open>query_options.go\<close>, \<^verbatim>\<open>streaming.go\<close>): window bounds with Go's
  overflow, cursors and their fingerprint. Shown: bounds never leave the slice, a client that
  follows the cursors reads every item once and stops, stale cursors are refused.

  \<^bold>\<open>Synchronisation\<close> (\<open>Compute_Mutex\<close>, \<open>Rebuild_Queue\<close>, \<open>Sync_Manager\<close>, \<open>Source_State\<close>, \<open>Runtime\<close>;
  \<^verbatim>\<open>compute_mutex.go\<close>, \<^verbatim>\<open>sync_queue.go\<close>, \<^verbatim>\<open>sync_manager.go\<close>, \<^verbatim>\<open>sync_state.go\<close>, \<^verbatim>\<open>source_filter.go\<close>,
  \<^verbatim>\<open>file_watcher.go\<close>, \<^verbatim>\<open>main.go\<close>): the states are records with the fields of the structs, an operation
  that Go performs under a mutex is one step, and calls from several goroutines are an
  inductive step relation whose reachable states are all interleavings. Shown: mutual exclusion,
  the order of the queue (locale \<open>work_queue\<close>), atomic snapshots, exact change detection, and
  that tools and rebuilds share one lock.

  \<^bold>\<open>Workspace cache and loading\<close> (\<open>Patterns\<close>, \<open>Workspace_Cache\<close>, \<open>Loading\<close>, \<open>Program_Loading\<close>;
  \<^verbatim>\<open>workspace.go\<close>, \<^verbatim>\<open>scope.go\<close>): the cache with its capacity, time to live and loads in flight refines
  an abstract least-recently-used map and keeps its invariant; the quick loader groups exactly the
  accepted files by directory (\<open>fast_load_exact\<close>); \<^verbatim>\<open>loadProgram\<close> composes the extractors.

  \<^bold>\<open>Configuration\<close> (\<open>Config\<close>; \<^verbatim>\<open>config.go\<close>, \<^verbatim>\<open>duration.go\<close>, \<^verbatim>\<open>workspace_layout.go\<close>): the merge of the suggested,
  user, repository and project layers, its well-formedness, and the configuration tools.

  \<^bold>\<open>Analyses over packages\<close>: \<open>Import_Graph\<close> (\<^verbatim>\<open>dependencies.go\<close>, \<^verbatim>\<open>reverse_dependencies.go\<close>,
  \<^verbatim>\<open>cycles.go\<close>), \<open>Boundaries\<close>, \<open>Interfaces\<close>, \<open>Graph_Export\<close>. Shown: reported dependents, violations and
  implementors are exactly those of a set-based definition, in order.

  \<^bold>\<open>Analyses over calls and SSA\<close>: \<open>Call_Graph\<close> (\<^verbatim>\<open>call_hierarchy.go\<close>, \<^verbatim>\<open>callers.go\<close>, \<^verbatim>\<open>call_path.go\<close>),
  \<open>Dead_Code\<close>, \<open>Dataflow\<close> and \<open>Access_Summaries\<close> (\<^verbatim>\<open>dataflow.go\<close>), \<open>Concurrency\<close>, \<open>Lifecycle\<close>,
  \<open>Orphaned_Models\<close>. Shown: completeness and exactness of each report against call chains,
  reachability or the accesses of the program.

  \<^bold>\<open>Analyses over syntax\<close>: \<open>Complexity\<close>, \<open>Halstead\<close>, \<open>Complexity_Report\<close>, \<open>Duplicate_Methods\<close>,
  \<open>Entrypoints\<close>, \<open>Http_Routes\<close>, \<open>Grpc\<close>, \<open>Symbols\<close>, \<open>Embeddings\<close>. The syntax visitors thread their state
  as the code does and are shown equal to counts over the nodes or tokens of a body.

  \<^bold>\<open>Store\<close> (\<^verbatim>\<open>storage.go\<close>): \<open>Store_Tables\<close> has rows, keyed upserts (locales \<open>keyed_table\<close> and
  \<open>replacing_table\<close>, interpreted on every table) and an action monad over a database in which the
  engine may refuse any statement; \<open>Store\<close> has every operation as such an action. \<open>Store_Facts\<close>
  (effects on the content), \<open>Store_Index\<close> (atomicity and invariant, wherever a statement fails),
  \<open>Store_Runs\<close> (runs that succeed), \<open>Store_Reads\<close>, \<open>Store_Search\<close> and \<open>Store_Listings\<close> (what is read after
  a program was stored).

  \<^bold>\<open>Server\<close> (\<^verbatim>\<open>main.go\<close>): \<open>Handlers\<close> and \<open>Tool_Handlers\<close> have the inputs, options and handlers of the
  tools, \<open>Runtime\<close> the routers and the start of the process, \<open>Workflows\<close> the workflow guide. A
  server is the workspace with the lock of the router; every slow tool keeps the protocol of the
  lock, whatever its analysis does.
\<close>

section \<open>Conventions\<close>

text \<open>
  Structs are records whose fields carry a short prefix and the name in the source; enums are
  datatypes; \<^verbatim>\<open>int\<close> is \<^typ>\<open>int\<close>, wrapped to 64 bits where an overflow can be reached. Errors are
  sums, pointers that may be nil are options. A Go map is a function or an association list;
  where the code ranges over one, the model fixes an order and the theorem is about a result
  that does not depend on it, or the finding says so. Slices are values; a shared array is noted
  where the code depends on it.

  Fuel and termination. Recursions over the input are structural or have a measure: the remaining
  depth of a call walk, the unvisited nodes of a search, the types not yet seen in a type walk,
  the recency list of the cache. \<open>visit\<close> and \<open>AllLoadedPackages\<close> have fuel; more than the number of
  nodes is enough (\<open>visit_ok\<close>), and the theorems have that as their bound. The memory keys of
  \<open>Dataflow\<close> follow operands, which may be cyclic: the result is \<open>None\<close> when fuel runs out, twice the
  longest operand chain plus two is enough (\<open>access_summaries_terminate\<close>), and for a cycle of phi
  nodes no fuel is, as the program then recurses without end. The wrapper scan of
  \<open>Orphaned_Models\<close> is bounded by the constants of the code.
\<close>

section \<open>Not modelled\<close>

text \<open>
  Parameters of the model: \<^verbatim>\<open>go/packages\<close>, \<^verbatim>\<open>go/parser\<close>, \<^verbatim>\<open>go/types\<close> (method sets, identity of
  underlying types), \<^verbatim>\<open>go/ssa\<close> with its call graph, \<^verbatim>\<open>go/printer\<close>, the SQL engine and its vector
  extension, hashes, floating point arithmetic and logarithms, the file system, the clock, JSON
  and YAML decoding, HTTP requests to embedding services. What a theorem needs of one of them is
  a named hypothesis of it.

  Left out: \<^verbatim>\<open>newServer\<close>, which registers handlers under names and descriptions with the MCP library;
  \<^verbatim>\<open>main\<close>; logging; tickers, whose ticks are steps; clearing the syntax of packages after a load,
  which only frees memory once the extractors have run; and the schema text of the database, of
  which the keys of the tables are modelled. The goroutines of the extractors write different
  variables and are run one after the other.
\<close>

end
